(* ===== verification/Prelude.thy ===== *)
theory Prelude
  imports Main
begin

text \<open>
  Shared vocabulary of the development: Go's two ways of reporting a failure (a nil-able
  \<open>error\<close> and a value/error pair), the early-return idioms of the sources as combinators whose
  success is a conjunction, loops over slices, Go maps used as sets, and decimal printing.

  \<^item> \<open>'e option\<close> is Go's \<open>error\<close> result: \<open>None\<close> is \<open>nil\<close>;
  \<^item> \<open>'e + 'a\<close> is a \<open>(value, error)\<close> pair: \<open>Inl\<close> the error, \<open>Inr\<close> the value;
  \<^item> \<open>fail_if c e\<close> is \<^verbatim>\<open>if c { return e }\<close>;
  \<^item> \<open>first_error [a, b, c]\<close> is a run of such statements, the first error wins;
  \<^item> \<open>range_error f xs\<close> is \<^verbatim>\<open>for i, x := range xs { if err := f(i, x); err != nil { return err } }\<close>;
  \<^item> \<open>check r k\<close> is \<^verbatim>\<open>if err := r; err != nil { return err }; k\<close>;
  \<^item> \<open>bind_result r k\<close> is \<^verbatim>\<open>v, err := r; if err != nil { return err }; k(v)\<close>.
\<close>

named_theorems result_iff \<open>success of an early-return chain as a conjunction\<close>

definition fail_if :: "bool \<Rightarrow> 'e \<Rightarrow> 'e option" where
  "fail_if c e = (if c then Some e else None)"

fun first_error :: "'e option list \<Rightarrow> 'e option" where
  "first_error [] = None"
| "first_error (Some e # rs) = Some e"
| "first_error (None # rs) = first_error rs"

fun range_error_from :: "nat \<Rightarrow> (nat \<Rightarrow> 'a \<Rightarrow> 'e option) \<Rightarrow> 'a list \<Rightarrow> 'e option" where
  "range_error_from i f [] = None"
| "range_error_from i f (x # xs) =
     (case f i x of Some e \<Rightarrow> Some e | None \<Rightarrow> range_error_from (Suc i) f xs)"

definition range_error :: "(nat \<Rightarrow> 'a \<Rightarrow> 'e option) \<Rightarrow> 'a list \<Rightarrow> 'e option" where
  "range_error f xs = range_error_from 0 f xs"

definition check :: "'e option \<Rightarrow> 'e + 'a \<Rightarrow> 'e + 'a" where
  "check r k = (case r of Some e \<Rightarrow> Inl e | None \<Rightarrow> k)"

definition bind_result :: "'e + 'a \<Rightarrow> ('a \<Rightarrow> 'e + 'b) \<Rightarrow> 'e + 'b" where
  "bind_result r k = (case r of Inl e \<Rightarrow> Inl e | Inr v \<Rightarrow> k v)"

definition map_error :: "('e \<Rightarrow> 'f) \<Rightarrow> 'e + 'a \<Rightarrow> 'f + 'a" where
  "map_error g r = (case r of Inl e \<Rightarrow> Inl (g e) | Inr v \<Rightarrow> Inr v)"

definition error_of :: "'e + 'a \<Rightarrow> 'e option" where
  "error_of r = (case r of Inl e \<Rightarrow> Some e | Inr v \<Rightarrow> None)"

subsection \<open>Success of the combinators\<close>

lemma fail_if_None [simp, result_iff]: "fail_if c e = None \<longleftrightarrow> \<not> c"
  by (simp add: fail_if_def)

lemma fail_if_Some [simp]: "fail_if c e = Some e' \<longleftrightarrow> c \<and> e' = e"
  by (auto simp: fail_if_def)

lemma first_error_Cons: "first_error (r # rs) = (case r of Some e \<Rightarrow> Some e | None \<Rightarrow> first_error rs)"
  by (cases r) simp_all

lemma first_error_Cons_None [simp, result_iff]:
  "first_error (r # rs) = None \<longleftrightarrow> r = None \<and> first_error rs = None"
  by (cases r) simp_all

lemma first_error_append_None [simp]:
  "first_error (rs @ ss) = None \<longleftrightarrow> first_error rs = None \<and> first_error ss = None"
  by (induction rs) simp_all

lemma first_error_None_iff: "first_error rs = None \<longleftrightarrow> (\<forall>r \<in> set rs. r = None)"
  by (induction rs) simp_all

lemma range_error_from_None:
  "range_error_from k f xs = None \<longleftrightarrow> (\<forall>i < length xs. f (k + i) (xs ! i) = None)"
proof (induction xs arbitrary: k)
  case Nil
  show ?case by simp
next
  case (Cons x xs)
  show ?case
    by (auto simp: Cons.IH All_less_Suc2 split: option.splits)
qed

lemma range_error_None [result_iff]:
  "range_error f xs = None \<longleftrightarrow> (\<forall>i < length xs. f i (xs ! i) = None)"
  by (simp add: range_error_def range_error_from_None)

lemma range_error_None_set:
  assumes "\<And>i x. f i x = None \<longleftrightarrow> P x"
  shows "range_error f xs = None \<longleftrightarrow> (\<forall>x \<in> set xs. P x)"
  by (simp add: range_error_None assms all_set_conv_all_nth)

lemma check_Inr [simp, result_iff]: "check r k = Inr v \<longleftrightarrow> r = None \<and> k = Inr v"
  by (cases r) (simp_all add: check_def)

lemma check_None [simp]: "check None k = k"
  by (simp add: check_def)

lemma check_Some [simp]: "check (Some e) k = Inl e"
  by (simp add: check_def)

lemma bind_result_Inr [simp, result_iff]:
  "bind_result r k = Inr v \<longleftrightarrow> (\<exists>u. r = Inr u \<and> k u = Inr v)"
  by (cases r) (simp_all add: bind_result_def)

lemma bind_result_simps [simp]:
  "bind_result (Inl e) k = Inl e" "bind_result (Inr v) k = k v"
  by (simp_all add: bind_result_def)

lemma map_error_Inr [simp, result_iff]: "map_error g r = Inr v \<longleftrightarrow> r = Inr v"
  by (cases r) (simp_all add: map_error_def)

lemma map_error_simps [simp]: "map_error g (Inl e) = Inl (g e)" "map_error g (Inr v) = Inr v"
  by (simp_all add: map_error_def)

lemma error_of_None [simp, result_iff]: "error_of r = None \<longleftrightarrow> (\<exists>v. r = Inr v)"
  by (cases r) (simp_all add: error_of_def)

lemma error_of_simps [simp]: "error_of (Inl e) = Some e" "error_of (Inr v) = None"
  by (simp_all add: error_of_def)

subsection \<open>Loops that collect results\<close>

text \<open>The loop that fills \<open>result[i]\<close> from a fallible call and returns at the first error.\<close>

fun sequence_results :: "('e + 'a) list \<Rightarrow> 'e + 'a list" where
  "sequence_results [] = Inr []"
| "sequence_results (r # rs) =
     bind_result r (\<lambda>x. bind_result (sequence_results rs) (\<lambda>xs. Inr (x # xs)))"

lemma sequence_results_Inr: "sequence_results rs = Inr xs \<longleftrightarrow> rs = map Inr xs"
  by (induction rs arbitrary: xs) auto

lemma sequence_results_map_Inr:
  "sequence_results (map f xs) = Inr ys \<longleftrightarrow> length ys = length xs \<and> (\<forall>i < length xs. f (xs ! i) = Inr (ys ! i))"
  by (auto simp: sequence_results_Inr list_eq_iff_nth_eq)

lemma sequence_results_list_all2:
  "sequence_results (map f xs) = Inr ys \<longleftrightarrow> list_all2 (\<lambda>x y. f x = Inr y) xs ys"
  by (auto simp: sequence_results_map_Inr list_all2_conv_all_nth)

lemma sequence_results_each:
  "\<forall>x \<in> set xs. \<exists>y. f x = Inr y \<and> P x y \<Longrightarrow> \<exists>ys. sequence_results (map f xs) = Inr ys \<and> list_all2 P xs ys"
  by (induction xs) auto

lemma list_all2_concat_map:
  "list_all2 (\<lambda>x y. list_all2 P (g x) (h y)) xs ys \<Longrightarrow> list_all2 P (concat (map g xs)) (concat (map h ys))"
  by (induction rule: list_all2_induct) (auto intro: list_all2_appendI)

lemma list_all2_from_right: "list_all2 P xs ys \<Longrightarrow> y \<in> set ys \<Longrightarrow> \<exists>x \<in> set xs. P x y"
  by (induction rule: list_all2_induct) auto

lemma list_all2_map_eq: "list_all2 (\<lambda>x y. h x = k y) xs ys \<Longrightarrow> map h xs = map k ys"
  by (induction rule: list_all2_induct) auto

subsection \<open>Loops that insert keys into a Go map used as a set\<close>

text \<open>
  \<open>seen_error key seen e xs\<close> is the loop that fails with \<open>e\<close> at the first element whose key is
  already in \<open>seen\<close>, and inserts the key otherwise.
\<close>

fun seen_error :: "('a \<Rightarrow> 'k) \<Rightarrow> 'k list \<Rightarrow> 'e \<Rightarrow> 'a list \<Rightarrow> 'e option" where
  "seen_error key seen e [] = None"
| "seen_error key seen e (x # xs) =
     (if key x \<in> set seen then Some e else seen_error key (key x # seen) e xs)"

lemma seen_error_None:
  "seen_error key seen e xs = None \<longleftrightarrow>
     distinct (map key xs) \<and> set (map key xs) \<inter> set seen = {}"
  by (induction xs arbitrary: seen) auto

lemma seen_error_Nil_None [simp, result_iff]:
  "seen_error key [] e xs = None \<longleftrightarrow> distinct (map key xs)"
  by (simp add: seen_error_None)

subsection \<open>Decimal printing (the \<open>%d\<close> verb and \<open>strconv.Itoa\<close>)\<close>

definition digit_char :: "nat \<Rightarrow> char" where
  "digit_char d = char_of (48 + d)"

fun itoa :: "nat \<Rightarrow> string" where
  "itoa n = (if n < 10 then [digit_char n] else itoa (n div 10) @ [digit_char (n mod 10)])"

declare itoa.simps [simp del]

definition itoa_int :: "int \<Rightarrow> string" where
  "itoa_int i = (if i < 0 then CHR ''-'' # itoa (nat (- i)) else itoa (nat i))"

lemma itoa_nonempty: "itoa n \<noteq> []"
  by (subst itoa.simps) simp

text \<open>Paths of validation errors: \<^verbatim>\<open>path + ".name"\<close> and \<^verbatim>\<open>fmt.Sprintf("%s[%d]", path, i)\<close>.\<close>

definition sub_path :: "string \<Rightarrow> string \<Rightarrow> string" where
  "sub_path p s = p @ ''.'' @ s"

definition index_path :: "string \<Rightarrow> nat \<Rightarrow> string" where
  "index_path p i = p @ ''['' @ itoa i @ '']''"

end
