(* ===== verification/Go_Strings.thy ===== *)
theory Go_Strings
  imports Prelude
begin

text \<open>
  Go strings and byte slices are byte sequences; Isabelle's \<^typ>\<open>string\<close> is a list of 8-bit
  characters, so a Go string is a \<^typ>\<open>string\<close> byte for byte and \<open>len\<close> is \<^const>\<open>length\<close>. This theory
  models the parts of the packages \<open>strings\<close>, \<open>bytes\<close> and \<open>regexp\<close> that the sources call.

  Case mapping. \<open>strings.ToLower\<close> and \<open>strings.ToUpper\<close> are called by the modelled code on portable
  identifiers and on fixed keywords only, that is on ASCII, where they act bytewise.
  \<open>strings.EqualFold\<close> is called with one ASCII argument (an identifier of the policy or of a
  validated query); the other one may be any name a database reports. Two characters outside ASCII
  fold to an ASCII letter, U+212A (E2 84 AA, to k) and U+017F (C5 BF, to s). \<open>EqualFold\<close> below
  folds them too, so it agrees with Go whenever one of the arguments is ASCII.
\<close>

section \<open>Bytes\<close>

abbreviation byte :: "char \<Rightarrow> nat" where
  "byte c \<equiv> of_char c"

definition is_digit :: "char \<Rightarrow> bool" where
  "is_digit c \<longleftrightarrow> 48 \<le> byte c \<and> byte c \<le> 57"

definition is_upper :: "char \<Rightarrow> bool" where
  "is_upper c \<longleftrightarrow> 65 \<le> byte c \<and> byte c \<le> 90"

definition is_lower :: "char \<Rightarrow> bool" where
  "is_lower c \<longleftrightarrow> 97 \<le> byte c \<and> byte c \<le> 122"

definition is_ascii :: "char \<Rightarrow> bool" where
  "is_ascii c \<longleftrightarrow> byte c < 128"

definition is_hex :: "char \<Rightarrow> bool" where
  "is_hex c \<longleftrightarrow> is_digit c \<or> (97 \<le> byte c \<and> byte c \<le> 102) \<or> (65 \<le> byte c \<and> byte c \<le> 70)"

definition digit_value :: "char \<Rightarrow> nat" where
  "digit_value c = byte c - 48"

definition lower_char :: "char \<Rightarrow> char" where
  "lower_char c = (if is_upper c then char_of (byte c + 32) else c)"

definition upper_char :: "char \<Rightarrow> char" where
  "upper_char c = (if is_lower c then char_of (byte c - 32) else c)"

definition ToLower :: "string \<Rightarrow> string" where
  "ToLower s = map lower_char s"

definition ToUpper :: "string \<Rightarrow> string" where
  "ToUpper s = map upper_char s"

fun fold_string :: "string \<Rightarrow> string" where
  "fold_string (a # b # c # s) =
     (if byte a = 226 \<and> byte b = 132 \<and> byte c = 170 then CHR ''k'' # fold_string s
      else if byte a = 197 \<and> byte b = 191 then CHR ''s'' # fold_string (c # s)
      else lower_char a # fold_string (b # c # s))"
| "fold_string [a, b] =
     (if byte a = 197 \<and> byte b = 191 then [CHR ''s''] else [lower_char a, lower_char b])"
| "fold_string [a] = [lower_char a]"
| "fold_string [] = []"

definition EqualFold :: "string \<Rightarrow> string \<Rightarrow> bool" where
  "EqualFold s t \<longleftrightarrow> fold_string s = fold_string t"

lemma byte_bound [simp]: "byte c < 256"
  by simp

lemma byte_char_of: "n < 256 \<Longrightarrow> byte (char_of n) = n"
  by simp

lemma byte_eq_iff: "byte c = byte d \<longleftrightarrow> c = d"
  by simp

lemma lower_char_not_upper: "\<not> is_upper (lower_char c)"
  by (auto simp: lower_char_def is_upper_def byte_char_of)

lemma lower_char_idem [simp]: "lower_char (lower_char c) = lower_char c"
  using lower_char_not_upper [of c] by (simp add: lower_char_def)

lemma ToLower_idem [simp]: "ToLower (ToLower s) = ToLower s"
  by (simp add: ToLower_def)

lemma length_ToLower [simp]: "length (ToLower s) = length s"
  by (simp add: ToLower_def)

lemma ToLower_Nil_iff [simp]: "ToLower s = [] \<longleftrightarrow> s = []"
  by (simp add: ToLower_def)

lemma fold_string_ascii: "list_all is_ascii s \<Longrightarrow> fold_string s = ToLower s"
  by (induction s rule: fold_string.induct) (auto simp: ToLower_def is_ascii_def)

lemma EqualFold_ascii:
  "list_all is_ascii s \<Longrightarrow> list_all is_ascii t \<Longrightarrow> EqualFold s t \<longleftrightarrow> ToLower s = ToLower t"
  by (simp add: EqualFold_def fold_string_ascii)

lemma EqualFold_refl [simp]: "EqualFold s s"
  by (simp add: EqualFold_def)

lemma EqualFold_sym: "EqualFold s t \<Longrightarrow> EqualFold t s"
  by (simp add: EqualFold_def)

lemma EqualFold_trans: "EqualFold s t \<Longrightarrow> EqualFold t u \<Longrightarrow> EqualFold s u"
  by (simp add: EqualFold_def)

section \<open>Decimal digits\<close>

text \<open>The value of a digit string, most significant digit first, as the digit loops compute it.\<close>

definition dec_value :: "string \<Rightarrow> nat" where
  "dec_value ds = foldl (\<lambda>n c. n * 10 + digit_value c) 0 ds"

fun fixed_digits :: "nat \<Rightarrow> nat \<Rightarrow> string" where
  "fixed_digits 0 n = []"
| "fixed_digits (Suc k) n = fixed_digits k (n div 10) @ [digit_char (n mod 10)]"

lemma digit_char_is_digit [simp]: "d < 10 \<Longrightarrow> is_digit (digit_char d)"
  by (simp add: is_digit_def digit_char_def)

lemma digit_value_digit_char [simp]: "d < 10 \<Longrightarrow> digit_value (digit_char d) = d"
  by (simp add: digit_value_def digit_char_def)

lemma digit_char_digit_value [simp]: "is_digit c \<Longrightarrow> digit_char (digit_value c) = c"
  by (simp add: is_digit_def digit_value_def digit_char_def)

lemma digit_value_less [simp]: "is_digit c \<Longrightarrow> digit_value c < 10"
  unfolding is_digit_def digit_value_def by arith

lemma dec_value_simps [simp]:
  "dec_value [] = 0" "dec_value (ds @ [c]) = dec_value ds * 10 + digit_value c"
  by (simp_all add: dec_value_def)

lemma dec_value_less: "list_all is_digit ds \<Longrightarrow> dec_value ds < 10 ^ length ds"
proof (induction ds rule: rev_induct)
  case Nil
  show ?case by simp
next
  case (snoc c ds)
  then have "dec_value ds < 10 ^ length ds" and "digit_value c < 10" by simp_all
  then have "dec_value ds * 10 + digit_value c < 10 ^ length ds * 10" by linarith
  then show ?case by simp
qed

lemma dec_value_append: "dec_value (xs @ ys) = dec_value xs * 10 ^ length ys + dec_value ys"
proof (induction ys rule: rev_induct)
  case (snoc y ys)
  have "dec_value (xs @ ys @ [y]) = dec_value ((xs @ ys) @ [y])" by simp
  also have "\<dots> = dec_value (xs @ ys) * 10 + digit_value y" by (simp only: dec_value_simps)
  finally show ?case using snoc by (simp add: algebra_simps)
qed simp

lemma dec_value_Cons: "dec_value (c # cs) = digit_value c * 10 ^ length cs + dec_value cs"
  using dec_value_append [of "[c]" cs] dec_value_simps(2) [of "[]" c] by simp

lemma fixed_digits_props [simp]:
  "length (fixed_digits k n) = k" "list_all is_digit (fixed_digits k n)"
  by (induction k arbitrary: n) simp_all

lemma dec_value_fixed_digits: "dec_value (fixed_digits k n) = n mod 10 ^ k"
proof (induction k arbitrary: n)
  case 0
  show ?case by simp
next
  case (Suc k)
  then show ?case by (simp add: mod_mult2_eq mult.commute)
qed

lemma fixed_digits_dec_value:
  "list_all is_digit ds \<Longrightarrow> fixed_digits (length ds) (dec_value ds) = ds"
  by (induction ds rule: rev_induct) simp_all

section \<open>Splitting and searching\<close>

text \<open>\<open>strings.Split(s, sep)\<close> for a one-byte separator: always at least one part.\<close>

fun Split :: "char \<Rightarrow> string \<Rightarrow> string list" where
  "Split sep [] = [[]]"
| "Split sep (c # s) =
     (if c = sep then [] # Split sep s
      else case Split sep s of [] \<Rightarrow> [[c]] | p # ps \<Rightarrow> (c # p) # ps)"

fun join :: "string \<Rightarrow> string list \<Rightarrow> string" where
  "join sep [] = []"
| "join sep [x] = x"
| "join sep (x # y # ys) = x @ sep @ join sep (y # ys)"

lemma Split_nonempty [simp]: "Split sep s \<noteq> []"
  by (induction s) (auto split: list.splits)

lemma join_Cons_char: "join sep ((c # p) # ps) = c # join sep (p # ps)"
  by (cases ps) simp_all

lemma join_Split: "join [sep] (Split sep s) = s"
proof (induction s)
  case Nil
  show ?case by simp
next
  case (Cons c s)
  obtain p ps where ps: "Split sep s = p # ps"
    by (cases "Split sep s") auto
  with Cons.IH show ?case
    by (cases ps) (auto simp: join_Cons_char)
qed

lemma Split_no_sep: "p \<in> set (Split sep s) \<Longrightarrow> sep \<notin> set p"
  by (induction s arbitrary: p) (auto split: if_splits list.splits)

text \<open>\<open>strings.Cut\<close> at a one-byte separator.\<close>

fun Cut :: "char \<Rightarrow> string \<Rightarrow> (string \<times> string) option" where
  "Cut sep [] = None"
| "Cut sep (c # s) =
     (if c = sep then Some ([], s) else map_option (\<lambda>(a, b). (c # a, b)) (Cut sep s))"

lemma Cut_Some: "Cut sep s = Some (a, b) \<longleftrightarrow> s = a @ sep # b \<and> sep \<notin> set a"
proof (induction s arbitrary: a)
  case Nil
  show ?case by simp
next
  case (Cons c s)
  then show ?case by (cases a) auto
qed

text \<open>
  \<open>bytes.TrimSpace\<close> and \<open>strings.TrimSpace\<close> remove the characters of \<open>unicode.IsSpace\<close>, given here by
  their UTF-8 encodings, from both ends.
\<close>

definition bytes_of :: "nat list \<Rightarrow> string" where
  "bytes_of ns = map char_of ns"

definition unicode_spaces :: "string list" where
  "unicode_spaces = map bytes_of
     ([[9], [10], [11], [12], [13], [32], [194, 133], [194, 160], [225, 154, 128]] @
      map (\<lambda>n. [226, 128, n]) ([128..<139] @ [168, 169, 175]) @ [[226, 129, 159], [227, 128, 128]])"

function strip_prefixes :: "string list \<Rightarrow> string \<Rightarrow> string" where
  "strip_prefixes ps s =
     (case find (\<lambda>p. p \<noteq> [] \<and> take (length p) s = p) ps of
        None \<Rightarrow> s
      | Some p \<Rightarrow> strip_prefixes ps (drop (length p) s))"
  by pat_completeness auto
termination
proof (relation "measure (\<lambda>(ps, s). length s)", goal_cases)
  case 1
  show ?case by simp
next
  case (2 ps s p)
  then have "p \<noteq> []" and "take (length p) s = p"
    by (auto simp: find_Some_iff)
  then have "s \<noteq> []" by auto
  with \<open>p \<noteq> []\<close> show ?case by simp
qed

declare strip_prefixes.simps [simp del]

definition TrimSpace :: "string \<Rightarrow> string" where
  "TrimSpace s =
     rev (strip_prefixes (map rev unicode_spaces) (rev (strip_prefixes unicode_spaces s)))"

section \<open>The regular expressions of the sources\<close>

definition is_word_start :: "char \<Rightarrow> bool" where
  "is_word_start c \<longleftrightarrow> is_upper c \<or> is_lower c \<or> c = CHR ''_''"

definition is_word :: "char \<Rightarrow> bool" where
  "is_word c \<longleftrightarrow> is_word_start c \<or> is_digit c"

text \<open>\<^verbatim>\<open>^[A-Za-z_][A-Za-z0-9_]*$\<close>\<close>

definition identifierPattern :: "string \<Rightarrow> bool" where
  "identifierPattern s \<longleftrightarrow>
     (case s of [] \<Rightarrow> False | c # cs \<Rightarrow> is_word_start c \<and> list_all is_word cs)"

text \<open>\<^verbatim>\<open>(?:0|[1-9][0-9]*)\<close> on a whole digit string\<close>

definition integer_digits :: "string \<Rightarrow> bool" where
  "integer_digits ds \<longleftrightarrow> ds \<noteq> [] \<and> list_all is_digit ds \<and> (length ds = 1 \<or> hd ds \<noteq> CHR ''0'')"

text \<open>An optional fraction \<^verbatim>\<open>(?:\.[0-9]+)?\<close>: the digits and the rest, or \<open>None\<close> for a dot without digits.\<close>

definition split_fraction :: "string \<Rightarrow> (string \<times> string) option" where
  "split_fraction s =
     (case s of
        [] \<Rightarrow> Some ([], [])
      | c # t \<Rightarrow>
          if c = CHR ''.'' then
            (let f = takeWhile is_digit t in if f = [] then None else Some (f, dropWhile is_digit t))
          else Some ([], s))"

definition strip_minus :: "string \<Rightarrow> bool \<times> string" where
  "strip_minus s = (case s of [] \<Rightarrow> (False, []) | c # t \<Rightarrow> if c = CHR ''-'' then (True, t) else (False, s))"

text \<open>\<^verbatim>\<open>^-?(?:0|[1-9][0-9]*)(?:\.[0-9]+)?$\<close>\<close>

definition decimalPattern :: "string \<Rightarrow> bool" where
  "decimalPattern s =
     (let t = snd (strip_minus s); ds = takeWhile is_digit t in
      integer_digits ds \<and>
      (case split_fraction (dropWhile is_digit t) of None \<Rightarrow> False | Some (_, r) \<Rightarrow> r = []))"

text \<open>\<^verbatim>\<open>(?:[eE][+-]?[0-9]+)?$\<close> on a whole rest of the input\<close>

definition exponentSuffix :: "string \<Rightarrow> bool" where
  "exponentSuffix s =
     (case s of
        [] \<Rightarrow> True
      | c # t \<Rightarrow>
          (c = CHR ''e'' \<or> c = CHR ''E'') \<and>
          (let u = (case t of [] \<Rightarrow> [] | d # v \<Rightarrow> if d = CHR ''+'' \<or> d = CHR ''-'' then v else t)
           in u \<noteq> [] \<and> list_all is_digit u))"

text \<open>\<^verbatim>\<open>^-?(?:0|[1-9][0-9]*)(?:\.[0-9]+)?(?:[eE][+-]?[0-9]+)?$\<close>\<close>

definition jsonNumberPattern :: "string \<Rightarrow> bool" where
  "jsonNumberPattern s =
     (let t = snd (strip_minus s); ds = takeWhile is_digit t in
      integer_digits ds \<and>
      (case split_fraction (dropWhile is_digit t) of None \<Rightarrow> False | Some (_, r) \<Rightarrow> exponentSuffix r))"

text \<open>
  \<^verbatim>\<open>^[0-9a-fA-F]{8}-[0-9a-fA-F]{4}-[1-8][0-9a-fA-F]{3}-[89abAB][0-9a-fA-F]{3}-[0-9a-fA-F]{12}$\<close>
\<close>

definition hex_run :: "nat \<Rightarrow> string \<Rightarrow> bool" where
  "hex_run n s \<longleftrightarrow> length s = n \<and> list_all is_hex s"

definition uuidPattern :: "string \<Rightarrow> bool" where
  "uuidPattern s =
     (case Split (CHR ''-'') s of
        [a, b, c, d, e] \<Rightarrow>
          hex_run 8 a \<and> hex_run 4 b \<and>
          hex_run 4 c \<and> 49 \<le> byte (hd c) \<and> byte (hd c) \<le> 56 \<and>
          hex_run 4 d \<and> hd d \<in> set ''89abAB'' \<and> hex_run 12 e
      | _ \<Rightarrow> False)"

lemma is_word_ascii: "is_word c \<Longrightarrow> is_ascii c"
  by (auto simp: is_word_def is_word_start_def is_upper_def is_lower_def is_digit_def is_ascii_def)

lemma identifierPattern_word: "identifierPattern s \<Longrightarrow> list_all is_word s"
  by (auto simp: identifierPattern_def is_word_def split: list.splits)

lemma identifierPattern_ascii: "identifierPattern s \<Longrightarrow> list_all is_ascii s"
  by (metis identifierPattern_word is_word_ascii list.pred_mono_strong)

lemma is_word_lower_char [simp]: "is_word (lower_char c) = is_word c"
  by (auto simp: is_word_def is_word_start_def is_upper_def is_lower_def is_digit_def
      lower_char_def byte_char_of)

lemma is_word_start_lower_char [simp]: "is_word_start (lower_char c) = is_word_start c"
  by (auto simp: is_word_start_def is_upper_def is_lower_def lower_char_def byte_char_of)

lemma identifierPattern_ToLower [simp]: "identifierPattern (ToLower s) = identifierPattern s"
  by (cases s) (auto simp: identifierPattern_def ToLower_def list_all_iff)

lemma strip_prefixes_Nil [simp]: "strip_prefixes ps [] = []"
proof -
  have "find (\<lambda>p. p \<noteq> [] \<and> take (length p) [] = p) ps = None"
    by (auto simp: find_None_iff)
  then show ?thesis by (subst strip_prefixes.simps) simp
qed

lemma TrimSpace_Nil [simp]: "TrimSpace [] = []"
  by (simp add: TrimSpace_def)

lemma jsonNumberPattern_Nil [simp]: "\<not> jsonNumberPattern []"
  by (simp add: jsonNumberPattern_def integer_digits_def strip_minus_def)

text \<open>A text that starts and ends with a visible ASCII character is trimmed already.\<close>

definition graphic :: "char \<Rightarrow> bool" where
  "graphic c \<longleftrightarrow> 32 < byte c \<and> byte c < 128"

lemma unicode_spaces_ends:
  "\<forall>p \<in> set unicode_spaces. p \<noteq> [] \<and> \<not> graphic (hd p) \<and> \<not> graphic (last p)"
  by (auto simp: unicode_spaces_def bytes_of_def graphic_def)

lemma strip_prefixes_graphic:
  assumes "\<And>p. p \<in> set ps \<Longrightarrow> p \<noteq> [] \<and> \<not> graphic (hd p)" and "s \<noteq> []" and "graphic (hd s)"
  shows "strip_prefixes ps s = s"
proof -
  have "take (length p) s \<noteq> p" if "p \<in> set ps" for p
  proof
    assume "take (length p) s = p"
    moreover have "p \<noteq> []" and "\<not> graphic (hd p)" using assms(1) [OF that] by simp_all
    ultimately have "hd s = hd p" using assms(2) by (metis hd_take length_greater_0_conv)
    with \<open>\<not> graphic (hd p)\<close> assms(3) show False by simp
  qed
  then have "find (\<lambda>p. p \<noteq> [] \<and> take (length p) s = p) ps = None"
    by (auto simp: find_None_iff)
  then show ?thesis by (subst strip_prefixes.simps) simp
qed

lemma TrimSpace_graphic [simp]:
  assumes "s \<noteq> []" "graphic (hd s)" "graphic (last s)"
  shows "TrimSpace s = s"
proof -
  have "strip_prefixes unicode_spaces s = s"
    using unicode_spaces_ends assms by (intro strip_prefixes_graphic) auto
  moreover have "strip_prefixes (map rev unicode_spaces) (rev s) = rev s"
    using unicode_spaces_ends assms by (intro strip_prefixes_graphic) (auto simp: hd_rev)
  ultimately show ?thesis by (simp add: TrimSpace_def)
qed

section \<open>Decimal printing and digit strings\<close>

lemma itoa_small: "n < 10 \<Longrightarrow> itoa n = [digit_char n]"
  by (simp add: itoa.simps)

lemma itoa_step: "10 \<le> n \<Longrightarrow> itoa n = itoa (n div 10) @ [digit_char (n mod 10)]"
  by (simp add: itoa.simps)

lemma dec_value_itoa [simp]: "dec_value (itoa n) = n"
proof (induction n rule: itoa.induct)
  case (1 n)
  show ?case
  proof (cases "n < 10")
    case True
    then show ?thesis using dec_value_simps(2) [of "[]"] by (simp add: itoa_small)
  next
    case False
    with 1 show ?thesis by (simp add: itoa_step)
  qed
qed

lemma itoa_digits [simp]: "list_all is_digit (itoa n)"
proof (induction n rule: itoa.induct)
  case (1 n)
  then show ?case by (cases "n < 10") (simp_all add: itoa_small itoa_step)
qed

lemma digit_char_zero_iff: "d < 10 \<Longrightarrow> digit_char d = CHR ''0'' \<longleftrightarrow> d = 0"
proof -
  assume "d < 10"
  then have "digit_char d = CHR ''0'' \<longleftrightarrow> byte (digit_char d) = byte (CHR ''0'')" by (simp only: byte_eq_iff)
  with \<open>d < 10\<close> show ?thesis by (simp add: digit_char_def)
qed

lemma itoa_hd: "0 < n \<Longrightarrow> hd (itoa n) \<noteq> CHR ''0''"
proof (induction n rule: itoa.induct)
  case (1 n)
  show ?case
  proof (cases "n < 10")
    case True
    with 1 show ?thesis by (simp add: itoa_small digit_char_zero_iff)
  next
    case False
    with 1 show ?thesis using itoa_nonempty [of "n div 10"] by (simp add: itoa_step)
  qed
qed

lemma integer_digits_itoa [simp]: "integer_digits (itoa n)"
  using itoa_hd [of n] itoa_nonempty [of n] by (cases "n = 0") (auto simp: integer_digits_def itoa_small)

lemma dec_value_pos: "ds \<noteq> [] \<Longrightarrow> list_all is_digit ds \<Longrightarrow> hd ds \<noteq> CHR ''0'' \<Longrightarrow> 0 < dec_value ds"
proof (induction ds rule: rev_induct)
  case (snoc d ds)
  show ?case
  proof (cases "ds = []")
    case True
    with snoc.prems have "digit_value d \<noteq> 0"
      by (metis digit_char_digit_value digit_char_zero_iff digit_value_less hd_append list.pred_inject(2) self_append_conv2 list.sel(1) append_Nil)
    with True show ?thesis using dec_value_simps(2) [of "[]" d] by simp
  next
    case False
    with snoc show ?thesis by simp
  qed
qed simp

lemma itoa_dec_value: "integer_digits ds \<Longrightarrow> itoa (dec_value ds) = ds"
proof (induction ds rule: rev_induct)
  case (snoc d ds)
  from snoc.prems have d: "is_digit d" and all: "list_all is_digit ds" by (simp_all add: integer_digits_def)
  show ?case
  proof (cases "ds = []")
    case True
    with d show ?thesis using dec_value_simps(2) [of "[]" d] by (simp add: itoa_small)
  next
    case False
    with snoc.prems have hd: "hd ds \<noteq> CHR ''0''" by (auto simp: integer_digits_def)
    with False all have "integer_digits ds" and "0 < dec_value ds"
      using dec_value_pos by (auto simp: integer_digits_def)
    with snoc.IH d digit_value_less [OF d] show ?thesis by (simp add: itoa_step)
  qed
qed (simp add: integer_digits_def)

lemma itoa_inj: "itoa m = itoa n \<longleftrightarrow> m = n"
  by (metis dec_value_itoa)

lemma itoa_no_minus: "hd (itoa n) \<noteq> CHR ''-'' \<and> CHR ''-'' \<notin> set (itoa n)"
proof -
  have "CHR ''-'' \<notin> set (itoa n)" using itoa_digits [of n] by (auto simp: list_all_iff is_digit_def)
  with itoa_nonempty [of n] show ?thesis by (metis hd_in_set)
qed

lemma itoa_int_inj: "itoa_int i = itoa_int j \<longleftrightarrow> i = j"
  using itoa_no_minus itoa_nonempty by (auto simp: itoa_int_def itoa_inj) (metis list.sel(1))+

end
