(* ===== verification/Go_Json.thy ===== *)
theory Go_Json
  imports Go_Strings
begin

text \<open>
  The parts of \<open>unicode/utf8\<close>, \<open>encoding/json\<close> and \<open>encoding/base64\<close> that decide which values the
  sources accept and how many bytes they print: rune decoding and encoding, the quoting of a Go string
  by \<open>json.Marshal\<close> (HTML escaping on), \<open>json.Unmarshal\<close> into a string and into a bool, and the
  standard base64 alphabet with strict decoding.
\<close>

section \<open>UTF-8\<close>

definition RuneError :: nat where
  "RuneError = 65533"

definition is_cont :: "char \<Rightarrow> bool" where
  "is_cont c \<longleftrightarrow> 128 \<le> byte c \<and> byte c \<le> 191"

text \<open>The bounds of the second byte for a lead byte of a multi-byte sequence (Go's \<open>acceptRanges\<close>).\<close>

definition second_ok :: "nat \<Rightarrow> char \<Rightarrow> bool" where
  "second_ok x c \<longleftrightarrow>
     (if x = 224 then 160 \<le> byte c \<and> byte c \<le> 191
      else if x = 237 then 128 \<le> byte c \<and> byte c \<le> 159
      else if x = 240 then 144 \<le> byte c \<and> byte c \<le> 191
      else if x = 244 then 128 \<le> byte c \<and> byte c \<le> 143
      else is_cont c)"

text \<open>\<open>utf8.DecodeRune\<close>: the rune and its width; an invalid byte is \<open>RuneError\<close> of width 1.\<close>

definition DecodeRune :: "string \<Rightarrow> nat \<times> nat" where
  "DecodeRune s =
     (case s of
        [] \<Rightarrow> (RuneError, 0)
      | a # t \<Rightarrow>
          let x = byte a in
          if x < 128 then (x, 1)
          else if 194 \<le> x \<and> x \<le> 223 then
            (case t of
               b # _ \<Rightarrow> if is_cont b then ((x - 192) * 64 + (byte b - 128), 2) else (RuneError, 1)
             | _ \<Rightarrow> (RuneError, 1))
          else if 224 \<le> x \<and> x \<le> 239 then
            (case t of
               b # c # _ \<Rightarrow>
                 if second_ok x b \<and> is_cont c
                 then ((x - 224) * 4096 + (byte b - 128) * 64 + (byte c - 128), 3) else (RuneError, 1)
             | _ \<Rightarrow> (RuneError, 1))
          else if 240 \<le> x \<and> x \<le> 244 then
            (case t of
               b # c # d # _ \<Rightarrow>
                 if second_ok x b \<and> is_cont c \<and> is_cont d
                 then ((x - 240) * 262144 + (byte b - 128) * 4096 + (byte c - 128) * 64 + (byte d - 128), 4)
                 else (RuneError, 1)
             | _ \<Rightarrow> (RuneError, 1))
          else (RuneError, 1))"

definition is_surrogate :: "nat \<Rightarrow> bool" where
  "is_surrogate r \<longleftrightarrow> 55296 \<le> r \<and> r < 57344"

text \<open>\<open>utf8.AppendRune\<close>: surrogates and values above U+10FFFF encode the replacement rune.\<close>

definition replacement_bytes :: string where
  "replacement_bytes = bytes_of [239, 191, 189]"

definition EncodeRune :: "nat \<Rightarrow> string" where
  "EncodeRune r =
     (if r < 128 then bytes_of [r]
      else if r < 2048 then bytes_of [192 + r div 64, 128 + r mod 64]
      else if is_surrogate r \<or> 1114111 < r then replacement_bytes
      else if r < 65536 then bytes_of [224 + r div 4096, 128 + r div 64 mod 64, 128 + r mod 64]
      else bytes_of [240 + r div 262144, 128 + r div 4096 mod 64, 128 + r div 64 mod 64, 128 + r mod 64])"

lemma DecodeRune_width: "s \<noteq> [] \<Longrightarrow> 1 \<le> snd (DecodeRune s)"
  by (cases s) (auto simp: DecodeRune_def Let_def split: list.splits)

lemma DecodeRune_width_le: "snd (DecodeRune s) \<le> length s"
  by (cases s) (auto simp: DecodeRune_def Let_def split: list.splits)

lemma DecodeRune_less [simp]: "s \<noteq> [] \<Longrightarrow> length s - snd (DecodeRune s) < length s"
  using DecodeRune_width [of s] by (cases s) auto

lemma DecodeRune_less_Cons [simp]: "Suc (length t) - snd (DecodeRune (c # t)) < Suc (length t)"
  using DecodeRune_less [of "c # t"] by simp

text \<open>The runes of a string (Go's \<^verbatim>\<open>for _, r := range s\<close>), each with its width.\<close>

function runes :: "string \<Rightarrow> (nat \<times> nat) list" where
  "runes s = (if s = [] then [] else DecodeRune s # runes (drop (snd (DecodeRune s)) s))"
  by pat_completeness auto
termination
  by (relation "measure length") auto

declare runes.simps [simp del]

definition ValidString :: "string \<Rightarrow> bool" where
  "ValidString s \<longleftrightarrow> (\<forall>(r, w) \<in> set (runes s). \<not> (r = RuneError \<and> w = 1))"

lemma ValidString_ascii: "list_all is_ascii s \<Longrightarrow> ValidString s"
proof (induction s)
  case Nil
  show ?case by (subst ValidString_def, subst runes.simps) simp
next
  case (Cons c s)
  then have d: "DecodeRune (c # s) = (byte c, 1)" by (simp add: DecodeRune_def is_ascii_def)
  have "runes (c # s) = (byte c, 1) # runes s" by (subst runes.simps) (simp add: d)
  with Cons show ?case by (auto simp: ValidString_def is_ascii_def RuneError_def)
qed

definition RuneCountInString :: "string \<Rightarrow> nat" where
  "RuneCountInString s = length (runes s)"

section \<open>JSON strings\<close>

definition quote_char :: char where "quote_char = CHR 0x22"
definition bslash :: char where "bslash = CHR 0x5C"

definition hex_digit :: "nat \<Rightarrow> char" where
  "hex_digit n = ''0123456789abcdef'' ! n"

text \<open>What \<open>json.Marshal\<close> prints for the rune at the head of the input.\<close>

definition json_escape_ascii :: "char \<Rightarrow> string" where
  "json_escape_ascii c =
     (if c = bslash \<or> c = quote_char then [bslash, c]
      else if byte c = 8 then [bslash, CHR ''b'']
      else if byte c = 12 then [bslash, CHR ''f'']
      else if byte c = 10 then [bslash, CHR ''n'']
      else if byte c = 13 then [bslash, CHR ''r'']
      else if byte c = 9 then [bslash, CHR ''t'']
      else if byte c < 32 \<or> c = CHR ''<'' \<or> c = CHR ''>'' \<or> c = CHR ''&''
      then bslash # ''u00'' @ [hex_digit (byte c div 16), hex_digit (byte c mod 16)]
      else [c])"

function json_escape :: "string \<Rightarrow> string" where
  "json_escape s =
     (case s of
        [] \<Rightarrow> []
      | c # t \<Rightarrow>
          if byte c < 128 then json_escape_ascii c @ json_escape t
          else
            (if DecodeRune s = (RuneError, 1) then bslash # ''ufffd''
             else if fst (DecodeRune s) = 8232 then bslash # ''u2028''
             else if fst (DecodeRune s) = 8233 then bslash # ''u2029''
             else take (snd (DecodeRune s)) s) @ json_escape (drop (snd (DecodeRune s)) s))"
  by pat_completeness auto
termination
  by (relation "measure length") auto

declare json_escape.simps [simp del]

definition json_quote :: "string \<Rightarrow> string" where
  "json_quote s = [quote_char] @ json_escape s @ [quote_char]"

subsection \<open>Objects and arrays\<close>

text \<open>
  What \<open>json.Marshal\<close> prints for a struct: its fields in order, each a name with an already printed
  value; \<open>omit_empty\<close> drops a field tagged \<open>omitempty\<close> whose value is empty.
\<close>

definition comma_separated :: "string list \<Rightarrow> string" where
  "comma_separated xs = join '','' xs"

definition json_object :: "(string \<times> string) list \<Rightarrow> string" where
  "json_object fields =
     ''{'' @ comma_separated (map (\<lambda>(n, v). json_quote n @ '':'' @ v) fields) @ ''}''"

definition json_array :: "string list \<Rightarrow> string" where
  "json_array xs = ''['' @ comma_separated xs @ '']''"

definition omit_empty :: "bool \<Rightarrow> string \<Rightarrow> string \<Rightarrow> (string \<times> string) list" where
  "omit_empty absent name v = (if absent then [] else [(name, v)])"

definition string_omit_empty :: "string \<Rightarrow> string \<Rightarrow> (string \<times> string) list" where
  "string_omit_empty name v = omit_empty (v = []) name (json_quote v)"

subsection \<open>Unmarshalling\<close>

definition is_json_space :: "char \<Rightarrow> bool" where
  "is_json_space c \<longleftrightarrow> byte c \<in> {9, 10, 13, 32}"

definition strip_json_space :: "string \<Rightarrow> string" where
  "strip_json_space s = rev (dropWhile is_json_space (rev (dropWhile is_json_space s)))"

definition hex_value :: "char \<Rightarrow> nat" where
  "hex_value c =
     (if is_digit c then byte c - 48 else if 97 \<le> byte c then byte c - 87 else byte c - 55)"

text \<open>\<open>getu4\<close>: the code unit of an escape at the head of the input.\<close>

definition getu4 :: "string \<Rightarrow> nat option" where
  "getu4 s =
     (case s of
        b # u # h1 # h2 # h3 # h4 # _ \<Rightarrow>
          if b = bslash \<and> u = CHR ''u'' \<and> is_hex h1 \<and> is_hex h2 \<and> is_hex h3 \<and> is_hex h4
          then Some (hex_value h1 * 4096 + hex_value h2 * 256 + hex_value h3 * 16 + hex_value h4)
          else None
      | _ \<Rightarrow> None)"

definition utf16_decode :: "nat \<Rightarrow> nat \<Rightarrow> nat option" where
  "utf16_decode r1 r2 =
     (if 55296 \<le> r1 \<and> r1 < 56320 \<and> 56320 \<le> r2 \<and> r2 < 57344
      then Some ((r1 - 55296) * 1024 + (r2 - 56320) + 65536) else None)"

definition simple_escape :: "char \<Rightarrow> char option" where
  "simple_escape e =
     (if e = quote_char \<or> e = bslash \<or> e = CHR ''/'' then Some e
      else if e = CHR ''b'' then Some (char_of (8::nat))
      else if e = CHR ''f'' then Some (char_of (12::nat))
      else if e = CHR ''n'' then Some (char_of (10::nat))
      else if e = CHR ''r'' then Some (char_of (13::nat))
      else if e = CHR ''t'' then Some (char_of (9::nat))
      else None)"

definition push_front :: "string \<Rightarrow> (string \<times> string) option \<Rightarrow> (string \<times> string) option" where
  "push_front p r = map_option (\<lambda>(a, b). (p @ a, b)) r"

text \<open>
  The scanner and \<open>unquote\<close> in one pass: the input after the opening quote gives the decoded text and
  the input after the closing quote.
\<close>

function json_unquote :: "string \<Rightarrow> (string \<times> string) option" where
  "json_unquote s =
     (case s of
        [] \<Rightarrow> None
      | c # t \<Rightarrow>
          if c = quote_char then Some ([], t)
          else if c = bslash then
            (case t of
               [] \<Rightarrow> None
             | e # t' \<Rightarrow>
                (case simple_escape e of
                   Some d \<Rightarrow> push_front [d] (json_unquote t')
                 | None \<Rightarrow>
                     (case getu4 s of
                        None \<Rightarrow> None
                      | Some r \<Rightarrow>
                          if is_surrogate r then
                            (case getu4 (drop 6 s) of
                               None \<Rightarrow> push_front replacement_bytes (json_unquote (drop 6 s))
                             | Some r' \<Rightarrow>
                                 (case utf16_decode r r' of
                                    None \<Rightarrow> push_front replacement_bytes (json_unquote (drop 6 s))
                                  | Some d \<Rightarrow> push_front (EncodeRune d) (json_unquote (drop 12 s))))
                          else push_front (EncodeRune r) (json_unquote (drop 6 s)))))
          else if byte c < 32 then None
          else if byte c < 128 then push_front [c] (json_unquote t)
          else push_front (EncodeRune (fst (DecodeRune s))) (json_unquote (drop (snd (DecodeRune s)) s)))"
  by pat_completeness auto
termination
  by (relation "measure length") auto

declare json_unquote.simps [simp del]

text \<open>\<open>json.Unmarshal\<close> into a string variable; \<open>null\<close> leaves the zero value.\<close>

definition unmarshal_string :: "string \<Rightarrow> string option" where
  "unmarshal_string raw =
     (let s = strip_json_space raw in
      if s = ''null'' then Some []
      else case s of
             [] \<Rightarrow> None
           | c # t \<Rightarrow>
               if c = quote_char
               then (case json_unquote t of Some (v, []) \<Rightarrow> Some v | _ \<Rightarrow> None)
               else None)"

definition unmarshal_bool :: "string \<Rightarrow> bool option" where
  "unmarshal_bool raw =
     (let s = strip_json_space raw in
      if s = ''true'' then Some True
      else if s = ''false'' \<or> s = ''null'' then Some False else None)"

section \<open>Base64\<close>

definition b64_alphabet :: string where
  "b64_alphabet = ''ABCDEFGHIJKLMNOPQRSTUVWXYZabcdefghijklmnopqrstuvwxyz0123456789+/''"

definition b64_char :: "nat \<Rightarrow> char" where
  "b64_char n = b64_alphabet ! n"

definition b64_value :: "char \<Rightarrow> nat option" where
  "b64_value c =
     (if is_upper c then Some (byte c - 65)
      else if is_lower c then Some (byte c - 71)
      else if is_digit c then Some (byte c + 4)
      else if c = CHR ''+'' then Some 62
      else if c = CHR ''/'' then Some 63 else None)"

text \<open>\<open>base64.StdEncoding.EncodeToString\<close>\<close>

fun b64_encode :: "string \<Rightarrow> string" where
  "b64_encode (a # b # c # s) =
     [b64_char (byte a div 4), b64_char (byte a mod 4 * 16 + byte b div 16),
      b64_char (byte b mod 16 * 4 + byte c div 64), b64_char (byte c mod 64)] @ b64_encode s"
| "b64_encode [a, b] =
     [b64_char (byte a div 4), b64_char (byte a mod 4 * 16 + byte b div 16),
      b64_char (byte b mod 16 * 4), CHR ''='']"
| "b64_encode [a] = [b64_char (byte a div 4), b64_char (byte a mod 4 * 16), CHR ''='', CHR ''='']"
| "b64_encode [] = []"

fun b64_decode_quanta :: "string \<Rightarrow> string option" where
  "b64_decode_quanta [] = Some []"
| "b64_decode_quanta (c1 # c2 # c3 # c4 # rest) =
     (case (b64_value c1, b64_value c2) of
        (Some v1, Some v2) \<Rightarrow>
          if c3 = CHR ''='' then
            (if c4 = CHR ''='' \<and> rest = [] \<and> v2 mod 16 = 0
             then Some (bytes_of [v1 * 4 + v2 div 16]) else None)
          else (case b64_value c3 of
                  None \<Rightarrow> None
                | Some v3 \<Rightarrow>
                    if c4 = CHR ''='' then
                      (if rest = [] \<and> v3 mod 4 = 0
                       then Some (bytes_of [v1 * 4 + v2 div 16, v2 mod 16 * 16 + v3 div 4]) else None)
                    else (case b64_value c4 of
                            None \<Rightarrow> None
                          | Some v4 \<Rightarrow>
                              map_option (\<lambda>ds. bytes_of [v1 * 4 + v2 div 16, v2 mod 16 * 16 + v3 div 4,
                                                  v3 mod 4 * 64 + v4] @ ds)
                                (b64_decode_quanta rest)))
      | _ \<Rightarrow> None)"
| "b64_decode_quanta _ = None"

text \<open>\<open>base64.StdEncoding.Strict().DecodeString\<close>: line breaks are skipped.\<close>

definition b64_decode_strict :: "string \<Rightarrow> string option" where
  "b64_decode_strict s = b64_decode_quanta (filter (\<lambda>c. byte c \<noteq> 10 \<and> byte c \<noteq> 13) s)"

definition b64_encoded_len :: "nat \<Rightarrow> nat" where
  "b64_encoded_len n = (n + 2) div 3 * 4"

lemma length_b64_encode: "length (b64_encode s) = b64_encoded_len (length s)"
proof (induction s rule: b64_encode.induct)
  case (1 a b c s)
  have "(Suc (Suc (Suc (length s))) + 2) div 3 = Suc ((length s + 2) div 3)"
    by simp
  with 1 show ?case by (simp add: b64_encoded_len_def)
qed (simp_all add: b64_encoded_len_def)

lemma unmarshal_Nil [simp]: "unmarshal_string [] = None" "unmarshal_bool [] = None"
  by (simp_all add: unmarshal_string_def unmarshal_bool_def strip_json_space_def)

end
