(* ===== verification/Portable_Values.thy ===== *)
theory Portable_Values
  imports Go_Strings
begin

text \<open>
  \<^verbatim>\<open>internal/queryspec/portable_values.go\<close> and the RFC 3339 check of
  \<^verbatim>\<open>internal/queryspec/types.go\<close>, over a model of \<open>time.Parse\<close> for the three layouts they use. The
  model of \<open>time.Parse\<close> keeps the leniencies of the Go parser (a one-digit hour, a run of spaces for
  one space, a comma or a period before a fraction of any length, zone offsets up to 24:60): which of
  them survive the callers' own checks is then a theorem.
\<close>

section \<open>The parts of package \<open>time\<close>\<close>

record Time =
  Year :: nat
  Month :: nat
  Day :: nat
  Hour :: nat
  Minute :: nat
  Second :: nat
  Nanosecond :: nat

definition is_leap :: "nat \<Rightarrow> bool" where
  "is_leap y \<longleftrightarrow> y mod 4 = 0 \<and> (y mod 100 \<noteq> 0 \<or> y mod 400 = 0)"

definition days_in :: "nat \<Rightarrow> nat \<Rightarrow> nat" where
  "days_in m y =
     (if m = 2 then (if is_leap y then 29 else 28)
      else if m \<in> {4, 6, 9, 11} then 30 else 31)"

text \<open>A two-digit or, unless \<open>fixed\<close>, one-digit number at the head of the value.\<close>

fun getnum :: "bool \<Rightarrow> string \<Rightarrow> (nat \<times> string) option" where
  "getnum fixed (a # b # s) =
     (if \<not> is_digit a then None
      else if is_digit b then Some (digit_value a * 10 + digit_value b, s)
      else if fixed then None else Some (digit_value a, b # s))"
| "getnum fixed [a] = (if is_digit a \<and> \<not> fixed then Some (digit_value a, []) else None)"
| "getnum fixed [] = None"

fun get_year :: "string \<Rightarrow> (nat \<times> string) option" where
  "get_year (a # b # c # d # s) =
     (if is_digit a \<and> is_digit b \<and> is_digit c \<and> is_digit d
      then Some (digit_value a * 1000 + digit_value b * 100 + digit_value c * 10 + digit_value d, s)
      else None)"
| "get_year _ = None"

definition skip_char :: "char \<Rightarrow> string \<Rightarrow> string option" where
  "skip_char p s = (case s of [] \<Rightarrow> None | c # t \<Rightarrow> if c = p then Some t else None)"

text \<open>\<open>skip\<close> on a space of the layout: any run of spaces, or the end of the value.\<close>

definition skip_space :: "string \<Rightarrow> string option" where
  "skip_space s =
     (case s of [] \<Rightarrow> Some [] | c # t \<Rightarrow> if c = CHR '' '' then Some (dropWhile ((=) (CHR '' '')) s) else None)"

definition parse_date_prefix :: "string \<Rightarrow> ((nat \<times> nat \<times> nat) \<times> string) option" where
  "parse_date_prefix s =
     (case get_year s of None \<Rightarrow> None | Some (y, s1) \<Rightarrow>
      case skip_char (CHR ''-'') s1 of None \<Rightarrow> None | Some s2 \<Rightarrow>
      case getnum True s2 of None \<Rightarrow> None | Some (m, s3) \<Rightarrow>
      if m = 0 \<or> 12 < m then None else
      case skip_char (CHR ''-'') s3 of None \<Rightarrow> None | Some s4 \<Rightarrow>
      case getnum True s4 of None \<Rightarrow> None | Some (d, s5) \<Rightarrow> Some ((y, m, d), s5))"

definition parse_clock_prefix :: "string \<Rightarrow> ((nat \<times> nat \<times> nat) \<times> string) option" where
  "parse_clock_prefix s =
     (case getnum False s of None \<Rightarrow> None | Some (h, s1) \<Rightarrow>
      if 24 \<le> h then None else
      case skip_char (CHR '':'') s1 of None \<Rightarrow> None | Some s2 \<Rightarrow>
      case getnum True s2 of None \<Rightarrow> None | Some (mi, s3) \<Rightarrow>
      if 60 \<le> mi then None else
      case skip_char (CHR '':'') s3 of None \<Rightarrow> None | Some s4 \<Rightarrow>
      case getnum True s4 of None \<Rightarrow> None | Some (sec, s5) \<Rightarrow>
      if 60 \<le> sec then None else Some ((h, mi, sec), s5))"

definition valid_day :: "nat \<Rightarrow> nat \<Rightarrow> nat \<Rightarrow> bool" where
  "valid_day y m d \<longleftrightarrow> 1 \<le> d \<and> d \<le> days_in m y"

text \<open>\<^verbatim>\<open>time.Parse("2006-01-02", value)\<close>\<close>

definition time_parse_date :: "string \<Rightarrow> Time option" where
  "time_parse_date s =
     (case parse_date_prefix s of
        Some ((y, m, d), r) \<Rightarrow>
          if r = [] \<and> valid_day y m d
          then Some \<lparr>Year = y, Month = m, Day = d, Hour = 0, Minute = 0, Second = 0, Nanosecond = 0\<rparr>
          else None
      | None \<Rightarrow> None)"

text \<open>A fraction at the head of the value: a comma or a period and at least one digit.\<close>

definition skip_fraction :: "string \<Rightarrow> string" where
  "skip_fraction s =
     (case s of
        a # b # _ \<Rightarrow>
          if (a = CHR ''.'' \<or> a = CHR '','') \<and> is_digit b then dropWhile is_digit (tl s) else s
      | _ \<Rightarrow> s)"

definition fraction_nanos :: "string \<Rightarrow> nat" where
  "fraction_nanos ds = dec_value (take 9 (ds @ replicate 9 (CHR ''0'')))"

text \<open>\<^verbatim>\<open>time.Parse("2006-01-02 15:04:05", value)\<close>, which accepts a fraction the layout does not have.\<close>

definition time_parse_datetime :: "string \<Rightarrow> Time option" where
  "time_parse_datetime s =
     (case parse_date_prefix s of None \<Rightarrow> None | Some ((y, m, d), s1) \<Rightarrow>
      case skip_space s1 of None \<Rightarrow> None | Some s2 \<Rightarrow>
      case parse_clock_prefix s2 of None \<Rightarrow> None | Some ((h, mi, sec), s3) \<Rightarrow>
      let s4 = skip_fraction s3 in
      if s4 = [] \<and> valid_day y m d
      then Some \<lparr>Year = y, Month = m, Day = d, Hour = h, Minute = mi, Second = sec,
                 Nanosecond = fraction_nanos (takeWhile is_digit (tl s3))\<rparr>
      else None)"

text \<open>The \<open>Z07:00\<close> element of a layout: \<open>Z\<close>, or a signed offset of at most 24 hours and 60 minutes.\<close>

definition parse_zone :: "string \<Rightarrow> string option" where
  "parse_zone s =
     (case s of
        [] \<Rightarrow> None
      | c # t \<Rightarrow>
          if c = CHR ''Z'' then Some t
          else (case t of
                  h1 # h2 # k # m1 # m2 # r \<Rightarrow>
                    if k = CHR '':'' \<and> (c = CHR ''+'' \<or> c = CHR ''-'') then
                      (case (getnum True [h1, h2], getnum True [m1, m2]) of
                         (Some (hr, _), Some (mm, _)) \<Rightarrow> if hr \<le> 24 \<and> mm \<le> 60 then Some r else None
                       | _ \<Rightarrow> None)
                    else None
                | _ \<Rightarrow> None))"

text \<open>Whether \<^verbatim>\<open>time.Parse(time.RFC3339Nano, value)\<close> returns without an error.\<close>

definition time_parse_rfc3339_ok :: "string \<Rightarrow> bool" where
  "time_parse_rfc3339_ok s =
     (case parse_date_prefix s of None \<Rightarrow> False | Some ((y, m, d), s1) \<Rightarrow>
      case skip_char (CHR ''T'') s1 of None \<Rightarrow> False | Some s2 \<Rightarrow>
      case parse_clock_prefix s2 of None \<Rightarrow> False | Some ((h, mi, sec), s3) \<Rightarrow>
      case parse_zone (skip_fraction s3) of None \<Rightarrow> False | Some r \<Rightarrow> r = [] \<and> valid_day y m d)"

definition pad2 :: "nat \<Rightarrow> string" where
  "pad2 n = [digit_char (n div 10 mod 10), digit_char (n mod 10)]"

definition pad4 :: "nat \<Rightarrow> string" where
  "pad4 n = pad2 (n div 100) @ pad2 n"

text \<open>\<open>Format\<close> with the layouts \<open>2006-01-02\<close> and \<open>2006-01-02 15:04:05\<close> (years up to 9999).\<close>

definition format_date :: "Time \<Rightarrow> string" where
  "format_date t = pad4 (Year t) @ ''-'' @ pad2 (Month t) @ ''-'' @ pad2 (Day t)"

definition format_datetime :: "Time \<Rightarrow> string" where
  "format_datetime t =
     format_date t @ '' '' @ pad2 (Hour t) @ '':'' @ pad2 (Minute t) @ '':'' @ pad2 (Second t)"

section \<open>\<open>portable_values.go\<close>\<close>

definition ProtocolMaxTemporalFractionDigits :: nat where
  "ProtocolMaxTemporalFractionDigits = 9"

definition decimalDigitsOnly :: "string \<Rightarrow> bool" where
  "decimalDigitsOnly s \<longleftrightarrow> s \<noteq> [] \<and> list_all is_digit s"

definition parseDecimalDigits :: "string \<Rightarrow> nat option" where
  "parseDecimalDigits s =
     (if decimalDigitsOnly s then Some (dec_value s) else None)"

definition ParsePortableDate :: "string \<Rightarrow> Time option" where
  "ParsePortableDate v =
     (if length v \<noteq> 10 then None
      else case time_parse_date v of
             None \<Rightarrow> None
           | Some t \<Rightarrow>
               if Year t < 1 \<or> Year t > 9999 \<or> format_date t \<noteq> v then None else Some t)"

definition parsePortableDateTime :: "string \<Rightarrow> char \<Rightarrow> bool \<Rightarrow> (Time \<times> nat) option" where
  "parsePortableDateTime v separator utcSuffix =
     (let minimum = 19 + (if utcSuffix then 1 else 0);
          maximum = minimum + 1 + ProtocolMaxTemporalFractionDigits;
          text = (if utcSuffix then butlast v else v) in
      if utcSuffix \<and> (v = [] \<or> last v \<noteq> CHR ''Z'') then None
      else if length v < minimum \<or> length v > maximum \<or> length text < 19 \<or> text ! 10 \<noteq> separator then None
      else
        let base = take 10 text @ '' '' @ drop 11 (take 19 text) in
        case time_parse_datetime base of
          None \<Rightarrow> None
        | Some t \<Rightarrow>
            if Year t < 1 \<or> Year t > 9999 \<or> format_datetime t \<noteq> base then None
            else if length text = 19 then Some (t\<lparr>Nanosecond := 0\<rparr>, 0)
            else if text ! 19 \<noteq> CHR ''.'' then None
            else
              let fraction = drop 20 text in
              if fraction = [] \<or> length fraction > ProtocolMaxTemporalFractionDigits
                 \<or> \<not> decimalDigitsOnly fraction then None
              else
                let value = (case parseDecimalDigits fraction of Some n \<Rightarrow> n | None \<Rightarrow> 0) in
                Some (t\<lparr>Nanosecond := value * 10 ^ (ProtocolMaxTemporalFractionDigits - length fraction)\<rparr>,
                      length fraction))"

definition ParsePortableDateTime :: "string \<Rightarrow> (Time \<times> nat) option" where
  "ParsePortableDateTime v = parsePortableDateTime v (CHR '' '') False"

definition ParsePortableTimestamp :: "string \<Rightarrow> (Time \<times> nat) option" where
  "ParsePortableTimestamp v = parsePortableDateTime v (CHR ''T'') True"

definition ValidPortableTime :: "string \<Rightarrow> bool" where
  "ValidPortableTime v =
     (let text = snd (strip_minus v) in
      if text = [] \<or> hd text = CHR ''+'' \<or> hd text = CHR ''-'' then False
      else
        let (base, fraction_ok) =
          (case Cut (CHR ''.'') text of
             None \<Rightarrow> (text, True)
           | Some (b, fraction) \<Rightarrow>
               (b, \<not> (length fraction < 1 \<or> length fraction > ProtocolMaxTemporalFractionDigits
                      \<or> \<not> decimalDigitsOnly fraction))) in
        if \<not> fraction_ok then False
        else case Split (CHR '':'') base of
               [h, m, s] \<Rightarrow>
                 if length h < 2 \<or> length h > 3 \<or> length m \<noteq> 2 \<or> length s \<noteq> 2 then False
                 else (case (parseDecimalDigits h, parseDecimalDigits m, parseDecimalDigits s) of
                         (Some hours, Some minutes, Some seconds) \<Rightarrow>
                           if length h = 3 \<and> hd h = CHR ''0'' then False
                           else hours \<le> 838 \<and> minutes \<le> 59 \<and> seconds \<le> 59
                       | _ \<Rightarrow> False)
             | _ \<Rightarrow> False)"

section \<open>\<open>validateRFC3339DateTime\<close> of \<open>types.go\<close>\<close>

definition validateRFC3339DateTime :: "string \<Rightarrow> bool" where
  "validateRFC3339DateTime v =
     (if length v \<le> 11 \<or> take 4 v = ''0000'' then False
      else
        let separatorIsLower = (v ! 10 = CHR ''t''); zoneIsLower = (last v = CHR ''z'') in
        if \<not> separatorIsLower \<and> \<not> zoneIsLower then time_parse_rfc3339_ok v
        else
          let n1 = (if separatorIsLower then v[10 := CHR ''T''] else v);
              n2 = (if zoneIsLower then n1[length v - 1 := CHR ''Z''] else n1) in
          time_parse_rfc3339_ok n2)"

section \<open>Reading back what \<open>Format\<close> prints\<close>

lemma getnum_pad2 [simp]: "n \<le> 99 \<Longrightarrow> getnum fixed (pad2 n @ s) = Some (n, s)"
  by (simp add: pad2_def)

lemma two_digits_mod: "n div 10 mod 10 * 10 + n mod 10 = (n :: nat) mod 100"
  using mod_mult2_eq [of n 10 10] by simp

lemma four_digits:
  assumes "y \<le> 9999"
  shows "y div 100 div 10 mod 10 * 1000 + y div 100 mod 10 * 100 + y div 10 mod 10 * 10 + y mod 10 = (y :: nat)"
proof -
  have "y div 100 div 10 mod 10 * 10 + y div 100 mod 10 = y div 100"
    using two_digits_mod [of "y div 100"] assms by simp
  then have "(y div 100 div 10 mod 10 * 10 + y div 100 mod 10) * 100 = y div 100 * 100" by simp
  moreover have "y div 10 mod 10 * 10 + y mod 10 = y mod 100" by (rule two_digits_mod)
  ultimately show ?thesis using div_mult_mod_eq [of y 100] by (simp only: algebra_simps)
qed

lemma get_year_pad4 [simp]: "y \<le> 9999 \<Longrightarrow> get_year (pad4 y @ s) = Some (y, s)"
  using four_digits [of y] by (simp add: pad4_def pad2_def)

lemma length_pad [simp]: "length (pad2 n) = 2" "length (pad4 n) = 4"
  by (simp_all add: pad2_def pad4_def)

lemma skip_char_Cons [simp]: "skip_char c (c # s) = Some s"
  by (simp add: skip_char_def)

definition valid_date :: "Time \<Rightarrow> bool" where
  "valid_date t \<longleftrightarrow> 1 \<le> Year t \<and> Year t \<le> 9999 \<and> 1 \<le> Month t \<and> Month t \<le> 12
     \<and> 1 \<le> Day t \<and> Day t \<le> days_in (Month t) (Year t)"

definition valid_clock :: "Time \<Rightarrow> bool" where
  "valid_clock t \<longleftrightarrow> Hour t < 24 \<and> Minute t < 60 \<and> Second t < 60"

lemma days_in_le: "days_in m y \<le> 31"
  by (simp add: days_in_def)

lemma parse_date_prefix_format:
  "valid_date t \<Longrightarrow>
   parse_date_prefix (format_date t @ s) = Some ((Year t, Month t, Day t), s)"
  using days_in_le [of "Month t" "Year t"]
  by (auto simp: parse_date_prefix_def format_date_def valid_date_def)

lemma parse_clock_prefix_format:
  "valid_clock t \<Longrightarrow>
   parse_clock_prefix (pad2 (Hour t) @ '':'' @ pad2 (Minute t) @ '':'' @ pad2 (Second t) @ s)
     = Some ((Hour t, Minute t, Second t), s)"
  by (auto simp: parse_clock_prefix_def valid_clock_def)

lemma parse_date_prefix_Some:
  assumes "parse_date_prefix s = Some ((y, m, d), r)"
  shows "1 \<le> m" and "m \<le> 12"
  using assms by (auto simp: parse_date_prefix_def split: option.splits if_splits)

lemma parse_clock_prefix_Some:
  assumes "parse_clock_prefix s = Some ((h, mi, sec), r)"
  shows "h < 24" and "mi < 60" and "sec < 60"
  using assms by (auto simp: parse_clock_prefix_def split: option.splits if_splits)

lemma ParsePortableDate_iff:
  "ParsePortableDate v = Some t \<longleftrightarrow>
     v = format_date t \<and> valid_date t \<and>
     Hour t = 0 \<and> Minute t = 0 \<and> Second t = 0 \<and> Nanosecond t = 0"
  (is "?L \<longleftrightarrow> ?R")
proof
  assume ?L
  then obtain y m d where p: "parse_date_prefix v = Some ((y, m, d), [])"
    and t: "t = \<lparr>Year = y, Month = m, Day = d, Hour = 0, Minute = 0, Second = 0, Nanosecond = 0\<rparr>"
    and d: "valid_day y m d" and y: "1 \<le> y" "y \<le> 9999" and v: "format_date t = v"
    by (auto simp: ParsePortableDate_def time_parse_date_def split: option.splits if_splits)
  with parse_date_prefix_Some [OF p] show ?R
    by (auto simp: valid_date_def valid_day_def)
next
  assume R: ?R
  then have "valid_day (Year t) (Month t) (Day t)"
    by (simp add: valid_date_def valid_day_def)
  moreover have "length (format_date t) = 10"
    by (simp add: format_date_def)
  ultimately show ?L
    using R parse_date_prefix_format [of t "[]"]
    by (cases t) (auto simp: ParsePortableDate_def time_parse_date_def valid_date_def)
qed

text \<open>The canonical text of a wall-clock value with \<open>k\<close> digits of fraction.\<close>

definition format_fraction :: "nat \<Rightarrow> nat \<Rightarrow> string" where
  "format_fraction k ns = (if k = 0 then [] else CHR ''.'' # fixed_digits k (ns div 10 ^ (9 - k)))"

definition format_portable :: "char \<Rightarrow> bool \<Rightarrow> Time \<Rightarrow> nat \<Rightarrow> string" where
  "format_portable sep utc t k =
     format_date t @ [sep] @ pad2 (Hour t) @ '':'' @ pad2 (Minute t) @ '':'' @ pad2 (Second t)
       @ format_fraction k (Nanosecond t) @ (if utc then ''Z'' else [])"

definition valid_fraction :: "nat \<Rightarrow> nat \<Rightarrow> bool" where
  "valid_fraction k ns \<longleftrightarrow> k \<le> 9 \<and> ns < 10 ^ 9 \<and> ns mod 10 ^ (9 - k) = 0"

lemma space_not_digit: "\<not> is_digit (CHR '' '')"
  by (simp add: is_digit_def)

abbreviation clock_text :: "Time \<Rightarrow> string" where
  "clock_text t \<equiv> pad2 (Hour t) @ '':'' @ pad2 (Minute t) @ '':'' @ pad2 (Second t)"

lemma length_format_date [simp]: "length (format_date t) = 10"
  by (simp add: format_date_def)

lemma fraction_nanos_Nil [simp]: "fraction_nanos [] = 0"
  by (simp add: fraction_nanos_def dec_value_def digit_value_def numeral_eq_Suc)

lemma time_parse_datetime_format:
  assumes "valid_date t" and "valid_clock t"
  shows "time_parse_datetime (format_datetime t) = Some (t\<lparr>Nanosecond := 0\<rparr>)"
proof -
  have "CHR '' '' \<noteq> digit_char (Hour t div 10 mod 10)"
    using digit_char_is_digit [of "Hour t div 10 mod 10"] space_not_digit by auto
  then have "dropWhile ((=) (CHR '' '')) ('' '' @ clock_text t) = clock_text t"
    by (simp add: pad2_def)
  moreover have "valid_day (Year t) (Month t) (Day t)"
    using assms by (simp add: valid_date_def valid_day_def)
  moreover have "parse_clock_prefix (clock_text t) = Some ((Hour t, Minute t, Second t), [])"
    using parse_clock_prefix_format [OF assms(2), of "[]"] by simp
  ultimately show ?thesis
    using parse_date_prefix_format [OF assms(1), of "'' '' @ clock_text t"]
    by (cases t) (simp add: time_parse_datetime_def format_datetime_def skip_space_def
        skip_fraction_def Let_def)
qed

lemma time_parse_datetime_Some:
  assumes "time_parse_datetime s = Some t"
  shows "1 \<le> Month t \<and> Month t \<le> 12 \<and> valid_day (Year t) (Month t) (Day t) \<and> valid_clock t"
proof -
  from assms obtain y m d s1 s2 h mi sec s3 n
    where p: "parse_date_prefix s = Some ((y, m, d), s1)"
      and c: "parse_clock_prefix s2 = Some ((h, mi, sec), s3)" and v: "valid_day y m d"
      and t: "t = \<lparr>Year = y, Month = m, Day = d, Hour = h, Minute = mi, Second = sec, Nanosecond = n\<rparr>"
    by (auto simp: time_parse_datetime_def Let_def split: option.splits if_splits)
  with parse_date_prefix_Some [OF p] parse_clock_prefix_Some [OF c] show ?thesis
    by (simp add: valid_clock_def)
qed

lemma take_19_split:
  assumes "19 \<le> length tx" and "tx ! 10 = sep"
    and "take 10 tx @ '' '' @ drop 11 (take 19 tx) = format_datetime t"
  shows "take 19 tx = format_date t @ [sep] @ clock_text t"
proof -
  have "take 10 tx = format_date t" and rest: "drop 11 (take 19 tx) = clock_text t"
    using assms by (auto simp: format_datetime_def)
  moreover have "take 19 tx = take 10 tx @ [tx ! 10] @ drop 11 (take 19 tx)"
    using assms(1) id_take_nth_drop [of 10 "take 19 tx"] by (simp add: min_def)
  ultimately show ?thesis using assms(2) by simp
qed

lemma parsePortableDateTime_sound:
  assumes "parsePortableDateTime v sep utc = Some (t, k)"
  shows "v = format_portable sep utc t k \<and> valid_date t \<and> valid_clock t \<and> valid_fraction k (Nanosecond t)"
proof -
  define tx where "tx = (if utc then butlast v else v)"
  from assms have v: "v = tx @ (if utc then ''Z'' else [])"
    by (auto simp: parsePortableDateTime_def tx_def Let_def split: if_splits) (metis append_butlast_last_id)
  from assms have len: "19 \<le> length tx" and sep: "tx ! 10 = sep"
    by (auto simp: parsePortableDateTime_def tx_def Let_def split: if_splits)
  from assms obtain t0 where p: "time_parse_datetime (take 10 tx @ '' '' @ drop 11 (take 19 tx)) = Some t0"
    and y: "1 \<le> Year t0" "Year t0 \<le> 9999"
    and f: "format_datetime t0 = take 10 tx @ '' '' @ drop 11 (take 19 tx)"
    and r: "(length tx = 19 \<and> t = t0\<lparr>Nanosecond := 0\<rparr> \<and> k = 0) \<or>
      (length tx \<noteq> 19 \<and> tx ! 19 = CHR ''.'' \<and> drop 20 tx \<noteq> [] \<and> length (drop 20 tx) \<le> 9
        \<and> list_all is_digit (drop 20 tx)
        \<and> t = t0\<lparr>Nanosecond := dec_value (drop 20 tx) * 10 ^ (9 - length (drop 20 tx))\<rparr>
        \<and> k = length (drop 20 tx))"
    by (auto simp: parsePortableDateTime_def tx_def [symmetric] Let_def parseDecimalDigits_def
        decimalDigitsOnly_def ProtocolMaxTemporalFractionDigits_def split: option.splits if_splits)
  have head: "take 19 tx = format_date t @ [sep] @ clock_text t"
    using take_19_split [OF len sep f [symmetric]] r by (auto simp: format_date_def)
  from time_parse_datetime_Some [OF p] y r have "valid_date t" "valid_clock t"
    by (auto simp: valid_date_def valid_clock_def valid_day_def)
  moreover have "drop 19 tx = format_fraction k (Nanosecond t) \<and> valid_fraction k (Nanosecond t)"
  proof (cases "length tx = 19")
    case True
    with r show ?thesis by (auto simp: format_fraction_def valid_fraction_def)
  next
    case False
    let ?ds = "drop 20 tx"
    from False r have r': "tx ! 19 = CHR ''.''" "?ds \<noteq> []" "length ?ds \<le> 9" "list_all is_digit ?ds"
      "Nanosecond t = dec_value ?ds * 10 ^ (9 - length ?ds)" "k = length ?ds"
      by auto
    from r'(2) have "drop 19 tx = tx ! 19 # ?ds"
      using Cons_nth_drop_Suc [of 19 tx] by simp
    moreover have "dec_value ?ds * 10 ^ (9 - length ?ds) < 10 ^ 9"
    proof -
      have "dec_value ?ds * 10 ^ (9 - length ?ds) < 10 ^ length ?ds * 10 ^ (9 - length ?ds)"
        using dec_value_less [OF r'(4)] by simp
      also have "\<dots> = 10 ^ 9" using r'(3) by (simp add: power_add [symmetric])
      finally show ?thesis .
    qed
    ultimately show ?thesis
      using r' fixed_digits_dec_value [OF r'(4)]
      by (auto simp: format_fraction_def valid_fraction_def)
  qed
  ultimately show ?thesis
    using v head append_take_drop_id [of 19 tx]
    by (simp add: format_portable_def)
qed

lemma parsePortableDateTime_complete:
  assumes d: "valid_date t" and c: "valid_clock t" and f: "valid_fraction k (Nanosecond t)"
  shows "parsePortableDateTime (format_portable sep utc t k) sep utc = Some (t, k)"
proof -
  define frac where "frac = format_fraction k (Nanosecond t)"
  define tx where "tx = format_date t @ [sep] @ clock_text t @ frac"
  define v where "v = format_portable sep utc t k"
  have v: "v = tx @ (if utc then ''Z'' else [])"
    by (simp add: v_def tx_def format_portable_def frac_def)
  have k: "k \<le> 9" using f by (simp add: valid_fraction_def)
  have lfrac: "length frac = (if k = 0 then 0 else Suc k)"
    by (simp add: frac_def format_fraction_def)
  have ltx: "length tx = 19 + length frac" by (simp add: tx_def)
  have base: "take 10 tx @ '' '' @ drop 11 (take 19 tx) = format_datetime t" and sep: "tx ! 10 = sep"
    and frac: "drop 19 tx = frac"
    by (simp_all add: tx_def format_datetime_def nth_append)
  have y: "1 \<le> Year t" "Year t \<le> 9999" using d by (simp_all add: valid_date_def)
  have p: "time_parse_datetime (format_datetime t) = Some (t\<lparr>Nanosecond := 0\<rparr>)"
    using time_parse_datetime_format [OF d c] .
  have fd: "format_datetime (t\<lparr>Nanosecond := 0\<rparr>) = format_datetime t"
    by (simp add: format_datetime_def format_date_def)
  show ?thesis
  proof (cases "k = 0")
    case True
    with f have "Nanosecond t = 0" by (auto simp: valid_fraction_def)
    with True show ?thesis
      unfolding v_def [symmetric] v parsePortableDateTime_def
      using ltx lfrac base sep y p fd
      by (simp add: Let_def ProtocolMaxTemporalFractionDigits_def)
  next
    case False
    let ?n = "Nanosecond t div 10 ^ (9 - k)"
    have dot: "tx ! 19 = CHR ''.''" and ds: "drop 20 tx = fixed_digits k ?n"
      using False by (simp_all add: tx_def frac_def format_fraction_def nth_append)
    have "?n < 10 ^ k"
    proof -
      have "Nanosecond t < 10 ^ k * 10 ^ (9 - k)"
        using f k by (simp add: valid_fraction_def power_add [symmetric])
      then show ?thesis by (simp add: less_mult_imp_div_less)
    qed
    then have "dec_value (fixed_digits k ?n) * 10 ^ (9 - k) = Nanosecond t"
      using f by (simp add: dec_value_fixed_digits valid_fraction_def) (metis div_mult_mod_eq add.right_neutral)
    with False show ?thesis
      unfolding v_def [symmetric] v parsePortableDateTime_def
      using ltx lfrac base sep y p fd dot ds k
      by (simp add: Let_def ProtocolMaxTemporalFractionDigits_def decimalDigitsOnly_def
          parseDecimalDigits_def flip: length_greater_0_conv)
  qed
qed

lemma parsePortableDateTime_iff:
  "parsePortableDateTime v sep utc = Some (t, k) \<longleftrightarrow>
     v = format_portable sep utc t k \<and> valid_date t \<and> valid_clock t \<and> valid_fraction k (Nanosecond t)"
  using parsePortableDateTime_sound parsePortableDateTime_complete by blast

section \<open>Properties\<close>

text \<open>
  C36: \<open>ParsePortableDate\<close> accepts exactly the ten-byte texts that \<open>Format\<close> prints for the days of the
  years 1 to 9999, and returns that day at midnight: parsing and printing are inverse to each other,
  and none of the leniencies of \<open>time.Parse\<close> gets through.
\<close>

theorem portable_date_round_trip:
  "ParsePortableDate v = Some t \<longleftrightarrow>
     v = format_date t \<and> valid_date t \<and>
     Hour t = 0 \<and> Minute t = 0 \<and> Second t = 0 \<and> Nanosecond t = 0"
  by (rule ParsePortableDate_iff)

text \<open>
  C37: \<open>ParsePortableDateTime\<close> and \<open>ParsePortableTimestamp\<close> accept exactly the canonical texts of a
  calendar second with zero to nine digits of fraction, separated by a space, respectively by \<open>T\<close> and closed by
  \<open>Z\<close>, and return that instant with the number of printed fraction digits.
\<close>

theorem portable_datetime_round_trip:
  "(ParsePortableDateTime v = Some (t, k) \<longleftrightarrow>
      v = format_portable (CHR '' '') False t k \<and> valid_date t \<and> valid_clock t \<and> valid_fraction k (Nanosecond t)) \<and>
   (ParsePortableTimestamp v = Some (t, k) \<longleftrightarrow>
      v = format_portable (CHR ''T'') True t k \<and> valid_date t \<and> valid_clock t \<and> valid_fraction k (Nanosecond t))"
  by (simp add: ParsePortableDateTime_def ParsePortableTimestamp_def parsePortableDateTime_iff)


end
