(* ===== verification/Domain.thy ===== *)
theory Domain
  imports Prelude
begin

text \<open>
  \<^verbatim>\<open>internal/domain/domain.go\<close>: operations, adapter features, the identifier semantics of a
  datasource and the twelve resource limits. \<open>Limits.Min\<close> is the only way limits are combined; it is
  shown to be the meet of the componentwise order by interpreting the library's
  \<open>semilattice_order\<close> locale, so that "effective limits" never exceed either operand.
  Go's \<open>int\<close> is \<^typ>\<open>int\<close> here: limits are compared and bounded by validated configuration, never
  multiplied, and every bound is far below \<open>2 ^ 63\<close>.
\<close>

section \<open>Operations and features\<close>

type_synonym Operation = string
type_synonym AdapterFeature = string

definition OperationListObjects :: Operation where
  "OperationListObjects = ''list_objects''"
definition OperationDescribeObject :: Operation where
  "OperationDescribeObject = ''describe_object''"
definition OperationExplainSelect :: Operation where
  "OperationExplainSelect = ''explain_select''"
definition OperationSelect :: Operation where
  "OperationSelect = ''select''"
definition OperationSelectKeyset :: Operation where
  "OperationSelectKeyset = ''select_keyset''"
definition OperationAggregate :: Operation where
  "OperationAggregate = ''aggregate''"
definition OperationListQueryShapes :: Operation where
  "OperationListQueryShapes = ''list_query_shapes''"
definition OperationDescribeObjectStatistics :: Operation where
  "OperationDescribeObjectStatistics = ''describe_object_statistics''"

lemmas operation_defs =
  OperationListObjects_def OperationDescribeObject_def OperationExplainSelect_def
  OperationSelect_def OperationSelectKeyset_def OperationAggregate_def
  OperationListQueryShapes_def OperationDescribeObjectStatistics_def

definition Operation_Valid :: "Operation \<Rightarrow> bool" where
  "Operation_Valid op \<longleftrightarrow> op \<in> set
     [OperationListObjects, OperationDescribeObject, OperationExplainSelect, OperationSelect,
      OperationSelectKeyset, OperationAggregate, OperationListQueryShapes,
      OperationDescribeObjectStatistics]"

definition FeatureNumericBucketExact :: AdapterFeature where
  "FeatureNumericBucketExact = ''numeric_bucket_exact''"
definition FeatureTimeBucketUTC :: AdapterFeature where
  "FeatureTimeBucketUTC = ''time_bucket_utc''"
definition FeatureSourceText :: AdapterFeature where
  "FeatureSourceText = ''source_text''"

definition AdapterFeature_Valid :: "AdapterFeature \<Rightarrow> bool" where
  "AdapterFeature_Valid f \<longleftrightarrow>
     f = FeatureNumericBucketExact \<or> f = FeatureTimeBucketUTC \<or> f = FeatureSourceText"

definition MaxSupportedResultBytes :: int where
  "MaxSupportedResultBytes = 16 * 1024 * 1024"

text \<open>
  Which parts of a resource name a datasource compares without regard to case: the adapter derives
  it from the server, the policy engine and the normalisers take it as an argument.
\<close>

record IdentifierSemantics =
  CaseInsensitiveSchemas :: bool
  CaseInsensitiveObjects :: bool
  CaseInsensitiveFields :: bool

section \<open>Limits\<close>

record Limits =
  DeadlineMS :: int
  MaxRequestBytes :: int
  MaxProjectionFields :: int
  MaxGroupByFields :: int
  MaxOrderByFields :: int
  MaxPredicates :: int
  MaxExpressionDepth :: int
  MaxParameters :: int
  MaxRows :: int
  MaxResultBytes :: int
  MaxOffset :: int
  MaxConcurrency :: int

definition Limits_Min :: "Limits \<Rightarrow> Limits \<Rightarrow> Limits" where
  "Limits_Min l other = \<lparr>
     DeadlineMS = min (DeadlineMS l) (DeadlineMS other),
     MaxRequestBytes = min (MaxRequestBytes l) (MaxRequestBytes other),
     MaxProjectionFields = min (MaxProjectionFields l) (MaxProjectionFields other),
     MaxGroupByFields = min (MaxGroupByFields l) (MaxGroupByFields other),
     MaxOrderByFields = min (MaxOrderByFields l) (MaxOrderByFields other),
     MaxPredicates = min (MaxPredicates l) (MaxPredicates other),
     MaxExpressionDepth = min (MaxExpressionDepth l) (MaxExpressionDepth other),
     MaxParameters = min (MaxParameters l) (MaxParameters other),
     MaxRows = min (MaxRows l) (MaxRows other),
     MaxResultBytes = min (MaxResultBytes l) (MaxResultBytes other),
     MaxOffset = min (MaxOffset l) (MaxOffset other),
     MaxConcurrency = min (MaxConcurrency l) (MaxConcurrency other)\<rparr>"

text \<open>The componentwise order that \<open>Limits.Min\<close> is the meet of.\<close>

definition limits_le :: "Limits \<Rightarrow> Limits \<Rightarrow> bool" where
  "limits_le a b \<longleftrightarrow>
     DeadlineMS a \<le> DeadlineMS b \<and> MaxRequestBytes a \<le> MaxRequestBytes b \<and>
     MaxProjectionFields a \<le> MaxProjectionFields b \<and> MaxGroupByFields a \<le> MaxGroupByFields b \<and>
     MaxOrderByFields a \<le> MaxOrderByFields b \<and> MaxPredicates a \<le> MaxPredicates b \<and>
     MaxExpressionDepth a \<le> MaxExpressionDepth b \<and> MaxParameters a \<le> MaxParameters b \<and>
     MaxRows a \<le> MaxRows b \<and> MaxResultBytes a \<le> MaxResultBytes b \<and>
     MaxOffset a \<le> MaxOffset b \<and> MaxConcurrency a \<le> MaxConcurrency b"

definition limits_less :: "Limits \<Rightarrow> Limits \<Rightarrow> bool" where
  "limits_less a b \<longleftrightarrow> limits_le a b \<and> a \<noteq> b"

lemma Limits_Min_sel [simp]:
  "DeadlineMS (Limits_Min a b) = min (DeadlineMS a) (DeadlineMS b)"
  "MaxRequestBytes (Limits_Min a b) = min (MaxRequestBytes a) (MaxRequestBytes b)"
  "MaxProjectionFields (Limits_Min a b) = min (MaxProjectionFields a) (MaxProjectionFields b)"
  "MaxGroupByFields (Limits_Min a b) = min (MaxGroupByFields a) (MaxGroupByFields b)"
  "MaxOrderByFields (Limits_Min a b) = min (MaxOrderByFields a) (MaxOrderByFields b)"
  "MaxPredicates (Limits_Min a b) = min (MaxPredicates a) (MaxPredicates b)"
  "MaxExpressionDepth (Limits_Min a b) = min (MaxExpressionDepth a) (MaxExpressionDepth b)"
  "MaxParameters (Limits_Min a b) = min (MaxParameters a) (MaxParameters b)"
  "MaxRows (Limits_Min a b) = min (MaxRows a) (MaxRows b)"
  "MaxResultBytes (Limits_Min a b) = min (MaxResultBytes a) (MaxResultBytes b)"
  "MaxOffset (Limits_Min a b) = min (MaxOffset a) (MaxOffset b)"
  "MaxConcurrency (Limits_Min a b) = min (MaxConcurrency a) (MaxConcurrency b)"
  by (simp_all add: Limits_Min_def)

lemma limits_eq_iff:
  "(a :: Limits) = b \<longleftrightarrow>
     DeadlineMS a = DeadlineMS b \<and> MaxRequestBytes a = MaxRequestBytes b \<and>
     MaxProjectionFields a = MaxProjectionFields b \<and> MaxGroupByFields a = MaxGroupByFields b \<and>
     MaxOrderByFields a = MaxOrderByFields b \<and> MaxPredicates a = MaxPredicates b \<and>
     MaxExpressionDepth a = MaxExpressionDepth b \<and> MaxParameters a = MaxParameters b \<and>
     MaxRows a = MaxRows b \<and> MaxResultBytes a = MaxResultBytes b \<and>
     MaxOffset a = MaxOffset b \<and> MaxConcurrency a = MaxConcurrency b"
  by (cases a, cases b) simp

lemma Limits_Min_absorb_iff: "a = Limits_Min a b \<longleftrightarrow> limits_le a b"
  by (simp only: limits_eq_iff [of a] limits_le_def Limits_Min_sel min.order_iff)

text \<open>\<open>Limits.Min\<close> is a semilattice whose order is \<^const>\<open>limits_le\<close>.\<close>

interpretation limits_meet: semilattice_order Limits_Min limits_le limits_less
proof
  fix a b c :: Limits
  show "Limits_Min (Limits_Min a b) c = Limits_Min a (Limits_Min b c)"
    by (simp add: limits_eq_iff min.assoc)
  show "Limits_Min a b = Limits_Min b a"
    by (simp add: limits_eq_iff min.commute)
  show "Limits_Min a a = a"
    by (simp add: limits_eq_iff)
  show "limits_le a b \<longleftrightarrow> a = Limits_Min a b"
    by (simp add: Limits_Min_absorb_iff)
  show "limits_less a b \<longleftrightarrow> a = Limits_Min a b \<and> a \<noteq> b"
    by (simp add: Limits_Min_absorb_iff limits_less_def)
qed

section \<open>Properties\<close>

text \<open>
  The limits computed by \<open>Limits.Min\<close> are the greatest limits that exceed neither operand in any of
  the twelve dimensions.
\<close>

theorem limits_min_greatest_lower_bound:
  "limits_le x (Limits_Min a b) \<longleftrightarrow> limits_le x a \<and> limits_le x b"
  by (rule limits_meet.bounded_iff)

end
