(* ===== verification/Query_Types.thy ===== *)
theory Query_Types
  imports Go_Json Portable_Values Domain
begin

text \<open>
  \<^verbatim>\<open>internal/queryspec/types.go\<close>, \<^verbatim>\<open>representation.go\<close> and \<^verbatim>\<open>shape.go\<close>: the client's query, its validation
  into an immutable normalised query, re-validation under stricter limits, and the bind values of its
  filter. Paths of validation errors are strings as in the code; the fixed texts of the messages are
  the constructors of \<open>message\<close>, or the literal text under \<open>Message\<close>. A nil-able slice whose nilness the code tests is a list option.
\<close>

section \<open>Errors\<close>

datatype bind_error =
    ValueRequired | NullNotAccepted | BooleanRequired | IntegerRequired | DecimalStringRequired
  | DecimalRequired | StringRequired | UUIDRequired | DateStringRequired | DateFormatRequired
  | DateTimeStringRequired | DateTimeFormatRequired | BytesStringRequired | BytesBase64Required
  | UnsupportedType

datatype message =
    MustNotBeEmpty | Exceeds128Bytes | MustBePortableIdentifier | RepresentationMustBeSourceText
  | RepresentationRequiresField | FunctionOnlyForAggregates | UnsupportedAggregate
  | KindMustBeFieldOrAggregate | RepresentationRequiresPredicate | ExceedsEffectiveDepth
  | ExpressionsOnlyForGroups | ExceedsProtocolArray | UnsupportedOperator | IsRequired
  | MustContainValues int | MustContainOneValue | ExceedsEffectivePredicates
  | ExceedsEffectiveParameters | SourceTextRequiresStrings | InvalidBindValue bind_error
  | GroupWithoutFieldOrValues | OperatorMustBeAndOr | AtLeastTwoExpressions
  | KindMustBePredicateOrGroup | AtLeastOneSelection | ExceedsProtocolProjection
  | ExceedsEffectiveProjection | ExceedsProtocolGroupBy | ExceedsEffectiveGroupBy
  | ExceedsProtocolOrderBy | ExceedsEffectiveOrderBy | DirectionMustBeAscDesc
  | FieldsRequireGroupBy | SourceTextUnsupportedGrouped | FieldMustBeGrouped string
  | OrderFieldMustBeGrouped | LimitAtLeastOne | ExceedsProtocolRows | OffsetNotNegative
  | ExceedsProtocolOffset | ExceedsEffectiveOffset | NotValidated | EffectiveRowsAtLeastOne
  | GroupByUnsupportedForSelect | OnlyFieldProjections | Message string

datatype ValidationError = VErr (verr_path: string) (verr_message: message)

abbreviation validationError :: "string \<Rightarrow> message \<Rightarrow> ValidationError" where
  "validationError \<equiv> VErr"

section \<open>The structures\<close>

type_synonym Representation = string

definition RepresentationSourceText :: Representation where
  "RepresentationSourceText = ''source_text''"

record ResourceRef =
  ref_Schema :: string
  ref_Name :: string

record Selection =
  sel_Representation :: Representation
  sel_Kind :: string
  sel_Field :: string
  sel_Function :: string
  sel_Alias :: string

record Sort =
  sort_Representation :: Representation
  sort_Field :: string
  sort_Direction :: string

text \<open>The raw JSON of a bind value may be a nil slice.\<close>

record TypedValue =
  tv_Type :: string
  tv_Value :: "string option"

datatype Filter = Filter
  (f_Representation: Representation)
  (f_Kind: string)
  (f_Field: string)
  (f_Operator: string)
  (f_Values: "TypedValue list option")
  (f_Expressions: "Filter list")

definition f_values :: "Filter \<Rightarrow> TypedValue list" where
  "f_values f = (case f_Values f of None \<Rightarrow> [] | Some vs \<Rightarrow> vs)"

record Spec =
  spec_Source :: ResourceRef
  spec_Projection :: "Selection list"
  spec_Filter :: "Filter option"
  spec_GroupBy :: "string list"
  spec_OrderBy :: "Sort list"
  spec_Limit :: "int option"
  spec_Offset :: "int option"

record NormalizedSpec =
  ns_Source :: ResourceRef
  ns_Projection :: "Selection list"
  ns_Filter :: "Filter option"
  ns_GroupBy :: "string list"
  ns_OrderBy :: "Sort list"
  ns_Limit :: int
  ns_Offset :: int

record Stats =
  Predicates :: int
  ExpressionDepth :: int
  Parameters :: int

record Validated =
  v_spec :: NormalizedSpec
  v_stats :: Stats
  v_valid :: bool

definition defaultLimit :: int where "defaultLimit = 100"
definition ProtocolMaxIdentifierBytes :: nat where "ProtocolMaxIdentifierBytes = 128"
definition ProtocolMaxProjectionFields :: nat where "ProtocolMaxProjectionFields = 100"
definition ProtocolMaxGroupByFields :: nat where "ProtocolMaxGroupByFields = 100"
definition ProtocolMaxOrderByFields :: nat where "ProtocolMaxOrderByFields = 100"
definition ProtocolMaxFilterItems :: nat where "ProtocolMaxFilterItems = 200"
definition ProtocolMaxRows :: int where "ProtocolMaxRows = 1000000"
definition ProtocolMaxOffset :: int where "ProtocolMaxOffset = 1000000000"

lemmas protocol_limits =
  defaultLimit_def ProtocolMaxIdentifierBytes_def ProtocolMaxProjectionFields_def
  ProtocolMaxGroupByFields_def ProtocolMaxOrderByFields_def ProtocolMaxFilterItems_def
  ProtocolMaxRows_def ProtocolMaxOffset_def

section \<open>Identifiers and representations\<close>

definition validateIdentifier :: "string \<Rightarrow> string \<Rightarrow> ValidationError option" where
  "validateIdentifier path value = first_error [
     fail_if (value = []) (validationError path MustNotBeEmpty),
     fail_if (length value > ProtocolMaxIdentifierBytes) (validationError path Exceeds128Bytes),
     fail_if (\<not> identifierPattern value) (validationError path MustBePortableIdentifier)]"

definition IsIdentifier :: "string \<Rightarrow> bool" where
  "IsIdentifier value \<longleftrightarrow> validateIdentifier ''identifier'' value = None"

definition Representation_Valid :: "Representation \<Rightarrow> bool" where
  "Representation_Valid r \<longleftrightarrow> r = [] \<or> r = RepresentationSourceText"

definition validateRepresentation :: "string \<Rightarrow> Representation \<Rightarrow> ValidationError option" where
  "validateRepresentation path r =
     fail_if (\<not> Representation_Valid r)
       (validationError (sub_path path ''representation'') RepresentationMustBeSourceText)"

lemma IsIdentifier_iff:
  "IsIdentifier s \<longleftrightarrow> identifierPattern s \<and> length s \<le> ProtocolMaxIdentifierBytes"
  by (auto simp: IsIdentifier_def validateIdentifier_def identifierPattern_def)

lemma validateIdentifier_None [simp, result_iff]: "validateIdentifier p s = None \<longleftrightarrow> IsIdentifier s"
  by (simp add: IsIdentifier_def validateIdentifier_def)

lemma validateRepresentation_None [simp, result_iff]:
  "validateRepresentation p r = None \<longleftrightarrow> Representation_Valid r"
  by (simp add: validateRepresentation_def)

lemma IsIdentifier_Nil [simp]: "\<not> IsIdentifier []"
  by (simp add: IsIdentifier_iff identifierPattern_def)

lemma IsIdentifier_ascii: "IsIdentifier s \<Longrightarrow> list_all is_ascii s"
  by (simp add: IsIdentifier_iff identifierPattern_ascii)

lemma IsIdentifier_ToLower [simp]: "IsIdentifier (ToLower s) = IsIdentifier s"
  by (simp add: IsIdentifier_iff)

section \<open>Integers of bind values\<close>

text \<open>
  \<open>parseSaturatedDecimalExponent\<close>: the loop over the digits, which stops at \<open>maximum\<close>. Go's \<open>int\<close>
  cannot overflow here: the value never exceeds \<open>maximum\<close>, the length of the input plus 20.
\<close>

fun saturated_digits :: "nat \<Rightarrow> nat \<Rightarrow> string \<Rightarrow> nat" where
  "saturated_digits maximum value [] = value"
| "saturated_digits maximum value (c # cs) =
     (if value > (maximum - digit_value c) div 10 then maximum
      else saturated_digits maximum (value * 10 + digit_value c) cs)"

definition parseSaturatedDecimalExponent :: "string \<Rightarrow> nat \<Rightarrow> int" where
  "parseSaturatedDecimalExponent raw maximum =
     (let negative = (hd raw = CHR ''-'');
          digits = (if hd raw = CHR ''-'' \<or> hd raw = CHR ''+'' then tl raw else raw);
          value = saturated_digits maximum 0 digits
      in if negative then - int value else int value)"

text \<open>
  The closure \<open>appendDigit\<close> over a list of digits. \<open>magnitude\<close> is a Go \<open>uint64\<close>; the guard keeps it
  at most \<open>limit\<close>, which is at most \<open>2 ^ 63\<close>, so the multiplication never wraps and \<^typ>\<open>nat\<close> is exact.
\<close>

fun append_digits :: "nat \<Rightarrow> nat \<Rightarrow> string \<Rightarrow> nat option" where
  "append_digits limit magnitude [] = Some magnitude"
| "append_digits limit magnitude (c # cs) =
     (if magnitude > (limit - digit_value c) div 10 then None
      else append_digits limit (magnitude * 10 + digit_value c) cs)"

text \<open>\<open>bytes.IndexAny(raw, "eE")\<close>: the mantissa and the text after the exponent letter.\<close>

definition split_exponent :: "string \<Rightarrow> string \<times> string" where
  "split_exponent raw =
     (let is_e = (\<lambda>c. c = CHR ''e'' \<or> c = CHR ''E'')
      in (takeWhile (\<lambda>c. \<not> is_e c) raw, tl (dropWhile (\<lambda>c. \<not> is_e c) raw)))"

definition fractional_digits :: "string \<Rightarrow> nat" where
  "fractional_digits mantissa = length (tl (dropWhile (\<lambda>c. c \<noteq> CHR ''.'') mantissa))"

definition parseJSONInteger :: "string \<Rightarrow> int option" where
  "parseJSONInteger raw0 =
     (let raw1 = TrimSpace raw0 in
      if \<not> jsonNumberPattern raw1 then None
      else
        let (negative, raw) = strip_minus raw1;
            (mantissa, exponentBytes) = split_exponent raw;
            fractionalDigits = fractional_digits mantissa;
            digits = dropWhile (\<lambda>c. c = CHR ''0'') (filter (\<lambda>c. c \<noteq> CHR ''.'') mantissa) in
        if digits = [] then Some 0
        else
          let exponent = (if exponentBytes \<noteq> []
                          then parseSaturatedDecimalExponent exponentBytes (length raw + 20) else 0);
              effective = exponent - int fractionalDigits;
              trailing = nat (- effective) in
          if effective < 0 \<and>
             (trailing > length digits \<or>
              \<not> list_all (\<lambda>c. c = CHR ''0'') (drop (length digits - trailing) digits)) then None
          else
            let digits' = (if effective < 0 then take (length digits - trailing) digits else digits);
                effective' = (if effective < 0 then 0 else nat effective);
                limit = (2 ^ 63 - 1) + (if negative then 1 else 0) in
            case append_digits limit 0 digits' of
              None \<Rightarrow> None
            | Some m \<Rightarrow>
                if effective' > 19 then None
                else (case append_digits limit m (replicate effective' (CHR ''0'')) of
                        None \<Rightarrow> None
                      | Some m' \<Rightarrow> Some (if negative then - int m' else int m')))"

section \<open>Bind values\<close>

datatype bound = BoundBool bool | BoundInt int | BoundString string | BoundBytes string

definition BindValue :: "TypedValue \<Rightarrow> bind_error + bound" where
  "BindValue v =
     (case tv_Value v of
        None \<Rightarrow> Inl ValueRequired
      | Some raw \<Rightarrow>
          let rawValue = TrimSpace raw; ty = tv_Type v in
          if rawValue = ''null'' then Inl NullNotAccepted
          else if ty = ''boolean'' then
            (case unmarshal_bool raw of None \<Rightarrow> Inl BooleanRequired | Some b \<Rightarrow> Inr (BoundBool b))
          else if ty = ''integer'' then
            (case parseJSONInteger rawValue of None \<Rightarrow> Inl IntegerRequired | Some i \<Rightarrow> Inr (BoundInt i))
          else if ty = ''decimal'' then
            (case unmarshal_string raw of
               Some text_value \<Rightarrow>
                 if \<not> decimalPattern text_value then Inl DecimalStringRequired
                 else Inr (BoundString text_value)
             | None \<Rightarrow>
                 if \<not> jsonNumberPattern rawValue then Inl DecimalRequired
                 else Inr (BoundString rawValue))
          else if ty = ''string'' then
            (case unmarshal_string raw of None \<Rightarrow> Inl StringRequired | Some s \<Rightarrow> Inr (BoundString s))
          else if ty = ''uuid'' then
            (case unmarshal_string raw of
               None \<Rightarrow> Inl UUIDRequired
             | Some s \<Rightarrow> if \<not> uuidPattern s then Inl UUIDRequired else Inr (BoundString s))
          else if ty = ''date'' then
            (case unmarshal_string raw of
               None \<Rightarrow> Inl DateStringRequired
             | Some s \<Rightarrow>
                 if ParsePortableDate s = None then Inl DateFormatRequired else Inr (BoundString s))
          else if ty = ''datetime'' then
            (case unmarshal_string raw of
               None \<Rightarrow> Inl DateTimeStringRequired
             | Some s \<Rightarrow>
                 if \<not> validateRFC3339DateTime s then Inl DateTimeFormatRequired
                 else Inr (BoundString s))
          else if ty = ''bytes'' then
            (case unmarshal_string raw of
               None \<Rightarrow> Inl BytesStringRequired
             | Some s \<Rightarrow>
                 (case b64_decode_strict s of
                    None \<Rightarrow> Inl BytesBase64Required
                  | Some d \<Rightarrow>
                      if b64_encode d \<noteq> s then Inl BytesBase64Required else Inr (BoundBytes d)))
          else Inl UnsupportedType)"

lemma parseJSONInteger_Nil [simp]: "parseJSONInteger [] = None"
  by (simp add: parseJSONInteger_def)

lemma BindValue_not_empty: "BindValue v = Inr b \<Longrightarrow> tv_Value v \<noteq> Some []"
  by (auto simp: BindValue_def Let_def split: if_splits)

text \<open>Evaluation of integer bind values by the simplifier (the code generator's unary \<^typ>\<open>nat\<close> is of no use here).\<close>

lemma replicate_two: "replicate 2 c = [c, c]"
  by (simp add: numeral_2_eq_2)

lemmas integer_eval =
  BindValue_def graphic_def parseJSONInteger_def jsonNumberPattern_def strip_minus_def integer_digits_def
  is_digit_def split_fraction_def exponentSuffix_def split_exponent_def fractional_digits_def
  digit_value_def parseSaturatedDecimalExponent_def replicate_two

end
