(* ===== verification/Json_Integer.thy ===== *)
theory Json_Integer
  imports Complex_Main Query_Types
begin

text \<open>
  \<open>parseJSONInteger\<close> of \<^verbatim>\<open>internal/queryspec/types.go\<close> is exact: it decides, with saturating digit loops
  and without any big number, whether the rational number a JSON text denotes (\<open>json_value\<close>) is an
  integer that fits in Go's \<open>int64\<close>, and returns that integer. \<open>1e2\<close>, \<open>100.0\<close> and \<open>1000e-1\<close> are the
  integer 100; \<open>1e-1\<close> and \<open>9223372036854775808\<close> are refused.
\<close>


section \<open>The number a JSON text denotes\<close>

definition exponent_value :: "string \<Rightarrow> int" where
  "exponent_value u =
     (if u = [] then 0
      else if hd u = CHR ''-'' then - int (dec_value (tl u))
      else if hd u = CHR ''+'' then int (dec_value (tl u)) else int (dec_value u))"

definition json_value :: "string \<Rightarrow> rat" where
  "json_value s =
     (let (negative, t) = strip_minus s;
          ds = takeWhile is_digit t;
          (fr, r) = (case split_fraction (dropWhile is_digit t) of Some p \<Rightarrow> p | None \<Rightarrow> ([], []));
          magnitude = (of_nat (dec_value ds) + of_nat (dec_value fr) / 10 ^ length fr)
                        * power_int 10 (exponent_value (tl r))
      in if negative then - magnitude else magnitude)"

section \<open>Digit strings\<close>

lemma digit_value_zero [simp]: "digit_value (CHR ''0'') = 0"
  by (simp add: digit_value_def)

lemma digit_value_eq_0: "is_digit c \<Longrightarrow> digit_value c = 0 \<longleftrightarrow> c = CHR ''0''"
proof
  assume "is_digit c" and "digit_value c = 0"
  then have "byte c = byte (CHR ''0'')" by (simp add: is_digit_def digit_value_def)
  then show "c = CHR ''0''" by (simp only: byte_eq_iff)
qed simp

lemma digit_step:
  assumes "9 \<le> limit" and "is_digit c"
  shows "m > (limit - digit_value c) div 10 \<longleftrightarrow> limit < m * 10 + digit_value c"
proof -
  have "digit_value c \<le> limit" using assms(1) digit_value_less [OF assms(2)] by linarith
  then show ?thesis by (auto simp: div_less_iff_less_mult)
qed

lemma digits_step_value:
  "(m * 10 + digit_value c) * 10 ^ length cs + dec_value cs = m * 10 ^ length (c # cs) + dec_value (c # cs)"
  by (simp add: dec_value_Cons algebra_simps)

lemma digits_step_le:
  "m * 10 + digit_value c \<le> m * 10 ^ length (c # cs) + dec_value (c # cs)"
  unfolding digits_step_value [symmetric] by (simp add: trans_le_add1)

lemma dec_value_dropWhile_zero: "dec_value (dropWhile (\<lambda>c. c = CHR ''0'') ds) = dec_value ds"
  by (induction ds) (simp_all add: dec_value_Cons)

lemma dec_value_zeros: "dec_value (replicate n (CHR ''0'')) = 0"
  by (induction n) (simp_all add: dec_value_Cons)

lemma dec_value_eq_0_iff:
  "list_all is_digit ds \<Longrightarrow> dec_value ds = 0 \<longleftrightarrow> list_all (\<lambda>c. c = CHR ''0'') ds"
proof (induction ds)
  case (Cons c ds)
  then show ?case by (auto simp: dec_value_Cons digit_value_eq_0)
qed simp

lemma append_digits_eq:
  assumes "9 \<le> limit" "list_all is_digit ds" "m \<le> limit"
  shows "append_digits limit m ds =
    (if m * 10 ^ length ds + dec_value ds \<le> limit then Some (m * 10 ^ length ds + dec_value ds) else None)"
  using assms
proof (induction ds arbitrary: m)
  case (Cons c cs)
  then show ?case
    using digit_step [of limit c m] digits_step_le [of m c cs] Cons.IH [of "m * 10 + digit_value c"]
    by (auto simp: digits_step_value simp del: length_Cons)
qed simp

lemma saturated_digits_eq:
  assumes "9 \<le> maximum" "list_all is_digit ds" "m \<le> maximum"
  shows "saturated_digits maximum m ds = min maximum (m * 10 ^ length ds + dec_value ds)"
  using assms
proof (induction ds arbitrary: m)
  case (Cons c cs)
  then show ?case
    using digit_step [of maximum c m] digits_step_le [of m c cs] Cons.IH [of "m * 10 + digit_value c"]
    by (auto simp: digits_step_value simp del: length_Cons)
qed simp

section \<open>The parts of a number\<close>

text \<open>
  A number without its sign: integer digits, optional fraction, optional exponent. \<open>number_text\<close> puts
  the parts together; every text the pattern accepts is of this form.
\<close>

definition number_text :: "string \<Rightarrow> string \<Rightarrow> string \<Rightarrow> string" where
  "number_text ds fr r = ds @ (if fr = [] then [] else CHR ''.'' # fr) @ r"

lemma not_digit [simp]: "\<not> is_digit (CHR ''.'')" "\<not> is_digit (CHR ''e'')" "\<not> is_digit (CHR ''E'')"
  "\<not> is_digit (CHR ''-'')" "\<not> is_digit (CHR ''+'')"
  by (simp_all add: is_digit_def)

lemma exponentSuffix_cases:
  assumes "exponentSuffix r"
  obtains "r = []"
    | e u where "r = e # u" "e = CHR ''e'' \<or> e = CHR ''E''" "u \<noteq> []"
        "\<exists>ds. ds \<noteq> [] \<and> list_all is_digit ds \<and> (u = ds \<or> u = CHR ''-'' # ds \<or> u = CHR ''+'' # ds)"
  using assms by (auto simp: exponentSuffix_def Let_def split: list.splits if_splits)

lemma takeWhile_dropWhile_digits:
  assumes "list_all is_digit ds" and "r = [] \<or> \<not> is_digit (hd r)"
  shows "takeWhile is_digit (ds @ r) = ds" and "dropWhile is_digit (ds @ r) = r"
proof -
  have all: "\<And>x. x \<in> set ds \<Longrightarrow> is_digit x" using assms(1) by (simp add: list_all_iff)
  from assms(2) have "takeWhile is_digit r = []" "dropWhile is_digit r = r"
    by (cases r; simp)+
  with all show "takeWhile is_digit (ds @ r) = ds" and "dropWhile is_digit (ds @ r) = r"
    by (simp_all add: takeWhile_append2 dropWhile_append2)
qed

lemma jsonNumberPattern_parts:
  assumes "jsonNumberPattern s"
  obtains neg ds fr r where "strip_minus s = (neg, number_text ds fr r)" "integer_digits ds"
    "list_all is_digit fr" "exponentSuffix r"
    "takeWhile is_digit (number_text ds fr r) = ds"
    "split_fraction (dropWhile is_digit (number_text ds fr r)) = Some (fr, r)"
proof -
  obtain neg t where st: "strip_minus s = (neg, t)" by (cases "strip_minus s")
  define ds where "ds = takeWhile is_digit t"
  from assms obtain fr r where id: "integer_digits ds" and sf: "split_fraction (dropWhile is_digit t) = Some (fr, r)"
    and ex: "exponentSuffix r"
    by (auto simp: jsonNumberPattern_def st ds_def Let_def split: option.splits)
  have "list_all is_digit fr \<and> dropWhile is_digit t = (if fr = [] then [] else CHR ''.'' # fr) @ r"
    using sf by (auto simp: split_fraction_def Let_def list_all_iff split: list.splits if_splits dest: set_takeWhileD)
  then have fr: "list_all is_digit fr" and "number_text ds fr r = ds @ dropWhile is_digit t"
    by (simp_all add: number_text_def)
  then have t: "number_text ds fr r = t" by (simp add: ds_def)
  show thesis
  proof (rule that [of neg ds fr r])
    show "strip_minus s = (neg, number_text ds fr r)" using st t by simp
    show "takeWhile is_digit (number_text ds fr r) = ds" unfolding t by (simp add: ds_def)
    show "split_fraction (dropWhile is_digit (number_text ds fr r)) = Some (fr, r)" unfolding t by (rule sf)
  qed (fact id fr ex)+
qed

lemma split_exponent_number:
  assumes "list_all is_digit ds" "list_all is_digit fr" "exponentSuffix r"
  shows "split_exponent (number_text ds fr r) = (ds @ (if fr = [] then [] else CHR ''.'' # fr), tl r)"
proof -
  let ?m = "ds @ (if fr = [] then [] else CHR ''.'' # fr)"
  let ?P = "\<lambda>c. \<not> (c = CHR ''e'' \<or> c = CHR ''E'')"
  have "\<And>c. is_digit c \<Longrightarrow> ?P c" using not_digit by blast
  then have "\<forall>c \<in> set ?m. ?P c" using assms by (auto simp: list_all_iff)
  then have "takeWhile ?P (?m @ r) = ?m @ takeWhile ?P r" "dropWhile ?P (?m @ r) = dropWhile ?P r"
    by (simp_all add: takeWhile_append2 dropWhile_append2)
  moreover have "takeWhile ?P r = []" "dropWhile ?P r = r"
    using assms(3) by (auto elim!: exponentSuffix_cases)
  ultimately show ?thesis by (simp add: split_exponent_def number_text_def Let_def)
qed

lemma fractional_digits_number:
  assumes "list_all is_digit ds" "list_all is_digit fr"
  shows "fractional_digits (ds @ (if fr = [] then [] else CHR ''.'' # fr)) = length fr"
    and "filter (\<lambda>c. c \<noteq> CHR ''.'') (ds @ (if fr = [] then [] else CHR ''.'' # fr)) = ds @ fr"
proof -
  have "\<And>c. is_digit c \<Longrightarrow> c \<noteq> CHR ''.''" using not_digit by blast
  then have all: "\<forall>c \<in> set ds. c \<noteq> CHR ''.''" "\<forall>c \<in> set fr. c \<noteq> CHR ''.''"
    using assms by (auto simp: list_all_iff)
  then show "filter (\<lambda>c. c \<noteq> CHR ''.'') (ds @ (if fr = [] then [] else CHR ''.'' # fr)) = ds @ fr"
    by (simp add: filter_id_conv)
  from all(1) show "fractional_digits (ds @ (if fr = [] then [] else CHR ''.'' # fr)) = length fr"
    by (simp add: fractional_digits_def dropWhile_append2)
qed

lemma parseSaturated_number:
  assumes "exponentSuffix r" "r \<noteq> []" "20 \<le> maximum"
  shows "parseSaturatedDecimalExponent (tl r) maximum =
    max (- int maximum) (min (int maximum) (exponent_value (tl r)))"
  using assms(1)
proof (cases rule: exponentSuffix_cases)
  case 1
  with assms(2) show ?thesis by simp
next
  case (2 e u)
  then obtain ds where ds: "ds \<noteq> []" "list_all is_digit ds" "u = ds \<or> u = CHR ''-'' # ds \<or> u = CHR ''+'' # ds"
    by blast
  then have "hd ds \<noteq> CHR ''-''" "hd ds \<noteq> CHR ''+''"
    using not_digit by (cases ds; auto)+
  moreover have "saturated_digits maximum 0 ds = min maximum (dec_value ds)"
    using saturated_digits_eq [of maximum ds 0] assms(3) ds(2) by simp
  ultimately show ?thesis
    using 2 ds by (auto simp: parseSaturatedDecimalExponent_def exponent_value_def Let_def)
qed

section \<open>Scaled digit strings\<close>

lemma scaled_value:
  "(of_nat (dec_value ds) + of_nat (dec_value fr) / 10 ^ length fr) * power_int (10 :: rat) e =
     of_nat (dec_value (ds @ fr)) * power_int 10 (e - int (length fr))"
  by (simp add: dec_value_append power_int_diff field_simps)

lemma scaled_eq_nat_iff:
  "of_nat d * power_int (10 :: rat) x = of_nat m \<longleftrightarrow>
     (if 0 \<le> x then d * 10 ^ nat x = m else d = m * 10 ^ nat (- x))"
proof (cases "0 \<le> x")
  case True
  then have "power_int (10 :: rat) x = of_nat (10 ^ nat x)" by (simp add: power_int_def)
  then have "of_nat d * power_int (10 :: rat) x = of_nat (d * 10 ^ nat x)" by simp
  with True show ?thesis by (simp only: of_nat_eq_iff if_True)
next
  case False
  then have "power_int (10 :: rat) x = inverse (of_nat (10 ^ nat (- x)))" by (simp add: power_int_def power_one_over inverse_eq_divide)
  then have "of_nat d * power_int (10 :: rat) x = of_nat m \<longleftrightarrow> (of_nat d :: rat) = of_nat (m * 10 ^ nat (- x))"
    by (simp add: divide_inverse [symmetric] divide_eq_eq del: power_int_eq_0_iff)
  with False show ?thesis by (simp only: of_nat_eq_iff if_False)
qed

text \<open>
  The magnitude the loops of \<open>parseJSONInteger\<close> compute from nonzero digits without leading zeros and
  an exponent, over the integers.
\<close>

definition scaled_integer :: "nat \<Rightarrow> int \<Rightarrow> nat \<Rightarrow> bool" where
  "scaled_integer d x m \<longleftrightarrow> (if 0 \<le> x then d * 10 ^ nat x = m else d = m * 10 ^ nat (- x))"

definition magnitude_of :: "nat \<Rightarrow> string \<Rightarrow> int \<Rightarrow> nat option" where
  "magnitude_of limit digits effective =
     (let trailing = nat (- effective) in
      if effective < 0 \<and>
         (trailing > length digits \<or>
          \<not> list_all (\<lambda>c. c = CHR ''0'') (drop (length digits - trailing) digits)) then None
      else
        let digits' = (if effective < 0 then take (length digits - trailing) digits else digits);
            effective' = (if effective < 0 then 0 else nat effective) in
        case append_digits limit 0 digits' of
          None \<Rightarrow> None
        | Some m \<Rightarrow>
            if effective' > 19 then None
            else append_digits limit m (replicate effective' (CHR ''0'')))"

lemma magnitude_of_iff:
  assumes l: "9 \<le> limit" "limit < 10 ^ 20" and ds: "list_all is_digit digits" "dec_value digits \<noteq> 0"
  shows "magnitude_of limit digits x = Some m \<longleftrightarrow> scaled_integer (dec_value digits) x m \<and> m \<le> limit"
proof (cases "x < 0")
  case True
  define k where "k = nat (- x)"
  let ?hi = "take (length digits - k) digits" and ?lo = "drop (length digits - k) digits"
  have hi: "list_all is_digit ?hi" and lo: "list_all is_digit ?lo"
    using ds(1) by (simp_all add: list_all_iff) (meson in_set_takeD in_set_dropD)+
  have split: "k \<le> length digits \<Longrightarrow> dec_value digits = dec_value ?hi * 10 ^ k + dec_value ?lo"
    using dec_value_append [of ?hi ?lo] by simp
  have lo_less: "k \<le> length digits \<Longrightarrow> dec_value ?lo < 10 ^ k"
    using dec_value_less [OF lo] by simp
  show ?thesis
  proof (cases "k \<le> length digits")
    case k: True
    have "dec_value digits = m * 10 ^ k \<longleftrightarrow> dec_value ?lo = 0 \<and> dec_value ?hi = m"
    proof
      assume eq: "dec_value digits = m * 10 ^ k"
      have "dec_value ?lo = dec_value digits mod 10 ^ k"
        using split [OF k] lo_less [OF k] by simp
      with eq have "dec_value ?lo = 0" by simp
      with eq split [OF k] show "dec_value ?lo = 0 \<and> dec_value ?hi = m" by simp
    qed (use split [OF k] in simp)
    then show ?thesis
      using True k append_digits_eq [OF l(1) hi, of 0] dec_value_eq_0_iff [OF lo]
      by (auto simp: magnitude_of_def scaled_integer_def k_def [symmetric] Let_def)
  next
    case False
    have "(10 :: nat) ^ length digits \<le> 10 ^ k" using False by (intro power_increasing) simp_all
    with dec_value_less [OF ds(1)] have "dec_value digits < 10 ^ k" by linarith
    then have "dec_value digits \<noteq> m * 10 ^ k" using ds(2) by (cases m) auto
    with True False show ?thesis
      by (simp add: magnitude_of_def scaled_integer_def k_def [symmetric] Let_def)
  qed
next
  case False
  define k where "k = nat x"
  let ?d = "dec_value digits"
  have "?d \<le> ?d * 10 ^ k" by simp
  then have "?d * 10 ^ k \<le> limit \<Longrightarrow> ?d \<le> limit" by linarith
  moreover have "19 < k \<Longrightarrow> limit < ?d * 10 ^ k"
  proof -
    assume "19 < k"
    then have "(10 :: nat) ^ 20 \<le> 10 ^ k" by (intro power_increasing) simp_all
    also have "\<dots> \<le> ?d * 10 ^ k" using ds(2) by simp
    finally show "limit < ?d * 10 ^ k" using l(2) by simp
  qed
  moreover have "list_all is_digit (replicate k (CHR ''0''))"
    by (simp add: list_all_iff is_digit_def)
  ultimately show ?thesis
    using False append_digits_eq [OF l(1) ds(1), of 0] append_digits_eq [OF l(1), of "replicate k (CHR ''0'')" ?d]
    by (auto simp: magnitude_of_def scaled_integer_def k_def [symmetric] Let_def dec_value_zeros
        split: if_splits)
qed


text \<open>A scaled integer below \<open>10 ^ 20\<close> has an exponent in a small range, so saturating is harmless.\<close>

lemma scaled_integer_exponent:
  assumes "scaled_integer d x m" "m < 10 ^ 20" "d \<noteq> 0" "d < 10 ^ L"
  shows "- int L < x \<and> x < 20"
proof (rule ccontr)
  assume "\<not> ?thesis"
  then consider "20 \<le> x" | "x < 20" "x \<le> - int L" by linarith
  then show False
  proof cases
    case 1
    then have "(10 :: nat) ^ 20 \<le> 10 ^ nat x" by (intro power_increasing) simp_all
    also have "\<dots> \<le> d * 10 ^ nat x" using assms(3) by simp
    finally show False using 1 assms(1,2) by (simp add: scaled_integer_def)
  next
    case 2
    then have "L \<le> nat (- x)" by linarith
    then have p: "(10 :: nat) ^ L \<le> 10 ^ nat (- x)" by (intro power_increasing) simp_all
    show False
    proof (cases "x = 0")
      case True
      with 2 assms(3,4) show False by simp
    next
      case False
      with 2 have "d = m * 10 ^ nat (- x)" using assms(1) by (simp add: scaled_integer_def)
      with assms(3) have "10 ^ nat (- x) \<le> d" by (cases m) simp_all
      with p assms(4) show False by linarith
    qed
  qed
qed

lemma scaled_integer_clamp:
  assumes "d \<noteq> 0" "d < 10 ^ L" "m < 10 ^ 20" "lf \<le> L" "L + 20 \<le> M"
  shows "scaled_integer d (max (- int M) (min (int M) e) - int lf) m \<longleftrightarrow> scaled_integer d (e - int lf) m"
proof (cases "- int M \<le> e \<and> e \<le> int M")
  case False
  then have out: "y = max (- int M) (min (int M) e) \<or> y = e \<Longrightarrow> \<not> (- int L < y - int lf \<and> y - int lf < 20)" for y
    using assms(4,5) by (auto simp: max_def min_def)
  show ?thesis
    using scaled_integer_exponent [OF _ assms(3,1,2)] out by blast
qed simp

section \<open>\<open>parseJSONInteger\<close> is exact\<close>

definition apply_sign :: "bool \<Rightarrow> nat \<Rightarrow> int" where
  "apply_sign negative m = (if negative then - int m else int m)"

definition int64_limit :: "bool \<Rightarrow> nat" where
  "int64_limit negative = (2 ^ 63 - 1) + (if negative then 1 else 0)"

lemma parseJSONInteger_parts:
  assumes p: "jsonNumberPattern (TrimSpace raw)"
    and st: "strip_minus (TrimSpace raw) = (neg, number_text ds fr r)"
    and dg: "list_all is_digit ds" "list_all is_digit fr" and ex: "exponentSuffix r"
  shows "parseJSONInteger raw =
    (let digits = dropWhile (\<lambda>c. c = CHR ''0'') (ds @ fr);
         M = length (number_text ds fr r) + 20 in
     if digits = [] then Some 0
     else map_option (apply_sign neg) (magnitude_of (int64_limit neg) digits
            (max (- int M) (min (int M) (exponent_value (tl r))) - int (length fr))))"
proof -
  let ?M = "length (number_text ds fr r) + 20"
  have e: "(if tl r \<noteq> [] then parseSaturatedDecimalExponent (tl r) ?M else 0) =
      max (- int ?M) (min (int ?M) (exponent_value (tl r)))"
    using parseSaturated_number [OF ex, of ?M] ex
    by (cases "r = []") (auto simp: exponent_value_def elim!: exponentSuffix_cases)
  show ?thesis
    unfolding parseJSONInteger_def Let_def magnitude_of_def
    by (simp only: p st split_exponent_number [OF dg ex] fractional_digits_number [OF dg] e prod.case
        not_True_eq_False if_False int64_limit_def [symmetric] apply_sign_def [symmetric])
      (simp split: option.splits)
qed

lemma json_value_parts:
  assumes "strip_minus s = (neg, number_text ds fr r)"
    "takeWhile is_digit (number_text ds fr r) = ds"
    "split_fraction (dropWhile is_digit (number_text ds fr r)) = Some (fr, r)"
  shows "json_value s =
    (if neg then - 1 else 1) * (of_nat (dec_value (ds @ fr)) * power_int 10 (exponent_value (tl r) - int (length fr)))"
  using assms unfolding json_value_def scaled_value [symmetric] by simp

lemma signed_scaled_iff:
  "(if neg then - 1 else 1) * (of_nat d * power_int (10 :: rat) x) = of_int v \<longleftrightarrow>
     (\<exists>m. scaled_integer d x m \<and> v = apply_sign neg m)"
  (is "?q = of_int v \<longleftrightarrow> ?R")
proof
  assume ?R
  then obtain m where "scaled_integer d x m" and v: "v = apply_sign neg m" by blast
  then have "of_nat d * power_int (10 :: rat) x = of_nat m"
    by (simp add: scaled_eq_nat_iff scaled_integer_def)
  with v show "?q = of_int v" by (simp add: apply_sign_def)
next
  assume q: "?q = of_int v"
  let ?m = "nat (if neg then - v else v)"
  have a: "of_nat d * power_int (10 :: rat) x = of_int (if neg then - v else v)"
    using q by (cases neg) (auto simp: minus_equation_iff)
  moreover have "0 \<le> of_nat d * power_int (10 :: rat) x" by simp
  ultimately have "0 \<le> (if neg then - v else v)" by (simp only: of_int_0_le_iff)
  then have "of_nat d * power_int (10 :: rat) x = of_nat ?m" and "v = apply_sign neg ?m"
    using a by (simp_all add: apply_sign_def split: if_splits)
  then show ?R by (auto simp: scaled_eq_nat_iff scaled_integer_def)
qed

lemma apply_sign_range:
  "m \<le> int64_limit neg \<Longrightarrow> - (2 ^ 63) \<le> apply_sign neg m \<and> apply_sign neg m < 2 ^ 63"
  by (auto simp: apply_sign_def int64_limit_def)

lemma apply_sign_limit:
  "- (2 ^ 63) \<le> apply_sign neg m \<Longrightarrow> apply_sign neg m < 2 ^ 63 \<Longrightarrow> m \<le> int64_limit neg"
  by (auto simp: apply_sign_def int64_limit_def split: if_splits)

lemma int64_limit_bounds: "9 \<le> int64_limit neg" "int64_limit neg < 10 ^ 20"
  by (simp_all add: int64_limit_def)

lemma parseJSONInteger_exact:
  "parseJSONInteger raw = Some v \<longleftrightarrow>
     jsonNumberPattern (TrimSpace raw) \<and> json_value (TrimSpace raw) = of_int v \<and>
     - (2 ^ 63) \<le> v \<and> v < 2 ^ 63"
proof (cases "jsonNumberPattern (TrimSpace raw)")
  case True
  then obtain neg ds fr r where st: "strip_minus (TrimSpace raw) = (neg, number_text ds fr r)"
    and id: "integer_digits ds" and fr: "list_all is_digit fr" and ex: "exponentSuffix r"
    and tw: "takeWhile is_digit (number_text ds fr r) = ds"
    and sf: "split_fraction (dropWhile is_digit (number_text ds fr r)) = Some (fr, r)"
    by (rule jsonNumberPattern_parts)
  let ?digits = "dropWhile (\<lambda>c. c = CHR ''0'') (ds @ fr)" and ?D = "dec_value (ds @ fr)"
  let ?M = "length (number_text ds fr r) + 20"
  let ?x = "exponent_value (tl r) - int (length fr)"
  have ds: "list_all is_digit ds" using id by (simp add: integer_digits_def)
  have dg: "list_all is_digit (ds @ fr)" using ds fr by simp
  have dd: "list_all is_digit ?digits" using dg by (auto simp: list_all_iff dest: set_dropWhileD)
  have D: "dec_value ?digits = ?D" by (rule dec_value_dropWhile_zero)
  have zero: "?digits = [] \<longleftrightarrow> ?D = 0"
    using dec_value_eq_0_iff [OF dg] by (simp only: dropWhile_eq_Nil_conv list_all_iff)
  have val: "json_value (TrimSpace raw) = of_int v \<longleftrightarrow> (\<exists>m. scaled_integer ?D ?x m \<and> v = apply_sign neg m)"
    unfolding json_value_parts [OF st tw sf] by (rule signed_scaled_iff)
  note parts = parseJSONInteger_parts [OF True st ds fr ex, unfolded Let_def]
  show ?thesis
  proof (cases "?D = 0")
    case z: True
    then have "scaled_integer ?D ?x m \<longleftrightarrow> m = 0" for m by (auto simp: scaled_integer_def)
    then have "(\<exists>m. scaled_integer ?D ?x m \<and> v = apply_sign neg m) \<longleftrightarrow> v = 0"
      by (auto simp: apply_sign_def)
    moreover have "parseJSONInteger raw = Some v \<longleftrightarrow> v = 0" using z zero unfolding parts by auto
    ultimately show ?thesis using True val by (simp only:) auto
  next
    case nz: False
    have L: "length fr \<le> length (ds @ fr)" "length (ds @ fr) + 20 \<le> ?M"
      by (simp_all add: number_text_def)
    have D0: "dec_value ?digits \<noteq> 0" using D nz by (simp only: not_False_eq_True)
    have "magnitude_of (int64_limit neg) ?digits (max (- int ?M) (min (int ?M) (exponent_value (tl r))) - int (length fr))
        = Some m \<longleftrightarrow> scaled_integer ?D ?x m \<and> m \<le> int64_limit neg" for m
    proof -
      have "m \<le> int64_limit neg \<Longrightarrow> m < 10 ^ 20" using int64_limit_bounds(2) [of neg] by linarith
      then show ?thesis
        using magnitude_of_iff [OF int64_limit_bounds dd D0, of neg _ m] 
          scaled_integer_clamp [OF nz dec_value_less [OF dg] _ L, of m "exponent_value (tl r)"]
        unfolding D by blast
    qed
    then have "parseJSONInteger raw = Some v \<longleftrightarrow>
        (\<exists>m. scaled_integer ?D ?x m \<and> m \<le> int64_limit neg \<and> v = apply_sign neg m)"
      unfolding parts using zero nz by (simp only: if_False map_option_eq_Some) blast
    then show ?thesis
      using True val apply_sign_range apply_sign_limit by blast
  qed
qed (simp add: parseJSONInteger_def)

section \<open>Properties\<close>

text \<open>
  C35: \<open>parseJSONInteger\<close> returns \<open>v\<close> exactly when the trimmed text is a JSON number whose exact rational
  value is the integer \<open>v\<close> and \<open>v\<close> fits in 64 bits; no rounding, wrap-around or
  saturation is ever visible.
\<close>

theorem json_integers_are_exact:
  "parseJSONInteger raw = Some v \<longleftrightarrow>
     jsonNumberPattern (TrimSpace raw) \<and> json_value (TrimSpace raw) = of_int v \<and>
     - (2 ^ 63) \<le> v \<and> v < 2 ^ 63"
  by (rule parseJSONInteger_exact)

end
