(* ===== verification/Query_Validate.thy ===== *)
theory Query_Validate
  imports Query_Types
begin

text \<open>
  The validators of \<^verbatim>\<open>internal/queryspec/types.go\<close>: \<open>validateSelection\<close>, \<open>validateFilter\<close>,
  \<open>validateGroupedShape\<close>, \<open>Validate\<close>, \<open>Revalidate\<close> and \<open>ValidateSimpleSelect\<close>, with the clones the
  immutable values hand out. \<open>wf_filter\<close> with the three measures \<open>filter_predicates\<close>, \<open>filter_depth\<close>
  and \<open>filter_parameters\<close> is the abstract account of a filter that \<open>validateFilter_iff\<close> shows the
  state-passing traversal to decide and to count.
\<close>

section \<open>Selections\<close>

definition validateSelection :: "string \<Rightarrow> Selection \<Rightarrow> ValidationError option" where
  "validateSelection path s = first_error [
     validateRepresentation path (sel_Representation s),
     fail_if (sel_Kind s \<noteq> ''field'' \<and> sel_Representation s \<noteq> [])
       (validationError path RepresentationRequiresField),
     (if sel_Kind s = ''field'' then first_error [
        fail_if (sel_Function s \<noteq> []) (validationError (sub_path path ''function'') FunctionOnlyForAggregates),
        validateIdentifier (sub_path path ''field'') (sel_Field s)]
      else if sel_Kind s = ''aggregate'' then
        (if sel_Function s = ''count'' then
           (if sel_Field s \<noteq> [] then validateIdentifier (sub_path path ''field'') (sel_Field s) else None)
         else if sel_Function s \<in> {''min'', ''max'', ''sum'', ''avg''}
         then validateIdentifier (sub_path path ''field'') (sel_Field s)
         else Some (validationError (sub_path path ''function'') UnsupportedAggregate))
      else Some (validationError (sub_path path ''kind'') KindMustBeFieldOrAggregate)),
     (if sel_Alias s \<noteq> [] then validateIdentifier (sub_path path ''alias'') (sel_Alias s) else None)]"

section \<open>Filters\<close>

record filterValidationLimits =
  maxPredicates :: int
  maxDepth :: int
  maxParameters :: int

text \<open>How many values an operator takes, \<open>-1\<close> for one or more.\<close>

definition expectedValues :: "string \<Rightarrow> int option" where
  "expectedValues op =
     (if op \<in> {''eq'', ''ne'', ''lt'', ''lte'', ''gt'', ''gte'', ''like''} then Some 1
      else if op = ''in'' \<or> op = ''not_in'' then Some (- 1)
      else if op = ''is_null'' \<or> op = ''is_not_null'' then Some 0 else None)"

definition validateValue :: "string \<Rightarrow> Representation \<Rightarrow> nat \<Rightarrow> TypedValue \<Rightarrow> ValidationError option" where
  "validateValue path rep i v = first_error [
     fail_if (rep = RepresentationSourceText \<and> tv_Type v \<noteq> ''string'')
       (validationError (sub_path path ''values'') SourceTextRequiresStrings),
     map_option (\<lambda>e. validationError (index_path (sub_path path ''values'') i) (InvalidBindValue e))
       (error_of (BindValue v))]"

definition validatePredicate ::
  "string \<Rightarrow> Filter \<Rightarrow> filterValidationLimits \<Rightarrow> Stats \<Rightarrow> ValidationError + Stats" where
  "validatePredicate path f lim stats =
     check (first_error [
       fail_if (f_Expressions f \<noteq> []) (validationError (sub_path path ''expressions'') ExpressionsOnlyForGroups),
       fail_if (length (f_values f) > ProtocolMaxFilterItems)
         (validationError (sub_path path ''values'') ExceedsProtocolArray),
       validateIdentifier (sub_path path ''field'') (f_Field f)])
     (case expectedValues (f_Operator f) of
        None \<Rightarrow> Inl (validationError (sub_path path ''operator'') UnsupportedOperator)
      | Some expected \<Rightarrow>
          let n = int (length (f_values f)) in
          check (first_error [
            fail_if (f_Values f = None) (validationError (sub_path path ''values'') IsRequired),
            fail_if (expected \<ge> 0 \<and> n \<noteq> expected)
              (validationError (sub_path path ''values'') (MustContainValues expected)),
            fail_if (expected = - 1 \<and> n = 0) (validationError (sub_path path ''values'') MustContainOneValue),
            fail_if (Predicates stats \<ge> maxPredicates lim) (validationError path ExceedsEffectivePredicates),
            fail_if (Parameters stats > maxParameters lim - n)
              (validationError (sub_path path ''values'') ExceedsEffectiveParameters),
            range_error (validateValue path (f_Representation f)) (f_values f)])
          (Inr (stats\<lparr>Predicates := Predicates stats + 1, Parameters := Parameters stats + n\<rparr>)))"

fun validateFilter ::
  "string \<Rightarrow> Filter \<Rightarrow> int \<Rightarrow> filterValidationLimits \<Rightarrow> Stats \<Rightarrow> ValidationError + Stats"
and validateExpressions ::
  "string \<Rightarrow> nat \<Rightarrow> Filter list \<Rightarrow> int \<Rightarrow> filterValidationLimits \<Rightarrow> Stats \<Rightarrow> ValidationError + Stats"
where
  "validateFilter path (Filter rep kind field op vals exprs) depth lim stats =
     check (first_error [
       validateRepresentation path rep,
       fail_if (kind \<noteq> ''predicate'' \<and> rep \<noteq> []) (validationError path RepresentationRequiresPredicate),
       fail_if (depth > maxDepth lim) (validationError path ExceedsEffectiveDepth)])
     (let stats1 = stats\<lparr>ExpressionDepth := max (ExpressionDepth stats) depth\<rparr> in
      if kind = ''predicate'' then
        validatePredicate path (Filter rep kind field op vals exprs) lim stats1
      else if kind = ''group'' then
        check (first_error [
          fail_if (field \<noteq> [] \<or> vals \<noteq> None) (validationError path GroupWithoutFieldOrValues),
          fail_if (length exprs > ProtocolMaxFilterItems)
            (validationError (sub_path path ''expressions'') ExceedsProtocolArray),
          fail_if (op \<noteq> ''and'' \<and> op \<noteq> ''or'') (validationError (sub_path path ''operator'') OperatorMustBeAndOr),
          fail_if (length exprs < 2) (validationError (sub_path path ''expressions'') AtLeastTwoExpressions)])
        (validateExpressions path 0 exprs (depth + 1) lim stats1)
      else Inl (validationError (sub_path path ''kind'') KindMustBePredicateOrGroup))"
| "validateExpressions path i [] depth lim stats = Inr stats"
| "validateExpressions path i (e # es) depth lim stats =
     bind_result (validateFilter (index_path (sub_path path ''expressions'') i) e depth lim stats)
       (validateExpressions path (Suc i) es depth lim)"

subsection \<open>What a valid filter is\<close>

definition valid_value :: "Representation \<Rightarrow> TypedValue \<Rightarrow> bool" where
  "valid_value rep v \<longleftrightarrow>
     (rep = RepresentationSourceText \<longrightarrow> tv_Type v = ''string'') \<and> (\<exists>b. BindValue v = Inr b)"

lemma valid_value_code [code]:
  "valid_value rep v \<longleftrightarrow>
     (rep = RepresentationSourceText \<longrightarrow> tv_Type v = ''string'') \<and>
     (case BindValue v of Inl e \<Rightarrow> False | Inr b \<Rightarrow> True)"
  by (simp add: valid_value_def split: sum.splits)

definition valid_arity :: "string \<Rightarrow> nat \<Rightarrow> bool" where
  "valid_arity op n \<longleftrightarrow>
     (case expectedValues op of
        None \<Rightarrow> False
      | Some e \<Rightarrow> (e \<ge> 0 \<longrightarrow> int n = e) \<and> (e = - 1 \<longrightarrow> n \<noteq> 0))"

fun wf_filter :: "Filter \<Rightarrow> bool" where
  "wf_filter (Filter rep kind field op vals exprs) \<longleftrightarrow>
     Representation_Valid rep \<and>
     (if kind = ''predicate'' then
        exprs = [] \<and> IsIdentifier field \<and>
        (case vals of
           None \<Rightarrow> False
         | Some vs \<Rightarrow> length vs \<le> ProtocolMaxFilterItems \<and> valid_arity op (length vs) \<and>
                      (\<forall>v \<in> set vs. valid_value rep v))
      else
        kind = ''group'' \<and> rep = [] \<and> field = [] \<and> vals = None \<and> (op = ''and'' \<or> op = ''or'') \<and>
        2 \<le> length exprs \<and> length exprs \<le> ProtocolMaxFilterItems \<and> (\<forall>e \<in> set exprs. wf_filter e))"

fun filter_predicates :: "Filter \<Rightarrow> nat" where
  "filter_predicates (Filter rep kind field op vals exprs) =
     (if kind = ''predicate'' then 1 else sum_list (map filter_predicates exprs))"

fun filter_parameters :: "Filter \<Rightarrow> nat" where
  "filter_parameters (Filter rep kind field op vals exprs) =
     (if kind = ''predicate'' then (case vals of None \<Rightarrow> 0 | Some vs \<Rightarrow> length vs)
      else sum_list (map filter_parameters exprs))"

fun filter_depth :: "Filter \<Rightarrow> nat" where
  "filter_depth (Filter rep kind field op vals exprs) =
     (if kind = ''predicate'' then 1 else Suc (foldr max (map filter_depth exprs) 0))"

lemma validateValue_None [simp, result_iff]:
  "validateValue path rep i v = None \<longleftrightarrow> valid_value rep v"
  by (auto simp: validateValue_def valid_value_def)

lemma range_values_None [simp, result_iff]:
  "range_error (validateValue path rep) vs = None \<longleftrightarrow> (\<forall>v \<in> set vs. valid_value rep v)"
  by (rule range_error_None_set) simp

lemma validatePredicate_Inr:
  "validatePredicate path (Filter rep kind field op vals exprs) lim st = Inr st' \<longleftrightarrow>
     exprs = [] \<and> IsIdentifier field \<and>
     (\<exists>vs. vals = Some vs \<and> length vs \<le> ProtocolMaxFilterItems \<and> valid_arity op (length vs) \<and>
        (\<forall>v \<in> set vs. valid_value rep v) \<and>
        Predicates st + 1 \<le> maxPredicates lim \<and> Parameters st + int (length vs) \<le> maxParameters lim \<and>
        st' = st\<lparr>Predicates := Predicates st + 1, Parameters := Parameters st + int (length vs)\<rparr>)"
  by (cases vals) (auto simp: validatePredicate_def f_values_def valid_arity_def Let_def
      split: option.splits)

lemma wf_filter_predicates: "wf_filter f \<Longrightarrow> 1 \<le> filter_predicates f"
proof (induction f rule: wf_filter.induct)
  case (1 rep kind field op vals exprs)
  show ?case
  proof (cases "kind = ''predicate''")
    case False
    with "1.prems" obtain e es where es: "exprs = e # es" by (cases exprs) auto
    moreover from False es "1.prems" have "wf_filter e" by simp
    ultimately have "1 \<le> filter_predicates e" using False "1.IH" by simp
    with es have "1 \<le> sum_list (map filter_predicates exprs)" by simp
    with False show ?thesis by simp
  qed simp
qed

text \<open>The statistics a successful traversal from depth \<open>d\<close> returns.\<close>

definition add_stats :: "Stats \<Rightarrow> nat \<Rightarrow> int \<Rightarrow> nat \<Rightarrow> Stats" where
  "add_stats st p d n =
     st\<lparr>Predicates := Predicates st + int p, ExpressionDepth := max (ExpressionDepth st) d,
        Parameters := Parameters st + int n\<rparr>"

lemma add_stats_sel [simp]:
  "Predicates (add_stats st p d n) = Predicates st + int p"
  "Parameters (add_stats st p d n) = Parameters st + int n"
  "ExpressionDepth (add_stats st p d n) = max (ExpressionDepth st) d"
  by (simp_all add: add_stats_def)

abbreviation list_predicates :: "Filter list \<Rightarrow> nat" where
  "list_predicates fs \<equiv> sum_list (map filter_predicates fs)"

abbreviation list_parameters :: "Filter list \<Rightarrow> nat" where
  "list_parameters fs \<equiv> sum_list (map filter_parameters fs)"

abbreviation list_depth :: "Filter list \<Rightarrow> nat" where
  "list_depth fs \<equiv> foldr max (map filter_depth fs) 0"

definition within_filter_limits ::
  "filterValidationLimits \<Rightarrow> Stats \<Rightarrow> nat \<Rightarrow> int \<Rightarrow> nat \<Rightarrow> bool" where
  "within_filter_limits lim st p d n \<longleftrightarrow>
     d \<le> maxDepth lim \<and> Predicates st + int p \<le> maxPredicates lim \<and>
     Parameters st + int n \<le> maxParameters lim"

lemma filter_depth_pos: "1 \<le> filter_depth f"
  by (cases f) simp

lemma add_stats_add_stats:
  "add_stats (add_stats st p d n) p' d' n' = add_stats st (p + p') (max d d') (n + n')"
  by (simp add: add_stats_def max.assoc)

lemma within_filter_limits_Cons:
  "within_filter_limits lim st p d n \<and> within_filter_limits lim (add_stats st p d n) p' d' n' \<longleftrightarrow>
     within_filter_limits lim st (p + p') (max d d') (n + n')"
  by (auto simp: within_filter_limits_def)

theorem validateFilter_iff:
  "validateFilter path f d lim st = Inr st' \<longleftrightarrow>
     wf_filter f \<and>
     within_filter_limits lim st (filter_predicates f) (d + int (filter_depth f) - 1) (filter_parameters f) \<and>
     st' = add_stats st (filter_predicates f) (d + int (filter_depth f) - 1) (filter_parameters f)"
and validateExpressions_iff:
  "validateExpressions path i fs d lim st = Inr st' \<longleftrightarrow>
     (\<forall>f \<in> set fs. wf_filter f) \<and>
     (if fs = [] then st' = st
      else within_filter_limits lim st (list_predicates fs) (d + int (list_depth fs) - 1) (list_parameters fs)
           \<and> st' = add_stats st (list_predicates fs) (d + int (list_depth fs) - 1) (list_parameters fs))"
proof (induction path f d lim st and path i fs d lim st arbitrary: st' and st'
    rule: validateFilter_validateExpressions.induct)
  case (1 path rep kind field op vals exprs d lim st)
  let ?f = "Filter rep kind field op vals exprs"
  let ?st = "st\<lparr>ExpressionDepth := max (ExpressionDepth st) d\<rparr>"
  consider "kind = ''predicate''" | "kind = ''group''" | "kind \<noteq> ''predicate''" "kind \<noteq> ''group''"
    by blast
  then show ?case
  proof cases
    case 1
    then show ?thesis
      by (cases vals) (auto simp: validatePredicate_Inr within_filter_limits_def add_stats_def)
  next
    case 2
    have "exprs \<noteq> [] \<Longrightarrow> d \<le> d + int (list_depth exprs)" by simp
    with 2 show ?thesis
      using "1.IH"(1)
      by (auto simp: within_filter_limits_def add_stats_def algebra_simps split: if_splits)
  next
    case 3
    then show ?thesis by simp
  qed
next
  case (2 path i d lim st)
  show ?case by auto
next
  case (3 path i e es d lim st)
  show ?case
  proof (cases "es = []")
    case True
    then show ?thesis using "3.IH"(1) by auto
  next
    case False
    have depth: "d + int (max a b) - 1 = max (d + int a - 1) (d + int b - 1)" for a b
      by (simp add: max_def)
    from False show ?thesis
      unfolding validateExpressions.simps bind_result_Inr "3.IH"
      by (auto simp: depth add_stats_add_stats within_filter_limits_Cons [symmetric])
  qed
qed

section \<open>Properties\<close>

text \<open>
  The recursive traversal of a filter that threads its statistics succeeds exactly on the
  well-formed filters whose predicates, nesting and bind values stay within the limits, and the
  statistics it returns are the exact counts added to the incoming ones.
\<close>

theorem filter_validation_is_exact:
  "validateFilter path f d lim st = Inr st' \<longleftrightarrow>
     wf_filter f \<and>
     d + int (filter_depth f) - 1 \<le> maxDepth lim \<and>
     Predicates st + int (filter_predicates f) \<le> maxPredicates lim \<and>
     Parameters st + int (filter_parameters f) \<le> maxParameters lim \<and>
     st' = \<lparr>Predicates = Predicates st + int (filter_predicates f),
            ExpressionDepth = max (ExpressionDepth st) (d + int (filter_depth f) - 1),
            Parameters = Parameters st + int (filter_parameters f)\<rparr>"
  unfolding validateFilter_iff within_filter_limits_def add_stats_def by (cases st) auto

end
