(* ===== verification/Revalidation.thy ===== *)
theory Revalidation
  imports Domain
begin

text \<open>
  The contract between the validators of \<^verbatim>\<open>internal/queryspec\<close> and their callers. A request is
  validated once, under the limits of the server, into an immutable value; the policy engine later
  computes stricter effective limits and re-validates the value without seeing the request again. The
  locale states the two laws this relies on and derives what the callers use: the two-stage path
  decides and returns exactly what validating the request under the strict limits would have, stages
  can be merged or repeated, and only the meet of all limits matters.
\<close>

locale revalidation =
  fixes validate :: "Limits \<Rightarrow> 's \<Rightarrow> 'e + 'v"
    and revalidate :: "Limits \<Rightarrow> 'v \<Rightarrow> 'e + 'v"
    and usable :: "Limits \<Rightarrow> bool"
  assumes revalidate_validate:
      "validate l s = Inr v \<Longrightarrow> limits_le k l \<Longrightarrow> usable k \<Longrightarrow>
         revalidate k v = Inr w \<longleftrightarrow> validate k s = Inr w"
    and validate_mono: "validate k s = Inr w \<Longrightarrow> limits_le k l \<Longrightarrow> \<exists>v. validate l s = Inr v"
begin

lemma revalidate_same:
  assumes "validate l s = Inr v" and "usable l"
  shows "revalidate l v = Inr v"
  using assms revalidate_validate limits_meet.refl by blast

lemma revalidate_again:
  assumes v: "validate l s = Inr v" and k: "limits_le k l" "usable k" and w: "revalidate k v = Inr w"
    and m: "limits_le m k" "usable m"
  shows "revalidate m w = Inr u \<longleftrightarrow> revalidate m v = Inr u"
proof -
  have "validate k s = Inr w" using revalidate_validate [OF v k] w by blast
  moreover have "limits_le m l" using m(1) k(1) by (rule limits_meet.trans)
  ultimately show ?thesis using revalidate_validate [OF _ m] revalidate_validate [OF v _ m(2)] by blast
qed

lemma two_stages:
  assumes "usable k" "limits_le k l"
  shows "(\<exists>v. validate l s = Inr v \<and> revalidate k v = Inr w) \<longleftrightarrow> validate k s = Inr w"
  using assms revalidate_validate validate_mono by meson

end

end
