(* ===== verification/Go_Sha256.thy ===== *)
theory Go_Sha256
  imports Go_Strings "HOL-Library.Word"
begin

text \<open>
  \<open>crypto/sha256\<close>, \<open>encoding/binary\<close> (big endian) and \<open>encoding/hex\<close>: the digests the sources compare
  and print. SHA-256 is written out over 32-bit words, so the digests of the model are the digests of
  the program; no proof depends on the function beyond its length.
\<close>

unbundle bit_operations_syntax

type_synonym w32 = "32 word"

definition rotr :: "nat \<Rightarrow> w32 \<Rightarrow> w32" where
  "rotr n x = drop_bit n x OR push_bit (32 - n) x"

text \<open>The round constants and the initial state, in decimal.\<close>

definition sha_k :: "w32 list" where
  "sha_k = [
    1116352408, 1899447441, 3049323471, 3921009573, 961987163, 1508970993, 2453635748, 2870763221,
    3624381080, 310598401, 607225278, 1426881987, 1925078388, 2162078206, 2614888103, 3248222580,
    3835390401, 4022224774, 264347078, 604807628, 770255983, 1249150122, 1555081692, 1996064986,
    2554220882, 2821834349, 2952996808, 3210313671, 3336571891, 3584528711, 113926993, 338241895,
    666307205, 773529912, 1294757372, 1396182291, 1695183700, 1986661051, 2177026350, 2456956037,
    2730485921, 2820302411, 3259730800, 3345764771, 3516065817, 3600352804, 4094571909, 275423344,
    430227734, 506948616, 659060556, 883997877, 958139571, 1322822218, 1537002063, 1747873779,
    1955562222, 2024104815, 2227730452, 2361852424, 2428436474, 2756734187, 3204031479, 3329325298]"

definition sha_init :: "w32 list" where
  "sha_init = [1779033703, 3144134277, 1013904242, 2773480762, 1359893119, 2600822924, 528734635,
    1541459225]"

text \<open>\<open>n\<close> bytes of a number, most significant first (\<open>binary.BigEndian.PutUint64\<close> for \<open>n = 8\<close>).\<close>

fun big_endian :: "nat \<Rightarrow> nat \<Rightarrow> string" where
  "big_endian 0 n = []"
| "big_endian (Suc k) n = big_endian k (n div 256) @ [char_of (n mod 256)]"

definition PutUint64 :: "nat \<Rightarrow> string" where
  "PutUint64 n = big_endian 8 n"

definition sha_pad :: "string \<Rightarrow> string" where
  "sha_pad m =
     m @ [char_of (128 :: nat)] @ replicate ((119 - length m mod 64) mod 64) (char_of (0 :: nat))
       @ PutUint64 (8 * length m)"

fun word_of_bytes :: "string \<Rightarrow> w32 list" where
  "word_of_bytes (a # b # c # d # s) =
     of_nat (((byte a * 256 + byte b) * 256 + byte c) * 256 + byte d) # word_of_bytes s"
| "word_of_bytes _ = []"

text \<open>The message schedule, kept newest first.\<close>

definition schedule_word :: "w32 list \<Rightarrow> w32" where
  "schedule_word r =
     (let x = r ! 14; y = r ! 1;
          s0 = rotr 7 x XOR rotr 18 x XOR drop_bit 3 x;
          s1 = rotr 17 y XOR rotr 19 y XOR drop_bit 10 y
      in r ! 15 + s0 + r ! 6 + s1)"

fun schedule :: "nat \<Rightarrow> w32 list \<Rightarrow> w32 list" where
  "schedule 0 r = r"
| "schedule (Suc n) r = schedule n (schedule_word r # r)"

definition sha_round :: "w32 list \<Rightarrow> w32 \<times> w32 \<Rightarrow> w32 list" where
  "sha_round st kw =
     (case st of
        [a, b, c, d, e, f, g, h] \<Rightarrow>
          let s1 = rotr 6 e XOR rotr 11 e XOR rotr 25 e;
              ch = (e AND f) XOR (NOT e AND g);
              t1 = h + s1 + ch + fst kw + snd kw;
              s0 = rotr 2 a XOR rotr 13 a XOR rotr 22 a;
              maj = (a AND b) XOR (a AND c) XOR (b AND c)
          in [t1 + (s0 + maj), a, b, c, d + t1, e, f, g]
      | _ \<Rightarrow> st)"

definition sha_block :: "w32 list \<Rightarrow> w32 list \<Rightarrow> w32 list" where
  "sha_block h blk =
     map2 (+) h (foldl sha_round h (zip sha_k (rev (schedule 48 (rev blk)))))"

fun sha_blocks :: "nat \<Rightarrow> w32 list \<Rightarrow> w32 list \<Rightarrow> w32 list" where
  "sha_blocks 0 h ws = h"
| "sha_blocks (Suc n) h ws = sha_blocks n (sha_block h (take 16 ws)) (drop 16 ws)"

definition sha256 :: "string \<Rightarrow> string" where
  "sha256 m =
     (let ws = word_of_bytes (sha_pad m)
      in concat (map (\<lambda>w. big_endian 4 (unat w)) (sha_blocks (length ws div 16) sha_init ws)))"

definition hex_lower :: "nat \<Rightarrow> char" where
  "hex_lower n = ''0123456789abcdef'' ! n"

text \<open>\<open>hex.EncodeToString\<close>\<close>

definition hex_encode :: "string \<Rightarrow> string" where
  "hex_encode s = concat (map (\<lambda>c. [hex_lower (byte c div 16), hex_lower (byte c mod 16)]) s)"

lemma length_big_endian [simp]: "length (big_endian k n) = k"
  by (induction k arbitrary: n) simp_all

lemma length_sha_round [simp]: "length (sha_round st kw) = length st"
  by (auto simp: sha_round_def Let_def split: list.splits)

lemma length_foldl_sha_round [simp]: "length (foldl sha_round st kws) = length st"
  by (induction kws arbitrary: st) simp_all

lemma length_sha_blocks [simp]: "length (sha_blocks n h ws) = length h"
  by (induction n arbitrary: h ws) (simp_all add: sha_block_def)

lemma length_sha256 [simp]: "length (sha256 m) = 32"
proof -
  have "length (concat (map (\<lambda>w :: w32. big_endian 4 (unat w)) hs)) = 4 * length hs" for hs
    by (induction hs) simp_all
  then show ?thesis by (simp add: sha256_def Let_def sha_init_def)
qed

end
