(* ===== verification/Query_Spec.thy ===== *)
theory Query_Spec
  imports Query_Validate Revalidation Go_Sha256
begin

text \<open>
  \<open>Validate\<close>, \<open>Revalidate\<close>, \<open>ValidateSimpleSelect\<close>, the defensive clones and the value-free shape of
  \<^verbatim>\<open>internal/queryspec/types.go\<close> and \<^verbatim>\<open>shape.go\<close>, and the source-text queries of
  \<^verbatim>\<open>representation.go\<close>.
\<close>

section \<open>Grouped queries\<close>

definition containsIdentifier :: "string list \<Rightarrow> string \<Rightarrow> bool" where
  "containsIdentifier identifiers value \<longleftrightarrow> list_ex (\<lambda>i. EqualFold i value) identifiers"

definition validateGroupedShape ::
  "Selection list \<Rightarrow> string list \<Rightarrow> Sort list \<Rightarrow> ValidationError option" where
  "validateGroupedShape projection groupBy orderBy =
     (let hasAggregate = list_ex (\<lambda>s. sel_Kind s = ''aggregate'') projection;
          fields = map sel_Field (filter (\<lambda>s. sel_Kind s \<noteq> ''aggregate'') projection) in
      first_error [
        fail_if (hasAggregate \<and> groupBy = [] \<and> fields \<noteq> [])
          (validationError ''query.projection'' FieldsRequireGroupBy),
        fail_if ((groupBy \<noteq> [] \<or> hasAggregate) \<and> list_ex (\<lambda>s. sel_Representation s \<noteq> []) projection)
          (validationError ''query.projection'' SourceTextUnsupportedGrouped),
        (if groupBy = [] \<and> \<not> hasAggregate then None
         else first_error [
           range_error (\<lambda>_ field. fail_if (\<not> list_ex (\<lambda>g. EqualFold field g) groupBy)
             (validationError ''query.projection'' (FieldMustBeGrouped field))) fields,
           range_error (\<lambda>i s. fail_if (\<not> containsIdentifier groupBy (sort_Field s))
             (validationError (sub_path (index_path ''query.order_by'' i) ''field'') OrderFieldMustBeGrouped))
             orderBy])])"

section \<open>Clones\<close>

definition cloneTypedValue :: "TypedValue \<Rightarrow> TypedValue" where
  "cloneTypedValue v = v\<lparr>tv_Value := (case tv_Value v of Some [] \<Rightarrow> None | r \<Rightarrow> r)\<rparr>"

definition cloneTypedValues :: "TypedValue list option \<Rightarrow> TypedValue list option" where
  "cloneTypedValues = map_option (map cloneTypedValue)"

fun cloneFilter :: "Filter \<Rightarrow> Filter" where
  "cloneFilter (Filter rep kind field op vals exprs) =
     Filter rep kind field op (cloneTypedValues vals) (map cloneFilter exprs)"

definition cloneNormalized :: "NormalizedSpec \<Rightarrow> NormalizedSpec" where
  "cloneNormalized spec = spec\<lparr>ns_Filter := map_option cloneFilter (ns_Filter spec)\<rparr>"

definition Validated_Spec :: "Validated \<Rightarrow> NormalizedSpec" where
  "Validated_Spec v = cloneNormalized (v_spec v)"

section \<open>\<open>Validate\<close>\<close>

definition validateOrderBy :: "Sort list \<Rightarrow> ValidationError option" where
  "validateOrderBy orderBy = range_error (\<lambda>i s.
     let path = index_path ''query.order_by'' i in first_error [
       validateRepresentation path (sort_Representation s),
       validateIdentifier (sub_path path ''field'') (sort_Field s),
       fail_if (sort_Direction s \<noteq> ''asc'' \<and> sort_Direction s \<noteq> ''desc'')
         (validationError (sub_path path ''direction'') DirectionMustBeAscDesc)]) orderBy"

definition validateSource :: "ResourceRef \<Rightarrow> ValidationError option" where
  "validateSource src = first_error [
     validateIdentifier ''query.source.schema'' (ref_Schema src),
     validateIdentifier ''query.source.name'' (ref_Name src)]"

definition validateProjection :: "Selection list \<Rightarrow> int \<Rightarrow> ValidationError option" where
  "validateProjection projection maxProjection = first_error [
     fail_if (projection = []) (validationError ''query.projection'' AtLeastOneSelection),
     fail_if (length projection > ProtocolMaxProjectionFields)
       (validationError ''query.projection'' ExceedsProtocolProjection),
     fail_if (int (length projection) > maxProjection)
       (validationError ''query.projection'' ExceedsEffectiveProjection),
     range_error (\<lambda>i. validateSelection (index_path ''query.projection'' i)) projection]"

definition initial_stats :: "int \<Rightarrow> Stats" where
  "initial_stats n = \<lparr>Predicates = 0, ExpressionDepth = 0, Parameters = n\<rparr>"

text \<open>The optional filter of a query, traversed from depth 1.\<close>

definition validateOptionalFilter ::
  "Filter option \<Rightarrow> filterValidationLimits \<Rightarrow> Stats \<Rightarrow> ValidationError + Stats" where
  "validateOptionalFilter f lim stats =
     (case f of None \<Rightarrow> Inr stats | Some f \<Rightarrow> validateFilter ''query.filter'' f 1 lim stats)"

definition normalizedLimit :: "int option \<Rightarrow> int \<Rightarrow> ValidationError + int" where
  "normalizedLimit limit maxRows =
     (let l = (case limit of None \<Rightarrow> defaultLimit | Some l \<Rightarrow> l) in
      check (first_error [
        fail_if (limit \<noteq> None \<and> l < 1) (validationError ''query.limit'' LimitAtLeastOne),
        fail_if (limit \<noteq> None \<and> l > ProtocolMaxRows) (validationError ''query.limit'' ExceedsProtocolRows)])
      (Inr (if l > maxRows then maxRows else l)))"

definition normalizedOffset :: "int option \<Rightarrow> int \<Rightarrow> ValidationError + int" where
  "normalizedOffset offset maxOffset =
     (let k = (case offset of None \<Rightarrow> 0 | Some k \<Rightarrow> k) in
      check (first_error [
        fail_if (offset \<noteq> None \<and> k < 0) (validationError ''query.offset'' OffsetNotNegative),
        fail_if (offset \<noteq> None \<and> k > ProtocolMaxOffset) (validationError ''query.offset'' ExceedsProtocolOffset),
        fail_if (k > maxOffset) (validationError ''query.offset'' ExceedsEffectiveOffset)])
      (Inr k))"

definition Validate ::
  "Spec \<Rightarrow> int \<Rightarrow> int \<Rightarrow> int \<Rightarrow> int \<Rightarrow> int \<Rightarrow> int \<Rightarrow> int \<Rightarrow> int \<Rightarrow> ValidationError + Validated" where
  "Validate spec maxProjection maxGroupBy maxOrderBy maxPreds maxDep maxParams maxRows maxOffset =
     check (first_error [
       validateSource (spec_Source spec),
       validateProjection (spec_Projection spec) maxProjection,
       fail_if (2 > maxParams) (validationError ''query'' ExceedsEffectiveParameters)])
     (bind_result
       (validateOptionalFilter (spec_Filter spec)
         \<lparr>maxPredicates = maxPreds, maxDepth = maxDep, maxParameters = maxParams\<rparr> (initial_stats 2))
       (\<lambda>stats.
         check (first_error [
           fail_if (length (spec_GroupBy spec) > ProtocolMaxGroupByFields)
             (validationError ''query.group_by'' ExceedsProtocolGroupBy),
           fail_if (int (length (spec_GroupBy spec)) > maxGroupBy)
             (validationError ''query.group_by'' ExceedsEffectiveGroupBy),
           range_error (\<lambda>i. validateIdentifier (index_path ''query.group_by'' i)) (spec_GroupBy spec),
           fail_if (length (spec_OrderBy spec) > ProtocolMaxOrderByFields)
             (validationError ''query.order_by'' ExceedsProtocolOrderBy),
           fail_if (int (length (spec_OrderBy spec)) > maxOrderBy)
             (validationError ''query.order_by'' ExceedsEffectiveOrderBy),
           validateOrderBy (spec_OrderBy spec),
           validateGroupedShape (spec_Projection spec) (spec_GroupBy spec) (spec_OrderBy spec)])
         (bind_result (normalizedLimit (spec_Limit spec) maxRows) (\<lambda>limit.
          bind_result (normalizedOffset (spec_Offset spec) maxOffset) (\<lambda>offset.
            Inr \<lparr>v_spec = \<lparr>ns_Source = spec_Source spec, ns_Projection = spec_Projection spec,
                   ns_Filter = map_option cloneFilter (spec_Filter spec), ns_GroupBy = spec_GroupBy spec,
                   ns_OrderBy = spec_OrderBy spec, ns_Limit = limit, ns_Offset = offset\<rparr>,
                 v_stats = stats, v_valid = True\<rparr>)))))"

definition Revalidate ::
  "Validated \<Rightarrow> int \<Rightarrow> int \<Rightarrow> int \<Rightarrow> int \<Rightarrow> int \<Rightarrow> int \<Rightarrow> int \<Rightarrow> int \<Rightarrow> ValidationError + Validated" where
  "Revalidate query maxProjection maxGroupBy maxOrderBy maxPreds maxDep maxParams maxRows maxOffset =
     (let spec = v_spec query; stats = v_stats query in
      check (first_error [
        fail_if (\<not> v_valid query) (validationError ''query'' NotValidated),
        fail_if (int (length (ns_Projection spec)) > maxProjection)
          (validationError ''query.projection'' ExceedsEffectiveProjection),
        fail_if (int (length (ns_GroupBy spec)) > maxGroupBy)
          (validationError ''query.group_by'' ExceedsEffectiveGroupBy),
        fail_if (int (length (ns_OrderBy spec)) > maxOrderBy)
          (validationError ''query.order_by'' ExceedsEffectiveOrderBy),
        fail_if (Predicates stats > maxPreds) (validationError ''query.filter'' ExceedsEffectivePredicates),
        fail_if (ExpressionDepth stats > maxDep) (validationError ''query.filter'' ExceedsEffectiveDepth),
        fail_if (Parameters stats > maxParams) (validationError ''query.filter'' ExceedsEffectiveParameters),
        fail_if (ns_Offset spec > maxOffset) (validationError ''query.offset'' ExceedsEffectiveOffset),
        fail_if (maxRows < 1) (validationError ''query.limit'' EffectiveRowsAtLeastOne)])
      (Inr \<lparr>v_spec = (if ns_Limit spec > maxRows then spec\<lparr>ns_Limit := maxRows\<rparr> else spec),
            v_stats = stats, v_valid = True\<rparr>))"

definition ValidateSimpleSelect :: "Validated \<Rightarrow> ValidationError option" where
  "ValidateSimpleSelect query = first_error [
     fail_if (\<not> v_valid query) (validationError ''query'' NotValidated),
     fail_if (ns_GroupBy (v_spec query) \<noteq> []) (validationError ''query.group_by'' GroupByUnsupportedForSelect),
     range_error (\<lambda>i s. fail_if (sel_Kind s \<noteq> ''field'')
       (validationError (index_path ''query.projection'' i) OnlyFieldProjections))
       (ns_Projection (v_spec query))]"

section \<open>Source text\<close>

fun FilterUsesSourceText :: "Filter \<Rightarrow> bool" where
  "FilterUsesSourceText (Filter rep kind field op vals exprs) \<longleftrightarrow>
     rep = RepresentationSourceText \<or> (\<exists>e \<in> set exprs. FilterUsesSourceText e)"

definition optional_filter_uses_source_text :: "Filter option \<Rightarrow> bool" where
  "optional_filter_uses_source_text f = (case f of None \<Rightarrow> False | Some f \<Rightarrow> FilterUsesSourceText f)"

definition UsesSourceText :: "NormalizedSpec \<Rightarrow> bool" where
  "UsesSourceText spec \<longleftrightarrow>
     list_ex (\<lambda>s. sel_Representation s = RepresentationSourceText) (ns_Projection spec) \<or>
     list_ex (\<lambda>s. sort_Representation s = RepresentationSourceText) (ns_OrderBy spec) \<or>
     optional_filter_uses_source_text (ns_Filter spec)"

section \<open>The shape of a query\<close>

datatype filterShape = FilterShape
  (fs_Representation: Representation)
  (fs_Kind: string)
  (fs_Field: string)
  (fs_Operator: string)
  (fs_ValueTypes: "string list")
  (fs_Expressions: "filterShape list")

fun shapeFilter :: "Filter \<Rightarrow> filterShape" where
  "shapeFilter (Filter rep kind field op vals exprs) =
     (if kind = ''predicate'' then
        FilterShape rep kind field op (map tv_Type (case vals of None \<Rightarrow> [] | Some vs \<Rightarrow> vs)) []
      else FilterShape rep kind field op [] (map shapeFilter exprs))"

record queryShape =
  qs_Source :: ResourceRef
  qs_Projection :: "Selection list"
  qs_Filter :: "filterShape option"
  qs_GroupBy :: "string list"
  qs_OrderBy :: "Sort list"

text \<open>The value that \<open>ShapeHash\<close> serialises.\<close>

definition queryShape_of :: "NormalizedSpec \<Rightarrow> queryShape" where
  "queryShape_of spec =
     \<lparr>qs_Source = ns_Source spec, qs_Projection = ns_Projection spec,
      qs_Filter = map_option shapeFilter (ns_Filter spec), qs_GroupBy = ns_GroupBy spec,
      qs_OrderBy = ns_OrderBy spec\<rparr>"

definition marshal_ResourceRef :: "ResourceRef \<Rightarrow> string" where
  "marshal_ResourceRef r = json_object
     [(''schema'', json_quote (ref_Schema r)), (''name'', json_quote (ref_Name r))]"

definition marshal_Selection :: "Selection \<Rightarrow> string" where
  "marshal_Selection s = json_object (
     string_omit_empty ''representation'' (sel_Representation s) @ [(''kind'', json_quote (sel_Kind s))] @
     string_omit_empty ''field'' (sel_Field s) @ string_omit_empty ''function'' (sel_Function s) @
     string_omit_empty ''alias'' (sel_Alias s))"

definition marshal_Sort :: "Sort \<Rightarrow> string" where
  "marshal_Sort s = json_object (
     string_omit_empty ''representation'' (sort_Representation s) @
     [(''field'', json_quote (sort_Field s)), (''direction'', json_quote (sort_Direction s))])"

fun marshal_filterShape :: "filterShape \<Rightarrow> string" where
  "marshal_filterShape (FilterShape rep kind field op types exprs) = json_object (
     string_omit_empty ''representation'' rep @ [(''kind'', json_quote kind)] @
     string_omit_empty ''field'' field @ [(''operator'', json_quote op)] @
     omit_empty (types = []) ''value_types'' (json_array (map json_quote types)) @
     omit_empty (exprs = []) ''expressions'' (json_array (map marshal_filterShape exprs)))"

definition marshal_optional_filterShape :: "filterShape option \<Rightarrow> (string \<times> string) list" where
  "marshal_optional_filterShape f =
     (case f of None \<Rightarrow> [] | Some f \<Rightarrow> [(''filter'', marshal_filterShape f)])"

text \<open>
  A nil projection is printed as \<open>null\<close>; the projection of a validated query is never empty.
\<close>

definition json_slice :: "string list \<Rightarrow> string" where
  "json_slice xs = (if xs = [] then ''null'' else json_array xs)"

definition ShapeHash :: "NormalizedSpec \<Rightarrow> string" where
  "ShapeHash spec =
     (let shape = queryShape_of spec in
      hex_encode (sha256 (json_object (
        [(''source'', marshal_ResourceRef (qs_Source shape)),
         (''projection'', json_slice (map marshal_Selection (qs_Projection shape)))] @
        marshal_optional_filterShape (qs_Filter shape) @
        omit_empty (qs_GroupBy shape = []) ''group_by'' (json_array (map json_quote (qs_GroupBy shape))) @
        omit_empty (qs_OrderBy shape = []) ''order_by'' (json_array (map marshal_Sort (qs_OrderBy shape)))))))"

section \<open>Clones of validated filters\<close>

lemma cloneTypedValue_valid: "valid_value rep v \<Longrightarrow> cloneTypedValue v = v"
  by (cases v) (auto simp: valid_value_def cloneTypedValue_def dest: BindValue_not_empty split: option.splits list.splits)

lemma cloneFilter_wf: "wf_filter f \<Longrightarrow> cloneFilter f = f"
proof (induction f rule: wf_filter.induct)
  case (1 rep kind field op vals exprs)
  show ?case
  proof (cases "kind = ''predicate''")
    case True
    with "1.prems" obtain vs where "vals = Some vs" "exprs = []" "\<forall>v \<in> set vs. valid_value rep v"
      by (cases vals) auto
    moreover from this have "map cloneTypedValue vs = vs"
      by (intro map_idI) (auto intro: cloneTypedValue_valid)
    ultimately show ?thesis by (simp add: cloneTypedValues_def)
  next
    case False
    with 1 have "map cloneFilter exprs = exprs" by (auto intro: map_idI)
    with False "1.prems" show ?thesis by (simp add: cloneTypedValues_def)
  qed
qed

section \<open>What \<open>Validate\<close> accepts\<close>

definition valid_selection :: "Selection \<Rightarrow> bool" where
  "valid_selection s \<longleftrightarrow>
     Representation_Valid (sel_Representation s) \<and>
     (sel_Kind s = ''field'' \<and> sel_Function s = [] \<and> IsIdentifier (sel_Field s) \<or>
      sel_Kind s = ''aggregate'' \<and> sel_Representation s = [] \<and>
        (sel_Function s = ''count'' \<and> (sel_Field s = [] \<or> IsIdentifier (sel_Field s)) \<or>
         sel_Function s \<in> {''min'', ''max'', ''sum'', ''avg''} \<and> IsIdentifier (sel_Field s))) \<and>
     (sel_Alias s = [] \<or> IsIdentifier (sel_Alias s))"

definition valid_sort :: "Sort \<Rightarrow> bool" where
  "valid_sort s \<longleftrightarrow> Representation_Valid (sort_Representation s) \<and> IsIdentifier (sort_Field s)
     \<and> (sort_Direction s = ''asc'' \<or> sort_Direction s = ''desc'')"

definition grouped_ok :: "Selection list \<Rightarrow> string list \<Rightarrow> Sort list \<Rightarrow> bool" where
  "grouped_ok projection groupBy orderBy \<longleftrightarrow>
     groupBy = [] \<and> (\<forall>s \<in> set projection. sel_Kind s \<noteq> ''aggregate'') \<or>
     (\<forall>s \<in> set projection. sel_Representation s = []) \<and>
     (\<forall>s \<in> set projection. sel_Kind s \<noteq> ''aggregate'' \<longrightarrow> (\<exists>g \<in> set groupBy. EqualFold (sel_Field s) g)) \<and>
     (\<forall>s \<in> set orderBy. \<exists>g \<in> set groupBy. EqualFold g (sort_Field s))"

lemma validateSelection_None [simp, result_iff]: "validateSelection p s = None \<longleftrightarrow> valid_selection s"
  by (auto simp: validateSelection_def valid_selection_def)

lemma validateOrderBy_None [simp, result_iff]: "validateOrderBy os = None \<longleftrightarrow> (\<forall>s \<in> set os. valid_sort s)"
  unfolding validateOrderBy_def by (rule range_error_None_set) (auto simp: valid_sort_def Let_def)

lemma validateGroupedShape_None [simp, result_iff]:
  "validateGroupedShape p g os = None \<longleftrightarrow> grouped_ok p g os"
proof -
  have "range_error (\<lambda>_ field. fail_if (\<not> list_ex (\<lambda>g. EqualFold field g) g) (e field)) xs = None \<longleftrightarrow>
      (\<forall>x \<in> set xs. list_ex (EqualFold x) g)" for xs and e :: "string \<Rightarrow> ValidationError"
    by (rule range_error_None_set) simp
  moreover have "range_error (\<lambda>i s. fail_if (\<not> containsIdentifier g (sort_Field s)) (e i)) xs = None \<longleftrightarrow>
      (\<forall>s \<in> set xs. containsIdentifier g (sort_Field s))" for xs :: "Sort list" and e :: "nat \<Rightarrow> ValidationError"
    by (rule range_error_None_set) simp
  ultimately show ?thesis
    by (auto simp: validateGroupedShape_def grouped_ok_def Let_def containsIdentifier_def
        list_ex_iff filter_empty_conv)
qed

definition wf_spec :: "Spec \<Rightarrow> bool" where
  "wf_spec spec \<longleftrightarrow>
     IsIdentifier (ref_Schema (spec_Source spec)) \<and> IsIdentifier (ref_Name (spec_Source spec)) \<and>
     spec_Projection spec \<noteq> [] \<and> length (spec_Projection spec) \<le> ProtocolMaxProjectionFields \<and>
     (\<forall>s \<in> set (spec_Projection spec). valid_selection s) \<and>
     (\<forall>f \<in> set_option (spec_Filter spec). wf_filter f) \<and>
     length (spec_GroupBy spec) \<le> ProtocolMaxGroupByFields \<and>
     (\<forall>g \<in> set (spec_GroupBy spec). IsIdentifier g) \<and>
     length (spec_OrderBy spec) \<le> ProtocolMaxOrderByFields \<and>
     (\<forall>s \<in> set (spec_OrderBy spec). valid_sort s) \<and>
     grouped_ok (spec_Projection spec) (spec_GroupBy spec) (spec_OrderBy spec) \<and>
     (\<forall>l \<in> set_option (spec_Limit spec). 1 \<le> l \<and> l \<le> ProtocolMaxRows) \<and>
     (\<forall>k \<in> set_option (spec_Offset spec). 0 \<le> k \<and> k \<le> ProtocolMaxOffset)"

text \<open>The statistics of an optional filter on top of \<open>n\<close> server-owned parameters.\<close>

definition filter_stats :: "Filter option \<Rightarrow> nat \<Rightarrow> Stats" where
  "filter_stats f n =
     (case f of
        None \<Rightarrow> initial_stats (int n)
      | Some f \<Rightarrow> \<lparr>Predicates = int (filter_predicates f), ExpressionDepth = int (filter_depth f),
                   Parameters = int (n + filter_parameters f)\<rparr>)"

lemma validateOptionalFilter_Inr:
  "validateOptionalFilter f lim (initial_stats (int n)) = Inr st \<longleftrightarrow>
     st = filter_stats f n \<and>
     (\<forall>g \<in> set_option f. wf_filter g \<and> Predicates st \<le> maxPredicates lim \<and>
        ExpressionDepth st \<le> maxDepth lim \<and> Parameters st \<le> maxParameters lim)"
  by (cases f) (auto simp: validateOptionalFilter_def filter_stats_def initial_stats_def
      validateFilter_iff within_filter_limits_def add_stats_def)

definition effective_limit :: "int option \<Rightarrow> int \<Rightarrow> int" where
  "effective_limit l maxRows = min (case l of None \<Rightarrow> defaultLimit | Some l \<Rightarrow> l) maxRows"

definition effective_offset :: "int option \<Rightarrow> int" where
  "effective_offset k = (case k of None \<Rightarrow> 0 | Some k \<Rightarrow> k)"

lemma normalizedLimit_Inr:
  "normalizedLimit l maxRows = Inr v \<longleftrightarrow>
     (\<forall>l \<in> set_option l. 1 \<le> l \<and> l \<le> ProtocolMaxRows) \<and> v = effective_limit l maxRows"
  by (cases l) (auto simp: normalizedLimit_def effective_limit_def Let_def)

lemma normalizedOffset_Inr:
  "normalizedOffset k maxOffset = Inr v \<longleftrightarrow>
     (\<forall>k \<in> set_option k. 0 \<le> k \<and> k \<le> ProtocolMaxOffset) \<and> v = effective_offset k \<and> v \<le> maxOffset"
  by (cases k) (auto simp: normalizedOffset_def effective_offset_def Let_def)

text \<open>The normalised query, with the row limit clipped to \<open>maxRows\<close>.\<close>

definition normalized :: "Spec \<Rightarrow> int \<Rightarrow> Validated" where
  "normalized spec maxRows =
     \<lparr>v_spec = \<lparr>ns_Source = spec_Source spec, ns_Projection = spec_Projection spec,
        ns_Filter = spec_Filter spec, ns_GroupBy = spec_GroupBy spec, ns_OrderBy = spec_OrderBy spec,
        ns_Limit = effective_limit (spec_Limit spec) maxRows,
        ns_Offset = effective_offset (spec_Offset spec)\<rparr>,
      v_stats = filter_stats (spec_Filter spec) 2, v_valid = True\<rparr>"

lemma range_selections_None [simp, result_iff]:
  "range_error (\<lambda>i. validateSelection (p i)) ss = None \<longleftrightarrow> (\<forall>s \<in> set ss. valid_selection s)"
  by (rule range_error_None_set) simp

lemma range_identifiers_None [simp, result_iff]:
  "range_error (\<lambda>i. validateIdentifier (p i)) ss = None \<longleftrightarrow> (\<forall>s \<in> set ss. IsIdentifier s)"
  by (rule range_error_None_set) simp

lemma option_map_clone_wf: "\<forall>f \<in> set_option fo. wf_filter f \<Longrightarrow> map_option cloneFilter fo = fo"
  by (cases fo) (simp_all add: cloneFilter_wf)

theorem Validate_iff:
  "Validate spec maxProjection maxGroupBy maxOrderBy maxPreds maxDep maxParams maxRows maxOffset = Inr v \<longleftrightarrow>
     wf_spec spec \<and>
     int (length (spec_Projection spec)) \<le> maxProjection \<and>
     int (length (spec_GroupBy spec)) \<le> maxGroupBy \<and>
     int (length (spec_OrderBy spec)) \<le> maxOrderBy \<and>
     Parameters (filter_stats (spec_Filter spec) 2) \<le> maxParams \<and>
     (spec_Filter spec \<noteq> None \<longrightarrow>
        Predicates (filter_stats (spec_Filter spec) 2) \<le> maxPreds \<and>
        ExpressionDepth (filter_stats (spec_Filter spec) 2) \<le> maxDep) \<and>
     effective_offset (spec_Offset spec) \<le> maxOffset \<and>
     v = normalized spec maxRows"
proof -
  have "2 \<le> Parameters (filter_stats f 2)" for f
    by (cases f) (simp_all add: filter_stats_def initial_stats_def)
  then show ?thesis
    using validateOptionalFilter_Inr [of "spec_Filter spec" _ 2]
    by (cases "spec_Filter spec") (auto simp: Validate_def wf_spec_def validateSource_def validateProjection_def
        normalizedLimit_Inr normalizedOffset_Inr normalized_def option_map_clone_wf cloneFilter_wf
        filter_stats_def initial_stats_def)
qed

text \<open>Both validators under the limits of a \<^typ>\<open>Limits\<close> record, as their callers pass them.\<close>

definition validate_under :: "Limits \<Rightarrow> Spec \<Rightarrow> ValidationError + Validated" where
  "validate_under l spec =
     Validate spec (MaxProjectionFields l) (MaxGroupByFields l) (MaxOrderByFields l) (MaxPredicates l)
       (MaxExpressionDepth l) (MaxParameters l) (MaxRows l) (MaxOffset l)"

definition revalidate_under :: "Limits \<Rightarrow> Validated \<Rightarrow> ValidationError + Validated" where
  "revalidate_under l query =
     Revalidate query (MaxProjectionFields l) (MaxGroupByFields l) (MaxOrderByFields l) (MaxPredicates l)
       (MaxExpressionDepth l) (MaxParameters l) (MaxRows l) (MaxOffset l)"

lemma revalidate_under_Inr:
  "revalidate_under l q = Inr w \<longleftrightarrow>
     v_valid q \<and> int (length (ns_Projection (v_spec q))) \<le> MaxProjectionFields l \<and>
     int (length (ns_GroupBy (v_spec q))) \<le> MaxGroupByFields l \<and>
     int (length (ns_OrderBy (v_spec q))) \<le> MaxOrderByFields l \<and>
     Predicates (v_stats q) \<le> MaxPredicates l \<and> ExpressionDepth (v_stats q) \<le> MaxExpressionDepth l \<and>
     Parameters (v_stats q) \<le> MaxParameters l \<and> ns_Offset (v_spec q) \<le> MaxOffset l \<and> 1 \<le> MaxRows l \<and>
     w = q\<lparr>v_spec := (v_spec q)\<lparr>ns_Limit := min (ns_Limit (v_spec q)) (MaxRows l)\<rparr>\<rparr>"
  by (cases q) (auto simp: revalidate_under_def Revalidate_def Let_def min_def)

text \<open>Limits under which at least a filter-free query can be accepted (\<open>validateLimits\<close> of the configuration).\<close>

definition usable_limits :: "Limits \<Rightarrow> bool" where
  "usable_limits l \<longleftrightarrow> 1 \<le> MaxRows l \<and> 0 \<le> MaxPredicates l \<and> 0 \<le> MaxExpressionDepth l"

lemma revalidate_equals_validate:
  assumes v: "validate_under loose spec = Inr v" and le: "limits_le strict loose"
    and u: "usable_limits strict"
  shows "revalidate_under strict v = Inr w \<longleftrightarrow> validate_under strict spec = Inr w"
proof -
  have "min (effective_limit l (MaxRows loose)) (MaxRows strict) = effective_limit l (MaxRows strict)" for l
    using le by (auto simp: effective_limit_def limits_le_def)
  moreover have "spec_Filter spec = None \<Longrightarrow>
      filter_stats (spec_Filter spec) 2 = \<lparr>Predicates = 0, ExpressionDepth = 0, Parameters = 2\<rparr>"
    by (simp add: filter_stats_def initial_stats_def)
  moreover have "v = normalized spec (MaxRows loose)" and "wf_spec spec"
    using v by (simp_all add: validate_under_def Validate_iff)
  ultimately show ?thesis
    using u by (cases "spec_Filter spec")
      (auto simp: validate_under_def Validate_iff revalidate_under_Inr normalized_def usable_limits_def)
qed

section \<open>The shape keeps no parameter value\<close>

fun map_values :: "(TypedValue \<Rightarrow> TypedValue) \<Rightarrow> Filter \<Rightarrow> Filter" where
  "map_values g (Filter rep kind field op vals exprs) =
     Filter rep kind field op (map_option (map g) vals) (map (map_values g) exprs)"

lemma shapeFilter_map_values:
  "(\<And>v. tv_Type (g v) = tv_Type v) \<Longrightarrow> shapeFilter (map_values g f) = shapeFilter f"
  by (induction g f rule: map_values.induct) (auto split: option.splits)

section \<open>The select validators honour the contract\<close>

lemma validate_under_mono:
  "validate_under k spec = Inr w \<Longrightarrow> limits_le k l \<Longrightarrow> \<exists>v. validate_under l spec = Inr v"
  unfolding validate_under_def Validate_iff limits_le_def by auto

interpretation select_query: revalidation validate_under revalidate_under usable_limits
proof
  show "\<And>l s v k w. validate_under l s = Inr v \<Longrightarrow> limits_le k l \<Longrightarrow> usable_limits k \<Longrightarrow>
      revalidate_under k v = Inr w \<longleftrightarrow> validate_under k s = Inr w"
    by (rule revalidate_equals_validate)
  show "\<And>k s w l. validate_under k s = Inr w \<Longrightarrow> limits_le k l \<Longrightarrow> \<exists>v. validate_under l s = Inr v"
    by (rule validate_under_mono)
qed

lemma Validated_Spec_validate:
  "validate_under l spec = Inr v \<Longrightarrow> Validated_Spec v = v_spec v"
  by (auto simp: validate_under_def Validate_iff wf_spec_def Validated_Spec_def cloneNormalized_def
      normalized_def option_map_clone_wf)

section \<open>A sample request\<close>

text \<open>Concrete limits and a concrete request, for the witnesses here and in the theories above.\<close>

definition sample_limits :: "int \<Rightarrow> Limits" where
  "sample_limits rows = \<lparr>DeadlineMS = 5000, MaxRequestBytes = 65536, MaxProjectionFields = 50,
     MaxGroupByFields = 10, MaxOrderByFields = 10, MaxPredicates = 20, MaxExpressionDepth = 5,
     MaxParameters = 100, MaxRows = rows, MaxResultBytes = 1048576, MaxOffset = 10000, MaxConcurrency = 4\<rparr>"

definition sample_filter :: Filter where
  "sample_filter = Filter [] ''group'' [] ''or'' None
     [Filter [] ''predicate'' ''id'' ''in''
        (Some [\<lparr>tv_Type = ''integer'', tv_Value = Some ''7''\<rparr>, \<lparr>tv_Type = ''integer'', tv_Value = Some ''1e2''\<rparr>]) [],
      Filter [] ''predicate'' ''state'' ''is_null'' (Some []) []]"

definition sample_spec :: Spec where
  "sample_spec = \<lparr>spec_Source = \<lparr>ref_Schema = ''app'', ref_Name = ''orders''\<rparr>,
     spec_Projection = [\<lparr>sel_Representation = [], sel_Kind = ''field'', sel_Field = ''id'', sel_Function = [], sel_Alias = []\<rparr>],
     spec_Filter = Some sample_filter, spec_GroupBy = [],
     spec_OrderBy = [\<lparr>sort_Representation = [], sort_Field = ''id'', sort_Direction = ''asc''\<rparr>],
     spec_Limit = Some 500, spec_Offset = None\<rparr>"

lemma sample_identifiers: "list_all IsIdentifier [''app'', ''orders'', ''id'', ''state'']"
  by code_simp

lemma sample_values:
  "BindValue \<lparr>tv_Type = ''integer'', tv_Value = Some ''7''\<rparr> = Inr (BoundInt 7)"
  "BindValue \<lparr>tv_Type = ''integer'', tv_Value = Some ''1e2''\<rparr> = Inr (BoundInt 100)"
  by (simp_all add: integer_eval)

lemma sample_filter_wf: "wf_filter sample_filter"
  using sample_identifiers
  by (simp add: sample_filter_def Representation_Valid_def valid_arity_def expectedValues_def
      valid_value_def sample_values protocol_limits RepresentationSourceText_def)

lemma sample_spec_filter: "spec_Filter sample_spec = Some sample_filter"
  by (simp add: sample_spec_def)

lemma sample_spec_wf: "wf_spec sample_spec"
  using sample_identifiers
  by (simp add: wf_spec_def sample_spec_def sample_filter_wf valid_selection_def valid_sort_def
      grouped_ok_def Representation_Valid_def protocol_limits)

lemma sample_spec_valid: "validate_under (sample_limits n) sample_spec = Inr (normalized sample_spec n)"
  using sample_spec_wf
  by (simp add: validate_under_def Validate_iff sample_spec_def sample_limits_def sample_filter_def
      filter_stats_def effective_offset_def)

section \<open>Properties\<close>

text \<open>
  C29: \<open>Validate\<close> accepts a client query exactly when it is well formed and every one of its
  dimensions is within the limits, and returns the query unchanged except for the defaults of limit
  and offset and for the row limit, which is clipped; the recorded statistics are those of the filter
  on top of the two server-owned parameters.
\<close>

theorem validate_is_exact:
  "validate_under l spec = Inr v \<longleftrightarrow>
     wf_spec spec \<and>
     int (length (spec_Projection spec)) \<le> MaxProjectionFields l \<and>
     int (length (spec_GroupBy spec)) \<le> MaxGroupByFields l \<and>
     int (length (spec_OrderBy spec)) \<le> MaxOrderByFields l \<and>
     Parameters (filter_stats (spec_Filter spec) 2) \<le> MaxParameters l \<and>
     (spec_Filter spec = None \<or>
        Predicates (filter_stats (spec_Filter spec) 2) \<le> MaxPredicates l \<and>
        ExpressionDepth (filter_stats (spec_Filter spec) 2) \<le> MaxExpressionDepth l) \<and>
     effective_offset (spec_Offset spec) \<le> MaxOffset l \<and>
     v = normalized spec (MaxRows l)"
  unfolding validate_under_def Validate_iff by (simp only: imp_conv_disj not_not)

text \<open>
  C30: validating under loose limits and re-validating the immutable result under stricter ones accepts
  the same queries, with the same result, as validating the client's text under the strict limits.
\<close>

theorem revalidation_loses_nothing:
  assumes "limits_le strict loose" and "usable_limits strict"
  shows "(\<exists>v. validate_under loose spec = Inr v \<and> revalidate_under strict v = Inr w) \<longleftrightarrow>
    validate_under strict spec = Inr w"
  using assms by (intro select_query.two_stages)

theorem revalidation_loses_nothing_witness:
  "limits_le (sample_limits 100) (sample_limits 1000) \<and> usable_limits (sample_limits 100) \<and>
   (\<exists>v. validate_under (sample_limits 1000) sample_spec = Inr v \<and>
        revalidate_under (sample_limits 100) v = Inr (normalized sample_spec 100))"
proof -
  have "limits_le (sample_limits 100) (sample_limits 1000)" and "usable_limits (sample_limits 100)"
    by (simp_all add: limits_le_def usable_limits_def sample_limits_def)
  then show ?thesis using revalidation_loses_nothing sample_spec_valid by blast
qed

text \<open>
  the shape hash of a query does not depend on any bind value: replacing every value of the filter
  by another one of the same type keeps the hash.
\<close>

theorem shape_hash_ignores_values:
  assumes "\<And>v. tv_Type (g v) = tv_Type v"
  shows "ShapeHash (spec\<lparr>ns_Filter := map_option (map_values g) (ns_Filter spec)\<rparr>) = ShapeHash spec"
proof -
  have "queryShape_of (spec\<lparr>ns_Filter := map_option (map_values g) (ns_Filter spec)\<rparr>) = queryShape_of spec"
    using assms by (cases "ns_Filter spec") (simp_all add: queryShape_of_def shapeFilter_map_values)
  then show ?thesis by (simp only: ShapeHash_def)
qed

theorem shape_hash_ignores_values_witness:
  "ShapeHash (v_spec (normalized sample_spec 9)\<lparr>ns_Filter := map_option (map_values (tv_Value_update (\<lambda>_. Some ''42'')))
     (ns_Filter (v_spec (normalized sample_spec 9)))\<rparr>) = ShapeHash (v_spec (normalized sample_spec 9))"
  by (rule shape_hash_ignores_values) simp

text \<open>
  The defensive copies are invisible: \<open>Spec\<close> of a validated query returns the normalised query it
  was built with, bind values included.
\<close>

theorem validated_spec_is_faithful:
  assumes "validate_under l spec = Inr v"
  shows "Validated_Spec v = v_spec v \<and> ns_Filter (Validated_Spec v) = spec_Filter spec"
  using Validated_Spec_validate [OF assms] assms
  by (simp add: validate_under_def Validate_iff normalized_def)

theorem validated_spec_is_faithful_witness:
  "Validated_Spec (normalized sample_spec 1000) = v_spec (normalized sample_spec 1000) \<and>
   ns_Filter (Validated_Spec (normalized sample_spec 1000)) = Some sample_filter"
  using validated_spec_is_faithful [OF sample_spec_valid, of 1000] unfolding sample_spec_filter .

end
