(* ===== verification/Aggregate_Query.thy ===== *)
theory Aggregate_Query
  imports Query_Spec
begin

text \<open>
  The first half of \<^verbatim>\<open>internal/queryspec/aggregate.go\<close>: the aggregate request, \<open>ValidateAggregate\<close> with its
  two loops that carry the names already seen, and \<open>RevalidateAggregate\<close>. As for selects, an abstract
  well-formedness predicate says what is accepted, and the pair interprets the revalidation contract.
\<close>

section \<open>Structures\<close>

definition AggregateModeScalar :: string where "AggregateModeScalar = ''scalar''"
definition AggregateModeGrouped :: string where "AggregateModeGrouped = ''grouped''"

lemmas aggregate_modes = AggregateModeScalar_def AggregateModeGrouped_def

record AggregateOutput =
  ao_Representation :: Representation
  ao_Kind :: string
  ao_Field :: string
  ao_Function :: string
  ao_Alias :: string
  ao_Unit :: string
  ao_Timezone :: string

record AggregateSort =
  as_Representation :: Representation
  as_Kind :: string
  as_Field :: string
  as_Alias :: string
  as_Direction :: string

text \<open>The nilness of \<open>OrderBy\<close> is tested in scalar mode.\<close>

record AggregateSpec =
  agg_Mode :: string
  agg_Source :: ResourceRef
  agg_Projection :: "AggregateOutput list"
  agg_Filter :: "Filter option"
  agg_OrderBy :: "AggregateSort list option"
  agg_Limit :: "int option"

record NormalizedAggregateSpec =
  na_Mode :: string
  na_Source :: ResourceRef
  na_Projection :: "AggregateOutput list"
  na_Filter :: "Filter option"
  na_OrderBy :: "AggregateSort list"
  na_Limit :: int

record ValidatedAggregate =
  va_spec :: NormalizedAggregateSpec
  va_stats :: Stats
  va_valid :: bool

definition agg_orders :: "AggregateSpec \<Rightarrow> AggregateSort list" where
  "agg_orders spec = (case agg_OrderBy spec of None \<Rightarrow> [] | Some os \<Rightarrow> os)"

definition cloneNormalizedAggregate :: "NormalizedAggregateSpec \<Rightarrow> NormalizedAggregateSpec" where
  "cloneNormalizedAggregate spec = spec\<lparr>na_Filter := map_option cloneFilter (na_Filter spec)\<rparr>"

definition ValidatedAggregate_Spec :: "ValidatedAggregate \<Rightarrow> NormalizedAggregateSpec" where
  "ValidatedAggregate_Spec v = cloneNormalizedAggregate (va_spec v)"

section \<open>Outputs\<close>

definition validateAggregateOutput :: "string \<Rightarrow> string \<Rightarrow> AggregateOutput \<Rightarrow> ValidationError option" where
  "validateAggregateOutput path mode out = first_error [
     validateRepresentation path (ao_Representation out),
     fail_if (ao_Kind out \<noteq> ''dimension'' \<and> ao_Representation out \<noteq> [])
       (validationError path (Message ''representation requires a dimension'')),
     (if ao_Kind out = ''dimension'' then first_error [
        fail_if (mode \<noteq> AggregateModeGrouped)
          (validationError (sub_path path ''kind'') (Message ''dimension is supported only in grouped mode'')),
        fail_if (ao_Function out \<noteq> [] \<or> ao_Alias out \<noteq> [] \<or> ao_Unit out \<noteq> [] \<or> ao_Timezone out \<noteq> [])
          (validationError path (Message ''dimension accepts only kind and field'')),
        validateIdentifier (sub_path path ''field'') (ao_Field out)]
      else if ao_Kind out = ''numeric_bucket'' then first_error [
        fail_if (mode \<noteq> AggregateModeGrouped \<or> ao_Function out \<noteq> [] \<or> ao_Unit out \<noteq> [] \<or> ao_Timezone out \<noteq> [])
          (validationError path (Message ''numeric_bucket requires grouped mode, field, and alias only'')),
        validateIdentifier (sub_path path ''field'') (ao_Field out),
        validateIdentifier (sub_path path ''alias'') (ao_Alias out)]
      else if ao_Kind out = ''time_bucket'' then first_error [
        fail_if (mode \<noteq> AggregateModeGrouped)
          (validationError (sub_path path ''kind'') (Message ''time_bucket is supported only in grouped mode'')),
        fail_if (ao_Function out \<noteq> [])
          (validationError (sub_path path ''function'') (Message ''is not valid for time_bucket'')),
        validateIdentifier (sub_path path ''field'') (ao_Field out),
        validateIdentifier (sub_path path ''alias'') (ao_Alias out),
        fail_if (ao_Unit out \<notin> set [''hour'', ''day'', ''week'', ''month''])
          (validationError (sub_path path ''unit'') (Message ''must be hour, day, week, or month'')),
        fail_if (ao_Timezone out \<noteq> ''UTC'')
          (validationError (sub_path path ''timezone'') (Message ''must be UTC''))]
      else if ao_Kind out = ''measure'' then first_error [
        fail_if (ao_Unit out \<noteq> [] \<or> ao_Timezone out \<noteq> [])
          (validationError path (Message ''measure does not accept unit or timezone'')),
        validateIdentifier (sub_path path ''alias'') (ao_Alias out),
        (if ao_Function out = ''count_all'' then
           fail_if (ao_Field out \<noteq> [])
             (validationError (sub_path path ''field'') (Message ''count_all must not contain field''))
         else if ao_Function out \<in> set [''count'', ''count_distinct'', ''min'', ''max'', ''sum'', ''avg'']
         then validateIdentifier (sub_path path ''field'') (ao_Field out)
         else Some (validationError (sub_path path ''function'') UnsupportedAggregate))]
      else Some (validationError (sub_path path ''kind'')
        (Message ''must be dimension, time_bucket, numeric_bucket, or measure'')))]"

definition is_dimension :: "AggregateOutput \<Rightarrow> bool" where
  "is_dimension out \<longleftrightarrow> ao_Kind out \<in> set [''dimension'', ''time_bucket'', ''numeric_bucket'']"

definition dimension_count :: "AggregateOutput list \<Rightarrow> nat" where
  "dimension_count outs = length (filter is_dimension outs)"

definition measure_count :: "AggregateOutput list \<Rightarrow> nat" where
  "measure_count outs = length (filter (\<lambda>out. \<not> is_dimension out) outs)"

definition output_name :: "AggregateOutput \<Rightarrow> string" where
  "output_name out =
     (if ao_Kind out \<in> set [''measure'', ''time_bucket'', ''numeric_bucket''] then ao_Alias out else ao_Field out)"

text \<open>The loop over the projection with its two sets of names already seen.\<close>

fun validateAggregateOutputs ::
  "string \<Rightarrow> bool \<Rightarrow> nat \<Rightarrow> string list \<Rightarrow> string list \<Rightarrow> AggregateOutput list \<Rightarrow> ValidationError option" where
  "validateAggregateOutputs mode semantics i names buckets [] = None"
| "validateAggregateOutputs mode semantics i names buckets (out # outs) = first_error [
     validateAggregateOutput (index_path ''query.projection'' i) mode out,
     fail_if (semantics \<and> ao_Kind out = ''time_bucket'' \<and> ao_Field out \<in> set buckets)
       (validationError ''query.projection'' (Message ''contains repeated time-bucket source fields'')),
     fail_if (semantics \<and> ToLower (output_name out) \<in> set names)
       (validationError ''query.projection'' (Message ''contains colliding output names'')),
     validateAggregateOutputs mode semantics (Suc i) (ToLower (output_name out) # names)
       (if ao_Kind out = ''time_bucket'' then ao_Field out # buckets else buckets) outs]"

section \<open>Order\<close>

definition order_compatible :: "AggregateOutput list \<Rightarrow> AggregateSort \<Rightarrow> bool" where
  "order_compatible projection order \<longleftrightarrow>
     (let candidates = filter (\<lambda>out. ao_Kind out = ''dimension'' \<and> EqualFold (ao_Field out) (as_Field order)) projection
      in candidates = [] \<or> list_ex (\<lambda>out. ao_Representation out = as_Representation order) candidates)"

definition numeric_projected :: "AggregateOutput list \<Rightarrow> string \<Rightarrow> bool" where
  "numeric_projected projection alias \<longleftrightarrow>
     list_ex (\<lambda>out. ao_Kind out = ''numeric_bucket'' \<and> EqualFold (ao_Alias out) alias) projection"

definition validateAggregateSort ::
  "AggregateOutput list \<Rightarrow> bool \<Rightarrow> string \<Rightarrow> string list \<Rightarrow> AggregateSort \<Rightarrow> ValidationError option" where
  "validateAggregateSort projection semantics path seen order = first_error [
     validateRepresentation path (as_Representation order),
     fail_if (as_Kind order \<noteq> ''dimension'' \<and> as_Representation order \<noteq> [])
       (validationError path (Message ''representation requires dimension order'')),
     fail_if (as_Direction order \<noteq> ''asc'' \<and> as_Direction order \<noteq> ''desc'')
       (validationError (sub_path path ''direction'') DirectionMustBeAscDesc),
     (if as_Kind order = ''dimension'' then first_error [
        fail_if (as_Alias order \<noteq> [])
          (validationError (sub_path path ''alias'') (Message ''is not valid for dimension order'')),
        validateIdentifier (sub_path path ''field'') (as_Field order),
        fail_if (semantics \<and> \<not> order_compatible projection order)
          (validationError (sub_path path ''representation'') (Message ''must match the projected dimension''))]
      else if as_Kind order = ''measure'' then first_error [
        fail_if (as_Field order \<noteq> [])
          (validationError (sub_path path ''field'') (Message ''is not valid for measure order'')),
        validateIdentifier (sub_path path ''alias'') (as_Alias order)]
      else if as_Kind order = ''time_bucket'' \<or> as_Kind order = ''numeric_bucket'' then first_error [
        fail_if (as_Field order \<noteq> [])
          (validationError (sub_path path ''field'') (Message ''is not valid for bucket order'')),
        validateIdentifier (sub_path path ''alias'') (as_Alias order),
        fail_if (semantics \<and> as_Kind order = ''numeric_bucket'' \<and> \<not> numeric_projected projection (as_Alias order))
          (validationError (sub_path path ''alias'') (Message ''must reference one projected numeric bucket'')),
        fail_if (semantics \<and> as_Kind order = ''numeric_bucket'' \<and> ToLower (as_Alias order) \<in> set seen)
          (validationError ''query.order_by'' (Message ''contains repeated numeric bucket targets''))]
      else Some (validationError (sub_path path ''kind'')
        (Message ''must be dimension, time_bucket, numeric_bucket, or measure'')))]"

fun validateAggregateSorts ::
  "AggregateOutput list \<Rightarrow> bool \<Rightarrow> nat \<Rightarrow> string list \<Rightarrow> AggregateSort list \<Rightarrow> ValidationError option" where
  "validateAggregateSorts projection semantics i seen [] = None"
| "validateAggregateSorts projection semantics i seen (order # orders) = first_error [
     validateAggregateSort projection semantics (index_path ''query.order_by'' i) seen order,
     validateAggregateSorts projection semantics (Suc i)
       (if as_Kind order = ''numeric_bucket'' then ToLower (as_Alias order) # seen else seen) orders]"

section \<open>\<open>ValidateAggregate\<close>\<close>

definition aggregateLimit :: "AggregateSpec \<Rightarrow> int \<Rightarrow> ValidationError + int" where
  "aggregateLimit spec maxRows =
     (if agg_Mode spec = AggregateModeScalar then
        (if agg_Limit spec \<noteq> None
         then Inl (validationError ''query.limit'' (Message ''is not supported in scalar mode'')) else Inr 0)
      else case agg_Limit spec of
             None \<Rightarrow> Inl (validationError ''query.limit'' (Message ''is required in grouped mode''))
           | Some limit \<Rightarrow>
               check (first_error [
                 fail_if (limit < 1 \<or> limit > ProtocolMaxRows)
                   (validationError ''query.limit'' (Message ''must be between 1 and 1000000'')),
                 fail_if (limit > maxRows)
                   (validationError ''query.limit'' (Message ''exceeds the effective row limit''))])
               (Inr limit))"

definition aggregateHead ::
  "AggregateSpec \<Rightarrow> int \<Rightarrow> int \<Rightarrow> bool \<Rightarrow> ValidationError option" where
  "aggregateHead spec maxProjection maxGroupBy semantics = first_error [
     validateSource (agg_Source spec),
     fail_if (agg_Mode spec \<noteq> AggregateModeScalar \<and> agg_Mode spec \<noteq> AggregateModeGrouped)
       (validationError ''query.mode'' (Message ''must be scalar or grouped'')),
     fail_if (agg_Projection spec = [])
       (validationError ''query.projection'' (Message ''must contain at least one output'')),
     fail_if (length (agg_Projection spec) > ProtocolMaxProjectionFields)
       (validationError ''query.projection'' ExceedsProtocolProjection),
     fail_if (int (length (agg_Projection spec)) > maxProjection)
       (validationError ''query.projection'' ExceedsEffectiveProjection),
     validateAggregateOutputs (agg_Mode spec) semantics 0 [] [] (agg_Projection spec),
     fail_if (agg_Mode spec = AggregateModeScalar \<and> dimension_count (agg_Projection spec) \<noteq> 0)
       (validationError ''query.projection'' (Message ''scalar mode accepts only measures'')),
     fail_if (agg_Mode spec = AggregateModeGrouped \<and>
              (dimension_count (agg_Projection spec) = 0 \<or> measure_count (agg_Projection spec) = 0))
       (validationError ''query.projection'' (Message ''grouped mode requires at least one dimension and one measure'')),
     fail_if (int (dimension_count (agg_Projection spec)) > maxGroupBy)
       (validationError ''query.projection'' ExceedsEffectiveGroupBy)]"

definition aggregateOrder :: "AggregateSpec \<Rightarrow> int \<Rightarrow> bool \<Rightarrow> ValidationError option" where
  "aggregateOrder spec maxOrderBy semantics = first_error [
     fail_if (length (agg_orders spec) > ProtocolMaxOrderByFields)
       (validationError ''query.order_by'' ExceedsProtocolOrderBy),
     fail_if (int (length (agg_orders spec)) > maxOrderBy)
       (validationError ''query.order_by'' ExceedsEffectiveOrderBy),
     fail_if (agg_Mode spec = AggregateModeScalar \<and> agg_OrderBy spec \<noteq> None)
       (validationError ''query.order_by'' (Message ''is not supported in scalar mode'')),
     validateAggregateSorts (agg_Projection spec) semantics 0 [] (agg_orders spec)]"

text \<open>In grouped mode one parameter is the server-owned limit of the group prefix.\<close>

definition server_parameters :: "string \<Rightarrow> nat" where
  "server_parameters mode = (if mode = AggregateModeGrouped then 1 else 0)"

definition validateAggregate ::
  "AggregateSpec \<Rightarrow> int \<Rightarrow> int \<Rightarrow> int \<Rightarrow> int \<Rightarrow> int \<Rightarrow> int \<Rightarrow> int \<Rightarrow> bool
     \<Rightarrow> ValidationError + ValidatedAggregate" where
  "validateAggregate spec maxProjection maxGroupBy maxOrderBy maxPreds maxDep maxParams maxRows semantics =
     check (first_error [
       aggregateHead spec maxProjection maxGroupBy semantics,
       fail_if (int (server_parameters (agg_Mode spec)) > maxParams) (validationError ''query'' ExceedsEffectiveParameters)])
     (bind_result
       (validateOptionalFilter (agg_Filter spec)
         \<lparr>maxPredicates = maxPreds, maxDepth = maxDep, maxParameters = maxParams\<rparr>
         (initial_stats (int (server_parameters (agg_Mode spec)))))
       (\<lambda>stats.
         check (aggregateOrder spec maxOrderBy semantics)
         (bind_result (aggregateLimit spec maxRows) (\<lambda>limit.
            Inr \<lparr>va_spec = \<lparr>na_Mode = agg_Mode spec, na_Source = agg_Source spec,
                   na_Projection = agg_Projection spec, na_Filter = map_option cloneFilter (agg_Filter spec),
                   na_OrderBy = agg_orders spec, na_Limit = limit\<rparr>,
                 va_stats = stats, va_valid = True\<rparr>))))"

definition ValidateAggregate ::
  "AggregateSpec \<Rightarrow> int \<Rightarrow> int \<Rightarrow> int \<Rightarrow> int \<Rightarrow> int \<Rightarrow> int \<Rightarrow> int \<Rightarrow> ValidationError + ValidatedAggregate" where
  "ValidateAggregate spec maxProjection maxGroupBy maxOrderBy maxPreds maxDep maxParams maxRows =
     validateAggregate spec maxProjection maxGroupBy maxOrderBy maxPreds maxDep maxParams maxRows True"

definition RevalidateAggregate ::
  "ValidatedAggregate \<Rightarrow> int \<Rightarrow> int \<Rightarrow> int \<Rightarrow> int \<Rightarrow> int \<Rightarrow> int \<Rightarrow> int \<Rightarrow> ValidationError + ValidatedAggregate" where
  "RevalidateAggregate query maxProjection maxGroupBy maxOrderBy maxPreds maxDep maxParams maxRows =
     (let spec = va_spec query; stats = va_stats query in
      check (first_error [
        fail_if (\<not> va_valid query) (validationError ''query'' NotValidated),
        fail_if (int (length (na_Projection spec)) > maxProjection)
          (validationError ''query.projection'' ExceedsEffectiveProjection),
        fail_if (int (length (na_OrderBy spec)) > maxOrderBy)
          (validationError ''query.order_by'' ExceedsEffectiveOrderBy),
        fail_if (int (dimension_count (na_Projection spec)) > maxGroupBy)
          (validationError ''query.projection'' ExceedsEffectiveGroupBy),
        fail_if (Predicates stats > maxPreds) (validationError ''query.filter'' ExceedsEffectivePredicates),
        fail_if (ExpressionDepth stats > maxDep) (validationError ''query.filter'' ExceedsEffectiveDepth),
        fail_if (Parameters stats > maxParams) (validationError ''query.filter'' ExceedsEffectiveParameters),
        fail_if (na_Mode spec = AggregateModeGrouped \<and> na_Limit spec > maxRows)
          (validationError ''query.limit'' (Message ''exceeds the effective row limit''))])
      (Inr \<lparr>va_spec = cloneNormalizedAggregate spec, va_stats = stats, va_valid = True\<rparr>))"

section \<open>What \<open>ValidateAggregate\<close> accepts\<close>

definition valid_output :: "string \<Rightarrow> AggregateOutput \<Rightarrow> bool" where
  "valid_output mode out \<longleftrightarrow>
     Representation_Valid (ao_Representation out) \<and>
     (ao_Kind out = ''dimension'' \<and> mode = AggregateModeGrouped \<and> IsIdentifier (ao_Field out) \<and>
        ao_Function out = [] \<and> ao_Alias out = [] \<and> ao_Unit out = [] \<and> ao_Timezone out = [] \<or>
      ao_Kind out = ''numeric_bucket'' \<and> mode = AggregateModeGrouped \<and> ao_Representation out = [] \<and>
        IsIdentifier (ao_Field out) \<and> IsIdentifier (ao_Alias out) \<and>
        ao_Function out = [] \<and> ao_Unit out = [] \<and> ao_Timezone out = [] \<or>
      ao_Kind out = ''time_bucket'' \<and> mode = AggregateModeGrouped \<and> ao_Representation out = [] \<and>
        IsIdentifier (ao_Field out) \<and> IsIdentifier (ao_Alias out) \<and> ao_Function out = [] \<and>
        ao_Unit out \<in> {''hour'', ''day'', ''week'', ''month''} \<and> ao_Timezone out = ''UTC'' \<or>
      ao_Kind out = ''measure'' \<and> ao_Representation out = [] \<and> IsIdentifier (ao_Alias out) \<and>
        ao_Unit out = [] \<and> ao_Timezone out = [] \<and>
        (ao_Function out = ''count_all'' \<and> ao_Field out = [] \<or>
         ao_Function out \<in> {''count'', ''count_distinct'', ''min'', ''max'', ''sum'', ''avg''} \<and>
           IsIdentifier (ao_Field out)))"

definition valid_aggregate_sort :: "AggregateOutput list \<Rightarrow> AggregateSort \<Rightarrow> bool" where
  "valid_aggregate_sort projection order \<longleftrightarrow>
     Representation_Valid (as_Representation order) \<and>
     (as_Direction order = ''asc'' \<or> as_Direction order = ''desc'') \<and>
     (as_Kind order = ''dimension'' \<and> as_Alias order = [] \<and> IsIdentifier (as_Field order) \<and>
        order_compatible projection order \<or>
      as_Kind order \<in> {''measure'', ''time_bucket'', ''numeric_bucket''} \<and> as_Representation order = [] \<and>
        as_Field order = [] \<and> IsIdentifier (as_Alias order) \<and>
        (as_Kind order = ''numeric_bucket'' \<longrightarrow> numeric_projected projection (as_Alias order)))"

abbreviation lower_names :: "AggregateOutput list \<Rightarrow> string list" where
  "lower_names outs \<equiv> map (\<lambda>out. ToLower (output_name out)) outs"

abbreviation bucket_fields :: "AggregateOutput list \<Rightarrow> string list" where
  "bucket_fields outs \<equiv> map ao_Field (filter (\<lambda>out. ao_Kind out = ''time_bucket'') outs)"

abbreviation numeric_targets :: "AggregateSort list \<Rightarrow> string list" where
  "numeric_targets orders \<equiv>
     map (\<lambda>order. ToLower (as_Alias order)) (filter (\<lambda>order. as_Kind order = ''numeric_bucket'') orders)"

lemma validateAggregateOutput_None [simp, result_iff]:
  "validateAggregateOutput path mode out = None \<longleftrightarrow> valid_output mode out"
  by (auto simp: validateAggregateOutput_def valid_output_def)

lemma validateAggregateOutputs_None:
  "validateAggregateOutputs mode True i names buckets outs = None \<longleftrightarrow>
     (\<forall>out \<in> set outs. valid_output mode out) \<and>
     distinct (lower_names outs) \<and> set (lower_names outs) \<inter> set names = {} \<and>
     distinct (bucket_fields outs) \<and> set (bucket_fields outs) \<inter> set buckets = {}"
  by (induction outs arbitrary: i names buckets) auto

lemma validateAggregateSort_None:
  "validateAggregateSort projection True path seen order = None \<longleftrightarrow>
     valid_aggregate_sort projection order \<and>
     (as_Kind order = ''numeric_bucket'' \<longrightarrow> ToLower (as_Alias order) \<notin> set seen)"
  by (auto simp: validateAggregateSort_def valid_aggregate_sort_def)

lemma validateAggregateSorts_None:
  "validateAggregateSorts projection True i seen orders = None \<longleftrightarrow>
     (\<forall>order \<in> set orders. valid_aggregate_sort projection order) \<and>
     distinct (numeric_targets orders) \<and> set (numeric_targets orders) \<inter> set seen = {}"
  by (induction orders arbitrary: i seen) (auto simp: validateAggregateSort_None)

definition valid_aggregate_mode :: "AggregateSpec \<Rightarrow> bool" where
  "valid_aggregate_mode spec \<longleftrightarrow>
     agg_Mode spec = AggregateModeScalar \<and> dimension_count (agg_Projection spec) = 0 \<and>
       agg_OrderBy spec = None \<and> agg_Limit spec = None \<or>
     agg_Mode spec = AggregateModeGrouped \<and> dimension_count (agg_Projection spec) \<noteq> 0 \<and>
       measure_count (agg_Projection spec) \<noteq> 0 \<and>
       (\<exists>limit. agg_Limit spec = Some limit \<and> 1 \<le> limit \<and> limit \<le> ProtocolMaxRows)"

definition wf_aggregate :: "AggregateSpec \<Rightarrow> bool" where
  "wf_aggregate spec \<longleftrightarrow>
     IsIdentifier (ref_Schema (agg_Source spec)) \<and> IsIdentifier (ref_Name (agg_Source spec)) \<and>
     valid_aggregate_mode spec \<and>
     agg_Projection spec \<noteq> [] \<and> length (agg_Projection spec) \<le> ProtocolMaxProjectionFields \<and>
     (\<forall>out \<in> set (agg_Projection spec). valid_output (agg_Mode spec) out) \<and>
     distinct (lower_names (agg_Projection spec)) \<and> distinct (bucket_fields (agg_Projection spec)) \<and>
     (\<forall>f \<in> set_option (agg_Filter spec). wf_filter f) \<and>
     length (agg_orders spec) \<le> ProtocolMaxOrderByFields \<and>
     (\<forall>order \<in> set (agg_orders spec). valid_aggregate_sort (agg_Projection spec) order) \<and>
     distinct (numeric_targets (agg_orders spec))"

definition aggregate_limit :: "AggregateSpec \<Rightarrow> int" where
  "aggregate_limit spec = (case agg_Limit spec of None \<Rightarrow> 0 | Some l \<Rightarrow> l)"

definition aggregate_stats :: "AggregateSpec \<Rightarrow> Stats" where
  "aggregate_stats spec = filter_stats (agg_Filter spec) (server_parameters (agg_Mode spec))"

definition normalized_aggregate :: "AggregateSpec \<Rightarrow> ValidatedAggregate" where
  "normalized_aggregate spec =
     \<lparr>va_spec = \<lparr>na_Mode = agg_Mode spec, na_Source = agg_Source spec, na_Projection = agg_Projection spec,
        na_Filter = agg_Filter spec, na_OrderBy = agg_orders spec, na_Limit = aggregate_limit spec\<rparr>,
      va_stats = aggregate_stats spec, va_valid = True\<rparr>"

definition aggregate_within :: "Limits \<Rightarrow> AggregateSpec \<Rightarrow> bool" where
  "aggregate_within l spec \<longleftrightarrow>
     int (length (agg_Projection spec)) \<le> MaxProjectionFields l \<and>
     int (dimension_count (agg_Projection spec)) \<le> MaxGroupByFields l \<and>
     int (length (agg_orders spec)) \<le> MaxOrderByFields l \<and>
     Parameters (aggregate_stats spec) \<le> MaxParameters l \<and>
     (agg_Filter spec = None \<or>
        Predicates (aggregate_stats spec) \<le> MaxPredicates l \<and>
        ExpressionDepth (aggregate_stats spec) \<le> MaxExpressionDepth l) \<and>
     (agg_Mode spec = AggregateModeScalar \<or> aggregate_limit spec \<le> MaxRows l)"

definition validate_aggregate_under :: "Limits \<Rightarrow> AggregateSpec \<Rightarrow> ValidationError + ValidatedAggregate" where
  "validate_aggregate_under l spec =
     ValidateAggregate spec (MaxProjectionFields l) (MaxGroupByFields l) (MaxOrderByFields l) (MaxPredicates l)
       (MaxExpressionDepth l) (MaxParameters l) (MaxRows l)"

definition revalidate_aggregate_under :: "Limits \<Rightarrow> ValidatedAggregate \<Rightarrow> ValidationError + ValidatedAggregate" where
  "revalidate_aggregate_under l query =
     RevalidateAggregate query (MaxProjectionFields l) (MaxGroupByFields l) (MaxOrderByFields l) (MaxPredicates l)
       (MaxExpressionDepth l) (MaxParameters l) (MaxRows l)"

lemma modes_differ [simp]:
  "AggregateModeScalar \<noteq> AggregateModeGrouped" "AggregateModeGrouped \<noteq> AggregateModeScalar"
  by (simp_all add: aggregate_modes)

lemma server_parameters_le: "int (server_parameters m) \<le> Parameters (filter_stats f (server_parameters m))"
  by (cases f) (simp_all add: filter_stats_def initial_stats_def)

lemma aggregateLimit_Inr:
  "aggregateLimit spec maxRows = Inr n \<longleftrightarrow>
     n = aggregate_limit spec \<and>
     (agg_Mode spec = AggregateModeScalar \<and> agg_Limit spec = None \<or>
      agg_Mode spec \<noteq> AggregateModeScalar \<and> agg_Limit spec \<noteq> None \<and> 1 \<le> n \<and> n \<le> ProtocolMaxRows \<and> n \<le> maxRows)"
  by (cases "agg_Limit spec") (auto simp: aggregateLimit_def aggregate_limit_def)

lemma aggregateHead_None:
  "aggregateHead spec maxProjection maxGroupBy True = None \<longleftrightarrow>
     IsIdentifier (ref_Schema (agg_Source spec)) \<and> IsIdentifier (ref_Name (agg_Source spec)) \<and>
     (agg_Mode spec = AggregateModeScalar \<and> dimension_count (agg_Projection spec) = 0 \<or>
      agg_Mode spec = AggregateModeGrouped \<and> dimension_count (agg_Projection spec) \<noteq> 0 \<and>
        measure_count (agg_Projection spec) \<noteq> 0) \<and>
     agg_Projection spec \<noteq> [] \<and> length (agg_Projection spec) \<le> ProtocolMaxProjectionFields \<and>
     int (length (agg_Projection spec)) \<le> maxProjection \<and>
     (\<forall>out \<in> set (agg_Projection spec). valid_output (agg_Mode spec) out) \<and>
     distinct (lower_names (agg_Projection spec)) \<and> distinct (bucket_fields (agg_Projection spec)) \<and>
     int (dimension_count (agg_Projection spec)) \<le> maxGroupBy"
proof -
  have not_less: "\<not> a > b \<longleftrightarrow> a \<le> b" for a b :: int by linarith
  have not_less': "\<not> a > b \<longleftrightarrow> a \<le> b" for a b :: nat by linarith
  show ?thesis
    unfolding aggregateHead_def validateSource_def result_iff validateAggregateOutputs_None
      first_error.simps not_less not_less' modes_differ list.set Int_empty_right
    by (metis modes_differ(1))
qed

lemma aggregateOrder_None:
  "aggregateOrder spec maxOrderBy True = None \<longleftrightarrow>
     length (agg_orders spec) \<le> ProtocolMaxOrderByFields \<and> int (length (agg_orders spec)) \<le> maxOrderBy \<and>
     (agg_Mode spec \<noteq> AggregateModeScalar \<or> agg_OrderBy spec = None) \<and>
     (\<forall>order \<in> set (agg_orders spec). valid_aggregate_sort (agg_Projection spec) order) \<and>
     distinct (numeric_targets (agg_orders spec))"
  by (simp add: aggregateOrder_def validateAggregateSorts_None not_less)

lemma aggregate_checks_iff:
  "aggregateHead spec (MaxProjectionFields l) (MaxGroupByFields l) True = None \<and>
     aggregateOrder spec (MaxOrderByFields l) True = None \<and> (\<exists>n. aggregateLimit spec (MaxRows l) = Inr n) \<and>
     (\<forall>f \<in> set_option (agg_Filter spec). wf_filter f) \<longleftrightarrow>
   wf_aggregate spec \<and> int (length (agg_Projection spec)) \<le> MaxProjectionFields l \<and>
     int (dimension_count (agg_Projection spec)) \<le> MaxGroupByFields l \<and>
     int (length (agg_orders spec)) \<le> MaxOrderByFields l \<and>
     (agg_Mode spec = AggregateModeScalar \<or> aggregate_limit spec \<le> MaxRows l)"
  unfolding wf_aggregate_def valid_aggregate_mode_def aggregateHead_None aggregateOrder_None aggregateLimit_Inr
  by (cases "agg_Limit spec"; cases "agg_Mode spec = AggregateModeScalar")
    (auto simp: aggregate_limit_def)

lemma validate_aggregate_under_Inr:
  "validate_aggregate_under l spec = Inr v \<longleftrightarrow>
     wf_aggregate spec \<and> aggregate_within l spec \<and> v = normalized_aggregate spec"
proof -
  let ?sp = "server_parameters (agg_Mode spec)"
  let ?lim = "\<lparr>maxPredicates = MaxPredicates l, maxDepth = MaxExpressionDepth l, maxParameters = MaxParameters l\<rparr>"
  have le: "int ?sp \<le> Parameters (aggregate_stats spec)"
    unfolding aggregate_stats_def by (rule server_parameters_le)
  have filter: "validateOptionalFilter (agg_Filter spec) ?lim (initial_stats (int ?sp)) = Inr st \<longleftrightarrow>
      st = aggregate_stats spec \<and> (\<forall>f \<in> set_option (agg_Filter spec). wf_filter f) \<and>
      (agg_Filter spec = None \<or> Predicates (aggregate_stats spec) \<le> MaxPredicates l \<and>
         ExpressionDepth (aggregate_stats spec) \<le> MaxExpressionDepth l \<and>
         Parameters (aggregate_stats spec) \<le> MaxParameters l)" for st
    unfolding validateOptionalFilter_Inr aggregate_stats_def by (cases "agg_Filter spec") auto
  have none: "agg_Filter spec = None \<Longrightarrow> Parameters (aggregate_stats spec) = int ?sp"
    by (simp add: aggregate_stats_def filter_stats_def initial_stats_def)
  have result: "wf_aggregate spec \<Longrightarrow> map_option cloneFilter (agg_Filter spec) = agg_Filter spec"
    by (rule option_map_clone_wf) (simp add: wf_aggregate_def)
  have "validate_aggregate_under l spec = Inr v \<longleftrightarrow>
      (aggregateHead spec (MaxProjectionFields l) (MaxGroupByFields l) True = None \<and>
       aggregateOrder spec (MaxOrderByFields l) True = None \<and> (\<exists>n. aggregateLimit spec (MaxRows l) = Inr n) \<and>
       (\<forall>f \<in> set_option (agg_Filter spec). wf_filter f)) \<and>
      int ?sp \<le> MaxParameters l \<and>
      (agg_Filter spec = None \<or> Predicates (aggregate_stats spec) \<le> MaxPredicates l \<and>
         ExpressionDepth (aggregate_stats spec) \<le> MaxExpressionDepth l \<and>
         Parameters (aggregate_stats spec) \<le> MaxParameters l) \<and>
      v = \<lparr>va_spec = \<lparr>na_Mode = agg_Mode spec, na_Source = agg_Source spec,
             na_Projection = agg_Projection spec, na_Filter = map_option cloneFilter (agg_Filter spec),
             na_OrderBy = agg_orders spec, na_Limit = aggregate_limit spec\<rparr>,
           va_stats = aggregate_stats spec, va_valid = True\<rparr>"
    unfolding validate_aggregate_under_def ValidateAggregate_def validateAggregate_def
    by (auto simp: filter aggregateLimit_Inr)
  then show ?thesis
    unfolding aggregate_checks_iff aggregate_within_def using le none result
    by (auto simp: normalized_aggregate_def)
qed

lemma revalidate_aggregate_under_Inr:
  "revalidate_aggregate_under l q = Inr w \<longleftrightarrow>
     va_valid q \<and> int (length (na_Projection (va_spec q))) \<le> MaxProjectionFields l \<and>
     int (dimension_count (na_Projection (va_spec q))) \<le> MaxGroupByFields l \<and>
     int (length (na_OrderBy (va_spec q))) \<le> MaxOrderByFields l \<and>
     Predicates (va_stats q) \<le> MaxPredicates l \<and> ExpressionDepth (va_stats q) \<le> MaxExpressionDepth l \<and>
     Parameters (va_stats q) \<le> MaxParameters l \<and>
     (na_Mode (va_spec q) \<noteq> AggregateModeGrouped \<or> na_Limit (va_spec q) \<le> MaxRows l) \<and>
     w = q\<lparr>va_spec := cloneNormalizedAggregate (va_spec q)\<rparr>"
  by (cases q) (auto simp: revalidate_aggregate_under_def RevalidateAggregate_def Let_def)

lemma aggregate_within_mono: "aggregate_within k spec \<Longrightarrow> limits_le k l \<Longrightarrow> aggregate_within l spec"
  by (auto simp: aggregate_within_def limits_le_def)

lemma cloneNormalizedAggregate_wf:
  "wf_aggregate spec \<Longrightarrow>
     cloneNormalizedAggregate (va_spec (normalized_aggregate spec)) = va_spec (normalized_aggregate spec)"
  by (simp add: wf_aggregate_def cloneNormalizedAggregate_def normalized_aggregate_def option_map_clone_wf)

lemma revalidate_normalized_aggregate:
  assumes "wf_aggregate spec" "usable_limits k"
  shows "revalidate_aggregate_under k (normalized_aggregate spec) = Inr w \<longleftrightarrow>
    aggregate_within k spec \<and> w = normalized_aggregate spec"
proof -
  have "agg_Filter spec = None \<Longrightarrow> Predicates (aggregate_stats spec) = 0 \<and> ExpressionDepth (aggregate_stats spec) = 0"
    by (simp add: aggregate_stats_def filter_stats_def initial_stats_def)
  moreover have "agg_Mode spec = AggregateModeScalar \<or> agg_Mode spec = AggregateModeGrouped"
    using assms(1) by (auto simp: wf_aggregate_def valid_aggregate_mode_def)
  ultimately show ?thesis
    using assms cloneNormalizedAggregate_wf [OF assms(1)]
    unfolding revalidate_aggregate_under_Inr aggregate_within_def usable_limits_def
    by (auto simp: normalized_aggregate_def)
qed

interpretation aggregate_query: revalidation validate_aggregate_under revalidate_aggregate_under usable_limits
proof
  show "\<And>l s v k w. validate_aggregate_under l s = Inr v \<Longrightarrow> limits_le k l \<Longrightarrow> usable_limits k \<Longrightarrow>
      revalidate_aggregate_under k v = Inr w \<longleftrightarrow> validate_aggregate_under k s = Inr w"
    by (auto simp: validate_aggregate_under_Inr revalidate_normalized_aggregate)
  show "\<And>k s w l. validate_aggregate_under k s = Inr w \<Longrightarrow> limits_le k l \<Longrightarrow> \<exists>v. validate_aggregate_under l s = Inr v"
    by (auto simp: validate_aggregate_under_Inr intro: aggregate_within_mono)
qed

end
