(* ===== verification/Filter_Digest.thy ===== *)
theory Filter_Digest
  imports Query_Spec "HOL-Library.Char_ord" "HOL-Library.List_Lexorder" "HOL-Library.Product_Lexorder"
    "HOL-Library.Multiset"
begin

text \<open>
  The filter digests of \<^verbatim>\<open>internal/queryspec/aggregate.go\<close> and the normalisation of filters that sorts the
  operands of every group by them. The digests are written over a hash function argument \<open>hash\<close>, which
  the program instantiates with SHA-256 (\<^const>\<open>sha256\<close>); a running \<open>hash.Hash\<close> is the text written so
  far. What the properties ask of \<open>hash\<close> is stated as a hypothesis where it is used: that it does not
  collide on the texts at hand.
\<close>

section \<open>Writing into a digest\<close>

type_synonym digest = string

definition writeFilterDigestUint64 :: "string \<Rightarrow> nat \<Rightarrow> string" where
  "writeFilterDigestUint64 buffer n = buffer @ PutUint64 n"

definition writeFilterDigestString :: "string \<Rightarrow> string \<Rightarrow> string" where
  "writeFilterDigestString buffer s = writeFilterDigestUint64 buffer (length s) @ s"

definition writeFilterDigestBytes :: "string \<Rightarrow> string \<Rightarrow> string" where
  "writeFilterDigestBytes buffer s = writeFilterDigestUint64 buffer (length s) @ s"

definition finishFilterDigest :: "(string \<Rightarrow> digest) \<Rightarrow> string \<Rightarrow> digest" where
  "finishFilterDigest hash buffer = hash buffer"

definition aggregateGroupDigest ::
  "(string \<Rightarrow> digest) \<Rightarrow> string \<Rightarrow> string \<Rightarrow> string \<Rightarrow> digest list \<Rightarrow> digest" where
  "aggregateGroupDigest hash tag kind op children =
     finishFilterDigest hash
       (foldl writeFilterDigestBytes
         (writeFilterDigestUint64
           (writeFilterDigestString (writeFilterDigestString (writeFilterDigestString [] tag) kind) op)
           (length children))
         children)"

definition shape_domain :: string where "shape_domain = ''quordon/aggregate-filter-shape/v1''"
definition value_domain :: string where "value_domain = ''quordon/aggregate-filter-value/v1''"
definition exact_domain :: string where "exact_domain = ''quordon/aggregate-filter-exact/v1''"

text \<open>The text hashed for the shape of a predicate.\<close>

definition predicate_shape_text ::
  "Representation \<Rightarrow> string \<Rightarrow> string \<Rightarrow> string \<Rightarrow> TypedValue list \<Rightarrow> string" where
  "predicate_shape_text rep kind field op vs =
     foldl writeFilterDigestString
       (writeFilterDigestUint64
         (foldl writeFilterDigestString [] [shape_domain, kind, field, rep, op]) (length vs))
       (map tv_Type vs)"

fun AggregateFilterShapeDigest :: "(string \<Rightarrow> digest) \<Rightarrow> Filter \<Rightarrow> digest" where
  "AggregateFilterShapeDigest hash (Filter rep kind field op vals exprs) =
     (if kind \<noteq> ''predicate'' then
        aggregateGroupDigest hash shape_domain kind op (sort (map (AggregateFilterShapeDigest hash) exprs))
      else finishFilterDigest hash
        (predicate_shape_text rep kind field op (case vals of None \<Rightarrow> [] | Some vs \<Rightarrow> vs)))"

text \<open>\<open>uint64(typed)\<close> of a signed integer is its two's complement.\<close>

definition writeAggregateBoundValueDigest :: "string \<Rightarrow> bound \<Rightarrow> string" where
  "writeAggregateBoundValueDigest buffer b =
     (case b of
        BoundBool v \<Rightarrow>
          writeFilterDigestBytes (writeFilterDigestString buffer ''boolean'') (bytes_of [if v then 1 else 0])
      | BoundInt i \<Rightarrow>
          writeFilterDigestBytes (writeFilterDigestString buffer ''integer'') (PutUint64 (nat (i mod 2 ^ 64)))
      | BoundString s \<Rightarrow> writeFilterDigestString (writeFilterDigestString buffer ''string'') s
      | BoundBytes s \<Rightarrow> writeFilterDigestBytes (writeFilterDigestString buffer ''bytes'') s)"

fun write_bound_values :: "string \<Rightarrow> TypedValue list \<Rightarrow> ValidationError + string" where
  "write_bound_values buffer [] = Inr buffer"
| "write_bound_values buffer (v # vs) =
     (case BindValue v of
        Inl e \<Rightarrow> Inl (validationError ''query.filter'' (InvalidBindValue e))
      | Inr b \<Rightarrow> write_bound_values (writeAggregateBoundValueDigest buffer b) vs)"

definition aggregatePredicateDigests :: "(string \<Rightarrow> digest) \<Rightarrow> Filter \<Rightarrow> ValidationError + digest \<times> digest" where
  "aggregatePredicateDigests hash f =
     (let shapeKey = AggregateFilterShapeDigest hash f in
      bind_result
        (write_bound_values (writeFilterDigestBytes (writeFilterDigestString [] value_domain) shapeKey) (f_values f))
        (\<lambda>buffer. Inr (shapeKey, finishFilterDigest hash buffer)))"

section \<open>Normalising a filter\<close>

definition canonicalIdentifier :: "string \<Rightarrow> bool \<Rightarrow> string" where
  "canonicalIdentifier value insensitive = (if insensitive then ToLower value else value)"

record normalizedExpression =
  ne_filter :: Filter
  ne_shapeKey :: digest
  ne_valueKey :: digest

fun adjacent_equal :: "'a list \<Rightarrow> bool" where
  "adjacent_equal (x # y # xs) \<longleftrightarrow> x = y \<or> adjacent_equal (y # xs)"
| "adjacent_equal _ \<longleftrightarrow> False"

text \<open>
  \<open>slices.SortFunc\<close> is not stable; \<^const>\<open>sort_key\<close> is. Two operands that compare equal have equal value
  keys, and then the loop after the sort fails whatever their order is.
\<close>

definition sort_expressions :: "normalizedExpression list \<Rightarrow> normalizedExpression list" where
  "sort_expressions es = sort_key (\<lambda>e. (ne_shapeKey e, ne_valueKey e)) es"

definition combine_expressions ::
  "(string \<Rightarrow> digest) \<Rightarrow> Filter \<Rightarrow> normalizedExpression list \<Rightarrow> ValidationError + normalizedExpression" where
  "combine_expressions hash f es =
     (let expressions = sort_expressions es in
      check (fail_if (adjacent_equal (map ne_valueKey expressions))
        (validationError ''query.filter'' (Message ''contains duplicate normalized expressions'')))
      (Inr \<lparr>ne_filter = Filter (f_Representation f) (f_Kind f) (f_Field f) (f_Operator f) (f_Values f)
                          (map ne_filter expressions),
            ne_shapeKey = aggregateGroupDigest hash shape_domain (f_Kind f) (f_Operator f) (map ne_shapeKey expressions),
            ne_valueKey = aggregateGroupDigest hash value_domain (f_Kind f) (f_Operator f) (map ne_valueKey expressions)\<rparr>))"

fun normalizeAggregateFilterNode ::
  "(string \<Rightarrow> digest) \<Rightarrow> bool \<Rightarrow> Filter \<Rightarrow> ValidationError + normalizedExpression" where
  "normalizeAggregateFilterNode hash insensitive (Filter rep kind field op vals exprs) =
     (if kind = ''predicate'' then
        let result = Filter rep kind (canonicalIdentifier field insensitive) op (cloneTypedValues vals) [] in
        bind_result (aggregatePredicateDigests hash result) (\<lambda>(shapeKey, valueKey).
          Inr \<lparr>ne_filter = result, ne_shapeKey = shapeKey, ne_valueKey = valueKey\<rparr>)
      else
        bind_result (sequence_results (map (normalizeAggregateFilterNode hash insensitive) exprs))
          (combine_expressions hash (Filter rep kind field op (cloneTypedValues vals) [])))"

definition normalizeAggregateFilter ::
  "(string \<Rightarrow> digest) \<Rightarrow> Filter \<Rightarrow> bool \<Rightarrow> ValidationError + Filter" where
  "normalizeAggregateFilter hash f insensitive =
     bind_result (normalizeAggregateFilterNode hash insensitive f) (\<lambda>e. Inr (ne_filter e))"

section \<open>Canonical JSON scalars\<close>

text \<open>\<open>big.Int.SetString(text, 10)\<close>\<close>

definition big_int_of_string :: "string \<Rightarrow> int option" where
  "big_int_of_string s =
     (let negative = (s \<noteq> [] \<and> hd s = CHR ''-'');
          ds = (if s \<noteq> [] \<and> (hd s = CHR ''-'' \<or> hd s = CHR ''+'') then tl s else s) in
      if ds = [] \<or> \<not> list_all is_digit ds then None
      else Some (if negative then - int (dec_value ds) else int (dec_value ds)))"

fun strip_trailing_zeros :: "string \<Rightarrow> int \<Rightarrow> string \<times> int" where
  "strip_trailing_zeros rdigits pw =
     (case rdigits of
        c # d # ds \<Rightarrow> if c = CHR ''0'' then strip_trailing_zeros (d # ds) (pw + 1) else (rdigits, pw)
      | _ \<Rightarrow> (rdigits, pw))"

declare strip_trailing_zeros.simps [simp del]

definition cut_or_all :: "char \<Rightarrow> string \<Rightarrow> string \<times> string option" where
  "cut_or_all c s = (case Cut c s of None \<Rightarrow> (s, None) | Some (a, b) \<Rightarrow> (a, Some b))"

definition cut_exponent :: "string \<Rightarrow> string \<times> string option" where
  "cut_exponent s = (case cut_or_all (CHR ''e'') s of (a, Some b) \<Rightarrow> (a, Some b) | _ \<Rightarrow> cut_or_all (CHR ''E'') s)"

text \<open>The loop removes trailing zeros from the reversed digits and raises the power for each of them.\<close>

definition canonicalJSONNumber :: "string \<Rightarrow> string option" where
  "canonicalJSONNumber s =
     (let (negative, t) = strip_minus s;
          (mantissa, exponentText) = cut_exponent t in
      case (case exponentText of None \<Rightarrow> Some 0 | Some e \<Rightarrow> big_int_of_string e) of
        None \<Rightarrow> None
      | Some exponent \<Rightarrow>
          let (integer, fraction) = cut_or_all (CHR ''.'') mantissa;
              fr = (case fraction of None \<Rightarrow> [] | Some f \<Rightarrow> f);
              digits = dropWhile (\<lambda>c. c = CHR ''0'') (integer @ fr) in
          if digits = [] then Some ''0''
          else
            let (rdigits, pw) = strip_trailing_zeros (rev digits) (exponent - int (length fr)) in
            Some ((if negative then ''-'' else []) @ rev rdigits @ ''e'' @ itoa_int pw))"

definition canonicalJSONScalar :: "string \<Rightarrow> string" where
  "canonicalJSONScalar raw =
     (let tx = TrimSpace raw; invalid = ''invalid:'' @ tx in
      case tx of
        [] \<Rightarrow> ''invalid:''
      | c # _ \<Rightarrow>
          if c = quote_char then
            (case unmarshal_string raw of Some v \<Rightarrow> ''string:'' @ json_quote v | None \<Rightarrow> invalid)
          else if c = CHR ''t'' \<or> c = CHR ''f'' then
            (case unmarshal_bool raw of
               Some b \<Rightarrow> ''boolean:'' @ (if b then ''true'' else ''false'') | None \<Rightarrow> invalid)
          else if c = CHR ''n'' then (if tx = ''null'' then ''null'' else invalid)
          else (case canonicalJSONNumber tx of Some n \<Rightarrow> ''number:'' @ n | None \<Rightarrow> invalid))"

section \<open>The duplicate check of the decoder\<close>

definition predicate_exact_text :: "string \<Rightarrow> string \<Rightarrow> string \<Rightarrow> TypedValue list \<Rightarrow> string" where
  "predicate_exact_text kind field op vs =
     foldl (\<lambda>buffer v. writeFilterDigestString (writeFilterDigestString buffer (tv_Type v))
              (canonicalJSONScalar (case tv_Value v of None \<Rightarrow> [] | Some raw \<Rightarrow> raw)))
       (writeFilterDigestUint64 (foldl writeFilterDigestString [] [exact_domain, kind, field, op]) (length vs)) vs"

definition DuplicateExpressions :: ValidationError where
  "DuplicateExpressions = validationError ''query.filter'' (Message ''contains duplicate expressions'')"

text \<open>A child whose digest was already seen ends the loop before the next child is looked at.\<close>

fun exact_children :: "digest list \<Rightarrow> (ValidationError + digest) list \<Rightarrow> ValidationError + digest list" where
  "exact_children seen [] = Inr []"
| "exact_children seen (r # rs) =
     bind_result r (\<lambda>d.
       if d \<in> set seen then Inl DuplicateExpressions
       else bind_result (exact_children (d # seen) rs) (\<lambda>ds. Inr (d # ds)))"

fun exactAggregateFilterDigest :: "(string \<Rightarrow> digest) \<Rightarrow> Filter \<Rightarrow> ValidationError + digest" where
  "exactAggregateFilterDigest hash (Filter rep kind field op vals exprs) =
     (if kind = ''predicate'' then
        Inr (finishFilterDigest hash
          (predicate_exact_text kind field op (case vals of None \<Rightarrow> [] | Some vs \<Rightarrow> vs)))
      else
        bind_result (exact_children [] (map (exactAggregateFilterDigest hash) exprs))
          (\<lambda>children. Inr (aggregateGroupDigest hash exact_domain kind op children)))"

section \<open>Sorted operands\<close>

lemma adjacent_equal_distinct:
  fixes xs :: "'a :: linorder list"
  shows "sorted xs \<Longrightarrow> \<not> adjacent_equal xs \<Longrightarrow> distinct xs"
proof (induction xs rule: adjacent_equal.induct)
  case (1 x y xs)
  then have "x < y" and "sorted (y # xs)" by auto
  then have "x < z" if "z \<in> set (y # xs)" for z using that by auto
  then have "x \<notin> set (y # xs)" by (meson less_irrefl)
  with 1 show ?case by simp
qed auto

lemma adjacent_equal_map: "adjacent_equal xs \<Longrightarrow> adjacent_equal (map g xs)"
  by (induction xs rule: adjacent_equal.induct) auto

abbreviation expression_key :: "normalizedExpression \<Rightarrow> digest \<times> digest" where
  "expression_key e \<equiv> (ne_shapeKey e, ne_valueKey e)"

lemma sort_expressions_props [simp]:
  "mset (sort_expressions es) = mset es" "length (sort_expressions es) = length es"
  "set (sort_expressions es) = set es"
  by (simp_all add: sort_expressions_def)

lemma sort_expressions_sorted: "sorted (map expression_key (sort_expressions es))"
  by (simp add: sort_expressions_def)

lemma sort_expressions_shapes: "sorted (map ne_shapeKey (sort_expressions es))"
  using sort_expressions_sorted [of es] unfolding sorted_map
  by (rule sorted_wrt_mono_rel [rotated]) (auto simp: less_eq_prod_def)

text \<open>Operands that pass the duplicate check have pairwise different keys, so their order is determined.\<close>

lemma sort_expressions_distinct:
  assumes "\<not> adjacent_equal (map ne_valueKey (sort_expressions es))"
  shows "distinct (map expression_key (sort_expressions es))"
proof (rule adjacent_equal_distinct [OF sort_expressions_sorted])
  have "map ne_valueKey (sort_expressions es) = map snd (map expression_key (sort_expressions es))"
    by simp
  with assms show "\<not> adjacent_equal (map expression_key (sort_expressions es))"
    using adjacent_equal_map by metis
qed

lemma sort_expressions_perm:
  assumes "mset es = mset es'" and "\<not> adjacent_equal (map ne_valueKey (sort_expressions es))"
  shows "sort_expressions es' = sort_expressions es"
proof (rule map_inj_on [where f = expression_key])
  have m: "mset (map expression_key (sort_expressions es')) = mset (map expression_key (sort_expressions es))"
    using assms(1) by (simp only: mset_map sort_expressions_props)
  show "map expression_key (sort_expressions es') = map expression_key (sort_expressions es)"
    using properties_for_sort [OF m sort_expressions_sorted] sorted_sort_id [OF sort_expressions_sorted, of es]
    by (simp only:)
  have "inj_on expression_key (set (sort_expressions es))"
    using sort_expressions_distinct [OF assms(2)] by (simp only: distinct_map)
  moreover have "set es' = set es" using assms(1) by (metis set_mset_mset)
  ultimately show "inj_on expression_key (set (sort_expressions es') \<union> set (sort_expressions es))"
    by simp
qed

section \<open>Normal forms\<close>

lemma combine_expressions_Inr:
  "combine_expressions hash f es = Inr e \<longleftrightarrow>
     \<not> adjacent_equal (map ne_valueKey (sort_expressions es)) \<and>
     e = \<lparr>ne_filter = Filter (f_Representation f) (f_Kind f) (f_Field f) (f_Operator f) (f_Values f)
            (map ne_filter (sort_expressions es)),
          ne_shapeKey = aggregateGroupDigest hash shape_domain (f_Kind f) (f_Operator f)
            (map ne_shapeKey (sort_expressions es)),
          ne_valueKey = aggregateGroupDigest hash value_domain (f_Kind f) (f_Operator f)
            (map ne_valueKey (sort_expressions es))\<rparr>"
  by (auto simp: combine_expressions_def Let_def)

lemma combine_expressions_perm:
  "mset es = mset es' \<Longrightarrow> combine_expressions hash f es = Inr e \<Longrightarrow> combine_expressions hash f es' = Inr e"
  unfolding combine_expressions_Inr by (metis sort_expressions_perm)

text \<open>Two filters that differ in the order of the operands of their groups only.\<close>

inductive same_operands :: "Filter \<Rightarrow> Filter \<Rightarrow> bool" where
  same_refl: "same_operands f f"
| same_group: "kind \<noteq> ''predicate'' \<Longrightarrow> list_all2 same_operands exprs exprs' \<Longrightarrow> mset exprs' = mset exprs'' \<Longrightarrow>
    same_operands (Filter rep kind field op vals exprs) (Filter rep kind field op vals exprs'')"

lemma normalize_predicate_Inr:
  "normalizeAggregateFilterNode hash ci (Filter rep ''predicate'' field op vals exprs) = Inr e \<longleftrightarrow>
     (\<exists>buffer. let p = Filter rep ''predicate'' (canonicalIdentifier field ci) op (cloneTypedValues vals) [] in
        write_bound_values (writeFilterDigestBytes (writeFilterDigestString [] value_domain)
          (AggregateFilterShapeDigest hash p)) (f_values p) = Inr buffer \<and>
        e = \<lparr>ne_filter = p, ne_shapeKey = AggregateFilterShapeDigest hash p, ne_valueKey = hash buffer\<rparr>)"
  by (auto simp: aggregatePredicateDigests_def finishFilterDigest_def Let_def)

lemma normalize_group_Inr:
  assumes "kind \<noteq> ''predicate''"
  shows "normalizeAggregateFilterNode hash ci (Filter rep kind field op vals exprs) = Inr e \<longleftrightarrow>
     (\<exists>es. list_all2 (\<lambda>x y. normalizeAggregateFilterNode hash ci x = Inr y) exprs es \<and>
        combine_expressions hash (Filter rep kind field op (cloneTypedValues vals) []) es = Inr e)"
  using assms by (simp add: sequence_results_list_all2)

lemma normalize_same_operands:
  "same_operands f g \<Longrightarrow> normalizeAggregateFilterNode hash ci f = Inr e \<Longrightarrow>
     normalizeAggregateFilterNode hash ci g = Inr e"
proof (induction arbitrary: e rule: same_operands.induct)
  case (same_group kind exprs exprs' exprs'' rep field op vals)
  from same_group.prems same_group.hyps(1) obtain es
    where es: "list_all2 (\<lambda>x y. normalizeAggregateFilterNode hash ci x = Inr y) exprs es"
      and e: "combine_expressions hash (Filter rep kind field op (cloneTypedValues vals) []) es = Inr e"
    unfolding normalize_group_Inr [OF same_group.hyps(1)] by blast
  have es': "list_all2 (\<lambda>x y. normalizeAggregateFilterNode hash ci x = Inr y) exprs' es"
    using es same_group.IH by (fastforce simp: list_all2_conv_all_nth)
  obtain es'' where "list_all2 (\<lambda>x y. normalizeAggregateFilterNode hash ci x = Inr y) exprs'' es''"
    and "mset es'' = mset es"
    using list_all2_reorder_left_invariance [OF es'] same_group.hyps(2) by (metis (no_types, lifting))
  with e show ?case
    unfolding normalize_group_Inr [OF same_group.hyps(1)] using combine_expressions_perm by metis
qed

lemma ne_shapeKey_correct:
  "normalizeAggregateFilterNode hash ci f = Inr e \<Longrightarrow> ne_shapeKey e = AggregateFilterShapeDigest hash (ne_filter e)"
proof (induction hash ci f arbitrary: e rule: normalizeAggregateFilterNode.induct)
  case (1 hash ci rep kind field op vals exprs)
  show ?case
  proof (cases "kind = ''predicate''")
    case True
    with "1.prems" show ?thesis using normalize_predicate_Inr by (fastforce simp: Let_def)
  next
    case False
    with "1.prems" obtain es
      where es: "list_all2 (\<lambda>x y. normalizeAggregateFilterNode hash ci x = Inr y) exprs es"
        and e: "combine_expressions hash (Filter rep kind field op (cloneTypedValues vals) []) es = Inr e"
      unfolding normalize_group_Inr [OF False] by blast
    have "ne_shapeKey y = AggregateFilterShapeDigest hash (ne_filter y)" if y: "y \<in> set es" for y
    proof -
      obtain x where "x \<in> set exprs" "normalizeAggregateFilterNode hash ci x = Inr y"
        using list_all2_from_right [OF es y] by blast
      with "1.IH" False show ?thesis by blast
    qed
    then have "map ne_shapeKey (sort_expressions es) =
        map (\<lambda>y. AggregateFilterShapeDigest hash (ne_filter y)) (sort_expressions es)"
      by simp
    with e False sorted_sort_id [OF sort_expressions_shapes, of es] show ?thesis
      by (auto simp: combine_expressions_Inr comp_def)
  qed
qed

lemma canonicalIdentifier_idem [simp]: "canonicalIdentifier (canonicalIdentifier s ci) ci = canonicalIdentifier s ci"
  by (simp add: canonicalIdentifier_def)

lemma IsIdentifier_canonical [simp]: "IsIdentifier (canonicalIdentifier s ci) = IsIdentifier s"
  by (simp add: canonicalIdentifier_def)

lemma cloneTypedValues_idem [simp]: "cloneTypedValues (cloneTypedValues vals) = cloneTypedValues vals"
  by (cases vals) (auto simp: cloneTypedValues_def cloneTypedValue_def split: option.splits list.splits)

text \<open>The relation between a filter and its normal form, node by node.\<close>

lemma normalize_cases:
  assumes "normalizeAggregateFilterNode hash ci f = Inr e"
  obtains (predicate) rep field op vals exprs where "f = Filter rep ''predicate'' field op vals exprs"
      "ne_filter e = Filter rep ''predicate'' (canonicalIdentifier field ci) op (cloneTypedValues vals) []"
  | (group) rep kind field op vals exprs es where "f = Filter rep kind field op vals exprs" "kind \<noteq> ''predicate''"
      "list_all2 (\<lambda>x y. normalizeAggregateFilterNode hash ci x = Inr y) exprs es"
      "combine_expressions hash (Filter rep kind field op (cloneTypedValues vals) []) es = Inr e"
proof (cases f)
  case (Filter rep kind field op vals exprs)
  show thesis
  proof (cases "kind = ''predicate''")
    case True
    with assms Filter normalize_predicate_Inr [of hash ci rep field op vals exprs e] show thesis
      by (auto simp: Let_def intro: predicate)
  next
    case False
    with assms Filter show thesis
      using normalize_group_Inr [OF False] by (auto intro: group)
  qed
qed

lemma normalize_idem:
  "normalizeAggregateFilterNode hash ci f = Inr e \<Longrightarrow> normalizeAggregateFilterNode hash ci (ne_filter e) = Inr e"
proof (induction hash ci f arbitrary: e rule: normalizeAggregateFilterNode.induct)
  case (1 hash ci rep kind field op vals exprs)
  show ?case
  proof (cases "kind = ''predicate''")
    case True
    with "1.prems" show ?thesis
      unfolding normalize_predicate_Inr by (auto simp: normalize_predicate_Inr Let_def simp del: normalizeAggregateFilterNode.simps)
  next
    case False
    with "1.prems" obtain es
      where es: "list_all2 (\<lambda>x y. normalizeAggregateFilterNode hash ci x = Inr y) exprs es"
        and e: "combine_expressions hash (Filter rep kind field op (cloneTypedValues vals) []) es = Inr e"
      unfolding normalize_group_Inr [OF False] by blast
    have fix_es: "normalizeAggregateFilterNode hash ci (ne_filter y) = Inr y" if y: "y \<in> set es" for y
    proof -
      obtain x where "x \<in> set exprs" "normalizeAggregateFilterNode hash ci x = Inr y"
        using list_all2_from_right [OF es y] by blast
      with "1.IH" False show ?thesis by blast
    qed
    then have "list_all2 (\<lambda>x y. normalizeAggregateFilterNode hash ci x = Inr y)
        (map ne_filter (sort_expressions es)) (sort_expressions es)"
      by (auto simp: list_all2_map1 intro: list.rel_refl_strong)
    moreover have "sort_expressions (sort_expressions es) = sort_expressions es"
      unfolding sort_expressions_def by (rule sort_key_id_if_sorted) simp
    ultimately show ?thesis
      using e unfolding combine_expressions_Inr
      by (auto simp: normalize_group_Inr [OF False] combine_expressions_Inr simp del: normalizeAggregateFilterNode.simps)
  qed
qed

lemma foldr_max_Max: "foldr max xs (0 :: nat) = Max (insert 0 (set xs))"
  by (induction xs) (simp_all add: insert_commute max.left_commute max.commute)

lemma foldr_max_sort_expressions:
  "foldr max (map g (sort_expressions es)) (0 :: nat) = foldr max (map g es) 0"
  by (simp add: foldr_max_Max)

lemma sum_list_sort_expressions: "sum_list (map g (sort_expressions es)) = (sum_list (map g es) :: nat)"
  by (metis mset_map sort_expressions_props(1) sum_mset_sum_list)

definition same_counts :: "Filter \<Rightarrow> Filter \<Rightarrow> bool" where
  "same_counts f g \<longleftrightarrow>
     filter_predicates g = filter_predicates f \<and> filter_depth g = filter_depth f \<and>
     filter_parameters g = filter_parameters f"

lemma cloneTypedValues_valid:
  "\<forall>v \<in> set vs. valid_value rep v \<Longrightarrow> cloneTypedValues (Some vs) = Some vs"
  by (auto simp: cloneTypedValues_def intro!: map_idI intro: cloneTypedValue_valid)

lemma normalize_wf:
  "wf_filter f \<Longrightarrow> normalizeAggregateFilterNode hash ci f = Inr e \<Longrightarrow> wf_filter (ne_filter e) \<and> same_counts f (ne_filter e)"
proof (induction hash ci f arbitrary: e rule: normalizeAggregateFilterNode.induct)
  case (1 hash ci rep kind field op vals exprs)
  from "1.prems"(2) show ?case
  proof (cases rule: normalize_cases)
    case predicate
    with "1.prems"(1) show ?thesis
      by (cases vals) (auto simp: same_counts_def cloneTypedValues_valid)
  next
    case (group rep' kind' field' op' vals' exprs' es)
    have wf: "\<forall>x \<in> set exprs. wf_filter x" and len: "length es = length exprs"
      using group "1.prems"(1) by (auto dest: list_all2_lengthD)
    have IH: "wf_filter (ne_filter y) \<and> same_counts x (ne_filter y)"
      if "x \<in> set exprs" "normalizeAggregateFilterNode hash ci x = Inr y" for x y
      using "1.IH" that wf group(1,2) by auto
    have all2: "list_all2 (\<lambda>x y. wf_filter (ne_filter y) \<and> same_counts x (ne_filter y)) exprs es"
      using group(1,3) IH by (auto intro: list.rel_mono_strong)
    then have all_wf: "\<forall>y \<in> set es. wf_filter (ne_filter y)"
      using list_all2_from_right by fastforce
    have "map filter_predicates exprs = map (\<lambda>y. filter_predicates (ne_filter y)) es"
      "map filter_parameters exprs = map (\<lambda>y. filter_parameters (ne_filter y)) es"
      "map filter_depth exprs = map (\<lambda>y. filter_depth (ne_filter y)) es"
      using all2 by (auto intro!: list_all2_map_eq elim!: list.rel_mono_strong simp: same_counts_def)
    with group "1.prems"(1) all_wf len show ?thesis
      by (auto simp: combine_expressions_Inr same_counts_def comp_def sum_list_sort_expressions
          foldr_max_sort_expressions cloneTypedValues_def)
  qed
qed

section \<open>A sample filter\<close>

definition null_test :: "string \<Rightarrow> Filter" where
  "null_test field = Filter [] ''predicate'' field ''is_null'' (Some []) []"

definition either_of :: "Filter \<Rightarrow> Filter \<Rightarrow> Filter" where
  "either_of a b = Filter [] ''group'' [] ''or'' None [a, b]"

lemma either_of_normalizes:
  assumes "normalizeAggregateFilterNode hash ci a = Inr x" "normalizeAggregateFilterNode hash ci b = Inr y"
    "ne_valueKey x \<noteq> ne_valueKey y"
  shows "\<exists>e. normalizeAggregateFilterNode hash ci (either_of a b) = Inr e"
  using assms by (auto simp: either_of_def combine_expressions_Inr sort_expressions_def)

lemma null_test_normalizes:
  "normalizeAggregateFilterNode (\<lambda>s. s) False (null_test field) =
     Inr \<lparr>ne_filter = null_test field, ne_shapeKey = predicate_shape_text [] ''predicate'' field ''is_null'' [],
       ne_valueKey = writeFilterDigestBytes (writeFilterDigestString [] value_domain)
         (predicate_shape_text [] ''predicate'' field ''is_null'' [])\<rparr>"
  by (simp add: null_test_def canonicalIdentifier_def cloneTypedValues_def aggregatePredicateDigests_def
    finishFilterDigest_def f_values_def Let_def)

lemma sample_normalizes:
  "\<exists>e. normalizeAggregateFilterNode (\<lambda>s. s) False (either_of (null_test ''b'') (null_test ''a'')) = Inr e"
  by (rule either_of_normalizes [OF null_test_normalizes null_test_normalizes])
    (simp add: writeFilterDigestBytes_def writeFilterDigestString_def writeFilterDigestUint64_def
      predicate_shape_text_def)

lemma either_of_swap: "same_operands (either_of a b) (either_of b a)"
  unfolding either_of_def by (rule same_group [where exprs' = "[a, b]"]) (auto intro: same_refl)

section \<open>Properties\<close>

text \<open>
  C33: normalising a filter forgets the order in which the client wrote the operands of the groups, at
  every level: two filters that differ in that order only have the same normal form and the same
  shape and value keys.
\<close>

theorem normalization_forgets_order:
  assumes "same_operands f g" and "normalizeAggregateFilterNode hash ci f = Inr e"
  shows "normalizeAggregateFilterNode hash ci g = Inr e"
  using assms by (rule normalize_same_operands)

theorem normalization_forgets_order_witness:
  "\<exists>e. normalizeAggregateFilterNode (\<lambda>s. s) False (either_of (null_test ''b'') (null_test ''a'')) = Inr e \<and>
       normalizeAggregateFilterNode (\<lambda>s. s) False (either_of (null_test ''a'') (null_test ''b'')) = Inr e"
  using sample_normalizes normalization_forgets_order [OF either_of_swap] by blast

text \<open>
  A normalised filter is a fixed point of normalisation, stays well formed with the same number of
  predicates, bind values and levels, and its cached shape key is the digest \<open>AggregateFilterShapeDigest\<close>
  recomputes from it.
\<close>

theorem normal_forms_are_stable:
  assumes "wf_filter f" and "normalizeAggregateFilterNode hash ci f = Inr e"
  shows "normalizeAggregateFilterNode hash ci (ne_filter e) = Inr e \<and>
    wf_filter (ne_filter e) \<and> same_counts f (ne_filter e) \<and>
    ne_shapeKey e = AggregateFilterShapeDigest hash (ne_filter e)"
  using assms normalize_idem normalize_wf ne_shapeKey_correct by blast

theorem normal_forms_are_stable_witness:
  "\<exists>e. normalizeAggregateFilterNode (\<lambda>s. s) False (either_of (null_test ''b'') (null_test ''a'')) = Inr e \<and>
       normalizeAggregateFilterNode (\<lambda>s. s) False (ne_filter e) = Inr e"
proof -
  have "wf_filter (either_of (null_test ''b'') (null_test ''a''))" by code_simp
  then show ?thesis using sample_normalizes normal_forms_are_stable by blast
qed


end
