(* ===== verification/Aggregate_Normalize.thy ===== *)
theory Aggregate_Normalize
  imports Aggregate_Query Filter_Digest
begin

text \<open>
  The second half of \<^verbatim>\<open>internal/queryspec/aggregate.go\<close>, with \<^verbatim>\<open>numeric_bucket.go\<close> and the aggregate part of
  \<^verbatim>\<open>representation.go\<close>: the normalisation of identifiers under the datasource's case rules, the shape hash,
  the fields a query refers to, and the parameters its numeric buckets bind.
\<close>

section \<open>\<open>NormalizeAggregateIdentifiers\<close>\<close>

definition normalizeOutput :: "IdentifierSemantics \<Rightarrow> AggregateOutput \<Rightarrow> AggregateOutput" where
  "normalizeOutput sem out =
     out\<lparr>ao_Field := canonicalIdentifier (ao_Field out) (CaseInsensitiveFields sem),
         ao_Alias := canonicalIdentifier (ao_Alias out) True\<rparr>"

text \<open>The loop over the normalised projection with the fields of time buckets and the names seen.\<close>

fun normalizedOutputsError :: "string list \<Rightarrow> string list \<Rightarrow> AggregateOutput list \<Rightarrow> ValidationError option" where
  "normalizedOutputsError names buckets [] = None"
| "normalizedOutputsError names buckets (out # outs) = first_error [
     fail_if (ao_Kind out = ''time_bucket'' \<and> ao_Field out \<in> set buckets)
       (validationError ''query.projection'' (Message ''contains repeated normalized time-bucket source fields'')),
     fail_if (output_name out \<in> set names)
       (validationError ''query.projection'' (Message ''contains colliding output names'')),
     normalizedOutputsError (output_name out # names)
       (if ao_Kind out = ''time_bucket'' then ao_Field out # buckets else buckets) outs]"

text \<open>
  The maps the loop fills: the representation of each dimension and the names of the outputs of one
  kind. The last write wins, as in a Go map.
\<close>

definition dimension_representation :: "AggregateOutput list \<Rightarrow> string \<Rightarrow> Representation option" where
  "dimension_representation outs name =
     map_of (rev (map (\<lambda>out. (ao_Field out, ao_Representation out))
       (filter (\<lambda>out. ao_Kind out \<notin> set [''measure'', ''numeric_bucket'', ''time_bucket'']) outs))) name"

definition aliases_of_kind :: "string \<Rightarrow> AggregateOutput list \<Rightarrow> string list" where
  "aliases_of_kind kind outs = map ao_Alias (filter (\<lambda>out. ao_Kind out = kind) outs)"

definition normalizeSort :: "IdentifierSemantics \<Rightarrow> AggregateSort \<Rightarrow> AggregateSort" where
  "normalizeSort sem order =
     (if as_Kind order = ''dimension''
      then order\<lparr>as_Field := canonicalIdentifier (as_Field order) (CaseInsensitiveFields sem)\<rparr>
      else order\<lparr>as_Alias := canonicalIdentifier (as_Alias order) True\<rparr>)"

definition sort_target :: "AggregateSort \<Rightarrow> string" where
  "sort_target order =
     (if as_Kind order = ''dimension'' then ''dimension:'' @ as_Field order
      else if as_Kind order = ''measure'' then ''measure:'' @ as_Alias order
      else if as_Kind order = ''numeric_bucket'' then ''numeric_bucket:'' @ as_Alias order
      else ''time_bucket:'' @ as_Alias order)"

definition normalizedSortError :: "AggregateOutput list \<Rightarrow> nat \<Rightarrow> AggregateSort \<Rightarrow> ValidationError option" where
  "normalizedSortError outs i order =
     (let path = index_path ''query.order_by'' i in
      if as_Kind order = ''dimension'' then
        fail_if (dimension_representation outs (as_Field order) \<noteq> Some (as_Representation order))
          (validationError (sub_path path ''field'') (Message ''must reference one projected dimension''))
      else if as_Kind order = ''measure'' then
        fail_if (as_Alias order \<notin> set (aliases_of_kind ''measure'' outs))
          (validationError (sub_path path ''alias'') (Message ''must reference one projected measure''))
      else if as_Kind order = ''numeric_bucket'' then
        fail_if (as_Alias order \<notin> set (aliases_of_kind ''numeric_bucket'' outs))
          (validationError (sub_path path ''alias'') (Message ''must reference one projected numeric bucket''))
      else
        fail_if (as_Alias order \<notin> set (aliases_of_kind ''time_bucket'' outs))
          (validationError (sub_path path ''alias'') (Message ''must reference one projected time bucket'')))"

fun normalizedSortsError ::
  "AggregateOutput list \<Rightarrow> nat \<Rightarrow> string list \<Rightarrow> AggregateSort list \<Rightarrow> ValidationError option" where
  "normalizedSortsError outs i seen [] = None"
| "normalizedSortsError outs i seen (order # orders) = first_error [
     normalizedSortError outs i order,
     fail_if (sort_target order \<in> set seen)
       (validationError ''query.order_by'' (Message ''contains repeated normalized targets'')),
     normalizedSortsError outs (Suc i) (sort_target order # seen) orders]"

definition normalizeOptionalFilter ::
  "(string \<Rightarrow> digest) \<Rightarrow> Filter option \<Rightarrow> bool \<Rightarrow> ValidationError + Filter option" where
  "normalizeOptionalFilter hash f insensitive =
     (case f of
        None \<Rightarrow> Inr None
      | Some f \<Rightarrow> bind_result (normalizeAggregateFilter hash f insensitive) (\<lambda>f'. Inr (Some f')))"

definition normalizeSource :: "IdentifierSemantics \<Rightarrow> ResourceRef \<Rightarrow> ResourceRef" where
  "normalizeSource sem src =
     \<lparr>ref_Schema = canonicalIdentifier (ref_Schema src) (CaseInsensitiveSchemas sem),
      ref_Name = canonicalIdentifier (ref_Name src) (CaseInsensitiveObjects sem)\<rparr>"

definition NormalizeAggregateIdentifiers ::
  "(string \<Rightarrow> digest) \<Rightarrow> ValidatedAggregate \<Rightarrow> IdentifierSemantics \<Rightarrow> ValidationError + ValidatedAggregate" where
  "NormalizeAggregateIdentifiers hash query sem =
     (let spec = cloneNormalizedAggregate (va_spec query);
          projection = map (normalizeOutput sem) (na_Projection spec);
          orders = map (normalizeSort sem) (na_OrderBy spec) in
      check (first_error [
        fail_if (\<not> va_valid query) (validationError ''query'' NotValidated),
        normalizedOutputsError [] [] projection])
      (bind_result (normalizeOptionalFilter hash (na_Filter spec) (CaseInsensitiveFields sem)) (\<lambda>f.
       check (normalizedSortsError projection 0 [] orders)
       (Inr \<lparr>va_spec = spec\<lparr>na_Source := normalizeSource sem (na_Source spec), na_Projection := projection,
                na_Filter := f, na_OrderBy := orders\<rparr>,
             va_stats = va_stats query, va_valid = True\<rparr>))))"

section \<open>Shape hash and referenced fields\<close>

definition marshal_AggregateOutput :: "AggregateOutput \<Rightarrow> string" where
  "marshal_AggregateOutput out = json_object (
     string_omit_empty ''representation'' (ao_Representation out) @ [(''kind'', json_quote (ao_Kind out))] @
     string_omit_empty ''field'' (ao_Field out) @ string_omit_empty ''function'' (ao_Function out) @
     string_omit_empty ''alias'' (ao_Alias out) @ string_omit_empty ''unit'' (ao_Unit out) @
     string_omit_empty ''timezone'' (ao_Timezone out))"

definition marshal_AggregateSort :: "AggregateSort \<Rightarrow> string" where
  "marshal_AggregateSort order = json_object (
     string_omit_empty ''representation'' (as_Representation order) @ [(''kind'', json_quote (as_Kind order))] @
     string_omit_empty ''field'' (as_Field order) @ string_omit_empty ''alias'' (as_Alias order) @
     [(''direction'', json_quote (as_Direction order))])"

definition AggregateShapeHash :: "NormalizedAggregateSpec \<Rightarrow> string" where
  "AggregateShapeHash spec =
     hex_encode (sha256 (json_object (
       [(''mode'', json_quote (na_Mode spec)), (''source'', marshal_ResourceRef (na_Source spec)),
        (''projection'', json_slice (map marshal_AggregateOutput (na_Projection spec)))] @
       marshal_optional_filterShape (map_option shapeFilter (na_Filter spec)) @
       omit_empty (na_OrderBy spec = []) ''order_by'' (json_array (map marshal_AggregateSort (na_OrderBy spec))) @
       omit_empty (na_Limit spec = 0) ''limit'' (itoa_int (na_Limit spec)))))"

fun collectAggregateFilterFields :: "Filter \<Rightarrow> string list" where
  "collectAggregateFilterFields (Filter rep kind field op vals exprs) =
     (if kind = ''predicate'' then [field] else concat (map collectAggregateFilterFields exprs))"

definition optional_filter_fields :: "Filter option \<Rightarrow> string list" where
  "optional_filter_fields f = (case f of None \<Rightarrow> [] | Some f \<Rightarrow> collectAggregateFilterFields f)"

text \<open>A Go map used as a set, listed and sorted.\<close>

definition AggregateReferencedFields :: "NormalizedAggregateSpec \<Rightarrow> string list" where
  "AggregateReferencedFields spec =
     sort (remdups (filter (\<lambda>field. field \<noteq> []) (map ao_Field (na_Projection spec))
       @ optional_filter_fields (na_Filter spec)))"

definition AggregateUsesTimeBucket :: "NormalizedAggregateSpec \<Rightarrow> bool" where
  "AggregateUsesTimeBucket spec \<longleftrightarrow> list_ex (\<lambda>out. ao_Kind out = ''time_bucket'') (na_Projection spec)"

definition AggregateUsesNumericBucket :: "NormalizedAggregateSpec \<Rightarrow> bool" where
  "AggregateUsesNumericBucket spec \<longleftrightarrow> list_ex (\<lambda>out. ao_Kind out = ''numeric_bucket'') (na_Projection spec)"

definition AggregateUsesSourceText :: "NormalizedAggregateSpec \<Rightarrow> bool" where
  "AggregateUsesSourceText spec \<longleftrightarrow>
     list_ex (\<lambda>out. ao_Representation out = RepresentationSourceText) (na_Projection spec) \<or>
     list_ex (\<lambda>order. as_Representation order = RepresentationSourceText) (na_OrderBy spec) \<or>
     optional_filter_uses_source_text (na_Filter spec)"

section \<open>Numeric buckets\<close>

definition NumericBucketMaxBoundaries :: int where "NumericBucketMaxBoundaries = 64"
definition NumericBucketMaxBoundaryBytes :: nat where "NumericBucketMaxBoundaryBytes = 128"

datatype bucket_error =
    BucketBoundaryCount | BucketBoundaryText | BucketBoundaryOrder | BucketBoundariesMissing
  | BucketParameterLimit

text \<open>
  \<open>big.Rat.SetString\<close> on a fixed-point decimal, as a numerator over a power of ten, and \<open>Cmp\<close> of two of
  them.
\<close>

definition fixed_point :: "string \<Rightarrow> int \<times> nat" where
  "fixed_point s =
     (let (negative, t) = strip_minus s; (integer, fraction) = cut_or_all (CHR ''.'') t;
          fr = (case fraction of None \<Rightarrow> [] | Some f \<Rightarrow> f);
          n = int (dec_value (integer @ fr))
      in (if negative then - n else n, length fr))"

definition fixed_less :: "int \<times> nat \<Rightarrow> int \<times> nat \<Rightarrow> bool" where
  "fixed_less a b \<longleftrightarrow> fst a * 10 ^ snd b < fst b * 10 ^ snd a"

definition trim_right :: "char \<Rightarrow> string \<Rightarrow> string" where
  "trim_right c s = rev (dropWhile (\<lambda>d. d = c) (rev s))"

definition canonical_boundary :: "string \<Rightarrow> string" where
  "canonical_boundary s =
     (if fst (fixed_point s) = 0 then ''0''
      else if CHR ''.'' \<in> set s then trim_right (CHR ''.'') (trim_right (CHR ''0'') s) else s)"

fun normalize_boundaries :: "(int \<times> nat) option \<Rightarrow> string list \<Rightarrow> bucket_error + string list" where
  "normalize_boundaries previous [] = Inr []"
| "normalize_boundaries previous (s # ss) =
     check (first_error [
       fail_if (length s > NumericBucketMaxBoundaryBytes \<or> \<not> decimalPattern s) BucketBoundaryText,
       fail_if (\<exists>p \<in> set_option previous. \<not> fixed_less p (fixed_point s)) BucketBoundaryOrder])
     (bind_result (normalize_boundaries (Some (fixed_point s)) ss) (\<lambda>rest. Inr (canonical_boundary s # rest)))"

definition NormalizeNumericBoundaries :: "string list \<Rightarrow> bucket_error + string list" where
  "NormalizeNumericBoundaries boundaries =
     check (fail_if (length boundaries < 1 \<or> int (length boundaries) > NumericBucketMaxBoundaries) BucketBoundaryCount)
       (normalize_boundaries None boundaries)"

text \<open>
  A lookup in a Go map of counts returns 0 for a missing key, so the map is a total function here. The
  difference \<open>maximum - total\<close> is never negative, where Go's division and \<open>div\<close> agree.
\<close>

definition bucket_repeats :: "AggregateSort list \<Rightarrow> AggregateOutput \<Rightarrow> int" where
  "bucket_repeats orders out =
     2 + int (length (filter (\<lambda>order. as_Kind order = ''numeric_bucket'' \<and> EqualFold (as_Alias order) (ao_Alias out)) orders))"

fun numeric_bucket_loop ::
  "AggregateSort list \<Rightarrow> (string \<Rightarrow> int) \<Rightarrow> int \<Rightarrow> int \<Rightarrow> AggregateOutput list \<Rightarrow> bucket_error + int" where
  "numeric_bucket_loop orders counts maximum tot [] = Inr tot"
| "numeric_bucket_loop orders counts maximum tot (out # outs) =
     (if ao_Kind out \<noteq> ''numeric_bucket'' then numeric_bucket_loop orders counts maximum tot outs
      else
        let n = counts (ToLower (ao_Alias out)); repeats = bucket_repeats orders out in
        check (first_error [
          fail_if (n < 1 \<or> n > NumericBucketMaxBoundaries) BucketBoundariesMissing,
          fail_if (n > (maximum - tot) div repeats) BucketParameterLimit])
        (numeric_bucket_loop orders counts maximum (tot + n * repeats) outs))"

definition NumericBucketParameters ::
  "NormalizedAggregateSpec \<Rightarrow> (string \<Rightarrow> int) \<Rightarrow> int \<Rightarrow> int \<Rightarrow> bucket_error + int" where
  "NumericBucketParameters spec counts base maximum =
     check (fail_if (base > maximum) BucketParameterLimit)
       (numeric_bucket_loop (na_OrderBy spec) counts maximum base (na_Projection spec))"

section \<open>Counting the parameters of numeric buckets\<close>

definition numeric_outputs :: "AggregateOutput list \<Rightarrow> AggregateOutput list" where
  "numeric_outputs outs = filter (\<lambda>out. ao_Kind out = ''numeric_bucket'') outs"

definition bucket_parameters :: "AggregateSort list \<Rightarrow> (string \<Rightarrow> int) \<Rightarrow> AggregateOutput \<Rightarrow> int" where
  "bucket_parameters orders counts out = counts (ToLower (ao_Alias out)) * bucket_repeats orders out"

lemma bucket_repeats_pos: "0 < bucket_repeats orders out"
  by (simp add: bucket_repeats_def)

lemma div_budget:
  assumes "0 < r"
  shows "n \<le> (maximum - t) div r \<longleftrightarrow> t + n * r \<le> (maximum :: int)"
proof
  assume "n \<le> (maximum - t) div r"
  then have "n * r \<le> (maximum - t) div r * r" using assms by (intro mult_right_mono) simp_all
  also have "\<dots> \<le> maximum - t" 
    using div_mult_mod_eq [of "maximum - t" r] pos_mod_sign [OF assms, of "maximum - t"] by linarith
  finally show "t + n * r \<le> maximum" by simp
next
  assume "t + n * r \<le> maximum"
  then have "n * r div r \<le> (maximum - t) div r" using assms by (intro zdiv_mono1) simp_all
  then show "n \<le> (maximum - t) div r" using assms by simp
qed

lemma numeric_bucket_loop_Inr:
  "numeric_bucket_loop orders counts maximum t outs = Inr u \<longleftrightarrow>
     (\<forall>out \<in> set (numeric_outputs outs). 1 \<le> counts (ToLower (ao_Alias out)) \<and>
        counts (ToLower (ao_Alias out)) \<le> NumericBucketMaxBoundaries) \<and>
     u = t + sum_list (map (bucket_parameters orders counts) (numeric_outputs outs)) \<and>
     (numeric_outputs outs = [] \<or> u \<le> maximum)"
proof (induction outs arbitrary: t)
  case Nil
  show ?case by (auto simp: numeric_outputs_def)
next
  case (Cons out outs)
  show ?case
  proof (cases "ao_Kind out = ''numeric_bucket''")
    case False
    then have "numeric_outputs (out # outs) = numeric_outputs outs" by (simp add: numeric_outputs_def)
    with False Cons.IH show ?thesis by simp
  next
    case True
    let ?n = "counts (ToLower (ao_Alias out))" and ?r = "bucket_repeats orders out"
    let ?rest = "sum_list (map (bucket_parameters orders counts) (numeric_outputs outs))"
    have ns: "numeric_outputs (out # outs) = out # numeric_outputs outs" using True by (simp add: numeric_outputs_def)
    have rest: "0 \<le> ?rest" if "\<forall>o' \<in> set (numeric_outputs outs). 1 \<le> counts (ToLower (ao_Alias o'))"
      using that bucket_repeats_pos by (intro sum_list_nonneg) (auto simp: bucket_parameters_def less_imp_le)
    have own: "bucket_parameters orders counts out = ?n * ?r" by (simp add: bucket_parameters_def)
    have "numeric_outputs outs = [] \<Longrightarrow> ?rest = 0" by simp
    with True rest show ?thesis
      using div_budget [OF bucket_repeats_pos, of ?n maximum t orders out]
      unfolding ns by (auto simp: Cons.IH Let_def own not_less)
  qed
qed

lemma NumericBucketParameters_Inr:
  "NumericBucketParameters spec counts base maximum = Inr u \<longleftrightarrow>
     (\<forall>out \<in> set (numeric_outputs (na_Projection spec)). 1 \<le> counts (ToLower (ao_Alias out)) \<and>
        counts (ToLower (ao_Alias out)) \<le> NumericBucketMaxBoundaries) \<and>
     u = base + sum_list (map (bucket_parameters (na_OrderBy spec) counts) (numeric_outputs (na_Projection spec))) \<and>
     base \<le> maximum \<and> u \<le> maximum"
  by (auto simp: NumericBucketParameters_def numeric_bucket_loop_Inr)

section \<open>What normalisation keeps\<close>

lemma normalizedOutputsError_None:
  "normalizedOutputsError names buckets outs = None \<longleftrightarrow>
     distinct (map output_name outs) \<and> set (map output_name outs) \<inter> set names = {} \<and>
     distinct (bucket_fields outs) \<and> set (bucket_fields outs) \<inter> set buckets = {}"
  by (induction outs arbitrary: names buckets) auto

lemma normalizedSortsError_None:
  "normalizedSortsError outs i seen orders = None \<longleftrightarrow>
     (\<forall>order \<in> set orders. normalizedSortError outs 0 order = None) \<and>
     distinct (map sort_target orders) \<and> set (map sort_target orders) \<inter> set seen = {}"
proof (induction orders arbitrary: i seen)
  case (Cons order orders)
  have "normalizedSortError outs i order = None \<longleftrightarrow> normalizedSortError outs 0 order = None"
    by (auto simp: normalizedSortError_def Let_def)
  with Cons show ?case by auto
qed simp

lemma normalizeOutput_sel [simp]:
  "ao_Kind (normalizeOutput sem out) = ao_Kind out"
  "ao_Representation (normalizeOutput sem out) = ao_Representation out"
  "is_dimension (normalizeOutput sem out) = is_dimension out"
  "normalizeOutput sem (normalizeOutput sem out) = normalizeOutput sem out"
  by (simp_all add: normalizeOutput_def is_dimension_def)

lemma normalizeSort_idem [simp]: "normalizeSort sem (normalizeSort sem order) = normalizeSort sem order"
  by (simp add: normalizeSort_def)

lemma normalizeSource_idem [simp]: "normalizeSource sem (normalizeSource sem src) = normalizeSource sem src"
  by (simp add: normalizeSource_def)

lemma dimension_count_normalize [simp]:
  "dimension_count (map (normalizeOutput sem) outs) = dimension_count outs"
  by (simp add: dimension_count_def filter_map comp_def)

lemma normalizeOptionalFilter_wf:
  assumes "\<forall>f \<in> set_option fo. wf_filter f" "normalizeOptionalFilter hash fo ci = Inr fo'"
  shows "(\<forall>f \<in> set_option fo'. wf_filter f) \<and> (\<forall>n. filter_stats fo' n = filter_stats fo n) \<and>
    normalizeOptionalFilter hash fo' ci = Inr fo'"
proof (cases fo)
  case (Some f)
  with assms obtain e where e: "normalizeAggregateFilterNode hash ci f = Inr e" "fo' = Some (ne_filter e)"
    by (auto simp: normalizeOptionalFilter_def normalizeAggregateFilter_def)
  with Some assms(1) normalize_wf [of f hash ci e] normalize_idem [of hash ci f e] show ?thesis
    by (simp add: same_counts_def filter_stats_def normalizeOptionalFilter_def normalizeAggregateFilter_def)
qed (use assms in \<open>simp add: normalizeOptionalFilter_def\<close>)

lemma NormalizeAggregateIdentifiers_Inr:
  "NormalizeAggregateIdentifiers hash q sem = Inr r \<longleftrightarrow>
     va_valid q \<and> normalizedOutputsError [] [] (map (normalizeOutput sem) (na_Projection (va_spec q))) = None \<and>
     normalizedSortsError (map (normalizeOutput sem) (na_Projection (va_spec q))) 0 []
       (map (normalizeSort sem) (na_OrderBy (va_spec q))) = None \<and>
     (\<exists>f. normalizeOptionalFilter hash (map_option cloneFilter (na_Filter (va_spec q))) (CaseInsensitiveFields sem) = Inr f \<and>
        r = q\<lparr>va_spec := (va_spec q)\<lparr>na_Source := normalizeSource sem (na_Source (va_spec q)),
               na_Projection := map (normalizeOutput sem) (na_Projection (va_spec q)), na_Filter := f,
               na_OrderBy := map (normalizeSort sem) (na_OrderBy (va_spec q))\<rparr>\<rparr>)"
  by (cases q) (auto simp: NormalizeAggregateIdentifiers_def cloneNormalizedAggregate_def Let_def)

text \<open>
  Re-validation sees no difference between a validated query and its normal form, and normalising
  twice is normalising once.
\<close>

lemma NormalizeAggregateIdentifiers_keeps:
  assumes v: "validate_aggregate_under l spec = Inr q" and n: "NormalizeAggregateIdentifiers hash q sem = Inr r"
  shows "va_stats r = va_stats q"
    and "(\<exists>w. revalidate_aggregate_under k r = Inr w) \<longleftrightarrow> (\<exists>w. revalidate_aggregate_under k q = Inr w)"
    and "NormalizeAggregateIdentifiers hash r sem = Inr r"
proof -
  have wf: "\<forall>f \<in> set_option (na_Filter (va_spec q)). wf_filter f"
    using v by (auto simp: validate_aggregate_under_Inr normalized_aggregate_def wf_aggregate_def)
  from n obtain f where f: "normalizeOptionalFilter hash (na_Filter (va_spec q)) (CaseInsensitiveFields sem) = Inr f"
    and r: "r = q\<lparr>va_spec := (va_spec q)\<lparr>na_Source := normalizeSource sem (na_Source (va_spec q)),
               na_Projection := map (normalizeOutput sem) (na_Projection (va_spec q)), na_Filter := f,
               na_OrderBy := map (normalizeSort sem) (na_OrderBy (va_spec q))\<rparr>\<rparr>"
    unfolding NormalizeAggregateIdentifiers_Inr option_map_clone_wf [OF wf] by blast
  show "va_stats r = va_stats q" by (simp add: r)
  show "(\<exists>w. revalidate_aggregate_under k r = Inr w) \<longleftrightarrow> (\<exists>w. revalidate_aggregate_under k q = Inr w)"
    by (simp add: revalidate_aggregate_under_Inr r)
  show "NormalizeAggregateIdentifiers hash r sem = Inr r"
    using n normalizeOptionalFilter_wf [OF wf f] unfolding NormalizeAggregateIdentifiers_Inr
    by (auto simp: r option_map_clone_wf comp_def)
qed

section \<open>A sample aggregate\<close>

definition sample_output :: "string \<Rightarrow> string \<Rightarrow> string \<Rightarrow> string \<Rightarrow> AggregateOutput" where
  "sample_output kind field function alias = \<lparr>ao_Representation = [], ao_Kind = kind, ao_Field = field,
     ao_Function = function, ao_Alias = alias, ao_Unit = [], ao_Timezone = []\<rparr>"

definition sample_aggregate :: AggregateSpec where
  "sample_aggregate = \<lparr>agg_Mode = ''grouped'', agg_Source = \<lparr>ref_Schema = ''app'', ref_Name = ''Orders''\<rparr>,
     agg_Projection = [sample_output ''dimension'' ''State'' [] [], sample_output ''measure'' [] ''count_all'' ''N''],
     agg_Filter = None,
     agg_OrderBy = Some [\<lparr>as_Representation = [], as_Kind = ''measure'', as_Field = [], as_Alias = ''n'', as_Direction = ''desc''\<rparr>],
     agg_Limit = Some 10\<rparr>"

definition sample_semantics :: IdentifierSemantics where
  "sample_semantics = \<lparr>CaseInsensitiveSchemas = False, CaseInsensitiveObjects = True, CaseInsensitiveFields = True\<rparr>"

lemma sample_aggregate_wf: "wf_aggregate sample_aggregate"
proof -
  have "list_all IsIdentifier [''app'', ''Orders'', ''State'', ''N'', ''n'']" by code_simp
  then show ?thesis
    by (simp add: wf_aggregate_def sample_aggregate_def sample_output_def valid_aggregate_mode_def valid_output_def
        valid_aggregate_sort_def agg_orders_def dimension_count_def measure_count_def is_dimension_def
        aggregate_modes Representation_Valid_def protocol_limits output_name_def ToLower_def)
qed

lemma sample_aggregate_valid:
  "validate_aggregate_under (sample_limits 100) sample_aggregate = Inr (normalized_aggregate sample_aggregate)"
  using sample_aggregate_wf
  by (simp add: validate_aggregate_under_Inr aggregate_within_def sample_aggregate_def sample_output_def
      sample_limits_def agg_orders_def dimension_count_def is_dimension_def aggregate_stats_def filter_stats_def
      initial_stats_def server_parameters_def aggregate_limit_def)

lemma sample_aggregate_normalizes:
  "\<exists>r. NormalizeAggregateIdentifiers sha256 (normalized_aggregate sample_aggregate) sample_semantics = Inr r"
proof -
  have "normalizedOutputsError [] [] (map (normalizeOutput sample_semantics) (agg_Projection sample_aggregate)) = None \<and>
      normalizedSortsError (map (normalizeOutput sample_semantics) (agg_Projection sample_aggregate)) 0 []
        (map (normalizeSort sample_semantics) (agg_orders sample_aggregate)) = None \<and>
      agg_Filter sample_aggregate = None"
    by code_simp
  then show ?thesis
    by (simp add: NormalizeAggregateIdentifiers_Inr normalized_aggregate_def normalizeOptionalFilter_def)
qed

section \<open>Properties\<close>



text \<open>
  normalising the identifiers of a validated aggregate keeps its statistics, changes nothing for
  re-validation under any limits, and is idempotent.
\<close>

theorem aggregate_normalization_is_stable:
  assumes "validate_aggregate_under l spec = Inr q" and "NormalizeAggregateIdentifiers hash q sem = Inr r"
  shows "va_stats r = va_stats q \<and>
    ((\<exists>w. revalidate_aggregate_under k r = Inr w) \<longleftrightarrow> (\<exists>w. revalidate_aggregate_under k q = Inr w)) \<and>
    NormalizeAggregateIdentifiers hash r sem = Inr r"
  using NormalizeAggregateIdentifiers_keeps [OF assms] by blast

theorem aggregate_normalization_is_stable_witness:
  "\<exists>r. NormalizeAggregateIdentifiers sha256 (normalized_aggregate sample_aggregate) sample_semantics = Inr r \<and>
     NormalizeAggregateIdentifiers sha256 r sample_semantics = Inr r"
  using sample_aggregate_normalizes aggregate_normalization_is_stable [OF sample_aggregate_valid] by blast

text \<open>
  The parameters counted for numeric buckets are exactly the ones the statement binds, base plus
  boundaries times occurrences (projection, grouping and every order position), and the count succeeds
  exactly when every bucket has 1 to 64 boundaries and the total is within the maximum.
\<close>

theorem numeric_bucket_parameters_exact:
  "NumericBucketParameters spec counts base maximum = Inr u \<longleftrightarrow>
     list_all (\<lambda>out. 1 \<le> counts (ToLower (ao_Alias out)) \<and>
        counts (ToLower (ao_Alias out)) \<le> NumericBucketMaxBoundaries) (numeric_outputs (na_Projection spec)) \<and>
     u = base + sum_list (map (bucket_parameters (na_OrderBy spec) counts) (numeric_outputs (na_Projection spec))) \<and>
     base \<le> maximum \<and> u \<le> maximum"
  unfolding list_all_iff by (rule NumericBucketParameters_Inr)

end
