(* ===== verification/Keyset_Query.thy ===== *)
theory Keyset_Query
  imports Aggregate_Normalize
begin

text \<open>
  \<^verbatim>\<open>internal/queryspec/keyset.go\<close>: requests that page through a result by the key of the last row.
  \<open>ValidateKeyset\<close> with its loops over projection, order and cursor, \<open>RevalidateKeyset\<close>,
  \<open>NormalizeKeysetIdentifiers\<close> and the value-free shape hash. The pair of validators interprets the
  revalidation contract as the select and aggregate validators do.
\<close>

section \<open>Structures\<close>

definition ProtocolMaxKeysetFields :: nat where "ProtocolMaxKeysetFields = 8"
definition ProtocolMaxCursorStringRunes :: nat where "ProtocolMaxCursorStringRunes = 3072"
definition ProtocolMaxCursorBytes :: nat where "ProtocolMaxCursorBytes = 3072"

record KeysetCursorValue =
  kc_Type :: string
  kc_Value :: string

record KeysetSpec =
  ks_Source :: ResourceRef
  ks_Projection :: "Selection list"
  ks_Filter :: "Filter option"
  ks_OrderBy :: "Sort list"
  ks_Limit :: int

text \<open>The nilness of the cursor is tested on the first page.\<close>

record KeysetPage =
  kp_Kind :: string
  kp_Cursor :: "KeysetCursorValue list option"

record KeysetRequest =
  kr_Kind :: string
  kr_Profile :: string
  kr_Datasource :: string
  kr_Shape :: string
  kr_Query :: KeysetSpec
  kr_Page :: KeysetPage

record NormalizedKeysetRequest =
  nk_Profile :: string
  nk_Datasource :: string
  nk_Shape :: string
  nk_Query :: KeysetSpec
  nk_Page :: KeysetPage

record ValidatedKeyset =
  vk_request :: NormalizedKeysetRequest
  vk_stats :: Stats
  vk_valid :: bool

definition page_cursor :: "KeysetPage \<Rightarrow> KeysetCursorValue list" where
  "page_cursor p = (case kp_Cursor p of None \<Rightarrow> [] | Some cs \<Rightarrow> cs)"

definition cloneKeysetRequest :: "KeysetRequest \<Rightarrow> KeysetRequest" where
  "cloneKeysetRequest r =
     r\<lparr>kr_Query := (kr_Query r)\<lparr>ks_Filter := map_option cloneFilter (ks_Filter (kr_Query r))\<rparr>\<rparr>"

definition cloneNormalizedKeysetRequest :: "NormalizedKeysetRequest \<Rightarrow> NormalizedKeysetRequest" where
  "cloneNormalizedKeysetRequest r =
     r\<lparr>nk_Query := (nk_Query r)\<lparr>ks_Filter := map_option cloneFilter (ks_Filter (nk_Query r))\<rparr>\<rparr>"

definition ValidatedKeyset_Request :: "ValidatedKeyset \<Rightarrow> NormalizedKeysetRequest" where
  "ValidatedKeyset_Request v = cloneNormalizedKeysetRequest (vk_request v)"

text \<open>\<open>SelectRequestVNext\<close> holds at most one of the two requests; both accessors check it.\<close>

record 'r SelectRequestVNext =
  sr_legacy :: "'r option"
  sr_keyset :: "KeysetRequest option"

definition NewLegacySelectRequest :: "'r \<Rightarrow> 'r SelectRequestVNext" where
  "NewLegacySelectRequest r = \<lparr>sr_legacy = Some r, sr_keyset = None\<rparr>"

definition NewKeysetSelectRequest :: "KeysetRequest \<Rightarrow> 'r SelectRequestVNext" where
  "NewKeysetSelectRequest r = \<lparr>sr_legacy = None, sr_keyset = Some (cloneKeysetRequest r)\<rparr>"

definition Legacy :: "'r SelectRequestVNext \<Rightarrow> 'r option" where
  "Legacy r = (if sr_legacy r = None \<or> sr_keyset r \<noteq> None then None else sr_legacy r)"

definition Keyset :: "'r SelectRequestVNext \<Rightarrow> KeysetRequest option" where
  "Keyset r =
     (if sr_keyset r = None \<or> sr_legacy r \<noteq> None then None else map_option cloneKeysetRequest (sr_keyset r))"

section \<open>Cursor values\<close>

datatype integer_error = NotCanonicalInteger | OutsidePortableRange

text \<open>\<open>strconv.ParseInt\<close> and \<open>strconv.ParseUint\<close> in base 10 and 64 bits, on texts without an underscore.\<close>

definition ParseUint64 :: "string \<Rightarrow> nat option" where
  "ParseUint64 s =
     (if s = [] \<or> \<not> list_all is_digit s \<or> dec_value s \<ge> 2 ^ 64 then None else Some (dec_value s))"

definition ParseInt64 :: "string \<Rightarrow> int option" where
  "ParseInt64 s =
     (let negative = (s \<noteq> [] \<and> hd s = CHR ''-'');
          ds = (if s \<noteq> [] \<and> (hd s = CHR ''-'' \<or> hd s = CHR ''+'') then tl s else s) in
      case ParseUint64 ds of
        None \<Rightarrow> None
      | Some n \<Rightarrow> if (if negative then n > 2 ^ 63 else n \<ge> 2 ^ 63) then None
                  else Some (if negative then - int n else int n))"

definition validatePortableInteger :: "string \<Rightarrow> integer_error option" where
  "validatePortableInteger s =
     (if s = [] \<or> hd s = CHR ''+'' \<or> s = ''-0'' \<or> length s > 20 then Some NotCanonicalInteger
      else if hd s = CHR ''-'' then first_error [
        fail_if (length s < 2 \<or> s ! 1 = CHR ''0'') NotCanonicalInteger,
        fail_if (ParseInt64 s = None) OutsidePortableRange]
      else first_error [
        fail_if (length s > 1 \<and> hd s = CHR ''0'') NotCanonicalInteger,
        fail_if (\<not> list_all is_digit s) NotCanonicalInteger,
        fail_if (ParseUint64 s = None) OutsidePortableRange])"

definition canonical_base64 :: "string \<Rightarrow> nat \<Rightarrow> bool" where
  "canonical_base64 s maximum \<longleftrightarrow>
     (case b64_decode_strict s of None \<Rightarrow> False | Some d \<Rightarrow> b64_encode d = s \<and> length d \<le> maximum)"

definition validateKeysetCursorValue :: "string \<Rightarrow> KeysetCursorValue \<Rightarrow> ValidationError option" where
  "validateKeysetCursorValue path cursor =
     (let ty = kc_Type cursor; v = kc_Value cursor; at = sub_path path ''value'' in
      if ty = ''integer'' then
        map_option (\<lambda>e. validationError at (Message (case e of
            NotCanonicalInteger \<Rightarrow> ''must be a canonical portable integer''
          | OutsidePortableRange \<Rightarrow> ''is outside the portable integer range''))) (validatePortableInteger v)
      else if ty = ''string'' then
        fail_if (\<not> ValidString v \<or> RuneCountInString v > ProtocolMaxCursorStringRunes)
          (validationError at (Message ''exceeds the string cursor limit''))
      else if ty = ''bytes'' then
        fail_if (\<not> canonical_base64 v ProtocolMaxCursorBytes)
          (validationError at (Message ''must be canonical bounded standard base64''))
      else if ty = ''date'' then
        fail_if (ParsePortableDate v = None)
          (validationError at (Message ''must be a canonical finite portable date''))
      else if ty = ''datetime'' then
        fail_if (ParsePortableDateTime v = None)
          (validationError at (Message ''must be a canonical finite portable wall-clock datetime''))
      else if ty = ''timestamp'' then
        fail_if (ParsePortableTimestamp v = None)
          (validationError at (Message ''must be a canonical finite portable UTC timestamp''))
      else Some (validationError (sub_path path ''type'') (Message ''contains an unsupported cursor type'')))"

definition keysetCursorParameterCount :: "nat \<Rightarrow> nat" where
  "keysetCursorParameterCount width = width * (width + 1) div 2"

section \<open>\<open>ValidateKeyset\<close>\<close>

definition selection_term :: "Selection \<Rightarrow> string" where
  "selection_term s = sel_Field s @ [CHR 0x00] @ sel_Alias s"

definition selection_output :: "Selection \<Rightarrow> string" where
  "selection_output s = (if sel_Alias s \<noteq> [] then sel_Alias s else sel_Field s)"

fun validateKeysetProjection ::
  "nat \<Rightarrow> string list \<Rightarrow> string list \<Rightarrow> Selection list \<Rightarrow> ValidationError option" where
  "validateKeysetProjection i terms outputs [] = None"
| "validateKeysetProjection i terms outputs (s # ss) =
     (let path = index_path ''query.projection'' i in first_error [
        validateRepresentation path (sel_Representation s),
        fail_if (sel_Kind s \<noteq> ''field'' \<or> sel_Function s \<noteq> [])
          (validationError path (Message ''must be a field selection'')),
        validateIdentifier (sub_path path ''field'') (sel_Field s),
        (if sel_Alias s \<noteq> [] then validateIdentifier (sub_path path ''alias'') (sel_Alias s) else None),
        fail_if (selection_term s \<in> set terms)
          (validationError ''query.projection'' (Message ''contains duplicate terms'')),
        fail_if (ToLower (selection_output s) \<in> set outputs)
          (validationError ''query.projection'' (Message ''contains colliding output names'')),
        validateKeysetProjection (Suc i) (selection_term s # terms) (ToLower (selection_output s) # outputs) ss])"

fun validateKeysetOrder :: "nat \<Rightarrow> string list \<Rightarrow> Sort list \<Rightarrow> ValidationError option" where
  "validateKeysetOrder i seen [] = None"
| "validateKeysetOrder i seen (order # orders) =
     (let path = index_path ''query.order_by'' i in first_error [
        validateRepresentation path (sort_Representation order),
        validateIdentifier (sub_path path ''field'') (sort_Field order),
        fail_if (sort_Direction order \<noteq> ''asc'' \<and> sort_Direction order \<noteq> ''desc'')
          (validationError (sub_path path ''direction'') DirectionMustBeAscDesc),
        fail_if (sort_Field order \<in> set seen)
          (validationError ''query.order_by'' (Message ''contains repeated fields'')),
        validateKeysetOrder (Suc i) (sort_Field order # seen) orders])"

definition keysetHead :: "KeysetRequest \<Rightarrow> int \<Rightarrow> int \<Rightarrow> int \<Rightarrow> ValidationError option" where
  "keysetHead request maxProjection maxOrderBy maxRows =
     (let query = kr_Query request in first_error [
        fail_if (kr_Kind request \<noteq> ''keyset'') (validationError ''kind'' (Message ''must be keyset'')),
        fail_if (kr_Profile request = [] \<or> \<not> ValidString (kr_Profile request))
          (validationError ''profile'' (Message ''must be a nonempty UTF-8 string'')),
        fail_if (kr_Datasource request = [] \<or> \<not> ValidString (kr_Datasource request))
          (validationError ''datasource'' (Message ''must be a nonempty UTF-8 string'')),
        validateIdentifier ''shape'' (kr_Shape request),
        validateSource (ks_Source query),
        fail_if (ks_Projection query = [] \<or> length (ks_Projection query) > ProtocolMaxProjectionFields \<or>
                 int (length (ks_Projection query)) > maxProjection)
          (validationError ''query.projection'' (Message ''is outside the effective bounds'')),
        validateKeysetProjection 0 [] [] (ks_Projection query),
        fail_if (ks_OrderBy query = [] \<or> length (ks_OrderBy query) > ProtocolMaxKeysetFields \<or>
                 length (ks_OrderBy query) > ProtocolMaxOrderByFields \<or> int (length (ks_OrderBy query)) > maxOrderBy)
          (validationError ''query.order_by'' (Message ''is outside the effective bounds'')),
        validateKeysetOrder 0 [] (ks_OrderBy query),
        fail_if (ks_Limit query < 1 \<or> ks_Limit query > ProtocolMaxRows \<or> ks_Limit query > maxRows)
          (validationError ''query.limit'' (Message ''is outside the effective bounds''))])"

definition rejectExactFilterDuplicates :: "(string \<Rightarrow> digest) \<Rightarrow> Filter \<Rightarrow> ValidationError option" where
  "rejectExactFilterDuplicates hash f = error_of (exactAggregateFilterDigest hash f)"

definition keysetFilter ::
  "(string \<Rightarrow> digest) \<Rightarrow> Filter option \<Rightarrow> filterValidationLimits \<Rightarrow> ValidationError + Stats" where
  "keysetFilter hash f lim =
     (case f of
        None \<Rightarrow> Inr (initial_stats 0)
      | Some f \<Rightarrow>
          bind_result (validateFilter ''query.filter'' f 1 lim (initial_stats 0)) (\<lambda>stats.
            check (rejectExactFilterDuplicates hash f) (Inr stats)))"

definition keysetPage :: "Sort list \<Rightarrow> KeysetPage \<Rightarrow> ValidationError + nat" where
  "keysetPage orders page =
     (let cursor = page_cursor page in
      if kp_Kind page = ''first'' then
        check (fail_if (kp_Cursor page \<noteq> None)
          (validationError ''page.cursor'' (Message ''is forbidden for the first page''))) (Inr 0)
      else if kp_Kind page = ''after'' then
        check (first_error [
          fail_if (cursor = [] \<or> length cursor > ProtocolMaxKeysetFields)
            (validationError ''page.cursor'' (Message ''is outside the protocol bounds'')),
          fail_if (length cursor \<noteq> length orders)
            (validationError ''page.cursor'' (Message ''must match query.order_by arity'')),
          range_error (\<lambda>i (order, c). first_error [
            fail_if (sort_Representation order = RepresentationSourceText \<and> kc_Type c \<noteq> ''string'')
              (validationError ''page.cursor'' (Message ''source_text requires a string cursor'')),
            validateKeysetCursorValue (index_path ''page.cursor'' i) c]) (zip orders cursor)])
        (Inr (keysetCursorParameterCount (length cursor)))
      else Inl (validationError ''page.kind'' (Message ''must be first or after'')))"

definition ValidateKeyset ::
  "(string \<Rightarrow> digest) \<Rightarrow> KeysetRequest \<Rightarrow> int \<Rightarrow> int \<Rightarrow> int \<Rightarrow> int \<Rightarrow> int \<Rightarrow> int \<Rightarrow> ValidationError + ValidatedKeyset" where
  "ValidateKeyset hash request maxProjection maxOrderBy maxPreds maxDep maxParams maxRows =
     (let query = kr_Query request in
      check (keysetHead request maxProjection maxOrderBy maxRows)
      (bind_result
        (keysetFilter hash (ks_Filter query)
          \<lparr>maxPredicates = maxPreds, maxDepth = maxDep, maxParameters = maxParams\<rparr>)
        (\<lambda>stats. bind_result (keysetPage (ks_OrderBy query) (kr_Page request)) (\<lambda>cursorParameters.
          check (fail_if (Parameters stats > maxParams - 1 \<or> int cursorParameters > maxParams - 1 - Parameters stats)
            (validationError ''query'' ExceedsEffectiveParameters))
          (Inr \<lparr>vk_request = \<lparr>nk_Profile = kr_Profile request, nk_Datasource = kr_Datasource request,
                  nk_Shape = kr_Shape request,
                  nk_Query = query\<lparr>ks_Filter := map_option cloneFilter (ks_Filter query)\<rparr>, nk_Page = kr_Page request\<rparr>,
                vk_stats = stats\<lparr>Parameters := Parameters stats + int cursorParameters + 1\<rparr>,
                vk_valid = True\<rparr>)))))"

definition RevalidateKeyset ::
  "ValidatedKeyset \<Rightarrow> int \<Rightarrow> int \<Rightarrow> int \<Rightarrow> int \<Rightarrow> int \<Rightarrow> int \<Rightarrow> ValidationError + ValidatedKeyset" where
  "RevalidateKeyset v maxProjection maxOrderBy maxPreds maxDep maxParams maxRows =
     (let request = ValidatedKeyset_Request v; query = nk_Query request; stats = vk_stats v in
      check (first_error [
        fail_if (\<not> vk_valid v) (validationError ''query'' NotValidated),
        fail_if (int (length (ks_Projection query)) > maxProjection \<or> int (length (ks_OrderBy query)) > maxOrderBy \<or>
                 Predicates stats > maxPreds \<or> ExpressionDepth stats > maxDep \<or> Parameters stats > maxParams \<or>
                 ks_Limit query > maxRows)
          (validationError ''query'' (Message ''exceeds the effective limits''))])
      (Inr \<lparr>vk_request = request, vk_stats = stats, vk_valid = True\<rparr>))"

section \<open>\<open>NormalizeKeysetIdentifiers\<close>\<close>

definition normalizeSelection :: "IdentifierSemantics \<Rightarrow> Selection \<Rightarrow> Selection" where
  "normalizeSelection sem s =
     s\<lparr>sel_Field := canonicalIdentifier (sel_Field s) (CaseInsensitiveFields sem),
       sel_Alias := canonicalIdentifier (sel_Alias s) True\<rparr>"

definition normalizeKeysetSort :: "IdentifierSemantics \<Rightarrow> Sort \<Rightarrow> Sort" where
  "normalizeKeysetSort sem order =
     order\<lparr>sort_Field := canonicalIdentifier (sort_Field order) (CaseInsensitiveFields sem)\<rparr>"

fun keysetOrderError :: "Selection list \<Rightarrow> string list \<Rightarrow> Sort list \<Rightarrow> ValidationError option" where
  "keysetOrderError projection seen [] = None"
| "keysetOrderError projection seen (order # orders) = first_error [
     fail_if (sort_Field order \<in> set seen)
       (validationError ''query.order_by'' (Message ''contains normalized field collisions'')),
     fail_if (list_ex (\<lambda>s. sel_Field s = sort_Field order \<and> sel_Representation s \<noteq> sort_Representation order) projection)
       (validationError ''query.order_by'' (Message ''representation must match projected key'')),
     fail_if (length (filter (\<lambda>s. sel_Field s = sort_Field order) projection) \<noteq> 1)
       (validationError ''query.order_by'' (Message ''fields must be projected exactly once'')),
     keysetOrderError projection (sort_Field order # seen) orders]"

definition NormalizeKeysetIdentifiers ::
  "(string \<Rightarrow> digest) \<Rightarrow> ValidatedKeyset \<Rightarrow> IdentifierSemantics \<Rightarrow> ValidationError + ValidatedKeyset" where
  "NormalizeKeysetIdentifiers hash v sem =
     (let request = ValidatedKeyset_Request v; query = nk_Query request;
          projection = map (normalizeSelection sem) (ks_Projection query);
          orders = map (normalizeKeysetSort sem) (ks_OrderBy query) in
      check (first_error [
        fail_if (\<not> vk_valid v) (validationError ''query'' NotValidated),
        seen_error selection_output [] (validationError ''query.projection''
          (Message ''contains normalized output collisions'')) projection])
      (bind_result (normalizeOptionalFilter hash (ks_Filter query) (CaseInsensitiveFields sem)) (\<lambda>f.
       check (keysetOrderError projection [] orders)
       (Inr \<lparr>vk_request = request\<lparr>nk_Query := query\<lparr>ks_Source := normalizeSource sem (ks_Source query),
                ks_Projection := projection, ks_Filter := f, ks_OrderBy := orders\<rparr>\<rparr>,
             vk_stats = vk_stats v, vk_valid = True\<rparr>))))"

section \<open>Fields and shape\<close>

fun collectFilterFields :: "Filter \<Rightarrow> string list" where
  "collectFilterFields (Filter rep kind field op vals exprs) =
     (if kind = ''predicate'' then [field] else concat (map collectFilterFields exprs))"

text \<open>\<open>slices.Compact\<close> removes adjacent duplicates; on a sorted list those are all of them.\<close>

definition KeysetReferencedFields :: "NormalizedKeysetRequest \<Rightarrow> string list" where
  "KeysetReferencedFields request =
     (let query = nk_Query request in
      remdups_adj (sort (map sel_Field (ks_Projection query)
        @ (case ks_Filter query of None \<Rightarrow> [] | Some f \<Rightarrow> collectFilterFields f)
        @ map sort_Field (ks_OrderBy query))))"

fun filterWithoutValues :: "Filter \<Rightarrow> Filter" where
  "filterWithoutValues (Filter rep kind field op vals exprs) =
     (if kind = ''predicate'' then
        Filter rep kind field op
          (Some (map (\<lambda>v. \<lparr>tv_Type = tv_Type v, tv_Value = Some ''null''\<rparr>) (case vals of None \<Rightarrow> [] | Some vs \<Rightarrow> vs)))
          exprs
      else Filter rep kind field op vals (map filterWithoutValues exprs))"

text \<open>The raw values printed here are the \<open>null\<close>s that \<open>filterWithoutValues\<close> put in.\<close>

definition marshal_TypedValue :: "TypedValue \<Rightarrow> string" where
  "marshal_TypedValue v = json_object
     [(''type'', json_quote (tv_Type v)), (''value'', case tv_Value v of None \<Rightarrow> ''null'' | Some raw \<Rightarrow> raw)]"

fun marshal_Filter :: "Filter \<Rightarrow> string" where
  "marshal_Filter (Filter rep kind field op vals exprs) = json_object (
     string_omit_empty ''representation'' rep @ [(''kind'', json_quote kind)] @
     string_omit_empty ''field'' field @ [(''operator'', json_quote op)] @
     omit_empty ((case vals of None \<Rightarrow> [] | Some vs \<Rightarrow> vs) = []) ''values''
       (json_array (map marshal_TypedValue (case vals of None \<Rightarrow> [] | Some vs \<Rightarrow> vs))) @
     omit_empty (exprs = []) ''expressions'' (json_array (map marshal_Filter exprs)))"

definition marshal_KeysetSpec :: "KeysetSpec \<Rightarrow> string" where
  "marshal_KeysetSpec query = json_object (
     [(''source'', marshal_ResourceRef (ks_Source query)),
      (''projection'', json_slice (map marshal_Selection (ks_Projection query)))] @
     (case ks_Filter query of None \<Rightarrow> [] | Some f \<Rightarrow> [(''filter'', marshal_Filter f)]) @
     [(''order_by'', json_slice (map marshal_Sort (ks_OrderBy query))), (''limit'', itoa_int (ks_Limit query))])"

definition KeysetShapeHash :: "NormalizedKeysetRequest \<Rightarrow> string" where
  "KeysetShapeHash request =
     (let query = (nk_Query request)\<lparr>ks_Filter := map_option filterWithoutValues (ks_Filter (nk_Query request))\<rparr>;
          cursor = page_cursor (nk_Page request) in
      hex_encode (sha256 (''quordon/keyset-shape/v1'' @ [CHR 0x00] @ json_object (
        [(''shape'', json_quote (nk_Shape request)), (''query'', marshal_KeysetSpec query),
         (''page_kind'', json_quote (kp_Kind (nk_Page request)))] @
        omit_empty (cursor = []) ''cursor''
          (json_array (map (\<lambda>c. json_object [(''type'', json_quote (kc_Type c))]) cursor))))))"

definition KeysetUsesSourceText :: "NormalizedKeysetRequest \<Rightarrow> bool" where
  "KeysetUsesSourceText request \<longleftrightarrow>
     (let query = nk_Query request in
      list_ex (\<lambda>s. sel_Representation s = RepresentationSourceText) (ks_Projection query) \<or>
      list_ex (\<lambda>s. sort_Representation s = RepresentationSourceText) (ks_OrderBy query) \<or>
      optional_filter_uses_source_text (ks_Filter query))"

definition filtersEqualShape :: "(string \<Rightarrow> digest) \<Rightarrow> Filter option \<Rightarrow> Filter option \<Rightarrow> bool" where
  "filtersEqualShape hash left right \<longleftrightarrow>
     (case (left, right) of
        (Some l, Some r) \<Rightarrow> AggregateFilterShapeDigest hash l = AggregateFilterShapeDigest hash r
      | (None, None) \<Rightarrow> True
      | _ \<Rightarrow> False)"

section \<open>Portable integers\<close>

lemma negative_split: "s \<noteq> [] \<Longrightarrow> hd s = CHR ''-'' \<Longrightarrow> s = CHR ''-'' # tl s"
  by (cases s) simp_all

lemma digits_length_bound:
  assumes "integer_digits ds" and "dec_value ds < 10 ^ k" and "0 < k"
  shows "length ds \<le> k"
proof (rule ccontr)
  assume "\<not> length ds \<le> k"
  then have len: "k < length ds" by simp
  obtain c cs where ds: "ds = c # cs" using assms(1) by (cases ds) (auto simp: integer_digits_def)
  have "c \<noteq> CHR ''0''" using assms(1,3) len by (auto simp: integer_digits_def ds)
  then have "0 < dec_value [c]" using assms(1) by (intro dec_value_pos) (auto simp: integer_digits_def ds)
  have "(10 :: nat) ^ k \<le> 10 ^ length cs" using len by (intro power_increasing) (auto simp: ds)
  also have "\<dots> \<le> dec_value [c] * 10 ^ length cs + dec_value cs"
    using \<open>0 < dec_value [c]\<close> by (simp add: trans_le_add1)
  also have "\<dots> = dec_value ds" using dec_value_append [of "[c]" cs] by (simp add: ds)
  finally show False using assms(2) by simp
qed

lemma ParseInt64_negative:
  "ParseInt64 (CHR ''-'' # ds) =
     (case ParseUint64 ds of None \<Rightarrow> None | Some n \<Rightarrow> if n > 2 ^ 63 then None else Some (- int n))"
  by (simp add: ParseInt64_def split: option.splits)

lemma ParseUint64_itoa: "n < 2 ^ 64 \<Longrightarrow> ParseUint64 (itoa n) = Some n"
  using itoa_nonempty [of n] by (simp add: ParseUint64_def)

lemma validatePortableInteger_iff:
  "validatePortableInteger s = None \<longleftrightarrow> (\<exists>i. s = itoa_int i \<and> - (2 ^ 63) \<le> i \<and> i < 2 ^ 64)"
  (is "?L \<longleftrightarrow> ?R")
proof
  assume L: ?L
  then have ne: "s \<noteq> []" by (auto simp: validatePortableInteger_def)
  show ?R
  proof (cases "hd s = CHR ''-''")
    case True
    with ne obtain ds where s: "s = CHR ''-'' # ds" using negative_split by blast
    have "2 \<le> length s \<and> s ! 1 \<noteq> CHR ''0'' \<and> ParseInt64 s \<noteq> None"
      using L True unfolding validatePortableInteger_def by (simp split: if_splits)
    then have hd: "ds \<noteq> []" "hd ds \<noteq> CHR ''0''" and p: "ParseInt64 s \<noteq> None"
      unfolding s by (cases ds; simp)+
    obtain n where n: "ParseUint64 ds = Some n" "n \<le> 2 ^ 63"
      using p unfolding s ParseInt64_negative by (cases "ParseUint64 ds") (simp_all split: if_splits)
    then have digits: "list_all is_digit ds" "dec_value ds = n" by (auto simp: ParseUint64_def split: if_splits)
    with hd have "itoa n = ds" "0 < n"
      using itoa_dec_value [of ds] dec_value_pos [of ds] by (auto simp: integer_digits_def)
    with s have "s = itoa_int (- int n)" by (simp add: itoa_int_def)
    moreover have "- (2 ^ 63) \<le> - int n" using n(2) by simp
    ultimately show ?thesis by (intro exI [of _ "- int n"]) simp
  next
    case False
    with L ne have "integer_digits s" and "dec_value s < 2 ^ 64"
      by (auto simp: validatePortableInteger_def ParseUint64_def integer_digits_def not_less split: if_splits)
        (cases s; simp)
    then have "s = itoa_int (int (dec_value s))" and "int (dec_value s) < 2 ^ 64"
      by (simp_all add: itoa_int_def itoa_dec_value)
    then show ?thesis by (intro exI [of _ "int (dec_value s)"]) simp
  qed
next
  assume ?R
  then obtain i where s: "s = itoa_int i" and i: "- (2 ^ 63) \<le> i" "i < 2 ^ 64" by blast
  show ?L
  proof (cases "i < 0")
    case True
    define n where "n = nat (- i)"
    have n: "0 < n" "n \<le> 2 ^ 63" and s': "s = CHR ''-'' # itoa n"
      using True i s by (simp_all add: n_def itoa_int_def nat_le_iff)
    have "n < 10 ^ 19" using n(2) by simp
    then have "length (itoa n) \<le> 19" using digits_length_bound [of "itoa n" 19] by simp
    moreover have "itoa n \<noteq> []" "hd (itoa n) \<noteq> CHR ''0''" using itoa_nonempty itoa_hd n(1) by blast+
    moreover have "ParseInt64 s \<noteq> None"
      unfolding s' ParseInt64_negative using n ParseUint64_itoa [of n] by simp
    ultimately show ?thesis
      by (cases "itoa n") (simp_all add: s' validatePortableInteger_def)
  next
    case False
    define n where "n = nat i"
    have n: "n < 2 ^ 64" and s': "s = itoa n"
      using False i s by (simp_all add: n_def itoa_int_def nat_less_iff)
    have "n < 10 ^ 20" using n by simp
    then have "length (itoa n) \<le> 20" using digits_length_bound [of "itoa n" 20] by simp
    moreover have "hd (itoa n) \<noteq> CHR ''+''"
      using itoa_digits [of n] itoa_nonempty [of n] by (cases "itoa n") (auto simp: is_digit_def)
    moreover have "itoa n \<noteq> ''-0''" using itoa_no_minus [of n] by auto
    ultimately show ?thesis
      using n itoa_no_minus [of n] itoa_nonempty [of n] integer_digits_itoa [of n]
      by (auto simp: s' validatePortableInteger_def ParseUint64_def integer_digits_def)
  qed
qed

section \<open>What \<open>ValidateKeyset\<close> accepts\<close>

definition valid_keyset_selection :: "Selection \<Rightarrow> bool" where
  "valid_keyset_selection s \<longleftrightarrow>
     Representation_Valid (sel_Representation s) \<and> sel_Kind s = ''field'' \<and> sel_Function s = [] \<and>
     IsIdentifier (sel_Field s) \<and> (sel_Alias s = [] \<or> IsIdentifier (sel_Alias s))"

definition valid_cursor :: "Sort \<times> KeysetCursorValue \<Rightarrow> bool" where
  "valid_cursor p \<longleftrightarrow>
     (sort_Representation (fst p) = RepresentationSourceText \<longrightarrow> kc_Type (snd p) = ''string'') \<and>
     validateKeysetCursorValue [] (snd p) = None"

definition valid_page :: "Sort list \<Rightarrow> KeysetPage \<Rightarrow> bool" where
  "valid_page orders page \<longleftrightarrow>
     kp_Kind page = ''first'' \<and> kp_Cursor page = None \<or>
     kp_Kind page = ''after'' \<and> page_cursor page \<noteq> [] \<and> length (page_cursor page) \<le> ProtocolMaxKeysetFields \<and>
       length (page_cursor page) = length orders \<and> (\<forall>p \<in> set (zip orders (page_cursor page)). valid_cursor p)"

definition wf_keyset :: "(string \<Rightarrow> digest) \<Rightarrow> KeysetRequest \<Rightarrow> bool" where
  "wf_keyset hash request \<longleftrightarrow>
     (let query = kr_Query request in
      kr_Kind request = ''keyset'' \<and> kr_Profile request \<noteq> [] \<and> ValidString (kr_Profile request) \<and>
      kr_Datasource request \<noteq> [] \<and> ValidString (kr_Datasource request) \<and> IsIdentifier (kr_Shape request) \<and>
      IsIdentifier (ref_Schema (ks_Source query)) \<and> IsIdentifier (ref_Name (ks_Source query)) \<and>
      ks_Projection query \<noteq> [] \<and> length (ks_Projection query) \<le> ProtocolMaxProjectionFields \<and>
      (\<forall>s \<in> set (ks_Projection query). valid_keyset_selection s) \<and>
      distinct (map selection_term (ks_Projection query)) \<and>
      distinct (map (\<lambda>s. ToLower (selection_output s)) (ks_Projection query)) \<and>
      ks_OrderBy query \<noteq> [] \<and> length (ks_OrderBy query) \<le> ProtocolMaxKeysetFields \<and>
      (\<forall>s \<in> set (ks_OrderBy query). valid_sort s) \<and> distinct (map sort_Field (ks_OrderBy query)) \<and>
      1 \<le> ks_Limit query \<and> ks_Limit query \<le> ProtocolMaxRows \<and>
      (\<forall>f \<in> set_option (ks_Filter query). wf_filter f \<and> rejectExactFilterDuplicates hash f = None) \<and>
      valid_page (ks_OrderBy query) (kr_Page request))"

text \<open>The filter's statistics plus the bindings of the cursor and of the server-owned limit.\<close>

definition cursor_parameters :: "KeysetPage \<Rightarrow> nat" where
  "cursor_parameters page =
     (if kp_Kind page = ''first'' then 0 else keysetCursorParameterCount (length (page_cursor page)))"

definition keyset_stats :: "KeysetRequest \<Rightarrow> Stats" where
  "keyset_stats request =
     (let st = filter_stats (ks_Filter (kr_Query request)) 0
      in st\<lparr>Parameters := Parameters st + int (cursor_parameters (kr_Page request)) + 1\<rparr>)"

definition keyset_within :: "Limits \<Rightarrow> KeysetRequest \<Rightarrow> bool" where
  "keyset_within l request \<longleftrightarrow>
     int (length (ks_Projection (kr_Query request))) \<le> MaxProjectionFields l \<and>
     int (length (ks_OrderBy (kr_Query request))) \<le> MaxOrderByFields l \<and>
     ks_Limit (kr_Query request) \<le> MaxRows l \<and> Parameters (keyset_stats request) \<le> MaxParameters l \<and>
     (ks_Filter (kr_Query request) = None \<or>
        Predicates (keyset_stats request) \<le> MaxPredicates l \<and>
        ExpressionDepth (keyset_stats request) \<le> MaxExpressionDepth l)"

definition normalized_keyset :: "KeysetRequest \<Rightarrow> ValidatedKeyset" where
  "normalized_keyset request =
     \<lparr>vk_request = \<lparr>nk_Profile = kr_Profile request, nk_Datasource = kr_Datasource request,
        nk_Shape = kr_Shape request, nk_Query = kr_Query request, nk_Page = kr_Page request\<rparr>,
      vk_stats = keyset_stats request, vk_valid = True\<rparr>"

definition validate_keyset_under ::
  "(string \<Rightarrow> digest) \<Rightarrow> Limits \<Rightarrow> KeysetRequest \<Rightarrow> ValidationError + ValidatedKeyset" where
  "validate_keyset_under hash l request =
     ValidateKeyset hash request (MaxProjectionFields l) (MaxOrderByFields l) (MaxPredicates l)
       (MaxExpressionDepth l) (MaxParameters l) (MaxRows l)"

definition revalidate_keyset_under :: "Limits \<Rightarrow> ValidatedKeyset \<Rightarrow> ValidationError + ValidatedKeyset" where
  "revalidate_keyset_under l v =
     RevalidateKeyset v (MaxProjectionFields l) (MaxOrderByFields l) (MaxPredicates l)
       (MaxExpressionDepth l) (MaxParameters l) (MaxRows l)"

lemma validateKeysetProjection_None:
  "validateKeysetProjection i terms outputs ss = None \<longleftrightarrow>
     (\<forall>s \<in> set ss. valid_keyset_selection s) \<and>
     distinct (map selection_term ss) \<and> set (map selection_term ss) \<inter> set terms = {} \<and>
     distinct (map (\<lambda>s. ToLower (selection_output s)) ss) \<and>
     set (map (\<lambda>s. ToLower (selection_output s)) ss) \<inter> set outputs = {}"
  by (induction ss arbitrary: i terms outputs) (auto simp: Let_def valid_keyset_selection_def)

lemma validateKeysetOrder_None:
  "validateKeysetOrder i seen orders = None \<longleftrightarrow>
     (\<forall>s \<in> set orders. valid_sort s) \<and> distinct (map sort_Field orders) \<and>
     set (map sort_Field orders) \<inter> set seen = {}"
  by (induction orders arbitrary: i seen) (auto simp: Let_def valid_sort_def)

lemma validateKeysetCursorValue_path:
  "validateKeysetCursorValue path c = None \<longleftrightarrow> validateKeysetCursorValue [] c = None"
  by (simp add: validateKeysetCursorValue_def Let_def)

lemma keysetPage_Inr:
  "keysetPage orders page = Inr n \<longleftrightarrow> valid_page orders page \<and> n = cursor_parameters page"
proof -
  have "range_error (\<lambda>i (order, c). first_error [
            fail_if (sort_Representation order = RepresentationSourceText \<and> kc_Type c \<noteq> ''string'')
              (validationError ''page.cursor'' (Message ''source_text requires a string cursor'')),
            validateKeysetCursorValue (index_path ''page.cursor'' i) c]) ps = None \<longleftrightarrow>
      (\<forall>p \<in> set ps. valid_cursor p)" for ps
    by (rule range_error_None_set)
      (auto simp: valid_cursor_def validateKeysetCursorValue_path [of "index_path ''page.cursor'' _"] split: prod.splits)
  then show ?thesis
    by (auto simp: keysetPage_def valid_page_def cursor_parameters_def Let_def)
qed

lemma keysetHead_None:
  "keysetHead request maxProjection maxOrderBy maxRows = None \<longleftrightarrow>
     (let query = kr_Query request in
      kr_Kind request = ''keyset'' \<and> kr_Profile request \<noteq> [] \<and> ValidString (kr_Profile request) \<and>
      kr_Datasource request \<noteq> [] \<and> ValidString (kr_Datasource request) \<and> IsIdentifier (kr_Shape request) \<and>
      IsIdentifier (ref_Schema (ks_Source query)) \<and> IsIdentifier (ref_Name (ks_Source query)) \<and>
      ks_Projection query \<noteq> [] \<and> length (ks_Projection query) \<le> ProtocolMaxProjectionFields \<and>
      int (length (ks_Projection query)) \<le> maxProjection \<and>
      (\<forall>s \<in> set (ks_Projection query). valid_keyset_selection s) \<and>
      distinct (map selection_term (ks_Projection query)) \<and>
      distinct (map (\<lambda>s. ToLower (selection_output s)) (ks_Projection query)) \<and>
      ks_OrderBy query \<noteq> [] \<and> length (ks_OrderBy query) \<le> ProtocolMaxKeysetFields \<and>
      int (length (ks_OrderBy query)) \<le> maxOrderBy \<and>
      (\<forall>s \<in> set (ks_OrderBy query). valid_sort s) \<and> distinct (map sort_Field (ks_OrderBy query)) \<and>
      1 \<le> ks_Limit query \<and> ks_Limit query \<le> ProtocolMaxRows \<and> ks_Limit query \<le> maxRows)"
proof -
  have "length os \<le> ProtocolMaxKeysetFields \<Longrightarrow> length os \<le> ProtocolMaxOrderByFields" for os :: "Sort list"
    by (simp add: ProtocolMaxKeysetFields_def protocol_limits)
  then show ?thesis
    by (auto simp: keysetHead_def Let_def validateSource_def validateKeysetProjection_None
        validateKeysetOrder_None not_less not_le)
qed

lemma keysetFilter_Inr:
  "keysetFilter hash f lim = Inr st \<longleftrightarrow>
     st = filter_stats f 0 \<and> (\<forall>g \<in> set_option f. wf_filter g \<and> rejectExactFilterDuplicates hash g = None) \<and>
     (f = None \<or> Predicates st \<le> maxPredicates lim \<and> ExpressionDepth st \<le> maxDepth lim \<and>
        Parameters st \<le> maxParameters lim)"
proof (cases f)
  case None
  then show ?thesis by (auto simp: keysetFilter_def filter_stats_def)
next
  case (Some g)
  have "validateFilter ''query.filter'' g 1 lim (initial_stats 0) = Inr st \<longleftrightarrow>
      st = filter_stats f 0 \<and> wf_filter g \<and> Predicates st \<le> maxPredicates lim \<and>
      ExpressionDepth st \<le> maxDepth lim \<and> Parameters st \<le> maxParameters lim"
    using validateOptionalFilter_Inr [of f lim 0 st] Some by (simp add: validateOptionalFilter_def)
  moreover have "keysetFilter hash f lim = Inr st \<longleftrightarrow>
      validateFilter ''query.filter'' g 1 lim (initial_stats 0) = Inr st \<and> rejectExactFilterDuplicates hash g = None"
    using Some by (auto simp: keysetFilter_def)
  ultimately show ?thesis using Some by auto
qed

lemma keyset_stats_sel [simp]:
  "Predicates (keyset_stats r) = Predicates (filter_stats (ks_Filter (kr_Query r)) 0)"
  "ExpressionDepth (keyset_stats r) = ExpressionDepth (filter_stats (ks_Filter (kr_Query r)) 0)"
  "Parameters (keyset_stats r) =
     Parameters (filter_stats (ks_Filter (kr_Query r)) 0) + int (cursor_parameters (kr_Page r)) + 1"
  by (simp_all add: keyset_stats_def Let_def)

lemma validate_keyset_under_Inr:
  "validate_keyset_under hash l request = Inr v \<longleftrightarrow>
     wf_keyset hash request \<and> keyset_within l request \<and> v = normalized_keyset request"
proof -
  let ?f = "ks_Filter (kr_Query request)"
  have "validate_keyset_under hash l request = Inr v \<longleftrightarrow>
      keysetHead request (MaxProjectionFields l) (MaxOrderByFields l) (MaxRows l) = None \<and>
      (\<forall>g \<in> set_option ?f. wf_filter g \<and> rejectExactFilterDuplicates hash g = None) \<and>
      valid_page (ks_OrderBy (kr_Query request)) (kr_Page request) \<and>
      (?f = None \<or> Predicates (keyset_stats request) \<le> MaxPredicates l \<and>
         ExpressionDepth (keyset_stats request) \<le> MaxExpressionDepth l) \<and>
      Parameters (keyset_stats request) \<le> MaxParameters l \<and>
      v = \<lparr>vk_request = \<lparr>nk_Profile = kr_Profile request, nk_Datasource = kr_Datasource request,
             nk_Shape = kr_Shape request,
             nk_Query = (kr_Query request)\<lparr>ks_Filter := map_option cloneFilter ?f\<rparr>, nk_Page = kr_Page request\<rparr>,
           vk_stats = keyset_stats request, vk_valid = True\<rparr>"
    unfolding validate_keyset_under_def ValidateKeyset_def Let_def
    by (auto simp: keysetFilter_Inr keysetPage_Inr keyset_stats_def Let_def)
  moreover have "\<forall>g \<in> set_option ?f. wf_filter g \<Longrightarrow> map_option cloneFilter ?f = ?f"
    by (rule option_map_clone_wf)
  ultimately show ?thesis
    unfolding keysetHead_None wf_keyset_def keyset_within_def normalized_keyset_def Let_def by auto
qed

lemma ValidatedKeyset_Request_normalized:
  "wf_keyset hash request \<Longrightarrow> ValidatedKeyset_Request (normalized_keyset request) = vk_request (normalized_keyset request)"
  by (simp add: ValidatedKeyset_Request_def cloneNormalizedKeysetRequest_def normalized_keyset_def wf_keyset_def
      option_map_clone_wf Let_def)

lemma revalidate_keyset_under_Inr:
  "revalidate_keyset_under l v = Inr w \<longleftrightarrow>
     vk_valid v \<and> int (length (ks_Projection (nk_Query (vk_request v)))) \<le> MaxProjectionFields l \<and>
     int (length (ks_OrderBy (nk_Query (vk_request v)))) \<le> MaxOrderByFields l \<and>
     Predicates (vk_stats v) \<le> MaxPredicates l \<and> ExpressionDepth (vk_stats v) \<le> MaxExpressionDepth l \<and>
     Parameters (vk_stats v) \<le> MaxParameters l \<and> ks_Limit (nk_Query (vk_request v)) \<le> MaxRows l \<and>
     w = v\<lparr>vk_request := ValidatedKeyset_Request v\<rparr>"
  by (cases v) (auto simp: revalidate_keyset_under_def RevalidateKeyset_def ValidatedKeyset_Request_def
      cloneNormalizedKeysetRequest_def Let_def)

lemma revalidate_normalized_keyset:
  assumes "wf_keyset hash request" "usable_limits k"
  shows "revalidate_keyset_under k (normalized_keyset request) = Inr w \<longleftrightarrow>
    keyset_within k request \<and> w = normalized_keyset request"
proof -
  have "ks_Filter (kr_Query request) = None \<Longrightarrow>
      Predicates (keyset_stats request) = 0 \<and> ExpressionDepth (keyset_stats request) = 0"
    by (simp add: filter_stats_def initial_stats_def)
  then show ?thesis
    using assms(2) ValidatedKeyset_Request_normalized [OF assms(1)]
    unfolding revalidate_keyset_under_Inr keyset_within_def usable_limits_def
    by (auto simp: normalized_keyset_def)
qed

interpretation keyset_query: revalidation "validate_keyset_under hash" revalidate_keyset_under usable_limits
  for hash :: "string \<Rightarrow> digest"
proof
  show "\<And>l s v k w. validate_keyset_under hash l s = Inr v \<Longrightarrow> limits_le k l \<Longrightarrow> usable_limits k \<Longrightarrow>
      revalidate_keyset_under k v = Inr w \<longleftrightarrow> validate_keyset_under hash k s = Inr w"
    by (auto simp: validate_keyset_under_Inr revalidate_normalized_keyset)
  show "\<And>k s w l. validate_keyset_under hash k s = Inr w \<Longrightarrow> limits_le k l \<Longrightarrow>
      \<exists>v. validate_keyset_under hash l s = Inr v"
    by (auto simp: validate_keyset_under_Inr keyset_within_def limits_le_def)
qed

section \<open>What normalisation keeps\<close>

definition projected_once :: "Selection list \<Rightarrow> Sort \<Rightarrow> bool" where
  "projected_once projection order \<longleftrightarrow>
     (\<exists>s. filter (\<lambda>s. sel_Field s = sort_Field order) projection = [s] \<and>
        sel_Representation s = sort_Representation order)"

lemma projected_once_iff:
  "projected_once projection order \<longleftrightarrow>
     \<not> list_ex (\<lambda>s. sel_Field s = sort_Field order \<and> sel_Representation s \<noteq> sort_Representation order) projection \<and>
     length (filter (\<lambda>s. sel_Field s = sort_Field order) projection) = 1"
proof -
  let ?xs = "filter (\<lambda>s. sel_Field s = sort_Field order) projection"
  have "list_ex (\<lambda>s. sel_Field s = sort_Field order \<and> sel_Representation s \<noteq> sort_Representation order) projection \<longleftrightarrow>
      (\<exists>s \<in> set ?xs. sel_Representation s \<noteq> sort_Representation order)"
    by (auto simp: list_ex_iff)
  moreover have "length ?xs = 1 \<longleftrightarrow> (\<exists>s. ?xs = [s])" by (auto simp: length_Suc_conv)
  ultimately show ?thesis unfolding projected_once_def by fastforce
qed

lemma keysetOrderError_None:
  "keysetOrderError projection seen orders = None \<longleftrightarrow>
     (\<forall>order \<in> set orders. projected_once projection order) \<and>
     distinct (map sort_Field orders) \<and> set (map sort_Field orders) \<inter> set seen = {}"
  by (induction orders arbitrary: seen) (auto simp: projected_once_iff)

lemma NormalizeKeysetIdentifiers_Inr:
  "NormalizeKeysetIdentifiers hash v sem = Inr r \<longleftrightarrow>
     (let query = nk_Query (vk_request v); projection = map (normalizeSelection sem) (ks_Projection query);
          orders = map (normalizeKeysetSort sem) (ks_OrderBy query) in
      vk_valid v \<and> distinct (map selection_output projection) \<and>
      (\<forall>order \<in> set orders. projected_once projection order) \<and> distinct (map sort_Field orders) \<and>
      (\<exists>f. normalizeOptionalFilter hash (map_option cloneFilter (ks_Filter query)) (CaseInsensitiveFields sem) = Inr f \<and>
         r = v\<lparr>vk_request := (vk_request v)\<lparr>nk_Query := query\<lparr>ks_Source := normalizeSource sem (ks_Source query),
                ks_Projection := projection, ks_Filter := f, ks_OrderBy := orders\<rparr>\<rparr>\<rparr>))"
  by (cases v) (auto simp: NormalizeKeysetIdentifiers_def ValidatedKeyset_Request_def cloneNormalizedKeysetRequest_def
      keysetOrderError_None Let_def)

lemma normalizeSelection_idem [simp]: "normalizeSelection sem (normalizeSelection sem s) = normalizeSelection sem s"
  by (simp add: normalizeSelection_def)

lemma normalizeKeysetSort_idem [simp]: "normalizeKeysetSort sem (normalizeKeysetSort sem s) = normalizeKeysetSort sem s"
  by (simp add: normalizeKeysetSort_def)

lemma NormalizeKeysetIdentifiers_keeps:
  assumes v: "validate_keyset_under hash l request = Inr v" and n: "NormalizeKeysetIdentifiers hash v sem = Inr r"
  shows "vk_stats r = vk_stats v"
    and "(\<exists>w. revalidate_keyset_under k r = Inr w) \<longleftrightarrow> (\<exists>w. revalidate_keyset_under k v = Inr w)"
    and "NormalizeKeysetIdentifiers hash r sem = Inr r"
proof -
  let ?q = "nk_Query (vk_request v)"
  have wf: "\<forall>f \<in> set_option (ks_Filter ?q). wf_filter f"
    using v by (auto simp: validate_keyset_under_Inr normalized_keyset_def wf_keyset_def Let_def)
  from n obtain f where f: "normalizeOptionalFilter hash (ks_Filter ?q) (CaseInsensitiveFields sem) = Inr f"
    and r: "r = v\<lparr>vk_request := (vk_request v)\<lparr>nk_Query := ?q\<lparr>ks_Source := normalizeSource sem (ks_Source ?q),
                ks_Projection := map (normalizeSelection sem) (ks_Projection ?q), ks_Filter := f,
                ks_OrderBy := map (normalizeKeysetSort sem) (ks_OrderBy ?q)\<rparr>\<rparr>\<rparr>"
    unfolding NormalizeKeysetIdentifiers_Inr option_map_clone_wf [OF wf] Let_def by blast
  show "vk_stats r = vk_stats v" by (simp add: r)
  show "(\<exists>w. revalidate_keyset_under k r = Inr w) \<longleftrightarrow> (\<exists>w. revalidate_keyset_under k v = Inr w)"
    by (simp add: revalidate_keyset_under_Inr r)
  show "NormalizeKeysetIdentifiers hash r sem = Inr r"
    using n normalizeOptionalFilter_wf [OF wf f] unfolding NormalizeKeysetIdentifiers_Inr Let_def
    by (auto simp: r option_map_clone_wf comp_def)
qed

section \<open>A sample request\<close>

definition sample_keyset :: KeysetRequest where
  "sample_keyset = \<lparr>kr_Kind = ''keyset'', kr_Profile = ''ops'', kr_Datasource = ''main'', kr_Shape = ''by_id'',
     kr_Query = \<lparr>ks_Source = \<lparr>ref_Schema = ''app'', ref_Name = ''orders''\<rparr>,
       ks_Projection = [\<lparr>sel_Representation = [], sel_Kind = ''field'', sel_Field = ''Id'', sel_Function = [], sel_Alias = []\<rparr>],
       ks_Filter = None,
       ks_OrderBy = [\<lparr>sort_Representation = [], sort_Field = ''id'', sort_Direction = ''asc''\<rparr>], ks_Limit = 50\<rparr>,
     kr_Page = \<lparr>kp_Kind = ''after'', kp_Cursor = Some [\<lparr>kc_Type = ''integer'', kc_Value = ''41''\<rparr>]\<rparr>\<rparr>"

lemma sample_keyset_wf: "wf_keyset hash sample_keyset"
proof -
  have "list_all IsIdentifier [''app'', ''orders'', ''Id'', ''id'', ''by_id'']" by code_simp
  moreover have "ValidString ''ops''" "ValidString ''main''"
    by (rule ValidString_ascii, simp add: is_ascii_def)+
  ultimately have ids: "list_all IsIdentifier [''app'', ''orders'', ''Id'', ''id'', ''by_id''] \<and> ValidString ''ops'' \<and> ValidString ''main''"
    by blast
  have "''41'' = itoa_int 41"
    by code_simp
  then have "validatePortableInteger ''41'' = None"
    unfolding validatePortableInteger_iff by (intro exI [of _ 41]) simp
  with ids show ?thesis
    by (simp add: wf_keyset_def sample_keyset_def valid_keyset_selection_def valid_sort_def valid_page_def
        page_cursor_def valid_cursor_def validateKeysetCursorValue_def RepresentationSourceText_def
        Representation_Valid_def protocol_limits ProtocolMaxKeysetFields_def)
qed

lemma sample_keyset_valid:
  "100 \<le> n \<Longrightarrow> validate_keyset_under hash (sample_limits n) sample_keyset = Inr (normalized_keyset sample_keyset)"
  using sample_keyset_wf [of hash]
  by (simp add: validate_keyset_under_Inr keyset_within_def sample_keyset_def sample_limits_def filter_stats_def
      initial_stats_def cursor_parameters_def keysetCursorParameterCount_def page_cursor_def)

lemma sample_keyset_normalizes:
  "\<exists>r. NormalizeKeysetIdentifiers hash (normalized_keyset sample_keyset) sample_semantics = Inr r"
proof -
  have "ToLower ''Id'' = ''id'' \<and> ToLower ''id'' = ''id''" by code_simp
  then show ?thesis
    by (simp add: NormalizeKeysetIdentifiers_Inr normalized_keyset_def sample_keyset_def normalizeSelection_def
        normalizeKeysetSort_def sample_semantics_def canonicalIdentifier_def projected_once_def
        normalizeOptionalFilter_def selection_output_def)
qed

section \<open>Properties\<close>



text \<open>
  in a normalised keyset request every sort field is projected exactly once and in the same
  representation, so the key of the last row of a page can be read off the page; the sort fields are
  pairwise different, the statistics are kept, and normalising again changes nothing.
\<close>

theorem keyset_normalization_projects_the_key:
  assumes "validate_keyset_under hash l request = Inr v" and "NormalizeKeysetIdentifiers hash v sem = Inr r"
  shows "list_all (projected_once (ks_Projection (nk_Query (vk_request r)))) (ks_OrderBy (nk_Query (vk_request r))) \<and>
    distinct (map sort_Field (ks_OrderBy (nk_Query (vk_request r)))) \<and>
    vk_stats r = vk_stats v \<and> NormalizeKeysetIdentifiers hash r sem = Inr r"
proof -
  have "list_all (projected_once (ks_Projection (nk_Query (vk_request r)))) (ks_OrderBy (nk_Query (vk_request r))) \<and>
      distinct (map sort_Field (ks_OrderBy (nk_Query (vk_request r))))"
    using assms(2) by (auto simp: NormalizeKeysetIdentifiers_Inr Let_def list_all_iff)
  with NormalizeKeysetIdentifiers_keeps [OF assms] show ?thesis by blast
qed

theorem keyset_normalization_projects_the_key_witness:
  "\<exists>r. NormalizeKeysetIdentifiers sha256 (normalized_keyset sample_keyset) sample_semantics = Inr r \<and>
     list_all (projected_once (ks_Projection (nk_Query (vk_request r)))) (ks_OrderBy (nk_Query (vk_request r)))"
  using sample_keyset_normalizes [of sha256]
    keyset_normalization_projects_the_key [OF sample_keyset_valid [of 100 sha256]] by auto

text \<open>
  The integer texts of cursors are exactly the canonical decimal prints of the integers of the union
  of the signed and unsigned 64-bit ranges: no sign on zero, no leading zeros, no plus.
\<close>

theorem portable_integers_are_canonical:
  "validatePortableInteger s = None \<longleftrightarrow> (\<exists>i. s = itoa_int i \<and> - (2 ^ 63) \<le> i \<and> i < 2 ^ 64)"
  by (rule validatePortableInteger_iff)

end
