(* ===== verification/Config_Types.thy ===== *)
theory Config_Types
  imports Keyset_Query
begin

text \<open>
  The policy structures of \<^verbatim>\<open>internal/config/config.go\<close> as the policy engine and the validator of the
  configuration read them: principals, profiles with their resource patterns, query features and
  limits, and the aggregate and keyset shapes. Go maps are partial functions; a pointer to a bool or a
  string is an option; a slice whose nilness is tested is a list option.
\<close>

text \<open>The elements of a slice whose nilness is kept.\<close>

definition nil_slice :: "'a list option \<Rightarrow> 'a list" where
  "nil_slice xs = (case xs of None \<Rightarrow> [] | Some ys \<Rightarrow> ys)"

lemma nil_slice_simps [simp]: "nil_slice None = []" "nil_slice (Some ys) = ys"
  by (simp_all add: nil_slice_def)

lemma nil_slice_size [termination_simp]:
  "x \<in> set (nil_slice xs) \<Longrightarrow> size x < Suc (size_option (size_list size) xs)"
  "size_list size (nil_slice xs) \<le> size_option (size_list size) xs"
proof -
  show "size_list size (nil_slice xs) \<le> size_option (size_list size) xs" by (cases xs) simp_all
  show "x \<in> set (nil_slice xs) \<Longrightarrow> size x < Suc (size_option (size_list size) xs)"
    using size_list_estimation' [of x "nil_slice xs" "size x" size] by (cases xs) auto
qed

record Principal =
  principal_Profiles :: "string list"
  principal_Datasources :: "string list"

record PatternPolicy =
  Allow :: "string list"
  Deny :: "string list"

record ResourcePolicy =
  Schemas :: PatternPolicy
  Objects :: PatternPolicy
  Fields :: PatternPolicy

record AggregateShapeSource =
  source_Schema :: string
  source_Name :: string

datatype AggregateShapeFilter = AggregateShapeFilter
  (asf_Representation: Representation)
  (asf_Kind: string)
  (asf_Field: string)
  (asf_Operator: string)
  (asf_ValueTypes: "string list option")
  (asf_Expressions: "AggregateShapeFilter list option")

record AggregateShapeOutput =
  aso_Boundaries :: "string list option"
  aso_Representation :: Representation
  aso_Kind :: string
  aso_Field :: string
  aso_Function :: string
  aso_Alias :: string
  aso_Unit :: string
  aso_Timezone :: string

record AggregateShapeOrder =
  asr_Representation :: Representation
  asr_Kind :: string
  asr_Field :: string
  asr_Alias :: string
  asr_Direction :: string

text \<open>\<open>MaximumRowsExaminedPerScan\<close> is a \<open>uint64\<close>; it is only compared, so it is a natural number here.\<close>

record AggregateShape =
  ash_Name :: string
  ash_PublicDescription :: "string option"
  ash_Mode :: string
  ash_Source :: AggregateShapeSource
  ash_Projection :: "AggregateShapeOutput list"
  ash_Filter :: "AggregateShapeFilter option"
  ash_OrderBy :: "AggregateShapeOrder list option"
  ash_MaximumLimit :: int
  ash_RequiredIndex :: string
  ash_MaximumRowsExaminedPerScan :: nat
  ash_AllowTemporaryTable :: "bool option"
  ash_AllowFilesort :: "bool option"

record KeysetShapeProjection =
  ksp_Representation :: Representation
  ksp_Kind :: string
  ksp_Field :: string
  ksp_Alias :: string

record KeysetShapeOrder =
  kso_Representation :: Representation
  kso_Field :: string
  kso_Direction :: string

record KeysetSelectShape =
  ksh_Name :: string
  ksh_PublicDescription :: "string option"
  ksh_Source :: AggregateShapeSource
  ksh_Projection :: "KeysetShapeProjection list"
  ksh_Filter :: "AggregateShapeFilter option"
  ksh_OrderBy :: "KeysetShapeOrder list"
  ksh_MaximumLimit :: int
  ksh_RequiredIndex :: string
  ksh_MaximumRowsExaminedPerScan :: nat
  ksh_AllowTemporaryTable :: "bool option"
  ksh_AllowFilesort :: "bool option"

record QueryPolicy =
  AllowSourceText :: bool
  AllowFiltering :: bool
  AllowGroupBy :: bool
  AllowSorting :: bool
  AllowedFilterOperators :: "string list"
  AllowedAggregates :: "string list"
  AggregateShapes :: "AggregateShape list"
  KeysetSelectShapes :: "KeysetSelectShape list"

record Profile =
  prof_Datasources :: "string list"
  prof_Operations :: "Operation list"
  prof_Resources :: ResourcePolicy
  prof_Query :: QueryPolicy
  prof_Limits :: Limits

end
