(* ===== verification/Policy.thy ===== *)
theory Policy
  imports Config_Types
begin

text \<open>
  \<^verbatim>\<open>internal/policy/policy.go\<close>: the immutable policy snapshot, the binding of a principal to a profile and a
  datasource, resource patterns, and the authorisation of selects, explains, schema listings and
  object statistics. A snapshot is a Go pointer whose identity the code compares; \<open>snap_address\<close> is that
  identity. The defensive clones of \<open>NewSnapshot\<close> copy values and are the identity here.
\<close>

section \<open>Denials\<close>

datatype reason = DeniedOperation | DeniedResource | DeniedField | DeniedQueryFeature

datatype policy_error =
    Denial reason
  | Invalid ValidationError
  | BucketFailure bucket_error
  | PolicyFailure string

definition lift_validation :: "ValidationError + 'a \<Rightarrow> policy_error + 'a" where
  "lift_validation r = map_error Invalid r"

text \<open>\<open>IsDenial\<close>: the reason of a denial, if the error is one.\<close>

definition IsDenial :: "policy_error \<Rightarrow> reason option" where
  "IsDenial e = (case e of Denial r \<Rightarrow> Some r | _ \<Rightarrow> None)"

section \<open>Snapshots and bindings\<close>

record Snapshot =
  snap_address :: nat
  snap_version :: string
  snap_hash :: string
  hardLimits :: Limits
  principals :: "string \<rightharpoonup> Principal"
  profiles :: "string \<rightharpoonup> Profile"

record BindingKey =
  key_Profile :: string
  key_Datasource :: string

text \<open>The zero value of a binding has no owner.\<close>

record AuthorizedBinding =
  ab_owner :: "nat option"
  ab_principal :: string
  ab_key :: BindingKey
  ab_operation :: Operation
  ab_limits :: Limits
  ab_policyHash :: string

definition PrincipalProfiles :: "Snapshot \<Rightarrow> string \<Rightarrow> string list" where
  "PrincipalProfiles s principalName = (case principals s principalName of None \<Rightarrow> [] | Some p \<Rightarrow> principal_Profiles p)"

definition PrincipalDatasources :: "Snapshot \<Rightarrow> string \<Rightarrow> string list" where
  "PrincipalDatasources s principalName =
     (case principals s principalName of None \<Rightarrow> [] | Some p \<Rightarrow> principal_Datasources p)"

definition ProfileBinding :: "Snapshot \<Rightarrow> string \<Rightarrow> (string list \<times> Operation list \<times> Limits) option" where
  "ProfileBinding s name =
     map_option (\<lambda>p. (prof_Datasources p, prof_Operations p, prof_Limits p)) (profiles s name)"

definition AllowsSourceText :: "Snapshot \<Rightarrow> string \<Rightarrow> bool" where
  "AllowsSourceText s name = (case profiles s name of None \<Rightarrow> False | Some p \<Rightarrow> AllowSourceText (prof_Query p))"

text \<open>The assignment checks shared by \<open>AuthorizeBinding\<close> and \<open>profileForBinding\<close>, in the code's order.\<close>

definition assigned_profile ::
  "Snapshot \<Rightarrow> string \<Rightarrow> string \<Rightarrow> string \<Rightarrow> Operation \<Rightarrow> policy_error + Profile" where
  "assigned_profile s principalName profileName datasource operation =
     (case principals s principalName of
        None \<Rightarrow> Inl (Denial DeniedOperation)
      | Some pc \<Rightarrow>
          if profileName \<notin> set (principal_Profiles pc) \<or> datasource \<notin> set (principal_Datasources pc)
          then Inl (Denial DeniedOperation)
          else case profiles s profileName of
                 None \<Rightarrow> Inl (Denial DeniedOperation)
               | Some profile \<Rightarrow>
                   if datasource \<notin> set (prof_Datasources profile) \<or> operation \<notin> set (prof_Operations profile)
                   then Inl (Denial DeniedOperation) else Inr profile)"

definition AuthorizeBinding ::
  "Snapshot \<Rightarrow> string \<Rightarrow> string \<Rightarrow> string \<Rightarrow> Operation \<Rightarrow> policy_error + AuthorizedBinding" where
  "AuthorizeBinding s principalName profileName datasource operation =
     bind_result (assigned_profile s principalName profileName datasource operation) (\<lambda>profile.
       Inr \<lparr>ab_owner = Some (snap_address s), ab_principal = principalName,
            ab_key = \<lparr>key_Profile = profileName, key_Datasource = datasource\<rparr>, ab_operation = operation,
            ab_limits = Limits_Min (hardLimits s) (prof_Limits profile), ab_policyHash = snap_hash s\<rparr>)"

definition profileForBinding :: "Snapshot \<Rightarrow> AuthorizedBinding \<Rightarrow> Operation \<Rightarrow> policy_error + Profile" where
  "profileForBinding s b operation =
     check (fail_if (ab_owner b \<noteq> Some (snap_address s) \<or> ab_policyHash b \<noteq> snap_hash s \<or> ab_principal b = [] \<or>
                     key_Profile (ab_key b) = [] \<or> key_Datasource (ab_key b) = [] \<or> ab_operation b \<noteq> operation)
       (Denial DeniedOperation))
     (assigned_profile s (ab_principal b) (key_Profile (ab_key b)) (key_Datasource (ab_key b)) operation)"

section \<open>Resource patterns\<close>

text \<open>One part of a pattern against one part of a resource name.\<close>

definition match_part :: "string \<Rightarrow> string \<Rightarrow> bool \<Rightarrow> bool" where
  "match_part part value insensitive \<longleftrightarrow>
     part = ''*'' \<or> (if insensitive then EqualFold part value else part = value)"

fun match_parts :: "string list \<Rightarrow> string list \<Rightarrow> bool list \<Rightarrow> bool" where
  "match_parts (p # ps) (v # vs) (c # cs) \<longleftrightarrow> match_part p v c \<and> match_parts ps vs cs"
| "match_parts (p # ps) (v # vs) [] \<longleftrightarrow> match_part p v False \<and> match_parts ps vs []"
| "match_parts ps vs cs \<longleftrightarrow> True"

definition match :: "string \<Rightarrow> string list \<Rightarrow> bool list \<Rightarrow> bool" where
  "match pattern value caseInsensitive \<longleftrightarrow>
     (let parts = Split (CHR ''.'') pattern in
      length parts = length value \<and> match_parts parts value caseInsensitive)"

definition allowed :: "PatternPolicy \<Rightarrow> string list \<Rightarrow> bool list \<Rightarrow> bool" where
  "allowed policy value caseInsensitive \<longleftrightarrow>
     (if list_ex (\<lambda>pattern. match pattern value caseInsensitive) (Deny policy) then False
      else if Allow policy = [] then True
      else list_ex (\<lambda>pattern. match pattern value caseInsensitive) (Allow policy))"

text \<open>The three levels at which resources are checked.\<close>

definition schema_allowed :: "ResourcePolicy \<Rightarrow> IdentifierSemantics \<Rightarrow> string \<Rightarrow> bool" where
  "schema_allowed r sem schema = allowed (Schemas r) [schema] [CaseInsensitiveSchemas sem]"

definition object_allowed :: "ResourcePolicy \<Rightarrow> IdentifierSemantics \<Rightarrow> string \<Rightarrow> string \<Rightarrow> bool" where
  "object_allowed r sem schema object =
     allowed (Objects r) [schema, object] [CaseInsensitiveSchemas sem, CaseInsensitiveObjects sem]"

definition field_allowed :: "ResourcePolicy \<Rightarrow> IdentifierSemantics \<Rightarrow> string \<Rightarrow> string \<Rightarrow> string \<Rightarrow> bool" where
  "field_allowed r sem schema object field =
     allowed (Fields r) [schema, object, field]
       [CaseInsensitiveSchemas sem, CaseInsensitiveObjects sem, CaseInsensitiveFields sem]"

definition source_error :: "ResourcePolicy \<Rightarrow> IdentifierSemantics \<Rightarrow> ResourceRef \<Rightarrow> policy_error option" where
  "source_error r sem src =
     fail_if (\<not> schema_allowed r sem (ref_Schema src) \<or> \<not> object_allowed r sem (ref_Schema src) (ref_Name src))
       (Denial DeniedResource)"

definition fields_error ::
  "ResourcePolicy \<Rightarrow> IdentifierSemantics \<Rightarrow> ResourceRef \<Rightarrow> string list \<Rightarrow> policy_error option" where
  "fields_error r sem src names =
     range_error (\<lambda>_ field. fail_if (\<not> field_allowed r sem (ref_Schema src) (ref_Name src) field) (Denial DeniedField))
       names"

section \<open>Selects and explains\<close>

fun collectFields :: "Filter \<Rightarrow> string list" where
  "collectFields (Filter rep kind field op vals exprs) =
     (if kind = ''predicate'' then [field] else concat (map collectFields exprs))"

fun collectOperators :: "Filter \<Rightarrow> string list" where
  "collectOperators (Filter rep kind field op vals exprs) =
     (if kind = ''predicate'' then [op] else concat (map collectOperators exprs))"

definition referencedFields :: "NormalizedSpec \<Rightarrow> string list" where
  "referencedFields spec =
     sort (remdups (filter (\<lambda>field. field \<noteq> []) (
       map sel_Field (ns_Projection spec) @
       (case ns_Filter spec of None \<Rightarrow> [] | Some f \<Rightarrow> collectFields f) @
       ns_GroupBy spec @ map sort_Field (ns_OrderBy spec))))"

definition filter_feature_error :: "QueryPolicy \<Rightarrow> Filter option \<Rightarrow> policy_error option" where
  "filter_feature_error policy fo =
     (case fo of
        None \<Rightarrow> None
      | Some f \<Rightarrow> first_error [
          fail_if (\<not> AllowFiltering policy) (Denial DeniedQueryFeature),
          range_error (\<lambda>_ op. fail_if (op \<notin> set (AllowedFilterOperators policy)) (Denial DeniedQueryFeature))
            (collectOperators f)])"

definition authorizeFeatures :: "QueryPolicy \<Rightarrow> NormalizedSpec \<Rightarrow> policy_error option" where
  "authorizeFeatures policy spec = first_error [
     fail_if (UsesSourceText spec \<and> \<not> AllowSourceText policy) (Denial DeniedQueryFeature),
     filter_feature_error policy (ns_Filter spec),
     fail_if (ns_GroupBy spec \<noteq> [] \<and> \<not> AllowGroupBy policy) (Denial DeniedQueryFeature),
     fail_if (ns_OrderBy spec \<noteq> [] \<and> \<not> AllowSorting policy) (Denial DeniedQueryFeature),
     range_error (\<lambda>_ s. fail_if (sel_Kind s = ''aggregate'' \<and> sel_Function s \<notin> set (AllowedAggregates policy))
       (Denial DeniedQueryFeature)) (ns_Projection spec)]"

record AuthorizedQuery =
  aq_principal :: string
  aq_profile :: string
  aq_datasource :: string
  aq_operation :: Operation
  aq_limits :: Limits
  aq_query :: Validated

definition authorizeQuery ::
  "Snapshot \<Rightarrow> AuthorizedBinding \<Rightarrow> Operation \<Rightarrow> Validated \<Rightarrow> IdentifierSemantics \<Rightarrow> policy_error + AuthorizedQuery" where
  "authorizeQuery s b operation query sem =
     bind_result (profileForBinding s b operation) (\<lambda>profile.
       let effectiveLimits = Limits_Min (hardLimits s) (prof_Limits profile) in
       bind_result (lift_validation (Revalidate query (MaxProjectionFields effectiveLimits)
           (MaxGroupByFields effectiveLimits) (MaxOrderByFields effectiveLimits) (MaxPredicates effectiveLimits)
           (MaxExpressionDepth effectiveLimits) (MaxParameters effectiveLimits) (MaxRows effectiveLimits)
           (MaxOffset effectiveLimits))) (\<lambda>revalidated.
       let spec = Validated_Spec revalidated in
       check (first_error [
         (if operation = OperationSelect then map_option Invalid (ValidateSimpleSelect revalidated) else None),
         source_error (prof_Resources profile) sem (ns_Source spec),
         fields_error (prof_Resources profile) sem (ns_Source spec) (referencedFields spec),
         authorizeFeatures (prof_Query profile) spec])
       (Inr \<lparr>aq_principal = ab_principal b, aq_profile = key_Profile (ab_key b),
             aq_datasource = key_Datasource (ab_key b), aq_operation = operation, aq_limits = effectiveLimits,
             aq_query = revalidated\<rparr>)))"

definition AuthorizeExplain ::
  "Snapshot \<Rightarrow> AuthorizedBinding \<Rightarrow> Validated \<Rightarrow> IdentifierSemantics \<Rightarrow> policy_error + AuthorizedQuery" where
  "AuthorizeExplain s b query sem = authorizeQuery s b OperationExplainSelect query sem"

definition AuthorizeSelect ::
  "Snapshot \<Rightarrow> AuthorizedBinding \<Rightarrow> Validated \<Rightarrow> IdentifierSemantics \<Rightarrow> policy_error + AuthorizedQuery" where
  "AuthorizeSelect s b query sem = authorizeQuery s b OperationSelect query sem"

section \<open>Schema listings\<close>

record AuthorizedSchema =
  sc_principal :: string
  sc_profile :: string
  sc_datasource :: string
  sc_operation :: Operation
  sc_schema :: string
  sc_object :: string
  sc_limits :: Limits
  sc_resources :: ResourcePolicy
  sc_semantics :: IdentifierSemantics

definition AllowsObject :: "AuthorizedSchema \<Rightarrow> string \<Rightarrow> bool" where
  "AllowsObject a object \<longleftrightarrow>
     (if sc_operation a \<noteq> OperationListObjects \<or> sc_object a \<noteq> [] then False
      else object_allowed (sc_resources a) (sc_semantics a) (sc_schema a) object)"

definition AllowsField :: "AuthorizedSchema \<Rightarrow> string \<Rightarrow> bool" where
  "AllowsField a field \<longleftrightarrow>
     (if sc_operation a \<noteq> OperationDescribeObject \<or> sc_object a = [] then False
      else field_allowed (sc_resources a) (sc_semantics a) (sc_schema a) (sc_object a) field)"

definition schema_request_error :: "Operation \<Rightarrow> ResourceRef \<Rightarrow> policy_error option" where
  "schema_request_error operation resource =
     (if operation = OperationListObjects then
        fail_if (\<not> IsIdentifier (ref_Schema resource) \<or> ref_Name resource \<noteq> []) (Denial DeniedResource)
      else if operation = OperationDescribeObject then
        fail_if (\<not> IsIdentifier (ref_Schema resource) \<or> \<not> IsIdentifier (ref_Name resource)) (Denial DeniedResource)
      else Some (Denial DeniedOperation))"

definition authorizeSchema ::
  "Snapshot \<Rightarrow> AuthorizedBinding \<Rightarrow> Operation \<Rightarrow> ResourceRef \<Rightarrow> IdentifierSemantics \<Rightarrow> policy_error + AuthorizedSchema" where
  "authorizeSchema s b operation resource sem =
     check (schema_request_error operation resource)
     (bind_result (profileForBinding s b operation) (\<lambda>profile.
       check (first_error [
         fail_if (\<not> schema_allowed (prof_Resources profile) sem (ref_Schema resource)) (Denial DeniedResource),
         fail_if (ref_Name resource \<noteq> [] \<and>
                  \<not> object_allowed (prof_Resources profile) sem (ref_Schema resource) (ref_Name resource))
           (Denial DeniedResource)])
       (Inr \<lparr>sc_principal = ab_principal b, sc_profile = key_Profile (ab_key b),
             sc_datasource = key_Datasource (ab_key b), sc_operation = operation,
             sc_schema = ref_Schema resource, sc_object = ref_Name resource,
             sc_limits = Limits_Min (hardLimits s) (prof_Limits profile),
             sc_resources = prof_Resources profile, sc_semantics = sem\<rparr>)))"

definition AuthorizeListObjects ::
  "Snapshot \<Rightarrow> AuthorizedBinding \<Rightarrow> string \<Rightarrow> IdentifierSemantics \<Rightarrow> policy_error + AuthorizedSchema" where
  "AuthorizeListObjects s b schema sem =
     authorizeSchema s b OperationListObjects \<lparr>ref_Schema = schema, ref_Name = []\<rparr> sem"

definition AuthorizeDescribeObject ::
  "Snapshot \<Rightarrow> AuthorizedBinding \<Rightarrow> ResourceRef \<Rightarrow> IdentifierSemantics \<Rightarrow> policy_error + AuthorizedSchema" where
  "AuthorizeDescribeObject s b object sem = authorizeSchema s b OperationDescribeObject object sem"

section \<open>Object statistics\<close>

record AuthorizedObjectStatistics =
  os_principal :: string
  os_credentialIdentifier :: string
  os_profile :: string
  os_policyVersion :: string
  os_policyHash :: string
  os_datasource :: string
  os_adapter :: string
  os_operation :: Operation
  os_schema :: string
  os_object :: string
  os_limits :: Limits
  os_semantics :: IdentifierSemantics
  os_semanticsGeneration :: string

definition canonicalPolicyIdentifier :: "string \<Rightarrow> bool \<Rightarrow> string" where
  "canonicalPolicyIdentifier value insensitive = (if insensitive then ToLower value else value)"

text \<open>The four texts and the three flags (\<^verbatim>\<open>%t\<close>), separated by NUL bytes, for statistics and keyset grants alike.\<close>

definition format_bool :: "bool \<Rightarrow> string" where
  "format_bool b = (if b then ''true'' else ''false'')"

definition generation_input :: "string \<Rightarrow> string \<Rightarrow> string \<Rightarrow> string \<Rightarrow> IdentifierSemantics \<Rightarrow> string" where
  "generation_input policyHash profile datasource adapterName sem =
     join [CHR 0x00] [policyHash, profile, datasource, adapterName,
       format_bool (CaseInsensitiveSchemas sem) @ format_bool (CaseInsensitiveObjects sem)
         @ format_bool (CaseInsensitiveFields sem)]"

definition AuthorizeObjectStatistics ::
  "Snapshot \<Rightarrow> AuthorizedBinding \<Rightarrow> string \<Rightarrow> string \<Rightarrow> ResourceRef \<Rightarrow> IdentifierSemantics
     \<Rightarrow> policy_error + AuthorizedObjectStatistics" where
  "AuthorizeObjectStatistics s b credentialIdentifier adapterName resource sem =
     check (first_error [
       fail_if (ab_principal b = [] \<or> credentialIdentifier = [] \<or> key_Profile (ab_key b) = [] \<or> adapterName = [])
         (Denial DeniedOperation),
       fail_if (\<not> IsIdentifier (ref_Schema resource) \<or> \<not> IsIdentifier (ref_Name resource)) (Denial DeniedResource)])
     (bind_result (profileForBinding s b OperationDescribeObjectStatistics) (\<lambda>profile.
       check (source_error (prof_Resources profile) sem resource)
       (Inr \<lparr>os_principal = ab_principal b, os_credentialIdentifier = credentialIdentifier,
             os_profile = key_Profile (ab_key b), os_policyVersion = snap_version s, os_policyHash = snap_hash s,
             os_datasource = key_Datasource (ab_key b), os_adapter = adapterName,
             os_operation = OperationDescribeObjectStatistics,
             os_schema = canonicalPolicyIdentifier (ref_Schema resource) (CaseInsensitiveSchemas sem),
             os_object = canonicalPolicyIdentifier (ref_Name resource) (CaseInsensitiveObjects sem),
             os_limits = Limits_Min (hardLimits s) (prof_Limits profile), os_semantics = sem,
             os_semanticsGeneration = hex_encode (sha256
               (generation_input (snap_hash s) (key_Profile (ab_key b)) (key_Datasource (ab_key b)) adapterName sem))\<rparr>)))"

section \<open>Bindings\<close>

definition assigned :: "Snapshot \<Rightarrow> string \<Rightarrow> string \<Rightarrow> string \<Rightarrow> Operation \<Rightarrow> Profile \<Rightarrow> bool" where
  "assigned s principalName profileName datasource operation profile \<longleftrightarrow>
     (\<exists>pc. principals s principalName = Some pc \<and> profileName \<in> set (principal_Profiles pc) \<and>
        datasource \<in> set (principal_Datasources pc)) \<and>
     profiles s profileName = Some profile \<and> datasource \<in> set (prof_Datasources profile) \<and>
     operation \<in> set (prof_Operations profile)"

lemma assigned_profile_Inr [simp]:
  "assigned_profile s principalName profileName datasource operation = Inr profile \<longleftrightarrow>
     assigned s principalName profileName datasource operation profile"
  by (auto simp: assigned_profile_def assigned_def split: option.splits)

lemma assigned_profile_Inl: "assigned_profile s p pr d op = Inl e \<Longrightarrow> e = Denial DeniedOperation"
  by (auto simp: assigned_profile_def split: option.splits if_splits)

text \<open>A binding of the snapshot: minted by it, for its own hash.\<close>

definition bound_to :: "Snapshot \<Rightarrow> AuthorizedBinding \<Rightarrow> Operation \<Rightarrow> bool" where
  "bound_to s b operation \<longleftrightarrow>
     ab_owner b = Some (snap_address s) \<and> ab_policyHash b = snap_hash s \<and> ab_principal b \<noteq> [] \<and>
     key_Profile (ab_key b) \<noteq> [] \<and> key_Datasource (ab_key b) \<noteq> [] \<and> ab_operation b = operation"

lemma profileForBinding_Inr:
  "profileForBinding s b operation = Inr profile \<longleftrightarrow>
     bound_to s b operation \<and>
     assigned s (ab_principal b) (key_Profile (ab_key b)) (key_Datasource (ab_key b)) operation profile"
  by (auto simp: profileForBinding_def bound_to_def)

lemma profileForBinding_Inl: "profileForBinding s b operation = Inl e \<Longrightarrow> e = Denial DeniedOperation"
  by (auto simp: profileForBinding_def check_def dest: assigned_profile_Inl split: option.splits)

lemma AuthorizeBinding_Inr:
  "AuthorizeBinding s principalName profileName datasource operation = Inr b \<longleftrightarrow>
     (\<exists>profile. assigned s principalName profileName datasource operation profile \<and>
        b = \<lparr>ab_owner = Some (snap_address s), ab_principal = principalName,
             ab_key = \<lparr>key_Profile = profileName, key_Datasource = datasource\<rparr>, ab_operation = operation,
             ab_limits = Limits_Min (hardLimits s) (prof_Limits profile), ab_policyHash = snap_hash s\<rparr>)"
  by (auto simp: AuthorizeBinding_def)

section \<open>Patterns\<close>

fun resource_allowed :: "ResourcePolicy \<Rightarrow> IdentifierSemantics \<Rightarrow> string list \<Rightarrow> bool" where
  "resource_allowed r sem [schema] = schema_allowed r sem schema"
| "resource_allowed r sem [schema, object] = object_allowed r sem schema object"
| "resource_allowed r sem [schema, object, field] = field_allowed r sem schema object field"
| "resource_allowed r sem _ = False"

lemma allowed_iff:
  "allowed p v ci \<longleftrightarrow>
     (\<forall>pattern \<in> set (Deny p). \<not> match pattern v ci) \<and>
     (Allow p = [] \<or> (\<exists>pattern \<in> set (Allow p). match pattern v ci))"
  by (auto simp: allowed_def list_ex_iff)

lemma source_error_None [simp]:
  "source_error r sem src = None \<longleftrightarrow>
     schema_allowed r sem (ref_Schema src) \<and> object_allowed r sem (ref_Schema src) (ref_Name src)"
  by (auto simp: source_error_def)

lemma fields_error_None [simp]:
  "fields_error r sem src names = None \<longleftrightarrow>
     (\<forall>field \<in> set names. field_allowed r sem (ref_Schema src) (ref_Name src) field)"
  unfolding fields_error_def by (rule range_error_None_set) simp

lemma match_part_canonical:
  assumes "list_all is_ascii v"
  shows "match_part p (canonicalPolicyIdentifier v ci) ci = match_part p v ci"
proof -
  have "list_all is_ascii (ToLower v)"
    using assms by (auto simp: ToLower_def list_all_iff lower_char_def is_ascii_def is_upper_def byte_char_of)
  then show ?thesis
    using assms by (simp add: match_part_def canonicalPolicyIdentifier_def EqualFold_def fold_string_ascii)
qed

lemma allowed_canonical2:
  assumes "list_all is_ascii a" "list_all is_ascii b"
  shows "allowed p [canonicalPolicyIdentifier a ca] [ca] = allowed p [a] [ca]"
    and "allowed p [canonicalPolicyIdentifier a ca, canonicalPolicyIdentifier b cb] [ca, cb] = allowed p [a, b] [ca, cb]"
proof -
  have "match pat [canonicalPolicyIdentifier a ca] [ca] = match pat [a] [ca]" for pat
    using assms(1) by (auto simp: match_def Let_def length_Suc_conv match_part_canonical)
  moreover have "match pat [canonicalPolicyIdentifier a ca, canonicalPolicyIdentifier b cb] [ca, cb] = match pat [a, b] [ca, cb]" for pat
    using assms by (auto simp: match_def Let_def length_Suc_conv match_part_canonical)
  ultimately show "allowed p [canonicalPolicyIdentifier a ca] [ca] = allowed p [a] [ca]"
    and "allowed p [canonicalPolicyIdentifier a ca, canonicalPolicyIdentifier b cb] [ca, cb] = allowed p [a, b] [ca, cb]"
    by (simp_all only: allowed_def)
qed

section \<open>The contract of an authorisation\<close>

text \<open>
  Every operation-specific authorisation hands out a grant only to a binding of the same snapshot for
  the same operation, limits it by the meet of the hard limits and of the profile, and only covers
  resources the profile's patterns allow. The consequences callers rely on are derived once.
\<close>

locale authorisation =
  fixes authorize :: "Snapshot \<Rightarrow> AuthorizedBinding \<Rightarrow> 'r \<Rightarrow> IdentifierSemantics \<Rightarrow> policy_error + 'g"
    and operation :: Operation
    and grant_limits :: "'g \<Rightarrow> Limits"
    and covers :: "'g \<Rightarrow> string list set"
  assumes granted: "authorize s b r sem = Inr g \<Longrightarrow>
      \<exists>profile. profileForBinding s b operation = Inr profile \<and>
        grant_limits g = Limits_Min (hardLimits s) (prof_Limits profile) \<and>
        (\<forall>name \<in> covers g. resource_allowed (prof_Resources profile) sem name)"
begin

lemma grant_within_hard_limits: "authorize s b r sem = Inr g \<Longrightarrow> limits_le (grant_limits g) (hardLimits s)"
  using granted limits_meet.cobounded1 by metis

lemma grant_needs_own_binding: "authorize s b r sem = Inr g \<Longrightarrow> bound_to s b operation"
  using granted profileForBinding_Inr by metis

lemma grant_needs_assignment:
  "authorize s b r sem = Inr g \<Longrightarrow>
     \<exists>profile. assigned s (ab_principal b) (key_Profile (ab_key b)) (key_Datasource (ab_key b)) operation profile"
  using granted profileForBinding_Inr by metis

lemma grant_covers_allowed:
  assumes "authorize s b r sem = Inr g" "name \<in> covers g" "profiles s (key_Profile (ab_key b)) = Some profile"
  shows "resource_allowed (prof_Resources profile) sem name"
  using granted [OF assms(1)] assms(2,3) by (auto simp: profileForBinding_Inr assigned_def)

end

lemma authorizeQuery_Inr:
  "authorizeQuery s b operation query sem = Inr g \<longleftrightarrow>
     (\<exists>profile rv. profileForBinding s b operation = Inr profile \<and>
        revalidate_under (Limits_Min (hardLimits s) (prof_Limits profile)) query = Inr rv \<and>
        (operation = OperationSelect \<longrightarrow> ValidateSimpleSelect rv = None) \<and>
        schema_allowed (prof_Resources profile) sem (ref_Schema (ns_Source (v_spec rv))) \<and>
        object_allowed (prof_Resources profile) sem (ref_Schema (ns_Source (v_spec rv))) (ref_Name (ns_Source (v_spec rv))) \<and>
        (\<forall>field \<in> set (referencedFields (Validated_Spec rv)).
           field_allowed (prof_Resources profile) sem (ref_Schema (ns_Source (v_spec rv)))
             (ref_Name (ns_Source (v_spec rv))) field) \<and>
        authorizeFeatures (prof_Query profile) (Validated_Spec rv) = None \<and>
        g = \<lparr>aq_principal = ab_principal b, aq_profile = key_Profile (ab_key b),
             aq_datasource = key_Datasource (ab_key b), aq_operation = operation,
             aq_limits = Limits_Min (hardLimits s) (prof_Limits profile), aq_query = rv\<rparr>)"
  unfolding authorizeQuery_def Let_def lift_validation_def revalidate_under_def
  by (auto simp: Validated_Spec_def cloneNormalized_def)

definition query_covers :: "AuthorizedQuery \<Rightarrow> string list set" where
  "query_covers g =
     (let spec = Validated_Spec (aq_query g); schema = ref_Schema (ns_Source spec); object = ref_Name (ns_Source spec) in
      {[schema], [schema, object]} \<union> (\<lambda>field. [schema, object, field]) ` set (referencedFields spec))"

lemma authorizeQuery_contract:
  "authorizeQuery s b operation query sem = Inr g \<Longrightarrow>
     \<exists>profile. profileForBinding s b operation = Inr profile \<and>
       aq_limits g = Limits_Min (hardLimits s) (prof_Limits profile) \<and>
       (\<forall>name \<in> query_covers g. resource_allowed (prof_Resources profile) sem name)"
  unfolding authorizeQuery_Inr
  by (auto simp: query_covers_def Let_def Validated_Spec_def cloneNormalized_def)

interpretation select_grant: authorisation AuthorizeSelect OperationSelect aq_limits query_covers
  by unfold_locales (simp add: AuthorizeSelect_def authorizeQuery_contract)

interpretation explain_grant: authorisation AuthorizeExplain OperationExplainSelect aq_limits query_covers
  by unfold_locales (simp add: AuthorizeExplain_def authorizeQuery_contract)

definition schema_covers :: "AuthorizedSchema \<Rightarrow> string list set" where
  "schema_covers g =
     insert [sc_schema g] (if sc_object g = [] then {} else {[sc_schema g, sc_object g]}) \<union>
     {[sc_schema g, object] | object. AllowsObject g object} \<union>
     {[sc_schema g, sc_object g, field] | field. AllowsField g field}"

lemma authorizeSchema_contract:
  "authorizeSchema s b operation resource sem = Inr g \<Longrightarrow>
     \<exists>profile. profileForBinding s b operation = Inr profile \<and>
       sc_limits g = Limits_Min (hardLimits s) (prof_Limits profile) \<and>
       (\<forall>name \<in> schema_covers g. resource_allowed (prof_Resources profile) sem name)"
  by (auto simp: authorizeSchema_def schema_covers_def AllowsObject_def AllowsField_def split: if_splits)

interpretation list_grant: authorisation AuthorizeListObjects OperationListObjects sc_limits schema_covers
  by unfold_locales (simp add: AuthorizeListObjects_def authorizeSchema_contract)

interpretation describe_grant: authorisation AuthorizeDescribeObject OperationDescribeObject sc_limits schema_covers
  by unfold_locales (simp add: AuthorizeDescribeObject_def authorizeSchema_contract)

definition statistics_covers :: "AuthorizedObjectStatistics \<Rightarrow> string list set" where
  "statistics_covers g = {[os_schema g], [os_schema g, os_object g]}"

interpretation statistics_grant: authorisation
  "\<lambda>s b (credential, adapterName, resource). AuthorizeObjectStatistics s b credential adapterName resource"
  OperationDescribeObjectStatistics os_limits statistics_covers
proof (unfold_locales, goal_cases)
  case (1 s b r sem g)
  obtain credential adapterName resource where r: "r = (credential, adapterName, resource)" by (cases r) auto
  from 1 obtain profile where p: "profileForBinding s b OperationDescribeObjectStatistics = Inr profile"
    and ids: "IsIdentifier (ref_Schema resource)" "IsIdentifier (ref_Name resource)"
    and ok: "schema_allowed (prof_Resources profile) sem (ref_Schema resource)"
      "object_allowed (prof_Resources profile) sem (ref_Schema resource) (ref_Name resource)"
    and g: "os_limits g = Limits_Min (hardLimits s) (prof_Limits profile)"
      "os_schema g = canonicalPolicyIdentifier (ref_Schema resource) (CaseInsensitiveSchemas sem)"
      "os_object g = canonicalPolicyIdentifier (ref_Name resource) (CaseInsensitiveObjects sem)"
    by (auto simp: r AuthorizeObjectStatistics_def)
  with allowed_canonical2 [OF IsIdentifier_ascii [OF ids(1)] IsIdentifier_ascii [OF ids(2)]] show ?case
    by (auto simp: statistics_covers_def schema_allowed_def object_allowed_def)
qed

end
