(* ===== verification/Json_Tree.thy ===== *)
theory Json_Tree
  imports Go_Json
begin

text \<open>
  JSON values as trees and the compact text \<open>json.Marshal\<close> prints for them. The policy engine compares
  two signatures by comparing their JSON texts; that this is comparing the signatures themselves is a
  fact about the printer, proved here once: a printed text determines the tree it was printed from,
  whatever follows it, as soon as the strings of one of the two trees are plain ASCII (as identifiers
  and keywords are). A Go string that is not valid UTF-8 is printed with replacement characters, so
  nothing of the kind holds without that condition.
\<close>

datatype json = JStr string | JArr "json list" | JObj "(string \<times> json) list"

text \<open>The elements after the opening bracket, and the elements after the first one.\<close>

fun json_print :: "json \<Rightarrow> string" and json_elems :: "json list \<Rightarrow> string" and json_tail :: "json list \<Rightarrow> string"
  and json_fields :: "(string \<times> json) list \<Rightarrow> string" and json_more :: "(string \<times> json) list \<Rightarrow> string" where
  "json_print (JStr s) = json_quote s"
| "json_print (JArr xs) = CHR ''['' # json_elems xs"
| "json_print (JObj fs) = CHR ''{'' # json_fields fs"
| "json_elems [] = '']''"
| "json_elems (x # xs) = json_print x @ json_tail xs"
| "json_tail [] = '']''"
| "json_tail (x # xs) = CHR '','' # json_print x @ json_tail xs"
| "json_fields [] = ''}''"
| "json_fields ((n, x) # fs) = json_quote n @ CHR '':'' # json_print x @ json_more fs"
| "json_more [] = ''}''"
| "json_more ((n, x) # fs) = CHR '','' # json_quote n @ CHR '':'' # json_print x @ json_more fs"

section \<open>Plain strings\<close>

definition plain_char :: "char \<Rightarrow> bool" where
  "plain_char c \<longleftrightarrow> is_ascii c \<and> json_escape_ascii c = [c]"

definition plain :: "string \<Rightarrow> bool" where
  "plain s \<longleftrightarrow> list_all plain_char s"

lemma plain_Nil [simp]: "plain []"
  by (simp add: plain_def)

lemma plain_Cons: "plain (c # s) \<longleftrightarrow> plain_char c \<and> plain s"
  by (simp add: plain_def)

fun plain_json :: "json \<Rightarrow> bool" where
  "plain_json (JStr s) \<longleftrightarrow> plain s"
| "plain_json (JArr xs) \<longleftrightarrow> (\<forall>x \<in> set xs. plain_json x)"
| "plain_json (JObj fs) \<longleftrightarrow> (\<forall>(n, x) \<in> set fs. plain n \<and> plain_json x)"

lemma plain_char_not: "plain_char c \<Longrightarrow> c \<noteq> quote_char \<and> c \<noteq> bslash \<and> byte c < 128"
  by (auto simp: plain_char_def json_escape_ascii_def is_ascii_def split: if_splits)

lemma json_escape_ascii_cases: "json_escape_ascii c = [c] \<and> c \<noteq> quote_char \<or> hd (json_escape_ascii c) = bslash \<and> json_escape_ascii c \<noteq> []"
  by (auto simp: json_escape_ascii_def)

text \<open>Whatever is printed for a string that is not plain at its head starts with a character that is not plain.\<close>

lemma json_escape_Cons:
  "(is_ascii c \<and> plain_char c \<and> c \<noteq> quote_char \<and> json_escape (c # t) = c # json_escape t) \<or>
   (\<exists>d rest. json_escape (c # t) = d # rest \<and> \<not> plain_char d \<and> d \<noteq> quote_char)"
proof (cases "byte c < 128")
  case True
  then have e: "json_escape (c # t) = json_escape_ascii c @ json_escape t" by (subst json_escape.simps) simp
  show ?thesis
  proof (cases "json_escape_ascii c = [c] \<and> c \<noteq> quote_char")
    case plain: True
    with True e show ?thesis by (simp add: plain_char_def is_ascii_def)
  next
    case False
    then obtain rest where "json_escape_ascii c = bslash # rest"
      using json_escape_ascii_cases [of c] by (metis list.collapse)
    with e have "json_escape (c # t) = bslash # rest @ json_escape t" by simp
    moreover have "\<not> plain_char bslash" using plain_char_not by blast
    moreover have "bslash \<noteq> quote_char" by (simp add: bslash_def quote_char_def)
    ultimately show ?thesis by blast
  qed
next
  case False
  let ?w = "snd (DecodeRune (c # t))"
  have nb: "\<not> plain_char bslash" "bslash \<noteq> quote_char" using plain_char_not
    by (blast, simp add: bslash_def quote_char_def)
  have w: "take ?w (c # t) = c # take (?w - 1) t" using DecodeRune_width [of "c # t"] by (cases ?w) auto
  have nc: "\<not> plain_char c" "c \<noteq> quote_char" using False plain_char_not by (blast, auto simp: quote_char_def)
  have "json_escape (c # t) =
      (if DecodeRune (c # t) = (RuneError, 1) then bslash # ''ufffd''
       else if fst (DecodeRune (c # t)) = 8232 then bslash # ''u2028''
       else if fst (DecodeRune (c # t)) = 8233 then bslash # ''u2029''
       else take ?w (c # t)) @ json_escape (drop ?w (c # t))"
    using False by (subst json_escape.simps) simp
  with nb nc w show ?thesis by (auto split: if_splits)
qed

lemma json_escape_unique:
  "plain t \<Longrightarrow> json_escape s @ quote_char # r = t @ quote_char # u \<Longrightarrow> s = t \<and> r = u"
proof (induction t arbitrary: s)
  case Nil
  show ?case
  proof (cases s)
    case Nil
    with Nil.prems show ?thesis by (simp add: json_escape.simps)
  next
    case (Cons c s')
    with Nil.prems(2) json_escape_Cons [of c s'] show ?thesis by auto
  qed
next
  case (Cons d t)
  then have d: "plain_char d" "d \<noteq> quote_char" using plain_char_not by (auto simp: plain_Cons)
  show ?case
  proof (cases s)
    case Nil
    with Cons.prems(2) d show ?thesis by (simp add: json_escape.simps)
  next
    case (Cons c s')
    with Cons.prems(2) d json_escape_Cons [of c s'] have "c = d" "json_escape s' @ quote_char # r = t @ quote_char # u"
      by auto
    with Cons.IH Cons.prems(1) Cons show ?thesis by (auto simp: plain_Cons)
  qed
qed

lemma json_escape_plain: "plain s \<Longrightarrow> json_escape s = s"
proof (induction s)
  case Nil
  show ?case by (simp add: json_escape.simps)
next
  case (Cons c s)
  with json_escape_Cons [of c s] show ?case
    by (auto simp: plain_Cons plain_char_def is_ascii_def json_escape.simps [of "c # s"])
qed

lemma json_quote_unique: "plain s \<Longrightarrow> json_quote s @ r = json_quote t @ u \<Longrightarrow> s = t \<and> r = u"
  using json_escape_unique [of s t u r] by (auto simp: json_quote_def json_escape_plain)

section \<open>A printed text determines its tree\<close>

lemma json_print_hd: "\<exists>c rest. json_print x = c # rest \<and> c \<in> {quote_char, CHR ''['', CHR ''{''}"
  by (cases x) (auto simp: json_quote_def)

lemma bracket_chars [simp]:
  "quote_char \<noteq> CHR ''[''" "quote_char \<noteq> CHR ''{''" "quote_char \<noteq> CHR '']''" "quote_char \<noteq> CHR ''}''"
  "CHR ''['' \<noteq> quote_char" "CHR ''{'' \<noteq> quote_char" "CHR '']'' \<noteq> quote_char" "CHR ''}'' \<noteq> quote_char"
  by (simp_all add: quote_char_def)

lemma json_quote_hd: "json_quote s = quote_char # json_escape s @ [quote_char]"
  by (simp add: json_quote_def)

lemma json_elems_nonempty: "json_print x @ r \<noteq> CHR '']'' # u"
  using json_print_hd [of x] by auto

lemma json_unique:
  "plain_json x \<Longrightarrow> json_print x @ r = json_print y @ u \<Longrightarrow> x = y \<and> r = u"
  "list_all plain_json xs \<Longrightarrow> json_elems xs @ r = json_elems ys @ u \<Longrightarrow> xs = ys \<and> r = u"
  "list_all plain_json xs \<Longrightarrow> json_tail xs @ r = json_tail ys @ u \<Longrightarrow> xs = ys \<and> r = u"
  "list_all (\<lambda>(n, x). plain n \<and> plain_json x) fs \<Longrightarrow> json_fields fs @ r = json_fields gs @ u \<Longrightarrow> fs = gs \<and> r = u"
  "list_all (\<lambda>(n, x). plain n \<and> plain_json x) fs \<Longrightarrow> json_more fs @ r = json_more gs @ u \<Longrightarrow> fs = gs \<and> r = u"
proof (induction x and xs and xs and fs and fs arbitrary: y r u and ys r u and ys r u and gs r u and gs r u
    rule: json_print_json_elems_json_tail_json_fields_json_more.induct)
  case (1 s)
  show ?case
  proof (cases y)
    case (JStr t)
    with 1 json_quote_unique [of s r t u] show ?thesis by simp
  qed (use 1 in \<open>simp_all add: json_quote_hd\<close>)
next
  case (2 xs)
  then show ?case by (cases y) (auto simp: json_quote_hd list_all_iff)
next
  case (3 fs)
  then show ?case by (cases y) (auto simp: json_quote_hd list_all_iff)
next
  case 4
  then show ?case using json_elems_nonempty by (cases ys) (auto dest: sym)
next
  case (5 x xs)
  then show ?case
  proof (cases ys)
    case Nil
    with "5.prems"(2) json_elems_nonempty [of x "json_tail xs @ r" u] show ?thesis by simp
  next
    case (Cons y ys')
    with "5.prems" have "x = y \<and> json_tail xs @ r = json_tail ys' @ u" by (intro "5.IH"(1)) simp_all
    moreover from this "5.prems" have "xs = ys' \<and> r = u" by (intro "5.IH"(2)) simp_all
    ultimately show ?thesis using Cons by simp
  qed
next
  case 6
  then show ?case by (cases ys) auto
next
  case (7 x xs)
  show ?case
  proof (cases ys)
    case Nil
    with "7.prems" show ?thesis by simp
  next
    case (Cons y ys')
    with "7.prems" have "x = y \<and> json_tail xs @ r = json_tail ys' @ u" by (intro "7.IH"(1)) simp_all
    moreover from this "7.prems" have "xs = ys' \<and> r = u" by (intro "7.IH"(2)) simp_all
    ultimately show ?thesis using Cons by simp
  qed
next
  case 8
  then show ?case by (cases gs) (auto simp: json_quote_hd)
next
  case (9 n x fs)
  show ?case
  proof (cases gs)
    case Nil
    with "9.prems" show ?thesis by (simp add: json_quote_hd)
  next
    case (Cons g gs')
    obtain m y where g: "g = (m, y)" by (cases g)
    from "9.prems" Cons g have "n = m \<and> CHR '':'' # json_print x @ json_more fs @ r = CHR '':'' # json_print y @ json_more gs' @ u"
      by (intro json_quote_unique) auto
    moreover from this "9.prems" have "x = y \<and> json_more fs @ r = json_more gs' @ u"
      by (intro "9.IH"(1)) simp_all
    moreover from this "9.prems" have "fs = gs' \<and> r = u"
      by (intro "9.IH"(2)) simp_all
    ultimately show ?thesis using Cons g by simp
  qed
next
  case 10
  then show ?case by (cases gs) auto
next
  case (11 n x fs)
  show ?case
  proof (cases gs)
    case Nil
    with "11.prems" show ?thesis by simp
  next
    case (Cons g gs')
    obtain m y where g: "g = (m, y)" by (cases g)
    from "11.prems" Cons g have "n = m \<and> CHR '':'' # json_print x @ json_more fs @ r = CHR '':'' # json_print y @ json_more gs' @ u"
      by (intro json_quote_unique) auto
    moreover from this "11.prems" have "x = y \<and> json_more fs @ r = json_more gs' @ u"
      by (intro "11.IH"(1)) simp_all
    moreover from this "11.prems" have "fs = gs' \<and> r = u"
      by (intro "11.IH"(2)) simp_all
    ultimately show ?thesis using Cons g by simp
  qed
qed

lemma json_print_inject: "plain_json x \<Longrightarrow> json_print x = json_print y \<longleftrightarrow> x = y"
  using json_unique(1) [of x "[]" y "[]"] by auto

section \<open>The same texts as the string-level printers\<close>

lemma json_tail_join: "json_tail xs = concat (map (\<lambda>x. CHR '','' # json_print x) xs) @ '']''"
  by (induction xs) simp_all

lemma join_Cons: "join sep (x # xs) = x @ concat (map (\<lambda>y. sep @ y) xs)"
  by (induction xs arbitrary: x) simp_all

lemma json_print_array: "json_print (JArr xs) = json_array (map json_print xs)"
  by (cases xs) (simp_all add: json_array_def comma_separated_def join_Cons json_tail_join comp_def)

lemma json_more_join:
  "json_more fs = concat (map (\<lambda>f. CHR '','' # json_quote (fst f) @ CHR '':'' # json_print (snd f)) fs) @ ''}''"
  by (induction fs) auto

lemma json_print_object: "json_print (JObj fs) = json_object (map (\<lambda>(n, x). (n, json_print x)) fs)"
proof (cases fs)
  case (Cons f gs)
  obtain n x where "f = (n, x)" by (cases f)
  with Cons show ?thesis
    by (simp add: json_object_def comma_separated_def join_Cons json_more_join comp_def case_prod_beta)
qed (simp add: json_object_def comma_separated_def)

section \<open>Building trees\<close>

text \<open>A string field tagged \<open>omitempty\<close>, and how a field is read back from the tree.\<close>

definition tree_omit :: "string \<Rightarrow> string \<Rightarrow> (string \<times> json) list" where
  "tree_omit name v = (if v = [] then [] else [(name, JStr v)])"

definition tree_omit_list :: "string \<Rightarrow> json list \<Rightarrow> (string \<times> json) list" where
  "tree_omit_list name xs = (if xs = [] then [] else [(name, JArr xs)])"

definition or_else :: "'a option \<Rightarrow> 'a option \<Rightarrow> 'a option" where
  "or_else x y = (case x of None \<Rightarrow> y | Some v \<Rightarrow> Some v)"

definition omitted_string :: "string \<Rightarrow> json option" where
  "omitted_string v = (if v = [] then None else Some (JStr v))"

definition omitted_list :: "json list \<Rightarrow> json option" where
  "omitted_list xs = (if xs = [] then None else Some (JArr xs))"

lemma or_else_None [simp]: "or_else x None = x"
  by (cases x) (simp_all add: or_else_def)

lemma omitted_inject [simp]:
  "omitted_string v = omitted_string w \<longleftrightarrow> v = w" "omitted_list xs = omitted_list ys \<longleftrightarrow> xs = ys"
  by (auto simp: omitted_string_def omitted_list_def)

lemma map_of_tree_omit:
  "map_of (tree_omit n v @ fs) m = (if m = n then or_else (omitted_string v) (map_of fs m) else map_of fs m)"
  "map_of (tree_omit n v) m = (if m = n then omitted_string v else None)"
  "map_of (tree_omit_list n xs @ fs) m = (if m = n then or_else (omitted_list xs) (map_of fs m) else map_of fs m)"
  "map_of (tree_omit_list n xs) m = (if m = n then omitted_list xs else None)"
  by (simp_all add: tree_omit_def tree_omit_list_def or_else_def omitted_string_def omitted_list_def)

lemma plain_word: "is_word c \<Longrightarrow> plain_char c"
proof -
  assume w: "is_word c"
  have special: "\<not> is_word bslash" "\<not> is_word quote_char" "\<not> is_word (CHR ''<'')" "\<not> is_word (CHR ''>'')" "\<not> is_word (CHR ''&'')"
    by code_simp+
  have "c = CHR ''_'' \<Longrightarrow> byte c = 95" by simp
  with w have "48 \<le> byte c" by (auto simp: is_word_def is_word_start_def is_upper_def is_lower_def is_digit_def)
  then have "\<not> byte c < 32" "byte c \<noteq> 8" "byte c \<noteq> 9" "byte c \<noteq> 10" "byte c \<noteq> 12" "byte c \<noteq> 13" by linarith+
  moreover from w special have "c \<noteq> bslash" "c \<noteq> quote_char" "c \<noteq> CHR ''<''" "c \<noteq> CHR ''>''" "c \<noteq> CHR ''&''" by metis+
  ultimately show "plain_char c" using is_word_ascii [OF w] by (simp add: plain_char_def json_escape_ascii_def)
qed

lemma plain_tree_omit [simp]:
  "(\<forall>(n, x) \<in> set (tree_omit name v). plain n \<and> plain_json x) \<longleftrightarrow> v = [] \<or> plain name \<and> plain v"
  "(\<forall>(n, x) \<in> set (tree_omit_list name xs). plain n \<and> plain_json x) \<longleftrightarrow>
     xs = [] \<or> plain name \<and> (\<forall>x \<in> set xs. plain_json x)"
  by (auto simp: tree_omit_def tree_omit_list_def)

end
