(* ===== verification/Policy_Shapes.thy ===== *)
theory Policy_Shapes
  imports Policy Json_Tree
begin

text \<open>
  The shape half of \<^verbatim>\<open>internal/policy/policy.go\<close> and \<^verbatim>\<open>internal/policy/keyset.go\<close>: aggregates and keyset
  pages are authorised only if they match a shape the operator wrote into the profile. Request and
  shape are reduced to signatures, and the signatures are compared by their JSON texts.
\<close>

section \<open>Signatures of filters\<close>

text \<open>
  \<open>aggregateShapeFilter\<close> has the fields of \<open>filterShape\<close>; the projection and order entries of a signature have
  those of the query's own structures.
\<close>

fun queryAggregateShapeFilter :: "Filter \<Rightarrow> filterShape" where
  "queryAggregateShapeFilter (Filter rep kind field op vals exprs) =
     (if kind = ''predicate'' then
        FilterShape rep kind field op (map tv_Type (case vals of None \<Rightarrow> [] | Some vs \<Rightarrow> vs)) []
      else FilterShape rep kind field op [] (map queryAggregateShapeFilter exprs))"

text \<open>The keyset variant leaves the representation empty.\<close>

fun queryKeysetShapeFilter :: "bool \<Rightarrow> Filter \<Rightarrow> filterShape" where
  "queryKeysetShapeFilter insensitive (Filter rep kind field op vals exprs) =
     (if kind = ''predicate'' then
        FilterShape [] kind (canonicalPolicyIdentifier field insensitive) op
          (map tv_Type (case vals of None \<Rightarrow> [] | Some vs \<Rightarrow> vs)) []
      else FilterShape [] kind (canonicalPolicyIdentifier field insensitive) op []
        (map (queryKeysetShapeFilter insensitive) exprs))"

definition typed_of :: "string \<Rightarrow> TypedValue" where
  "typed_of ty = \<lparr>tv_Type = ty, tv_Value = None\<rparr>"

fun aggregateShapeFilterQuerySpec :: "filterShape \<Rightarrow> Filter" where
  "aggregateShapeFilterQuerySpec (FilterShape rep kind field op types exprs) =
     Filter rep kind field op (Some (map typed_of types)) (map aggregateShapeFilterQuerySpec exprs)"

definition aggregateShapeFilterKey :: "(string \<Rightarrow> digest) \<Rightarrow> filterShape \<Rightarrow> digest" where
  "aggregateShapeFilterKey hash f =
     AggregateFilterShapeDigest hash (
       if fs_Kind f = ''predicate'' then
         Filter (fs_Representation f) (fs_Kind f) (fs_Field f) (fs_Operator f) (Some (map typed_of (fs_ValueTypes f))) []
       else
         Filter (fs_Representation f) (fs_Kind f) (fs_Field f) (fs_Operator f) None
           (map aggregateShapeFilterQuerySpec (fs_Expressions f)))"

definition sortAggregateShapeFilters :: "(string \<Rightarrow> digest) \<Rightarrow> filterShape list \<Rightarrow> filterShape list" where
  "sortAggregateShapeFilters hash fs = sort_key (aggregateShapeFilterKey hash) fs"

text \<open>\<open>None\<close> stands for the result \<open>(nil, false)\<close>.\<close>

fun configuredShapeFilter :: "(string \<Rightarrow> digest) \<Rightarrow> bool \<Rightarrow> AggregateShapeFilter \<Rightarrow> filterShape option" where
  "configuredShapeFilter hash insensitive (AggregateShapeFilter rep kind field op types exprs) =
     (if kind = ''predicate'' then
        (case types of
           None \<Rightarrow> None
         | Some ts \<Rightarrow> Some (FilterShape rep kind (canonicalPolicyIdentifier field insensitive) op ts []))
      else
        (case those (map (configuredShapeFilter hash insensitive) (nil_slice exprs)) of
           None \<Rightarrow> None
         | Some children \<Rightarrow>
             let sorted_children = sortAggregateShapeFilters hash children in
             if adjacent_equal (map (aggregateShapeFilterKey hash) sorted_children) then None
             else Some (FilterShape rep kind (canonicalPolicyIdentifier field insensitive) op [] sorted_children)))"

definition configuredAggregateShapeFilter ::
  "(string \<Rightarrow> digest) \<Rightarrow> AggregateShapeFilter option \<Rightarrow> bool \<Rightarrow> filterShape option option" where
  "configuredAggregateShapeFilter hash f insensitive =
     (case f of None \<Rightarrow> Some None | Some f \<Rightarrow> map_option Some (configuredShapeFilter hash insensitive f))"

section \<open>Signatures of aggregates\<close>

record aggregateShapeSignature =
  sig_Mode :: string
  sig_Schema :: string
  sig_Object :: string
  sig_Projection :: "AggregateOutput list"
  sig_Filter :: "filterShape option"
  sig_OrderBy :: "AggregateSort list"

definition aggregateQuerySignature :: "NormalizedAggregateSpec \<Rightarrow> aggregateShapeSignature" where
  "aggregateQuerySignature spec =
     \<lparr>sig_Mode = na_Mode spec, sig_Schema = ref_Schema (na_Source spec), sig_Object = ref_Name (na_Source spec),
      sig_Projection = na_Projection spec, sig_Filter = map_option queryAggregateShapeFilter (na_Filter spec),
      sig_OrderBy = na_OrderBy spec\<rparr>"

definition configuredOutput :: "IdentifierSemantics \<Rightarrow> AggregateShapeOutput \<Rightarrow> AggregateOutput" where
  "configuredOutput sem out =
     \<lparr>ao_Representation = aso_Representation out, ao_Kind = aso_Kind out,
      ao_Field = canonicalPolicyIdentifier (aso_Field out) (CaseInsensitiveFields sem),
      ao_Function = aso_Function out, ao_Alias = canonicalPolicyIdentifier (aso_Alias out) True,
      ao_Unit = aso_Unit out, ao_Timezone = aso_Timezone out\<rparr>"

definition configuredOrder :: "IdentifierSemantics \<Rightarrow> AggregateShapeOrder \<Rightarrow> AggregateSort" where
  "configuredOrder sem order =
     \<lparr>as_Representation = asr_Representation order, as_Kind = asr_Kind order,
      as_Field = canonicalPolicyIdentifier (asr_Field order) (CaseInsensitiveFields sem),
      as_Alias = canonicalPolicyIdentifier (asr_Alias order) True, as_Direction = asr_Direction order\<rparr>"

definition configuredAggregateShapeSignature ::
  "(string \<Rightarrow> digest) \<Rightarrow> AggregateShape \<Rightarrow> IdentifierSemantics \<Rightarrow> aggregateShapeSignature option" where
  "configuredAggregateShapeSignature hash shape sem =
     map_option (\<lambda>f.
       \<lparr>sig_Mode = ash_Mode shape,
        sig_Schema = canonicalPolicyIdentifier (source_Schema (ash_Source shape)) (CaseInsensitiveSchemas sem),
        sig_Object = canonicalPolicyIdentifier (source_Name (ash_Source shape)) (CaseInsensitiveObjects sem),
        sig_Projection = map (configuredOutput sem) (ash_Projection shape), sig_Filter = f,
        sig_OrderBy = map (configuredOrder sem) (case ash_OrderBy shape of None \<Rightarrow> [] | Some os \<Rightarrow> os)\<rparr>)
     (configuredAggregateShapeFilter hash (ash_Filter shape) (CaseInsensitiveFields sem))"

fun tree_filterShape :: "filterShape \<Rightarrow> json" where
  "tree_filterShape (FilterShape rep kind field op types exprs) = JObj (
     tree_omit ''representation'' rep @ (''kind'', JStr kind) # tree_omit ''field'' field @
     (''operator'', JStr op) # tree_omit_list ''value_types'' (map JStr types) @
     tree_omit_list ''expressions'' (map tree_filterShape exprs))"

definition tree_output :: "AggregateOutput \<Rightarrow> json" where
  "tree_output out = JObj (
     tree_omit ''representation'' (ao_Representation out) @ (''kind'', JStr (ao_Kind out)) #
     tree_omit ''field'' (ao_Field out) @ tree_omit ''function'' (ao_Function out) @
     tree_omit ''alias'' (ao_Alias out) @ tree_omit ''unit'' (ao_Unit out) @ tree_omit ''timezone'' (ao_Timezone out))"

definition tree_order :: "AggregateSort \<Rightarrow> json" where
  "tree_order order = JObj (
     tree_omit ''representation'' (as_Representation order) @ (''kind'', JStr (as_Kind order)) #
     tree_omit ''field'' (as_Field order) @ tree_omit ''alias'' (as_Alias order) @
     [(''direction'', JStr (as_Direction order))])"

definition tree_optional_filter :: "filterShape option \<Rightarrow> (string \<times> json) list" where
  "tree_optional_filter f = (case f of None \<Rightarrow> [] | Some f \<Rightarrow> [(''filter'', tree_filterShape f)])"

definition tree_aggregateSignature :: "aggregateShapeSignature \<Rightarrow> json" where
  "tree_aggregateSignature sig = JObj (
     (''mode'', JStr (sig_Mode sig)) # (''schema'', JStr (sig_Schema sig)) # (''object'', JStr (sig_Object sig)) #
     (''projection'', JArr (map tree_output (sig_Projection sig))) # tree_optional_filter (sig_Filter sig) @
     tree_omit_list ''order_by'' (map tree_order (sig_OrderBy sig)))"

text \<open>
  The loop over the shapes: the shapes whose limit admits the query and whose signature prints as the
  query's; exactly one has to be left.
\<close>

definition shape_matches ::
  "(string \<Rightarrow> digest) \<Rightarrow> NormalizedAggregateSpec \<Rightarrow> IdentifierSemantics \<Rightarrow> AggregateShape \<Rightarrow> bool" where
  "shape_matches hash spec sem shape \<longleftrightarrow>
     (if na_Mode spec = AggregateModeGrouped \<and> na_Limit spec > ash_MaximumLimit shape then False
      else case configuredAggregateShapeSignature hash shape sem of
             None \<Rightarrow> False
           | Some sig \<Rightarrow>
               json_print (tree_aggregateSignature sig) = json_print (tree_aggregateSignature (aggregateQuerySignature spec)))"

fun match_loop ::
  "(AggregateShape \<Rightarrow> bool) \<Rightarrow> AggregateShape option \<Rightarrow> AggregateShape list \<Rightarrow> AggregateShape option" where
  "match_loop P matched [] = matched"
| "match_loop P matched (shape # shapes) =
     (if \<not> P shape then match_loop P matched shapes
      else if matched \<noteq> None then None else match_loop P (Some shape) shapes)"

definition matchAggregateShape ::
  "(string \<Rightarrow> digest) \<Rightarrow> AggregateShape list \<Rightarrow> NormalizedAggregateSpec \<Rightarrow> IdentifierSemantics \<Rightarrow> AggregateShape option" where
  "matchAggregateShape hash shapes spec sem = match_loop (shape_matches hash spec sem) None shapes"

section \<open>\<open>AuthorizeAggregate\<close>\<close>

definition aggregate_function :: "AggregateOutput \<Rightarrow> string" where
  "aggregate_function out = (if ao_Function out = ''count_all'' then ''count'' else ao_Function out)"

definition authorizeAggregateFeatures :: "QueryPolicy \<Rightarrow> NormalizedAggregateSpec \<Rightarrow> policy_error option" where
  "authorizeAggregateFeatures policy spec = first_error [
     fail_if (AggregateUsesSourceText spec \<and> \<not> AllowSourceText policy) (Denial DeniedQueryFeature),
     filter_feature_error policy (na_Filter spec),
     fail_if (na_Mode spec = AggregateModeGrouped \<and> \<not> AllowGroupBy policy) (Denial DeniedQueryFeature),
     fail_if (na_OrderBy spec \<noteq> [] \<and> \<not> AllowSorting policy) (Denial DeniedQueryFeature),
     range_error (\<lambda>_ out. fail_if (ao_Kind out = ''measure'' \<and> aggregate_function out \<notin> set (AllowedAggregates policy))
       (Denial DeniedQueryFeature)) (na_Projection spec)]"

record AuthorizedAggregate =
  aa_numericBoundaries :: "string \<rightharpoonup> string list"
  aa_parameterCount :: int
  aa_principal :: string
  aa_profile :: string
  aa_datasource :: string
  aa_operation :: Operation
  aa_limits :: Limits
  aa_query :: ValidatedAggregate
  aa_requiredIndex :: string
  aa_maximumRowsExaminedPerScan :: nat
  aa_shapeName :: string
  aa_allowTemporaryTable :: bool
  aa_allowFilesort :: bool

definition boundary_counts :: "AggregateShapeOutput list \<Rightarrow> string \<Rightarrow> int" where
  "boundary_counts outs =
     foldl (\<lambda>counts out. if aso_Kind out = ''numeric_bucket''
        then counts(ToLower (aso_Alias out) := int (length (nil_slice (aso_Boundaries out)))) else counts) (\<lambda>_. 0) outs"

fun boundary_map :: "(string \<rightharpoonup> string list) \<Rightarrow> AggregateShapeOutput list \<Rightarrow> policy_error + (string \<rightharpoonup> string list)" where
  "boundary_map m [] = Inr m"
| "boundary_map m (out # outs) =
     (if aso_Kind out \<noteq> ''numeric_bucket'' then boundary_map m outs
      else case NormalizeNumericBoundaries (nil_slice (aso_Boundaries out)) of
             Inl e \<Rightarrow> Inl (PolicyFailure ''invalid numeric bucket policy'')
           | Inr canonical \<Rightarrow> boundary_map (m(ToLower (aso_Alias out) \<mapsto> canonical)) outs)"

definition is_true :: "bool option \<Rightarrow> bool" where
  "is_true b \<longleftrightarrow> b = Some True"

definition AuthorizeAggregate ::
  "(string \<Rightarrow> digest) \<Rightarrow> Snapshot \<Rightarrow> AuthorizedBinding \<Rightarrow> ValidatedAggregate \<Rightarrow> IdentifierSemantics
     \<Rightarrow> policy_error + AuthorizedAggregate" where
  "AuthorizeAggregate hash s b query sem =
     bind_result (profileForBinding s b OperationAggregate) (\<lambda>profile.
       let effectiveLimits = Limits_Min (hardLimits s) (prof_Limits profile) in
       bind_result (lift_validation (RevalidateAggregate query (MaxProjectionFields effectiveLimits)
           (MaxGroupByFields effectiveLimits) (MaxOrderByFields effectiveLimits) (MaxPredicates effectiveLimits)
           (MaxExpressionDepth effectiveLimits) (MaxParameters effectiveLimits) (MaxRows effectiveLimits))) (\<lambda>revalidated.
       bind_result (lift_validation (NormalizeAggregateIdentifiers hash revalidated sem)) (\<lambda>normalized.
       let spec = ValidatedAggregate_Spec normalized in
       check (first_error [
         source_error (prof_Resources profile) sem (na_Source spec),
         fields_error (prof_Resources profile) sem (na_Source spec) (AggregateReferencedFields spec),
         authorizeAggregateFeatures (prof_Query profile) spec])
       (case matchAggregateShape hash (AggregateShapes (prof_Query profile)) spec sem of
          None \<Rightarrow> Inl (Denial DeniedQueryFeature)
        | Some shape \<Rightarrow>
            check (fail_if ((AggregateUsesTimeBucket spec \<or> AggregateUsesNumericBucket spec) \<and>
                (ash_AllowTemporaryTable shape = None \<or> ash_AllowFilesort shape = None))
              (PolicyFailure ''aggregate bucket execution controls are missing''))
            (bind_result (map_error BucketFailure (NumericBucketParameters spec (boundary_counts (ash_Projection shape))
                (Parameters (va_stats normalized)) (MaxParameters effectiveLimits))) (\<lambda>parameterCount.
             bind_result (boundary_map Map.empty (ash_Projection shape)) (\<lambda>boundaries.
             Inr \<lparr>aa_numericBoundaries = boundaries, aa_parameterCount = parameterCount,
                  aa_principal = ab_principal b, aa_profile = key_Profile (ab_key b),
                  aa_datasource = key_Datasource (ab_key b), aa_operation = OperationAggregate,
                  aa_limits = effectiveLimits, aa_query = normalized, aa_requiredIndex = ash_RequiredIndex shape,
                  aa_maximumRowsExaminedPerScan = ash_MaximumRowsExaminedPerScan shape,
                  aa_shapeName = ash_Name shape, aa_allowTemporaryTable = is_true (ash_AllowTemporaryTable shape),
                  aa_allowFilesort = is_true (ash_AllowFilesort shape)\<rparr>)))))))"

section \<open>Signatures of keyset pages\<close>

record keysetProjectionSignature =
  kps_Representation :: Representation
  kps_Field :: string
  kps_Alias :: string

text \<open>The order entries of a keyset signature have the fields of \<open>Sort\<close>.\<close>

record keysetSignature =
  kss_Schema :: string
  kss_Object :: string
  kss_Projection :: "keysetProjectionSignature list"
  kss_Filter :: "filterShape option"
  kss_OrderBy :: "Sort list"

definition configuredKeysetSignature ::
  "(string \<Rightarrow> digest) \<Rightarrow> KeysetSelectShape \<Rightarrow> IdentifierSemantics \<Rightarrow> keysetSignature option" where
  "configuredKeysetSignature hash shape sem =
     map_option (\<lambda>f.
       \<lparr>kss_Schema = canonicalPolicyIdentifier (source_Schema (ksh_Source shape)) (CaseInsensitiveSchemas sem),
        kss_Object = canonicalPolicyIdentifier (source_Name (ksh_Source shape)) (CaseInsensitiveObjects sem),
        kss_Projection = map (\<lambda>out. \<lparr>kps_Representation = ksp_Representation out,
            kps_Field = canonicalPolicyIdentifier (ksp_Field out) (CaseInsensitiveFields sem),
            kps_Alias = canonicalPolicyIdentifier (ksp_Alias out) True\<rparr>) (ksh_Projection shape),
        kss_Filter = f,
        kss_OrderBy = map (\<lambda>order. \<lparr>sort_Representation = kso_Representation order,
            sort_Field = canonicalPolicyIdentifier (kso_Field order) (CaseInsensitiveFields sem),
            sort_Direction = kso_Direction order\<rparr>) (ksh_OrderBy shape)\<rparr>)
     (configuredAggregateShapeFilter hash (ksh_Filter shape) (CaseInsensitiveFields sem))"

definition requestKeysetSignature :: "NormalizedKeysetRequest \<Rightarrow> IdentifierSemantics \<Rightarrow> keysetSignature" where
  "requestKeysetSignature request sem =
     (let query = nk_Query request in
      \<lparr>kss_Schema = canonicalPolicyIdentifier (ref_Schema (ks_Source query)) (CaseInsensitiveSchemas sem),
       kss_Object = canonicalPolicyIdentifier (ref_Name (ks_Source query)) (CaseInsensitiveObjects sem),
       kss_Projection = map (\<lambda>out. \<lparr>kps_Representation = sel_Representation out,
           kps_Field = canonicalPolicyIdentifier (sel_Field out) (CaseInsensitiveFields sem),
           kps_Alias = canonicalPolicyIdentifier (sel_Alias out) True\<rparr>) (ks_Projection query),
       kss_Filter = map_option (queryKeysetShapeFilter (CaseInsensitiveFields sem)) (ks_Filter query),
       kss_OrderBy = map (\<lambda>order. order\<lparr>sort_Field :=
           canonicalPolicyIdentifier (sort_Field order) (CaseInsensitiveFields sem)\<rparr>) (ks_OrderBy query)\<rparr>)"

definition tree_keysetSignature :: "keysetSignature \<Rightarrow> json" where
  "tree_keysetSignature sig = JObj (
     (''schema'', JStr (kss_Schema sig)) # (''object'', JStr (kss_Object sig)) #
     (''projection'', JArr (map (\<lambda>out. JObj (tree_omit ''representation'' (kps_Representation out) @
        (''field'', JStr (kps_Field out)) # tree_omit ''alias'' (kps_Alias out))) (kss_Projection sig))) #
     tree_optional_filter (kss_Filter sig) @
     [(''order_by'', JArr (map (\<lambda>order. JObj (tree_omit ''representation'' (sort_Representation order) @
        [(''field'', JStr (sort_Field order)), (''direction'', JStr (sort_Direction order))])) (kss_OrderBy sig)))])"

definition configuredKeysetSignatureEqual ::
  "(string \<Rightarrow> digest) \<Rightarrow> KeysetSelectShape \<Rightarrow> NormalizedKeysetRequest \<Rightarrow> IdentifierSemantics \<Rightarrow> bool" where
  "configuredKeysetSignatureEqual hash shape request sem \<longleftrightarrow>
     (case configuredKeysetSignature hash shape sem of
        None \<Rightarrow> False
      | Some configured \<Rightarrow>
          json_print (tree_keysetSignature configured) = json_print (tree_keysetSignature (requestKeysetSignature request sem)))"

definition findKeysetShape :: "KeysetSelectShape list \<Rightarrow> string \<Rightarrow> KeysetSelectShape option" where
  "findKeysetShape shapes name = find (\<lambda>shape. ksh_Name shape = name) shapes"

definition all_insensitive :: IdentifierSemantics where
  "all_insensitive = \<lparr>CaseInsensitiveSchemas = True, CaseInsensitiveObjects = True, CaseInsensitiveFields = True\<rparr>"

definition potentialKeysetShapeMatch :: "(string \<Rightarrow> digest) \<Rightarrow> KeysetSelectShape \<Rightarrow> ValidatedKeyset \<Rightarrow> bool" where
  "potentialKeysetShapeMatch hash shape request \<longleftrightarrow>
     (case NormalizeKeysetIdentifiers hash request all_insensitive of
        Inl e \<Rightarrow> False
      | Inr norm \<Rightarrow>
          configuredKeysetSignatureEqual hash shape (ValidatedKeyset_Request norm) all_insensitive)"

definition matchKeysetShape ::
  "(string \<Rightarrow> digest) \<Rightarrow> KeysetSelectShape list \<Rightarrow> NormalizedKeysetRequest \<Rightarrow> IdentifierSemantics \<Rightarrow> KeysetSelectShape option" where
  "matchKeysetShape hash shapes request sem =
     (case findKeysetShape shapes (nk_Shape request) of
        None \<Rightarrow> None
      | Some shape \<Rightarrow> if \<not> configuredKeysetSignatureEqual hash shape request sem then None else Some shape)"

section \<open>\<open>AuthorizeKeysetSelect\<close>\<close>

definition authorizeKeysetFeatures :: "QueryPolicy \<Rightarrow> NormalizedKeysetRequest \<Rightarrow> policy_error option" where
  "authorizeKeysetFeatures policy request = first_error [
     fail_if (KeysetUsesSourceText request \<and> \<not> AllowSourceText policy) (Denial DeniedQueryFeature),
     fail_if (\<not> AllowSorting policy) (Denial DeniedQueryFeature),
     filter_feature_error policy (ks_Filter (nk_Query request))]"

definition revalidate_keyset_effective ::
  "Limits \<Rightarrow> ValidatedKeyset \<Rightarrow> policy_error + ValidatedKeyset" where
  "revalidate_keyset_effective effective query =
     lift_validation (RevalidateKeyset query (MaxProjectionFields effective) (MaxOrderByFields effective)
       (MaxPredicates effective) (MaxExpressionDepth effective) (MaxParameters effective) (MaxRows effective))"

definition PrecheckKeysetSelect ::
  "(string \<Rightarrow> digest) \<Rightarrow> Snapshot \<Rightarrow> AuthorizedBinding \<Rightarrow> ValidatedKeyset \<Rightarrow> policy_error option" where
  "PrecheckKeysetSelect hash s b query =
     (case profileForBinding s b OperationSelectKeyset of
        Inl e \<Rightarrow> Some (Denial DeniedOperation)
      | Inr profile \<Rightarrow>
          (case revalidate_keyset_effective (Limits_Min (hardLimits s) (prof_Limits profile)) query of
             Inl e \<Rightarrow> Some e
           | Inr revalidated \<Rightarrow>
               let request = ValidatedKeyset_Request revalidated in
               (case findKeysetShape (KeysetSelectShapes (prof_Query profile)) (nk_Shape request) of
                  None \<Rightarrow> Some (Denial DeniedQueryFeature)
                | Some shape \<Rightarrow> first_error [
                    fail_if (ks_Limit (nk_Query request) > ksh_MaximumLimit shape \<or>
                             \<not> potentialKeysetShapeMatch hash shape revalidated) (Denial DeniedQueryFeature),
                    authorizeKeysetFeatures (prof_Query profile) request])))"

record AuthorizedKeysetSelect =
  ak_owner :: nat
  ak_principal :: string
  ak_credentialIdentifier :: string
  ak_profile :: string
  ak_policyVersion :: string
  ak_policyHash :: string
  ak_datasource :: string
  ak_adapter :: string
  ak_operation :: Operation
  ak_limits :: Limits
  ak_query :: ValidatedKeyset
  ak_requiredIndex :: string
  ak_allowTemporaryTable :: bool
  ak_allowFilesort :: bool
  ak_maximumRowsExaminedPerScan :: nat
  ak_shapeName :: string
  ak_identifierSemantics :: IdentifierSemantics
  ak_semanticsGeneration :: string

definition keyset_grant ::
  "Snapshot \<Rightarrow> AuthorizedBinding \<Rightarrow> string \<Rightarrow> string \<Rightarrow> Limits \<Rightarrow> ValidatedKeyset \<Rightarrow> KeysetSelectShape \<Rightarrow> IdentifierSemantics
     \<Rightarrow> AuthorizedKeysetSelect" where
  "keyset_grant s b credentialIdentifier adapterName effective norm shape sem =
     \<lparr>ak_owner = snap_address s, ak_principal = ab_principal b, ak_credentialIdentifier = credentialIdentifier,
      ak_profile = key_Profile (ab_key b), ak_policyVersion = snap_version s, ak_policyHash = snap_hash s,
      ak_datasource = key_Datasource (ab_key b), ak_adapter = adapterName, ak_operation = OperationSelectKeyset,
      ak_limits = effective, ak_query = norm, ak_requiredIndex = ksh_RequiredIndex shape,
      ak_allowTemporaryTable = is_true (ksh_AllowTemporaryTable shape),
      ak_allowFilesort = is_true (ksh_AllowFilesort shape),
      ak_maximumRowsExaminedPerScan = ksh_MaximumRowsExaminedPerScan shape, ak_shapeName = ksh_Name shape,
      ak_identifierSemantics = sem,
      ak_semanticsGeneration = hex_encode (sha256
        (generation_input (snap_hash s) (key_Profile (ab_key b)) (key_Datasource (ab_key b)) adapterName sem))\<rparr>"

text \<open>After the precheck the profile is read from the map again; a missing entry would be the zero profile.\<close>

definition AuthorizeKeysetSelect ::
  "(string \<Rightarrow> digest) \<Rightarrow> Snapshot \<Rightarrow> AuthorizedBinding \<Rightarrow> string \<Rightarrow> string \<Rightarrow> ValidatedKeyset \<Rightarrow> IdentifierSemantics
     \<Rightarrow> policy_error + AuthorizedKeysetSelect" where
  "AuthorizeKeysetSelect hash s b credentialIdentifier adapterName query sem =
     check (first_error [
       fail_if (ab_principal b = [] \<or> credentialIdentifier = [] \<or> key_Profile (ab_key b) = [] \<or> adapterName = [])
         (Denial DeniedOperation),
       PrecheckKeysetSelect hash s b query])
     (case profiles s (key_Profile (ab_key b)) of
        None \<Rightarrow> Inl (Denial DeniedOperation)
      | Some profile \<Rightarrow>
          let effective = Limits_Min (hardLimits s) (prof_Limits profile) in
          bind_result (revalidate_keyset_effective effective query) (\<lambda>revalidated.
          bind_result (lift_validation (NormalizeKeysetIdentifiers hash revalidated sem)) (\<lambda>normalized.
          let request = ValidatedKeyset_Request normalized; src = ks_Source (nk_Query request) in
          (case matchKeysetShape hash (KeysetSelectShapes (prof_Query profile)) request sem of
             None \<Rightarrow> Inl (Denial DeniedQueryFeature)
           | Some shape \<Rightarrow>
               check (first_error [
                 fail_if (ks_Limit (nk_Query request) > ksh_MaximumLimit shape) (Denial DeniedQueryFeature),
                 source_error (prof_Resources profile) sem src,
                 fields_error (prof_Resources profile) sem src (KeysetReferencedFields request),
                 authorizeKeysetFeatures (prof_Query profile) request])
               (Inr (keyset_grant s b credentialIdentifier adapterName effective normalized shape sem))))))"

section \<open>Trees determine signatures\<close>

lemma same_fields: "JObj fs = JObj gs \<Longrightarrow> map_of fs n = map_of gs n"
  by simp

lemma tree_output_inject [simp]: "tree_output x = tree_output y \<longleftrightarrow> x = y"
proof
  assume "tree_output x = tree_output y"
  note eq = this [unfolded tree_output_def, THEN same_fields]
  from eq [of "''representation''"] eq [of "''kind''"] eq [of "''field''"] eq [of "''function''"]
    eq [of "''alias''"] eq [of "''unit''"] eq [of "''timezone''"]
  show "x = y" by (cases x; cases y) (simp add: map_of_tree_omit del: map_of_append)
qed simp

lemma tree_order_inject [simp]: "tree_order x = tree_order y \<longleftrightarrow> x = y"
proof
  assume "tree_order x = tree_order y"
  note eq = this [unfolded tree_order_def, THEN same_fields]
  from eq [of "''representation''"] eq [of "''kind''"] eq [of "''field''"] eq [of "''alias''"] eq [of "''direction''"]
  show "x = y" by (cases x; cases y) (simp add: map_of_tree_omit del: map_of_append)
qed simp

lemma map_JStr_inject [simp]: "map JStr xs = map JStr ys \<longleftrightarrow> xs = ys"
  by (rule inj_map_eq_map) (simp add: inj_def)

lemma tree_filterShape_inject: "tree_filterShape x = tree_filterShape y \<Longrightarrow> x = y"
proof (induction x arbitrary: y rule: tree_filterShape.induct)
  case (1 rep kind field op types exprs)
  obtain rep' kind' field' op' types' exprs' where y: "y = FilterShape rep' kind' field' op' types' exprs'"
    by (cases y)
  note eq = "1.prems" [unfolded y tree_filterShape.simps, THEN same_fields]
  from eq [of "''representation''"] eq [of "''kind''"] eq [of "''field''"] eq [of "''operator''"]
    eq [of "''value_types''"] eq [of "''expressions''"]
  have heads: "rep = rep'" "kind = kind'" "field = field'" "op = op'" "types = types'"
    and kids: "map tree_filterShape exprs = map tree_filterShape exprs'"
    by (simp_all add: map_of_tree_omit del: map_of_append)
  have "exprs = exprs'"
  proof (rule list_eq_iff_nth_eq [THEN iffD2], intro conjI allI impI)
    show len: "length exprs = length exprs'" using kids by (metis length_map)
    fix i assume i: "i < length exprs"
    with kids len have "tree_filterShape (exprs ! i) = tree_filterShape (exprs' ! i)"
      by (metis nth_map)
    with "1.IH" i show "exprs ! i = exprs' ! i" by simp
  qed
  with heads y show ?case by simp
qed

lemma tree_optional_filter_lookup [simp]:
  "map_of (tree_optional_filter f @ fs) n =
     (if n = ''filter'' then or_else (map_option tree_filterShape f) (map_of fs n) else map_of fs n)"
  by (cases f) (simp_all add: tree_optional_filter_def or_else_def)

lemma optional_filter_inject: "map_option tree_filterShape f = map_option tree_filterShape g \<longleftrightarrow> f = g"
  by (cases f; cases g) (auto dest: tree_filterShape_inject)

lemma tree_aggregateSignature_inject: "tree_aggregateSignature x = tree_aggregateSignature y \<Longrightarrow> x = y"
proof -
  assume "tree_aggregateSignature x = tree_aggregateSignature y"
  note eq = this [unfolded tree_aggregateSignature_def, THEN same_fields]
  have m: "map tree_output xs = map tree_output ys \<longleftrightarrow> xs = ys" "map tree_order os = map tree_order ps \<longleftrightarrow> os = ps"
    for xs ys os ps by (simp_all add: inj_map_eq_map inj_def)
  from eq [of "''mode''"] eq [of "''schema''"] eq [of "''object''"] eq [of "''projection''"] eq [of "''filter''"]
    eq [of "''order_by''"]
  show "x = y" by (cases x; cases y) (simp add: m map_of_tree_omit optional_filter_inject del: map_of_append)
qed

lemma tree_keysetSignature_inject: "tree_keysetSignature x = tree_keysetSignature y \<Longrightarrow> x = y"
proof -
  assume "tree_keysetSignature x = tree_keysetSignature y"
  note eq = this [unfolded tree_keysetSignature_def, THEN same_fields]
  let ?p = "\<lambda>out :: keysetProjectionSignature. JObj (tree_omit ''representation'' (kps_Representation out) @
        (''field'', JStr (kps_Field out)) # tree_omit ''alias'' (kps_Alias out))"
  let ?o = "\<lambda>order :: Sort. JObj (tree_omit ''representation'' (sort_Representation order) @
        [(''field'', JStr (sort_Field order)), (''direction'', JStr (sort_Direction order))])"
  have p: "a = b" if "?p a = ?p b" for a b :: keysetProjectionSignature
    using same_fields [OF that, of "''representation''"] same_fields [OF that, of "''field''"]
      same_fields [OF that, of "''alias''"]
    by (cases a; cases b) (simp add: map_of_tree_omit del: map_of_append)
  have o: "a = b" if "?o a = ?o b" for a b :: Sort
    using same_fields [OF that, of "''representation''"] same_fields [OF that, of "''field''"]
      same_fields [OF that, of "''direction''"]
    by (cases a; cases b) (simp add: map_of_tree_omit del: map_of_append)
  have "inj ?p" by (rule injI) (rule p)
  moreover have "inj ?o" by (rule injI) (rule o)
  ultimately have m: "map ?p xs = map ?p ys \<longleftrightarrow> xs = ys" "map ?o os = map ?o ps \<longleftrightarrow> os = ps" for xs ys os ps
    by (simp_all only: inj_map_eq_map)
  from eq [of "''schema''"] eq [of "''object''"] eq [of "''projection''"] eq [of "''filter''"] eq [of "''order_by''"]
  show "x = y" by (cases x; cases y) (simp add: m optional_filter_inject del: map_of_append)
qed

section \<open>Signatures of validated requests are plain\<close>

lemma plain_identifier: "IsIdentifier s \<Longrightarrow> plain s"
  by (auto simp: plain_def IsIdentifier_iff list_all_iff dest!: identifierPattern_word intro: plain_word)

text \<open>The keywords that occur in a signature.\<close>

definition signature_words :: "string list" where
  "signature_words = [''mode'', ''schema'', ''object'', ''projection'', ''filter'', ''order_by'', ''representation'', ''kind'',
     ''field'', ''function'', ''alias'', ''unit'', ''timezone'', ''direction'', ''operator'', ''value_types'', ''expressions'',
     ''source_text'', ''predicate'', ''group'', ''dimension'', ''measure'', ''time_bucket'', ''numeric_bucket'', ''scalar'', ''grouped'',
     ''hour'', ''day'', ''week'', ''month'', ''UTC'', ''count_all'', ''count'', ''count_distinct'', ''min'', ''max'', ''sum'', ''avg'',
     ''asc'', ''desc'', ''eq'', ''ne'', ''lt'', ''lte'', ''gt'', ''gte'', ''like'', ''in'', ''not_in'', ''is_null'', ''is_not_null'',
     ''and'', ''or'', ''boolean'', ''integer'', ''decimal'', ''string'', ''uuid'', ''date'', ''datetime'', ''bytes'']"

lemma signature_words_are_words: "list_all (list_all is_word) signature_words"
  by code_simp

lemma plain_keyword: "w \<in> set signature_words \<Longrightarrow> plain w"
  using signature_words_are_words by (auto simp: plain_def list_all_iff intro: plain_word)

lemma plain_signature_words: "list_all plain signature_words"
  by (simp add: list_all_iff plain_keyword)

lemmas plain_literals [simp] = plain_signature_words [unfolded signature_words_def list.pred_inject, simplified simp_thms]

lemma plain_representation: "Representation_Valid r \<Longrightarrow> plain r"
  by (auto simp: Representation_Valid_def RepresentationSourceText_def)

lemma not_plain: "\<not> plain w \<Longrightarrow> w \<notin> set signature_words"
  using plain_keyword by blast

lemma plain_operator: "valid_arity op n \<Longrightarrow> plain op"
  using not_plain [of op] by (cases "plain op") (simp_all add: signature_words_def valid_arity_def expectedValues_def)

lemma plain_type: "BindValue v = Inr b \<Longrightarrow> plain (tv_Type v)"
  using not_plain [of "tv_Type v"]
  by (cases "plain (tv_Type v)"; cases "tv_Value v") (simp_all add: signature_words_def BindValue_def Let_def split: if_splits)

lemma plain_object_iff: "plain_json (JObj fs) \<longleftrightarrow> list_all (\<lambda>(n, x). plain n \<and> plain_json x) fs"
  by (simp add: list_all_iff)

lemma plain_omit:
  "plain name \<Longrightarrow> plain v \<Longrightarrow> list_all (\<lambda>(n, x). plain n \<and> plain_json x) (tree_omit name v)"
  "plain name \<Longrightarrow> \<forall>x \<in> set xs. plain_json x \<Longrightarrow> list_all (\<lambda>(n, x). plain n \<and> plain_json x) (tree_omit_list name xs)"
  by (auto simp: tree_omit_def tree_omit_list_def)

lemma plain_filter: "wf_filter f \<Longrightarrow> plain_json (tree_filterShape (queryAggregateShapeFilter f))"
proof (induction f rule: wf_filter.induct)
  case (1 rep kind field op vals exprs)
  have rep: "plain rep" using "1.prems" by (simp add: plain_representation)
  show ?case
  proof (cases "kind = ''predicate''")
    case True
    with "1.prems" obtain vs where vs: "vals = Some vs" "IsIdentifier field" "valid_arity op (length vs)"
      "\<forall>v \<in> set vs. valid_value rep v"
      by (cases vals) auto
    have "plain (tv_Type v)" if "v \<in> set vs" for v
      using vs(4) that plain_type by (auto simp: valid_value_def)
    with True vs rep show ?thesis
      by (auto simp: plain_object_iff plain_operator plain_identifier simp del: plain_json.simps(3)
          intro!: plain_omit)
  next
    case False
    with "1.prems" have g: "kind = ''group''" "field = []" "op = ''and'' \<or> op = ''or''" "\<forall>e \<in> set exprs. wf_filter e"
      by auto
    with False 1 rep show ?thesis
      by (auto simp: plain_object_iff simp del: plain_json.simps(3) intro!: plain_omit)
  qed
qed

lemma plain_output:
  assumes "valid_output mode out"
  shows "plain_json (tree_output out)"
proof -
  have fun_plain: "plain (ao_Function out) \<and> plain (ao_Unit out) \<and> plain (ao_Timezone out) \<and> plain (ao_Kind out)"
    using assms unfolding valid_output_def by auto
  have "plain (ao_Field out)" "plain (ao_Alias out)"
    using assms unfolding valid_output_def by (auto simp: plain_identifier)
  with fun_plain assms show ?thesis
    by (auto simp: tree_output_def plain_object_iff valid_output_def plain_representation simp del: plain_json.simps(3)
        intro!: plain_omit)
qed

lemma plain_order:
  assumes "valid_aggregate_sort projection order"
  shows "plain_json (tree_order order)"
proof -
  have "plain (as_Kind order) \<and> plain (as_Direction order)"
    using assms unfolding valid_aggregate_sort_def by auto
  moreover have "plain (as_Field order)" "plain (as_Alias order)"
    using assms unfolding valid_aggregate_sort_def by (auto simp: plain_identifier)
  ultimately show ?thesis using assms
    by (auto simp: tree_order_def plain_object_iff valid_aggregate_sort_def plain_representation simp del: plain_json.simps(3)
        intro!: plain_omit)
qed

lemma valid_output_normalize: "valid_output mode out \<Longrightarrow> valid_output mode (normalizeOutput sem out)"
  by (auto simp: valid_output_def normalizeOutput_def canonicalIdentifier_def)

lemma plain_normalized_sort:
  "valid_aggregate_sort projection order \<Longrightarrow> plain_json (tree_order (normalizeSort sem order))"
proof -
  assume v: "valid_aggregate_sort projection order"
  have "plain (as_Kind order) \<and> plain (as_Direction order)"
    using v unfolding valid_aggregate_sort_def by auto
  moreover have "plain (as_Field (normalizeSort sem order))" "plain (as_Alias (normalizeSort sem order))"
    using v unfolding valid_aggregate_sort_def by (auto simp: plain_identifier normalizeSort_def canonicalIdentifier_def)
  moreover have "plain (as_Representation order)"
    using v by (simp add: valid_aggregate_sort_def plain_representation)
  ultimately show ?thesis
    by (auto simp: tree_order_def plain_object_iff normalizeSort_def simp del: plain_json.simps(3)
        intro!: plain_omit)
qed

lemma aggregate_signature_plain:
  assumes v: "validate_aggregate_under l spec = Inr q" and n: "NormalizeAggregateIdentifiers hash q sem = Inr r"
  shows "plain_json (tree_aggregateSignature (aggregateQuerySignature (va_spec r)))"
proof -
  have wf: "wf_aggregate spec" and q: "q = normalized_aggregate spec" using v by (simp_all add: validate_aggregate_under_Inr)
  have wff: "\<forall>f \<in> set_option (agg_Filter spec). wf_filter f" using wf by (simp add: wf_aggregate_def)
  from n obtain f where f: "normalizeOptionalFilter hash (agg_Filter spec) (CaseInsensitiveFields sem) = Inr f"
    and r: "va_spec r = (va_spec q)\<lparr>na_Source := normalizeSource sem (agg_Source spec),
               na_Projection := map (normalizeOutput sem) (agg_Projection spec), na_Filter := f,
               na_OrderBy := map (normalizeSort sem) (agg_orders spec)\<rparr>"
    by (auto simp: NormalizeAggregateIdentifiers_Inr q normalized_aggregate_def option_map_clone_wf [OF wff])
  have "\<forall>g \<in> set_option f. wf_filter g" using normalizeOptionalFilter_wf [OF wff f] by simp
  then have pf: "list_all (\<lambda>(n, x). plain n \<and> plain_json x) (tree_optional_filter (map_option queryAggregateShapeFilter f))"
    by (cases f) (auto simp: tree_optional_filter_def plain_filter)
  have po: "\<forall>out \<in> set (agg_Projection spec). plain_json (tree_output (normalizeOutput sem out))"
    using wf by (auto simp: wf_aggregate_def intro: plain_output valid_output_normalize)
  have ps: "\<forall>order \<in> set (agg_orders spec). plain_json (tree_order (normalizeSort sem order))"
    using wf by (auto simp: wf_aggregate_def intro: plain_normalized_sort)
  have pm: "plain (agg_Mode spec)"
    using wf by (auto simp: wf_aggregate_def valid_aggregate_mode_def aggregate_modes)
  have src: "plain (ref_Schema (normalizeSource sem (agg_Source spec)))" "plain (ref_Name (normalizeSource sem (agg_Source spec)))"
    using wf by (auto simp: wf_aggregate_def normalizeSource_def intro!: plain_identifier)
  show ?thesis
    using pf po ps pm src
    by (auto simp: tree_aggregateSignature_def aggregateQuerySignature_def r q normalized_aggregate_def plain_object_iff
        simp del: plain_json.simps(3) intro!: plain_omit)
qed

end
