(* ===== verification/Policy_Grants.thy ===== *)
theory Policy_Grants
  imports Policy_Shapes
begin

text \<open>
  What a grant of the policy engine guarantees. Selects and explains: an inductive definition of the
  columns a query mentions, and that the code's collection of them is complete. Aggregates and keyset
  pages: their authorisation honours the same contract as the others, and a grant comes from exactly one
  configured shape whose signature is the request's. The properties of the component close the theory.
\<close>

section \<open>The columns a query mentions\<close>

inductive filter_mentions :: "Filter \<Rightarrow> string \<Rightarrow> bool" where
  predicate: "filter_mentions (Filter rep ''predicate'' field op vals exprs) field"
| child: "kind \<noteq> ''predicate'' \<Longrightarrow> e \<in> set exprs \<Longrightarrow> filter_mentions e name \<Longrightarrow>
    filter_mentions (Filter rep kind field op vals exprs) name"

inductive_cases filter_mentions_FilterE: "filter_mentions (Filter rep kind field op vals exprs) name"

inductive mentions_column :: "NormalizedSpec \<Rightarrow> string \<Rightarrow> bool" for spec where
  projected: "sel \<in> set (ns_Projection spec) \<Longrightarrow> mentions_column spec (sel_Field sel)"
| filtered: "ns_Filter spec = Some f \<Longrightarrow> filter_mentions f name \<Longrightarrow> mentions_column spec name"
| grouped: "name \<in> set (ns_GroupBy spec) \<Longrightarrow> mentions_column spec name"
| ordered: "srt \<in> set (ns_OrderBy spec) \<Longrightarrow> mentions_column spec (sort_Field srt)"

inductive_simps mentions_column_iff: "mentions_column spec name"

lemma filter_mentions_collected: "filter_mentions f name \<Longrightarrow> name \<in> set (collectFields f)"
  by (induction rule: filter_mentions.induct) auto

lemma collected_filter_mentions: "name \<in> set (collectFields f) \<Longrightarrow> filter_mentions f name"
  by (induction f rule: collectFields.induct) (auto split: if_splits intro: filter_mentions.intros)

lemma filter_mentions_iff: "filter_mentions f name \<longleftrightarrow> name \<in> set (collectFields f)"
  using filter_mentions_collected collected_filter_mentions by blast

lemma referencedFields_complete: "name \<in> set (referencedFields spec) \<longleftrightarrow> name \<noteq> [] \<and> mentions_column spec name"
  by (auto simp: referencedFields_def mentions_column_iff filter_mentions_iff split: option.splits)

section \<open>Matching a shape\<close>

lemma match_loop_Some: "match_loop P (Some m) shapes = (if filter P shapes = [] then Some m else None)"
  by (induction shapes) auto

lemma match_loop_None: "match_loop P None shapes = Some shape \<longleftrightarrow> filter P shapes = [shape]"
  by (induction shapes) (auto simp: match_loop_Some)

definition same_signature ::
  "(string \<Rightarrow> digest) \<Rightarrow> IdentifierSemantics \<Rightarrow> NormalizedAggregateSpec \<Rightarrow> AggregateShape \<Rightarrow> bool" where
  "same_signature hash sem spec shape \<longleftrightarrow>
     configuredAggregateShapeSignature hash shape sem = Some (aggregateQuerySignature spec)"

text \<open>For a plain request the comparison of texts is the comparison of signatures.\<close>

lemma shape_matches_iff:
  assumes "plain_json (tree_aggregateSignature (aggregateQuerySignature spec))"
  shows "shape_matches hash spec sem shape \<longleftrightarrow>
    (na_Mode spec = AggregateModeGrouped \<longrightarrow> na_Limit spec \<le> ash_MaximumLimit shape) \<and> same_signature hash sem spec shape"
proof -
  have "json_print (tree_aggregateSignature sig) = json_print (tree_aggregateSignature (aggregateQuerySignature spec)) \<longleftrightarrow>
      sig = aggregateQuerySignature spec" for sig
    using json_print_inject [OF assms, of "tree_aggregateSignature sig"] tree_aggregateSignature_inject by metis
  then show ?thesis
    by (auto simp: shape_matches_def same_signature_def split: option.splits)
qed

section \<open>Aggregates\<close>

lemma AuthorizeAggregate_Inr:
  "AuthorizeAggregate hash s b query sem = Inr g \<Longrightarrow>
     \<exists>profile rv shape. profileForBinding s b OperationAggregate = Inr profile \<and>
       revalidate_aggregate_under (Limits_Min (hardLimits s) (prof_Limits profile)) query = Inr rv \<and>
       NormalizeAggregateIdentifiers hash rv sem = Inr (aa_query g) \<and>
       source_error (prof_Resources profile) sem (na_Source (ValidatedAggregate_Spec (aa_query g))) = None \<and>
       fields_error (prof_Resources profile) sem (na_Source (ValidatedAggregate_Spec (aa_query g)))
         (AggregateReferencedFields (ValidatedAggregate_Spec (aa_query g))) = None \<and>
       authorizeAggregateFeatures (prof_Query profile) (ValidatedAggregate_Spec (aa_query g)) = None \<and>
       matchAggregateShape hash (AggregateShapes (prof_Query profile)) (ValidatedAggregate_Spec (aa_query g)) sem = Some shape \<and>
       NumericBucketParameters (ValidatedAggregate_Spec (aa_query g)) (boundary_counts (ash_Projection shape))
         (Parameters (va_stats (aa_query g))) (MaxParameters (aa_limits g)) = Inr (aa_parameterCount g) \<and>
       aa_limits g = Limits_Min (hardLimits s) (prof_Limits profile) \<and> aa_shapeName g = ash_Name shape \<and>
       aa_requiredIndex g = ash_RequiredIndex shape \<and>
       aa_maximumRowsExaminedPerScan g = ash_MaximumRowsExaminedPerScan shape \<and>
       aa_allowTemporaryTable g = is_true (ash_AllowTemporaryTable shape) \<and>
       aa_allowFilesort g = is_true (ash_AllowFilesort shape)"
  unfolding AuthorizeAggregate_def Let_def lift_validation_def revalidate_aggregate_under_def
  by (auto split: option.splits)

definition aggregate_covers :: "AuthorizedAggregate \<Rightarrow> string list set" where
  "aggregate_covers g =
     (let spec = ValidatedAggregate_Spec (aa_query g); schema = ref_Schema (na_Source spec); object = ref_Name (na_Source spec) in
      {[schema], [schema, object]} \<union> (\<lambda>field. [schema, object, field]) ` set (AggregateReferencedFields spec))"

interpretation aggregate_grant: authorisation "AuthorizeAggregate hash" OperationAggregate aa_limits aggregate_covers for hash
proof (unfold_locales, goal_cases)
  case (1 s b r sem g)
  from AuthorizeAggregate_Inr [OF 1] show ?case
    by (auto simp: aggregate_covers_def Let_def)
qed

section \<open>Keyset pages\<close>

lemma AuthorizeKeysetSelect_Inr:
  "AuthorizeKeysetSelect hash s b credential adapterName query sem = Inr g \<Longrightarrow>
     \<exists>profile rv norm shape. profileForBinding s b OperationSelectKeyset = Inr profile \<and>
       revalidate_keyset_under (Limits_Min (hardLimits s) (prof_Limits profile)) query = Inr rv \<and>
       NormalizeKeysetIdentifiers hash rv sem = Inr norm \<and>
       findKeysetShape (KeysetSelectShapes (prof_Query profile)) (nk_Shape (ValidatedKeyset_Request norm)) = Some shape \<and>
       configuredKeysetSignatureEqual hash shape (ValidatedKeyset_Request norm) sem \<and>
       ks_Limit (nk_Query (ValidatedKeyset_Request norm)) \<le> ksh_MaximumLimit shape \<and>
       source_error (prof_Resources profile) sem (ks_Source (nk_Query (ValidatedKeyset_Request norm))) = None \<and>
       fields_error (prof_Resources profile) sem (ks_Source (nk_Query (ValidatedKeyset_Request norm)))
         (KeysetReferencedFields (ValidatedKeyset_Request norm)) = None \<and>
       authorizeKeysetFeatures (prof_Query profile) (ValidatedKeyset_Request norm) = None \<and>
       credential \<noteq> [] \<and> adapterName \<noteq> [] \<and>
       g = keyset_grant s b credential adapterName (Limits_Min (hardLimits s) (prof_Limits profile)) norm shape sem"
  unfolding AuthorizeKeysetSelect_def Let_def
  by (auto simp: PrecheckKeysetSelect_def profileForBinding_Inr assigned_def matchKeysetShape_def
      revalidate_keyset_effective_def revalidate_keyset_under_def lift_validation_def
      split: option.splits sum.splits if_splits)

definition keyset_covers :: "AuthorizedKeysetSelect \<Rightarrow> string list set" where
  "keyset_covers g =
     (let request = ValidatedKeyset_Request (ak_query g); schema = ref_Schema (ks_Source (nk_Query request));
          object = ref_Name (ks_Source (nk_Query request)) in
      {[schema], [schema, object]} \<union> (\<lambda>field. [schema, object, field]) ` set (KeysetReferencedFields request))"

interpretation keyset_page_grant: authorisation
  "\<lambda>s b (credential, adapterName, query). AuthorizeKeysetSelect hash s b credential adapterName query"
  OperationSelectKeyset ak_limits keyset_covers for hash
proof (unfold_locales, goal_cases)
  case (1 s b r sem g)
  obtain credential adapterName query where r: "r = (credential, adapterName, query)" by (cases r) auto
  from 1 [unfolded r prod.case, THEN AuthorizeKeysetSelect_Inr] show ?case
    by (auto simp: keyset_covers_def Let_def keyset_grant_def)
qed

section \<open>One shape per grant\<close>

lemma aggregate_revalidate_same:
  "validate_aggregate_under l spec = Inr q \<Longrightarrow> revalidate_aggregate_under k q = Inr w \<Longrightarrow> w = q"
  by (auto simp: validate_aggregate_under_Inr revalidate_aggregate_under_Inr normalized_aggregate_def
      cloneNormalizedAggregate_def wf_aggregate_def option_map_clone_wf)

lemma aggregate_spec_normalized:
  assumes v: "validate_aggregate_under l spec = Inr q" and n: "NormalizeAggregateIdentifiers hash q sem = Inr r"
  shows "ValidatedAggregate_Spec r = va_spec r"
proof -
  have wf: "\<forall>f \<in> set_option (na_Filter (va_spec q)). wf_filter f"
    using v by (auto simp: validate_aggregate_under_Inr normalized_aggregate_def wf_aggregate_def)
  from n obtain f where "normalizeOptionalFilter hash (na_Filter (va_spec q)) (CaseInsensitiveFields sem) = Inr f"
    and "na_Filter (va_spec r) = f"
    by (auto simp: NormalizeAggregateIdentifiers_Inr option_map_clone_wf [OF wf])
  with normalizeOptionalFilter_wf [OF wf] have "\<forall>g \<in> set_option (na_Filter (va_spec r)). wf_filter g" by blast
  then show ?thesis
    by (simp add: ValidatedAggregate_Spec_def cloneNormalizedAggregate_def option_map_clone_wf)
qed

lemma matchAggregateShape_iff:
  assumes v: "validate_aggregate_under l spec = Inr q" and n: "NormalizeAggregateIdentifiers hash q sem = Inr r"
  shows "matchAggregateShape hash shapes (ValidatedAggregate_Spec r) sem = Some shape \<longleftrightarrow>
    filter (\<lambda>sh. (na_Mode (va_spec r) = AggregateModeGrouped \<longrightarrow> na_Limit (va_spec r) \<le> ash_MaximumLimit sh) \<and>
      same_signature hash sem (va_spec r) sh) shapes = [shape]"
  unfolding matchAggregateShape_def match_loop_None aggregate_spec_normalized [OF assms]
    shape_matches_iff [OF aggregate_signature_plain [OF assms]] ..

section \<open>Keyset signatures are plain\<close>

lemma ToLower_empty [simp]: "ToLower [] = []"
  by (simp add: ToLower_def)

lemma plain_lower: "IsIdentifier x \<Longrightarrow> plain (canonicalPolicyIdentifier x ci)"
  by (auto simp: canonicalPolicyIdentifier_def plain_identifier)

lemma plain_keyset_filter: "wf_filter f \<Longrightarrow> plain_json (tree_filterShape (queryKeysetShapeFilter ci f))"
proof (induction f rule: wf_filter.induct)
  case (1 rep kind field op vals exprs)
  show ?case
  proof (cases "kind = ''predicate''")
    case True
    with "1.prems" obtain vs where vs: "vals = Some vs" "IsIdentifier field" "valid_arity op (length vs)"
      "\<forall>v \<in> set vs. valid_value rep v"
      by (cases vals) auto
    have "plain (tv_Type v)" if "v \<in> set vs" for v
      using vs(4) that plain_type by (auto simp: valid_value_def)
    with True vs show ?thesis
      by (auto simp: plain_object_iff plain_operator plain_lower simp del: plain_json.simps(3) intro!: plain_omit)
  next
    case False
    with "1.prems" have g: "kind = ''group''" "field = []" "op = ''and'' \<or> op = ''or''" "\<forall>e \<in> set exprs. wf_filter e"
      by auto
    moreover have "canonicalPolicyIdentifier [] ci = []" by (simp add: canonicalPolicyIdentifier_def)
    ultimately show ?thesis using False 1
      by (auto simp: plain_object_iff simp del: plain_json.simps(3) intro!: plain_omit)
  qed
qed

text \<open>A keyset query whose identifiers, directions and filter have passed validation.\<close>

definition plain_keyset_query :: "KeysetSpec \<Rightarrow> bool" where
  "plain_keyset_query query \<longleftrightarrow>
     IsIdentifier (ref_Schema (ks_Source query)) \<and> IsIdentifier (ref_Name (ks_Source query)) \<and>
     (\<forall>s \<in> set (ks_Projection query). valid_keyset_selection s) \<and>
     (\<forall>s \<in> set (ks_OrderBy query). valid_sort s) \<and>
     (\<forall>f \<in> set_option (ks_Filter query). wf_filter f)"

lemma plain_alias: "valid_keyset_selection s \<Longrightarrow> plain (canonicalPolicyIdentifier (sel_Alias s) True)"
  by (cases "sel_Alias s = []")
    (auto simp: valid_keyset_selection_def plain_lower canonicalPolicyIdentifier_def plain_identifier)

lemma keyset_signature_plain:
  assumes "plain_keyset_query (nk_Query request)"
  shows "plain_json (tree_keysetSignature (requestKeysetSignature request sem))"
proof -
  let ?q = "nk_Query request"
  have f: "list_all (\<lambda>(n, x). plain n \<and> plain_json x)
      (tree_optional_filter (map_option (queryKeysetShapeFilter ci) (ks_Filter ?q)))" for ci
    using assms by (cases "ks_Filter ?q") (auto simp: tree_optional_filter_def plain_keyset_query_def plain_keyset_filter)
  have s: "plain (sel_Representation out) \<and> plain (canonicalPolicyIdentifier (sel_Field out) ci) \<and>
      plain (canonicalPolicyIdentifier (sel_Alias out) True)" if "out \<in> set (ks_Projection ?q)" for out ci
    using assms that plain_alias
    by (auto simp: plain_keyset_query_def valid_keyset_selection_def plain_lower plain_representation)
  have o: "plain (sort_Representation order) \<and> plain (canonicalPolicyIdentifier (sort_Field order) ci) \<and>
      plain (sort_Direction order)" if "order \<in> set (ks_OrderBy ?q)" for order ci
    using assms that by (auto simp: plain_keyset_query_def valid_sort_def plain_lower plain_representation)
  have src: "plain (canonicalPolicyIdentifier (ref_Schema (ks_Source ?q)) ci)"
    "plain (canonicalPolicyIdentifier (ref_Name (ks_Source ?q)) ci)" for ci
    using assms by (simp_all add: plain_keyset_query_def plain_lower)
  show ?thesis
    using f s o src
    by (auto simp: tree_keysetSignature_def requestKeysetSignature_def Let_def plain_object_iff
        simp del: plain_json.simps(3) intro!: plain_omit)
qed

lemma configuredKeysetSignatureEqual_iff:
  assumes "plain_keyset_query (nk_Query request)"
  shows "configuredKeysetSignatureEqual hash shape request sem \<longleftrightarrow>
    configuredKeysetSignature hash shape sem = Some (requestKeysetSignature request sem)"
proof -
  have "json_print (tree_keysetSignature sig) = json_print (tree_keysetSignature (requestKeysetSignature request sem)) \<longleftrightarrow>
      sig = requestKeysetSignature request sem" for sig
    using json_print_inject [OF keyset_signature_plain [OF assms], of sem "tree_keysetSignature sig"]
      tree_keysetSignature_inject by metis
  then show ?thesis by (auto simp: configuredKeysetSignatureEqual_def split: option.splits)
qed

lemma keyset_revalidate_same:
  "validate_keyset_under hash l request = Inr q \<Longrightarrow> revalidate_keyset_under k q = Inr w \<Longrightarrow> w = q"
  by (auto simp: validate_keyset_under_Inr revalidate_keyset_under_Inr ValidatedKeyset_Request_normalized)

lemma normalized_keyset_plain:
  assumes v: "validate_keyset_under hash l request = Inr q" and n: "NormalizeKeysetIdentifiers hash q sem = Inr r"
  shows "plain_keyset_query (nk_Query (vk_request r)) \<and> ValidatedKeyset_Request r = vk_request r"
proof -
  let ?q = "kr_Query request"
  have wf: "wf_keyset hash request" and q: "q = normalized_keyset request"
    using v by (simp_all add: validate_keyset_under_Inr)
  have wff: "\<forall>f \<in> set_option (ks_Filter ?q). wf_filter f" using wf by (auto simp: wf_keyset_def Let_def)
  from n obtain f where f: "normalizeOptionalFilter hash (ks_Filter ?q) (CaseInsensitiveFields sem) = Inr f"
    and r: "nk_Query (vk_request r) = ?q\<lparr>ks_Source := normalizeSource sem (ks_Source ?q),
                ks_Projection := map (normalizeSelection sem) (ks_Projection ?q), ks_Filter := f,
                ks_OrderBy := map (normalizeKeysetSort sem) (ks_OrderBy ?q)\<rparr>"
    by (auto simp: NormalizeKeysetIdentifiers_Inr q normalized_keyset_def option_map_clone_wf [OF wff] Let_def)
  have ff: "\<forall>g \<in> set_option f. wf_filter g" using normalizeOptionalFilter_wf [OF wff f] by simp
  have "valid_keyset_selection (normalizeSelection sem s)" if "valid_keyset_selection s" for s
    using that by (auto simp: valid_keyset_selection_def normalizeSelection_def canonicalIdentifier_def)
  moreover have "valid_sort (normalizeKeysetSort sem s)" if "valid_sort s" for s
    using that by (auto simp: valid_sort_def normalizeKeysetSort_def canonicalIdentifier_def)
  ultimately have "plain_keyset_query (nk_Query (vk_request r))"
    using wf ff by (auto simp: plain_keyset_query_def r wf_keyset_def normalizeSource_def canonicalIdentifier_def Let_def)
  moreover from ff have "map_option cloneFilter (ks_Filter (nk_Query (vk_request r))) = ks_Filter (nk_Query (vk_request r))"
    by (simp add: r option_map_clone_wf)
  ultimately show ?thesis
    by (simp add: ValidatedKeyset_Request_def cloneNormalizedKeysetRequest_def Let_def)
qed

section \<open>A sample deployment\<close>

text \<open>One principal, one profile with an aggregate and a keyset shape: the concrete input of the witnesses.\<close>

definition sample_aggregate_shape :: AggregateShape where
  "sample_aggregate_shape = \<lparr>ash_Name = ''orders_by_state'', ash_PublicDescription = None, ash_Mode = ''grouped'',
     ash_Source = \<lparr>source_Schema = ''app'', source_Name = ''orders''\<rparr>,
     ash_Projection =
       [\<lparr>aso_Boundaries = None, aso_Representation = [], aso_Kind = ''dimension'', aso_Field = ''state'', aso_Function = [],
          aso_Alias = [], aso_Unit = [], aso_Timezone = []\<rparr>,
        \<lparr>aso_Boundaries = None, aso_Representation = [], aso_Kind = ''measure'', aso_Field = [], aso_Function = ''count_all'',
          aso_Alias = ''n'', aso_Unit = [], aso_Timezone = []\<rparr>],
     ash_Filter = None,
     ash_OrderBy = Some [\<lparr>asr_Representation = [], asr_Kind = ''measure'', asr_Field = [], asr_Alias = ''n'', asr_Direction = ''desc''\<rparr>],
     ash_MaximumLimit = 20, ash_RequiredIndex = ''by_state'', ash_MaximumRowsExaminedPerScan = 1000,
     ash_AllowTemporaryTable = Some True, ash_AllowFilesort = Some False\<rparr>"

definition sample_keyset_shape :: "AggregateShapeFilter option \<Rightarrow> KeysetSelectShape" where
  "sample_keyset_shape f = \<lparr>ksh_Name = ''by_id'', ksh_PublicDescription = None,
     ksh_Source = \<lparr>source_Schema = ''app'', source_Name = ''orders''\<rparr>,
     ksh_Projection = [\<lparr>ksp_Representation = [], ksp_Kind = ''field'', ksp_Field = ''ID'', ksp_Alias = []\<rparr>],
     ksh_Filter = f, ksh_OrderBy = [\<lparr>kso_Representation = [], kso_Field = ''id'', kso_Direction = ''asc''\<rparr>],
     ksh_MaximumLimit = 50, ksh_RequiredIndex = ''PRIMARY'', ksh_MaximumRowsExaminedPerScan = 500,
     ksh_AllowTemporaryTable = Some False, ksh_AllowFilesort = Some False\<rparr>"

definition sample_profile :: Profile where
  "sample_profile = \<lparr>prof_Datasources = [''main''],
     prof_Operations = [OperationListObjects, OperationDescribeObject, OperationExplainSelect, OperationSelect,
       OperationSelectKeyset, OperationAggregate, OperationDescribeObjectStatistics],
     prof_Resources = \<lparr>Schemas = \<lparr>Allow = [''app''], Deny = []\<rparr>,
       Objects = \<lparr>Allow = [''app.*''], Deny = [''app.secrets'']\<rparr>,
       Fields = \<lparr>Allow = [], Deny = [''app.*.password'']\<rparr>\<rparr>,
     prof_Query = \<lparr>AllowSourceText = True, AllowFiltering = True, AllowGroupBy = True, AllowSorting = True,
       AllowedFilterOperators = [''in'', ''is_null''], AllowedAggregates = [''count''],
       AggregateShapes = [sample_aggregate_shape], KeysetSelectShapes = [sample_keyset_shape None]\<rparr>,
     prof_Limits = sample_limits 100\<rparr>"

definition sample_snapshot :: Snapshot where
  "sample_snapshot = \<lparr>snap_address = 1, snap_version = ''v1'', snap_hash = ''h1'', hardLimits = sample_limits 1000,
     principals = [''alice'' \<mapsto> \<lparr>principal_Profiles = [''ops''], principal_Datasources = [''main'']\<rparr>],
     profiles = [''ops'' \<mapsto> sample_profile]\<rparr>"

definition sample_binding :: "Operation \<Rightarrow> AuthorizedBinding" where
  "sample_binding operation = \<lparr>ab_owner = Some 1, ab_principal = ''alice'',
     ab_key = \<lparr>key_Profile = ''ops'', key_Datasource = ''main''\<rparr>, ab_operation = operation,
     ab_limits = sample_limits 100, ab_policyHash = ''h1''\<rparr>"

lemma sample_min [simp]: "Limits_Min (sample_limits 1000) (sample_limits 100) = sample_limits 100"
  by (simp add: limits_eq_iff sample_limits_def)

lemma sample_binding_minted:
  "operation \<in> set (prof_Operations sample_profile) \<Longrightarrow>
     AuthorizeBinding sample_snapshot ''alice'' ''ops'' ''main'' operation = Inr (sample_binding operation)"
  by (auto simp: AuthorizeBinding_Inr assigned_def sample_snapshot_def sample_binding_def sample_profile_def)

lemma sample_profile_bound:
  "operation \<in> set (prof_Operations sample_profile) \<Longrightarrow>
     profileForBinding sample_snapshot (sample_binding operation) operation = Inr sample_profile"
  by (auto simp: profileForBinding_Inr bound_to_def assigned_def sample_snapshot_def sample_binding_def sample_profile_def)

lemma sample_patterns:
  "schema_allowed (prof_Resources sample_profile) sample_semantics ''app'' \<and>
   object_allowed (prof_Resources sample_profile) sample_semantics ''app'' ''orders'' \<and>
   field_allowed (prof_Resources sample_profile) sample_semantics ''app'' ''orders'' ''id'' \<and>
   field_allowed (prof_Resources sample_profile) sample_semantics ''app'' ''orders'' ''state'' \<and>
   \<not> field_allowed (prof_Resources sample_profile) sample_semantics ''app'' ''orders'' ''password'' \<and>
   \<not> object_allowed (prof_Resources sample_profile) sample_semantics ''app'' ''Secrets''"
  by code_simp

lemma sample_select_granted:
  "\<exists>g. AuthorizeSelect sample_snapshot (sample_binding OperationSelect) (normalized sample_spec 1000) sample_semantics = Inr g \<and>
     aq_query g = normalized sample_spec 100"
proof -
  have "revalidate_under (sample_limits 100) (normalized sample_spec 1000) = Inr (normalized sample_spec 100)"
    using revalidate_equals_validate [OF sample_spec_valid [of 1000], of "sample_limits 100"] sample_spec_valid [of 100]
    by (simp add: limits_le_def usable_limits_def sample_limits_def)
  moreover have "Validated_Spec (normalized sample_spec 100) = v_spec (normalized sample_spec 100)"
    by (rule Validated_Spec_validate [OF sample_spec_valid])
  moreover have "ValidateSimpleSelect (normalized sample_spec 100) = None \<and>
      set (referencedFields (v_spec (normalized sample_spec 100))) = set [''id'', ''state''] \<and>
      authorizeFeatures (prof_Query sample_profile) (v_spec (normalized sample_spec 100)) = None \<and>
      ns_Source (v_spec (normalized sample_spec 100)) = \<lparr>ref_Schema = ''app'', ref_Name = ''orders''\<rparr>"
    by code_simp
  moreover have "hardLimits sample_snapshot = sample_limits 1000" "prof_Limits sample_profile = sample_limits 100"
    by (simp_all add: sample_snapshot_def sample_profile_def)
  moreover have "profileForBinding sample_snapshot (sample_binding OperationSelect) OperationSelect = Inr sample_profile"
    by (rule sample_profile_bound) (simp add: sample_profile_def)
  ultimately show ?thesis using sample_patterns
    unfolding AuthorizeSelect_def authorizeQuery_Inr by auto
qed

text \<open>Whether a \<open>(value, error)\<close> pair carries a value, for evaluation.\<close>

definition succeeds :: "'e + 'a \<Rightarrow> bool" where
  "succeeds r = (case r of Inl e \<Rightarrow> False | Inr g \<Rightarrow> True)"

lemma succeeds_iff: "succeeds r \<longleftrightarrow> (\<exists>g. r = Inr g)"
  by (cases r) (simp_all add: succeeds_def)

lemma sample_aggregate_granted:
  "succeeds (AuthorizeAggregate sha256 sample_snapshot (sample_binding OperationAggregate)
     (normalized_aggregate sample_aggregate) sample_semantics)"
  by code_simp

lemma sample_keyset_granted:
  "succeeds (AuthorizeKeysetSelect sha256 sample_snapshot (sample_binding OperationSelectKeyset) ''alice'' ''mysql8''
     (normalized_keyset sample_keyset) sample_semantics)"
proof -
  let ?q = "normalized_keyset sample_keyset" and ?b = "sample_binding OperationSelectKeyset"
  have "PrecheckKeysetSelect sha256 sample_snapshot ?b ?q = None" by code_simp
  moreover have "(case revalidate_keyset_effective (Limits_Min (hardLimits sample_snapshot) (prof_Limits sample_profile)) ?q of
      Inl e \<Rightarrow> False
    | Inr rv \<Rightarrow> (case NormalizeKeysetIdentifiers sha256 rv sample_semantics of
        Inl e \<Rightarrow> False
      | Inr norm \<Rightarrow> (let request = ValidatedKeyset_Request norm; src = ks_Source (nk_Query request) in
          case matchKeysetShape sha256 (KeysetSelectShapes (prof_Query sample_profile)) request sample_semantics of
            None \<Rightarrow> False
          | Some shape \<Rightarrow> first_error [
              fail_if (ks_Limit (nk_Query request) > ksh_MaximumLimit shape) (Denial DeniedQueryFeature),
              source_error (prof_Resources sample_profile) sample_semantics src,
              fields_error (prof_Resources sample_profile) sample_semantics src (KeysetReferencedFields request),
              authorizeKeysetFeatures (prof_Query sample_profile) request] = None)))"
    by code_simp
  then obtain rv norm shape where
      "revalidate_keyset_effective (Limits_Min (hardLimits sample_snapshot) (prof_Limits sample_profile)) ?q = Inr rv"
      "NormalizeKeysetIdentifiers sha256 rv sample_semantics = Inr norm"
      "matchKeysetShape sha256 (KeysetSelectShapes (prof_Query sample_profile)) (ValidatedKeyset_Request norm)
         sample_semantics = Some shape"
      "first_error [
         fail_if (ks_Limit (nk_Query (ValidatedKeyset_Request norm)) > ksh_MaximumLimit shape) (Denial DeniedQueryFeature),
         source_error (prof_Resources sample_profile) sample_semantics (ks_Source (nk_Query (ValidatedKeyset_Request norm))),
         fields_error (prof_Resources sample_profile) sample_semantics (ks_Source (nk_Query (ValidatedKeyset_Request norm)))
           (KeysetReferencedFields (ValidatedKeyset_Request norm)),
         authorizeKeysetFeatures (prof_Query sample_profile) (ValidatedKeyset_Request norm)] = None"
    by (simp only: Let_def split: sum.splits option.splits)
  moreover have "profiles sample_snapshot (key_Profile (ab_key ?b)) = Some sample_profile" "ab_principal ?b = ''alice''"
    "key_Profile (ab_key ?b) = ''ops''"
    by (simp_all add: sample_snapshot_def sample_binding_def)
  ultimately have "AuthorizeKeysetSelect sha256 sample_snapshot ?b ''alice'' ''mysql8'' ?q sample_semantics =
      Inr (keyset_grant sample_snapshot ?b ''alice'' ''mysql8''
        (Limits_Min (hardLimits sample_snapshot) (prof_Limits sample_profile)) norm shape sample_semantics)"
    by (simp add: AuthorizeKeysetSelect_def lift_validation_def Let_def)
  then show ?thesis by (simp add: succeeds_def)
qed

section \<open>Limits of a grant\<close>

definition within_hard_limits :: "Snapshot \<Rightarrow> ('g \<Rightarrow> Limits) \<Rightarrow> policy_error + 'g \<Rightarrow> bool" where
  "within_hard_limits s limits_of r \<longleftrightarrow> (case r of Inl e \<Rightarrow> True | Inr g \<Rightarrow> limits_le (limits_of g) (hardLimits s))"

lemma within_hard_limits_I:
  "(\<And>g. r = Inr g \<Longrightarrow> limits_le (limits_of g) (hardLimits s)) \<Longrightarrow> within_hard_limits s limits_of r"
  by (simp add: within_hard_limits_def split: sum.split)

section \<open>Representations in keyset filters\<close>

text \<open>Whether some node of a configured filter asks for a representation.\<close>

fun asks_representation :: "AggregateShapeFilter \<Rightarrow> bool" where
  "asks_representation (AggregateShapeFilter rep kind field op types exprs) \<longleftrightarrow>
     rep \<noteq> [] \<or> kind \<noteq> ''predicate'' \<and> list_ex asks_representation (nil_slice exprs)"

fun shape_representation :: "filterShape \<Rightarrow> bool" where
  "shape_representation (FilterShape rep kind field op types exprs) \<longleftrightarrow> rep \<noteq> [] \<or> list_ex shape_representation exprs"

lemma query_shape_has_no_representation: "\<not> shape_representation (queryKeysetShapeFilter ci f)"
  by (induction ci f rule: queryKeysetShapeFilter.induct) (auto simp: list_ex_iff)

lemma those_set: "those rs = Some ys \<Longrightarrow> r \<in> set rs \<Longrightarrow> \<exists>y \<in> set ys. r = Some y"
  by (induction rs arbitrary: ys) (auto split: option.splits)

lemma configured_shape_keeps_representation:
  "configuredShapeFilter hash ci f = Some shp \<Longrightarrow> asks_representation f \<Longrightarrow> shape_representation shp"
proof (induction hash ci f arbitrary: shp rule: configuredShapeFilter.induct)
  case (1 hash ci rep kind field op types exprs)
  show ?case
  proof (cases "kind = ''predicate'' \<or> rep \<noteq> []")
    case True
    with 1 show ?thesis by (auto simp: Let_def split: option.splits if_splits)
  next
    case False
    with "1.prems"(2) obtain e where e: "e \<in> set (nil_slice exprs)" "asks_representation e" by (auto simp: list_ex_iff)
    from False "1.prems"(1) obtain children where c: "those (map (configuredShapeFilter hash ci) (nil_slice exprs)) = Some children"
      and shp: "shp = FilterShape rep kind (canonicalPolicyIdentifier field ci) op [] (sortAggregateShapeFilters hash children)"
      by (auto simp: Let_def split: option.splits if_splits)
    from those_set [OF c] e(1) obtain y where "y \<in> set children" "configuredShapeFilter hash ci e = Some y" by auto
    with "1.IH" False e have "y \<in> set (sortAggregateShapeFilters hash children)" "shape_representation y"
      by (auto simp: sortAggregateShapeFilters_def)
    with shp show ?thesis by (auto simp: list_ex_iff)
  qed
qed

section \<open>Properties\<close>

text \<open>
  C14: no column a granted select mentions, in its projection, at any depth of its filter, in its grouping
  or in its order, matches a deny pattern of the profile; the query's schema and object do not either.
\<close>

theorem denied_columns_are_never_read:
  assumes "AuthorizeSelect s b query sem = Inr g" and "profiles s (key_Profile (ab_key b)) = Some profile"
    and "mentions_column (Validated_Spec (aq_query g)) name" and "name \<noteq> []"
    and "src = ns_Source (Validated_Spec (aq_query g))" and "pattern \<in> set (Deny (Fields (prof_Resources profile)))"
  shows "\<not> match pattern [ref_Schema src, ref_Name src, name]
    [CaseInsensitiveSchemas sem, CaseInsensitiveObjects sem, CaseInsensitiveFields sem]"
proof -
  have "[ref_Schema src, ref_Name src, name] \<in> query_covers g"
    using assms(3-5) by (auto simp: query_covers_def Let_def referencedFields_complete)
  from select_grant.grant_covers_allowed [OF assms(1) this assms(2)] show ?thesis
    using assms(6) by (simp add: field_allowed_def allowed_iff)
qed

theorem denied_columns_are_never_read_witness:
  "\<not> match ''app.*.password'' [''app'', ''orders'', ''state''] [False, True, True]"
proof -
  obtain g where g: "AuthorizeSelect sample_snapshot (sample_binding OperationSelect) (normalized sample_spec 1000)
      sample_semantics = Inr g" and q: "aq_query g = normalized sample_spec 100"
    using sample_select_granted by blast
  have spec: "Validated_Spec (aq_query g) = v_spec (normalized sample_spec 100)"
    unfolding q by (rule Validated_Spec_validate [OF sample_spec_valid])
  have "''state'' \<in> set (collectFields sample_filter)" by code_simp
  then have m: "mentions_column (Validated_Spec (aq_query g)) ''state''"
    unfolding spec mentions_column_iff filter_mentions_iff by (simp add: normalized_def sample_spec_filter)
  have p: "profiles sample_snapshot (key_Profile (ab_key (sample_binding OperationSelect))) = Some sample_profile"
    by (simp add: sample_snapshot_def sample_binding_def)
  have d: "''app.*.password'' \<in> set (Deny (Fields (prof_Resources sample_profile)))" by (simp add: sample_profile_def)
  show ?thesis
    using denied_columns_are_never_read [OF g p m _ refl d]
    by (simp add: spec normalized_def sample_spec_def sample_semantics_def)
qed

text \<open>
  C17: a binding is worth nothing outside the snapshot that minted it: after a reload every authorisation
  with a binding of the old snapshot is denied, whatever the new policy says.
\<close>

theorem stale_bindings_are_denied:
  assumes "AuthorizeBinding old principalName profileName datasource operation = Inr b"
    and "snap_address new \<noteq> snap_address old"
  shows "AuthorizeSelect new b query sem = Inl (Denial DeniedOperation) \<and>
    AuthorizeExplain new b query sem = Inl (Denial DeniedOperation) \<and>
    AuthorizeAggregate hash new b agg sem = Inl (Denial DeniedOperation) \<and>
    AuthorizeKeysetSelect hash new b credential adapterName keyset sem = Inl (Denial DeniedOperation) \<and>
    (\<nexists>g. AuthorizeListObjects new b schema sem = Inr g) \<and> (\<nexists>g. AuthorizeDescribeObject new b object sem = Inr g) \<and>
    (\<nexists>g. AuthorizeObjectStatistics new b credential adapterName object sem = Inr g)"
proof -
  have "\<not> bound_to new b op" for op using assms by (auto simp: AuthorizeBinding_Inr bound_to_def)
  then have p: "profileForBinding new b op = Inl (Denial DeniedOperation)" for op
    using profileForBinding_Inl profileForBinding_Inr by (cases "profileForBinding new b op") auto
  then have k: "PrecheckKeysetSelect hash new b keyset = Some (Denial DeniedOperation)"
    by (simp add: PrecheckKeysetSelect_def)
  have "AuthorizeKeysetSelect hash new b credential adapterName keyset sem = Inl (Denial DeniedOperation)"
    using k by (auto simp: AuthorizeKeysetSelect_def first_error_Cons fail_if_def)
  with p show ?thesis
    by (auto simp: AuthorizeSelect_def AuthorizeExplain_def authorizeQuery_def AuthorizeAggregate_def
        AuthorizeListObjects_def AuthorizeDescribeObject_def authorizeSchema_def AuthorizeObjectStatistics_def)
qed

theorem stale_bindings_are_denied_witness:
  "AuthorizeSelect (sample_snapshot\<lparr>snap_address := 2\<rparr>) (sample_binding OperationSelect) (normalized sample_spec 100)
     sample_semantics = Inl (Denial DeniedOperation)"
proof -
  have "AuthorizeBinding sample_snapshot ''alice'' ''ops'' ''main'' OperationSelect = Inr (sample_binding OperationSelect)"
    by (rule sample_binding_minted) (simp add: sample_profile_def)
  then show ?thesis
    using stale_bindings_are_denied [where new = "sample_snapshot\<lparr>snap_address := 2\<rparr>"] by (simp add: sample_snapshot_def)
qed

text \<open>
  C18: whatever operation is authorised, the limits of the grant never exceed the hard limits of the
  server in any dimension.
\<close>

theorem grants_stay_within_hard_limits:
  "within_hard_limits s aq_limits (AuthorizeSelect s b query sem) \<and>
   within_hard_limits s aq_limits (AuthorizeExplain s b query sem) \<and>
   within_hard_limits s aa_limits (AuthorizeAggregate hash s b agg sem) \<and>
   within_hard_limits s ak_limits (AuthorizeKeysetSelect hash s b credential adapterName keyset sem) \<and>
   within_hard_limits s sc_limits (AuthorizeListObjects s b schema sem) \<and>
   within_hard_limits s sc_limits (AuthorizeDescribeObject s b object sem) \<and>
   within_hard_limits s os_limits (AuthorizeObjectStatistics s b credential adapterName object sem)"
  using keyset_page_grant.grant_within_hard_limits [of hash s b "(credential, adapterName, keyset)" sem]
    statistics_grant.grant_within_hard_limits [of s b "(credential, adapterName, object)" sem]
  by (intro conjI within_hard_limits_I)
    (simp_all add: select_grant.grant_within_hard_limits explain_grant.grant_within_hard_limits
      aggregate_grant.grant_within_hard_limits list_grant.grant_within_hard_limits
      describe_grant.grant_within_hard_limits)

text \<open>
  C19: the objects a granted listing lets through are exactly those of the granted schema that the
  profile's object patterns allow, and a description of an object lets through exactly the allowed
  columns; a listing never filters columns and a description never filters objects.
\<close>

theorem schema_grants_filter_exactly:
  assumes "AuthorizeListObjects s b schema sem = Inr l" and "AuthorizeDescribeObject s c object sem = Inr d"
    and "profiles s (key_Profile (ab_key b)) = Some profile" and "profiles s (key_Profile (ab_key c)) = Some profile"
  shows "AllowsObject l name = object_allowed (prof_Resources profile) sem schema name \<and> \<not> AllowsField l name \<and>
    AllowsField d name = field_allowed (prof_Resources profile) sem (ref_Schema object) (ref_Name object) name \<and>
    \<not> AllowsObject d name"
proof -
  have "IsIdentifier x \<Longrightarrow> x \<noteq> []" for x by (auto simp: IsIdentifier_iff identifierPattern_def)
  then show ?thesis using assms
    by (auto simp: AuthorizeListObjects_def AuthorizeDescribeObject_def authorizeSchema_def schema_request_error_def
        AllowsObject_def AllowsField_def profileForBinding_Inr assigned_def operation_defs split: if_splits)
qed

theorem schema_grants_filter_exactly_witness:
  "\<exists>l. AuthorizeListObjects sample_snapshot (sample_binding OperationListObjects) ''app'' sample_semantics = Inr l \<and>
     AllowsObject l ''orders'' \<and> \<not> AllowsObject l ''Secrets''"
proof -
  have "succeeds (AuthorizeListObjects sample_snapshot (sample_binding OperationListObjects) ''app'' sample_semantics)"
    "succeeds (AuthorizeDescribeObject sample_snapshot (sample_binding OperationDescribeObject)
      \<lparr>ref_Schema = ''app'', ref_Name = ''orders''\<rparr> sample_semantics)"
    by code_simp+
  then obtain l d where
    "AuthorizeListObjects sample_snapshot (sample_binding OperationListObjects) ''app'' sample_semantics = Inr l"
    "AuthorizeDescribeObject sample_snapshot (sample_binding OperationDescribeObject)
      \<lparr>ref_Schema = ''app'', ref_Name = ''orders''\<rparr> sample_semantics = Inr d"
    unfolding succeeds_iff by blast
  moreover from schema_grants_filter_exactly [OF this, of sample_profile] sample_patterns
  have "AllowsObject l ''orders''" "\<not> AllowsObject l ''Secrets''"
    by (simp_all add: sample_snapshot_def sample_binding_def)
  ultimately show ?thesis by blast
qed

text \<open>
  C15: a validated aggregate is granted only if exactly one shape of the profile has the signature of its
  normal form and admits its row limit; index, scan bound and plan controls of the grant are those of
  that shape, and all bind parameters, numeric boundaries included, are within the limit.
\<close>

theorem aggregates_run_under_one_shape:
  assumes "validate_aggregate_under l spec = Inr q" and "AuthorizeAggregate hash s b q sem = Inr g"
  shows "\<exists>profile shape. profiles s (key_Profile (ab_key b)) = Some profile \<and>
    filter (\<lambda>sh. (na_Mode (va_spec (aa_query g)) = AggregateModeGrouped \<longrightarrow>
        na_Limit (va_spec (aa_query g)) \<le> ash_MaximumLimit sh) \<and> same_signature hash sem (va_spec (aa_query g)) sh)
      (AggregateShapes (prof_Query profile)) = [shape] \<and>
    aa_shapeName g = ash_Name shape \<and> aa_requiredIndex g = ash_RequiredIndex shape \<and>
    aa_maximumRowsExaminedPerScan g = ash_MaximumRowsExaminedPerScan shape \<and>
    aa_allowTemporaryTable g = is_true (ash_AllowTemporaryTable shape) \<and>
    aa_allowFilesort g = is_true (ash_AllowFilesort shape) \<and> aa_parameterCount g \<le> MaxParameters (aa_limits g)"
proof -
  from AuthorizeAggregate_Inr [OF assms(2)] obtain profile rv shape where
    p: "profileForBinding s b OperationAggregate = Inr profile"
    and rv: "revalidate_aggregate_under (Limits_Min (hardLimits s) (prof_Limits profile)) q = Inr rv"
    and n: "NormalizeAggregateIdentifiers hash rv sem = Inr (aa_query g)"
    and m: "matchAggregateShape hash (AggregateShapes (prof_Query profile)) (ValidatedAggregate_Spec (aa_query g)) sem = Some shape"
    and k: "NumericBucketParameters (ValidatedAggregate_Spec (aa_query g)) (boundary_counts (ash_Projection shape))
         (Parameters (va_stats (aa_query g))) (MaxParameters (aa_limits g)) = Inr (aa_parameterCount g)"
    and g: "aa_shapeName g = ash_Name shape" "aa_requiredIndex g = ash_RequiredIndex shape"
       "aa_maximumRowsExaminedPerScan g = ash_MaximumRowsExaminedPerScan shape"
       "aa_allowTemporaryTable g = is_true (ash_AllowTemporaryTable shape)"
       "aa_allowFilesort g = is_true (ash_AllowFilesort shape)"
    by blast
  have "rv = q" by (rule aggregate_revalidate_same [OF assms(1) rv])
  with n m have "filter (\<lambda>sh. (na_Mode (va_spec (aa_query g)) = AggregateModeGrouped \<longrightarrow>
        na_Limit (va_spec (aa_query g)) \<le> ash_MaximumLimit sh) \<and> same_signature hash sem (va_spec (aa_query g)) sh)
      (AggregateShapes (prof_Query profile)) = [shape]"
    using matchAggregateShape_iff [OF assms(1)] by blast
  with p k g show ?thesis by (auto simp: profileForBinding_Inr assigned_def NumericBucketParameters_Inr)
qed

theorem aggregates_run_under_one_shape_witness:
  "\<exists>g. AuthorizeAggregate sha256 sample_snapshot (sample_binding OperationAggregate)
     (normalized_aggregate sample_aggregate) sample_semantics = Inr g \<and> aa_shapeName g = ''orders_by_state''"
proof -
  obtain g where g: "AuthorizeAggregate sha256 sample_snapshot (sample_binding OperationAggregate)
     (normalized_aggregate sample_aggregate) sample_semantics = Inr g"
    using sample_aggregate_granted unfolding succeeds_iff by blast
  have "aa_shapeName g = ''orders_by_state''"
    using aggregates_run_under_one_shape [OF sample_aggregate_valid g]
    by (auto simp: sample_snapshot_def sample_binding_def sample_profile_def sample_aggregate_shape_def split: if_splits)
  with g show ?thesis by blast
qed

text \<open>
  C16: a validated keyset page is granted only under the shape it names: the first shape of that name in the
  profile has the signature of the normalised request and a maximum no smaller than the requested number
  of rows, and the grant carries that shape's index and plan controls.
\<close>

theorem keyset_pages_run_under_their_shape:
  assumes "validate_keyset_under hash l request = Inr q"
    and "AuthorizeKeysetSelect hash s b credential adapterName q sem = Inr g"
  shows "\<exists>profile shape. profiles s (key_Profile (ab_key b)) = Some profile \<and>
    find (\<lambda>sh. ksh_Name sh = kr_Shape request) (KeysetSelectShapes (prof_Query profile)) = Some shape \<and>
    configuredKeysetSignature hash shape sem = Some (requestKeysetSignature (vk_request (ak_query g)) sem) \<and>
    ks_Limit (kr_Query request) \<le> ksh_MaximumLimit shape \<and> ak_requiredIndex g = ksh_RequiredIndex shape \<and>
    ak_maximumRowsExaminedPerScan g = ksh_MaximumRowsExaminedPerScan shape \<and>
    ak_allowTemporaryTable g = is_true (ksh_AllowTemporaryTable shape) \<and>
    ak_allowFilesort g = is_true (ksh_AllowFilesort shape)"
proof -
  from AuthorizeKeysetSelect_Inr [OF assms(2)] obtain profile rv norm shape where
    p: "profileForBinding s b OperationSelectKeyset = Inr profile"
    and rv: "revalidate_keyset_under (Limits_Min (hardLimits s) (prof_Limits profile)) q = Inr rv"
    and n: "NormalizeKeysetIdentifiers hash rv sem = Inr norm"
    and f: "findKeysetShape (KeysetSelectShapes (prof_Query profile)) (nk_Shape (ValidatedKeyset_Request norm)) = Some shape"
    and m: "configuredKeysetSignatureEqual hash shape (ValidatedKeyset_Request norm) sem"
    and k: "ks_Limit (nk_Query (ValidatedKeyset_Request norm)) \<le> ksh_MaximumLimit shape"
    and g: "g = keyset_grant s b credential adapterName (Limits_Min (hardLimits s) (prof_Limits profile)) norm shape sem"
    by blast
  have "rv = q" by (rule keyset_revalidate_same [OF assms(1) rv])
  with n have n': "NormalizeKeysetIdentifiers hash q sem = Inr norm" by simp
  note plain = normalized_keyset_plain [OF assms(1) n']
  have "q = normalized_keyset request" using assms(1) by (simp add: validate_keyset_under_Inr)
  with n' have "nk_Shape (vk_request norm) = kr_Shape request \<and>
      ks_Limit (nk_Query (vk_request norm)) = ks_Limit (kr_Query request)"
    by (auto simp: NormalizeKeysetIdentifiers_Inr normalized_keyset_def Let_def)
  with p f m k g plain show ?thesis
    by (auto simp: profileForBinding_Inr assigned_def findKeysetShape_def keyset_grant_def configuredKeysetSignatureEqual_iff)
qed

theorem keyset_pages_run_under_their_shape_witness:
  "\<exists>g. AuthorizeKeysetSelect sha256 sample_snapshot (sample_binding OperationSelectKeyset) ''alice'' ''mysql8''
     (normalized_keyset sample_keyset) sample_semantics = Inr g \<and> ak_requiredIndex g = ''PRIMARY''"
proof -
  obtain g where g: "AuthorizeKeysetSelect sha256 sample_snapshot (sample_binding OperationSelectKeyset) ''alice'' ''mysql8''
     (normalized_keyset sample_keyset) sample_semantics = Inr g"
    using sample_keyset_granted unfolding succeeds_iff by blast
  have "validate_keyset_under sha256 (sample_limits 100) sample_keyset = Inr (normalized_keyset sample_keyset)"
    by (rule sample_keyset_valid) simp
  from keyset_pages_run_under_their_shape [OF this g] have "ak_requiredIndex g = ''PRIMARY''"
    by (auto simp: sample_snapshot_def sample_binding_def sample_profile_def sample_keyset_shape_def split: if_splits)
  with g show ?thesis by blast
qed



end
