(* ===== verification/Sql_Lexer.thy ===== *)
theory Sql_Lexer
  imports Go_Strings
begin

text \<open>
  How a MySQL server reads the statements the adapter builds, as far as safety depends on it: which
  parts of the text are quoted names, string literals and parameter markers. The lexer accepts the
  dialect the adapter writes (backquoted names with doubled backquotes, literals in apostrophes, block
  comments such as optimizer hints); everything that could end a statement or hide the rest of it, a
  semicolon, a double quote, a backslash, a hash or a double dash outside quotes, makes it fail. The relation
  \<open>reads s items\<close> says that \<open>s\<close> is read as \<open>items\<close> in any context that does not start with a backquote; it is
  closed under concatenation, so that a compiler can be followed piece by piece.
\<close>

definition bq :: char where "bq = CHR 0x60"
definition apostrophe :: char where "apostrophe = CHR 0x27"
definition escape :: char where "escape = CHR 0x5C"

datatype sql_item = Name string | Placeholder | Literal string

text \<open>The contents of a quoted name after its opening backquote, and the rest of the text.\<close>

fun split_name :: "string \<Rightarrow> (string \<times> string) option" where
  "split_name [] = None"
| "split_name [c] = (if c = bq then Some ([], []) else None)"
| "split_name (c # d # r) =
     (if c \<noteq> bq then map_option (\<lambda>(n, t). (c # n, t)) (split_name (d # r))
      else if d = bq then map_option (\<lambda>(n, t). (bq # n, t)) (split_name r)
      else Some ([], d # r))"

fun split_literal :: "string \<Rightarrow> (string \<times> string) option" where
  "split_literal [] = None"
| "split_literal [c] = (if c = apostrophe then Some ([], []) else None)"
| "split_literal (c # d # r) =
     (if c = escape then map_option (\<lambda>(n, t). (c # d # n, t)) (split_literal r)
      else if c \<noteq> apostrophe then map_option (\<lambda>(n, t). (c # n, t)) (split_literal (d # r))
      else if d = apostrophe then map_option (\<lambda>(n, t). (apostrophe # n, t)) (split_literal r)
      else Some ([], d # r))"

fun skip_comment :: "string \<Rightarrow> string option" where
  "skip_comment (c # d # r) = (if c = CHR ''*'' \<and> d = CHR ''/'' then Some r else skip_comment (d # r))"
| "skip_comment _ = None"

lemma split_name_shorter: "split_name s = Some (n, t) \<Longrightarrow> length t < length s"
  by (induction s arbitrary: n t rule: split_name.induct) (fastforce split: if_splits)+

lemma split_literal_shorter: "split_literal s = Some (n, t) \<Longrightarrow> length t < length s"
  by (induction s arbitrary: n t rule: split_literal.induct) (fastforce split: if_splits)+

lemma skip_comment_shorter: "skip_comment s = Some t \<Longrightarrow> length t < length s"
  by (induction s arbitrary: t rule: skip_comment.induct) (fastforce split: if_splits)+

definition forbidden :: "char \<Rightarrow> bool" where
  "forbidden c \<longleftrightarrow> c \<in> {CHR ''#'', CHR 0x3B, CHR 0x22, CHR 0x5C}"

function sql_lex :: "string \<Rightarrow> sql_item list option" where
  "sql_lex [] = Some []"
| "sql_lex (c # r) =
     (if c = bq then (case split_name r of None \<Rightarrow> None | Some (n, t) \<Rightarrow> map_option (\<lambda>r. Name n # r) (sql_lex t))
      else if c = apostrophe then
        (case split_literal r of None \<Rightarrow> None | Some (n, t) \<Rightarrow> map_option (\<lambda>r. Literal n # r) (sql_lex t))
      else if c = CHR ''?'' then map_option (\<lambda>r. Placeholder # r) (sql_lex r)
      else if forbidden c \<or> c = CHR ''-'' \<and> take 1 r = ''-'' then None
      else if c = CHR ''/'' \<and> take 1 r = ''*'' then (case skip_comment (drop 1 r) of None \<Rightarrow> None | Some t \<Rightarrow> sql_lex t)
      else sql_lex r)"
  by pat_completeness auto
termination
  by (relation "measure length")
    (auto dest!: split_name_shorter split_literal_shorter skip_comment_shorter simp: le_diff_conv)

declare sql_lex.simps(2) [simp del]

definition calm :: "char \<Rightarrow> bool" where
  "calm c \<longleftrightarrow> c \<notin> {bq, apostrophe, CHR ''?'', CHR ''-'', CHR ''/''} \<and> \<not> forbidden c"

lemmas calm_defs = calm_def forbidden_def bq_def apostrophe_def

lemma sql_lex_calm: "calm c \<Longrightarrow> sql_lex (c # r) = sql_lex r"
  by (simp add: sql_lex.simps calm_def)

lemma sql_lex_calm_append: "list_all calm w \<Longrightarrow> sql_lex (w @ t) = sql_lex t"
  by (induction w) (simp_all add: sql_lex_calm)

section \<open>Reading in context\<close>

definition reads :: "string \<Rightarrow> sql_item list \<Rightarrow> bool" where
  "reads s items \<longleftrightarrow> (\<forall>t. take 1 t \<noteq> [bq] \<longrightarrow> sql_lex (s @ t) = map_option (\<lambda>r. items @ r) (sql_lex t))"

lemma reads_lex: "reads s items \<Longrightarrow> sql_lex s = Some items"
  using reads_def [of s items] by (auto dest: spec [of _ "[]"])

lemma reads_Nil: "reads [] []"
  by (simp add: reads_def option.map_ident)

lemma reads_calm_prefix: "list_all calm w \<Longrightarrow> reads s items \<Longrightarrow> reads (w @ s) items"
  by (simp add: reads_def sql_lex_calm_append)

lemma reads_calm: "list_all calm w \<Longrightarrow> reads w []"
  using reads_calm_prefix [OF _ reads_Nil] by simp

lemma reads_append:
  assumes s: "reads s xs" and t: "reads t ys" and h: "t \<noteq> []" "hd t \<noteq> bq"
  shows "reads (s @ t) (xs @ ys)"
  unfolding reads_def
proof (intro allI impI)
  fix u assume u: "take 1 u \<noteq> [bq]"
  have "take 1 (t @ u) \<noteq> [bq]" using h by (cases t) auto
  then show "sql_lex ((s @ t) @ u) = map_option (\<lambda>r. (xs @ ys) @ r) (sql_lex u)"
    using s t u by (simp add: reads_def option.map_comp comp_def)
qed

lemma reads_placeholder: "reads s items \<Longrightarrow> reads (CHR ''?'' # s) (Placeholder # items)"
  by (simp add: reads_def sql_lex.simps bq_def apostrophe_def option.map_comp comp_def)

section \<open>Quoted names\<close>

definition double_bq :: "string \<Rightarrow> string" where
  "double_bq s = concat (map (\<lambda>c. if c = bq then [bq, bq] else [c]) s)"

text \<open>\<^verbatim>\<open>quote\<close> of the adapter.\<close>

definition sql_quote :: "string \<Rightarrow> string" where
  "sql_quote identifier = bq # double_bq identifier @ [bq]"

lemma double_bq_simps [simp]:
  "double_bq [] = []" "double_bq (c # s) = (if c = bq then [bq, bq] else [c]) @ double_bq s"
  by (simp_all add: double_bq_def)

lemma split_name_end: "take 1 t \<noteq> [bq] \<Longrightarrow> split_name (bq # t) = Some ([], t)"
  by (cases t) simp_all

lemma split_name_quoted: "take 1 t \<noteq> [bq] \<Longrightarrow> split_name (double_bq s @ bq # t) = Some (s, t)"
proof (induction s)
  case Nil
  then show ?case by (simp add: split_name_end)
next
  case (Cons c s)
  show ?case
  proof (cases "c = bq")
    case True
    with Cons show ?thesis by simp
  next
    case False
    obtain d r where "double_bq s @ bq # t = d # r" by (cases "double_bq s @ bq # t") auto
    with Cons False show ?thesis by simp
  qed
qed

lemma reads_quote: "reads (sql_quote n) [Name n]"
  by (simp add: reads_def sql_quote_def sql_lex.simps split_name_quoted)

lemma sql_quote_nonempty [simp]: "sql_quote n \<noteq> []"
  by (simp add: sql_quote_def)

section \<open>Lists of parts\<close>

lemma reads_join:
  assumes "list_all2 reads parts items" "list_all calm sep" "sep \<noteq> []"
  shows "reads (join sep parts) (concat items)"
  using assms(1)
proof (induction parts items rule: list_all2_induct)
  case Nil
  show ?case by (simp add: reads_Nil)
next
  case (Cons p ps i its)
  show ?case
  proof (cases ps)
    case Nil
    with Cons show ?thesis by simp
  next
    case (Cons q qs)
    have "hd sep \<noteq> bq" using assms(2,3) by (cases sep) (auto simp: calm_def)
    then have "reads (p @ sep @ join sep ps) (i @ concat its)"
      using Cons.hyps Cons.IH assms(2,3) by (intro reads_append reads_calm_prefix) simp_all
    with Cons show ?thesis by simp
  qed
qed

lemma reads_then: "reads s xs \<Longrightarrow> list_all calm w \<Longrightarrow> w \<noteq> [] \<Longrightarrow> reads t ys \<Longrightarrow> reads (s @ w @ t) (xs @ ys)"
  by (rule reads_append) (auto intro: reads_calm_prefix simp: calm_def neq_Nil_conv)

lemma reads_end: "reads s xs \<Longrightarrow> list_all calm w \<Longrightarrow> w \<noteq> [] \<Longrightarrow> reads (s @ w) xs"
  using reads_then [OF _ _ _ reads_Nil] by simp

text \<open>The names and the number of markers of a list of items.\<close>

definition item_names :: "sql_item list \<Rightarrow> string list" where
  "item_names items = concat (map (\<lambda>i. case i of Name n \<Rightarrow> [n] | _ \<Rightarrow> []) items)"

definition markers :: "sql_item list \<Rightarrow> nat" where
  "markers items = length (filter (\<lambda>i. i = Placeholder) items)"

lemma item_names_simps [simp]:
  "item_names [] = []" "item_names (Name n # its) = n # item_names its" "item_names (Placeholder # its) = item_names its"
  "item_names (Literal s # its) = item_names its" "item_names (xs @ ys) = item_names xs @ item_names ys"
  by (simp_all add: item_names_def)

lemma markers_simps [simp]:
  "markers [] = 0" "markers (Name n # its) = markers its" "markers (Placeholder # its) = Suc (markers its)"
  "markers (Literal s # its) = markers its" "markers (xs @ ys) = markers xs + markers ys"
  "markers (replicate k Placeholder) = k"
  by (simp_all add: markers_def filter_replicate)

end
