(* ===== verification/Mysql_Select.thy ===== *)
theory Mysql_Select
  imports Query_Spec Sql_Lexer
begin

text \<open>
  The statement compilers for selects and explains of \<^verbatim>\<open>internal/adapters/mysql8/mysql8.go\<close> with the
  source-text casts of \<^verbatim>\<open>source_text.go\<close>. Arguments are kept apart from the text, as the driver receives
  them. The theorems follow the text through the lexer: a validated query compiles, the names MySQL
  reads are the query's own identifiers in order, there is no string literal, and the parameter markers
  correspond to the arguments one to one.
\<close>

section \<open>Errors and arguments\<close>

datatype ErrorKind =
    ErrorInvalid | ErrorNotFound | ErrorNotImplemented | ErrorUnavailable | ErrorTimeout | ErrorUpstream
  | ErrorRequestTooLarge | ErrorResultTooLarge

text \<open>A plain error text, a failed binding, or a classified \<open>database.Error\<close>.\<close>

datatype adapter_error = Problem string | BindProblem bind_error | DatabaseError ErrorKind

datatype sql_arg = ArgBound bound | ArgInt int

type_synonym compiled = "string \<times> sql_arg list"

section \<open>Source text\<close>

definition sourceTextExpression :: "string \<Rightarrow> bool \<Rightarrow> string" where
  "sourceTextExpression field binary =
     (let expression = ''CAST('' @ field @ '' AS CHAR CHARACTER SET utf8mb4)'' in
      if binary then ''CAST('' @ expression @ '' AS BINARY)'' else expression)"

definition representedField :: "string \<Rightarrow> Representation \<Rightarrow> bool \<Rightarrow> string" where
  "representedField field r binary = (if r = RepresentationSourceText then sourceTextExpression field binary else field)"

definition sql_operator :: "string \<Rightarrow> string option" where
  "sql_operator op = map_of
     [(''eq'', ''=''), (''ne'', ''<>''), (''lt'', ''<''), (''lte'', ''<=''), (''gt'', ''>''), (''gte'', ''>=''),
      (''like'', ''LIKE''), (''in'', ''IN''), (''not_in'', ''NOT IN''), (''is_null'', ''IS NULL''),
      (''is_not_null'', ''IS NOT NULL'')] op"

definition filter_values :: "TypedValue list option \<Rightarrow> TypedValue list" where
  "filter_values vals = (case vals of None \<Rightarrow> [] | Some vs \<Rightarrow> vs)"

definition bind_source_text :: "TypedValue \<Rightarrow> adapter_error + sql_arg" where
  "bind_source_text v =
     check (fail_if (tv_Type v \<noteq> ''string'') (Problem ''source_text requires string operands''))
       (bind_result (map_error BindProblem (BindValue v)) (\<lambda>b. Inr (ArgBound b)))"

definition compileSourceTextFilter ::
  "string \<Rightarrow> TypedValue list option \<Rightarrow> string \<Rightarrow> adapter_error + compiled" where
  "compileSourceTextFilter operator_name vals field =
     (case sql_operator operator_name of
        None \<Rightarrow> Inl (Problem ''unsupported source_text operator'')
      | Some op \<Rightarrow>
          let field = sourceTextExpression field True in
          if operator_name = ''is_null'' \<or> operator_name = ''is_not_null'' then Inr (field @ '' '' @ op, [])
          else
            bind_result (sequence_results (map bind_source_text (filter_values vals))) (\<lambda>args.
              let placeholders = map (\<lambda>_. ''CAST(? AS BINARY)'') args in
              if operator_name = ''in'' \<or> operator_name = ''not_in'' then
                Inr (field @ '' '' @ op @ '' ('' @ join '', '' placeholders @ '')'', args)
              else if length args \<noteq> 1 then Inl (Problem ''invalid source_text operand arity'')
              else Inr (field @ '' '' @ op @ '' '' @ hd placeholders, args)))"

section \<open>Filters\<close>

definition bind_filter_value :: "TypedValue \<Rightarrow> adapter_error + sql_arg" where
  "bind_filter_value v = bind_result (map_error BindProblem (BindValue v)) (\<lambda>b. Inr (ArgBound b))"

definition combine_parts :: "string \<Rightarrow> compiled list \<Rightarrow> compiled" where
  "combine_parts op parts = (''('' @ join ('' '' @ ToUpper op @ '' '') (map fst parts) @ '')'', concat (map snd parts))"

definition compile_predicate :: "string \<Rightarrow> string \<Rightarrow> TypedValue list option \<Rightarrow> adapter_error + compiled" where
  "compile_predicate field operator_name vals =
     (case sql_operator operator_name of
        None \<Rightarrow> Inl (Problem ''unsupported filter operator'')
      | Some op \<Rightarrow>
          if operator_name = ''is_null'' \<or> operator_name = ''is_not_null'' then Inr (field @ '' '' @ op, [])
          else
            bind_result (sequence_results (map bind_filter_value (filter_values vals))) (\<lambda>args.
              if operator_name = ''in'' \<or> operator_name = ''not_in'' then
                Inr (field @ '' '' @ op @ '' ('' @ join '', '' (map (\<lambda>_. ''?'') args) @ '')'', args)
              else Inr (field @ '' '' @ op @ '' ?'', args)))"

fun compileFilter :: "Filter \<Rightarrow> adapter_error + compiled" where
  "compileFilter (Filter rep kind field op vals exprs) =
     (if rep = RepresentationSourceText then compileSourceTextFilter op vals (sql_quote field)
      else if kind = ''group'' then
        bind_result (sequence_results (map compileFilter exprs)) (\<lambda>parts. Inr (combine_parts op parts))
      else compile_predicate (sql_quote field) op vals)"

section \<open>Statements\<close>

definition qualifySourceField :: "ResourceRef \<Rightarrow> string \<Rightarrow> string" where
  "qualifySourceField src field = sql_quote (ref_Schema src) @ ''.'' @ sql_quote (ref_Name src) @ ''.'' @ sql_quote field"

definition with_alias :: "Selection \<Rightarrow> string \<Rightarrow> string" where
  "with_alias s expression =
     (if sel_Alias s \<noteq> [] then expression @ '' AS '' @ sql_quote (sel_Alias s)
      else if sel_Representation s = RepresentationSourceText then expression @ '' AS '' @ sql_quote (sel_Field s)
      else expression)"

definition explain_expression :: "Selection \<Rightarrow> string" where
  "explain_expression s = with_alias s (
     if sel_Kind s = ''field'' then representedField (sql_quote (sel_Field s)) (sel_Representation s) False
     else ToUpper (sel_Function s) @ ''('' @ (if sel_Field s \<noteq> [] then sql_quote (sel_Field s) else ''*'') @ '')'')"

definition select_expression :: "ResourceRef \<Rightarrow> Selection \<Rightarrow> string" where
  "select_expression src s =
     with_alias s (representedField (qualifySourceField src (sel_Field s)) (sel_Representation s) False)"

definition order_term :: "ResourceRef \<Rightarrow> Sort \<Rightarrow> string" where
  "order_term src s =
     representedField (qualifySourceField src (sort_Field s)) (sort_Representation s) True @ '' '' @ ToUpper (sort_Direction s)"

definition execution_hint :: "int \<Rightarrow> string" where
  "execution_hint deadlineMS = ''/*+ MAX_EXECUTION_TIME('' @ itoa_int deadlineMS @ '') */''"

definition from_clause :: "ResourceRef \<Rightarrow> string" where
  "from_clause src = '' FROM '' @ sql_quote (ref_Schema src) @ ''.'' @ sql_quote (ref_Name src)"

definition where_clause :: "Filter option \<Rightarrow> adapter_error + compiled" where
  "where_clause fo =
     (case fo of
        None \<Rightarrow> Inr ([], [])
      | Some f \<Rightarrow> bind_result (compileFilter f) (\<lambda>(where, args). Inr ('' WHERE '' @ where, args)))"

definition order_clause :: "ResourceRef \<Rightarrow> Sort list \<Rightarrow> string" where
  "order_clause src orders =
     (if orders = [] then [] else '' ORDER BY '' @ join '', '' (map (order_term src) orders))"

definition group_clause :: "ResourceRef \<Rightarrow> string list \<Rightarrow> string" where
  "group_clause src groups =
     (if groups = [] then [] else '' GROUP BY '' @ join '', '' (map (qualifySourceField src) groups))"

text \<open>\<^verbatim>\<open>compile\<close>: the EXPLAIN statement.\<close>

definition compile_explain :: "NormalizedSpec \<Rightarrow> int \<Rightarrow> adapter_error + compiled" where
  "compile_explain spec deadlineMS =
     bind_result (where_clause (ns_Filter spec)) (\<lambda>(where, args).
       Inr (''EXPLAIN FORMAT=JSON SELECT '' @ execution_hint deadlineMS @ '' '' @
            join '', '' (map explain_expression (ns_Projection spec)) @ from_clause (ns_Source spec) @ where @
            group_clause (ns_Source spec) (ns_GroupBy spec) @ order_clause (ns_Source spec) (ns_OrderBy spec) @
            '' LIMIT ? OFFSET ?'',
            args @ [ArgInt (ns_Limit spec), ArgInt (ns_Offset spec)]))"

definition compileSelect :: "NormalizedSpec \<Rightarrow> int \<Rightarrow> int \<Rightarrow> adapter_error + compiled" where
  "compileSelect spec deadlineMS rowLimit =
     bind_result (where_clause (ns_Filter spec)) (\<lambda>(where, args).
       Inr (''SELECT '' @ execution_hint deadlineMS @ '' '' @
            join '', '' (map (select_expression (ns_Source spec)) (ns_Projection spec)) @ from_clause (ns_Source spec) @
            where @ order_clause (ns_Source spec) (ns_OrderBy spec) @ '' LIMIT ? OFFSET ?'',
            args @ [ArgInt rowLimit, ArgInt (ns_Offset spec)]))"

section \<open>What the statements read as\<close>

definition qualified_items :: "ResourceRef \<Rightarrow> string \<Rightarrow> sql_item list" where
  "qualified_items src field = [Name (ref_Schema src), Name (ref_Name src), Name field]"

definition alias_items :: "Selection \<Rightarrow> sql_item list" where
  "alias_items s =
     (if sel_Alias s \<noteq> [] then [Name (sel_Alias s)]
      else if sel_Representation s = RepresentationSourceText then [Name (sel_Field s)] else [])"

fun filter_items :: "(string \<Rightarrow> sql_item list) \<Rightarrow> Filter \<Rightarrow> sql_item list" where
  "filter_items column (Filter rep kind field op vals exprs) =
     (if kind = ''group'' then concat (map (filter_items column) exprs)
      else column field @ replicate (length (filter_values vals)) Placeholder)"

definition where_items :: "(string \<Rightarrow> sql_item list) \<Rightarrow> Filter option \<Rightarrow> sql_item list" where
  "where_items column fo = (case fo of None \<Rightarrow> [] | Some f \<Rightarrow> filter_items column f)"

definition select_items :: "NormalizedSpec \<Rightarrow> sql_item list" where
  "select_items spec =
     concat (map (\<lambda>s. qualified_items (ns_Source spec) (sel_Field s) @ alias_items s) (ns_Projection spec)) @
     [Name (ref_Schema (ns_Source spec)), Name (ref_Name (ns_Source spec))] @
     where_items (\<lambda>field. [Name field]) (ns_Filter spec) @
     concat (map (\<lambda>s. qualified_items (ns_Source spec) (sort_Field s)) (ns_OrderBy spec)) @ [Placeholder, Placeholder]"

definition explain_items :: "NormalizedSpec \<Rightarrow> sql_item list" where
  "explain_items spec =
     concat (map (\<lambda>s. (if sel_Field s = [] then [] else [Name (sel_Field s)]) @ alias_items s) (ns_Projection spec)) @
     [Name (ref_Schema (ns_Source spec)), Name (ref_Name (ns_Source spec))] @
     where_items (\<lambda>field. [Name field]) (ns_Filter spec) @
     concat (map (qualified_items (ns_Source spec)) (ns_GroupBy spec)) @
     concat (map (\<lambda>s. qualified_items (ns_Source spec) (sort_Field s)) (ns_OrderBy spec)) @ [Placeholder, Placeholder]"

section \<open>Reading the pieces\<close>

lemma starts_calm: "list_all calm w \<Longrightarrow> w \<noteq> [] \<Longrightarrow> w @ t \<noteq> [] \<and> hd (w @ t) \<noteq> bq"
  by (cases w) (auto simp: calm_def)

lemma reads_wrap:
  "reads s xs \<Longrightarrow> list_all calm v \<Longrightarrow> list_all calm w \<Longrightarrow> w \<noteq> [] \<Longrightarrow> reads (v @ s @ w) xs"
  by (intro reads_calm_prefix reads_end)

lemma reads_sourceText: "reads field xs \<Longrightarrow> reads (sourceTextExpression field binary) xs"
proof -
  assume f: "reads field xs"
  have e: "reads (''CAST('' @ field @ '' AS CHAR CHARACTER SET utf8mb4)'') xs"
    by (rule reads_wrap [OF f]) (simp_all add: calm_defs)
  have "reads (''CAST('' @ (''CAST('' @ field @ '' AS CHAR CHARACTER SET utf8mb4)'') @ '' AS BINARY)'') xs"
    by (rule reads_wrap [OF e]) (simp_all add: calm_defs)
  with e show ?thesis by (simp add: sourceTextExpression_def Let_def)
qed

lemma reads_represented: "reads field xs \<Longrightarrow> reads (representedField field r binary) xs"
  by (simp add: representedField_def reads_sourceText)

lemma reads_qualified: "reads (qualifySourceField src field) (qualified_items src field)"
proof -
  have dot: "list_all calm ''.''" by (simp add: calm_defs)
  have "reads (sql_quote a @ ''.'' @ sql_quote b @ ''.'' @ sql_quote c) ([Name a] @ [Name b] @ [Name c])" for a b c
    using dot by (intro reads_then reads_quote) simp_all
  then show ?thesis by (simp add: qualifySourceField_def qualified_items_def)
qed

lemma reads_alias: "reads e xs \<Longrightarrow> reads (with_alias s e) (xs @ alias_items s)"
proof -
  assume e: "reads e xs"
  have "list_all calm '' AS ''" by (simp add: calm_defs)
  then have "reads (e @ '' AS '' @ sql_quote n) (xs @ [Name n])" for n
    using e by (intro reads_then reads_quote) simp_all
  with e show ?thesis by (simp add: with_alias_def alias_items_def)
qed

lemma sql_operator_calm: "sql_operator op = Some w \<Longrightarrow> list_all calm w \<and> w \<noteq> []"
  by (auto simp: sql_operator_def calm_defs split: if_splits)

lemma sql_operator_arity: "valid_arity op n \<Longrightarrow> sql_operator op \<noteq> None"
  by (auto simp: valid_arity_def expectedValues_def sql_operator_def split: if_splits)

lemma arity_one:
  "valid_arity op n \<Longrightarrow> op \<notin> {''is_null'', ''is_not_null'', ''in'', ''not_in''} \<Longrightarrow> n = 1"
  by (auto simp: valid_arity_def expectedValues_def split: if_splits)

lemma arity_zero: "valid_arity op n \<Longrightarrow> op = ''is_null'' \<or> op = ''is_not_null'' \<Longrightarrow> n = 0"
  by (auto simp: valid_arity_def expectedValues_def)

lemma comma_calm: "list_all calm '', ''"
  by (simp add: calm_defs)

lemma reads_operands:
  assumes "list_all (\<lambda>p. reads p [Placeholder]) ps"
  shows "reads (join '', '' ps) (replicate (length ps) Placeholder)"
proof -
  have "reads (join '', '' ps) (concat (replicate (length ps) [Placeholder]))"
    using assms by (intro reads_join comma_calm) (simp_all add: list_all2_conv_all_nth list_all_length)
  moreover have "concat (replicate n [Placeholder]) = replicate n Placeholder" for n by (induction n) simp_all
  ultimately show ?thesis by simp
qed

lemma reads_question: "reads ''?'' [Placeholder]"
  using reads_placeholder [OF reads_Nil] by simp

lemma reads_cast_binary: "reads ''CAST(? AS BINARY)'' [Placeholder]"
proof -
  have "reads (''CAST('' @ ''?'' @ '' AS BINARY)'') [Placeholder]"
    by (rule reads_wrap [OF reads_question]) (simp_all add: calm_defs)
  then show ?thesis by simp
qed

lemma reads_test:
  "reads field xs \<Longrightarrow> sql_operator op = Some w \<Longrightarrow> reads (field @ '' '' @ w) xs"
  using sql_operator_calm [of op w] reads_end [of field xs "'' '' @ w"] by (auto simp: calm_defs)

lemma reads_comparison:
  assumes f: "reads field xs" and w: "sql_operator op = Some w" and p: "reads p ys"
  shows "reads (field @ '' '' @ w @ '' '' @ p) (xs @ ys)"
  using reads_then [OF f _ _ p, of "'' '' @ w @ '' ''"] sql_operator_calm [OF w] by (simp add: calm_defs)

lemma reads_membership:
  assumes f: "reads field xs" and w: "sql_operator op = Some w" and p: "list_all (\<lambda>p. reads p [Placeholder]) ps"
  shows "reads (field @ '' '' @ w @ '' ('' @ join '', '' ps @ '')'') (xs @ replicate (length ps) Placeholder)"
proof -
  have "reads (join '', '' ps @ '')'') (replicate (length ps) Placeholder)"
    by (rule reads_end [OF reads_operands [OF p]]) (simp_all add: calm_defs)
  from reads_then [OF f _ _ this, of "'' '' @ w @ '' (''"] sql_operator_calm [OF w] show ?thesis by (simp add: calm_defs)
qed

section \<open>Reading filters\<close>

text \<open>The operands of a filter in the order of the text, and arguments that bind them.\<close>

fun filter_operands :: "Filter \<Rightarrow> TypedValue list" where
  "filter_operands (Filter rep kind field op vals exprs) =
     (if kind = ''group'' then concat (map filter_operands exprs) else filter_values vals)"

definition binds :: "TypedValue \<Rightarrow> sql_arg \<Rightarrow> bool" where
  "binds v a \<longleftrightarrow> (\<exists>b. BindValue v = Inr b \<and> a = ArgBound b)"

lemma bind_filter_values: "\<forall>v \<in> set vs. \<exists>b. BindValue v = Inr b \<Longrightarrow>
    \<exists>args. sequence_results (map bind_filter_value vs) = Inr args \<and> list_all2 binds vs args"
  by (rule sequence_results_each) (auto simp: bind_filter_value_def binds_def)

lemma bind_source_texts: "\<forall>v \<in> set vs. tv_Type v = ''string'' \<and> (\<exists>b. BindValue v = Inr b) \<Longrightarrow>
    \<exists>args. sequence_results (map bind_source_text vs) = Inr args \<and> list_all2 binds vs args"
  by (rule sequence_results_each) (auto simp: bind_source_text_def binds_def)

lemma compileSourceTextFilter_reads:
  assumes f: "reads field xs" and ar: "valid_arity op (length vs)"
    and v: "\<forall>v \<in> set vs. tv_Type v = ''string'' \<and> (\<exists>b. BindValue v = Inr b)"
  shows "\<exists>t args. compileSourceTextFilter op (Some vs) field = Inr (t, args) \<and>
    reads t (xs @ replicate (length vs) Placeholder) \<and> list_all2 binds vs args"
proof -
  obtain w where w: "sql_operator op = Some w" using sql_operator_arity [OF ar] by blast
  obtain args where args: "sequence_results (map bind_source_text vs) = Inr args" "list_all2 binds vs args"
    using bind_source_texts [OF v] by blast
  note f' = reads_sourceText [OF f, of True]
  have len: "length args = length vs" using args(2) by (simp add: list_all2_lengthD)
  have marks: "list_all (\<lambda>p. reads p [Placeholder]) (map (\<lambda>_. ''CAST(? AS BINARY)'') args)"
    by (simp add: list_all_iff reads_cast_binary)
  consider "op = ''is_null'' \<or> op = ''is_not_null''" | "op = ''in'' \<or> op = ''not_in''"
    | "op \<notin> {''is_null'', ''is_not_null'', ''in'', ''not_in''}" by blast
  then show ?thesis
  proof cases
    case 1
    with arity_zero [OF ar] reads_test [OF f' w] w show ?thesis by (auto simp: compileSourceTextFilter_def Let_def)
  next
    case 2
    with reads_membership [OF f' w marks] w args len show ?thesis
      by (auto simp: compileSourceTextFilter_def filter_values_def Let_def)
  next
    case 3
    then have "length vs = 1" using arity_one [OF ar] by simp
    moreover obtain a where "args = [a]" using len \<open>length vs = 1\<close> by (auto simp: length_Suc_conv)
    ultimately show ?thesis using 3 reads_comparison [OF f' w reads_cast_binary] w args
      by (auto simp: compileSourceTextFilter_def filter_values_def Let_def)
  qed
qed

lemma compile_predicate_reads:
  assumes f: "reads field xs" and ar: "valid_arity op (length vs)" and v: "\<forall>v \<in> set vs. \<exists>b. BindValue v = Inr b"
  shows "\<exists>t args. compile_predicate field op (Some vs) = Inr (t, args) \<and>
    reads t (xs @ replicate (length vs) Placeholder) \<and> list_all2 binds vs args"
proof -
  obtain w where w: "sql_operator op = Some w" using sql_operator_arity [OF ar] by blast
  obtain args where args: "sequence_results (map bind_filter_value vs) = Inr args" "list_all2 binds vs args"
    using bind_filter_values [OF v] by blast
  have len: "length args = length vs" using args(2) by (simp add: list_all2_lengthD)
  have marks: "list_all (\<lambda>p. reads p [Placeholder]) (map (\<lambda>_. ''?'') args)"
    by (simp add: list_all_iff reads_question)
  consider "op = ''is_null'' \<or> op = ''is_not_null''" | "op = ''in'' \<or> op = ''not_in''"
    | "op \<notin> {''is_null'', ''is_not_null'', ''in'', ''not_in''}" by blast
  then show ?thesis
  proof cases
    case 1
    with arity_zero [OF ar] reads_test [OF f w] w show ?thesis by (auto simp: compile_predicate_def)
  next
    case 2
    with reads_membership [OF f w marks] w args len show ?thesis
      by (auto simp: compile_predicate_def filter_values_def)
  next
    case 3
    then have "length vs = 1" using arity_one [OF ar] by simp
    with 3 reads_comparison [OF f w reads_question] w args len show ?thesis
      by (auto simp: compile_predicate_def filter_values_def)
  qed
qed

lemma reads_group:
  assumes "list_all2 reads parts items" "op = ''and'' \<or> op = ''or''"
  shows "reads (''('' @ join ('' '' @ ToUpper op @ '' '') parts @ '')'') (concat items)"
proof -
  have u: "ToUpper ''and'' = ''AND''" "ToUpper ''or'' = ''OR''" by code_simp+
  have "reads (join ('' '' @ ToUpper op @ '' '') parts) (concat items)"
    using assms(2) by (intro reads_join [OF assms(1)]) (auto simp: u calm_defs)
  then show ?thesis by (rule reads_wrap) (simp_all add: calm_defs)
qed

definition name_item :: "string \<Rightarrow> sql_item list" where
  "name_item field = [Name field]"

lemma compileFilter_reads:
  "wf_filter f \<Longrightarrow> \<exists>t args. compileFilter f = Inr (t, args) \<and> reads t (filter_items name_item f) \<and>
     list_all2 binds (filter_operands f) args"
proof (induction f rule: wf_filter.induct)
  case (1 rep kind field op vals exprs)
  show ?case
  proof (cases "kind = ''predicate''")
    case True
    with "1.prems" obtain vs where vs: "vals = Some vs" "valid_arity op (length vs)" "\<forall>v \<in> set vs. valid_value rep v"
      by (cases vals) auto
    note f = reads_quote [of field]
    show ?thesis
    proof (cases "rep = RepresentationSourceText")
      case rep: True
      have "\<forall>v \<in> set vs. tv_Type v = ''string'' \<and> (\<exists>b. BindValue v = Inr b)" using vs(3) rep by (auto simp: valid_value_def)
      from compileSourceTextFilter_reads [OF f vs(2) this] show ?thesis
        using True rep vs(1) by (simp add: filter_values_def name_item_def)
    next
      case rep: False
      have "\<forall>v \<in> set vs. \<exists>b. BindValue v = Inr b" using vs(3) by (auto simp: valid_value_def)
      from compile_predicate_reads [OF f vs(2) this] show ?thesis
        using True rep vs(1) by (simp add: filter_values_def name_item_def)
    qed
  next
    case False
    with "1.prems" have g: "kind = ''group''" "rep = []" "op = ''and'' \<or> op = ''or''" "\<forall>e \<in> set exprs. wf_filter e"
      by auto
    have "\<forall>e \<in> set exprs. \<exists>c. compileFilter e = Inr c \<and> (reads (fst c) (filter_items name_item e) \<and>
        list_all2 binds (filter_operands e) (snd c))"
      using "1.IH" False g(4) by fastforce
    from sequence_results_each [OF this] obtain parts where parts: "sequence_results (map compileFilter exprs) = Inr parts"
      and each: "list_all2 (\<lambda>e c. reads (fst c) (filter_items name_item e) \<and> list_all2 binds (filter_operands e) (snd c)) exprs parts"
      by blast
    have r: "list_all2 reads (map fst parts) (map (filter_items name_item) exprs)"
      using each by (auto simp: list_all2_conv_all_nth)
    have b: "list_all2 binds (concat (map filter_operands exprs)) (concat (map snd parts))"
      using each by (intro list_all2_concat_map) (auto elim: list_all2_mono)
    from reads_group [OF r g(3)] parts b g show ?thesis
      by (simp add: combine_parts_def RepresentationSourceText_def)
  qed
qed

section \<open>Reading statements\<close>

lemma skip_comment_to_end: "CHR ''*'' \<notin> set w \<Longrightarrow> skip_comment (w @ ''*/'' @ t) = Some t"
proof (induction w)
  case (Cons c w)
  obtain d r where "w @ ''*/'' @ t = d # r" by (cases "w @ ''*/'' @ t") auto
  with Cons show ?case by auto
qed simp

lemma itoa_int_no_star: "CHR ''*'' \<notin> set (itoa_int i)"
proof -
  have "list_all is_digit (itoa n)" for n by simp
  moreover have "\<not> is_digit (CHR ''*'')" by (simp add: is_digit_def)
  ultimately have "CHR ''*'' \<notin> set (itoa n)" for n unfolding list_all_iff by blast
  then show ?thesis by (auto simp: itoa_int_def)
qed

lemma reads_hint: "reads s items \<Longrightarrow> reads (execution_hint d @ s) items"
proof -
  assume s: "reads s items"
  have "skip_comment ((''+ MAX_EXECUTION_TIME('' @ itoa_int d @ '') '') @ ''*/'' @ u) = Some u" for u
    by (rule skip_comment_to_end) (simp add: itoa_int_no_star)
  then have "sql_lex (execution_hint d @ u) = sql_lex u" for u
    by (simp add: execution_hint_def sql_lex.simps bq_def apostrophe_def forbidden_def)
  with s show ?thesis by (simp add: reads_def)
qed

lemma reads_parts:
  assumes "\<And>x. x \<in> set xs \<Longrightarrow> reads (f x) (g x)"
  shows "reads (join '', '' (map f xs)) (concat (map g xs))"
  using assms by (intro reads_join comma_calm) (auto simp: list_all2_conv_all_nth)

lemma reads_from: "reads (from_clause src) [Name (ref_Schema src), Name (ref_Name src)]"
proof -
  have "reads ('' FROM '' @ sql_quote (ref_Schema src) @ ''.'' @ sql_quote (ref_Name src)) ([Name (ref_Schema src)] @ [Name (ref_Name src)])"
    by (intro reads_calm_prefix reads_then reads_quote) (simp_all add: calm_defs)
  then show ?thesis by (simp add: from_clause_def)
qed

lemma reads_order_term: "sort_Direction s \<in> {''asc'', ''desc''} \<Longrightarrow> reads (order_term src s) (qualified_items src (sort_Field s))"
proof -
  assume d: "sort_Direction s \<in> {''asc'', ''desc''}"
  have "ToUpper ''asc'' = ''ASC''" "ToUpper ''desc'' = ''DESC''" by code_simp+
  with d have "list_all calm ('' '' @ ToUpper (sort_Direction s))" by (auto simp: calm_defs)
  from reads_end [OF reads_represented [OF reads_qualified] this] show ?thesis by (simp add: order_term_def)
qed

text \<open>Optional clauses are empty or start with a blank; the text after them starts with one too.\<close>

definition clause :: "string \<Rightarrow> sql_item list \<Rightarrow> bool" where
  "clause t items \<longleftrightarrow> t = [] \<and> items = [] \<or> (\<exists>w. t = CHR '' '' # w) \<and> reads t items"

lemma clauseI: "reads (CHR '' '' # w) items \<Longrightarrow> clause (CHR '' '' # w) items"
  by (simp add: clause_def)

lemma reads_clause: "clause t xs \<Longrightarrow> reads (CHR '' '' # w) ys \<Longrightarrow> reads (t @ CHR '' '' # w) (xs @ ys)"
  using reads_append [of t xs "CHR '' '' # w" ys] by (auto simp: clause_def bq_def)

lemma clause_order:
  assumes "\<forall>s \<in> set orders. sort_Direction s \<in> {''asc'', ''desc''}"
  shows "clause (order_clause src orders) (concat (map (\<lambda>s. qualified_items src (sort_Field s)) orders))"
proof (cases "orders = []")
  case False
  have "reads ('' ORDER BY '' @ join '', '' (map (order_term src) orders)) (concat (map (\<lambda>s. qualified_items src (sort_Field s)) orders))"
    using assms by (intro reads_calm_prefix reads_parts reads_order_term) (simp_all add: calm_defs)
  with False show ?thesis by (simp add: clause_def order_clause_def)
qed (simp add: clause_def order_clause_def)

lemma clause_group: "clause (group_clause src groups) (concat (map (qualified_items src) groups))"
proof (cases "groups = []")
  case False
  have "reads ('' GROUP BY '' @ join '', '' (map (qualifySourceField src) groups)) (concat (map (qualified_items src) groups))"
    by (intro reads_calm_prefix reads_parts reads_qualified) (simp_all add: calm_defs)
  with False show ?thesis by (simp add: clause_def group_clause_def)
qed (simp add: clause_def group_clause_def)

lemma clause_where:
  assumes "\<forall>f \<in> set_option fo. wf_filter f"
  shows "\<exists>t args. where_clause fo = Inr (t, args) \<and> clause t (where_items name_item fo) \<and>
    list_all2 binds (case fo of None \<Rightarrow> [] | Some f \<Rightarrow> filter_operands f) args"
proof (cases fo)
  case None
  then show ?thesis by (simp add: where_clause_def clause_def where_items_def)
next
  case (Some f)
  with assms compileFilter_reads [of f] obtain t args where c: "compileFilter f = Inr (t, args)"
    "reads t (filter_items name_item f)" "list_all2 binds (filter_operands f) args" by auto
  have "reads ('' WHERE '' @ t) (filter_items name_item f)"
    using c(2) by (rule reads_calm_prefix [rotated]) (simp add: calm_defs)
  with c Some show ?thesis by (simp add: where_clause_def clause_def where_items_def)
qed

lemma reads_tail: "reads '' LIMIT ? OFFSET ?'' [Placeholder, Placeholder]"
proof -
  have "reads ('' LIMIT '' @ ''?'' @ '' OFFSET '' @ ''?'') ([Placeholder] @ [Placeholder])"
    by (intro reads_calm_prefix reads_then reads_question) (simp_all add: calm_defs)
  then show ?thesis by simp
qed

lemma reads_statement:
  assumes p: "reads p xs" and w: "clause wh ys" and g: "clause gr zs" and o: "clause ord os"
  shows "reads (p @ from_clause src @ wh @ gr @ ord @ '' LIMIT ? OFFSET ?'')
    (xs @ [Name (ref_Schema src), Name (ref_Name src)] @ ys @ zs @ os @ [Placeholder, Placeholder])"
proof -
  have "\<exists>r. ord @ '' LIMIT ? OFFSET ?'' = CHR '' '' # r" using o by (auto simp: clause_def)
  moreover from this have "\<exists>r. gr @ ord @ '' LIMIT ? OFFSET ?'' = CHR '' '' # r" using g by (auto simp: clause_def)
  moreover from this have "\<exists>r. wh @ gr @ ord @ '' LIMIT ? OFFSET ?'' = CHR '' '' # r" using w by (auto simp: clause_def)
  ultimately obtain r1 r2 r3 where r: "ord @ '' LIMIT ? OFFSET ?'' = CHR '' '' # r1"
    "gr @ ord @ '' LIMIT ? OFFSET ?'' = CHR '' '' # r2" "wh @ gr @ ord @ '' LIMIT ? OFFSET ?'' = CHR '' '' # r3" by blast
  have "reads (ord @ '' LIMIT ? OFFSET ?'') (os @ [Placeholder, Placeholder])"
    using reads_clause [OF o] reads_tail by simp
  then have "reads (gr @ ord @ '' LIMIT ? OFFSET ?'') (zs @ os @ [Placeholder, Placeholder])"
    using reads_clause [OF g] r(1) by simp
  then have "reads (wh @ gr @ ord @ '' LIMIT ? OFFSET ?'') (ys @ zs @ os @ [Placeholder, Placeholder])"
    using reads_clause [OF w] r(2) by simp
  then have "reads (from_clause src @ wh @ gr @ ord @ '' LIMIT ? OFFSET ?'')
      ([Name (ref_Schema src), Name (ref_Name src)] @ ys @ zs @ os @ [Placeholder, Placeholder])"
    using reads_append [OF reads_from] r(3) by (simp add: bq_def)
  then show ?thesis by (intro reads_append [OF p]) (simp_all add: from_clause_def bq_def)
qed

lemma reads_selection: "reads (select_expression src s) (qualified_items src (sel_Field s) @ alias_items s)"
  unfolding select_expression_def by (intro reads_alias reads_represented reads_qualified)

lemma reads_explain_selection:
  assumes "valid_selection s"
  shows "reads (explain_expression s) ((if sel_Field s = [] then [] else [Name (sel_Field s)]) @ alias_items s)"
proof -
  have u: "ToUpper ''count'' = ''COUNT''" "ToUpper ''min'' = ''MIN''" "ToUpper ''max'' = ''MAX''" "ToUpper ''sum'' = ''SUM''"
    "ToUpper ''avg'' = ''AVG''" by code_simp+
  have id: "IsIdentifier x \<Longrightarrow> x \<noteq> []" for x by (auto simp: IsIdentifier_iff identifierPattern_def)
  show ?thesis
  proof (cases "sel_Kind s = ''field''")
    case True
    with assms id have "sel_Field s \<noteq> []" by (auto simp: valid_selection_def)
    then show ?thesis using True reads_alias [OF reads_represented [OF reads_quote], of s "sel_Field s" _ False]
      by (simp add: explain_expression_def)
  next
    case False
    with assms have f: "sel_Function s \<in> {''count'', ''min'', ''max'', ''sum'', ''avg''}" by (auto simp: valid_selection_def)
    have "list_all calm (ToUpper (sel_Function s) @ ''('')" using f by (auto simp: u calm_defs)
    moreover have "reads (if sel_Field s \<noteq> [] then sql_quote (sel_Field s) else ''*'')
        (if sel_Field s = [] then [] else [Name (sel_Field s)])"
      by (auto simp: reads_quote calm_defs intro: reads_calm)
    ultimately have "reads ((ToUpper (sel_Function s) @ ''('') @ (if sel_Field s \<noteq> [] then sql_quote (sel_Field s) else ''*'') @ '')'')
        (if sel_Field s = [] then [] else [Name (sel_Field s)])"
      by (intro reads_wrap) (simp_all add: calm_defs)
    from reads_alias [OF this] False show ?thesis by (simp add: explain_expression_def)
  qed
qed

text \<open>The fixed head of a statement before its projection.\<close>

lemma reads_head:
  assumes "reads p xs" "list_all calm h"
  shows "reads (h @ execution_hint d @ '' '' @ p) xs"
  using assms by (intro reads_calm_prefix reads_hint) (simp_all add: calm_defs)

definition spec_operands :: "NormalizedSpec \<Rightarrow> TypedValue list" where
  "spec_operands spec = (case ns_Filter spec of None \<Rightarrow> [] | Some f \<Rightarrow> filter_operands f)"

lemma name_item_eta: "(\<lambda>field. [Name field]) = name_item"
  by (simp add: name_item_def fun_eq_iff)

definition compilable :: "NormalizedSpec \<Rightarrow> bool" where
  "compilable spec \<longleftrightarrow> (\<forall>f \<in> set_option (ns_Filter spec). wf_filter f) \<and> (\<forall>s \<in> set (ns_OrderBy spec). valid_sort s) \<and>
     (\<forall>s \<in> set (ns_Projection spec). valid_selection s)"

lemma compileSelect_reads:
  assumes "compilable spec"
  shows "\<exists>t args. compileSelect spec deadlineMS rowLimit = Inr (t, args @ [ArgInt rowLimit, ArgInt (ns_Offset spec)]) \<and>
    reads t (select_items spec) \<and> list_all2 binds (spec_operands spec) args"
proof -
  let ?src = "ns_Source spec"
  obtain wh args where w: "where_clause (ns_Filter spec) = Inr (wh, args)" "clause wh (where_items name_item (ns_Filter spec))"
    "list_all2 binds (spec_operands spec) args"
    using clause_where [of "ns_Filter spec"] assms unfolding spec_operands_def compilable_def by blast
  have o: "clause (order_clause ?src (ns_OrderBy spec)) (concat (map (\<lambda>s. qualified_items ?src (sort_Field s)) (ns_OrderBy spec)))"
    using assms by (intro clause_order) (auto simp: compilable_def valid_sort_def)
  have p: "reads (''SELECT '' @ execution_hint deadlineMS @ '' '' @ join '', '' (map (select_expression ?src) (ns_Projection spec)))
      (concat (map (\<lambda>s. qualified_items ?src (sel_Field s) @ alias_items s) (ns_Projection spec)))"
    by (intro reads_head reads_parts reads_selection) (simp add: calm_defs)
  have "clause [] []" by (simp add: clause_def)
  from reads_statement [OF p w(2) this o, of ?src] w(1,3) show ?thesis
    by (simp add: compileSelect_def select_items_def name_item_eta)
qed

lemma compile_explain_reads:
  assumes "compilable spec"
  shows "\<exists>t args. compile_explain spec deadlineMS = Inr (t, args @ [ArgInt (ns_Limit spec), ArgInt (ns_Offset spec)]) \<and>
    reads t (explain_items spec) \<and> list_all2 binds (spec_operands spec) args"
proof -
  let ?src = "ns_Source spec"
  obtain wh args where w: "where_clause (ns_Filter spec) = Inr (wh, args)" "clause wh (where_items name_item (ns_Filter spec))"
    "list_all2 binds (spec_operands spec) args"
    using clause_where [of "ns_Filter spec"] assms unfolding spec_operands_def compilable_def by blast
  have o: "clause (order_clause ?src (ns_OrderBy spec)) (concat (map (\<lambda>s. qualified_items ?src (sort_Field s)) (ns_OrderBy spec)))"
    using assms by (intro clause_order) (auto simp: compilable_def valid_sort_def)
  have p: "reads (''EXPLAIN FORMAT=JSON SELECT '' @ execution_hint deadlineMS @ '' '' @ join '', '' (map explain_expression (ns_Projection spec)))
      (concat (map (\<lambda>s. (if sel_Field s = [] then [] else [Name (sel_Field s)]) @ alias_items s) (ns_Projection spec)))"
    using assms by (intro reads_head reads_parts reads_explain_selection) (simp_all add: calm_defs compilable_def)
  from reads_statement [OF p w(2) clause_group [of ?src "ns_GroupBy spec"] o, of ?src] w(1,3) show ?thesis
    by (simp add: compile_explain_def explain_items_def name_item_eta)
qed

section \<open>Counting markers\<close>

lemma markers_concat: "markers (concat xss) = sum_list (map markers xss)"
  by (induction xss) simp_all

lemma markers_no_placeholder: "Placeholder \<notin> set xs \<Longrightarrow> markers xs = 0"
  by (auto simp: markers_def filter_empty_conv)

lemma filter_items_markers: "wf_filter f \<Longrightarrow> markers (filter_items name_item f) = filter_parameters f"
proof (induction f rule: wf_filter.induct)
  case (1 rep kind field op vals exprs)
  show ?case
  proof (cases "kind = ''predicate''")
    case True
    with "1.prems" show ?thesis by (cases vals) (simp_all add: name_item_def filter_values_def)
  next
    case False
    with "1.prems" have "kind = ''group''" "\<forall>e \<in> set exprs. wf_filter e" by auto
    with "1.IH" False show ?thesis by (simp add: markers_concat comp_def cong: map_cong)
  qed
qed

lemma select_items_markers:
  assumes "compilable spec"
  shows "int (markers (select_items spec)) = Parameters (filter_stats (ns_Filter spec) 2)"
proof -
  have q: "markers (concat (map (\<lambda>s. qualified_items src (g s) @ h s) xs)) = sum_list (map (markers \<circ> h) xs)"
    for src h and xs :: "'b list" and g :: "'b \<Rightarrow> string"
    by (simp add: markers_concat qualified_items_def comp_def)
  have a: "markers (alias_items s) = 0" for s by (simp add: alias_items_def)
  have o: "markers (concat (map (\<lambda>s. qualified_items src (sort_Field s)) xs)) = 0" for src xs
    using q [of src sort_Field "\<lambda>_. []" xs] by (simp add: comp_def)
  show ?thesis
    using assms
    by (cases "ns_Filter spec") (simp_all add: select_items_def q a o comp_def name_item_eta where_items_def filter_stats_def
        initial_stats_def filter_items_markers compilable_def)
qed

lemma validated_compilable: "validate_under l spec = Inr v \<Longrightarrow> compilable (v_spec v)"
  by (auto simp: validate_under_def Validate_iff compilable_def normalized_def wf_spec_def)

section \<open>Properties\<close>

text \<open>
  C20: every validated select compiles. MySQL reads the statement as the fixed text of the adapter around
  exactly the client's schema, object, columns and aliases as quoted names, without any string literal;
  the arguments are the bound values of the filter in the order of their markers, then the row limit and
  the offset, and the number of markers is the parameter count the validator charged.
\<close>

theorem select_statements_are_faithful:
  assumes "validate_under l spec = Inr v"
  shows "\<exists>t args. compileSelect (v_spec v) deadlineMS rowLimit = Inr (t, args @ [ArgInt rowLimit, ArgInt (ns_Offset (v_spec v))]) \<and>
    sql_lex t = Some (select_items (v_spec v)) \<and> list_all2 binds (spec_operands (v_spec v)) args \<and>
    int (markers (select_items (v_spec v))) = Parameters (v_stats v)"
proof -
  note c = validated_compilable [OF assms]
  have "Parameters (v_stats v) = Parameters (filter_stats (ns_Filter (v_spec v)) 2)"
    using assms by (simp add: validate_under_def Validate_iff normalized_def)
  with compileSelect_reads [OF c, of deadlineMS rowLimit] select_items_markers [OF c] show ?thesis
    by (auto dest: reads_lex)
qed

theorem select_statements_are_faithful_witness:
  "\<exists>t args. compileSelect (v_spec (normalized sample_spec 100)) 5000 101 = Inr (t, args) \<and>
     sql_lex t = Some ([Name ''app'', Name ''orders'', Name ''id'', Name ''app'', Name ''orders'', Name ''id'', Placeholder,
       Placeholder, Name ''state'', Name ''app'', Name ''orders'', Name ''id'', Placeholder, Placeholder])"
  using select_statements_are_faithful [OF sample_spec_valid, of 100 5000 101]
  by (auto simp: normalized_def sample_spec_def sample_filter_def select_items_def qualified_items_def alias_items_def
      where_items_def filter_values_def RepresentationSourceText_def numeral_2_eq_2)

text \<open>
  Every validated query compiles to an EXPLAIN statement that MySQL reads as the query's own names
  around the adapter's fixed text, aggregates and groups included, with the filter's bound values, the
  clipped limit and the offset as arguments.
\<close>

theorem explain_statements_are_faithful:
  assumes "validate_under l spec = Inr v"
  shows "\<exists>t args. compile_explain (v_spec v) deadlineMS = Inr (t, args @ [ArgInt (ns_Limit (v_spec v)), ArgInt (ns_Offset (v_spec v))]) \<and>
    sql_lex t = Some (explain_items (v_spec v)) \<and> list_all2 binds (spec_operands (v_spec v)) args"
  using compile_explain_reads [OF validated_compilable [OF assms], of deadlineMS] by (auto dest: reads_lex)

theorem explain_statements_are_faithful_witness:
  "\<exists>t args. compile_explain (v_spec (normalized sample_spec 100)) 5000 = Inr (t, args) \<and>
     sql_lex t = Some ([Name ''id'', Name ''app'', Name ''orders'', Name ''id'', Placeholder,
       Placeholder, Name ''state'', Name ''app'', Name ''orders'', Name ''id'', Placeholder, Placeholder])"
  using explain_statements_are_faithful [OF sample_spec_valid, of 100 5000]
  by (auto simp: normalized_def sample_spec_def sample_filter_def explain_items_def qualified_items_def alias_items_def
      where_items_def filter_values_def RepresentationSourceText_def numeral_2_eq_2)

end
