(* ===== verification/Mysql_Rows.thy ===== *)
theory Mysql_Rows
  imports Mysql_Select Json_Tree
begin

text \<open>
  The result half of \<^verbatim>\<open>internal/adapters/mysql8/mysql8.go\<close>: server identification, classification of driver
  errors, portable column types, the byte counters that predict the size of encoded JSON before it is
  built, and the loops that collect rows of selects, listings and descriptions under a byte budget. The
  contract of a byte counter is a locale, interpreted for each of the counters.

  The rows a driver delivers are a list; each element is a row of raw values (\<open>None\<close> is SQL NULL) or a
  failed scan, and the error a row set ends with is a separate argument.
\<close>

section \<open>Driver errors\<close>

datatype driver_error =
    DeadlineExceeded | Canceled | ErrReadPktTooLarge | MySQLError nat | NetError | ErrBadConn | ErrInvalidConn
  | EOF | ErrUnexpectedEOF | OtherError

text \<open>The first argument is \<open>ctx.Err()\<close>.\<close>

definition classifyExecutionError :: "driver_error option \<Rightarrow> driver_error \<Rightarrow> ErrorKind" where
  "classifyExecutionError ctxErr err =
     (if ctxErr \<in> {Some DeadlineExceeded, Some Canceled} \<or> err \<in> {DeadlineExceeded, Canceled} then ErrorTimeout
      else if err = ErrReadPktTooLarge then ErrorResultTooLarge
      else case err of
             MySQLError n \<Rightarrow>
               if n = 3024 then ErrorTimeout
               else if n \<in> {1040, 1044, 1045, 1053, 1158, 1159, 1160, 1161, 1227, 1345, 2002, 2003, 2006, 2013}
               then ErrorUnavailable else ErrorUpstream
           | _ \<Rightarrow> if err \<in> {NetError, ErrBadConn, ErrInvalidConn, EOF, ErrUnexpectedEOF} then ErrorUnavailable
                  else ErrorUpstream)"

definition classifyQueryError :: "driver_error option \<Rightarrow> driver_error \<Rightarrow> ErrorKind" where
  "classifyQueryError ctxErr err =
     (if err \<in> {MySQLError 1054, MySQLError 1146, MySQLError 1356} then ErrorInvalid
      else classifyExecutionError ctxErr err)"

section \<open>Server identification\<close>

definition semanticsForLowerCaseTableNames :: "int \<Rightarrow> adapter_error + IdentifierSemantics" where
  "semanticsForLowerCaseTableNames value =
     (if value = 0 then Inr \<lparr>CaseInsensitiveSchemas = False, CaseInsensitiveObjects = False, CaseInsensitiveFields = True\<rparr>
      else if value = 1 \<or> value = 2 then
        Inr \<lparr>CaseInsensitiveSchemas = True, CaseInsensitiveObjects = True, CaseInsensitiveFields = True\<rparr>
      else Inl (DatabaseError ErrorUpstream))"

definition tokenIdentifierMatches :: "string \<Rightarrow> string \<Rightarrow> bool \<Rightarrow> bool" where
  "tokenIdentifierMatches actual requested caseInsensitive \<longleftrightarrow>
     (if \<not> caseInsensitive then actual = requested
      else length actual = length requested \<and>
        list_all2 (\<lambda>a r. lower_char a = lower_char r) actual requested)"

definition caseInsensitiveIdentifierCollation :: string where
  "caseInsensitiveIdentifierCollation = ''utf8mb4_0900_as_ci''"

definition metadataIdentifierComparison :: "string \<Rightarrow> string \<Rightarrow> bool \<Rightarrow> string" where
  "metadataIdentifierComparison left right caseInsensitive =
     (if \<not> caseInsensitive then ''BINARY '' @ left @ '' = BINARY '' @ right
      else ''CONVERT('' @ left @ '' USING utf8mb4) COLLATE '' @ caseInsensitiveIdentifierCollation @
           '' = CONVERT('' @ right @ '' USING utf8mb4) COLLATE '' @ caseInsensitiveIdentifierCollation)"

section \<open>Column types\<close>

definition TrimPrefix :: "string \<Rightarrow> string \<Rightarrow> string" where
  "TrimPrefix p s = (if take (length p) s = p then drop (length p) s else s)"

definition portableColumnType :: "string \<Rightarrow> string" where
  "portableColumnType databaseType =
     (let t = TrimPrefix ''UNSIGNED '' (TrimSpace (ToUpper databaseType)) in
      if t \<in> set [''TINYINT'', ''SMALLINT'', ''MEDIUMINT'', ''INT'', ''INTEGER'', ''BIGINT'', ''YEAR''] then ''integer''
      else if t \<in> set [''DECIMAL'', ''NUMERIC'', ''FLOAT'', ''DOUBLE'', ''REAL''] then ''decimal''
      else if t = ''DATE'' then ''date''
      else if t = ''DATETIME'' \<or> t = ''TIMESTAMP'' then ''datetime''
      else if t = ''TIME'' then ''time''
      else if t \<in> set [''BINARY'', ''VARBINARY'', ''TINYBLOB'', ''BLOB'', ''MEDIUMBLOB'', ''LONGBLOB'', ''BIT'',
        ''GEOMETRY'', ''POINT'', ''LINESTRING'', ''POLYGON'', ''MULTIPOINT'', ''MULTILINESTRING'', ''MULTIPOLYGON'',
        ''GEOMETRYCOLLECTION'', ''GEOMCOLLECTION''] then ''bytes''
      else if t = ''JSON'' then ''json''
      else ''string'')"

definition resultEncoding :: "string \<Rightarrow> string" where
  "resultEncoding databaseType = (if portableColumnType databaseType = ''bytes'' then ''base64'' else ''string'')"

section \<open>Byte counters\<close>

definition addEncodedSize :: "int \<Rightarrow> int \<Rightarrow> int \<Rightarrow> int option" where
  "addEncodedSize current increment maxBytes =
     (if current < 0 \<or> increment < 0 \<or> current > maxBytes \<or> increment > maxBytes - current then None
      else Some (current + increment))"

definition rune_cost :: "string \<Rightarrow> nat \<times> int" where
  "rune_cost s =
     (let c = hd s in
      if byte c < 128 then
        (1, if c = bslash \<or> c = quote_char \<or> byte c \<in> {8, 12, 10, 13, 9} then 2
            else if c = CHR ''<'' \<or> c = CHR ''>'' \<or> c = CHR ''&'' then 6
            else if byte c < 32 then 6 else 1)
      else
        let (r, w) = DecodeRune s in
        (w, if r = RuneError \<and> w = 1 then 6 else if r = 8232 \<or> r = 8233 then 6 else int w))"

lemma rune_cost_width: "s \<noteq> [] \<Longrightarrow> 1 \<le> fst (rune_cost s)"
  using DecodeRune_width [of s] by (auto simp: rune_cost_def Let_def split: prod.splits)

function string_size_loop :: "int \<Rightarrow> string \<Rightarrow> int \<Rightarrow> int option" where
  "string_size_loop cur s maxBytes =
     (if s = [] then Some cur
      else case addEncodedSize cur (snd (rune_cost s)) maxBytes of
             None \<Rightarrow> None
           | Some cur' \<Rightarrow> string_size_loop cur' (drop (fst (rune_cost s)) s) maxBytes)"
  by pat_completeness auto
termination
  using rune_cost_width by (relation "measure (\<lambda>(_, s, _). length s)") (auto simp: Suc_le_eq)

declare string_size_loop.simps [simp del]

definition encodedJSONStringSize :: "string \<Rightarrow> int \<Rightarrow> int option" where
  "encodedJSONStringSize value maxBytes = (if 2 > maxBytes then None else string_size_loop 2 value maxBytes)"

text \<open>The two loops differ only in the type of the value they read.\<close>

definition encodedMetadataJSONStringSize :: "string \<Rightarrow> int \<Rightarrow> int option" where
  "encodedMetadataJSONStringSize value maxBytes = (if 2 > maxBytes then None else string_size_loop 2 value maxBytes)"

fun add_value_sizes :: "int \<Rightarrow> int \<Rightarrow> string list \<Rightarrow> int option" where
  "add_value_sizes cur maxBytes [] = Some cur"
| "add_value_sizes cur maxBytes (v # vs) =
     (case encodedMetadataJSONStringSize v (maxBytes - cur) of
        None \<Rightarrow> None
      | Some n \<Rightarrow>
          (case addEncodedSize cur n maxBytes of
             None \<Rightarrow> None
           | Some cur' \<Rightarrow> add_value_sizes cur' maxBytes vs))"

definition encodedMetadataObjectSize :: "int \<Rightarrow> int \<Rightarrow> string list \<Rightarrow> int option" where
  "encodedMetadataObjectSize baseSize maxBytes vs =
     (case addEncodedSize 0 baseSize maxBytes of None \<Rightarrow> None | Some cur \<Rightarrow> add_value_sizes cur maxBytes vs)"

record SchemaObject =
  so_Name :: string

record ColumnDescription =
  cd_Name :: string
  cd_Type :: string
  cd_NativeType :: string
  cd_Nullable :: bool
  cd_PrimaryKey :: bool
  cd_Indexed :: bool

definition encodedSchemaObjectSize :: "SchemaObject \<Rightarrow> int \<Rightarrow> int option" where
  "encodedSchemaObjectSize object maxBytes = encodedMetadataObjectSize 9 maxBytes [so_Name object]"

definition encodedObjectDescriptionBaseSize :: "string \<Rightarrow> string \<Rightarrow> int \<Rightarrow> int option" where
  "encodedObjectDescriptionBaseSize schema name maxBytes = encodedMetadataObjectSize 32 maxBytes [schema, name]"

definition bool_size :: "bool \<Rightarrow> int" where
  "bool_size b = (if b then 4 else 5)"

fun add_bool_sizes :: "int \<Rightarrow> int \<Rightarrow> bool list \<Rightarrow> int option" where
  "add_bool_sizes cur maxBytes [] = Some cur"
| "add_bool_sizes cur maxBytes (b # bs) =
     (case addEncodedSize cur (bool_size b) maxBytes of None \<Rightarrow> None | Some cur' \<Rightarrow> add_bool_sizes cur' maxBytes bs)"

definition encodedColumnDescriptionSize :: "ColumnDescription \<Rightarrow> int \<Rightarrow> int option" where
  "encodedColumnDescriptionSize column maxBytes =
     (case encodedMetadataObjectSize 70 maxBytes [cd_Name column, cd_Type column, cd_NativeType column] of
        None \<Rightarrow> None
      | Some cur \<Rightarrow> add_bool_sizes cur maxBytes [cd_Nullable column, cd_PrimaryKey column, cd_Indexed column])"

record ResultColumn =
  rc_Name :: string
  rc_Type :: string
  rc_Encoding :: string
  rc_Nullable :: bool

type_synonym raw_row = "string option list"

definition value_size :: "string option \<Rightarrow> ResultColumn \<Rightarrow> int \<Rightarrow> int option" where
  "value_size raw column remaining =
     (case raw of
        None \<Rightarrow> Some 4
      | Some bytes \<Rightarrow>
          if rc_Encoding column = ''base64'' then Some (2 + int (b64_encoded_len (length bytes)))
          else encodedJSONStringSize bytes remaining)"

fun row_size_loop :: "bool \<Rightarrow> int \<Rightarrow> (string option \<times> ResultColumn) list \<Rightarrow> int \<Rightarrow> int option" where
  "row_size_loop first cur [] maxBytes = Some cur"
| "row_size_loop first cur ((raw, column) # rest) maxBytes =
     (case (if first then Some cur else addEncodedSize cur 1 maxBytes) of
        None \<Rightarrow> None
      | Some cur1 \<Rightarrow>
          (case value_size raw column (maxBytes - cur1) of
             None \<Rightarrow> None
           | Some valueBytes \<Rightarrow>
               (case addEncodedSize cur1 valueBytes maxBytes of
                  None \<Rightarrow> None
                | Some cur2 \<Rightarrow> row_size_loop False cur2 rest maxBytes)))"

definition encodedRowSize :: "raw_row \<Rightarrow> ResultColumn list \<Rightarrow> int \<Rightarrow> int option" where
  "encodedRowSize rawValues columns maxBytes =
     (if length rawValues \<noteq> length columns \<or> maxBytes < 2 then None
      else row_size_loop True 2 (zip rawValues columns) maxBytes)"

section \<open>Collecting rows\<close>

text \<open>The value a row delivers to the client.\<close>

definition cell :: "ResultColumn \<Rightarrow> string option \<Rightarrow> string option" where
  "cell column raw = map_option (\<lambda>bytes. if rc_Encoding column = ''base64'' then b64_encode bytes else bytes) raw"

definition materialize :: "ResultColumn list \<Rightarrow> raw_row \<Rightarrow> string option list" where
  "materialize columns raw = map (\<lambda>(v, column). cell column v) (zip raw columns)"

record SelectResult =
  sr_Columns :: "ResultColumn list"
  sr_Rows :: "string option list list"
  sr_RowCount :: int
  sr_Truncated :: bool
  sr_ResultBytes :: int

datatype fetched = Fetched raw_row | ScanFailed driver_error

fun collect_loop ::
  "driver_error option \<Rightarrow> ResultColumn list \<Rightarrow> int \<Rightarrow> int \<Rightarrow> SelectResult \<Rightarrow> fetched list \<Rightarrow> adapter_error + SelectResult" where
  "collect_loop ctxErr columns limit maxBytes result [] = Inr result"
| "collect_loop ctxErr columns limit maxBytes result (row # rows) =
     (if sr_Truncated result then collect_loop ctxErr columns limit maxBytes result rows
      else if int (length (sr_Rows result)) = limit
      then collect_loop ctxErr columns limit maxBytes (result\<lparr>sr_Truncated := True\<rparr>) rows
      else case row of
             ScanFailed e \<Rightarrow> Inl (DatabaseError (classifyExecutionError ctxErr e))
           | Fetched raw \<Rightarrow>
               let separatorBytes = (if sr_Rows result = [] then 0 else 1);
                   remainingBytes = maxBytes - sr_ResultBytes result in
               if separatorBytes > remainingBytes
               then collect_loop ctxErr columns limit maxBytes (result\<lparr>sr_Truncated := True\<rparr>) rows
               else case encodedRowSize raw columns (remainingBytes - separatorBytes) of
                      None \<Rightarrow> collect_loop ctxErr columns limit maxBytes (result\<lparr>sr_Truncated := True\<rparr>) rows
                    | Some rowBytes \<Rightarrow>
                        collect_loop ctxErr columns limit maxBytes
                          (result\<lparr>sr_Rows := sr_Rows result @ [materialize columns raw],
                                  sr_ResultBytes := sr_ResultBytes result + separatorBytes + rowBytes\<rparr>) rows)"

definition collectSelectRows ::
  "driver_error option \<Rightarrow> fetched list \<Rightarrow> driver_error option \<Rightarrow> ResultColumn list \<Rightarrow> int \<Rightarrow> int \<Rightarrow> SelectResult
     \<Rightarrow> adapter_error + SelectResult" where
  "collectSelectRows ctxErr rows rowsErr columns limit maxResultBytes result =
     bind_result (collect_loop ctxErr columns limit maxResultBytes result rows) (\<lambda>r.
       case rowsErr of None \<Rightarrow> Inr r | Some e \<Rightarrow> Inl (DatabaseError (classifyExecutionError ctxErr e)))"

text \<open>The name, the type name and the nullability (if known) the driver reports for a column.\<close>

definition result_column :: "string \<times> string \<times> bool option \<Rightarrow> ResultColumn" where
  "result_column t = (case t of (name, databaseType, nullable) \<Rightarrow>
     \<lparr>rc_Name = name, rc_Type = portableColumnType databaseType, rc_Encoding = resultEncoding databaseType,
      rc_Nullable = (nullable \<noteq> Some False)\<rparr>)"

definition source_text_column :: "Representation \<Rightarrow> ResultColumn \<Rightarrow> ResultColumn" where
  "source_text_column r column =
     (if r = RepresentationSourceText then column\<lparr>rc_Type := ''string'', rc_Encoding := ''string''\<rparr> else column)"

definition select_columns :: "(string \<times> string \<times> bool option) list \<Rightarrow> Selection list \<Rightarrow> ResultColumn list" where
  "select_columns types projection =
     map (\<lambda>(t, s). source_text_column (sel_Representation s) (result_column t)) (zip types projection)"

definition json_bool :: "bool \<Rightarrow> string" where
  "json_bool b = (if b then ''true'' else ''false'')"

definition marshal_ResultColumn :: "ResultColumn \<Rightarrow> string" where
  "marshal_ResultColumn column = json_object
     [(''name'', json_quote (rc_Name column)), (''type'', json_quote (rc_Type column)),
      (''encoding'', json_quote (rc_Encoding column)), (''nullable'', json_bool (rc_Nullable column))]"

text \<open>The part of \<open>Select\<close> after the statement has been executed; there is one column per selection.\<close>

definition select_result ::
  "driver_error option \<Rightarrow> (string \<times> string \<times> bool option) list \<Rightarrow> NormalizedSpec \<Rightarrow> int \<Rightarrow> fetched list \<Rightarrow> driver_error option
     \<Rightarrow> adapter_error + SelectResult" where
  "select_result ctxErr types spec maxResultBytes rows rowsErr =
     (let columns = select_columns types (ns_Projection spec);
          resultBytes = 11 + int (length (json_array (map marshal_ResultColumn columns))) + 11 in
      check (fail_if (resultBytes > maxResultBytes) (DatabaseError ErrorResultTooLarge))
      (bind_result (collectSelectRows ctxErr rows rowsErr columns (ns_Limit spec) maxResultBytes
          \<lparr>sr_Columns = columns, sr_Rows = [], sr_RowCount = 0, sr_Truncated = False, sr_ResultBytes = resultBytes\<rparr>) (\<lambda>r.
        Inr (r\<lparr>sr_RowCount := int (length (sr_Rows r))\<rparr>))))"

section \<open>The contract of a byte counter\<close>

text \<open>
  A counter returns the length of the encoding of a value if it fits into the budget and fails otherwise.
  What the loops rely on is that a counter run on the remaining budget and added to the running total
  fails exactly when the total would exceed the budget.
\<close>

definition fitting :: "int \<Rightarrow> int \<Rightarrow> int option" where
  "fitting n budget = (if n \<le> budget then Some n else None)"

lemma fitting_Some [simp]: "fitting n budget = Some m \<longleftrightarrow> n \<le> budget \<and> m = n"
  by (auto simp: fitting_def)

lemma addEncodedSize_fitting: "0 \<le> cur \<Longrightarrow> 0 \<le> inc \<Longrightarrow> addEncodedSize cur inc budget = fitting (cur + inc) budget"
  by (auto simp: addEncodedSize_def fitting_def)

locale byte_counter =
  fixes count :: "'a \<Rightarrow> int \<Rightarrow> int option"
    and encoding :: "'a \<Rightarrow> string"
    and countable :: "'a \<Rightarrow> bool"
  assumes exact: "countable x \<Longrightarrow> count x budget = fitting (int (length (encoding x))) budget"
begin

lemma count_then_add:
  assumes "countable x" "0 \<le> cur"
  shows "(case count x (budget - cur) of
       None \<Rightarrow> None
     | Some n \<Rightarrow> (case addEncodedSize cur n budget of None \<Rightarrow> None | Some acc \<Rightarrow> k acc)) =
    (if cur + int (length (encoding x)) \<le> budget then k (cur + int (length (encoding x))) else None)"
  using assms by (auto simp: exact addEncodedSize_def fitting_def)

lemma count_mono: "countable x \<Longrightarrow> count x budget = Some n \<Longrightarrow> budget \<le> budget' \<Longrightarrow> count x budget' = Some n"
  by (auto simp: exact)

lemma count_is_length: "countable x \<Longrightarrow> count x budget = Some n \<Longrightarrow> n = int (length (encoding x)) \<and> n \<le> budget"
  by (auto simp: exact)

end

section \<open>Strings\<close>

lemma json_escape_step:
  assumes "s \<noteq> []"
  shows "int (length (json_escape s)) = snd (rune_cost s) + int (length (json_escape (drop (fst (rune_cost s)) s)))"
proof -
  obtain c t where s: "s = c # t" using assms by (cases s) auto
  show ?thesis
  proof (cases "byte c < 128")
    case True
    have "int (length (json_escape_ascii c)) = snd (rune_cost s)"
      using True by (auto simp: s rune_cost_def json_escape_ascii_def)
    moreover have "json_escape s = json_escape_ascii c @ json_escape t" using True by (subst json_escape.simps) (simp add: s)
    moreover have "fst (rune_cost s) = 1" using True by (simp add: s rune_cost_def)
    ultimately show ?thesis by (simp add: s)
  next
    case False
    obtain r w where d: "DecodeRune s = (r, w)" by (cases "DecodeRune s")
    have w: "w \<le> length s" using DecodeRune_width_le [of s] d by simp
    have "json_escape s = (if (r, w) = (RuneError, 1) then bslash # ''ufffd'' else if r = 8232 then bslash # ''u2028''
        else if r = 8233 then bslash # ''u2029'' else take w s) @ json_escape (drop w s)"
      using False d by (subst json_escape.simps) (simp add: s)
    moreover have "rune_cost s = (w, if r = RuneError \<and> w = 1 then 6 else if r = 8232 \<or> r = 8233 then 6 else int w)"
      using False d by (simp add: s rune_cost_def)
    ultimately show ?thesis using w by auto
  qed
qed

lemma rune_cost_nonneg: "0 \<le> snd (rune_cost s)"
  by (auto simp: rune_cost_def Let_def split: prod.splits)

lemma string_size_loop_exact:
  "0 \<le> cur \<Longrightarrow> cur \<le> budget \<Longrightarrow> string_size_loop cur s budget = fitting (cur + int (length (json_escape s))) budget"
proof (induction cur s budget rule: string_size_loop.induct)
  case (1 cur s budget)
  show ?case
  proof (cases "s = []")
    case True
    with "1.prems" show ?thesis by (simp add: string_size_loop.simps json_escape.simps fitting_def)
  next
    case False
    let ?cost = "snd (rune_cost s)" and ?rest = "drop (fst (rune_cost s)) s"
    have unfold: "string_size_loop cur s budget = (case fitting (cur + ?cost) budget of None \<Rightarrow> None
        | Some c \<Rightarrow> string_size_loop c ?rest budget)"
      using False "1.prems" by (subst string_size_loop.simps) (simp add: addEncodedSize_fitting rune_cost_nonneg)
    show ?thesis
    proof (cases "cur + ?cost \<le> budget")
      case True
      with "1.IH" [OF False, of "cur + ?cost"] "1.prems" rune_cost_nonneg [of s]
      have "string_size_loop (cur + ?cost) ?rest budget = fitting (cur + ?cost + int (length (json_escape ?rest))) budget"
        by (simp add: addEncodedSize_fitting)
      with unfold True show ?thesis by (simp add: fitting_def json_escape_step [OF False])
    next
      case False': False
      with unfold show ?thesis by (simp add: fitting_def json_escape_step [OF False])
    qed
  qed
qed

interpretation string_counter: byte_counter encodedJSONStringSize json_quote "\<lambda>_. True"
  by unfold_locales (simp add: encodedJSONStringSize_def string_size_loop_exact json_quote_def fitting_def)

interpretation metadata_counter: byte_counter encodedMetadataJSONStringSize json_quote "\<lambda>_. True"
  by unfold_locales (simp add: encodedMetadataJSONStringSize_def string_size_loop_exact json_quote_def fitting_def)

section \<open>Metadata\<close>

text \<open>What \<open>json.Marshal\<close> prints for the structures of listings and descriptions.\<close>

definition marshal_SchemaObject :: "SchemaObject \<Rightarrow> string" where
  "marshal_SchemaObject object = json_object [(''name'', json_quote (so_Name object))]"

definition marshal_ColumnDescription :: "ColumnDescription \<Rightarrow> string" where
  "marshal_ColumnDescription column = json_object
     [(''name'', json_quote (cd_Name column)), (''type'', json_quote (cd_Type column)),
      (''native_type'', json_quote (cd_NativeType column)), (''nullable'', json_bool (cd_Nullable column)),
      (''primary_key'', json_bool (cd_PrimaryKey column)), (''indexed'', json_bool (cd_Indexed column))]"

definition marshal_ObjectDescription :: "string \<Rightarrow> string \<Rightarrow> ColumnDescription list \<Rightarrow> string" where
  "marshal_ObjectDescription schema name columns = json_object
     [(''schema'', json_quote schema), (''name'', json_quote name),
      (''columns'', json_array (map marshal_ColumnDescription columns))]"

lemma length_json_quote_word: "list_all is_word w \<Longrightarrow> length (json_quote w) = length w + 2"
  by (simp add: json_quote_def json_escape_plain plain_def list_all_iff plain_word)

lemma member_names: "list_all (list_all is_word) [''name'', ''type'', ''native_type'', ''nullable'', ''primary_key'', ''indexed'',
    ''schema'', ''columns'', ''encoding'']"
  by code_simp

lemmas length_member_names [simp] =
  length_json_quote_word [of "''name''"] length_json_quote_word [of "''type''"] length_json_quote_word [of "''native_type''"]
  length_json_quote_word [of "''nullable''"] length_json_quote_word [of "''primary_key''"]
  length_json_quote_word [of "''indexed''"] length_json_quote_word [of "''schema''"]
  length_json_quote_word [of "''columns''"] length_json_quote_word [of "''encoding''"]

lemma add_value_sizes_exact:
  "0 \<le> cur \<Longrightarrow> cur \<le> budget \<Longrightarrow>
     add_value_sizes cur budget vs = fitting (cur + int (sum_list (map (length \<circ> json_quote) vs))) budget"
proof (induction vs arbitrary: cur)
  case (Cons v vs)
  then show ?case by (simp add: metadata_counter.count_then_add fitting_def)
qed (simp add: fitting_def)

lemma encodedMetadataObjectSize_exact:
  "0 \<le> base \<Longrightarrow> encodedMetadataObjectSize base budget vs = fitting (base + int (sum_list (map (length \<circ> json_quote) vs))) budget"
  by (auto simp: encodedMetadataObjectSize_def addEncodedSize_def add_value_sizes_exact fitting_def)

lemma add_bool_sizes_exact:
  "0 \<le> cur \<Longrightarrow> cur \<le> budget \<Longrightarrow>
     add_bool_sizes cur budget bs = fitting (cur + int (sum_list (map (length \<circ> json_bool) bs))) budget"
proof (induction bs arbitrary: cur)
  case (Cons b bs)
  have "int (length (json_bool b)) = bool_size b" by (simp add: json_bool_def bool_size_def)
  with Cons show ?case by (auto simp: addEncodedSize_def fitting_def bool_size_def)
qed (simp add: fitting_def)

interpretation object_counter: byte_counter encodedSchemaObjectSize marshal_SchemaObject "\<lambda>_. True"
  by unfold_locales (use member_names in \<open>simp add: encodedSchemaObjectSize_def encodedMetadataObjectSize_exact marshal_SchemaObject_def
      json_object_def comma_separated_def\<close>)

interpretation column_counter: byte_counter encodedColumnDescriptionSize marshal_ColumnDescription "\<lambda>_. True"
proof (unfold_locales, goal_cases)
  case (1 x budget)
  have "length (marshal_ColumnDescription x) = 70 + sum_list (map (length \<circ> json_quote) [cd_Name x, cd_Type x, cd_NativeType x])
      + sum_list (map (length \<circ> json_bool) [cd_Nullable x, cd_PrimaryKey x, cd_Indexed x])"
    using member_names by (simp add: marshal_ColumnDescription_def json_object_def comma_separated_def)
  then show ?case
    unfolding encodedColumnDescriptionSize_def
    by (auto simp: encodedMetadataObjectSize_exact add_bool_sizes_exact fitting_def simp del: add_bool_sizes.simps)
qed

interpretation description_counter: byte_counter "\<lambda>(schema, name). encodedObjectDescriptionBaseSize schema name"
  "\<lambda>(schema, name). marshal_ObjectDescription schema name []" "\<lambda>_. True"
  by unfold_locales (use member_names in \<open>auto simp: encodedObjectDescriptionBaseSize_def encodedMetadataObjectSize_exact
      marshal_ObjectDescription_def json_object_def json_array_def comma_separated_def\<close>)

section \<open>Rows\<close>

text \<open>The JSON text of a row of values.\<close>

definition json_cell :: "string option \<Rightarrow> string" where
  "json_cell v = (case v of None \<Rightarrow> ''null'' | Some s \<Rightarrow> json_quote s)"

definition json_row :: "string option list \<Rightarrow> string" where
  "json_row row = json_array (map json_cell row)"

lemma b64_indices:
  fixes a b c :: nat
  shows "a < 256 \<Longrightarrow> a div 4 < 64" "b < 256 \<Longrightarrow> a mod 4 * 16 + b div 16 < 64" "c < 256 \<Longrightarrow> b mod 16 * 4 + c div 64 < 64"
    "c < 256 \<Longrightarrow> c mod 64 < 64" "b < 256 \<Longrightarrow> b mod 16 * 4 < 64" "a < 256 \<Longrightarrow> a mod 4 * 16 < 64"
proof -
  have "a mod 4 < 4" "b mod 16 < 16" by simp_all
  moreover have "b < 256 \<Longrightarrow> b div 16 < 16" "c < 256 \<Longrightarrow> c div 64 < 4" by (simp_all add: less_mult_imp_div_less)
  ultimately show "b < 256 \<Longrightarrow> a mod 4 * 16 + b div 16 < 64" "c < 256 \<Longrightarrow> b mod 16 * 4 + c div 64 < 64"
    "b < 256 \<Longrightarrow> b mod 16 * 4 < 64" "a < 256 \<Longrightarrow> a mod 4 * 16 < 64" by linarith+
qed (simp_all add: less_mult_imp_div_less)

lemma plain_b64: "plain (b64_encode s)"
proof -
  have "list_all plain_char b64_alphabet \<and> length b64_alphabet = 64 \<and> plain_char (CHR ''='')" by code_simp
  then have "plain_char (b64_char n)" if "n < 64" for n using that by (simp add: b64_char_def list_all_length)
  moreover have "byte a div 4 < 64" "byte a mod 4 * 16 + byte b div 16 < 64" "byte b mod 16 * 4 + byte c div 64 < 64"
    "byte c mod 64 < 64" "byte b mod 16 * 4 < 64" "byte a mod 4 * 16 < 64" for a b c
    by (rule b64_indices, rule byte_bound)+
  ultimately show ?thesis
    using \<open>list_all plain_char b64_alphabet \<and> length b64_alphabet = 64 \<and> plain_char (CHR ''='')\<close>
    by (induction s rule: b64_encode.induct) (simp_all add: plain_Cons)
qed

lemma length_json_cell:
  "int (length (json_cell (cell column raw))) =
     (case raw of None \<Rightarrow> 4 | Some bytes \<Rightarrow>
        if rc_Encoding column = ''base64'' then 2 + int (b64_encoded_len (length bytes)) else int (length (json_quote bytes)))"
  by (auto simp: json_cell_def cell_def json_quote_def json_escape_plain plain_b64 length_b64_encode split: option.splits)

lemma value_size_then_add:
  assumes "0 \<le> cur"
  shows "(case value_size raw column (budget - cur) of
       None \<Rightarrow> None
     | Some n \<Rightarrow> (case addEncodedSize cur n budget of None \<Rightarrow> None | Some acc \<Rightarrow> k acc)) =
    (if cur + int (length (json_cell (cell column raw))) \<le> budget then k (cur + int (length (json_cell (cell column raw)))) else None)"
proof (cases "\<exists>bytes. raw = Some bytes \<and> rc_Encoding column \<noteq> ''base64''")
  case True
  then show ?thesis using assms by (auto simp: value_size_def length_json_cell string_counter.count_then_add)
next
  case False
  then show ?thesis using assms
    by (auto simp: value_size_def length_json_cell addEncodedSize_def split: option.splits)
qed

lemma row_size_loop_exact:
  "0 \<le> cur \<Longrightarrow> cur \<le> budget \<Longrightarrow> row_size_loop False cur cells budget =
     fitting (cur + int (sum_list (map (\<lambda>p. 1 + length (json_cell (cell (snd p) (fst p)))) cells))) budget"
proof (induction cells arbitrary: cur)
  case (Cons p cells)
  obtain v column where p: "p = (v, column)" by (cases p)
  show ?case
  proof (cases "cur + 1 \<le> budget")
    case True
    with Cons.prems have "addEncodedSize cur 1 budget = Some (cur + 1)" by (simp add: addEncodedSize_def)
    with Cons True show ?thesis by (auto simp: p value_size_then_add fitting_def)
  next
    case False
    with Cons.prems show ?thesis by (simp add: p addEncodedSize_def fitting_def)
  qed
qed (simp add: fitting_def)

lemma length_join_comma: "length (join '','' (x # xs)) = length x + sum_list (map (\<lambda>y. 1 + length y) xs)"
  by (simp add: join_Cons length_concat comp_def)

lemma encodedRowSize_exact:
  assumes "length raw = length columns"
  shows "encodedRowSize raw columns budget = fitting (int (length (json_row (materialize columns raw)))) budget"
proof (cases "zip raw columns")
  case Nil
  then show ?thesis using assms by (auto simp: encodedRowSize_def json_row_def materialize_def json_array_def comma_separated_def fitting_def)
next
  case (Cons p cells)
  obtain v column where p: "p = (v, column)" by (cases p)
  have len: "int (length (json_row (materialize columns raw))) = 2 + int (length (json_cell (cell column v))) +
      int (sum_list (map (\<lambda>p. 1 + length (json_cell (cell (snd p) (fst p)))) cells))"
    by (simp add: json_row_def materialize_def json_array_def comma_separated_def Cons p length_join_comma comp_def case_prod_beta)
  have "sum_list (map (\<lambda>p. 1 + length (json_cell (cell (snd p) (fst p)))) cells) \<ge> 0" by simp
  then show ?thesis
    using assms unfolding encodedRowSize_def Cons p len
    by (auto simp: value_size_then_add row_size_loop_exact fitting_def)
qed

interpretation row_counter: byte_counter "\<lambda>raw. encodedRowSize raw columns" "\<lambda>raw. json_row (materialize columns raw)"
  "\<lambda>raw. length raw = length columns" for columns
  by unfold_locales (rule encodedRowSize_exact)

section \<open>Collected rows\<close>

definition rows_text :: "string option list list \<Rightarrow> string" where
  "rows_text rows = comma_separated (map json_row rows)"

definition result_text :: "ResultColumn list \<Rightarrow> string option list list \<Rightarrow> string" where
  "result_text columns rows =
     ''{'' @ json_quote ''columns'' @ '':'' @ json_array (map marshal_ResultColumn columns) @ '','' @ json_quote ''rows'' @
     '':'' @ json_array (map json_row rows) @ ''}''"

lemma collect_truncated: "sr_Truncated result \<Longrightarrow> collect_loop ctxErr columns limit maxBytes result rows = Inr result"
  by (induction rows) simp_all

lemma length_rows_text_snoc:
  "length (rows_text (rows @ [row])) = length (rows_text rows) + (if rows = [] then 0 else 1) + length (json_row row)"
proof (cases rows)
  case Nil
  then show ?thesis by (simp add: rows_text_def comma_separated_def)
next
  case (Cons r rs)
  then show ?thesis by (simp add: rows_text_def comma_separated_def length_join_comma comp_def)
qed

definition stopped :: "ResultColumn list \<Rightarrow> int \<Rightarrow> int \<Rightarrow> SelectResult \<Rightarrow> fetched \<Rightarrow> bool" where
  "stopped columns limit maxBytes r next_row \<longleftrightarrow> int (length (sr_Rows r)) = limit \<or>
     (\<exists>raw. next_row = Fetched raw \<and>
        sr_ResultBytes r + (if sr_Rows r = [] then 0 else 1) + int (length (json_row (materialize columns raw))) > maxBytes)"

lemma collect_loop_prefix:
  assumes "collect_loop ctxErr columns limit maxBytes res rows = Inr r" "\<not> sr_Truncated res"
    "\<forall>raw. Fetched raw \<in> set rows \<longrightarrow> length raw = length columns"
    "sr_ResultBytes res = base + int (length (rows_text (sr_Rows res)))" "sr_ResultBytes res \<le> maxBytes"
    "int (length (sr_Rows res)) \<le> limit"
  shows "\<exists>raws. take (length raws) rows = map Fetched raws \<and> sr_Rows r = sr_Rows res @ map (materialize columns) raws \<and>
    sr_Columns r = sr_Columns res \<and> sr_ResultBytes r = base + int (length (rows_text (sr_Rows r))) \<and> sr_ResultBytes r \<le> maxBytes \<and>
    int (length (sr_Rows r)) \<le> limit \<and> (sr_Truncated r \<longleftrightarrow> length raws < length rows) \<and>
    (sr_Truncated r \<longrightarrow> stopped columns limit maxBytes r (rows ! length raws))"
  using assms
proof (induction rows arbitrary: res)
  case Nil
  then show ?case by (intro exI [of _ "[]"]) auto
next
  case (Cons row rows)
  let ?sep = "if sr_Rows res = [] then 0 else 1 :: int"
  have stop: ?case if "r = res\<lparr>sr_Truncated := True\<rparr>" "stopped columns limit maxBytes r row"
    using that Cons.prems by (intro exI [of _ "[]"]) auto
  show ?case
  proof (cases "int (length (sr_Rows res)) = limit")
    case True
    with Cons.prems(1,2) have "r = res\<lparr>sr_Truncated := True\<rparr>" by (simp add: collect_truncated)
    with True show ?thesis by (intro stop) (simp_all add: stopped_def)
  next
    case False
    with Cons.prems(1,2) obtain raw where row: "row = Fetched raw" by (cases row) auto
    have w: "length raw = length columns" using Cons.prems(3) row by simp
    let ?n = "int (length (json_row (materialize columns raw)))"
    show ?thesis
    proof (cases "sr_ResultBytes res + ?sep + ?n \<le> maxBytes")
      case fits: True
      let ?res = "res\<lparr>sr_Rows := sr_Rows res @ [materialize columns raw], sr_ResultBytes := sr_ResultBytes res + ?sep + ?n\<rparr>"
      have "collect_loop ctxErr columns limit maxBytes ?res rows = Inr r"
        using Cons.prems(1,2) False fits w by (auto simp: row encodedRowSize_exact fitting_def Let_def split: if_splits)
      moreover have "int (length (sr_Rows ?res)) \<le> limit" using False Cons.prems(6) by simp
      moreover have "sr_ResultBytes ?res = base + int (length (rows_text (sr_Rows ?res)))"
        using Cons.prems(4) by (simp add: length_rows_text_snoc)
      ultimately obtain raws where "take (length raws) rows = map Fetched raws \<and>
          sr_Rows r = sr_Rows ?res @ map (materialize columns) raws \<and> sr_Columns r = sr_Columns ?res \<and>
          sr_ResultBytes r = base + int (length (rows_text (sr_Rows r))) \<and> sr_ResultBytes r \<le> maxBytes \<and>
          int (length (sr_Rows r)) \<le> limit \<and> (sr_Truncated r \<longleftrightarrow> length raws < length rows) \<and>
          (sr_Truncated r \<longrightarrow> stopped columns limit maxBytes r (rows ! length raws))"
        using Cons.IH [of ?res] Cons.prems(2,3) fits by auto
      then show ?thesis by (intro exI [of _ "raw # raws"]) (auto simp: row)
    next
      case over: False
      have "r = res\<lparr>sr_Truncated := True\<rparr>"
        using Cons.prems(1,2) False over w by (auto simp: row encodedRowSize_exact fitting_def collect_truncated Let_def split: if_splits)
      with over show ?thesis by (intro stop) (auto simp: stopped_def row)
    qed
  qed
qed

lemma length_result_text:
  "int (length (result_text columns rows)) =
     22 + int (length (json_array (map marshal_ResultColumn columns))) + int (length (rows_text rows))"
proof -
  have "list_all is_word ''rows''" by code_simp
  then show ?thesis
    using member_names by (simp add: result_text_def rows_text_def json_array_def length_json_quote_word)
qed

lemma select_result_exact:
  assumes "select_result ctxErr types spec maxBytes rows rowsErr = Inr r" "0 \<le> ns_Limit spec"
    "columns = select_columns types (ns_Projection spec)"
    "\<forall>raw. Fetched raw \<in> set rows \<longrightarrow> length raw = length columns"
  shows "\<exists>raws. take (length raws) rows = map Fetched raws \<and> sr_Rows r = map (materialize columns) raws \<and>
    sr_Columns r = columns \<and> sr_RowCount r = int (length raws) \<and> int (length raws) \<le> ns_Limit spec \<and>
    sr_ResultBytes r = int (length (result_text columns (sr_Rows r))) \<and> sr_ResultBytes r \<le> maxBytes \<and>
    (sr_Truncated r \<longleftrightarrow> length raws < length rows) \<and>
    (sr_Truncated r \<longrightarrow> stopped columns (ns_Limit spec) maxBytes r (rows ! length raws))"
proof -
  let ?base = "22 + int (length (json_array (map marshal_ResultColumn columns)))"
  let ?res = "\<lparr>sr_Columns = columns, sr_Rows = [], sr_RowCount = 0, sr_Truncated = False, sr_ResultBytes = ?base\<rparr>"
  from assms(1) obtain r' where base: "?base \<le> maxBytes"
    and c: "collect_loop ctxErr columns (ns_Limit spec) maxBytes ?res rows = Inr r'"
    and r: "r = r'\<lparr>sr_RowCount := int (length (sr_Rows r'))\<rparr>"
    by (auto simp: select_result_def collectSelectRows_def Let_def assms(3) not_less split: option.splits)
  have "sr_ResultBytes ?res = ?base + int (length (rows_text (sr_Rows ?res)))" by (simp add: rows_text_def comma_separated_def)
  from collect_loop_prefix [OF c _ assms(4) this] base assms(2)
  obtain raws where "take (length raws) rows = map Fetched raws" "sr_Rows r' = map (materialize columns) raws"
    "sr_Columns r' = columns" "sr_ResultBytes r' = ?base + int (length (rows_text (sr_Rows r')))" "sr_ResultBytes r' \<le> maxBytes"
    "int (length (sr_Rows r')) \<le> ns_Limit spec" "sr_Truncated r' \<longleftrightarrow> length raws < length rows"
    "sr_Truncated r' \<longrightarrow> stopped columns (ns_Limit spec) maxBytes r' (rows ! length raws)" by auto
  then show ?thesis by (intro exI [of _ raws]) (auto simp: r length_result_text stopped_def)
qed

section \<open>Properties\<close>

text \<open>
  The size the adapter predicts for a row before building it is the exact length of the row's JSON
  text, escapes, replaced UTF-8, base64 and NULLs included, and the prediction fails exactly when that
  text does not fit.
\<close>

theorem row_sizes_are_exact:
  assumes "length raw = length columns"
  shows "encodedRowSize raw columns budget =
    (if int (length (json_row (materialize columns raw))) \<le> budget
     then Some (int (length (json_row (materialize columns raw)))) else None)"
  using row_counter.exact [OF assms] by (simp add: fitting_def)

theorem row_sizes_are_exact_witness:
  "encodedRowSize [Some [CHR 0x0A, CHR 0x41], None] (replicate 2 (source_text_column RepresentationSourceText (result_column (''a'', ''TEXT'', None)))) 100
     = Some 12"
  using row_sizes_are_exact [of "[Some [CHR 0x0A, CHR 0x41], None]"
      "replicate 2 (source_text_column RepresentationSourceText (result_column (''a'', ''TEXT'', None)))" 100]
  by (simp add: numeral_2_eq_2 materialize_def cell_def json_row_def json_cell_def json_array_def comma_separated_def
      source_text_column_def json_quote_def json_escape.simps json_escape_ascii_def bslash_def quote_char_def)

text \<open>
  C21: a select that succeeds delivers an initial segment of the rows the server sent, never more than the
  requested limit; the recorded size is the exact length of the JSON text of columns and rows and is
  within the byte budget; the result is marked truncated exactly when a row is missing, and then either
  the limit is reached or the next row would not have fitted.
\<close>

theorem select_results_fit_their_budget:
  assumes "select_result ctxErr types spec maxBytes rows rowsErr = Inr r" and "0 \<le> ns_Limit spec"
    and "columns = select_columns types (ns_Projection spec)"
    and "\<forall>raw. Fetched raw \<in> set rows \<longrightarrow> length raw = length columns"
  shows "\<exists>raws. take (length raws) rows = map Fetched raws \<and> sr_Rows r = map (materialize columns) raws \<and>
    sr_Columns r = columns \<and> sr_RowCount r = int (length raws) \<and> int (length raws) \<le> ns_Limit spec \<and>
    sr_ResultBytes r = int (length (result_text columns (sr_Rows r))) \<and> sr_ResultBytes r \<le> maxBytes \<and>
    (sr_Truncated r \<longleftrightarrow> length raws < length rows) \<and>
    (sr_Truncated r \<longrightarrow> stopped columns (ns_Limit spec) maxBytes r (rows ! length raws))"
  by (rule select_result_exact [OF assms])

text \<open>A text column read as source text, a query for one row of it, and the two rows the server holds.\<close>

definition sample_text_column :: ResultColumn where
  "sample_text_column = \<lparr>rc_Name = ''a'', rc_Type = ''string'', rc_Encoding = ''string'', rc_Nullable = True\<rparr>"

definition sample_text_query :: NormalizedSpec where
  "sample_text_query = \<lparr>ns_Source = \<lparr>ref_Schema = ''app'', ref_Name = ''notes''\<rparr>,
     ns_Projection = [\<lparr>sel_Representation = RepresentationSourceText, sel_Kind = ''field'', sel_Field = ''a'', sel_Function = [], sel_Alias = []\<rparr>],
     ns_Filter = None, ns_GroupBy = [], ns_OrderBy = [], ns_Limit = 1, ns_Offset = 0\<rparr>"

definition sample_text_result :: SelectResult where
  "sample_text_result = \<lparr>sr_Columns = [sample_text_column], sr_Rows = [[Some ''x'']], sr_RowCount = 1, sr_Truncated = True,
     sr_ResultBytes = 93\<rparr>"

lemma sample_text_columns: "select_columns [(''a'', ''TEXT'', None)] (ns_Projection sample_text_query) = [sample_text_column]"
  by (simp add: select_columns_def sample_text_query_def source_text_column_def result_column_def sample_text_column_def)

lemma sample_text_header: "int (length (json_array (map marshal_ResultColumn [sample_text_column]))) = 66"
  by code_simp

lemma sample_text_row: "length (json_row [Some ''x'']) = 5"
  by code_simp

lemma sample_text_result_reached:
  "select_result None [(''a'', ''TEXT'', None)] sample_text_query 200 [Fetched [Some ''x''], Fetched [None]] None = Inr sample_text_result"
  unfolding select_result_def Let_def sample_text_columns sample_text_header
  by (simp add: collectSelectRows_def sample_text_result_def row_counter.exact fitting_def sample_text_row
      sample_text_query_def materialize_def cell_def sample_text_column_def)

theorem select_results_fit_their_budget_witness:
  "sr_ResultBytes sample_text_result = int (length (result_text [sample_text_column] [[Some ''x'']]))"
  using select_results_fit_their_budget [OF sample_text_result_reached _ sample_text_columns [symmetric]]
  by (auto simp: sample_text_query_def sample_text_result_def)

end
