(* ===== verification/Keyset_Columns.thy ===== *)
theory Keyset_Columns
  imports Mysql_Rows Keyset_Query
begin

text \<open>
  The columns of a keyset page in \<^verbatim>\<open>internal/adapters/mysql8/keyset.go\<close> and \<^verbatim>\<open>keyset_characters.go\<close>: the metadata
  the server reports for a column, the cursor kind a column has, which filter values a column accepts, and
  how a cursor value is bound against its column. The answers of \<open>information_schema\<close> are arguments of
  \<open>validateKeysetSource\<close>.
\<close>

section \<open>Columns and sources\<close>

text \<open>\<open>sql.NullInt64\<close> is an \<open>int option\<close>; reading an invalid one gives 0.\<close>

record keysetSourceColumn =
  col_representation :: Representation
  col_name :: string
  col_dataType :: string
  col_nativeType :: string
  col_nullable :: bool
  col_characterSet :: string
  col_collation :: string
  col_characterMaximumLength :: "int option"
  col_characterOctetLength :: "int option"
  col_numericPrecision :: "int option"
  col_numericScale :: "int option"
  col_datetimePrecision :: "int option"

text \<open>The map from lower-case names to columns, as an association list without repeated keys.\<close>

type_synonym column_map = "(string \<times> keysetSourceColumn) list"

record keysetSource =
  src_columns :: column_map
  src_projectionColumns :: "keysetSourceColumn list"
  src_keyColumns :: "keysetSourceColumn list"
  src_keyKinds :: "string list"
  src_keyIndexes :: "nat list"

definition null_int :: "int option \<Rightarrow> int" where
  "null_int v = (case v of None \<Rightarrow> 0 | Some n \<Rightarrow> n)"

definition normalized_type :: "keysetSourceColumn \<Rightarrow> string" where
  "normalized_type column = ToUpper (TrimSpace (col_dataType column))"

fun contains_text :: "string \<Rightarrow> string \<Rightarrow> bool" where
  "contains_text sub [] \<longleftrightarrow> sub = []"
| "contains_text sub (c # s) \<longleftrightarrow> take (length sub) (c # s) = sub \<or> contains_text sub s"

definition is_unsigned :: "keysetSourceColumn \<Rightarrow> bool" where
  "is_unsigned column \<longleftrightarrow> contains_text ''unsigned'' (ToLower (col_nativeType column))"

text \<open>\<open>strings.Fields\<close> on texts without white space beyond ASCII.\<close>

definition is_ascii_space :: "char \<Rightarrow> bool" where
  "is_ascii_space c \<longleftrightarrow> byte c \<in> {9, 10, 11, 12, 13, 32}"

function Fields :: "string \<Rightarrow> string list" where
  "Fields s =
     (let t = dropWhile is_ascii_space s in
      if t = [] then [] else takeWhile (\<lambda>c. \<not> is_ascii_space c) t # Fields (dropWhile (\<lambda>c. \<not> is_ascii_space c) t))"
  by pat_completeness auto
termination
proof (relation "measure length", goal_cases)
  case (2 s t)
  then obtain c u where t: "t = c # u" "\<not> is_ascii_space c"
    by (metis hd_dropWhile list.collapse)
  have "length (dropWhile (\<lambda>c. \<not> is_ascii_space c) t) \<le> length u" using t by (simp add: length_dropWhile_le)
  moreover have "length t \<le> length s" using 2(1) by (simp add: length_dropWhile_le)
  ultimately show ?case using t by simp
qed simp

declare Fields.simps [simp del]

section \<open>Character metadata\<close>

definition validMySQLCharacterName :: "string \<Rightarrow> bool" where
  "validMySQLCharacterName name \<longleftrightarrow>
     name \<noteq> [] \<and> length name \<le> 64 \<and> is_word_start (hd name) \<and> list_all is_word name"

definition validKeysetCharacterMetadata :: "keysetSourceColumn \<Rightarrow> bool" where
  "validKeysetCharacterMetadata column \<longleftrightarrow>
     validMySQLCharacterName (col_characterSet column) \<and> validMySQLCharacterName (col_collation column)"

definition invalidKeysetCharacterError :: adapter_error where
  "invalidKeysetCharacterError = DatabaseError ErrorInvalid"

definition keysetCharacterOperand :: "keysetSourceColumn \<Rightarrow> adapter_error + string" where
  "keysetCharacterOperand column =
     check (fail_if (\<not> validKeysetCharacterMetadata column) invalidKeysetCharacterError)
       (Inr (''CONVERT(CAST(? AS CHAR CHARACTER SET utf8mb4) USING '' @ col_characterSet column @
             '') COLLATE '' @ col_collation column))"

definition keysetCharacterRoundTrip :: "string \<Rightarrow> string \<Rightarrow> string \<Rightarrow> string \<Rightarrow> string" where
  "keysetCharacterRoundTrip expression originalExpression intermediate original =
     ''CAST(CONVERT(CONVERT('' @ expression @ '' USING '' @ intermediate @ '') USING '' @ original @
     '') AS BINARY) = CAST('' @ originalExpression @ '' AS BINARY)''"

definition classifyKeysetCharacterError :: "driver_error option \<Rightarrow> driver_error \<Rightarrow> adapter_error" where
  "classifyKeysetCharacterError ctxErr err =
     (if ctxErr \<noteq> None \<or> err \<in> {DeadlineExceeded, Canceled} then DatabaseError (classifyExecutionError ctxErr err)
      else if err \<in> {MySQLError 1300, MySQLError 1366, MySQLError 3854, MySQLError 3988} then invalidKeysetCharacterError
      else DatabaseError (classifyQueryError ctxErr err))"

definition validateKeysetCharacterGuards :: "raw_row \<Rightarrow> adapter_error option" where
  "validateKeysetCharacterGuards values_read = range_error (\<lambda>_ value. first_error [
     fail_if (value = None \<or> value = Some ''0'') invalidKeysetCharacterError,
     fail_if (value \<noteq> Some ''1'') (DatabaseError ErrorUpstream)]) values_read"

section \<open>Column kinds\<close>

definition mysqlKeysetTemporalPrecision :: "keysetSourceColumn \<Rightarrow> adapter_error + nat" where
  "mysqlKeysetTemporalPrecision column =
     (case col_datetimePrecision column of
        None \<Rightarrow> Inl (DatabaseError ErrorInvalid)
      | Some n \<Rightarrow> if n < 0 \<or> n > 6 then Inl (DatabaseError ErrorInvalid) else Inr (nat n))"

definition validateSourceTextType :: "string \<Rightarrow> adapter_error option" where
  "validateSourceTextType dataType =
     fail_if (ToUpper (TrimSpace dataType) \<notin> set [''DATE'', ''DATETIME'', ''TIMESTAMP'']) (DatabaseError ErrorInvalid)"

definition integer_types :: "string list" where
  "integer_types = [''TINYINT'', ''SMALLINT'', ''MEDIUMINT'', ''INT'', ''INTEGER'', ''BIGINT'']"

definition text_types :: "string list" where
  "text_types = [''CHAR'', ''VARCHAR'', ''TINYTEXT'', ''TEXT'', ''MEDIUMTEXT'', ''LONGTEXT'']"

definition validateKeysetColumnType :: "keysetSourceColumn \<Rightarrow> adapter_error + string" where
  "validateKeysetColumnType column =
     (if col_representation column = RepresentationSourceText then
        check (validateSourceTextType (col_dataType column))
          (if EqualFold (col_dataType column) ''DATE'' then Inr ''string''
           else bind_result (mysqlKeysetTemporalPrecision column) (\<lambda>_. Inr ''string''))
      else
        let t = normalized_type column in
        if t \<in> set integer_types then Inr ''integer''
        else if t = ''CHAR'' \<or> t = ''VARCHAR'' then
          (case col_characterMaximumLength column of
             None \<Rightarrow> Inl (DatabaseError ErrorInvalid)
           | Some n \<Rightarrow> if \<not> validKeysetCharacterMetadata column \<or> n < 0 \<or> n > int ProtocolMaxCursorStringRunes
                       then Inl (DatabaseError ErrorInvalid) else Inr ''string'')
        else if t = ''BINARY'' \<or> t = ''VARBINARY'' then
          (case col_characterOctetLength column of
             None \<Rightarrow> Inl (DatabaseError ErrorInvalid)
           | Some n \<Rightarrow> if n < 0 \<or> n > int ProtocolMaxCursorBytes then Inl (DatabaseError ErrorInvalid) else Inr ''bytes'')
        else if t = ''DATE'' then Inr ''date''
        else if t = ''DATETIME'' then bind_result (mysqlKeysetTemporalPrecision column) (\<lambda>_. Inr ''datetime'')
        else if t = ''TIMESTAMP'' then bind_result (mysqlKeysetTemporalPrecision column) (\<lambda>_. Inr ''timestamp'')
        else Inl (DatabaseError ErrorInvalid))"

section \<open>Filter values\<close>

definition isMySQLBooleanColumn :: "string \<Rightarrow> bool" where
  "isMySQLBooleanColumn nativeType \<longleftrightarrow>
     (case Fields (ToLower (TrimSpace nativeType)) of
        [] \<Rightarrow> False
      | p # ps \<Rightarrow> p = ''tinyint(1)'' \<and> (ps = [] \<or> ps = [''unsigned'']))"

definition keysetDecimalDefinition :: "keysetSourceColumn \<Rightarrow> adapter_error + nat \<times> nat" where
  "keysetDecimalDefinition column =
     (case (col_numericPrecision column, col_numericScale column) of
        (Some p, Some s) \<Rightarrow>
          if normalized_type column \<notin> {''DECIMAL'', ''NUMERIC''} \<or> p < 1 \<or> p > 65 \<or> s < 0 \<or> s > 30 \<or> s > p
          then Inl (DatabaseError ErrorInvalid) else Inr (nat p, nat s)
      | _ \<Rightarrow> Inl (DatabaseError ErrorInvalid))"

definition keysetFilterTypeCompatible :: "string \<Rightarrow> string \<Rightarrow> keysetSourceColumn \<Rightarrow> bool" where
  "keysetFilterTypeCompatible valueType operator_name column \<longleftrightarrow>
     (let t = normalized_type column in
      if operator_name = ''is_null'' \<or> operator_name = ''is_not_null'' then True
      else if valueType = ''boolean'' then t = ''TINYINT'' \<and> isMySQLBooleanColumn (col_nativeType column)
      else if valueType = ''integer'' then t \<in> set integer_types
      else if valueType = ''decimal'' then (case keysetDecimalDefinition column of Inl _ \<Rightarrow> False | Inr _ \<Rightarrow> True)
      else if valueType = ''string'' then
        validKeysetCharacterMetadata column \<and>
        (t \<in> set (text_types @ [''ENUM'', ''SET'']) \<and> operator_name \<noteq> ''like'' \<or>
         operator_name = ''like'' \<and> t \<in> set text_types)
      else if valueType = ''uuid'' then
        validKeysetCharacterMetadata column \<and> t \<in> set text_types \<and>
        (case col_characterMaximumLength column of None \<Rightarrow> False | Some n \<Rightarrow> n \<ge> 36)
      else if valueType = ''date'' then t = ''DATE''
      else if valueType = ''datetime'' then t = ''DATETIME'' \<or> t = ''TIMESTAMP''
      else if valueType = ''bytes'' then
        t \<in> set [''BINARY'', ''VARBINARY'', ''TINYBLOB'', ''BLOB'', ''MEDIUMBLOB'', ''LONGBLOB'']
      else False)"

fun validateKeysetFilterTypes :: "column_map \<Rightarrow> Filter \<Rightarrow> adapter_error option" where
  "validateKeysetFilterTypes columns (Filter rep kind field op vals exprs) =
     (if kind = ''group'' then first_error (map (validateKeysetFilterTypes columns) exprs)
      else case map_of columns (ToLower field) of
             None \<Rightarrow> Some (DatabaseError ErrorInvalid)
           | Some column \<Rightarrow>
               if rep = RepresentationSourceText then validateSourceTextType (col_dataType column)
               else range_error (\<lambda>_ v. fail_if (\<not> keysetFilterTypeCompatible (tv_Type v) op column)
                      (DatabaseError ErrorInvalid)) (filter_values vals))"

section \<open>Times\<close>

definition time_key :: "Time \<Rightarrow> nat list" where
  "time_key t = [Year t, Month t, Day t, Hour t, Minute t, Second t, Nanosecond t]"

fun lex_less :: "nat list \<Rightarrow> nat list \<Rightarrow> bool" where
  "lex_less (x # xs) (y # ys) \<longleftrightarrow> x < y \<or> x = y \<and> lex_less xs ys"
| "lex_less _ _ \<longleftrightarrow> False"

text \<open>\<open>Before\<close>; \<open>After\<close> is the converse.\<close>

definition Before :: "Time \<Rightarrow> Time \<Rightarrow> bool" where
  "Before t u \<longleftrightarrow> lex_less (time_key t) (time_key u)"

definition utc_date :: "nat \<Rightarrow> nat \<Rightarrow> nat \<Rightarrow> nat \<Rightarrow> nat \<Rightarrow> nat \<Rightarrow> nat \<Rightarrow> Time" where
  "utc_date y mo d h mi s ns =
     \<lparr>Year = y, Month = mo, Day = d, Hour = h, Minute = mi, Second = s, Nanosecond = ns\<rparr>"

definition mysqlDateMinimum :: Time where "mysqlDateMinimum = utc_date 1 1 1 0 0 0 0"
definition mysqlDateMaximum :: Time where "mysqlDateMaximum = utc_date 9999 12 31 0 0 0 0"
definition mysqlDatetimeMinimum :: Time where "mysqlDatetimeMinimum = utc_date 1 1 1 0 0 0 0"
definition mysqlDatetimeMaximum :: Time where "mysqlDatetimeMaximum = utc_date 9999 12 31 23 59 59 499999000"
definition mysqlTimestampMinimum :: Time where "mysqlTimestampMinimum = utc_date 1970 1 1 0 0 1 0"
definition mysqlTimestampMaximum :: Time where "mysqlTimestampMaximum = utc_date 2038 1 19 3 14 7 499999000"

section \<open>Binding cursor values\<close>

text \<open>\<open>strconv.ParseUint\<close> and \<open>strconv.ParseInt\<close> in base 10 for a given width.\<close>

definition parse_uint :: "nat \<Rightarrow> string \<Rightarrow> nat option" where
  "parse_uint bits s =
     (if s = [] \<or> \<not> list_all is_digit s \<or> dec_value s \<ge> 2 ^ bits then None else Some (dec_value s))"

definition parse_int :: "nat \<Rightarrow> string \<Rightarrow> int option" where
  "parse_int bits s =
     (let negative = (s \<noteq> [] \<and> hd s = CHR ''-'');
          ds = (if s \<noteq> [] \<and> (hd s = CHR ''-'' \<or> hd s = CHR ''+'') then tl s else s) in
      case parse_uint bits ds of
        None \<Rightarrow> None
      | Some n \<Rightarrow> if (if negative then n > 2 ^ (bits - 1) else n \<ge> 2 ^ (bits - 1)) then None
                  else Some (if negative then - int n else int n))"

definition integer_bits :: "string \<Rightarrow> nat option" where
  "integer_bits t = map_of
     [(''TINYINT'', 8), (''SMALLINT'', 16), (''MEDIUMINT'', 24), (''INT'', 32), (''INTEGER'', 32), (''BIGINT'', 64)] t"

definition bindKeysetInteger :: "string \<Rightarrow> keysetSourceColumn \<Rightarrow> adapter_error + sql_arg" where
  "bindKeysetInteger value column =
     (case integer_bits (normalized_type column) of
        None \<Rightarrow> Inl (DatabaseError ErrorInvalid)
      | Some bits \<Rightarrow>
          if is_unsigned column then
            (case parse_uint bits value of None \<Rightarrow> Inl (DatabaseError ErrorInvalid) | Some n \<Rightarrow> Inr (ArgInt (int n)))
          else
            (case parse_int bits value of None \<Rightarrow> Inl (DatabaseError ErrorInvalid) | Some i \<Rightarrow> Inr (ArgInt i)))"

definition in_range :: "Time \<Rightarrow> Time \<Rightarrow> Time \<Rightarrow> bool" where
  "in_range low high t \<longleftrightarrow> \<not> Before t low \<and> \<not> Before high t"

definition bindMySQLKeysetTemporalCursor :: "KeysetCursorValue \<Rightarrow> keysetSourceColumn \<Rightarrow> adapter_error + string" where
  "bindMySQLKeysetTemporalCursor cursor column =
     (let t = normalized_type column; v = kc_Value cursor; bad = Inl (DatabaseError ErrorInvalid) in
      if kc_Type cursor = ''date'' then
        (case ParsePortableDate v of
           None \<Rightarrow> bad
         | Some parsed \<Rightarrow> if t \<noteq> ''DATE'' \<or> \<not> in_range mysqlDateMinimum mysqlDateMaximum parsed then bad else Inr v)
      else if kc_Type cursor = ''datetime'' then
        (case (ParsePortableDateTime v, mysqlKeysetTemporalPrecision column) of
           (Some (parsed, digits), Inr precision) \<Rightarrow>
             if t \<noteq> ''DATETIME'' \<or> digits \<noteq> precision \<or> \<not> in_range mysqlDatetimeMinimum mysqlDatetimeMaximum parsed
             then bad else Inr v
         | _ \<Rightarrow> bad)
      else if kc_Type cursor = ''timestamp'' then
        (case (ParsePortableTimestamp v, mysqlKeysetTemporalPrecision column) of
           (Some (parsed, digits), Inr precision) \<Rightarrow>
             if t \<noteq> ''TIMESTAMP'' \<or> digits \<noteq> precision \<or> \<not> in_range mysqlTimestampMinimum mysqlTimestampMaximum parsed
             then bad else Inr (take 10 v @ '' '' @ butlast (drop 11 v))
         | _ \<Rightarrow> bad)
      else bad)"

definition bindKeysetCursor :: "KeysetCursorValue \<Rightarrow> keysetSourceColumn \<Rightarrow> adapter_error + sql_arg" where
  "bindKeysetCursor cursor column =
     (let v = kc_Value cursor; bad = Inl (DatabaseError ErrorInvalid) in
      if col_representation column = RepresentationSourceText then
        (if kc_Type cursor \<noteq> ''string'' \<or> \<not> ValidString v \<or> RuneCountInString v > ProtocolMaxCursorStringRunes
         then bad else Inr (ArgBound (BoundString v)))
      else if kc_Type cursor = ''integer'' then bindKeysetInteger v column
      else if kc_Type cursor = ''string'' then
        (case col_characterMaximumLength column of
           None \<Rightarrow> bad
         | Some n \<Rightarrow> if \<not> validKeysetCharacterMetadata column \<or> \<not> ValidString v \<or> int (RuneCountInString v) > n
                     then bad else Inr (ArgBound (BoundString v)))
      else if kc_Type cursor = ''bytes'' then
        (case b64_decode_strict v of
           None \<Rightarrow> bad
         | Some d \<Rightarrow> if b64_encode d \<noteq> v \<or> int (length d) > null_int (col_characterOctetLength column)
                     then bad else Inr (ArgBound (BoundBytes d)))
      else if kc_Type cursor \<in> {''date'', ''datetime'', ''timestamp''} then
        bind_result (bindMySQLKeysetTemporalCursor cursor column) (\<lambda>s. Inr (ArgBound (BoundString s)))
      else bad)"

definition keysetCursorPlaceholder :: "KeysetCursorValue \<Rightarrow> keysetSourceColumn \<Rightarrow> adapter_error + string" where
  "keysetCursorPlaceholder cursor column =
     (if col_representation column = RepresentationSourceText then Inr ''CAST(? AS BINARY)''
      else if kc_Type cursor = ''string'' then keysetCharacterOperand column
      else if kc_Type cursor = ''date'' then Inr ''CAST(? AS DATE)''
      else if kc_Type cursor = ''datetime'' \<or> kc_Type cursor = ''timestamp'' then
        bind_result (mysqlKeysetTemporalPrecision column) (\<lambda>precision.
          Inr (''CAST(? AS DATETIME('' @ itoa precision @ ''))''))
      else Inr ''?'')"

section \<open>The source of a page\<close>

text \<open>
  The server's answers: the name of the table, if there is one, and the rows of its column metadata with
  the error the row set ends with.
\<close>

record metadata_row =
  mr_schema :: string
  mr_object :: string
  mr_column :: keysetSourceColumn

type_synonym metadata_rows = "(driver_error + metadata_row) list"

definition metadataResourceMismatchError :: adapter_error where
  "metadataResourceMismatchError = DatabaseError ErrorUpstream"

definition invalidSourceError :: adapter_error where
  "invalidSourceError = DatabaseError ErrorInvalid"

fun read_columns ::
  "driver_error option \<Rightarrow> ResourceRef \<Rightarrow> bool \<Rightarrow> string list \<Rightarrow> column_map \<Rightarrow> metadata_rows
     \<Rightarrow> adapter_error + column_map" where
  "read_columns ctxErr src insensitive wanted columns [] = Inr columns"
| "read_columns ctxErr src insensitive wanted columns (Inl e # rows) =
     Inl (DatabaseError (classifyExecutionError ctxErr e))"
| "read_columns ctxErr src insensitive wanted columns (Inr row # rows) =
     (let key = ToLower (col_name (mr_column row)) in
      if \<not> tokenIdentifierMatches (mr_schema row) (ref_Schema src) insensitive \<or>
         \<not> tokenIdentifierMatches (mr_object row) (ref_Name src) insensitive \<or>
         key \<notin> set wanted \<or> map_of columns key \<noteq> None
      then Inl metadataResourceMismatchError
      else read_columns ctxErr src insensitive wanted ((key, mr_column row) # columns) rows)"

definition projection_column ::
  "column_map \<Rightarrow> Selection \<Rightarrow> adapter_error + keysetSourceColumn" where
  "projection_column columns s =
     (case map_of columns (ToLower (sel_Field s)) of
        None \<Rightarrow> Inl (DatabaseError ErrorInvalid)
      | Some column \<Rightarrow>
          check (if sel_Representation s = RepresentationSourceText then validateSourceTextType (col_dataType column) else None)
            (Inr (column\<lparr>col_representation := sel_Representation s\<rparr>)))"

definition key_column :: "column_map \<Rightarrow> Sort \<Rightarrow> adapter_error + keysetSourceColumn \<times> string" where
  "key_column columns order =
     (case map_of columns (ToLower (sort_Field order)) of
        None \<Rightarrow> Inl (DatabaseError ErrorInvalid)
      | Some column \<Rightarrow>
          let column = column\<lparr>col_representation := sort_Representation order\<rparr> in
          if col_nullable column then Inl (DatabaseError ErrorInvalid)
          else bind_result (validateKeysetColumnType column) (\<lambda>kind. Inr (column, kind)))"

fun key_index_from :: "nat \<Rightarrow> nat option \<Rightarrow> string \<Rightarrow> Selection list \<Rightarrow> adapter_error + nat option" where
  "key_index_from i found name [] = Inr found"
| "key_index_from i found name (s # ss) =
     (if EqualFold (sel_Field s) name
      then (if found \<noteq> None then Inl (DatabaseError ErrorInvalid) else key_index_from (Suc i) (Some i) name ss)
      else key_index_from (Suc i) found name ss)"

definition key_index :: "Selection list \<Rightarrow> keysetSourceColumn \<Rightarrow> adapter_error + nat" where
  "key_index projection column =
     bind_result (key_index_from 0 None (col_name column) projection) (\<lambda>found.
       case found of None \<Rightarrow> Inl (DatabaseError ErrorInvalid) | Some i \<Rightarrow> Inr i)"

definition cursor_error :: "string list \<Rightarrow> keysetSourceColumn list \<Rightarrow> KeysetPage \<Rightarrow> adapter_error option" where
  "cursor_error kinds columns page =
     (if kp_Kind page = ''after'' then
        range_error (\<lambda>i v. first_error [
          fail_if (kc_Type v \<noteq> kinds ! i) (DatabaseError ErrorInvalid),
          error_of (bindKeysetCursor v (columns ! i))]) (page_cursor page)
      else None)"

definition resolve_source :: "NormalizedKeysetRequest \<Rightarrow> column_map \<Rightarrow> adapter_error + keysetSource" where
  "resolve_source request columns =
     (let query = nk_Query request in
      bind_result (sequence_results (map (projection_column columns) (ks_Projection query))) (\<lambda>projectionColumns.
      bind_result (sequence_results (map (key_column columns) (ks_OrderBy query))) (\<lambda>keys.
      bind_result (sequence_results (map (key_index (ks_Projection query) \<circ> fst) keys)) (\<lambda>keyIndexes.
      check (cursor_error (map snd keys) (map fst keys) (nk_Page request))
      (Inr \<lparr>src_columns = columns, src_projectionColumns = projectionColumns, src_keyColumns = map fst keys,
            src_keyKinds = map snd keys, src_keyIndexes = keyIndexes\<rparr>)))))"

definition validateKeysetSource ::
  "driver_error option \<Rightarrow> driver_error + (string \<times> string) option \<Rightarrow> driver_error + metadata_rows \<times> driver_error option
     \<Rightarrow> NormalizedKeysetRequest \<Rightarrow> int \<Rightarrow> adapter_error + keysetSource" where
  "validateKeysetSource ctxErr located metadata request lowerCaseTableNames =
     (let insensitive = (lowerCaseTableNames \<noteq> 0); src = ks_Source (nk_Query request);
          referenced = KeysetReferencedFields request;
          query_error = (\<lambda>e. DatabaseError (classifyQueryError ctxErr e)) in
      bind_result (map_error query_error located) (\<lambda>found.
      case found of
        None \<Rightarrow> Inl invalidSourceError
      | Some (actualSchema, actualObject) \<Rightarrow>
          check (fail_if (\<not> tokenIdentifierMatches actualSchema (ref_Schema src) insensitive \<or>
             \<not> tokenIdentifierMatches actualObject (ref_Name src) insensitive) metadataResourceMismatchError)
          (bind_result (map_error query_error metadata) (\<lambda>(rows, rowsErr).
           bind_result (read_columns ctxErr src insensitive (map ToLower referenced) [] rows) (\<lambda>columns.
           check (first_error [
             map_option (\<lambda>e. DatabaseError (classifyExecutionError ctxErr e)) rowsErr,
             fail_if (length columns \<noteq> length referenced) (DatabaseError ErrorInvalid),
             (case ks_Filter (nk_Query request) of None \<Rightarrow> None | Some f \<Rightarrow> validateKeysetFilterTypes columns f)])
           (resolve_source request columns))))))"

lemma validateKeysetSource_Inr:
  assumes "validateKeysetSource ctxErr located metadata request lower = Inr src"
  obtains columns where "resolve_source request columns = Inr src"
  using assms by (auto simp: validateKeysetSource_def Let_def split: option.splits)

end
