(* ===== verification/Keyset_Pages.thy ===== *)
theory Keyset_Pages
  imports Keyset_Columns
begin

text \<open>
  Collecting one page in \<^verbatim>\<open>internal/adapters/mysql8/keyset.go\<close>: the checks of a row, the cursor that continues
  after it, the size of that cursor, and the loop of \<open>collectKeysetRows\<close>, which keeps a row only if the
  response can still be closed, with or without a continuation cursor, inside the byte budget.
\<close>

section \<open>\<open>json.Valid\<close>\<close>

text \<open>
  The scanner of \<^verbatim>\<open>encoding/json\<close>: one state per character, and a stack of open arrays and objects that may
  not grow beyond 10000.
\<close>

datatype scan_state =
    BeginValue | BeginValueOrEmpty | BeginString | BeginStringOrEmpty | EndValue
  | InString | InStringEsc | InStringHex nat
  | Neg | Num0 | Num1 | NumDot | NumDot0 | NumE | NumESign | NumE0
  | InLiteral string

datatype nesting = InArray | InObjectKey | InObjectValue

definition scan_value :: "char \<Rightarrow> nesting list \<Rightarrow> (scan_state \<times> nesting list) option" where
  "scan_value c stack =
     (if c = CHR ''{'' then (if length stack \<ge> 10000 then None else Some (BeginStringOrEmpty, InObjectKey # stack))
      else if c = CHR ''['' then (if length stack \<ge> 10000 then None else Some (BeginValueOrEmpty, InArray # stack))
      else if c = quote_char then Some (InString, stack)
      else if c = CHR ''-'' then Some (Neg, stack)
      else if c = CHR ''0'' then Some (Num0, stack)
      else if c = CHR ''t'' then Some (InLiteral ''rue'', stack)
      else if c = CHR ''f'' then Some (InLiteral ''alse'', stack)
      else if c = CHR ''n'' then Some (InLiteral ''ull'', stack)
      else if is_digit c then Some (Num1, stack)
      else None)"

definition scan_end_value :: "char \<Rightarrow> nesting list \<Rightarrow> (scan_state \<times> nesting list) option" where
  "scan_end_value c stack =
     (if is_json_space c then Some (EndValue, stack)
      else case stack of
             [] \<Rightarrow> None
           | InObjectKey # rest \<Rightarrow> if c = CHR '':'' then Some (BeginValue, InObjectValue # rest) else None
           | InObjectValue # rest \<Rightarrow>
               if c = CHR '','' then Some (BeginString, InObjectKey # rest)
               else if c = CHR ''}'' then Some (EndValue, rest) else None
           | InArray # rest \<Rightarrow>
               if c = CHR '','' then Some (BeginValue, stack)
               else if c = CHR '']'' then Some (EndValue, rest) else None)"

definition scan_string_start :: "char \<Rightarrow> nesting list \<Rightarrow> (scan_state \<times> nesting list) option" where
  "scan_string_start c stack = (if c = quote_char then Some (InString, stack) else None)"

fun scan_step :: "scan_state \<Rightarrow> char \<Rightarrow> nesting list \<Rightarrow> (scan_state \<times> nesting list) option" where
  "scan_step BeginValue c stack = (if is_json_space c then Some (BeginValue, stack) else scan_value c stack)"
| "scan_step BeginValueOrEmpty c stack =
     (if is_json_space c then Some (BeginValueOrEmpty, stack)
      else if c = CHR '']'' then scan_end_value c stack else scan_value c stack)"
| "scan_step BeginString c stack = (if is_json_space c then Some (BeginString, stack) else scan_string_start c stack)"
| "scan_step BeginStringOrEmpty c stack =
     (if is_json_space c then Some (BeginStringOrEmpty, stack)
      else if c = CHR ''}'' then Some (EndValue, tl stack) else scan_string_start c stack)"
| "scan_step EndValue c stack = scan_end_value c stack"
| "scan_step InString c stack =
     (if c = quote_char then Some (EndValue, stack) else if c = bslash then Some (InStringEsc, stack)
      else if byte c < 32 then None else Some (InString, stack))"
| "scan_step InStringEsc c stack =
     (if c \<in> {CHR ''b'', CHR ''f'', CHR ''n'', CHR ''r'', CHR ''t'', bslash, CHR ''/'', quote_char} then Some (InString, stack)
      else if c = CHR ''u'' then Some (InStringHex 3, stack) else None)"
| "scan_step (InStringHex k) c stack =
     (if is_hex c then Some (if k = 0 then InString else InStringHex (k - 1), stack) else None)"
| "scan_step Neg c stack =
     (if c = CHR ''0'' then Some (Num0, stack) else if is_digit c then Some (Num1, stack) else None)"
| "scan_step Num1 c stack =
     (if is_digit c then Some (Num1, stack)
      else if c = CHR ''.'' then Some (NumDot, stack) else if c = CHR ''e'' \<or> c = CHR ''E'' then Some (NumE, stack)
      else scan_end_value c stack)"
| "scan_step Num0 c stack =
     (if c = CHR ''.'' then Some (NumDot, stack) else if c = CHR ''e'' \<or> c = CHR ''E'' then Some (NumE, stack)
      else scan_end_value c stack)"
| "scan_step NumDot c stack = (if is_digit c then Some (NumDot0, stack) else None)"
| "scan_step NumDot0 c stack =
     (if is_digit c then Some (NumDot0, stack) else if c = CHR ''e'' \<or> c = CHR ''E'' then Some (NumE, stack)
      else scan_end_value c stack)"
| "scan_step NumE c stack =
     (if c = CHR ''+'' \<or> c = CHR ''-'' then Some (NumESign, stack)
      else if is_digit c then Some (NumE0, stack) else None)"
| "scan_step NumESign c stack = (if is_digit c then Some (NumE0, stack) else None)"
| "scan_step NumE0 c stack = (if is_digit c then Some (NumE0, stack) else scan_end_value c stack)"
| "scan_step (InLiteral w) c stack =
     (case w of
        [] \<Rightarrow> scan_end_value c stack
      | d # ds \<Rightarrow> if c = d then Some (if ds = [] then EndValue else InLiteral ds, stack) else None)"

definition scan_complete :: "scan_state \<Rightarrow> nesting list \<Rightarrow> bool" where
  "scan_complete s stack \<longleftrightarrow> stack = [] \<and> s \<in> {EndValue, Num0, Num1, NumDot0, NumE0}"

fun json_scan :: "scan_state \<Rightarrow> nesting list \<Rightarrow> string \<Rightarrow> bool" where
  "json_scan s stack [] \<longleftrightarrow> scan_complete s stack"
| "json_scan s stack (c # cs) \<longleftrightarrow>
     (case scan_step s c stack of None \<Rightarrow> False | Some (s', stack') \<Rightarrow> json_scan s' stack' cs)"

definition json_valid :: "string \<Rightarrow> bool" where
  "json_valid s = json_scan BeginValue [] s"

section \<open>Checking a row\<close>

definition valid_integer_cell :: "string \<Rightarrow> bool" where
  "valid_integer_cell s \<longleftrightarrow>
     \<not> (s = [] \<or> hd s = CHR ''+'' \<or> s = ''-0'' \<or> length s > 20 \<or> length s > 1 \<and> hd s = CHR ''0'') \<and>
     \<not> (hd s = CHR ''-'' \<and> (length s = 1 \<or> s ! 1 = CHR ''0'')) \<and>
     list_all is_digit (if hd s = CHR ''-'' then tl s else s)"

definition valid_decimal_cell :: "string \<Rightarrow> bool" where
  "valid_decimal_cell s \<longleftrightarrow>
     (if s = [] \<or> list_ex (\<lambda>c. c \<in> {CHR ''e'', CHR ''E'', CHR ''+''}) s then False
      else
        let (negative, t) = strip_minus s; parts = Split (CHR ''.'') t; whole = hd parts in
        if length parts > 2 \<or> whole = [] \<or> length parts > 1 \<and> parts ! 1 = [] \<or> length whole > 1 \<and> hd whole = CHR ''0''
        then False
        else list_all (list_all is_digit) parts \<and>
          (\<not> negative \<or> list_ex (list_ex (\<lambda>c. c \<noteq> CHR ''0'')) parts))"

definition validKeysetCell :: "string \<Rightarrow> string \<Rightarrow> bool" where
  "validKeysetCell value portableType \<longleftrightarrow>
     (if portableType = ''integer'' then valid_integer_cell value
      else if portableType = ''decimal'' then valid_decimal_cell value
      else if portableType = ''string'' then ValidString value
      else if portableType = ''date'' then ParsePortableDate value \<noteq> None
      else if portableType = ''datetime'' then ParsePortableDateTime value \<noteq> None
      else if portableType = ''time'' then ValidPortableTime value
      else if portableType = ''json'' then ValidString value \<and> json_valid value
      else portableType = ''bytes'')"

definition valid_datetime_cell :: "string \<Rightarrow> keysetSourceColumn \<Rightarrow> Time \<Rightarrow> Time \<Rightarrow> bool" where
  "valid_datetime_cell value column low high \<longleftrightarrow>
     (case (ParsePortableDateTime value, mysqlKeysetTemporalPrecision column) of
        (Some (parsed, digits), Inr precision) \<Rightarrow> digits = precision \<and> in_range low high parsed
      | _ \<Rightarrow> False)"

definition validKeysetSourceTemporalCell :: "string \<Rightarrow> keysetSourceColumn \<Rightarrow> bool" where
  "validKeysetSourceTemporalCell value column \<longleftrightarrow>
     (let t = normalized_type column in
      if col_representation column = RepresentationSourceText then ValidString value
      else if t = ''DATE'' then
        (case ParsePortableDate value of None \<Rightarrow> False | Some d \<Rightarrow> in_range mysqlDateMinimum mysqlDateMaximum d)
      else if t = ''DATETIME'' then valid_datetime_cell value column mysqlDatetimeMinimum mysqlDatetimeMaximum
      else if t = ''TIMESTAMP'' then valid_datetime_cell value column mysqlTimestampMinimum mysqlTimestampMaximum
      else if t = ''TIME'' then
        ValidPortableTime value \<and>
        (case Cut (CHR ''.'') value of None \<Rightarrow> True | Some (_, fraction) \<Rightarrow> length fraction \<le> 6)
      else True)"

definition validateKeysetRow :: "raw_row \<Rightarrow> ResultColumn list \<Rightarrow> keysetSource \<Rightarrow> adapter_error option" where
  "validateKeysetRow raw columns src = first_error [
     fail_if (length raw \<noteq> length columns \<or> length (src_projectionColumns src) \<noteq> length columns) (DatabaseError ErrorUpstream),
     range_error (\<lambda>_ (value, column, source_column).
       case value of
         None \<Rightarrow> fail_if (\<not> rc_Nullable column) (DatabaseError ErrorUpstream)
       | Some v \<Rightarrow> fail_if (\<not> validKeysetCell v (rc_Type column) \<or> \<not> validKeysetSourceTemporalCell v source_column)
                     (DatabaseError ErrorUpstream))
       (zip raw (zip columns (src_projectionColumns src))),
     range_error (\<lambda>_ i. fail_if (raw ! i = None) (DatabaseError ErrorUpstream)) (src_keyIndexes src)]"

definition keysetCharacterGuardCount :: "keysetSource \<Rightarrow> nat" where
  "keysetCharacterGuardCount src = length (filter (\<lambda>(i, kind).
     kind = ''string'' \<and> (i \<ge> length (src_keyColumns src) \<or>
       col_representation (src_keyColumns src ! i) \<noteq> RepresentationSourceText)) (enumerate 0 (src_keyKinds src)))"

section \<open>The continuation cursor\<close>

definition mysqlKeysetCursorText :: "string \<Rightarrow> string \<Rightarrow> string option" where
  "mysqlKeysetCursorText value kind =
     (if kind = ''date'' then (if ParsePortableDate value = None then None else Some value)
      else if kind = ''datetime'' then (if ParsePortableDateTime value = None then None else Some value)
      else if kind = ''timestamp'' then
        (if ParsePortableDateTime value = None then None
         else
           let result = take 10 value @ ''T'' @ drop 11 value @ ''Z'' in
           if ParsePortableTimestamp result = None then None else Some result)
      else Some value)"

definition raw_bytes :: "string option \<Rightarrow> string" where
  "raw_bytes raw = (case raw of None \<Rightarrow> [] | Some v \<Rightarrow> v)"

definition cursor_value :: "string option \<Rightarrow> string \<Rightarrow> string option" where
  "cursor_value raw kind =
     (if kind = ''bytes'' then Some (b64_encode (raw_bytes raw)) else mysqlKeysetCursorText (raw_bytes raw) kind)"

definition materializeKeysetCursor :: "raw_row \<Rightarrow> keysetSource \<Rightarrow> adapter_error + KeysetCursorValue list" where
  "materializeKeysetCursor raw src = sequence_results (map (\<lambda>(i, kind).
     case cursor_value (raw ! i) kind of
       None \<Rightarrow> Inl (DatabaseError ErrorUpstream)
     | Some v \<Rightarrow> Inr \<lparr>kc_Type = kind, kc_Value = v\<rparr>) (zip (src_keyIndexes src) (src_keyKinds src)))"

definition encodedJSONStringLiteralSize :: "string \<Rightarrow> int" where
  "encodedJSONStringLiteralSize value =
     (case encodedMetadataJSONStringSize value (2 ^ 63 - 1) of None \<Rightarrow> 0 | Some n \<Rightarrow> n)"

definition cursor_value_size :: "string option \<Rightarrow> string \<Rightarrow> int \<Rightarrow> int option" where
  "cursor_value_size raw kind remaining =
     (if kind = ''bytes'' then Some (2 + int (b64_encoded_len (length (raw_bytes raw))))
      else case mysqlKeysetCursorText (raw_bytes raw) kind of
             None \<Rightarrow> None
           | Some text \<Rightarrow> encodedJSONStringSize text remaining)"

fun cursor_size_loop :: "bool \<Rightarrow> int \<Rightarrow> (string option \<times> string) list \<Rightarrow> int \<Rightarrow> int option" where
  "cursor_size_loop first cur [] maximum = Some cur"
| "cursor_size_loop first cur ((raw, kind) # rest) maximum =
     (case cursor_value_size raw kind (maximum - cur) of
        None \<Rightarrow> None
      | Some valueSize \<Rightarrow>
          let itemSize = 18 + encodedJSONStringLiteralSize kind + valueSize + (if first then 0 else 1) in
          case addEncodedSize cur itemSize maximum of
            None \<Rightarrow> None
          | Some cur' \<Rightarrow> cursor_size_loop False cur' rest maximum)"

definition key_cells :: "raw_row \<Rightarrow> keysetSource \<Rightarrow> (string option \<times> string) list" where
  "key_cells raw src = map (\<lambda>(i, kind). (raw ! i, kind)) (zip (src_keyIndexes src) (src_keyKinds src))"

definition encodedKeysetCursorSize :: "raw_row \<Rightarrow> keysetSource \<Rightarrow> int \<Rightarrow> int option" where
  "encodedKeysetCursorSize raw src maximum =
     (if maximum < 0 then None else cursor_size_loop True 0 (key_cells raw src) maximum)"

section \<open>The loop\<close>

record KeysetSelectResult =
  kq_Columns :: "ResultColumn list"
  kq_Rows :: "string option list list"
  kq_RowCount :: int
  kq_HasMore :: bool
  kq_NextCursor :: "KeysetCursorValue list"
  kq_ResultBytes :: int

record page_state =
  pg_rows :: "string option list list"
  pg_finalSize :: int
  pg_lastSafeMoreSize :: int
  pg_lastSafeCursor :: "KeysetCursorValue list"
  pg_provisional :: bool
  pg_provisionalPreviousSize :: int
  pg_moreObserved :: bool

fun digit_loop :: "nat \<Rightarrow> nat" where
  "digit_loop n = (if n = 0 then 0 else Suc (digit_loop (n div 10)))"

declare digit_loop.simps [simp del]

definition decimalDigits :: "nat \<Rightarrow> int" where
  "decimalDigits n = (if n = 0 then 1 else int (digit_loop n))"

text \<open>\<open>Scan\<close> fails when a row does not have one value per destination.\<close>

definition scan_row :: "nat \<Rightarrow> fetched \<Rightarrow> driver_error + raw_row" where
  "scan_row width row =
     (case row of
        ScanFailed e \<Rightarrow> Inl e
      | Fetched raw \<Rightarrow> if length raw = width then Inr raw else Inl OtherError)"

definition page_row ::
  "ResultColumn list \<Rightarrow> keysetSource \<Rightarrow> int \<Rightarrow> int \<Rightarrow> int \<Rightarrow> page_state \<Rightarrow> raw_row \<Rightarrow> adapter_error + page_state" where
  "page_row columns src finalBase moreBase maximum st raw =
     (let rowCount = length (pg_rows st);
          separator = (if pg_rows st = [] then 0 else 1);
          rowCountGrowth = decimalDigits (rowCount + 1) - decimalDigits rowCount;
          remaining = maximum - pg_finalSize st - separator - rowCountGrowth in
      case encodedRowSize raw columns remaining of
        None \<Rightarrow> Inr (st\<lparr>pg_moreObserved := True\<rparr>)
      | Some rowSize \<Rightarrow>
          let nextFinalSize = pg_finalSize st + separator + rowCountGrowth + rowSize;
              rowsSize = nextFinalSize - finalBase;
              st' = st\<lparr>pg_rows := pg_rows st @ [materialize columns raw],
                      pg_provisionalPreviousSize := pg_finalSize st, pg_finalSize := nextFinalSize\<rparr> in
          case encodedKeysetCursorSize raw src (maximum - moreBase - rowsSize) of
            None \<Rightarrow> Inr (st'\<lparr>pg_provisional := True\<rparr>)
          | Some cursorSize \<Rightarrow>
              let moreSize = moreBase + rowsSize + cursorSize in
              if moreSize \<le> maximum then
                bind_result (materializeKeysetCursor raw src) (\<lambda>cursor.
                  Inr (st'\<lparr>pg_lastSafeMoreSize := moreSize, pg_lastSafeCursor := cursor\<rparr>))
              else Inr (st'\<lparr>pg_provisional := True\<rparr>))"

fun page_loop ::
  "driver_error option \<Rightarrow> int \<Rightarrow> ResultColumn list \<Rightarrow> keysetSource \<Rightarrow> int \<Rightarrow> int \<Rightarrow> int \<Rightarrow> page_state \<Rightarrow> fetched list
     \<Rightarrow> adapter_error + page_state" where
  "page_loop ctxErr limit columns src finalBase moreBase maximum st [] = Inr st"
| "page_loop ctxErr limit columns src finalBase moreBase maximum st (row # rows) =
     (if pg_provisional st \<or> int (length (pg_rows st)) = limit then Inr (st\<lparr>pg_moreObserved := True\<rparr>)
      else
        bind_result (map_error (classifyKeysetCharacterError ctxErr)
          (scan_row (length columns + keysetCharacterGuardCount src) row)) (\<lambda>values_read.
        check (first_error [
          validateKeysetCharacterGuards (drop (length columns) values_read),
          validateKeysetRow (take (length columns) values_read) columns src])
        (bind_result (page_row columns src finalBase moreBase maximum st (take (length columns) values_read)) (\<lambda>st'.
           if pg_moreObserved st' then Inr st'
           else page_loop ctxErr limit columns src finalBase moreBase maximum st' rows))))"

definition page_start :: "int \<Rightarrow> page_state" where
  "page_start finalBase = \<lparr>pg_rows = [], pg_finalSize = finalBase, pg_lastSafeMoreSize = 0, pg_lastSafeCursor = [],
     pg_provisional = False, pg_provisionalPreviousSize = 0, pg_moreObserved = False\<rparr>"

definition page_result :: "ResultColumn list \<Rightarrow> page_state \<Rightarrow> adapter_error + KeysetSelectResult \<times> bool" where
  "page_result columns st =
     (if pg_moreObserved st then
        let rows = (if pg_provisional st then butlast (pg_rows st) else pg_rows st) in
        if rows = [] \<or> pg_lastSafeMoreSize st = 0 \<or> pg_lastSafeCursor st = [] then Inl (DatabaseError ErrorResultTooLarge)
        else Inr (\<lparr>kq_Columns = columns, kq_Rows = rows, kq_RowCount = int (length rows), kq_HasMore = True,
               kq_NextCursor = pg_lastSafeCursor st, kq_ResultBytes = pg_lastSafeMoreSize st\<rparr>, True)
      else Inr (\<lparr>kq_Columns = columns, kq_Rows = pg_rows st, kq_RowCount = int (length (pg_rows st)), kq_HasMore = False,
             kq_NextCursor = [], kq_ResultBytes = pg_finalSize st\<rparr>, False))"

text \<open>The second component tells whether rows were left unread; a failure carries no result.\<close>

definition collectKeysetRows ::
  "driver_error option \<Rightarrow> fetched list \<Rightarrow> driver_error option \<Rightarrow> int \<Rightarrow> ResultColumn list \<Rightarrow> keysetSource \<Rightarrow> int \<Rightarrow> int \<Rightarrow> int
     \<Rightarrow> adapter_error + KeysetSelectResult \<times> bool" where
  "collectKeysetRows ctxErr rows rowsErr limit columns src finalBase moreBase maximum =
     bind_result (page_loop ctxErr limit columns src finalBase moreBase maximum (page_start finalBase) rows) (\<lambda>st.
       check (map_option (classifyKeysetCharacterError ctxErr) rowsErr) (page_result columns st))"

section \<open>Sources as the validator builds them\<close>

definition keyset_kinds :: "string list" where
  "keyset_kinds = [''integer'', ''string'', ''bytes'', ''date'', ''datetime'', ''timestamp'']"

definition keyed_source :: "ResultColumn list \<Rightarrow> keysetSource \<Rightarrow> bool" where
  "keyed_source columns src \<longleftrightarrow>
     length (src_keyIndexes src) = length (src_keyKinds src) \<and> src_keyKinds src \<noteq> [] \<and>
     set (src_keyKinds src) \<subseteq> set keyset_kinds \<and> (\<forall>i \<in> set (src_keyIndexes src). i < length columns)"

lemma validateKeysetColumnType_kind: "validateKeysetColumnType column = Inr kind \<Longrightarrow> kind \<in> set keyset_kinds"
  by (auto simp: validateKeysetColumnType_def keyset_kinds_def Let_def split: if_splits option.splits)

lemma key_index_from_less:
  "key_index_from i found name ss = Inr (Some k) \<Longrightarrow> (case found of None \<Rightarrow> True | Some j \<Rightarrow> j < i) \<Longrightarrow> k < i + length ss"
proof (induction ss arbitrary: i found)
  case (Cons s ss)
  then show ?case
    using Cons.IH [of "Suc i" "Some i"] Cons.IH [of "Suc i" found] by (auto split: if_splits option.splits)
qed (auto split: option.splits)

lemma key_index_less: "key_index projection column = Inr k \<Longrightarrow> k < length projection"
  using key_index_from_less [of 0 None "col_name column" projection k] by (auto simp: key_index_def split: option.splits)

lemma key_column_kind: "key_column columns order = Inr (column, kind) \<Longrightarrow> kind \<in> set keyset_kinds"
  using validateKeysetColumnType_kind by (fastforce simp: key_column_def Let_def split: option.splits if_splits)

lemma validateKeysetSource_keyed:
  assumes "validateKeysetSource ctxErr located metadata request lower = Inr src"
    and "ks_OrderBy (nk_Query request) \<noteq> []" and "length columns = length (ks_Projection (nk_Query request))"
  shows "keyed_source columns src \<and> length (src_projectionColumns src) = length columns \<and>
    length (src_keyColumns src) = length (src_keyKinds src)"
proof -
  let ?query = "nk_Query request"
  from assms(1) obtain cols where "resolve_source request cols = Inr src" by (rule validateKeysetSource_Inr)
  then obtain keys indexes where
    p: "map (projection_column cols) (ks_Projection ?query) = map Inr (src_projectionColumns src)" and
    k: "map (key_column cols) (ks_OrderBy ?query) = map Inr keys" and
    i: "map (key_index (ks_Projection ?query) \<circ> fst) keys = map Inr indexes" and
    src: "src_keyColumns src = map fst keys" "src_keyKinds src = map snd keys" "src_keyIndexes src = indexes"
    by (auto simp: resolve_source_def Let_def sequence_results_Inr)
  have len: "length (src_projectionColumns src) = length columns" "length keys = length (ks_OrderBy ?query)" "length indexes = length keys"
    using p k i assms(3) by (metis length_map)+
  have "\<forall>i < length indexes. indexes ! i < length columns"
    using i len(3) key_index_less assms(3) by (metis (no_types, lifting) comp_apply nth_map length_map)
  moreover have "snd ` set keys \<subseteq> set keyset_kinds"
    using k len(2) key_column_kind by (force simp: in_set_conv_nth list_eq_iff_nth_eq)
  ultimately show ?thesis
    using len assms(2) by (auto simp: keyed_source_def src all_set_conv_all_nth)
qed

section \<open>The size of a cursor\<close>

definition marshal_cursor_value :: "KeysetCursorValue \<Rightarrow> string" where
  "marshal_cursor_value c = json_object [(''type'', json_quote (kc_Type c)), (''value'', json_quote (kc_Value c))]"

definition cursor_text :: "KeysetCursorValue list \<Rightarrow> string" where
  "cursor_text cs = comma_separated (map marshal_cursor_value cs)"

lemma keyset_kind_words: "kind \<in> set keyset_kinds \<Longrightarrow> list_all is_word kind \<and> length kind \<le> 9"
proof -
  have "list_all (\<lambda>kind. list_all is_word kind \<and> length kind \<le> 9) keyset_kinds" by code_simp
  then show "kind \<in> set keyset_kinds \<Longrightarrow> ?thesis" by (simp add: list_all_iff)
qed

lemma literal_size: "kind \<in> set keyset_kinds \<Longrightarrow> encodedJSONStringLiteralSize kind = int (length (json_quote kind))"
  using keyset_kind_words [of kind]
  by (simp add: encodedJSONStringLiteralSize_def metadata_counter.exact fitting_def length_json_quote_word)

lemma length_marshal_cursor_value:
  "int (length (marshal_cursor_value c)) = 18 + int (length (json_quote (kc_Type c))) + int (length (json_quote (kc_Value c)))"
proof -
  have "list_all is_word ''value'' \<and> list_all is_word ''type''" by code_simp
  then show ?thesis by (simp add: marshal_cursor_value_def json_object_def comma_separated_def length_json_quote_word)
qed

lemma json_quote_b64: "int (length (json_quote (b64_encode s))) = 2 + int (b64_encoded_len (length s))"
  by (simp add: json_quote_def json_escape_plain plain_b64 length_b64_encode)

text \<open>The cursor a row continues from, one value per key column.\<close>

definition cursor_cell :: "string option \<times> string \<Rightarrow> KeysetCursorValue option" where
  "cursor_cell p = (case p of (raw, kind) \<Rightarrow> map_option (\<lambda>v. \<lparr>kc_Type = kind, kc_Value = v\<rparr>) (cursor_value raw kind))"

lemma materializeKeysetCursor_iff:
  "materializeKeysetCursor raw src = Inr cs \<longleftrightarrow> map cursor_cell (key_cells raw src) = map Some cs"
proof -
  have eq: "(case cursor_value (raw ! i) kind of None \<Rightarrow> Inl (DatabaseError ErrorUpstream) :: adapter_error + KeysetCursorValue | Some v \<Rightarrow> Inr \<lparr>kc_Type = kind, kc_Value = v\<rparr>)
      = (case cursor_cell (raw ! i, kind) of None \<Rightarrow> Inl (DatabaseError ErrorUpstream) | Some c \<Rightarrow> Inr c)" for i kind
    by (simp add: cursor_cell_def split: option.splits)
  have "map (\<lambda>p. case f p of None \<Rightarrow> Inl e | Some c \<Rightarrow> Inr c) ps = map Inr cs \<longleftrightarrow> map f ps = map Some cs"
    for f :: "nat \<times> string \<Rightarrow> KeysetCursorValue option" and e :: adapter_error and ps cs
    by (induction ps arbitrary: cs) (auto simp: Cons_eq_map_conv split: option.splits)
  from this [of "DatabaseError ErrorUpstream" "\<lambda>(i, kind). cursor_cell (raw ! i, kind)" "zip (src_keyIndexes src) (src_keyKinds src)" cs]
  show ?thesis
    by (simp add: materializeKeysetCursor_def sequence_results_Inr eq key_cells_def case_prod_unfold comp_def)
qed

lemma cursor_value_size_cell:
  assumes "cursor_cell (raw, kind) = Some c" "0 \<le> cur" "kind \<in> set keyset_kinds" "0 \<le> sep"
  shows "(case cursor_value_size raw kind (budget - cur) of
       None \<Rightarrow> None
     | Some n \<Rightarrow> (case addEncodedSize cur (18 + encodedJSONStringLiteralSize kind + n + sep) budget of None \<Rightarrow> None | Some acc \<Rightarrow> k acc)) =
    (if cur + int (length (marshal_cursor_value c)) + sep \<le> budget then k (cur + int (length (marshal_cursor_value c)) + sep) else None)"
proof -
  from assms(1) have c: "kc_Type c = kind" "cursor_value raw kind = Some (kc_Value c)" by (auto simp: cursor_cell_def)
  show ?thesis
  proof (cases "kind = ''bytes''")
    case True
    with c have "kc_Value c = b64_encode (raw_bytes raw)" by (simp add: cursor_value_def)
    with True assms c(1) show ?thesis
      by (auto simp: cursor_value_size_def literal_size length_marshal_cursor_value json_quote_b64 addEncodedSize_def algebra_simps)
  next
    case False
    with c have "mysqlKeysetCursorText (raw_bytes raw) kind = Some (kc_Value c)" by (simp add: cursor_value_def)
    with False assms c(1) show ?thesis
      by (auto simp: cursor_value_size_def literal_size length_marshal_cursor_value string_counter.exact fitting_def addEncodedSize_def algebra_simps)
  qed
qed

lemma cursor_size_loop_exact:
  assumes "map cursor_cell cells = map Some cs" "0 \<le> cur" "\<forall>p \<in> set cells. snd p \<in> set keyset_kinds" "cur \<le> budget"
  shows "cursor_size_loop first cur cells budget = fitting (cur + int (sum_list (map (\<lambda>c. 1 + length (marshal_cursor_value c)) cs))
    - (if first \<and> cs \<noteq> [] then 1 else 0)) budget"
  using assms
proof (induction cells arbitrary: first cur cs)
  case (Cons p cells)
  obtain raw kind where p: "p = (raw, kind)" by (cases p)
  from Cons.prems(1) obtain c cs' where cs: "cs = c # cs'" "cursor_cell (raw, kind) = Some c" "map cursor_cell cells = map Some cs'"
    by (cases cs) (auto simp: p)
  let ?next = "cur + int (length (marshal_cursor_value c)) + (if first then 0 else 1)"
  have "cursor_size_loop first cur (p # cells) budget =
      (if ?next \<le> budget then cursor_size_loop False ?next cells budget else None)"
    unfolding p cursor_size_loop.simps Let_def using Cons.prems(2,3) by (intro cursor_value_size_cell [OF cs(2)]) (simp_all add: p)
  moreover have "?next \<le> budget \<Longrightarrow> cursor_size_loop False ?next cells budget =
      fitting (?next + int (sum_list (map (\<lambda>c. 1 + length (marshal_cursor_value c)) cs'))) budget"
    using Cons.IH [OF cs(3), of ?next False] Cons.prems by simp
  ultimately show ?case by (auto simp: cs(1) fitting_def)
qed (simp add: fitting_def)

lemma length_cursor_text:
  "int (length (cursor_text cs)) = int (sum_list (map (\<lambda>c. 1 + length (marshal_cursor_value c)) cs)) - (if cs \<noteq> [] then 1 else 0)"
  by (cases cs) (simp_all add: cursor_text_def comma_separated_def length_join_comma comp_def)

lemma cursor_value_size_None: "cursor_cell (raw, kind) = None \<Longrightarrow> cursor_value_size raw kind budget = None"
  by (auto simp: cursor_cell_def cursor_value_def cursor_value_size_def split: if_splits)

lemma cursor_size_loop_None:
  "None \<in> cursor_cell ` set cells \<Longrightarrow> cursor_size_loop first cur cells budget = None"
proof (induction cells arbitrary: first cur)
  case (Cons p cells)
  obtain raw kind where p: "p = (raw, kind)" by (cases p)
  from Cons.prems consider "cursor_cell (raw, kind) = None" | "None \<in> cursor_cell ` set cells" by (auto simp: p)
  then show ?case
    using Cons.IH by cases (simp_all add: p cursor_value_size_None Let_def split: option.splits)
qed simp

lemma encodedKeysetCursorSize_exact:
  assumes "keyed_source columns src"
  shows "encodedKeysetCursorSize raw src budget =
    (case materializeKeysetCursor raw src of Inl _ \<Rightarrow> None | Inr cs \<Rightarrow> fitting (int (length (cursor_text cs))) budget)"
proof (cases "materializeKeysetCursor raw src")
  case (Inl e)
  have "None \<in> cursor_cell ` set (key_cells raw src)"
  proof (rule ccontr)
    assume "None \<notin> cursor_cell ` set (key_cells raw src)"
    then have "map cursor_cell (key_cells raw src) = map Some (map (the \<circ> cursor_cell) (key_cells raw src))"
      by (simp add: image_iff) (metis option.collapse)
    with Inl show False by (metis materializeKeysetCursor_iff Inl_Inr_False)
  qed
  then show ?thesis by (simp add: Inl encodedKeysetCursorSize_def cursor_size_loop_None)
next
  case (Inr cs)
  then have "map cursor_cell (key_cells raw src) = map Some cs" by (simp add: materializeKeysetCursor_iff)
  moreover have "\<forall>p \<in> set (key_cells raw src). snd p \<in> set keyset_kinds"
    using assms by (auto simp: key_cells_def keyed_source_def dest: set_zip_rightD)
  ultimately have "0 \<le> budget \<Longrightarrow> cursor_size_loop True 0 (key_cells raw src) budget = fitting (int (length (cursor_text cs))) budget"
    using cursor_size_loop_exact [of "key_cells raw src" cs 0 budget True] by (simp add: length_cursor_text)
  then show ?thesis by (auto simp: Inr encodedKeysetCursorSize_def fitting_def)
qed

interpretation cursor_counter: byte_counter "\<lambda>(raw, src). encodedKeysetCursorSize raw src"
  "\<lambda>(raw, src). case materializeKeysetCursor raw src of Inl _ \<Rightarrow> [] | Inr cs \<Rightarrow> cursor_text cs"
  "\<lambda>(raw, src). (\<exists>columns. keyed_source columns src) \<and> (\<exists>cs. materializeKeysetCursor raw src = Inr cs)"
  by unfold_locales (auto simp: encodedKeysetCursorSize_exact split: sum.splits)

section \<open>The loop keeps a closable page\<close>

text \<open>What a page adds to its envelope: the rows with their separators and the digits of the row count.\<close>

definition page_bytes :: "int \<Rightarrow> string option list list \<Rightarrow> int" where
  "page_bytes base rows = base + int (length (rows_text rows)) + (decimalDigits (length rows) - decimalDigits 0)"

lemma page_bytes_Nil [simp]: "page_bytes base [] = base"
  by (simp add: page_bytes_def rows_text_def comma_separated_def)

lemma page_bytes_snoc:
  "page_bytes base (rows @ [row]) = page_bytes base rows + (if rows = [] then 0 else 1) +
     (decimalDigits (length rows + 1) - decimalDigits (length rows)) + int (length (json_row row))"
  by (simp add: page_bytes_def length_rows_text_snoc)

definition visible :: "ResultColumn list \<Rightarrow> fetched \<Rightarrow> raw_row" where
  "visible columns row = (case row of Fetched raw \<Rightarrow> take (length columns) raw | ScanFailed _ \<Rightarrow> [])"

definition safe_point :: "ResultColumn list \<Rightarrow> keysetSource \<Rightarrow> int \<Rightarrow> int \<Rightarrow> raw_row list \<Rightarrow> page_state \<Rightarrow> bool" where
  "safe_point columns src moreBase maximum kept st \<longleftrightarrow>
     (if kept = [] then pg_lastSafeCursor st = [] \<and> pg_lastSafeMoreSize st = 0
      else materializeKeysetCursor (last kept) src = Inr (pg_lastSafeCursor st) \<and>
        pg_lastSafeMoreSize st = page_bytes moreBase (map (materialize columns) kept) + int (length (cursor_text (pg_lastSafeCursor st))) \<and>
        pg_lastSafeMoreSize st \<le> maximum)"

definition kept_rows :: "page_state \<Rightarrow> 'a list \<Rightarrow> 'a list" where
  "kept_rows st taken = (if pg_provisional st then butlast taken else taken)"

definition page_inv ::
  "ResultColumn list \<Rightarrow> keysetSource \<Rightarrow> int \<Rightarrow> int \<Rightarrow> int \<Rightarrow> raw_row list \<Rightarrow> page_state \<Rightarrow> bool" where
  "page_inv columns src finalBase moreBase maximum taken st \<longleftrightarrow>
     pg_rows st = map (materialize columns) taken \<and> pg_finalSize st = page_bytes finalBase (pg_rows st) \<and>
     pg_finalSize st \<le> maximum \<and> (pg_provisional st \<longrightarrow> taken \<noteq> []) \<and>
     safe_point columns src moreBase maximum (kept_rows st taken) st"

lemma page_inv_moreObserved [simp]:
  "page_inv columns src finalBase moreBase maximum taken (st\<lparr>pg_moreObserved := b\<rparr>) =
     page_inv columns src finalBase moreBase maximum taken st"
  by (simp add: page_inv_def safe_point_def kept_rows_def)

lemma page_row_step:
  assumes inv: "page_inv columns src finalBase moreBase maximum taken st" "\<not> pg_provisional st" "\<not> pg_moreObserved st"
    and src: "keyed_source columns src" "length raw = length columns"
  shows "\<exists>st'. page_row columns src finalBase moreBase maximum st raw = Inr st' \<and>
    (if page_bytes finalBase (pg_rows st @ [materialize columns raw]) > maximum then st' = st\<lparr>pg_moreObserved := True\<rparr>
     else \<not> pg_moreObserved st' \<and> page_inv columns src finalBase moreBase maximum (taken @ [raw]) st' \<and>
       (pg_provisional st' \<longleftrightarrow> \<not> (\<exists>cs. materializeKeysetCursor raw src = Inr cs \<and>
         page_bytes moreBase (pg_rows st @ [materialize columns raw]) + int (length (cursor_text cs)) \<le> maximum)))"
proof -
  let ?rows = "pg_rows st @ [materialize columns raw]"
  let ?len = "int (length (json_row (materialize columns raw)))"
  let ?grow = "(if pg_rows st = [] then 0 else 1) + (decimalDigits (length (pg_rows st) + 1) - decimalDigits (length (pg_rows st)))"
  have fin: "page_bytes finalBase ?rows = pg_finalSize st + ?grow + ?len"
    using inv(1) by (simp add: page_inv_def page_bytes_snoc)
  have more: "page_bytes moreBase ?rows = moreBase + (page_bytes finalBase ?rows - finalBase)"
    by (simp add: page_bytes_def)
  note unfold = page_row_def Let_def row_counter.exact [OF src(2)] encodedKeysetCursorSize_exact [OF src(1)] fitting_def
  note inv_defs = page_inv_def safe_point_def kept_rows_def
  show ?thesis
  proof (cases "page_bytes finalBase ?rows > maximum")
    case True
    then show ?thesis using fin by (simp add: unfold)
  next
    case False
    show ?thesis
    proof (cases "\<exists>cs. materializeKeysetCursor raw src = Inr cs \<and> page_bytes moreBase ?rows + int (length (cursor_text cs)) \<le> maximum")
      case True
      then obtain cs where "materializeKeysetCursor raw src = Inr cs" "page_bytes moreBase ?rows + int (length (cursor_text cs)) \<le> maximum"
        by blast
      with False fin more inv show ?thesis by (simp add: unfold inv_defs algebra_simps)
    next
      case no: False
      with False fin more inv show ?thesis
        by (cases "materializeKeysetCursor raw src") (auto simp: unfold inv_defs algebra_simps split: if_splits)
    qed
  qed
qed

lemma page_loop_exact:
  assumes "page_loop ctxErr limit columns src finalBase moreBase maximum st rows = Inr st'"
    and "page_inv columns src finalBase moreBase maximum taken st" "\<not> pg_moreObserved st" "int (length taken) \<le> limit"
    and "keyed_source columns src"
  shows "\<exists>n \<le> length rows. page_inv columns src finalBase moreBase maximum (taken @ map (visible columns) (take n rows)) st' \<and>
    (pg_moreObserved st' \<longleftrightarrow> n < length rows) \<and> int (length taken + n) \<le> limit \<and>
    length (kept_rows st taken) \<le> length (kept_rows st' (taken @ map (visible columns) (take n rows)))"
  using assms
proof (induction rows arbitrary: st taken)
  case Nil
  then show ?case by auto
next
  case (Cons row rows)
  show ?case
  proof (cases "pg_provisional st \<or> int (length (pg_rows st)) = limit")
    case True
    with Cons.prems have "st' = st\<lparr>pg_moreObserved := True\<rparr>" by simp
    with Cons.prems show ?thesis by (intro exI [of _ 0]) (auto simp: kept_rows_def)
  next
    case False
    have room: "int (length taken) < limit" using False Cons.prems(2,4) by (auto simp: page_inv_def)
    from False Cons.prems(1) obtain raw st1 where raw: "row = Fetched raw" "length raw = length columns + keysetCharacterGuardCount src"
      and step: "page_row columns src finalBase moreBase maximum st (take (length columns) raw) = Inr st1"
      and rest: "(if pg_moreObserved st1 then Inr st1 else page_loop ctxErr limit columns src finalBase moreBase maximum st1 rows) = Inr st'"
      by (auto simp: scan_row_def split: fetched.splits if_splits)
    have vis: "visible columns row = take (length columns) raw" by (simp add: visible_def raw)
    from page_row_step [OF Cons.prems(2) _ Cons.prems(3,5), of "take (length columns) raw"] False step raw(2)
    consider "st1 = st\<lparr>pg_moreObserved := True\<rparr>"
      | "\<not> pg_moreObserved st1" "page_inv columns src finalBase moreBase maximum (taken @ [take (length columns) raw]) st1"
      by (auto split: if_splits)
    then show ?thesis
    proof cases
      case 1
      with rest Cons.prems show ?thesis by (intro exI [of _ 0]) (auto simp: kept_rows_def)
    next
      case 2
      from 2(1) rest have "page_loop ctxErr limit columns src finalBase moreBase maximum st1 rows = Inr st'" by simp
      from Cons.IH [OF this 2(2,1) _ Cons.prems(5)] room obtain n where n: "n \<le> length rows"
        "page_inv columns src finalBase moreBase maximum (taken @ map (visible columns) (take (Suc n) (row # rows))) st'"
        "pg_moreObserved st' \<longleftrightarrow> n < length rows" "int (length taken + Suc n) \<le> limit"
        "length (kept_rows st1 (taken @ [take (length columns) raw])) \<le> length (kept_rows st' (taken @ map (visible columns) (take (Suc n) (row # rows))))"
        by (auto simp: vis)
      moreover have "length (kept_rows st taken) \<le> length (kept_rows st1 (taken @ [take (length columns) raw]))"
        using False by (simp add: kept_rows_def)
      ultimately show ?thesis by (intro exI [of _ "Suc n"]) auto
    qed
  qed
qed

lemma page_start_inv: "finalBase \<le> maximum \<Longrightarrow> page_inv columns src finalBase moreBase maximum [] (page_start finalBase)"
  by (simp add: page_inv_def page_start_def safe_point_def kept_rows_def)

definition exact_page ::
  "ResultColumn list \<Rightarrow> keysetSource \<Rightarrow> int \<Rightarrow> int \<Rightarrow> int \<Rightarrow> fetched list \<Rightarrow> nat \<Rightarrow> KeysetSelectResult \<Rightarrow> bool" where
  "exact_page columns src finalBase moreBase maximum rows n r \<longleftrightarrow>
     kq_Rows r = map (materialize columns \<circ> visible columns) (take n rows) \<and> kq_RowCount r = int n \<and>
     kq_ResultBytes r \<le> maximum \<and> (kq_HasMore r \<longleftrightarrow> n < length rows) \<and>
     (if kq_HasMore r
      then 0 < n \<and> materializeKeysetCursor (visible columns (rows ! (n - 1))) src = Inr (kq_NextCursor r) \<and>
        kq_ResultBytes r = page_bytes moreBase (kq_Rows r) + int (length (cursor_text (kq_NextCursor r)))
      else kq_NextCursor r = [] \<and> kq_ResultBytes r = page_bytes finalBase (kq_Rows r))"

lemma page_result_exact:
  assumes "page_result columns st = Inr (r, early)" "n \<le> length rows"
    and "page_inv columns src finalBase moreBase maximum (map (visible columns) (take n rows)) st"
    and "pg_moreObserved st \<longleftrightarrow> n < length rows"
  shows "\<exists>k \<le> n. exact_page columns src finalBase moreBase maximum rows k r \<and> early = kq_HasMore r"
proof (cases "pg_moreObserved st")
  case False
  with assms show ?thesis
    by (intro exI [of _ n]) (auto simp: page_result_def exact_page_def page_inv_def comp_def)
next
  case True
  define k where "k = (if pg_provisional st then n - 1 else n)"
  have kept: "kept_rows st (map (visible columns) (take n rows)) = map (visible columns) (take k rows)"
    using assms(2) by (auto simp: kept_rows_def k_def butlast_conv_take take_map min_def)
  have "kept_rows st (pg_rows st) = map (materialize columns) (kept_rows st (map (visible columns) (take n rows)))"
    using assms(3) by (simp add: page_inv_def kept_rows_def map_butlast)
  with kept have rows: "kept_rows st (pg_rows st) = map (materialize columns \<circ> visible columns) (take k rows)" by simp
  from assms(1) True have r: "kept_rows st (pg_rows st) \<noteq> []" "kq_Rows r = kept_rows st (pg_rows st)"
    "kq_RowCount r = int (length (kept_rows st (pg_rows st)))" "kq_HasMore r" "kq_NextCursor r = pg_lastSafeCursor st"
    "kq_ResultBytes r = pg_lastSafeMoreSize st" "early"
    by (auto simp: page_result_def kept_rows_def Let_def split: if_splits)
  from r(1) rows have k: "0 < k" "k \<le> n" "k < length rows" "rows \<noteq> []"
    using assms(2,4) True by (auto simp: k_def split: if_splits)
  have "last (map (visible columns) (take k rows)) = visible columns (rows ! (k - 1))"
    using k by (simp add: last_map last_conv_nth)
  with assms(3) kept k have "materializeKeysetCursor (visible columns (rows ! (k - 1))) src = Inr (pg_lastSafeCursor st)"
    "pg_lastSafeMoreSize st = page_bytes moreBase (kq_Rows r) + int (length (cursor_text (pg_lastSafeCursor st)))"
    "pg_lastSafeMoreSize st \<le> maximum"
    unfolding r(2) rows by (auto simp: page_inv_def safe_point_def comp_def)
  with r k rows show ?thesis by (intro exI [of _ k]) (simp add: exact_page_def)
qed

lemma collectKeysetRows_exact:
  assumes "collectKeysetRows ctxErr rows rowsErr limit columns src finalBase moreBase maximum = Inr (r, early)"
    and "keyed_source columns src" "finalBase \<le> maximum" "0 \<le> limit"
  shows "\<exists>n. int n \<le> limit \<and> exact_page columns src finalBase moreBase maximum rows n r \<and> early = kq_HasMore r"
proof -
  from assms(1) obtain st where
    l: "page_loop ctxErr limit columns src finalBase moreBase maximum (page_start finalBase) rows = Inr st"
    and res: "page_result columns st = Inr (r, early)" by (auto simp: collectKeysetRows_def)
  have "\<not> pg_moreObserved (page_start finalBase)" "int (length []) \<le> limit" using assms(4) by (simp_all add: page_start_def)
  from page_loop_exact [OF l page_start_inv [OF assms(3)] this assms(2)]
  obtain n where n: "n \<le> length rows" "page_inv columns src finalBase moreBase maximum (map (visible columns) (take n rows)) st"
    "pg_moreObserved st \<longleftrightarrow> n < length rows" "int n \<le> limit" by auto
  from page_result_exact [OF res n(1,2,3)] obtain k where "k \<le> n" "exact_page columns src finalBase moreBase maximum rows k r"
    "early = kq_HasMore r" by blast
  with n(4) show ?thesis by (intro exI [of _ k]) auto
qed

section \<open>Pages succeed\<close>

definition row_ok :: "ResultColumn list \<Rightarrow> keysetSource \<Rightarrow> fetched \<Rightarrow> bool" where
  "row_ok columns src row \<longleftrightarrow>
     (case row of
        ScanFailed _ \<Rightarrow> False
      | Fetched raw \<Rightarrow> length raw = length columns + keysetCharacterGuardCount src \<and>
          validateKeysetCharacterGuards (drop (length columns) raw) = None \<and>
          validateKeysetRow (take (length columns) raw) columns src = None)"

text \<open>A page with this row alone can be closed with a continuation cursor.\<close>

definition closable :: "ResultColumn list \<Rightarrow> keysetSource \<Rightarrow> int \<Rightarrow> int \<Rightarrow> fetched \<Rightarrow> bool" where
  "closable columns src moreBase maximum row \<longleftrightarrow>
     (case materializeKeysetCursor (visible columns row) src of
        Inl _ \<Rightarrow> False
      | Inr cs \<Rightarrow> page_bytes moreBase [materialize columns (visible columns row)] + int (length (cursor_text cs)) \<le> maximum)"

lemma page_loop_step:
  assumes "row_ok columns src row" "\<not> pg_provisional st" "int (length (pg_rows st)) \<noteq> limit"
  shows "page_loop ctxErr limit columns src finalBase moreBase maximum st (row # rows) =
    bind_result (page_row columns src finalBase moreBase maximum st (visible columns row)) (\<lambda>st'.
      if pg_moreObserved st' then Inr st' else page_loop ctxErr limit columns src finalBase moreBase maximum st' rows)"
  using assms by (auto simp: row_ok_def scan_row_def visible_def split: fetched.splits)

lemma visible_length: "row_ok columns src row \<Longrightarrow> length (visible columns row) = length columns"
  by (auto simp: row_ok_def visible_def split: fetched.splits)

lemma page_loop_succeeds:
  assumes "\<forall>row \<in> set rows. row_ok columns src row" "keyed_source columns src"
    "page_inv columns src finalBase moreBase maximum taken st" "\<not> pg_moreObserved st"
  shows "\<exists>st'. page_loop ctxErr limit columns src finalBase moreBase maximum st rows = Inr st'"
  using assms
proof (induction rows arbitrary: st taken)
  case (Cons row rows)
  show ?case
  proof (cases "pg_provisional st \<or> int (length (pg_rows st)) = limit")
    case False
    have ok: "row_ok columns src row" using Cons.prems(1) by simp
    from page_row_step [OF Cons.prems(3) _ Cons.prems(4,2) visible_length [OF ok]] False obtain st1 where
      "page_row columns src finalBase moreBase maximum st (visible columns row) = Inr st1"
      "pg_moreObserved st1 \<or> page_inv columns src finalBase moreBase maximum (taken @ [visible columns row]) st1"
      by (auto split: if_splits)
    with False Cons.IH [of "taken @ [visible columns row]" st1] Cons.prems(1,2) show ?thesis
      by (auto simp: page_loop_step [OF ok] simp del: page_loop.simps)
  qed auto
qed simp

lemma page_bytes_base: "rows \<noteq> [] \<Longrightarrow> base < page_bytes base rows"
proof -
  assume rows: "rows \<noteq> []"
  then obtain r rs where "rows = r # rs" by (cases rows) auto
  then have "0 < int (length (rows_text rows))"
    by (simp add: rows_text_def comma_separated_def join_Cons json_row_def json_array_def)
  moreover have "1 \<le> int (digit_loop (length rows))" using rows by (subst digit_loop.simps) simp
  ultimately show ?thesis using rows unfolding page_bytes_def decimalDigits_def by (simp del: length_greater_0_conv of_nat_0_less_iff)
qed

lemma page_bytes_shift: "page_bytes base rows = base + page_bytes 0 rows"
  by (simp add: page_bytes_def)

lemma first_row_safe:
  assumes "row_ok columns src row" "closable columns src moreBase maximum row" "keyed_source columns src" "1 \<le> limit"
    "finalBase \<le> moreBase"
  shows "\<exists>st. page_loop ctxErr limit columns src finalBase moreBase maximum (page_start finalBase) (row # rows) =
      page_loop ctxErr limit columns src finalBase moreBase maximum st rows \<and>
    page_inv columns src finalBase moreBase maximum [visible columns row] st \<and> \<not> pg_moreObserved st \<and> \<not> pg_provisional st"
proof -
  let ?page = "[materialize columns (visible columns row)]" and ?st = "page_start finalBase"
  from assms(2) obtain cs where cs: "materializeKeysetCursor (visible columns row) src = Inr cs"
    "page_bytes moreBase ?page + int (length (cursor_text cs)) \<le> maximum"
    by (auto simp: closable_def split: sum.splits)
  have fits: "page_bytes finalBase ?page \<le> maximum" "finalBase \<le> maximum"
    using cs(2) assms(5) page_bytes_shift [of finalBase ?page] page_bytes_shift [of moreBase ?page] page_bytes_base [of ?page finalBase]
    by simp_all
  have st: "\<not> pg_provisional ?st" "\<not> pg_moreObserved ?st" "pg_rows ?st = []" by (simp_all add: page_start_def)
  from page_row_step [OF page_start_inv [OF fits(2)] st(1,2) assms(3) visible_length [OF assms(1)], of moreBase]
  obtain st1 where "page_row columns src finalBase moreBase maximum ?st (visible columns row) = Inr st1"
    "page_inv columns src finalBase moreBase maximum [visible columns row] st1" "\<not> pg_moreObserved st1" "\<not> pg_provisional st1"
    using fits(1) cs by (auto simp: st)
  then show ?thesis using assms(4) st by (intro exI [of _ st1]) (simp add: page_loop_step [OF assms(1)] del: page_loop.simps)
qed

lemma collectKeysetRows_succeeds:
  assumes "\<forall>row \<in> set rows. row_ok columns src row \<and> closable columns src moreBase maximum row" "keyed_source columns src"
    "1 \<le> limit" "0 \<le> finalBase" "finalBase \<le> moreBase" "finalBase \<le> maximum"
  shows "\<exists>r early. collectKeysetRows ctxErr rows None limit columns src finalBase moreBase maximum = Inr (r, early)"
proof (cases rows)
  case Nil
  then show ?thesis by (auto simp: collectKeysetRows_def page_result_def page_start_def)
next
  case (Cons row rest)
  with assms(1) have row: "row_ok columns src row" "closable columns src moreBase maximum row" by simp_all
  from first_row_safe [OF row assms(2,3,5)] obtain st where
    eq: "page_loop ctxErr limit columns src finalBase moreBase maximum (page_start finalBase) rows =
      page_loop ctxErr limit columns src finalBase moreBase maximum st rest" and
    st: "page_inv columns src finalBase moreBase maximum [visible columns row] st" "\<not> pg_moreObserved st" "\<not> pg_provisional st"
    unfolding Cons by blast
  from page_loop_succeeds [OF _ assms(2) st(1,2), of rest ctxErr limit] assms(1) Cons obtain st' where
    st': "page_loop ctxErr limit columns src finalBase moreBase maximum st rest = Inr st'" by auto
  from page_loop_exact [OF st' st(1,2) _ assms(2)] assms(3) obtain taken where
    taken: "page_inv columns src finalBase moreBase maximum taken st'" "1 \<le> length (kept_rows st' taken)"
    using st(3) by (auto simp: kept_rows_def)
  then have kept: "kept_rows st' taken \<noteq> []" by auto
  have rows: "kept_rows st' (pg_rows st') = map (materialize columns) (kept_rows st' taken)"
    using taken(1) by (simp add: page_inv_def kept_rows_def map_butlast)
  have "pg_lastSafeMoreSize st' \<noteq> 0"
    using taken(1) kept page_bytes_base [of "map (materialize columns) (kept_rows st' taken)" moreBase] assms(4,5)
    by (simp add: page_inv_def safe_point_def)
  moreover have "pg_lastSafeCursor st' \<noteq> []"
    using taken(1) kept assms(2)
    by (auto simp: page_inv_def safe_point_def materializeKeysetCursor_iff keyed_source_def key_cells_def)
  ultimately show ?thesis
    using kept rows by (auto simp: collectKeysetRows_def eq st' page_result_def kept_rows_def Let_def)
qed

section \<open>Reading to the end\<close>

text \<open>
  A client that starts with the first page and follows \<open>next_cursor\<close> while \<open>has_more\<close> holds collects the rows
  of a run. The contract of a paged source: a page requested at a position of the table carries the next rows of
  it, and if there are more it makes progress and its cursor is the position after its last row.
\<close>

type_synonym page_fetch = "KeysetCursorValue list option \<Rightarrow> adapter_error + KeysetSelectResult \<times> bool"

inductive page_run :: "page_fetch \<Rightarrow> KeysetCursorValue list option \<Rightarrow> string option list list \<Rightarrow> bool" for page where
  last_page: "page c = Inr (r, early) \<Longrightarrow> \<not> kq_HasMore r \<Longrightarrow> page_run page c (kq_Rows r)"
| next_page: "page c = Inr (r, early) \<Longrightarrow> kq_HasMore r \<Longrightarrow> page_run page (Some (kq_NextCursor r)) rest \<Longrightarrow>
    page_run page c (kq_Rows r @ rest)"

inductive_cases page_runE: "page_run page c rows"

lemma page_run_deterministic: "page_run page c rows \<Longrightarrow> page_run page c rows' \<Longrightarrow> rows' = rows"
proof (induction arbitrary: rows' rule: page_run.induct)
  case (last_page c r early)
  from last_page.prems last_page.hyps show ?case by (auto elim: page_runE)
next
  case (next_page c r early rest)
  from next_page.prems next_page.hyps(1,2) next_page.IH show ?case by (auto elim: page_runE)
qed

locale paged_reading =
  fixes page :: "'env \<Rightarrow> page_fetch"
    and table :: "'env \<Rightarrow> string option list list"
    and cursor_after :: "'env \<Rightarrow> nat \<Rightarrow> KeysetCursorValue list"
    and ready :: "'env \<Rightarrow> bool"
  assumes page_at: "ready env \<Longrightarrow> i \<le> length (table env) \<Longrightarrow>
    \<exists>n r early. page env (if i = 0 then None else Some (cursor_after env (i - 1))) = Inr (r, early) \<and>
      kq_Rows r = take n (drop i (table env)) \<and> i + n \<le> length (table env) \<and>
      (kq_HasMore r \<longleftrightarrow> i + n < length (table env)) \<and>
      (kq_HasMore r \<longrightarrow> 0 < n \<and> kq_NextCursor r = cursor_after env (i + n - 1))"
begin

lemma reads_rest:
  assumes "ready env" "i \<le> length (table env)"
  shows "page_run (page env) (if i = 0 then None else Some (cursor_after env (i - 1))) (drop i (table env))"
  using assms(2)
proof (induction "length (table env) - i" arbitrary: i rule: less_induct)
  case less
  from page_at [OF assms(1) less.prems] obtain n r early where
    p: "page env (if i = 0 then None else Some (cursor_after env (i - 1))) = Inr (r, early)"
    and r: "kq_Rows r = take n (drop i (table env))" "i + n \<le> length (table env)" "kq_HasMore r \<longleftrightarrow> i + n < length (table env)"
      "kq_HasMore r \<longrightarrow> 0 < n \<and> kq_NextCursor r = cursor_after env (i + n - 1)" by blast
  show ?case
  proof (cases "kq_HasMore r")
    case False
    with r have "kq_Rows r = drop i (table env)" by simp
    with page_run.last_page [of "page env", OF p False] show ?thesis by simp
  next
    case True
    with r less.prems less.hyps [of "i + n"] have "page_run (page env) (Some (kq_NextCursor r)) (drop (i + n) (table env))" by auto
    from page_run.next_page [of "page env", OF p True this] have
      "page_run (page env) (if i = 0 then None else Some (cursor_after env (i - 1))) (take n (drop i (table env)) @ drop (i + n) (table env))"
      by (simp add: r(1))
    then show ?thesis by (simp only: add.commute [of i n] drop_drop [symmetric] append_take_drop_id)
  qed
qed

lemma reads_exactly: "ready env \<Longrightarrow> page_run (page env) None rows \<longleftrightarrow> rows = table env"
  using reads_rest [of env 0] page_run_deterministic by fastforce

end

text \<open>
  The gateway's pages over a server. \<open>pe_serve c m\<close> is the answer to the compiled statement with cursor \<open>c\<close> and row
  limit \<open>m\<close>: without a cursor the first \<open>m\<close> rows of the table in key order, with the cursor of a row of the table the
  first \<open>m\<close> rows after it.
\<close>

record page_env =
  pe_limit :: nat
  pe_columns :: "ResultColumn list"
  pe_source :: keysetSource
  pe_finalBase :: int
  pe_moreBase :: int
  pe_maximum :: int
  pe_table :: "fetched list"
  pe_serve :: "KeysetCursorValue list option \<Rightarrow> nat \<Rightarrow> fetched list"

definition keyset_page :: "page_env \<Rightarrow> page_fetch" where
  "keyset_page env c = collectKeysetRows None (pe_serve env c (pe_limit env + 1)) None (int (pe_limit env))
     (pe_columns env) (pe_source env) (pe_finalBase env) (pe_moreBase env) (pe_maximum env)"

definition env_rows :: "page_env \<Rightarrow> string option list list" where
  "env_rows env = map (materialize (pe_columns env) \<circ> visible (pe_columns env)) (pe_table env)"

definition row_cursor :: "page_env \<Rightarrow> nat \<Rightarrow> adapter_error + KeysetCursorValue list" where
  "row_cursor env i = materializeKeysetCursor (visible (pe_columns env) (pe_table env ! i)) (pe_source env)"

definition cursor_of_row :: "page_env \<Rightarrow> nat \<Rightarrow> KeysetCursorValue list" where
  "cursor_of_row env i = (case row_cursor env i of Inl _ \<Rightarrow> [] | Inr cs \<Rightarrow> cs)"

definition serves_in_key_order :: "page_env \<Rightarrow> bool" where
  "serves_in_key_order env \<longleftrightarrow>
     pe_serve env None (pe_limit env + 1) = take (pe_limit env + 1) (pe_table env) \<and>
     (\<forall>i < length (pe_table env). \<forall>cs. row_cursor env i = Inr cs \<longrightarrow>
        pe_serve env (Some cs) (pe_limit env + 1) = take (pe_limit env + 1) (drop (Suc i) (pe_table env)))"

definition readable :: "page_env \<Rightarrow> bool" where
  "readable env \<longleftrightarrow>
     keyed_source (pe_columns env) (pe_source env) \<and> 1 \<le> pe_limit env \<and> 0 \<le> pe_finalBase env \<and>
     pe_finalBase env \<le> pe_moreBase env \<and> pe_finalBase env \<le> pe_maximum env \<and> serves_in_key_order env \<and>
     (\<forall>row \<in> set (pe_table env). row_ok (pe_columns env) (pe_source env) row \<and>
        closable (pe_columns env) (pe_source env) (pe_moreBase env) (pe_maximum env) row)"

lemma keyset_page_at:
  assumes "readable env" "i \<le> length (env_rows env)"
  shows "\<exists>n r early. keyset_page env (if i = 0 then None else Some (cursor_of_row env (i - 1))) = Inr (r, early) \<and>
    kq_Rows r = take n (drop i (env_rows env)) \<and> i + n \<le> length (env_rows env) \<and>
    (kq_HasMore r \<longleftrightarrow> i + n < length (env_rows env)) \<and>
    (kq_HasMore r \<longrightarrow> 0 < n \<and> kq_NextCursor r = cursor_of_row env (i + n - 1))"
proof -
  let ?table = "pe_table env" and ?c = "if i = 0 then None else Some (cursor_of_row env (i - 1))"
  let ?rows = "take (pe_limit env + 1) (drop i ?table)"
  have i: "i \<le> length ?table" using assms(2) by (simp add: env_rows_def)
  have serve: "pe_serve env ?c (pe_limit env + 1) = ?rows"
  proof (cases i)
    case (Suc j)
    with i assms(1) have "closable (pe_columns env) (pe_source env) (pe_moreBase env) (pe_maximum env) (?table ! j)"
      by (simp add: readable_def)
    then obtain cs where "row_cursor env j = Inr cs" by (auto simp: closable_def row_cursor_def split: sum.splits)
    with Suc i assms(1) show ?thesis by (simp add: readable_def serves_in_key_order_def cursor_of_row_def)
  qed (use assms(1) in \<open>simp add: readable_def serves_in_key_order_def\<close>)
  have "\<forall>row \<in> set ?rows. row_ok (pe_columns env) (pe_source env) row \<and>
      closable (pe_columns env) (pe_source env) (pe_moreBase env) (pe_maximum env) row"
    using assms(1) by (auto simp: readable_def dest: in_set_takeD in_set_dropD)
  note ok = this
  have eq: "keyset_page env ?c = collectKeysetRows None ?rows None (int (pe_limit env)) (pe_columns env) (pe_source env)
      (pe_finalBase env) (pe_moreBase env) (pe_maximum env)"
    unfolding keyset_page_def serve by (rule refl)
  have env: "keyed_source (pe_columns env) (pe_source env)" "1 \<le> int (pe_limit env)" "0 \<le> pe_finalBase env"
    "pe_finalBase env \<le> pe_moreBase env" "pe_finalBase env \<le> pe_maximum env"
    using assms(1) by (simp_all add: readable_def)
  from collectKeysetRows_succeeds [OF ok env, of None] obtain r early where page: "keyset_page env ?c = Inr (r, early)"
    unfolding eq by blast
  from collectKeysetRows_exact [OF page [unfolded eq] env(1,5)] obtain n where n: "int n \<le> int (pe_limit env)"
    "exact_page (pe_columns env) (pe_source env) (pe_finalBase env) (pe_moreBase env) (pe_maximum env) ?rows n r" by auto
  define m where "m = min n (length ?table - i)"
  have more: "kq_HasMore r \<longleftrightarrow> i + m < length ?table" "kq_HasMore r \<Longrightarrow> m = n" "i + m \<le> length ?table"
    using n i by (auto simp: exact_page_def m_def min_def split: if_splits)
  have rows: "kq_Rows r = take m (drop i (env_rows env))"
    using n by (simp add: exact_page_def env_rows_def m_def drop_map take_map min_def)
  have "0 < n \<and> kq_NextCursor r = cursor_of_row env (i + n - 1)" if "kq_HasMore r"
    using n(2) that i more by (auto simp: exact_page_def cursor_of_row_def row_cursor_def)
  with page more rows show ?thesis by (intro exI [of _ m] exI [of _ r] exI [of _ early]) (auto simp: env_rows_def)
qed

interpretation keyset_reading: paged_reading keyset_page env_rows cursor_of_row readable
  by unfold_locales (rule keyset_page_at)

section \<open>Properties\<close>

text \<open>
  C23: a page that is delivered holds the first rows of the answer in order, never more than the limit, and its
  recorded size, which is within the budget, is the exact length of the envelope, the rows, the row count and the
  cursor. It says \<open>has_more\<close> exactly when rows are left out; then it holds at least one row and its cursor is made of
  the key of its last row.
\<close>

theorem keyset_pages_are_exact:
  assumes "collectKeysetRows ctxErr rows rowsErr limit columns src finalBase moreBase maximum = Inr (r, early)"
    and "keyed_source columns src" and "finalBase \<le> maximum" and "0 \<le> limit"
  shows "\<exists>n. int n \<le> limit \<and> exact_page columns src finalBase moreBase maximum rows n r \<and> early = kq_HasMore r"
  by (rule collectKeysetRows_exact [OF assms])

text \<open>
  C22: a client that follows the cursors reads the whole table: if every row passes the checks and would fit on a
  page of its own with its cursor, and the server answers in key order, then the run from the first page to the
  one without \<open>has_more\<close> exists, and it delivers every row of the table exactly once and in order.
\<close>

theorem keyset_reading_is_complete:
  assumes "readable env"
  shows "page_run (keyset_page env) None rows \<longleftrightarrow> rows = env_rows env"
  by (rule keyset_reading.reads_exactly [OF assms])

text \<open>A table of three rows with an integer key, read in pages of two.\<close>

definition sample_key_column :: keysetSourceColumn where
  "sample_key_column = \<lparr>col_representation = [], col_name = ''id'', col_dataType = ''INT'', col_nativeType = ''int'', col_nullable = False,
     col_characterSet = [], col_collation = [], col_characterMaximumLength = None, col_characterOctetLength = None,
     col_numericPrecision = None, col_numericScale = None, col_datetimePrecision = None\<rparr>"

definition sample_source :: keysetSource where
  "sample_source = \<lparr>src_columns = [(''id'', sample_key_column)], src_projectionColumns = [sample_key_column],
     src_keyColumns = [sample_key_column], src_keyKinds = [''integer''], src_keyIndexes = [0]\<rparr>"

definition sample_columns :: "ResultColumn list" where
  "sample_columns = [\<lparr>rc_Name = ''id'', rc_Type = ''integer'', rc_Encoding = ''string'', rc_Nullable = False\<rparr>]"

definition sample_table :: "fetched list" where
  "sample_table = [Fetched [Some ''1''], Fetched [Some ''2''], Fetched [Some ''3'']]"

definition sample_serve :: "KeysetCursorValue list option \<Rightarrow> nat \<Rightarrow> fetched list" where
  "sample_serve c m = take m (case c of
     None \<Rightarrow> sample_table
   | Some cs \<Rightarrow> tl (dropWhile (\<lambda>row. materializeKeysetCursor (visible sample_columns row) sample_source \<noteq> Inr cs) sample_table))"

definition sample_env :: page_env where
  "sample_env = \<lparr>pe_limit = 2, pe_columns = sample_columns, pe_source = sample_source, pe_finalBase = 100, pe_moreBase = 110,
     pe_maximum = 200, pe_table = sample_table, pe_serve = sample_serve\<rparr>"

lemma sample_normalized_type: "normalized_type sample_key_column = ''INT''"
  by (simp add: normalized_type_def sample_key_column_def ToUpper_def upper_char_def is_lower_def graphic_def)

lemma sample_cursor: "materializeKeysetCursor [Some v] sample_source = Inr [\<lparr>kc_Type = ''integer'', kc_Value = v\<rparr>]"
  by (simp add: materializeKeysetCursor_def sample_source_def cursor_value_def mysqlKeysetCursorText_def raw_bytes_def)

lemma sample_keyed: "keyed_source sample_columns sample_source"
  by (simp add: keyed_source_def sample_source_def sample_columns_def keyset_kinds_def)

lemma sample_guards: "keysetCharacterGuardCount sample_source = 0"
  by (simp add: keysetCharacterGuardCount_def sample_source_def)

lemma sample_row_valid: "valid_integer_cell v \<Longrightarrow> validateKeysetRow [Some v] sample_columns sample_source = None"
  by (simp add: validateKeysetRow_def sample_source_def sample_columns_def range_error_None validKeysetCell_def
      validKeysetSourceTemporalCell_def sample_normalized_type Let_def)
    (simp add: sample_key_column_def RepresentationSourceText_def)

lemma sample_rows: "\<forall>row \<in> set sample_table. row_ok sample_columns sample_source row \<and> closable sample_columns sample_source 110 200 row"
proof -
  have c: "valid_integer_cell ''1''" "valid_integer_cell ''2''" "valid_integer_cell ''3''" by code_simp+
  have s: "closable sample_columns sample_source 110 200 (Fetched [Some ''1''])" "closable sample_columns sample_source 110 200 (Fetched [Some ''2''])"
    "closable sample_columns sample_source 110 200 (Fetched [Some ''3''])" by code_simp+
  have "length sample_columns = 1" by (simp add: sample_columns_def)
  then show ?thesis
    using c s by (simp add: sample_table_def row_ok_def sample_guards sample_row_valid validateKeysetCharacterGuards_def range_error_def)
qed

lemma sample_serves: "serves_in_key_order sample_env"
  by (simp add: serves_in_key_order_def sample_env_def sample_serve_def sample_table_def row_cursor_def visible_def
      sample_columns_def sample_cursor All_less_Suc2)

lemma sample_readable: "readable sample_env"
  using sample_rows sample_serves sample_keyed by (simp add: readable_def sample_env_def)

lemma sample_env_rows: "env_rows sample_env = [[Some ''1''], [Some ''2''], [Some ''3'']]"
  by (simp add: env_rows_def sample_env_def sample_table_def sample_columns_def visible_def materialize_def cell_def)

theorem keyset_reading_is_complete_witness:
  "page_run (keyset_page sample_env) None [[Some ''1''], [Some ''2''], [Some ''3'']]"
  using keyset_reading_is_complete [OF sample_readable] by (simp add: sample_env_rows)

theorem keyset_pages_are_exact_witness:
  "\<exists>r early n. collectKeysetRows None sample_table None 2 sample_columns sample_source 100 110 200 = Inr (r, early) \<and>
     exact_page sample_columns sample_source 100 110 200 sample_table n r"
proof -
  from collectKeysetRows_succeeds [OF sample_rows sample_keyed, of 2 100 None] obtain r early where
    "collectKeysetRows None sample_table None 2 sample_columns sample_source 100 110 200 = Inr (r, early)" by auto
  with keyset_pages_are_exact [OF this sample_keyed] show ?thesis by auto
qed

end
