(* ===== verification/Keyset_Decimal.thy ===== *)
theory Keyset_Decimal
  imports Json_Integer
begin

text \<open>
  \<open>normalizeExactKeysetDecimal\<close> of \<^verbatim>\<open>internal/adapters/mysql8/keyset.go\<close>: a decimal operand of a page filter becomes
  plain decimal text only if a column of the given precision and scale holds it exactly, with a saturating
  exponent and a coefficient never longer than the precision. The theorem compares it with the rational number
  the operand denotes.
\<close>

section \<open>The routine\<close>

text \<open>
  \<open>parseBoundedKeysetDecimalExponent\<close>. The division of the source truncates towards zero, as the truncated
  subtraction of \<^typ>\<open>nat\<close> does here; a digit after saturation is still checked.
\<close>

fun bounded_digits :: "nat \<Rightarrow> nat \<Rightarrow> string \<Rightarrow> nat option" where
  "bounded_digits maximum value [] = Some value"
| "bounded_digits maximum value (c # cs) =
     (if \<not> is_digit c then None
      else if value > (maximum - digit_value c) div 10 then bounded_digits maximum maximum cs
      else bounded_digits maximum (value * 10 + digit_value c) cs)"

definition parseBoundedKeysetDecimalExponent :: "string \<Rightarrow> nat \<Rightarrow> int option" where
  "parseBoundedKeysetDecimalExponent s maximum =
     (if s = [] then None
      else
        let signed = (hd s = CHR ''-'' \<or> hd s = CHR ''+''); ds = (if signed then tl s else s) in
        if ds = [] then None
        else map_option (\<lambda>n. if hd s = CHR ''-'' then - int n else int n) (bounded_digits maximum 0 ds))"

record mantissa =
  coefficient :: string
  pendingZeros :: nat
  fractionalDigits :: nat
  digitsBeforePoint :: nat
  digitsAfterPoint :: nat
  decimalPoint :: bool
  nonzero :: bool

definition count_digit :: "mantissa \<Rightarrow> mantissa" where
  "count_digit m =
     (if decimalPoint m
      then m\<lparr>digitsAfterPoint := digitsAfterPoint m + 1, fractionalDigits := fractionalDigits m + 1\<rparr>
      else m\<lparr>digitsBeforePoint := digitsBeforePoint m + 1\<rparr>)"

fun mantissa_loop :: "nat \<Rightarrow> mantissa \<Rightarrow> string \<Rightarrow> string + mantissa" where
  "mantissa_loop precision m [] = Inr m"
| "mantissa_loop precision m (c # cs) =
     (if c = CHR ''.'' then
        (if decimalPoint m \<or> digitsBeforePoint m = 0 then Inl ''decimal mantissa is invalid''
         else mantissa_loop precision (m\<lparr>decimalPoint := True\<rparr>) cs)
      else if \<not> is_digit c then Inl ''decimal mantissa is invalid''
      else
        let m = count_digit m in
        if c = CHR ''0'' then
          mantissa_loop precision (if nonzero m then m\<lparr>pendingZeros := pendingZeros m + 1\<rparr> else m) cs
        else if length (coefficient m) + pendingZeros m + 1 > precision then
          Inl ''decimal value exceeds the source precision''
        else mantissa_loop precision (m\<lparr>coefficient := coefficient m @ replicate (pendingZeros m) (CHR ''0'') @ [c],
               pendingZeros := 0, nonzero := True\<rparr>) cs)"

definition mantissa_start :: mantissa where
  "mantissa_start = \<lparr>coefficient = [], pendingZeros = 0, fractionalDigits = 0, digitsBeforePoint = 0, digitsAfterPoint = 0,
     decimalPoint = False, nonzero = False\<rparr>"

definition scaled_text :: "string \<Rightarrow> int \<Rightarrow> string" where
  "scaled_text c scalePower =
     (if scalePower \<le> 0 then c @ replicate (nat (- scalePower)) (CHR ''0'')
      else if nat scalePower \<ge> length c then ''0.'' @ replicate (nat scalePower - length c) (CHR ''0'') @ c
      else take (length c - nat scalePower) c @ ''.'' @ drop (length c - nat scalePower) c)"

definition finish_decimal :: "nat \<Rightarrow> nat \<Rightarrow> bool \<Rightarrow> bool \<Rightarrow> int \<Rightarrow> mantissa \<Rightarrow> string + string" where
  "finish_decimal precision scale unsigned negative exponent m =
     (if digitsBeforePoint m = 0 \<or> decimalPoint m \<and> digitsAfterPoint m = 0 then Inl ''decimal mantissa is invalid''
      else if \<not> nonzero m then Inr ''0''
      else if negative \<and> unsigned then Inl ''negative decimal is not representable by the unsigned source''
      else
        let n = int (length (coefficient m));
            scalePower = int (fractionalDigits m) - exponent - int (pendingZeros m);
            requiredScale = (if scalePower < 0 then 0 else scalePower);
            integerDigits = (if scalePower < n then n - scalePower else 0) in
        if requiredScale > int scale \<or> integerDigits > int precision - int scale then
          Inl ''decimal value is not exactly representable by the source precision and scale''
        else Inr ((if negative then ''-'' else []) @ scaled_text (coefficient m) scalePower))"

definition normalizeExactKeysetDecimal :: "string \<Rightarrow> nat \<Rightarrow> nat \<Rightarrow> bool \<Rightarrow> string + string" where
  "normalizeExactKeysetDecimal s precision scale unsigned =
     (if s = [] then Inl ''decimal value is empty''
      else
        let (negative, t) = strip_minus s in
        if negative \<and> t = [] then Inl ''decimal value has no digits''
        else if \<not> negative \<and> hd t = CHR ''+'' then Inl ''decimal value has a leading plus sign''
        else
          let (body, exponentText) = split_exponent t in
          case (if length body < length t
                then parseBoundedKeysetDecimalExponent exponentText (length s + precision + scale + 1) else Some 0) of
            None \<Rightarrow> Inl ''decimal exponent is invalid''
          | Some exponent \<Rightarrow>
              (case mantissa_loop precision mantissa_start body of
                 Inl e \<Rightarrow> Inl e
               | Inr m \<Rightarrow> finish_decimal precision scale unsigned negative exponent m))"

section \<open>The exponent\<close>

text \<open>The loop returns the value of the digits, or the maximum when the value is not below it.\<close>

lemma bounded_digits_cases:
  assumes "list_all is_digit ds" "0 < maximum" "v = w \<or> v = maximum \<and> maximum \<le> w"
  shows "\<exists>n. bounded_digits maximum v ds = Some n \<and>
    (n = w * 10 ^ length ds + dec_value ds \<or> n = maximum \<and> maximum \<le> w * 10 ^ length ds + dec_value ds)"
  using assms(1,3)
proof (induction ds arbitrary: v w)
  case (Cons c cs)
  have vw: "v \<le> w" using Cons.prems(2) by auto
  have step: "bounded_digits maximum v (c # cs) =
      bounded_digits maximum (if v > (maximum - digit_value c) div 10 then maximum else v * 10 + digit_value c) cs"
    using Cons.prems(1) by simp
  have "(if v > (maximum - digit_value c) div 10 then maximum else v * 10 + digit_value c) = w * 10 + digit_value c \<or>
    (if v > (maximum - digit_value c) div 10 then maximum else v * 10 + digit_value c) = maximum \<and> maximum \<le> w * 10 + digit_value c"
  proof (cases "v > (maximum - digit_value c) div 10")
    case True
    then have "maximum - digit_value c < v * 10" by (simp add: div_less_iff_less_mult)
    then have "maximum \<le> w * 10 + digit_value c" using vw by linarith
    with True show ?thesis by simp
  next
    case False
    have "v = w"
    proof (rule ccontr)
      assume "v \<noteq> w"
      then have "v = maximum" using Cons.prems(2) by auto
      with False have "maximum * 10 \<le> maximum" by (simp add: not_less less_eq_div_iff_mult_less_eq)
      with assms(2) show False by simp
    qed
    with False show ?thesis by simp
  qed
  from Cons.IH [OF _ this] Cons.prems(1) show ?case unfolding step digits_step_value by simp
qed simp

lemma parseBounded_number:
  assumes "exponentSuffix r" "r \<noteq> []" "0 < maximum"
  obtains e where "parseBoundedKeysetDecimalExponent (tl r) maximum = Some e"
    "e = exponent_value (tl r) \<or> int maximum \<le> e \<and> e \<le> exponent_value (tl r) \<or> e \<le> - int maximum \<and> exponent_value (tl r) \<le> e"
  using assms(1)
proof (cases rule: exponentSuffix_cases)
  case 1
  with assms(2) show ?thesis by simp
next
  case (2 e u)
  then obtain ds where ds: "ds \<noteq> []" "list_all is_digit ds" "u = ds \<or> u = CHR ''-'' # ds \<or> u = CHR ''+'' # ds"
    by blast
  then have hd: "hd ds \<noteq> CHR ''-''" "hd ds \<noteq> CHR ''+''"
    using not_digit by (cases ds; auto)+
  obtain n where "bounded_digits maximum 0 ds = Some n" "n = dec_value ds \<or> n = maximum \<and> maximum \<le> dec_value ds"
    using bounded_digits_cases [OF ds(2) assms(3), of 0 0] by auto
  with 2 ds hd show ?thesis
    by (intro that [of "if hd u = CHR ''-'' then - int n else int n"])
       (auto simp: parseBoundedKeysetDecimalExponent_def exponent_value_def Let_def)
qed

section \<open>The mantissa\<close>

definition zero_char :: "char \<Rightarrow> bool" where
  "zero_char c \<longleftrightarrow> c = CHR ''0''"

lemma zero_char_iff: "c = CHR ''0'' \<longleftrightarrow> zero_char c"
  by (simp add: zero_char_def)

lemma zero_char_zero [simp]: "zero_char (CHR ''0'')"
  by (simp add: zero_char_def)

lemma zero_char_digit: "zero_char c \<Longrightarrow> is_digit c"
  by (simp add: zero_char_def is_digit_def)

definition significant :: "string \<Rightarrow> string" where
  "significant ds = rev (dropWhile zero_char (rev (dropWhile zero_char ds)))"

definition trailing_zeros :: "string \<Rightarrow> nat" where
  "trailing_zeros ds = length (dropWhile zero_char ds) - length (significant ds)"

lemma dropWhile_snoc:
  "dropWhile P (xs @ [x]) = (if dropWhile P xs = [] \<and> P x then [] else dropWhile P xs @ [x])"
  by (induction xs) simp_all

lemma significant_snoc:
  "significant (ds @ [c]) = (if zero_char c then significant ds else dropWhile zero_char ds @ [c])"
proof (cases "dropWhile zero_char ds = []")
  case True
  then show ?thesis by (simp only: significant_def dropWhile_snoc) simp
next
  case False
  then have "dropWhile zero_char (ds @ [c]) = dropWhile zero_char ds @ [c]" by (simp only: dropWhile_snoc) simp
  then show ?thesis by (simp only: significant_def rev_append) simp
qed

lemma rstrip_zeros: "xs = rev (dropWhile zero_char (rev xs)) @ replicate (length xs - length (dropWhile zero_char (rev xs))) (CHR ''0'')"
proof (induction xs rule: rev_induct)
  case (snoc x xs)
  show ?case
  proof (cases "zero_char x")
    case True
    have "length (dropWhile zero_char (rev xs)) \<le> length xs" by (metis length_dropWhile_le length_rev)
    then have "Suc (length xs) - length (dropWhile zero_char (rev xs)) = Suc (length xs - length (dropWhile zero_char (rev xs)))" by simp
    with True snoc show ?thesis by (simp add: replicate_append_same [symmetric] zero_char_def [of x])
  qed simp
qed simp

lemma significant_split: "dropWhile zero_char ds = significant ds @ replicate (trailing_zeros ds) (CHR ''0'')"
  using rstrip_zeros [of "dropWhile zero_char ds"] by (simp add: significant_def trailing_zeros_def)

lemma trailing_zeros_snoc:
  "trailing_zeros (ds @ [c]) = (if zero_char c then (if significant ds = [] then 0 else trailing_zeros ds + 1) else 0)"
proof -
  have "significant ds = [] \<Longrightarrow> dropWhile zero_char ds = []"
  proof (rule ccontr)
    assume "significant ds = []" "dropWhile zero_char ds \<noteq> []"
    then have "\<forall>c \<in> set (dropWhile zero_char ds). zero_char c" by (simp add: significant_def)
    with \<open>dropWhile zero_char ds \<noteq> []\<close> show False by (metis hd_dropWhile hd_in_set)
  qed
  moreover have "significant ds \<noteq> [] \<Longrightarrow> dropWhile zero_char ds \<noteq> [] \<and> length (significant ds) \<le> length (dropWhile zero_char ds)"
    using significant_split [of ds] by (metis append_is_Nil_conv le_add1 length_append)
  ultimately show ?thesis
    by (auto simp: trailing_zeros_def significant_snoc dropWhile_snoc Suc_diff_le)
qed

lemma significant_mono: "length (significant ds) \<le> length (significant (ds @ es))"
proof (induction es rule: rev_induct)
  case (snoc e es)
  have "length (significant (ds @ es)) \<le> length (dropWhile zero_char (ds @ es))"
    using significant_split [of "ds @ es"] by (metis le_add1 length_append)
  with snoc show ?case by (simp add: significant_snoc append_assoc [symmetric] del: append_assoc)
qed simp

text \<open>The digits read so far are the state of the loop.\<close>

definition reads_digits :: "mantissa \<Rightarrow> string \<Rightarrow> bool" where
  "reads_digits m ds \<longleftrightarrow> coefficient m = significant ds \<and> pendingZeros m = trailing_zeros ds \<and> (nonzero m \<longleftrightarrow> significant ds \<noteq> [])"

definition advance :: "mantissa \<Rightarrow> string \<Rightarrow> nat \<Rightarrow> mantissa" where
  "advance m ds k =
     (if decimalPoint m then m\<lparr>digitsAfterPoint := digitsAfterPoint m + k, fractionalDigits := fractionalDigits m + k\<rparr>
      else m\<lparr>digitsBeforePoint := digitsBeforePoint m + k\<rparr>)
     \<lparr>coefficient := significant ds, pendingZeros := trailing_zeros ds, nonzero := significant ds \<noteq> []\<rparr>"

lemma digit_loop_step:
  assumes "reads_digits m ds" "is_digit c"
  shows "mantissa_loop precision m (c # cs) =
    (if \<not> zero_char c \<and> length (significant (ds @ [c])) > precision then Inl ''decimal value exceeds the source precision''
     else mantissa_loop precision (advance m (ds @ [c]) 1) cs)"
proof -
  have "c \<noteq> CHR ''.''" using assms(2) not_digit by blast
  moreover have "length (dropWhile zero_char ds) = length (significant ds) + trailing_zeros ds"
    using significant_split [of ds] by (metis length_append length_replicate)
  moreover have "significant ds = [] \<Longrightarrow> trailing_zeros ds = 0"
    using trailing_zeros_snoc [of "butlast ds" "last ds"] significant_snoc [of "butlast ds" "last ds"]
    by (cases ds rule: rev_cases) (auto simp: trailing_zeros_def split: if_splits)
  ultimately show ?thesis
    using assms significant_split [of ds]
    by (cases m) (auto simp: Let_def count_digit_def zero_char_iff advance_def reads_digits_def significant_snoc trailing_zeros_snoc)
qed

lemma reads_advance: "reads_digits (advance m ds k) ds"
  by (simp add: reads_digits_def advance_def)

lemma advance_trans: "advance (advance m ds (Suc 0)) es k = advance m es (Suc k)"
  by (cases m) (simp add: advance_def)

lemma digit_run:
  assumes "reads_digits m ds" "list_all is_digit es" "length (significant ds) \<le> precision"
  shows "mantissa_loop precision m (es @ rest) =
    (if length (significant (ds @ es)) \<le> precision then mantissa_loop precision (advance m (ds @ es) (length es)) rest
     else Inl ''decimal value exceeds the source precision'')"
  using assms
proof (induction es arbitrary: m ds)
  case Nil
  then have "advance m ds 0 = m" by (cases m) (auto simp: advance_def reads_digits_def)
  with Nil show ?case by simp
next
  case (Cons e es)
  have mono: "length (significant (ds @ [e])) \<le> length (significant (ds @ e # es))"
    using significant_mono [of "ds @ [e]" es] by simp
  show ?case
  proof (cases "\<not> zero_char e \<and> length (significant (ds @ [e])) > precision")
    case True
    with mono Cons.prems digit_loop_step [OF Cons.prems(1), of e precision "es @ rest"] show ?thesis by simp
  next
    case False
    then have "length (significant (ds @ [e])) \<le> precision" using Cons.prems(3) by (auto simp: significant_snoc)
    with Cons.IH [OF reads_advance, of "ds @ [e]" m "Suc 0"] Cons.prems False digit_loop_step [OF Cons.prems(1), of e precision "es @ rest"]
    show ?thesis by (simp add: advance_trans)
  qed
qed

definition read_mantissa :: "string \<Rightarrow> string \<Rightarrow> mantissa" where
  "read_mantissa ds fr = \<lparr>coefficient = significant (ds @ fr), pendingZeros = trailing_zeros (ds @ fr), fractionalDigits = length fr,
     digitsBeforePoint = length ds, digitsAfterPoint = length fr, decimalPoint = (fr \<noteq> []), nonzero = (significant (ds @ fr) \<noteq> [])\<rparr>"

lemma mantissa_loop_exact:
  assumes "ds \<noteq> []" "list_all is_digit ds" "list_all is_digit fr"
  shows "mantissa_loop precision mantissa_start (ds @ (if fr = [] then [] else CHR ''.'' # fr)) =
    (if length (significant (ds @ fr)) \<le> precision then Inr (read_mantissa ds fr)
     else Inl ''decimal value exceeds the source precision'')"
proof -
  have start: "reads_digits mantissa_start []" "length (significant []) \<le> precision"
    by (simp_all add: reads_digits_def mantissa_start_def significant_def trailing_zeros_def)
  let ?m = "advance mantissa_start ds (length ds)"
  have m: "digitsBeforePoint ?m = length ds" "\<not> decimalPoint ?m" "reads_digits (?m\<lparr>decimalPoint := True\<rparr>) ds"
    by (simp_all add: advance_def mantissa_start_def reads_digits_def)
  have fin: "advance (?m\<lparr>decimalPoint := True\<rparr>) (ds @ fr) (length fr) = read_mantissa ds fr" if "fr \<noteq> []"
    using that by (simp add: advance_def mantissa_start_def read_mantissa_def)
  have mono: "length (significant ds) \<le> length (significant (ds @ fr))" by (rule significant_mono)
  show ?thesis
  proof (cases "fr = []")
    case True
    then show ?thesis
      using digit_run [OF start(1) assms(2) start(2), of "[]"] by (simp add: advance_def mantissa_start_def read_mantissa_def)
  next
    case False
    then show ?thesis
      using digit_run [OF start(1) assms(2) start(2), of "CHR ''.'' # fr"] digit_run [OF m(3) assms(3), of precision "[]"] m fin mono assms(1)
      by auto
  qed
qed

section \<open>Representable values\<close>

definition representable :: "rat \<Rightarrow> nat \<Rightarrow> nat \<Rightarrow> bool" where
  "representable v precision scale \<longleftrightarrow> (\<exists>k :: int. v * 10 ^ scale = of_int k \<and> \<bar>k\<bar> < 10 ^ precision)"

lemma representable_uminus: "representable v precision scale \<Longrightarrow> representable (- v) precision scale"
proof -
  assume "representable v precision scale"
  then obtain k :: int where "v * 10 ^ scale = of_int k" "\<bar>k\<bar> < 10 ^ precision" by (auto simp: representable_def)
  then show ?thesis unfolding representable_def by (intro exI [of _ "- k"]) simp
qed

lemma representable_minus: "representable (- v) precision scale \<longleftrightarrow> representable v precision scale"
  using representable_uminus [of v] representable_uminus [of "- v"] by auto

lemma significant_value:
  assumes "list_all is_digit ds"
  shows "dec_value ds = dec_value (significant ds) * 10 ^ trailing_zeros ds"
proof -
  have "dec_value ds = dec_value (dropWhile zero_char ds)"
    using dec_value_dropWhile_zero [of ds] by (simp add: zero_char_iff)
  then show ?thesis unfolding significant_split [of ds] by (simp add: dec_value_append dec_value_zeros)
qed

lemma set_significant: "set (significant ds) \<subseteq> set ds"
proof -
  have "x \<in> set (dropWhile P (rev (dropWhile Q ds))) \<Longrightarrow> x \<in> set ds" for x P Q
    by (metis set_dropWhileD set_rev)
  then show ?thesis by (auto simp: significant_def)
qed

lemma significant_bounds:
  assumes "list_all is_digit ds" "significant ds \<noteq> []"
  shows "10 ^ (length (significant ds) - 1) \<le> dec_value (significant ds)" "dec_value (significant ds) < 10 ^ length (significant ds)"
    "\<not> 10 dvd dec_value (significant ds)" "hd (significant ds) \<noteq> CHR ''0''"
proof -
  let ?s = "significant ds"
  have dg: "list_all is_digit ?s" using assms(1) set_significant by (fastforce simp: list_all_iff)
  then show "dec_value ?s < 10 ^ length ?s" by (rule dec_value_less)
  have "hd ?s = hd (dropWhile zero_char ds)" using assms(2) significant_split [of ds] by (metis hd_append2)
  moreover have "dropWhile zero_char ds \<noteq> []" using assms(2) significant_split [of ds] by auto
  ultimately show h: "hd ?s \<noteq> CHR ''0''" by (metis hd_dropWhile zero_char_zero)
  obtain c cs where s: "?s = c # cs" using assms(2) by (cases ?s) auto
  then have "1 \<le> digit_value c" using h dg digit_value_eq_0 [of c] by auto
  then show "10 ^ (length ?s - 1) \<le> dec_value ?s" by (simp add: s dec_value_Cons trans_le_add1)
  obtain ys y where t: "?s = ys @ [y]" using assms(2) by (cases ?s rule: rev_cases) auto
  have "rev ?s = dropWhile zero_char (rev (dropWhile zero_char ds))" by (simp add: significant_def)
  then have "\<not> zero_char y" using t by (metis hd_dropWhile list.sel(1) list.distinct(1) rev_append rev_singleton_conv rev.simps append_Cons append_Nil)
  moreover have "is_digit y" using dg t by simp
  ultimately have "digit_value y \<noteq> 0" "digit_value y < 10" using digit_value_eq_0 [of y] by (auto simp: zero_char_iff)
  then show "\<not> 10 dvd dec_value ?s" by (simp add: t dec_value_append dec_value_Cons dvd_add_right_iff nat_dvd_not_less)
qed

lemma representable_scaled:
  fixes d n :: nat
  assumes "10 ^ (n - 1) \<le> d" "d < 10 ^ n" "\<not> 10 dvd d" "0 < n" "scale \<le> precision"
  shows "representable (of_nat d * power_int 10 (- sp)) precision scale \<longleftrightarrow> sp \<le> int scale \<and> int n - sp \<le> int precision - int scale"
proof (cases "sp \<le> int scale")
  case True
  define k where "k = nat (int scale - sp)"
  have "of_nat d * power_int (10 :: rat) (- sp) * 10 ^ scale = of_nat d * power_int 10 (int scale - sp)"
    by (simp add: power_int_diff power_int_minus field_simps)
  also have "\<dots> = of_int (int (d * 10 ^ k))" using True by (simp add: k_def power_int_def)
  finally have v: "of_nat d * power_int (10 :: rat) (- sp) * 10 ^ scale = of_int (int (d * 10 ^ k))" .
  have "representable (of_nat d * power_int 10 (- sp)) precision scale \<longleftrightarrow> d * 10 ^ k < 10 ^ precision"
    unfolding representable_def v of_int_eq_iff by (auto simp flip: of_nat_less_iff [where 'a = int])
  also have "\<dots> \<longleftrightarrow> n + k \<le> precision"
  proof
    assume "d * 10 ^ k < 10 ^ precision"
    moreover have "10 ^ (n - 1 + k) \<le> d * 10 ^ k" using assms(1) by (simp add: power_add)
    ultimately have "(10 :: nat) ^ (n - 1 + k) < 10 ^ precision" by linarith
    then have "n - 1 + k < precision" by (metis power_less_imp_less_exp one_less_numeral_iff semiring_norm(76))
    with assms(4) show "n + k \<le> precision" by linarith
  next
    assume "n + k \<le> precision"
    then have "(10 :: nat) ^ (n + k) \<le> 10 ^ precision" by (intro power_increasing) simp_all
    moreover have "d * 10 ^ k < 10 ^ n * 10 ^ k" using assms(2) by simp
    ultimately show "d * 10 ^ k < 10 ^ precision" unfolding power_add by (rule order.strict_trans2 [rotated])
  qed
  also have "\<dots> \<longleftrightarrow> int n - sp \<le> int precision - int scale" using True by (auto simp: k_def)
  finally show ?thesis using True by simp
next
  case False
  define k where "k = nat (sp - int scale)"
  have "of_nat d * power_int (10 :: rat) (- sp) * 10 ^ scale * 10 ^ k = of_nat d"
  proof -
    have "scale + k = nat sp" using False by (simp add: k_def)
    then have "(10 :: rat) ^ scale * 10 ^ k = power_int 10 sp" using False by (simp add: power_int_def flip: power_add)
    then show ?thesis by (simp add: power_int_minus field_simps)
  qed
  then have "d = j * 10 ^ k" if "of_nat d * power_int (10 :: rat) (- sp) * 10 ^ scale = of_int j" for j :: int
    using that by (metis (no_types, lifting) of_int_eq_iff of_int_mult of_int_numeral of_int_of_nat_eq of_int_power)
  then have "(10 :: int) ^ k dvd int d" if "of_nat d * power_int (10 :: rat) (- sp) * 10 ^ scale = of_int j" for j :: int
    using that by (metis dvd_triv_right)
  moreover have "\<not> (10 :: int) ^ k dvd int d"
  proof
    assume "(10 :: int) ^ k dvd int d"
    moreover have "(10 :: int) dvd 10 ^ k" using False by (simp add: k_def)
    ultimately have "int 10 dvd int d" using dvd_trans by fastforce
    with assms(3) show False by (simp only: int_dvd_int_iff)
  qed
  ultimately show ?thesis using False by (auto simp: representable_def)
qed

section \<open>The text of a scaled coefficient\<close>

text \<open>The value and the pattern of a plain decimal text.\<close>

lemma plain_decimal:
  assumes "integer_digits ds" "list_all is_digit fr" and that: "sign \<in> {[], ''-''}"
  shows "decimalPattern (sign @ number_text ds fr [])" "json_value (sign @ number_text ds fr []) =
      (if sign = [] then 1 else - 1) * (of_nat (dec_value (ds @ fr)) * power_int 10 (- int (length fr)))"
proof -
  have ds: "ds \<noteq> []" "list_all is_digit ds" using assms(1) by (simp_all add: integer_digits_def)
  then have hd: "hd (number_text ds fr []) \<noteq> CHR ''-''" "number_text ds fr [] \<noteq> []"
    using not_digit by (cases ds; auto simp: number_text_def)+
  then have strip: "strip_minus (sign @ number_text ds fr []) = (sign \<noteq> [], number_text ds fr [])"
    using that by (auto simp: strip_minus_def split: list.splits)
  let ?rest = "(if fr = [] then [] else CHR ''.'' # fr) @ []"
  have "?rest = [] \<or> \<not> is_digit (hd ?rest)" by simp
  from takeWhile_dropWhile_digits [OF ds(2) this] have t: "takeWhile is_digit (number_text ds fr []) = ds"
    "dropWhile is_digit (number_text ds fr []) = ?rest" by (simp_all add: number_text_def)
  have "split_fraction ?rest = Some (fr, [])"
    using assms(2) by (auto simp: split_fraction_def list_all_iff takeWhile_eq_all_conv [THEN iffD2] dropWhile_eq_Nil_conv [THEN iffD2])
  then have sf: "split_fraction (dropWhile is_digit (number_text ds fr [])) = Some (fr, [])" unfolding t .
  show "decimalPattern (sign @ number_text ds fr [])"
    by (simp add: decimalPattern_def strip t(1) sf assms(1))
  have "json_value (sign @ number_text ds fr []) = (if sign = [] then 1 else - 1) *
      ((of_nat (dec_value ds) + of_nat (dec_value fr) / 10 ^ length fr) * power_int (10 :: rat) 0)"
    unfolding json_value_def strip Let_def by (simp add: t(1) sf exponent_value_def)
  then show "json_value (sign @ number_text ds fr []) =
      (if sign = [] then 1 else - 1) * (of_nat (dec_value (ds @ fr)) * power_int 10 (- int (length fr)))"
    unfolding scaled_value by simp
qed

lemma scaled_text_parts:
  assumes "list_all is_digit c" "c \<noteq> []" "hd c \<noteq> CHR ''0''"
  obtains ds fr where "scaled_text c sp = number_text ds fr []" "integer_digits ds" "list_all is_digit fr"
    "of_nat (dec_value (ds @ fr)) * power_int (10 :: rat) (- int (length fr)) = of_nat (dec_value c) * power_int 10 (- sp)"
proof -
  have zeros: "list_all is_digit (replicate n (CHR ''0''))" for n by (simp add: list_all_iff is_digit_def)
  consider "sp \<le> 0" | "0 < sp" "nat sp \<ge> length c" | "0 < sp" "nat sp < length c" by linarith
  then show thesis
  proof cases
    case 1
    let ?ds = "c @ replicate (nat (- sp)) (CHR ''0'')"
    have "of_nat (dec_value ?ds) = of_nat (dec_value c) * power_int (10 :: rat) (- sp)"
      using 1 by (simp add: dec_value_append dec_value_zeros power_int_def)
    moreover have "integer_digits ?ds" using assms zeros by (cases c) (auto simp: integer_digits_def)
    ultimately show thesis using 1 by (intro that [of ?ds "[]"]) (simp_all add: scaled_text_def number_text_def)
  next
    case 2
    let ?fr = "replicate (nat sp - length c) (CHR ''0'') @ c"
    have "dec_value (''0'' @ ?fr) = dec_value c" "int (length ?fr) = sp"
      using 2 by (simp_all add: dec_value_append dec_value_zeros dec_value_Cons)
    moreover have "integer_digits ''0''" by (simp add: integer_digits_def is_digit_def)
    moreover have "number_text ''0'' ?fr [] = scaled_text c sp" using 2 assms(2) by (simp add: scaled_text_def number_text_def)
    ultimately show thesis using assms(1) zeros by (intro that [of "''0''" ?fr]) simp_all
  next
    case 3
    let ?ds = "take (length c - nat sp) c" and ?fr = "drop (length c - nat sp) c"
    have "list_all is_digit ?ds" "list_all is_digit ?fr"
      using assms(1) by (auto simp: list_all_iff dest: in_set_takeD in_set_dropD)
    moreover have "?ds \<noteq> [] \<and> hd ?ds = hd c \<and> ?fr \<noteq> []" using 3 assms(2) by (simp add: hd_take)
    moreover have "int (length ?fr) = sp" using 3 by simp
    moreover from calculation(2) have "number_text ?ds ?fr [] = scaled_text c sp" using 3 by (simp add: scaled_text_def number_text_def)
    ultimately show thesis using assms(3) by (intro that [of ?ds ?fr]) (simp_all add: integer_digits_def)
  qed
qed

section \<open>Exactness\<close>

text \<open>A saturated exponent is far enough from the representable range to change nothing.\<close>

lemma finish_decimal_exact:
  fixes ds fr :: string and e E :: int and bound :: nat
  defines "D \<equiv> of_nat (dec_value (significant (ds @ fr))) :: rat" and "SP \<equiv> int (length fr) - E - int (trailing_zeros (ds @ fr))"
  assumes "integer_digits ds" "list_all is_digit fr" "scale \<le> precision" "significant (ds @ fr) \<noteq> []"
    and "length (ds @ fr) \<le> bound"
    and "e = E \<or> int (bound + precision + scale + 1) \<le> e \<and> e \<le> E \<or> e \<le> - int (bound + precision + scale + 1) \<and> E \<le> e"
    and "\<not> (negative \<and> unsigned)"
  shows "case finish_decimal precision scale unsigned negative e (read_mantissa ds fr) of
      Inl _ \<Rightarrow> \<not> representable (D * power_int 10 (- SP)) precision scale
    | Inr out \<Rightarrow> representable (D * power_int 10 (- SP)) precision scale \<and> decimalPattern out \<and>
        json_value out = (if negative then - 1 else 1) * (D * power_int 10 (- SP))"
proof -
  let ?all = "ds @ fr" and ?sig = "significant (ds @ fr)" and ?n = "int (length (significant (ds @ fr)))"
  let ?sp = "int (length fr) - e - int (trailing_zeros (ds @ fr))"
  have dg: "list_all is_digit ?all" "ds \<noteq> []" using assms(3,4) by (simp_all add: integer_digits_def)
  note sig = significant_bounds [OF dg(1) assms(6)]
  have repr: "representable (D * power_int 10 (- SP)) precision scale \<longleftrightarrow> SP \<le> int scale \<and> ?n - SP \<le> int precision - int scale"
    unfolding D_def by (rule representable_scaled [OF sig(1,2,3) _ assms(5)]) (use assms(6) in simp)
  have tz: "trailing_zeros ?all \<le> bound" "length fr \<le> bound"
    using assms(7) length_dropWhile_le [of zero_char ?all] by (simp_all add: trailing_zeros_def)
  have n: "1 \<le> ?n" using assms(6) by (cases ?sig) simp_all
  have same: "SP \<le> int scale \<and> ?n - SP \<le> int precision - int scale \<longleftrightarrow> ?sp \<le> int scale \<and> ?n - ?sp \<le> int precision - int scale"
    and eq: "?sp \<le> int scale \<and> ?n - ?sp \<le> int precision - int scale \<Longrightarrow> ?sp = SP"
    using assms(8) tz n unfolding SP_def by linarith+
  have guard: "(if ?sp < 0 then 0 else ?sp) > int scale \<or> (if ?sp < ?n then ?n - ?sp else 0) > int precision - int scale \<longleftrightarrow>
      \<not> (?sp \<le> int scale \<and> ?n - ?sp \<le> int precision - int scale)"
    using assms(5) n by auto
  have m: "finish_decimal precision scale unsigned negative e (read_mantissa ds fr) =
      (if ?sp \<le> int scale \<and> ?n - ?sp \<le> int precision - int scale then Inr ((if negative then ''-'' else []) @ scaled_text ?sig ?sp)
       else Inl ''decimal value is not exactly representable by the source precision and scale'')"
    using dg(2) assms(6,9) guard by (auto simp: finish_decimal_def read_mantissa_def Let_def)
  have "list_all is_digit ?sig" using dg(1) set_significant by (fastforce simp: list_all_iff)
  from scaled_text_parts [OF this assms(6) sig(4), of ?sp] obtain a b where ab: "scaled_text ?sig ?sp = number_text a b []"
    "integer_digits a" "list_all is_digit b" "of_nat (dec_value (a @ b)) * power_int (10 :: rat) (- int (length b)) = D * power_int 10 (- ?sp)"
    unfolding D_def by blast
  have "(if negative then ''-'' else []) \<in> {[], ''-''}" by simp
  from plain_decimal [OF ab(2,3) this] eq show ?thesis
    unfolding m repr same ab(1) ab(4) by auto
qed

lemma zero_decimal: "decimalPattern ''0''" "json_value ''0'' = 0"
  by (simp_all add: decimalPattern_def json_value_def strip_minus_def split_fraction_def integer_digits_def is_digit_def digit_value_def dec_value_Cons)

lemma normalize_exact:
  assumes "jsonNumberPattern s" "scale \<le> precision"
  shows "case normalizeExactKeysetDecimal s precision scale unsigned of
      Inl _ \<Rightarrow> \<not> (representable (json_value s) precision scale \<and> (unsigned \<longrightarrow> 0 \<le> json_value s))
    | Inr out \<Rightarrow> representable (json_value s) precision scale \<and> (unsigned \<longrightarrow> 0 \<le> json_value s) \<and>
        decimalPattern out \<and> json_value out = json_value s"
proof -
  obtain neg ds fr r where st: "strip_minus s = (neg, number_text ds fr r)" and id: "integer_digits ds" and fr: "list_all is_digit fr"
    and ex: "exponentSuffix r" and tw: "takeWhile is_digit (number_text ds fr r) = ds"
    "split_fraction (dropWhile is_digit (number_text ds fr r)) = Some (fr, r)"
    by (rule jsonNumberPattern_parts [OF assms(1)])
  let ?all = "ds @ fr" and ?E = "exponent_value (tl r)" and ?body = "ds @ (if fr = [] then [] else CHR ''.'' # fr)"
  let ?M = "of_nat (dec_value (significant ?all)) * power_int (10 :: rat) (- (int (length fr) - ?E - int (trailing_zeros ?all)))"
  have ds: "ds \<noteq> []" "list_all is_digit ds" "list_all is_digit ?all" using id fr by (simp_all add: integer_digits_def)
  have "length (snd (strip_minus s)) \<le> length s" by (simp add: strip_minus_def split: list.splits)
  then have len: "length ?all \<le> length s" "length ?body < length (number_text ds fr r) \<longleftrightarrow> r \<noteq> []"
    unfolding st by (simp_all add: number_text_def split: if_splits)
  have plus: "hd (number_text ds fr r) \<noteq> CHR ''+''" "number_text ds fr r \<noteq> []" "s \<noteq> []"
    using ds st not_digit by (cases ds; auto simp: number_text_def strip_minus_def split: list.splits if_splits)+
  have "json_value s = (if neg then - 1 else 1) * (of_nat (dec_value ?all) * power_int 10 (?E - int (length fr)))"
    unfolding json_value_def st Let_def by (simp add: tw scaled_value)
  also have "of_nat (dec_value ?all) * power_int (10 :: rat) (?E - int (length fr)) = ?M"
    using significant_value [OF ds(3)] by (simp add: power_int_add power_int_diff power_int_minus field_simps)
  finally have value_eq: "json_value s = (if neg then - 1 else 1) * ?M" .
  have "\<exists>e. (if r \<noteq> [] then parseBoundedKeysetDecimalExponent (tl r) (length s + precision + scale + 1) else Some 0) = Some e \<and>
      (e = ?E \<or> int (length s + precision + scale + 1) \<le> e \<and> e \<le> ?E \<or> e \<le> - int (length s + precision + scale + 1) \<and> ?E \<le> e)"
  proof (cases "r = []")
    case False
    from parseBounded_number [OF ex False, where maximum = "length s + precision + scale + 1"] show ?thesis
      using False by auto
  qed (simp add: exponent_value_def)
  then obtain e where e: "(if r \<noteq> [] then parseBoundedKeysetDecimalExponent (tl r) (length s + precision + scale + 1) else Some 0) = Some e"
    "e = ?E \<or> int (length s + precision + scale + 1) \<le> e \<and> e \<le> ?E \<or> e \<le> - int (length s + precision + scale + 1) \<and> ?E \<le> e" by blast
  have code: "normalizeExactKeysetDecimal s precision scale unsigned =
      (if length (significant ?all) \<le> precision then finish_decimal precision scale unsigned neg e (read_mantissa ds fr)
       else Inl ''decimal value exceeds the source precision'')"
    unfolding normalizeExactKeysetDecimal_def st Let_def prod.case split_exponent_number [OF ds(2) fr ex] len(2) e(1) option.case
      mantissa_loop_exact [OF ds(1,2) fr, of precision]
    using plus by (simp only: if_False simp_thms split: if_splits) simp
  show ?thesis
  proof (cases "significant ?all = []")
    case True
    then have "json_value s = 0" by (simp add: value_eq)
    moreover have "representable 0 precision scale" unfolding representable_def by (rule exI [of _ 0]) simp
    ultimately show ?thesis using True ds(1) zero_decimal by (simp add: code finish_decimal_def read_mantissa_def)
  next
    case False
    note sig = significant_bounds [OF ds(3) False]
    have pos: "0 < ?M" using sig(1) by (simp add: zero_less_power_int less_le_trans [OF _ sig(1)])
    have repr: "representable (json_value s) precision scale \<longleftrightarrow> representable ?M precision scale" by (simp add: value_eq representable_minus)
    show ?thesis
    proof (cases "length (significant ?all) \<le> precision \<and> \<not> (neg \<and> unsigned)")
      case ok: True
      have "unsigned \<longrightarrow> 0 \<le> json_value s" using ok pos by (auto simp: value_eq)
      with finish_decimal_exact [OF id fr assms(2) False len(1) e(2), of neg unsigned] ok show ?thesis
        by (auto simp: code value_eq representable_minus split: sum.splits)
    next
      case bad: False
      have "\<not> (representable ?M precision scale \<and> (unsigned \<longrightarrow> 0 \<le> json_value s))"
      proof (cases "length (significant ?all) \<le> precision")
        case True
        with bad pos show ?thesis by (auto simp: value_eq)
      next
        case long: False
        have "representable ?M precision scale \<Longrightarrow> length (significant ?all) \<le> precision"
          unfolding representable_scaled [OF sig(1,2,3) length_greater_0_conv [THEN iffD2, OF False] assms(2)] by linarith
        with long show ?thesis by blast
      qed
      moreover have "\<exists>x. normalizeExactKeysetDecimal s precision scale unsigned = Inl x"
        using bad ds(1) False by (auto simp: code finish_decimal_def read_mantissa_def)
      ultimately show ?thesis by (auto simp: repr)
    qed
  qed
qed

section \<open>Properties\<close>

text \<open>
  C34: a decimal operand is accepted exactly when a \<open>DECIMAL(precision, scale)\<close> column can hold the number it denotes
  without rounding, negative numbers only in signed columns; the text handed to the server is plain decimal text of
  the same number. No exponent, however large, makes the routine answer differently from exact arithmetic.
\<close>

theorem keyset_decimals_are_exact:
  assumes "jsonNumberPattern s" and "scale \<le> precision"
  shows "case normalizeExactKeysetDecimal s precision scale unsigned of
      Inl _ \<Rightarrow> \<not> (representable (json_value s) precision scale \<and> (unsigned \<longrightarrow> 0 \<le> json_value s))
    | Inr out \<Rightarrow> representable (json_value s) precision scale \<and> (unsigned \<longrightarrow> 0 \<le> json_value s) \<and>
        decimalPattern out \<and> json_value out = json_value s"
  by (rule normalize_exact [OF assms])

theorem keyset_decimals_are_exact_witness:
  "json_value ''1250e-2'' = json_value ''12.5'' \<and> representable (json_value ''1250e-2'') 5 2"
proof -
  have "jsonNumberPattern ''1250e-2''" "normalizeExactKeysetDecimal ''1250e-2'' 5 2 True = Inr ''12.5''" by code_simp+
  with keyset_decimals_are_exact [of "''1250e-2''" 2 5 True] show ?thesis by simp
qed

end
