(* ===== verification/Keyset_Statement.thy ===== *)
theory Keyset_Statement
  imports Keyset_Columns Keyset_Decimal
begin

text \<open>
  The statement of a keyset page in \<^verbatim>\<open>internal/adapters/mysql8/keyset.go\<close>: the binding of filter values against the
  metadata of their columns, the condition that selects the rows after a cursor, and the whole SELECT. The
  theorems follow the text through the lexer, read the cursor condition as a strict lexicographic order, and
  show that an integer reaches the server only inside the range of its column.
\<close>

section \<open>Integers and decimals\<close>

definition aggregateSourceAlias :: string where
  "aggregateSourceAlias = ''__quordon_source''"

definition qualifyAggregateField :: "string \<Rightarrow> string" where
  "qualifyAggregateField field = sql_quote aggregateSourceAlias @ ''.'' @ sql_quote field"

definition bind_decimal :: "string \<Rightarrow> keysetSourceColumn \<Rightarrow> adapter_error + sql_arg" where
  "bind_decimal s column =
     bind_result (keysetDecimalDefinition column) (\<lambda>(precision, scale).
       case normalizeExactKeysetDecimal s precision scale (is_unsigned column) of
         Inl _ \<Rightarrow> Inl (DatabaseError ErrorInvalid)
       | Inr t \<Rightarrow> Inr (ArgBound (BoundString t)))"

section \<open>Dates and times\<close>

definition bind_date :: "string \<Rightarrow> adapter_error + sql_arg" where
  "bind_date s =
     (case time_parse_date s of
        None \<Rightarrow> Inl (DatabaseError ErrorInvalid)
      | Some t \<Rightarrow> if \<not> in_range mysqlDateMinimum mysqlDateMaximum t then Inl (DatabaseError ErrorInvalid)
                  else Inr (ArgBound (BoundString (format_date t))))"

text \<open>\<^verbatim>\<open>time.Parse(time.RFC3339Nano, value)\<close>: the wall clock of the text and its offset from UTC in seconds.\<close>

definition zone_offset :: "string \<Rightarrow> int" where
  "zone_offset s =
     (case s of
        c # h1 # h2 # k # m1 # m2 # r \<Rightarrow>
          (if c = CHR ''-'' then - 1 else 1) *
            int ((digit_value h1 * 10 + digit_value h2) * 3600 + (digit_value m1 * 10 + digit_value m2) * 60)
      | _ \<Rightarrow> 0)"

definition time_parse_rfc3339 :: "string \<Rightarrow> (Time \<times> int) option" where
  "time_parse_rfc3339 s =
     (case parse_date_prefix s of None \<Rightarrow> None | Some ((y, m, d), s1) \<Rightarrow>
      case skip_char (CHR ''T'') s1 of None \<Rightarrow> None | Some s2 \<Rightarrow>
      case parse_clock_prefix s2 of None \<Rightarrow> None | Some ((h, mi, sec), s3) \<Rightarrow>
      let s4 = skip_fraction s3 in
      case parse_zone s4 of None \<Rightarrow> None | Some r \<Rightarrow>
      if r = [] \<and> valid_day y m d
      then Some (\<lparr>Year = y, Month = m, Day = d, Hour = h, Minute = mi, Second = sec,
                   Nanosecond = (if s4 = s3 then 0 else fraction_nanos (takeWhile is_digit (tl s3)))\<rparr>, zone_offset s4)
      else None)"

definition next_day :: "nat \<times> nat \<times> nat \<Rightarrow> nat \<times> nat \<times> nat" where
  "next_day ymd = (case ymd of (y, m, d) \<Rightarrow>
     if d < days_in m y then (y, m, d + 1) else if m < 12 then (y, m + 1, 1) else (y + 1, 1, 1))"

definition prev_day :: "nat \<times> nat \<times> nat \<Rightarrow> nat \<times> nat \<times> nat" where
  "prev_day ymd = (case ymd of (y, m, d) \<Rightarrow>
     if 1 < d then (y, m, d - 1) else if 1 < m then (y, m - 1, days_in (m - 1) y) else (y - 1, 12, 31))"

text \<open>
  \<open>parsed.UTC()\<close>. The offset is below 26 hours and the year is at least 1, so that the shift is at most two days and the
  year stays a natural number.
\<close>

definition to_utc :: "Time \<Rightarrow> int \<Rightarrow> Time" where
  "to_utc t offset =
     (let seconds = int (Hour t * 3600 + Minute t * 60 + Second t) - offset;
          days = seconds div 86400; rest = nat (seconds mod 86400) in
      case (if 0 \<le> days then (next_day ^^ nat days) else (prev_day ^^ nat (- days))) (Year t, Month t, Day t) of
        (y, m, d) \<Rightarrow> utc_date y m d (rest div 3600) (rest div 60 mod 60) (rest mod 60) (Nanosecond t))"

text \<open>\<^verbatim>\<open>Format("2006-01-02 15:04:05.999999")\<close>: up to six digits of fraction without trailing zeros.\<close>

definition format_micro :: "Time \<Rightarrow> string" where
  "format_micro t =
     (let fraction = rev (dropWhile zero_char (rev (fixed_digits 6 (Nanosecond t div 1000)))) in
      format_datetime t @ (if fraction = [] then [] else CHR ''.'' # fraction))"

definition upper_markers :: "string \<Rightarrow> string" where
  "upper_markers s =
     (let s1 = (if length s > 10 \<and> s ! 10 = CHR ''t'' then s[10 := CHR ''T''] else s) in
      if s1 \<noteq> [] \<and> last s1 = CHR ''z'' then butlast s1 @ ''Z'' else s1)"

definition bind_datetime :: "string \<Rightarrow> keysetSourceColumn \<Rightarrow> adapter_error + sql_arg" where
  "bind_datetime s column =
     (case time_parse_rfc3339 (upper_markers s) of
        None \<Rightarrow> Inl (Problem ''cannot parse datetime'')
      | Some (parsed, offset) \<Rightarrow>
          bind_result (mysqlKeysetTemporalPrecision column) (\<lambda>precision.
            let timestamp = (normalized_type column = ''TIMESTAMP'');
                boundTime = (if timestamp then to_utc parsed offset else parsed);
                low = (if timestamp then mysqlTimestampMinimum else mysqlDatetimeMinimum);
                high = (if timestamp then mysqlTimestampMaximum else mysqlDatetimeMaximum) in
            check (first_error [
              fail_if (Nanosecond parsed mod 10 ^ (9 - precision) \<noteq> 0) (DatabaseError ErrorInvalid),
              fail_if (\<not> in_range low high boundTime) (DatabaseError ErrorInvalid)])
            (Inr (ArgBound (BoundString (format_micro boundTime))))))"

section \<open>Filters\<close>

definition bindKeysetFilterValue :: "TypedValue \<Rightarrow> keysetSourceColumn \<Rightarrow> adapter_error + sql_arg" where
  "bindKeysetFilterValue v column =
     bind_result (map_error (\<lambda>_. DatabaseError ErrorInvalid) (BindValue v)) (\<lambda>b.
       if tv_Type v = ''integer'' then
         (case b of BoundInt i \<Rightarrow> bindKeysetInteger (itoa_int i) column | _ \<Rightarrow> Inl (DatabaseError ErrorInvalid))
       else if tv_Type v = ''decimal'' then
         (case b of BoundString s \<Rightarrow> bind_decimal s column | _ \<Rightarrow> Inl (DatabaseError ErrorInvalid))
       else if tv_Type v = ''date'' then
         (case b of BoundString s \<Rightarrow> bind_date s | _ \<Rightarrow> Inl (DatabaseError ErrorInvalid))
       else if tv_Type v \<noteq> ''datetime'' then Inr (ArgBound b)
       else (case b of BoundString s \<Rightarrow> bind_datetime s column | _ \<Rightarrow> Inl (Problem ''invalid datetime binding'')))"

definition keysetFilterPlaceholder :: "TypedValue \<Rightarrow> keysetSourceColumn \<Rightarrow> adapter_error + string" where
  "keysetFilterPlaceholder v column =
     (if tv_Type v = ''string'' \<or> tv_Type v = ''uuid'' then keysetCharacterOperand column
      else if tv_Type v = ''date'' then Inr ''CAST(? AS DATE)''
      else if tv_Type v = ''datetime'' then
        bind_result (mysqlKeysetTemporalPrecision column) (\<lambda>precision.
          Inr (''CAST(? AS DATETIME('' @ itoa precision @ ''))''))
      else if tv_Type v = ''decimal'' then
        bind_result (keysetDecimalDefinition column) (\<lambda>(precision, scale).
          Inr (''CAST(? AS DECIMAL('' @ itoa precision @ '','' @ itoa scale @ ''))''))
      else Inr ''?'')"

definition keyset_operand :: "keysetSourceColumn \<Rightarrow> TypedValue \<Rightarrow> adapter_error + string \<times> sql_arg" where
  "keyset_operand column v =
     bind_result (bindKeysetFilterValue v column) (\<lambda>arg.
       bind_result (keysetFilterPlaceholder v column) (\<lambda>placeholder. Inr (placeholder, arg)))"

definition compile_keyset_predicate ::
  "column_map \<Rightarrow> string \<Rightarrow> string \<Rightarrow> TypedValue list option \<Rightarrow> adapter_error + compiled" where
  "compile_keyset_predicate columns name operator_name vals =
     (case sql_operator operator_name of
        None \<Rightarrow> Inl (Problem ''unsupported keyset filter operator'')
      | Some op \<Rightarrow>
          let field = qualifyAggregateField name in
          if operator_name = ''is_null'' \<or> operator_name = ''is_not_null'' then Inr (field @ '' '' @ op, [])
          else case map_of columns (ToLower name) of
                 None \<Rightarrow> Inl (Problem ''unknown keyset filter field'')
               | Some column \<Rightarrow>
                   bind_result (sequence_results (map (keyset_operand column) (filter_values vals))) (\<lambda>operands.
                     if operator_name = ''in'' \<or> operator_name = ''not_in'' then
                       Inr (field @ '' '' @ op @ '' ('' @ join '', '' (map fst operands) @ '')'', map snd operands)
                     else Inr (field @ '' '' @ op @ '' '' @ hd (map fst operands), map snd operands)))"

fun compileKeysetFilter :: "column_map \<Rightarrow> Filter \<Rightarrow> adapter_error + compiled" where
  "compileKeysetFilter columns (Filter rep kind field op vals exprs) =
     (if rep = RepresentationSourceText then compileSourceTextFilter op vals (qualifyAggregateField field)
      else if kind = ''group'' then
        bind_result (sequence_results (map (compileKeysetFilter columns) exprs)) (\<lambda>parts. Inr (combine_parts op parts))
      else compile_keyset_predicate columns field op vals)"

section \<open>Cursors\<close>

definition cursor_operator :: "Sort \<Rightarrow> string" where
  "cursor_operator order = (if sort_Direction order = ''desc'' then ''<'' else ''>'')"

text \<open>The comparisons of the condition: a disjunction of conjunctions, each comparison a key position and an operator.\<close>

definition cursor_shape :: "Sort list \<Rightarrow> (nat \<times> string) list list" where
  "cursor_shape orders =
     map (\<lambda>i. map (\<lambda>j. (j, ''='')) [0..<i] @ [(i, cursor_operator (orders ! i))]) [0..<length orders]"

definition keyset_term :: "Sort \<Rightarrow> string" where
  "keyset_term order = representedField (qualifyAggregateField (sort_Field order)) (sort_Representation order) True"

definition cursor_comparison ::
  "Sort list \<Rightarrow> KeysetCursorValue list \<Rightarrow> keysetSourceColumn list \<Rightarrow> nat \<times> string \<Rightarrow> adapter_error + string \<times> sql_arg" where
  "cursor_comparison orders cursor columns c = (case c of (j, op) \<Rightarrow>
     bind_result (keysetCursorPlaceholder (cursor ! j) (columns ! j)) (\<lambda>placeholder.
     bind_result (bindKeysetCursor (cursor ! j) (columns ! j)) (\<lambda>arg.
       Inr (keyset_term (orders ! j) @ '' '' @ op @ '' '' @ placeholder, arg))))"

definition cursor_part ::
  "Sort list \<Rightarrow> KeysetCursorValue list \<Rightarrow> keysetSourceColumn list \<Rightarrow> (nat \<times> string) list \<Rightarrow> adapter_error + compiled" where
  "cursor_part orders cursor columns part =
     bind_result (sequence_results (map (cursor_comparison orders cursor columns) part)) (\<lambda>terms.
       Inr (''('' @ join '' AND '' (map fst terms) @ '')'', map snd terms))"

definition compileKeysetCursor :: "NormalizedKeysetRequest \<Rightarrow> keysetSource \<Rightarrow> adapter_error + compiled" where
  "compileKeysetCursor request src =
     (let orders = ks_OrderBy (nk_Query request); cursor = page_cursor (nk_Page request) in
      bind_result (sequence_results (map (cursor_part orders cursor (src_keyColumns src)) (cursor_shape orders))) (\<lambda>parts.
        Inr (''('' @ join '' OR '' (map fst parts) @ '')'', concat (map snd parts))))"

section \<open>The statement\<close>

definition keyset_expression :: "Selection \<Rightarrow> string" where
  "keyset_expression s =
     representedField (qualifyAggregateField (sel_Field s)) (sel_Representation s) False @
     (if sel_Alias s \<noteq> [] then '' AS '' @ sql_quote (sel_Alias s) else [])"

text \<open>The hidden markers that check character keys.\<close>

definition guard_expression :: "keysetSourceColumn \<times> string \<Rightarrow> adapter_error + string list" where
  "guard_expression p = (case p of (column, kind) \<Rightarrow>
     if kind \<noteq> ''string'' \<or> col_representation column = RepresentationSourceText then Inr []
     else if \<not> validKeysetCharacterMetadata column then Inl invalidKeysetCharacterError
     else let field = qualifyAggregateField (col_name column) in
       Inr [keysetCharacterRoundTrip field field ''utf8mb4'' (col_characterSet column)])"

definition keyset_where :: "NormalizedKeysetRequest \<Rightarrow> keysetSource \<Rightarrow> adapter_error + compiled list" where
  "keyset_where request src =
     bind_result (case ks_Filter (nk_Query request) of
         None \<Rightarrow> Inr []
       | Some f \<Rightarrow> bind_result (compileKeysetFilter (src_columns src) f) (\<lambda>c. Inr [c])) (\<lambda>filters.
     bind_result (if kp_Kind (nk_Page request) = ''after''
         then bind_result (compileKeysetCursor request src) (\<lambda>c. Inr [c]) else Inr []) (\<lambda>cursors.
     Inr (filters @ cursors)))"

definition keyset_order_term :: "Sort \<Rightarrow> string" where
  "keyset_order_term order = keyset_term order @ '' '' @ ToUpper (sort_Direction order)"

definition compileKeyset :: "NormalizedKeysetRequest \<Rightarrow> keysetSource \<Rightarrow> int \<Rightarrow> adapter_error + compiled" where
  "compileKeyset request src deadlineMS =
     (let query = nk_Query request in
      check (fail_if (length (src_keyColumns src) \<noteq> length (src_keyKinds src)) (DatabaseError ErrorUpstream))
      (bind_result (sequence_results (map guard_expression (zip (src_keyColumns src) (src_keyKinds src)))) (\<lambda>guards.
       bind_result (keyset_where request src) (\<lambda>conditions.
       Inr (''SELECT '' @ execution_hint deadlineMS @ '' '' @
            join '', '' (map keyset_expression (ks_Projection query) @ concat guards) @
            from_clause (ks_Source query) @ '' AS '' @ sql_quote aggregateSourceAlias @
            (if conditions = [] then [] else '' WHERE '' @ join '' AND '' (map fst conditions)) @
            '' ORDER BY '' @ join '', '' (map keyset_order_term (ks_OrderBy query)) @ '' LIMIT ?'',
            concat (map snd conditions) @ [ArgInt (ks_Limit query + 1)])))))"

definition classifyKeysetCompileError :: "adapter_error \<Rightarrow> adapter_error" where
  "classifyKeysetCompileError e = (case e of DatabaseError k \<Rightarrow> DatabaseError k | _ \<Rightarrow> DatabaseError ErrorUpstream)"

section \<open>Character validation\<close>

text \<open>One comparison per textual operand, each with the operand bound twice.\<close>

definition character_check :: "string \<Rightarrow> keysetSourceColumn \<Rightarrow> adapter_error + string \<times> sql_arg list" where
  "character_check value column =
     check (fail_if (\<not> validKeysetCharacterMetadata column \<or> \<not> ValidString value) invalidKeysetCharacterError)
     (Inr (keysetCharacterRoundTrip ''CAST(? AS CHAR CHARACTER SET utf8mb4)'' ''?'' (col_characterSet column) ''utf8mb4'',
           [ArgBound (BoundString value), ArgBound (BoundString value)]))"

definition value_check :: "column_map \<Rightarrow> string \<Rightarrow> TypedValue \<Rightarrow> adapter_error + (string \<times> sql_arg list) list" where
  "value_check columns field v =
     (if tv_Type v \<noteq> ''string'' \<and> tv_Type v \<noteq> ''uuid'' then Inr []
      else case map_of columns (ToLower field) of
             None \<Rightarrow> Inl invalidKeysetCharacterError
           | Some column \<Rightarrow>
               (case BindValue v of
                  Inr (BoundString s) \<Rightarrow> bind_result (character_check s column) (\<lambda>c. Inr [c])
                | _ \<Rightarrow> Inl invalidKeysetCharacterError))"

fun filter_checks :: "column_map \<Rightarrow> Filter \<Rightarrow> adapter_error + (string \<times> sql_arg list) list" where
  "filter_checks columns (Filter rep kind field op vals exprs) =
     (if kind = ''group'' then
        bind_result (sequence_results (map (filter_checks columns) exprs)) (\<lambda>cs. Inr (concat cs))
      else if rep = RepresentationSourceText then Inr []
      else bind_result (sequence_results (map (value_check columns field) (filter_values vals))) (\<lambda>cs. Inr (concat cs)))"

definition cursor_checks ::
  "keysetSourceColumn list \<Rightarrow> KeysetPage \<Rightarrow> adapter_error + (string \<times> sql_arg list) list" where
  "cursor_checks keyColumns page =
     (if kp_Kind page \<noteq> ''after'' then Inr []
      else if length (page_cursor page) \<noteq> length keyColumns then Inl invalidKeysetCharacterError
      else bind_result (sequence_results (map (\<lambda>(c, column).
          if kc_Type c = ''string'' \<and> col_representation column \<noteq> RepresentationSourceText
          then bind_result (character_check (kc_Value c) column) (\<lambda>c. Inr [c]) else Inr [])
        (zip (page_cursor page) keyColumns))) (\<lambda>cs. Inr (concat cs)))"

definition compileKeysetCharacterValidation :: "NormalizedKeysetRequest \<Rightarrow> keysetSource \<Rightarrow> adapter_error + compiled" where
  "compileKeysetCharacterValidation request src =
     bind_result (case ks_Filter (nk_Query request) of None \<Rightarrow> Inr [] | Some f \<Rightarrow> filter_checks (src_columns src) f) (\<lambda>a.
     bind_result (cursor_checks (src_keyColumns src) (nk_Page request)) (\<lambda>b.
       if a @ b = [] then Inr ([], [])
       else Inr (''SELECT '' @ join '', '' (map fst (a @ b)), concat (map snd (a @ b)))))"

section \<open>Reading operands\<close>

lemma calm_word: "is_word c \<Longrightarrow> calm c"
  by (auto simp: is_word_def is_word_start_def is_digit_def is_upper_def is_lower_def calm_defs)

lemma calm_words: "list_all is_word w \<Longrightarrow> list_all calm w"
  by (auto simp: list_all_iff calm_word)

lemma calm_itoa: "list_all calm (itoa n)"
proof -
  have "list_all is_digit (itoa n)" by simp
  then show ?thesis by (auto simp: list_all_iff is_word_def calm_word)
qed

lemma reads_mark: "list_all calm v \<Longrightarrow> list_all calm w \<Longrightarrow> reads (v @ ''?'' @ w) [Placeholder]"
  using reads_end [OF reads_question, of w] reads_question by (cases "w = []") (auto intro: reads_calm_prefix)

lemma reads_character_operand: "keysetCharacterOperand column = Inr p \<Longrightarrow> reads p [Placeholder]"
proof -
  assume "keysetCharacterOperand column = Inr p"
  then have v: "validKeysetCharacterMetadata column" and p: "p = ''CONVERT(CAST('' @ ''?'' @ ('' AS CHAR CHARACTER SET utf8mb4) USING '' @
      col_characterSet column @ '') COLLATE '' @ col_collation column)"
    by (auto simp: keysetCharacterOperand_def)
  from v have "list_all calm (col_characterSet column)" "list_all calm (col_collation column)"
    by (auto simp: validKeysetCharacterMetadata_def validMySQLCharacterName_def intro: calm_words)
  then show ?thesis unfolding p by (intro reads_mark) (simp_all add: calm_defs)
qed

lemma reads_casts:
  "reads ''CAST(? AS DATE)'' [Placeholder]"
  "reads (''CAST(? AS DATETIME('' @ itoa n @ ''))'') [Placeholder]"
  "reads (''CAST(? AS DECIMAL('' @ itoa n @ '','' @ itoa m @ ''))'') [Placeholder]"
  using reads_mark [of "''CAST(''" "'' AS DATE)''"] reads_mark [of "''CAST(''" "'' AS DATETIME('' @ itoa n @ ''))''"]
    reads_mark [of "''CAST(''" "'' AS DECIMAL('' @ itoa n @ '','' @ itoa m @ ''))''"] calm_itoa
  by (simp_all add: calm_defs)

lemmas reads_flat_casts = reads_casts [simplified append_Cons append_Nil]

lemma reads_cursor_placeholder: "keysetCursorPlaceholder v column = Inr p \<Longrightarrow> reads p [Placeholder]"
  by (auto simp: keysetCursorPlaceholder_def reads_flat_casts reads_cast_binary reads_question reads_character_operand split: if_splits)

lemma reads_filter_placeholder: "keysetFilterPlaceholder v column = Inr p \<Longrightarrow> reads p [Placeholder]"
  by (auto simp: keysetFilterPlaceholder_def reads_flat_casts reads_question reads_character_operand split: if_splits)

definition source_item :: "string \<Rightarrow> sql_item list" where
  "source_item field = [Name aggregateSourceAlias, Name field]"

lemma reads_aggregate_field: "reads (qualifyAggregateField field) (source_item field)"
proof -
  have "reads (sql_quote aggregateSourceAlias @ ''.'' @ sql_quote field) ([Name aggregateSourceAlias] @ [Name field])"
    by (intro reads_then reads_quote) (simp_all add: calm_defs)
  then show ?thesis by (simp add: qualifyAggregateField_def source_item_def)
qed

lemma reads_keyset_term: "reads (keyset_term order) (source_item (sort_Field order))"
  by (simp add: keyset_term_def reads_represented reads_aggregate_field)

section \<open>Reading filters\<close>

lemma keyset_operands_read:
  assumes "sequence_results (map (keyset_operand column) vs) = Inr operands"
  shows "list_all (\<lambda>p. reads p [Placeholder]) (map fst operands)" "length operands = length vs"
proof -
  from assms have eq: "map (keyset_operand column) vs = map Inr operands" by (simp add: sequence_results_Inr)
  then show len: "length operands = length vs" by (metis length_map)
  have "reads (fst (operands ! i)) [Placeholder]" if "i < length operands" for i
  proof -
    from eq len that have "keyset_operand column (vs ! i) = Inr (operands ! i)" by (metis nth_map)
    then show ?thesis by (cases "operands ! i") (auto simp: keyset_operand_def reads_filter_placeholder)
  qed
  then show "list_all (\<lambda>p. reads p [Placeholder]) (map fst operands)" by (simp add: list_all_length)
qed

lemma compile_keyset_predicate_reads:
  assumes c: "compile_keyset_predicate columns field op (Some vs) = Inr (t, args)" and ar: "valid_arity op (length vs)"
  shows "reads t (source_item field @ replicate (length vs) Placeholder) \<and> length args = length vs"
proof -
  note f = reads_aggregate_field [of field]
  obtain w where w: "sql_operator op = Some w" using sql_operator_arity [OF ar] by blast
  consider "op = ''is_null'' \<or> op = ''is_not_null''" | "op = ''in'' \<or> op = ''not_in''"
    | "op \<notin> {''is_null'', ''is_not_null'', ''in'', ''not_in''}" by blast
  then show ?thesis
  proof cases
    case 1
    with c w arity_zero [OF ar] reads_test [OF f w] show ?thesis by (auto simp: compile_keyset_predicate_def Let_def)
  next
    case 2
    with c w obtain column operands where "sequence_results (map (keyset_operand column) vs) = Inr operands"
      "t = qualifyAggregateField field @ '' '' @ w @ '' ('' @ join '', '' (map fst operands) @ '')''" "args = map snd operands"
      by (auto simp: compile_keyset_predicate_def Let_def filter_values_def split: option.splits)
    with reads_membership [OF f w keyset_operands_read(1)] keyset_operands_read(2) show ?thesis by (metis length_map)
  next
    case 3
    then have one: "length vs = 1" using arity_one [OF ar] by simp
    from 3 c w obtain column operands where o: "sequence_results (map (keyset_operand column) vs) = Inr operands"
      "t = qualifyAggregateField field @ '' '' @ w @ '' '' @ hd (map fst operands)" "args = map snd operands"
      by (auto simp: compile_keyset_predicate_def Let_def filter_values_def split: option.splits)
    from keyset_operands_read [OF o(1)] one obtain p a where "operands = [(p, a)]" "reads p [Placeholder]"
      by (cases operands) auto
    with o reads_comparison [OF f w] one show ?thesis by auto
  qed
qed

lemma compileKeysetFilter_reads:
  "compileKeysetFilter columns f = Inr (t, args) \<Longrightarrow> wf_filter f \<Longrightarrow>
     reads t (filter_items source_item f) \<and> length args = length (filter_operands f)"
proof (induction f arbitrary: t args rule: wf_filter.induct)
  case (1 rep kind field op vals exprs)
  show ?case
  proof (cases "kind = ''predicate''")
    case True
    with "1.prems"(2) obtain vs where vs: "vals = Some vs" "valid_arity op (length vs)" "\<forall>v \<in> set vs. valid_value rep v"
      by (cases vals) auto
    show ?thesis
    proof (cases "rep = RepresentationSourceText")
      case rep: True
      have "\<forall>v \<in> set vs. tv_Type v = ''string'' \<and> (\<exists>b. BindValue v = Inr b)" using vs(3) rep by (auto simp: valid_value_def)
      from compileSourceTextFilter_reads [OF reads_aggregate_field vs(2) this, of field] "1.prems"(1) show ?thesis
        using True rep vs(1) by (auto simp: filter_values_def list_all2_lengthD)
    next
      case rep: False
      with "1.prems"(1) True vs(1) compile_keyset_predicate_reads [OF _ vs(2)] show ?thesis by (auto simp: filter_values_def)
    qed
  next
    case False
    with "1.prems"(2) have g: "kind = ''group''" "rep = []" "op = ''and'' \<or> op = ''or''" "\<forall>e \<in> set exprs. wf_filter e"
      by auto
    with "1.prems"(1) obtain parts where parts: "map (compileKeysetFilter columns) exprs = map Inr parts" "(t, args) = combine_parts op parts"
      by (auto simp: RepresentationSourceText_def sequence_results_Inr)
    have each: "list_all2 (\<lambda>e c. reads (fst c) (filter_items source_item e) \<and> length (snd c) = length (filter_operands e)) exprs parts"
    proof (rule list_all2_all_nthI)
      show len: "length exprs = length parts" using parts(1) by (metis length_map)
      fix i assume i: "i < length exprs"
      with parts(1) len have "compileKeysetFilter columns (exprs ! i) = Inr (fst (parts ! i), snd (parts ! i))" by (metis nth_map prod.collapse)
      with "1.IH" [OF False nth_mem [OF i]] g(4) i
      show "reads (fst (parts ! i)) (filter_items source_item (exprs ! i)) \<and> length (snd (parts ! i)) = length (filter_operands (exprs ! i))"
        by (cases "parts ! i") simp
    qed
    have r: "list_all2 reads (map fst parts) (map (filter_items source_item) exprs)"
      using each by (auto simp: list_all2_conv_all_nth)
    have "map (length \<circ> snd) parts = map (length \<circ> filter_operands) exprs"
      using each by (auto simp: list_all2_conv_all_nth list_eq_iff_nth_eq)
    then have "length args = length (concat (map filter_operands exprs))" using parts(2) by (simp add: combine_parts_def length_concat)
    with reads_group [OF r g(3)] parts(2) g show ?thesis by (simp add: combine_parts_def)
  qed
qed

section \<open>Reading cursors\<close>

definition cursor_items :: "Sort list \<Rightarrow> sql_item list" where
  "cursor_items orders =
     concat (map (\<lambda>part. concat (map (\<lambda>c. source_item (sort_Field (orders ! fst c)) @ [Placeholder]) part)) (cursor_shape orders))"

lemma cursor_comparison_reads:
  assumes "cursor_comparison orders cursor columns c = Inr (t, arg)" "snd c \<in> {''='', ''<'', ''>''}"
  shows "reads t (source_item (sort_Field (orders ! fst c)) @ [Placeholder])"
proof -
  obtain j op where c: "c = (j, op)" by (cases c)
  with assms(1) obtain p where p: "keysetCursorPlaceholder (cursor ! j) (columns ! j) = Inr p"
    and t: "t = keyset_term (orders ! j) @ ('' '' @ op @ '' '') @ p" by (auto simp: cursor_comparison_def)
  have "list_all calm ('' '' @ op @ '' '')" using assms(2) by (auto simp: c calm_defs)
  from reads_then [OF reads_keyset_term this _ reads_cursor_placeholder [OF p]] show ?thesis by (simp add: t c)
qed

lemma reads_connected:
  assumes "list_all2 reads parts items" "sep \<in> {'' AND '', '' OR ''}"
  shows "reads (''('' @ join sep parts @ '')'') (concat items)"
proof -
  have "reads (join sep parts) (concat items)" using assms(2) by (intro reads_join [OF assms(1)]) (auto simp: calm_defs)
  then show ?thesis by (rule reads_wrap) (simp_all add: calm_defs)
qed

lemma cursor_part_reads:
  assumes "cursor_part orders cursor columns part = Inr (t, args)" "\<forall>c \<in> set part. snd c \<in> {''='', ''<'', ''>''}"
  shows "reads t (concat (map (\<lambda>c. source_item (sort_Field (orders ! fst c)) @ [Placeholder]) part)) \<and> length args = length part"
proof -
  from assms(1) obtain terms where terms: "map (cursor_comparison orders cursor columns) part = map Inr terms"
    "t = ''('' @ join '' AND '' (map fst terms) @ '')''" "args = map snd terms"
    by (auto simp: cursor_part_def sequence_results_Inr)
  have len: "length terms = length part" using terms(1) by (metis length_map)
  have "list_all2 reads (map fst terms) (map (\<lambda>c. source_item (sort_Field (orders ! fst c)) @ [Placeholder]) part)"
  proof (rule list_all2_all_nthI)
    fix i assume i: "i < length (map fst terms)"
    with terms(1) len have "cursor_comparison orders cursor columns (part ! i) = Inr (fst (terms ! i), snd (terms ! i))"
      by (metis length_map nth_map prod.collapse)
    from cursor_comparison_reads [OF this] assms(2) i len
    show "reads (map fst terms ! i) (map (\<lambda>c. source_item (sort_Field (orders ! fst c)) @ [Placeholder]) part ! i)" by simp
  qed (simp add: len)
  from reads_connected [OF this, of "'' AND ''"] len terms show ?thesis by simp
qed

lemma cursor_shape_operators: "part \<in> set (cursor_shape orders) \<Longrightarrow> \<forall>c \<in> set part. snd c \<in> {''='', ''<'', ''>''}"
  by (auto simp: cursor_shape_def cursor_operator_def split: if_splits)

lemma cursor_shape_size: "sum_list (map length (cursor_shape orders)) = keysetCursorParameterCount (length orders)"
proof -
  have "sum_list (map Suc [0..<n]) = n * (n + 1) div 2" for n by (induction n) simp_all
  then show ?thesis by (simp add: cursor_shape_def comp_def keysetCursorParameterCount_def)
qed

lemma compileKeysetCursor_reads:
  assumes "compileKeysetCursor request src = Inr (t, args)" "orders = ks_OrderBy (nk_Query request)"
  shows "reads t (cursor_items orders) \<and> length args = keysetCursorParameterCount (length orders)"
proof -
  let ?part = "cursor_part orders (page_cursor (nk_Page request)) (src_keyColumns src)"
  let ?items = "\<lambda>part. concat (map (\<lambda>c. source_item (sort_Field (orders ! fst c)) @ [Placeholder]) part)"
  from assms obtain parts where parts: "map ?part (cursor_shape orders) = map Inr parts"
    "t = ''('' @ join '' OR '' (map fst parts) @ '')''" "args = concat (map snd parts)"
    by (auto simp: compileKeysetCursor_def sequence_results_Inr Let_def)
  have len: "length parts = length (cursor_shape orders)" using parts(1) by (metis length_map)
  have each: "reads (fst (parts ! i)) (?items (cursor_shape orders ! i)) \<and> length (snd (parts ! i)) = length (cursor_shape orders ! i)"
    if "i < length parts" for i
  proof -
    from parts(1) len that have "?part (cursor_shape orders ! i) = Inr (fst (parts ! i), snd (parts ! i))" by (metis nth_map prod.collapse)
    from cursor_part_reads [OF this cursor_shape_operators [OF nth_mem]] that len show ?thesis by simp
  qed
  then have "list_all2 reads (map fst parts) (map ?items (cursor_shape orders))"
    using len by (auto simp: list_all2_conv_all_nth)
  from reads_connected [OF this, of "'' OR ''"] have "reads t (cursor_items orders)" by (simp add: parts(2) cursor_items_def)
  moreover have "map (length \<circ> snd) parts = map length (cursor_shape orders)"
    using each len by (auto simp: list_eq_iff_nth_eq)
  then have "length args = keysetCursorParameterCount (length orders)"
    by (simp add: parts(3) length_concat cursor_shape_size [symmetric])
  ultimately show ?thesis by simp
qed

section \<open>Reading the statement\<close>

definition guard_items :: "keysetSourceColumn \<times> string \<Rightarrow> sql_item list" where
  "guard_items p = (case p of (column, kind) \<Rightarrow>
     if kind \<noteq> ''string'' \<or> col_representation column = RepresentationSourceText then []
     else source_item (col_name column) @ source_item (col_name column))"

definition keyset_items :: "NormalizedKeysetRequest \<Rightarrow> keysetSource \<Rightarrow> sql_item list" where
  "keyset_items request src =
     (let query = nk_Query request in
      concat (map (\<lambda>s. source_item (sel_Field s) @ (if sel_Alias s \<noteq> [] then [Name (sel_Alias s)] else [])) (ks_Projection query)) @
      concat (map guard_items (zip (src_keyColumns src) (src_keyKinds src))) @
      [Name (ref_Schema (ks_Source query)), Name (ref_Name (ks_Source query)), Name aggregateSourceAlias] @
      where_items source_item (ks_Filter query) @
      (if kp_Kind (nk_Page request) = ''after'' then cursor_items (ks_OrderBy query) else []) @
      concat (map (\<lambda>s. source_item (sort_Field s)) (ks_OrderBy query)) @ [Placeholder])"

lemma reads_keyset_expression:
  "reads (keyset_expression s) (source_item (sel_Field s) @ (if sel_Alias s \<noteq> [] then [Name (sel_Alias s)] else []))"
proof -
  let ?e = "representedField (qualifyAggregateField (sel_Field s)) (sel_Representation s) False"
  have e: "reads ?e (source_item (sel_Field s))" by (intro reads_represented reads_aggregate_field)
  have "reads (?e @ '' AS '' @ sql_quote (sel_Alias s)) (source_item (sel_Field s) @ [Name (sel_Alias s)])"
    by (intro reads_then [OF e] reads_quote) (simp_all add: calm_defs)
  with e show ?thesis by (simp add: keyset_expression_def)
qed

lemma reads_guard:
  assumes "guard_expression p = Inr gs"
  shows "list_all2 reads gs (map (\<lambda>_. guard_items p) gs) \<and> concat (map (\<lambda>_. guard_items p) gs) = guard_items p"
proof -
  obtain column kind where p: "p = (column, kind)" by (cases p)
  let ?f = "qualifyAggregateField (col_name column)"
  have "reads (keysetCharacterRoundTrip ?f ?f ''utf8mb4'' (col_characterSet column)) (source_item (col_name column) @ source_item (col_name column))"
    if "validKeysetCharacterMetadata column"
  proof -
    from that have w: "list_all calm (col_characterSet column)"
      by (auto simp: validKeysetCharacterMetadata_def validMySQLCharacterName_def intro: calm_words)
    have "reads (''CAST(CONVERT(CONVERT('' @ ?f @ ('' USING '' @ ''utf8mb4'' @ '') USING '' @ col_characterSet column @
        '') AS BINARY) = CAST('') @ ?f @ '' AS BINARY)'') (source_item (col_name column) @ source_item (col_name column))"
      by (intro reads_calm_prefix reads_then reads_end reads_aggregate_field) (use w in \<open>simp_all add: calm_defs\<close>)
    then show ?thesis by (simp add: keysetCharacterRoundTrip_def)
  qed
  with assms show ?thesis by (auto simp: p guard_expression_def guard_items_def Let_def split: if_splits)
qed

lemma reads_guards:
  assumes "sequence_results (map guard_expression ps) = Inr guards"
  shows "\<exists>items. list_all2 reads (concat guards) items \<and> concat items = concat (map guard_items ps)"
  using assms
proof (induction ps arbitrary: guards)
  case (Cons p ps)
  from Cons.prems obtain gs guards' where g: "guard_expression p = Inr gs" "sequence_results (map guard_expression ps) = Inr guards'"
    "guards = gs # guards'" by (auto simp: sequence_results_Inr Cons_eq_map_conv)
  from Cons.IH [OF g(2)] obtain items where "list_all2 reads (concat guards') items" "concat items = concat (map guard_items ps)" by blast
  with reads_guard [OF g(1)] show ?case
    by (intro exI [of _ "map (\<lambda>_. guard_items p) gs @ items"]) (auto simp: g(3) intro: list_all2_appendI)
qed simp

lemma reads_projection:
  assumes "sequence_results (map guard_expression ps) = Inr guards"
  shows "reads (join '', '' (map keyset_expression ss @ concat guards))
    (concat (map (\<lambda>s. source_item (sel_Field s) @ (if sel_Alias s \<noteq> [] then [Name (sel_Alias s)] else [])) ss) @ concat (map guard_items ps))"
proof -
  from reads_guards [OF assms] obtain items where i: "list_all2 reads (concat guards) items" "concat items = concat (map guard_items ps)" by blast
  have "list_all2 reads (map keyset_expression ss) (map (\<lambda>s. source_item (sel_Field s) @ (if sel_Alias s \<noteq> [] then [Name (sel_Alias s)] else [])) ss)"
    by (simp add: list_all2_conv_all_nth reads_keyset_expression)
  from reads_join [OF list_all2_appendI [OF this i(1)] comma_calm] i(2) show ?thesis by simp
qed

lemma reads_keyset_order_term:
  "sort_Direction s \<in> {''asc'', ''desc''} \<Longrightarrow> reads (keyset_order_term s) (source_item (sort_Field s))"
proof -
  assume d: "sort_Direction s \<in> {''asc'', ''desc''}"
  have "ToUpper ''asc'' = ''ASC''" "ToUpper ''desc'' = ''DESC''" by code_simp+
  with d have "list_all calm ('' '' @ ToUpper (sort_Direction s))" by (auto simp: calm_defs)
  from reads_end [OF reads_keyset_term this] show ?thesis by (simp add: keyset_order_term_def)
qed

definition condition_items :: "NormalizedKeysetRequest \<Rightarrow> sql_item list" where
  "condition_items request =
     where_items source_item (ks_Filter (nk_Query request)) @
     (if kp_Kind (nk_Page request) = ''after'' then cursor_items (ks_OrderBy (nk_Query request)) else [])"

lemma markers_source_item [simp]: "markers (source_item field) = 0"
  by (simp add: source_item_def)

lemma markers_filter_items: "markers (filter_items source_item f) = length (filter_operands f)"
proof (induction f)
  case (Filter rep kind field op vals exprs)
  then show ?case by (simp add: markers_concat comp_def length_concat cong: map_cong)
qed

lemma markers_cursor_items: "markers (cursor_items orders) = keysetCursorParameterCount (length orders)"
  by (simp add: cursor_items_def markers_concat comp_def sum_list_triv cursor_shape_size)

lemma keyset_where_reads:
  assumes "keyset_where request src = Inr conditions" "\<forall>f \<in> set_option (ks_Filter (nk_Query request)). wf_filter f"
  shows "\<exists>items. list_all2 reads (map fst conditions) items \<and> concat items = condition_items request \<and>
    length (concat (map snd conditions)) = markers (condition_items request)"
proof -
  let ?f = "ks_Filter (nk_Query request)" and ?after = "kp_Kind (nk_Page request) = ''after''"
  from assms(1) obtain fs cs where c: "conditions = fs @ cs" and
    f: "(case ?f of None \<Rightarrow> Inr [] | Some f \<Rightarrow> bind_result (compileKeysetFilter (src_columns src) f) (\<lambda>c. Inr [c])) = Inr fs" and
    a: "(if ?after then bind_result (compileKeysetCursor request src) (\<lambda>c. Inr [c]) else Inr []) = Inr cs"
    by (auto simp: keyset_where_def)
  have "\<exists>is. list_all2 reads (map fst fs) is \<and> concat is = where_items source_item ?f \<and>
      length (concat (map snd fs)) = markers (where_items source_item ?f)"
  proof (cases ?f)
    case (Some g)
    with f obtain t args where "fs = [(t, args)]" "compileKeysetFilter (src_columns src) g = Inr (t, args)" by auto
    with compileKeysetFilter_reads [of "src_columns src" g t args] assms(2) Some show ?thesis
      by (intro exI [of _ "[filter_items source_item g]"]) (auto simp: where_items_def markers_filter_items)
  qed (use f in \<open>simp add: where_items_def\<close>)
  moreover have "\<exists>is. list_all2 reads (map fst cs) is \<and> concat is = (if ?after then cursor_items (ks_OrderBy (nk_Query request)) else []) \<and>
      length (concat (map snd cs)) = markers (if ?after then cursor_items (ks_OrderBy (nk_Query request)) else [])"
  proof (cases ?after)
    case True
    with a obtain t args where "cs = [(t, args)]" "compileKeysetCursor request src = Inr (t, args)" by auto
    with compileKeysetCursor_reads [of request src t args] True show ?thesis
      by (intro exI [of _ "[cursor_items (ks_OrderBy (nk_Query request))]"]) (auto simp: markers_cursor_items)
  qed (use a in simp)
  ultimately obtain i j where "list_all2 reads (map fst fs) i" "concat i = where_items source_item ?f"
      "length (concat (map snd fs)) = markers (where_items source_item ?f)" "list_all2 reads (map fst cs) j"
      "concat j = (if ?after then cursor_items (ks_OrderBy (nk_Query request)) else [])"
      "length (concat (map snd cs)) = markers (if ?after then cursor_items (ks_OrderBy (nk_Query request)) else [])" by blast
  then show ?thesis unfolding c condition_items_def by (intro exI [of _ "i @ j"]) (simp add: list_all2_appendI)
qed

lemma markers_guards: "markers (guard_items p) = 0"
  by (simp add: guard_items_def split: prod.splits)

lemma compileKeyset_reads:
  assumes "compileKeyset request src deadlineMS = Inr (t, args)"
    and "\<forall>f \<in> set_option (ks_Filter (nk_Query request)). wf_filter f"
    and "\<forall>s \<in> set (ks_OrderBy (nk_Query request)). sort_Direction s \<in> {''asc'', ''desc''}"
  shows "reads t (keyset_items request src) \<and> length args = markers (keyset_items request src)"
proof -
  let ?q = "nk_Query request" and ?keys = "zip (src_keyColumns src) (src_keyKinds src)"
  let ?projection = "concat (map (\<lambda>s. source_item (sel_Field s) @ (if sel_Alias s \<noteq> [] then [Name (sel_Alias s)] else [])) (ks_Projection ?q)) @
    concat (map guard_items ?keys)"
  let ?from = "[Name (ref_Schema (ks_Source ?q)), Name (ref_Name (ks_Source ?q))] @ [Name aggregateSourceAlias]"
  let ?order = "concat (map (\<lambda>s. source_item (sort_Field s)) (ks_OrderBy ?q)) @ [Placeholder]"
  from assms(1) obtain guards conditions where g: "sequence_results (map guard_expression ?keys) = Inr guards"
    and w: "keyset_where request src = Inr conditions" and args: "args = concat (map snd conditions) @ [ArgInt (ks_Limit ?q + 1)]"
    and t: "t = ''SELECT '' @ execution_hint deadlineMS @ '' '' @ join '', '' (map keyset_expression (ks_Projection ?q) @ concat guards) @
      (from_clause (ks_Source ?q) @ '' AS '' @ sql_quote aggregateSourceAlias) @
      (if conditions = [] then [] else '' WHERE '' @ join '' AND '' (map fst conditions)) @
      '' ORDER BY '' @ join '', '' (map keyset_order_term (ks_OrderBy ?q)) @ '' LIMIT '' @ ''?''"
    by (auto simp: compileKeyset_def Let_def)
  from keyset_where_reads [OF w assms(2)] obtain items where items: "list_all2 reads (map fst conditions) items"
    "concat items = condition_items request" "length (concat (map snd conditions)) = markers (condition_items request)" by blast
  have "reads (join '', '' (map keyset_order_term (ks_OrderBy ?q)) @ '' LIMIT '' @ ''?'') ?order"
    using assms(3) by (intro reads_then reads_parts reads_question reads_keyset_order_term) (auto simp: calm_defs)
  then have order: "reads ('' ORDER BY '' @ join '', '' (map keyset_order_term (ks_OrderBy ?q)) @ '' LIMIT '' @ ''?'') ?order"
    by (rule reads_calm_prefix [rotated]) (simp add: calm_defs)
  have "reads (join '' AND '' (map fst conditions)) (condition_items request)"
    unfolding items(2) [symmetric] by (rule reads_join [OF items(1)]) (simp_all add: calm_defs)
  then have "reads ('' WHERE '' @ join '' AND '' (map fst conditions)) (condition_items request)"
    by (rule reads_calm_prefix [rotated]) (simp add: calm_defs)
  moreover have "conditions = [] \<Longrightarrow> condition_items request = []" using items(1,2) by simp
  ultimately have "clause (if conditions = [] then [] else '' WHERE '' @ join '' AND '' (map fst conditions)) (condition_items request)"
    by (simp add: clause_def)
  from reads_clause [OF this] order have tail: "reads ((if conditions = [] then [] else '' WHERE '' @ join '' AND '' (map fst conditions)) @
      '' ORDER BY '' @ join '', '' (map keyset_order_term (ks_OrderBy ?q)) @ '' LIMIT '' @ ''?'') (condition_items request @ ?order)" by simp
  have src: "reads (from_clause (ks_Source ?q) @ '' AS '' @ sql_quote aggregateSourceAlias) ?from"
    by (intro reads_then reads_from reads_quote) (simp_all add: calm_defs)
  let ?tail = "(if conditions = [] then [] else '' WHERE '' @ join '' AND '' (map fst conditions)) @
      '' ORDER BY '' @ join '', '' (map keyset_order_term (ks_OrderBy ?q)) @ '' LIMIT '' @ ''?''"
  have "?tail \<noteq> []" "hd ?tail \<noteq> bq" by (simp_all add: bq_def)
  from reads_append [OF src tail this] have "reads ((from_clause (ks_Source ?q) @ '' AS '' @ sql_quote aggregateSourceAlias) @ ?tail)
      (?from @ condition_items request @ ?order)" .
  from reads_append [OF reads_projection [OF g, of "ks_Projection ?q"] this] have
    "reads (join '', '' (map keyset_expression (ks_Projection ?q) @ concat guards) @
      (from_clause (ks_Source ?q) @ '' AS '' @ sql_quote aggregateSourceAlias) @ ?tail) (?projection @ ?from @ condition_items request @ ?order)"
    by (simp add: from_clause_def bq_def)
  from reads_calm_prefix [OF _ reads_hint [OF reads_calm_prefix [OF _ this]], of "''SELECT ''" "'' ''"]
  have "reads t (?projection @ ?from @ condition_items request @ ?order)" unfolding t by (simp add: calm_defs)
  moreover have "markers ?projection = 0" "markers (concat (map (\<lambda>s. source_item (sort_Field s)) (ks_OrderBy ?q))) = 0"
    using markers_guards by (simp_all add: markers_concat comp_def)
  ultimately show ?thesis
    using items(3) by (simp add: keyset_items_def condition_items_def Let_def args)
qed

section \<open>What the cursor condition means\<close>

text \<open>
  A row enters by the sort weights of its key columns, which the server compares; \<open>cursor_selects\<close> evaluates the
  comparisons of the compiled condition on them, and \<open>key_after\<close> is the order of the pages: lexicographic, each
  column in its direction.
\<close>

definition comparison_holds :: "'w :: linorder list \<Rightarrow> 'w list \<Rightarrow> nat \<times> string \<Rightarrow> bool" where
  "comparison_holds key cursor c = (case c of (j, op) \<Rightarrow>
     if op = ''='' then key ! j = cursor ! j else if op = ''<'' then key ! j < cursor ! j else key ! j > cursor ! j)"

definition cursor_selects :: "Sort list \<Rightarrow> 'w :: linorder list \<Rightarrow> 'w list \<Rightarrow> bool" where
  "cursor_selects orders key cursor \<longleftrightarrow> list_ex (list_all (comparison_holds key cursor)) (cursor_shape orders)"

definition beyond :: "Sort \<Rightarrow> 'w :: linorder \<Rightarrow> 'w \<Rightarrow> bool" where
  "beyond order k c \<longleftrightarrow> (if sort_Direction order = ''desc'' then k < c else k > c)"

fun key_after :: "Sort list \<Rightarrow> 'w :: linorder list \<Rightarrow> 'w list \<Rightarrow> bool" where
  "key_after (order # orders) (k # ks) (c # cs) \<longleftrightarrow> beyond order k c \<or> k = c \<and> key_after orders ks cs"
| "key_after _ _ _ \<longleftrightarrow> False"

lemma cursor_selects_conv:
  "cursor_selects orders key cursor \<longleftrightarrow>
     (\<exists>i < length orders. (\<forall>j < i. key ! j = cursor ! j) \<and> beyond (orders ! i) (key ! i) (cursor ! i))"
  by (auto simp: cursor_selects_def cursor_shape_def list_ex_iff list_all_iff comparison_holds_def cursor_operator_def beyond_def)

lemma cursor_selects_iff:
  "length key = length orders \<Longrightarrow> length cursor = length orders \<Longrightarrow> cursor_selects orders key cursor \<longleftrightarrow> key_after orders key cursor"
  unfolding cursor_selects_conv
proof (induction orders arbitrary: key cursor)
  case (Cons order orders)
  from Cons.prems obtain k ks c cs where l: "key = k # ks" "cursor = c # cs" by (cases key; cases cursor) auto
  with Cons.IH [of ks cs] Cons.prems show ?case
    by (simp add: Ex_less_Suc2 All_less_Suc2) blast
qed simp

lemma key_after_asym: "key_after orders a b \<Longrightarrow> \<not> key_after orders b a"
  by (induction orders a b rule: key_after.induct) (auto simp: beyond_def split: if_splits)

lemma key_after_irrefl: "\<not> key_after orders a a"
  using key_after_asym by blast

lemma filter_after:
  assumes "sorted_wrt (\<lambda>a b. key_after orders b a) keys" "i < length keys"
  shows "filter (\<lambda>k. key_after orders k (keys ! i)) keys = drop (Suc i) keys"
proof -
  have keys: "keys = take (Suc i) keys @ drop (Suc i) keys" by simp
  have "\<not> key_after orders k (keys ! i)" if k: "k \<in> set (take (Suc i) keys)" for k
  proof -
    from k assms(2) obtain j where j: "j \<le> i" "k = keys ! j" by (auto simp: in_set_conv_nth less_Suc_eq_le)
    show ?thesis
    proof (cases "j = i")
      case False
      with j have "j < i" by simp
      from sorted_wrt_nth_less [OF assms(1) this assms(2)] have "key_after orders (keys ! i) (keys ! j)" .
      with j show ?thesis using key_after_asym by blast
    qed (use j key_after_irrefl in simp)
  qed
  moreover have "key_after orders k (keys ! i)" if k: "k \<in> set (drop (Suc i) keys)" for k
  proof -
    from k obtain m where m: "m < length (drop (Suc i) keys)" "drop (Suc i) keys ! m = k" unfolding in_set_conv_nth by blast
    then have "Suc (i + m) < length keys" "k = keys ! Suc (i + m)" by auto
    with sorted_wrt_nth_less [OF assms(1), of i "Suc (i + m)"] show ?thesis by simp
  qed
  ultimately show ?thesis
    by (subst keys, simp only: filter_append) (auto simp: filter_empty_conv filter_id_conv)
qed

section \<open>Integers\<close>

lemma parse_uint_itoa: "parse_uint bits (itoa n) = (if n < 2 ^ bits then Some n else None)"
  by (simp add: parse_uint_def itoa_nonempty)

lemma parse_int_itoa: "0 < bits \<Longrightarrow> parse_int bits (itoa_int i) = (if - (2 ^ (bits - 1)) \<le> i \<and> i < 2 ^ (bits - 1) then Some i else None)"
proof -
  assume b: "0 < bits"
  have pow: "(2 :: nat) ^ bits = 2 * 2 ^ (bits - 1)" using b by (cases bits) simp_all
  have hd: "hd (itoa n) \<noteq> CHR ''-''" "hd (itoa n) \<noteq> CHR ''+''" for n
  proof -
    have "is_digit (hd (itoa n))" using itoa_digits [of n] itoa_nonempty [of n] by (cases "itoa n") auto
    then show "hd (itoa n) \<noteq> CHR ''-''" "hd (itoa n) \<noteq> CHR ''+''" using not_digit by auto
  qed
  have cast: "int (2 ^ (bits - 1)) = 2 ^ (bits - 1)" by simp
  show ?thesis
  proof (cases "i < 0")
    case True
    have "nat (- i) \<le> 2 ^ (bits - 1) \<longleftrightarrow> - (2 ^ (bits - 1)) \<le> i" using cast by linarith
    moreover have "nat (- i) < 2 ^ bits" if "nat (- i) \<le> 2 ^ (bits - 1)"
      using that pow zero_less_power [of "2 :: nat" "bits - 1"] by linarith
    ultimately show ?thesis using True by (auto simp: parse_int_def itoa_int_def parse_uint_itoa Let_def not_less simp del: One_nat_def)
  next
    case False
    have "(nat i < 2 ^ (bits - 1)) \<longleftrightarrow> i < 2 ^ (bits - 1)" using cast False by linarith
    moreover have "- (2 ^ (bits - 1)) \<le> i" using False cast by linarith
    moreover have "nat i < 2 ^ bits" if "nat i < 2 ^ (bits - 1)" using that pow by linarith
    ultimately show ?thesis using False by (auto simp: parse_int_def itoa_int_def parse_uint_itoa Let_def hd itoa_nonempty simp del: One_nat_def)
  qed
qed

definition column_holds :: "keysetSourceColumn \<Rightarrow> int \<Rightarrow> bool" where
  "column_holds column i \<longleftrightarrow>
     (case integer_bits (normalized_type column) of
        None \<Rightarrow> False
      | Some bits \<Rightarrow> if is_unsigned column then 0 \<le> i \<and> i < 2 ^ bits else - (2 ^ (bits - 1)) \<le> i \<and> i < 2 ^ (bits - 1))"

lemma integer_bits_pos: "integer_bits t = Some bits \<Longrightarrow> 0 < bits"
  by (auto simp: integer_bits_def split: if_splits)

lemma parse_uint_itoa_int: "parse_uint bits (itoa_int i) = (if 0 \<le> i \<and> i < 2 ^ bits then Some (nat i) else None)"
proof (cases "i < 0")
  case True
  then show ?thesis by (simp add: itoa_int_def parse_uint_def)
next
  case False
  have "(nat i < 2 ^ bits) \<longleftrightarrow> i < 2 ^ bits" using False by (simp add: nat_less_iff)
  with False show ?thesis by (simp add: itoa_int_def parse_uint_itoa)
qed

lemma bindKeysetInteger_exact:
  "bindKeysetInteger (itoa_int i) column = (if column_holds column i then Inr (ArgInt i) else Inl (DatabaseError ErrorInvalid))"
  using integer_bits_pos [of "normalized_type column"]
  by (auto simp: bindKeysetInteger_def column_holds_def parse_uint_itoa_int parse_int_itoa split: option.splits)

section \<open>Properties\<close>

text \<open>
  C24: a page statement that is compiled for a well-formed request is read by MySQL as the names of the request and the
  key columns, always qualified by the adapter's own source alias, around fixed text, and has exactly one marker for
  each argument; cursor and filter values never enter the text.
\<close>

theorem keyset_statements_are_faithful:
  assumes "compileKeyset request src deadlineMS = Inr (t, args)"
    and "\<forall>f \<in> set_option (ks_Filter (nk_Query request)). wf_filter f"
    and "\<forall>s \<in> set (ks_OrderBy (nk_Query request)). sort_Direction s \<in> {''asc'', ''desc''}"
  shows "sql_lex t = Some (keyset_items request src) \<and> length args = markers (keyset_items request src)"
  using compileKeyset_reads [OF assms] by (auto dest: reads_lex)

text \<open>The page after the row with identifier 7 of a table with an integer key.\<close>

definition sample_column :: keysetSourceColumn where
  "sample_column = \<lparr>col_representation = [], col_name = ''id'', col_dataType = ''INT'', col_nativeType = ''int unsigned'', col_nullable = False,
     col_characterSet = [], col_collation = [], col_characterMaximumLength = None, col_characterOctetLength = None,
     col_numericPrecision = None, col_numericScale = None, col_datetimePrecision = None\<rparr>"

definition sample_page_source :: keysetSource where
  "sample_page_source = \<lparr>src_columns = [(''id'', sample_column)], src_projectionColumns = [sample_column],
     src_keyColumns = [sample_column], src_keyKinds = [''integer''], src_keyIndexes = [0]\<rparr>"

definition sample_order :: Sort where
  "sample_order = \<lparr>sort_Representation = [], sort_Field = ''id'', sort_Direction = ''asc''\<rparr>"

definition sample_page_request :: NormalizedKeysetRequest where
  "sample_page_request = \<lparr>nk_Profile = ''ops'', nk_Datasource = ''main'', nk_Shape = ''by_id'',
     nk_Query = \<lparr>ks_Source = \<lparr>ref_Schema = ''app'', ref_Name = ''orders''\<rparr>,
       ks_Projection = [\<lparr>sel_Representation = [], sel_Kind = ''field'', sel_Field = ''id'', sel_Function = [], sel_Alias = []\<rparr>],
       ks_Filter = None, ks_OrderBy = [sample_order], ks_Limit = 2\<rparr>,
     nk_Page = \<lparr>kp_Kind = ''after'', kp_Cursor = Some [\<lparr>kc_Type = ''integer'', kc_Value = ''7''\<rparr>]\<rparr>\<rparr>"

lemma sample_column_type: "normalized_type sample_column = ''INT''"
  by (simp add: normalized_type_def sample_column_def ToUpper_def upper_char_def is_lower_def graphic_def)

lemma sample_bind: "bindKeysetInteger ''7'' sample_column = Inr (ArgInt 7)"
proof -
  have "is_unsigned sample_column" "itoa_int 7 = ''7''" by code_simp+
  then show ?thesis using bindKeysetInteger_exact [of 7 sample_column] by (simp add: column_holds_def sample_column_type integer_bits_def)
qed

lemma sample_page_compiles: "\<exists>t. compileKeyset sample_page_request sample_page_source 5000 = Inr (t, [ArgInt 7, ArgInt 3])"
  by (simp add: compileKeyset_def keyset_where_def compileKeysetCursor_def cursor_shape_def cursor_part_def cursor_comparison_def
      sample_page_request_def sample_page_source_def guard_expression_def page_cursor_def bindKeysetCursor_def keysetCursorPlaceholder_def
      sample_bind Let_def)
    (simp add: sample_column_def RepresentationSourceText_def)

theorem keyset_statements_are_faithful_witness:
  "\<exists>t. compileKeyset sample_page_request sample_page_source 5000 = Inr (t, [ArgInt 7, ArgInt 3]) \<and>
     sql_lex t = Some (keyset_items sample_page_request sample_page_source)"
proof -
  from sample_page_compiles obtain t where t: "compileKeyset sample_page_request sample_page_source 5000 = Inr (t, [ArgInt 7, ArgInt 3])" by blast
  with keyset_statements_are_faithful [OF t] show ?thesis by (auto simp: sample_page_request_def sample_order_def)
qed



text \<open>
  An integer of a filter reaches the server only if the integer type of its column holds it, as exactly that
  number: a negative number never meets an unsigned column.
\<close>

theorem keyset_integers_fit_their_column:
  "bindKeysetInteger (itoa_int i) column = (if column_holds column i then Inr (ArgInt i) else Inl (DatabaseError ErrorInvalid))"
  by (rule bindKeysetInteger_exact)

end
