(* ===== verification/Audit_Log.thy ===== *)
theory Audit_Log
  imports Policy
begin

text \<open>
  \<^verbatim>\<open>internal/audit/audit.go\<close>: audit events, their JSON lines, the memory sink and the JSON sink. The JSON sink is
  shared by all requests: callers of \<open>Write\<close> hand a line over a channel of capacity one to a worker goroutine
  and wait for its reply or a timeout, while an atomic flag records that the sink has failed. Its model is a
  step relation in which every atomic load, store, channel operation and write of the code is one step, so all
  interleavings of callers and worker are covered. \<^verbatim>\<open>queryservice/audit_hash.go\<close>: the hash that replaces an
  unassigned profile or datasource name in an event.
\<close>

section \<open>Events\<close>

record Resource =
  res_Schema :: string
  res_Object :: string

datatype metadata = MetaText string | MetaNumber int | MetaFlag bool

text \<open>
  The time stamp is its RFC 3339 text, which is what \<open>json.Marshal\<close> prints; the empty text is the zero time.
  \<open>Metadata\<close> is a map, printed in the order of its keys.
\<close>

record Event =
  ev_Timestamp :: string
  ev_Type :: string
  ev_RequestID :: string
  ev_QueryID :: string
  ev_Principal :: string
  ev_ClientIdentifier :: string
  ev_PolicyProfile :: string
  ev_PolicyVersion :: string
  ev_PolicyHash :: string
  ev_Datasource :: string
  ev_Adapter :: string
  ev_Operation :: string
  ev_Decision :: string
  ev_ReasonCode :: string
  ev_Outcome :: string
  ev_ErrorKind :: string
  ev_DurationMS :: "int option"
  ev_ResultBytes :: int
  ev_QueryShapeHash :: string
  ev_PublicShapeSetHash :: string
  ev_ShapeCount :: int
  ev_RequestedProfileHash :: string
  ev_RequestedProfileBytes :: int
  ev_RequestedDatasourceHash :: string
  ev_RequestedDatasourceBytes :: int
  ev_Resources :: "Resource list"
  ev_Fields :: "string list"
  ev_Metadata :: "(string \<times> metadata) list"

definition marshal_Resource :: "Resource \<Rightarrow> string" where
  "marshal_Resource r =
     json_object ((''schema'', json_quote (res_Schema r)) # string_omit_empty ''object'' (res_Object r))"

definition marshal_metadata :: "metadata \<Rightarrow> string" where
  "marshal_metadata m =
     (case m of MetaText t \<Rightarrow> json_quote t | MetaNumber n \<Rightarrow> itoa_int n | MetaFlag b \<Rightarrow> format_bool b)"

definition int_omit_empty :: "string \<Rightarrow> int \<Rightarrow> (string \<times> string) list" where
  "int_omit_empty key n = omit_empty (n = 0) key (itoa_int n)"

definition marshal_Event :: "Event \<Rightarrow> string" where
  "marshal_Event e = json_object (
     [(''timestamp'', json_quote (ev_Timestamp e)), (''type'', json_quote (ev_Type e)),
      (''request_id'', json_quote (ev_RequestID e))] @
     string_omit_empty ''query_id'' (ev_QueryID e) @
     string_omit_empty ''principal'' (ev_Principal e) @
     string_omit_empty ''client_identifier'' (ev_ClientIdentifier e) @
     string_omit_empty ''policy_profile'' (ev_PolicyProfile e) @
     [(''policy_version'', json_quote (ev_PolicyVersion e)), (''policy_hash'', json_quote (ev_PolicyHash e))] @
     string_omit_empty ''datasource'' (ev_Datasource e) @
     string_omit_empty ''adapter'' (ev_Adapter e) @
     string_omit_empty ''operation'' (ev_Operation e) @
     string_omit_empty ''decision'' (ev_Decision e) @
     string_omit_empty ''reason_code'' (ev_ReasonCode e) @
     string_omit_empty ''outcome'' (ev_Outcome e) @
     string_omit_empty ''error_kind'' (ev_ErrorKind e) @
     (case ev_DurationMS e of None \<Rightarrow> [] | Some n \<Rightarrow> [(''duration_ms'', itoa_int n)]) @
     int_omit_empty ''result_bytes'' (ev_ResultBytes e) @
     string_omit_empty ''query_shape_hash'' (ev_QueryShapeHash e) @
     string_omit_empty ''public_shape_set_hash'' (ev_PublicShapeSetHash e) @
     int_omit_empty ''shape_count'' (ev_ShapeCount e) @
     string_omit_empty ''requested_profile_hash'' (ev_RequestedProfileHash e) @
     int_omit_empty ''requested_profile_bytes'' (ev_RequestedProfileBytes e) @
     string_omit_empty ''requested_datasource_hash'' (ev_RequestedDatasourceHash e) @
     int_omit_empty ''requested_datasource_bytes'' (ev_RequestedDatasourceBytes e) @
     omit_empty (ev_Resources e = []) ''resources'' (json_array (map marshal_Resource (ev_Resources e))) @
     omit_empty (ev_Fields e = []) ''fields'' (json_array (map json_quote (ev_Fields e))) @
     omit_empty (ev_Metadata e = []) ''metadata''
       (json_object (map (\<lambda>(k, v). (k, marshal_metadata v)) (sort_key fst (ev_Metadata e)))))"

definition payload :: "Event \<Rightarrow> string" where
  "payload e = marshal_Event e @ [CHR 0x0A]"

section \<open>The memory sink\<close>

record MemorySink =
  mem_Events :: "Event list"
  mem_Err :: "string option"

definition MemorySink_Write :: "Event \<Rightarrow> MemorySink \<Rightarrow> string option \<times> MemorySink" where
  "MemorySink_Write event s =
     (case mem_Err s of
        Some e \<Rightarrow> (Some e, s)
      | None \<Rightarrow> (None, s\<lparr>mem_Events := mem_Events s @ [event]\<rparr>))"

definition MemorySink_Ready :: "MemorySink \<Rightarrow> bool" where
  "MemorySink_Ready s \<longleftrightarrow> mem_Err s = None"

section \<open>The JSON sink\<close>

datatype sink_error = ContextError | ErrUnavailable | MarshalError | WriterError

text \<open>The result channel of a request has room for its only reply; the caller's number stands for the channel.\<close>

record writeRequest =
  wr_caller :: nat
  wr_payload :: string

datatype phase =
    Entered
  | Admitted
  | Enqueueing
  | Awaiting
  | TimedOut
  | Returned "sink_error option"

datatype worker =
    Receiving
  | Received writeRequest
  | Writing writeRequest
  | Failing writeRequest
  | Replying writeRequest "sink_error option"

text \<open>\<open>sk_written\<close> is the history of the requests the writer accepted in full.\<close>

record JSONSink =
  sk_ready :: bool
  sk_requests :: "writeRequest list"
  sk_worker :: worker
  sk_replies :: "nat \<rightharpoonup> sink_error option"
  sk_output :: string
  sk_calls :: "nat \<rightharpoonup> Event \<times> phase"
  sk_written :: "writeRequest list"

definition NewJSONSink :: JSONSink where
  "NewJSONSink = \<lparr>sk_ready = True, sk_requests = [], sk_worker = Receiving, sk_replies = Map.empty,
     sk_output = [], sk_calls = Map.empty, sk_written = []\<rparr>"

definition set_call :: "nat \<Rightarrow> Event \<Rightarrow> phase \<Rightarrow> JSONSink \<Rightarrow> JSONSink" where
  "set_call i event ph s = s\<lparr>sk_calls := (sk_calls s)(i \<mapsto> (event, ph))\<rparr>"

definition stamp :: "string \<Rightarrow> Event \<Rightarrow> Event" where
  "stamp now event = (if ev_Timestamp event = [] then event\<lparr>ev_Timestamp := now\<rparr> else event)"

text \<open>
  The steps of a caller of \<open>Write\<close> up to the handover: the context and the flag are tested, the event is
  stamped and printed, and the request is sent unless the channel stays full until the timeout.
\<close>

inductive call_step :: "JSONSink \<Rightarrow> JSONSink \<Rightarrow> bool" where
  call: "sk_calls s i = None \<Longrightarrow> call_step s (set_call i event Entered s)"
| context_done: "sk_calls s i = Some (event, Entered) \<Longrightarrow> call_step s (set_call i event (Returned (Some ContextError)) s)"
| not_ready: "sk_calls s i = Some (event, Entered) \<Longrightarrow> \<not> sk_ready s \<Longrightarrow>
    call_step s (set_call i event (Returned (Some ErrUnavailable)) s)"
| admit: "sk_calls s i = Some (event, Entered) \<Longrightarrow> sk_ready s \<Longrightarrow> call_step s (set_call i event Admitted s)"
| unprintable: "sk_calls s i = Some (event, Admitted) \<Longrightarrow>
    call_step s (set_call i event (Returned (Some MarshalError)) (s\<lparr>sk_ready := False\<rparr>))"
| prepare: "sk_calls s i = Some (event, Admitted) \<Longrightarrow> call_step s (set_call i (stamp now event) Enqueueing s)"
| enqueue: "sk_calls s i = Some (event, Enqueueing) \<Longrightarrow> sk_requests s = [] \<Longrightarrow>
    call_step s (set_call i event Awaiting
      (s\<lparr>sk_requests := [\<lparr>wr_caller = i, wr_payload = payload event\<rparr>]\<rparr>))"
| receive: "sk_calls s i = Some (event, Awaiting) \<Longrightarrow> sk_replies s i = Some r \<Longrightarrow>
    call_step s (set_call i event (Returned r) s)"
| expire: "sk_calls s i = Some (event, ph) \<Longrightarrow> ph = Enqueueing \<or> ph = Awaiting \<Longrightarrow>
    call_step s (set_call i event TimedOut s)"
| cancelled: "sk_calls s i = Some (event, TimedOut) \<Longrightarrow> call_step s (set_call i event (Returned (Some ContextError)) s)"
| give_up: "sk_calls s i = Some (event, TimedOut) \<Longrightarrow>
    call_step s (set_call i event (Returned (Some ErrUnavailable)) (s\<lparr>sk_ready := False\<rparr>))"

text \<open>The loop of \<open>run\<close>. A write may fail after any number of bytes, and a short write is a failure.\<close>

inductive run_step :: "JSONSink \<Rightarrow> JSONSink \<Rightarrow> bool" where
  take_request: "sk_worker s = Receiving \<Longrightarrow> sk_requests s = r # rs \<Longrightarrow>
    run_step s (s\<lparr>sk_worker := Received r, sk_requests := rs\<rparr>)"
| refuse: "sk_worker s = Received r \<Longrightarrow> \<not> sk_ready s \<Longrightarrow>
    run_step s (s\<lparr>sk_worker := Replying r (Some ErrUnavailable)\<rparr>)"
| proceed: "sk_worker s = Received r \<Longrightarrow> sk_ready s \<Longrightarrow> run_step s (s\<lparr>sk_worker := Writing r\<rparr>)"
| written: "sk_worker s = Writing r \<Longrightarrow>
    run_step s (s\<lparr>sk_worker := Replying r None, sk_output := sk_output s @ wr_payload r, sk_written := sk_written s @ [r]\<rparr>)"
| write_failed: "sk_worker s = Writing r \<Longrightarrow>
    run_step s (s\<lparr>sk_worker := Failing r, sk_output := sk_output s @ take n (wr_payload r)\<rparr>)"
| mark_failed: "sk_worker s = Failing r \<Longrightarrow>
    run_step s (s\<lparr>sk_worker := Replying r (Some WriterError), sk_ready := False\<rparr>)"
| reply: "sk_worker s = Replying r res \<Longrightarrow>
    run_step s (s\<lparr>sk_worker := Receiving, sk_replies := (sk_replies s)(wr_caller r \<mapsto> res)\<rparr>)"

definition sink_step :: "JSONSink \<Rightarrow> JSONSink \<Rightarrow> bool" where
  "sink_step s s' \<longleftrightarrow> call_step s s' \<or> run_step s s'"

section \<open>Hashes of unassigned names\<close>

definition requestedProfileHashDomain :: string where
  "requestedProfileHashDomain = ''quordon/requested-profile/v1'' @ [CHR 0x00]"

definition requestedDatasourceHashDomain :: string where
  "requestedDatasourceHashDomain = ''quordon/requested-datasource/v1'' @ [CHR 0x00]"

text \<open>
  \<open>hashStringWriter\<close> feeds a string to the hash in chunks of at most one block. The destination is the bytes
  written to the hash so far; \<open>hash.Hash\<close> documents that its \<open>Write\<close> takes all of them and never fails. The loop
  goes on while bytes are left, so a loop that did not end would be the value \<open>None\<close>.
\<close>

record hashStringWriter =
  hw_destination :: string

partial_function (option) write_chunks :: "nat \<Rightarrow> string \<Rightarrow> hashStringWriter \<Rightarrow> (nat \<times> hashStringWriter) option" where
  "write_chunks total_bytes value w =
     (if value = [] then Some (total_bytes, w)
      else let chunkBytes = min (length value) 64 in
           write_chunks (total_bytes + chunkBytes) (drop chunkBytes value)
             (w\<lparr>hw_destination := hw_destination w @ take chunkBytes value\<rparr>))"

definition WriteString :: "string \<Rightarrow> hashStringWriter \<Rightarrow> (nat \<times> hashStringWriter) option" where
  "WriteString value w = write_chunks 0 value w"

definition auditIdentifierHash :: "string \<Rightarrow> string \<Rightarrow> string option" where
  "auditIdentifierHash domain_text identifier =
     Option.bind (WriteString domain_text \<lparr>hw_destination = []\<rparr>) (\<lambda>(_, w).
     Option.bind (WriteString identifier w) (\<lambda>(_, w').
       Some (hex_encode (sha256 (hw_destination w')))))"

section \<open>Append-only logs\<close>

text \<open>
  The contract of a sink: a step only appends to the list of entries, and whatever has been acknowledged is an
  entry. Acknowledged entries then stay, in the order in which they were acknowledged.
\<close>

locale append_only_log =
  fixes initial :: "'s \<Rightarrow> bool"
    and step :: "'s \<Rightarrow> 's \<Rightarrow> bool"
    and entries :: "'s \<Rightarrow> 'e list"
    and acknowledged :: "'s \<Rightarrow> 'e \<Rightarrow> bool"
    and inv :: "'s \<Rightarrow> bool"
  assumes inv_initial: "initial s \<Longrightarrow> inv s"
    and inv_step: "inv s \<Longrightarrow> step s s' \<Longrightarrow> inv s'"
    and appends: "inv s \<Longrightarrow> step s s' \<Longrightarrow> \<exists>more. entries s' = entries s @ more"
    and acknowledged_entry: "inv s \<Longrightarrow> acknowledged s e \<Longrightarrow> e \<in> set (entries s)"
begin

lemma reachable_inv: "initial s \<Longrightarrow> step\<^sup>*\<^sup>* s s' \<Longrightarrow> inv s'"
  by (rotate_tac, induction rule: rtranclp_induct) (auto intro: inv_initial inv_step)

lemma inv_steps: "step\<^sup>*\<^sup>* s s' \<Longrightarrow> inv s \<Longrightarrow> inv s'"
  by (induction rule: rtranclp_induct) (auto intro: inv_step)

lemma entries_grow: "step\<^sup>*\<^sup>* s s' \<Longrightarrow> inv s \<Longrightarrow> \<exists>more. entries s' = entries s @ more"
proof (induction rule: rtranclp_induct)
  case base
  show ?case by simp
next
  case (step t u)
  then obtain m1 where "entries t = entries s @ m1" by blast
  moreover obtain m2 where "entries u = entries t @ m2" using appends [OF inv_steps [OF step(1,4)] step(2)] by blast
  ultimately show ?case by simp
qed

lemma acknowledged_in_order:
  assumes "inv s" "acknowledged s e" "f \<notin> set (entries s)" "step\<^sup>*\<^sup>* s s'" "acknowledged s' f"
  shows "\<exists>before between after. entries s' = before @ e # between @ f # after"
proof -
  obtain more where more: "entries s' = entries s @ more" using entries_grow [OF assms(4,1)] by blast
  obtain as bs where "entries s = as @ e # bs"
    using acknowledged_entry [OF assms(1,2)] by (auto simp: in_set_conv_decomp)
  moreover have "f \<in> set more"
    using acknowledged_entry [OF inv_steps [OF assms(4,1)] assms(5)] assms(3) more by auto
  then obtain cs ds where "more = cs @ f # ds" by (auto simp: in_set_conv_decomp)
  ultimately have "entries s' = as @ e # (bs @ cs) @ f # ds" using more by simp
  then show ?thesis by blast
qed

end

definition memory_step :: "MemorySink \<Rightarrow> MemorySink \<Rightarrow> bool" where
  "memory_step s s' \<longleftrightarrow> (\<exists>event. s' = snd (MemorySink_Write event s))"

interpretation memory_sink: append_only_log "\<lambda>s. mem_Events s = []" memory_step mem_Events
  "\<lambda>s event. event \<in> set (mem_Events s)" "\<lambda>_. True"
  by unfold_locales (auto simp: memory_step_def MemorySink_Write_def split: option.splits)

section \<open>The invariant of the JSON sink\<close>

text \<open>The requests that are handed over and not written: with the worker, then in the channel.\<close>

definition unwritten :: "JSONSink \<Rightarrow> writeRequest list" where
  "unwritten s = (case sk_worker s of
       Receiving \<Rightarrow> [] | Received r \<Rightarrow> [r] | Writing r \<Rightarrow> [r] | Failing r \<Rightarrow> [r]
     | Replying r res \<Rightarrow> (if res = None then [] else [r])) @ sk_requests s"

definition lines_of :: "JSONSink \<Rightarrow> string" where
  "lines_of s = concat (map wr_payload (sk_written s))"

definition past_handover :: "JSONSink \<Rightarrow> nat \<Rightarrow> bool" where
  "past_handover s i \<longleftrightarrow> (\<exists>event ph. sk_calls s i = Some (event, ph) \<and> ph \<notin> {Entered, Admitted, Enqueueing})"

definition is_written :: "JSONSink \<Rightarrow> nat \<Rightarrow> bool" where
  "is_written s i \<longleftrightarrow> i \<in> wr_caller ` set (sk_written s)"

text \<open>Whole lines, then at most one torn line, after which nothing is written any more.\<close>

definition lines_inv :: "JSONSink \<Rightarrow> bool" where
  "lines_inv s \<longleftrightarrow> (\<exists>torn. sk_output s = lines_of s @ torn \<and>
     (torn \<noteq> [] \<longrightarrow> (\<exists>r. sk_worker s = Failing r) \<or> \<not> sk_ready s \<and> (\<forall>r. sk_worker s \<noteq> Writing r)))"

text \<open>A request is in one place, belongs to a call that is past the handover and carries its line.\<close>

definition place_inv :: "JSONSink \<Rightarrow> bool" where
  "place_inv s \<longleftrightarrow>
     distinct (map wr_caller (unwritten s @ sk_written s)) \<and>
     (\<forall>r \<in> set (unwritten s @ sk_written s). past_handover s (wr_caller r)) \<and>
     (\<forall>r \<in> set (unwritten s @ sk_written s). \<forall>event ph.
        sk_calls s (wr_caller r) = Some (event, ph) \<longrightarrow> wr_payload r = payload event)"

text \<open>A reply is given once, and success only for what was written.\<close>

definition reply_inv :: "JSONSink \<Rightarrow> bool" where
  "reply_inv s \<longleftrightarrow>
     (\<forall>r \<in> set (unwritten s). sk_replies s (wr_caller r) = None) \<and>
     (\<forall>r. sk_worker s = Replying r None \<longrightarrow> r \<in> set (sk_written s) \<and> sk_replies s (wr_caller r) = None) \<and>
     (\<forall>i res. sk_replies s i = Some res \<longrightarrow> past_handover s i \<and> (res = None \<longrightarrow> is_written s i)) \<and>
     (\<forall>i event. sk_calls s i = Some (event, Returned None) \<longrightarrow> is_written s i)"

definition sink_inv :: "JSONSink \<Rightarrow> bool" where
  "sink_inv s \<longleftrightarrow> lines_inv s \<and> place_inv s \<and> reply_inv s"

lemma set_call_sel [simp]:
  "sk_ready (set_call i e ph s) = sk_ready s" "sk_requests (set_call i e ph s) = sk_requests s"
  "sk_worker (set_call i e ph s) = sk_worker s" "sk_replies (set_call i e ph s) = sk_replies s"
  "sk_output (set_call i e ph s) = sk_output s" "sk_written (set_call i e ph s) = sk_written s"
  "sk_calls (set_call i e ph s) = (sk_calls s)(i \<mapsto> (e, ph))"
  by (simp_all add: set_call_def)

lemmas sink_views = unwritten_def lines_of_def is_written_def

lemma lines_inv_call:
  assumes "call_step s s'" "lines_inv s"
  shows "lines_inv s'"
  using assms by (induction rule: call_step.induct) (auto simp: lines_inv_def lines_of_def)

lemma lines_inv_run:
  assumes "run_step s s'" "lines_inv s"
  shows "lines_inv s'"
  using assms by (induction rule: run_step.induct) (fastforce simp: lines_inv_def lines_of_def)+

text \<open>A call step changes one call; it does not touch the requests unless it hands one over.\<close>

lemma past_handover_call: "call_step s s' \<Longrightarrow> past_handover s i \<Longrightarrow> past_handover s' i"
  by (induction rule: call_step.induct) (auto simp: past_handover_def)

lemma past_handover_run: "run_step s s' \<Longrightarrow> past_handover s' i = past_handover s i"
  by (induction rule: run_step.induct) (auto simp: past_handover_def)

lemma place_inv_fresh:
  assumes "place_inv s" "\<not> past_handover s i"
  shows "i \<notin> wr_caller ` set (unwritten s @ sk_written s)"
  using assms by (auto simp: place_inv_def)

text \<open>Every step of a caller but the handover leaves the requests alone and moves one call forward.\<close>

definition moves_on :: "JSONSink \<Rightarrow> JSONSink \<Rightarrow> bool" where
  "moves_on s s' \<longleftrightarrow>
     unwritten s' = unwritten s \<and> sk_written s' = sk_written s \<and> sk_worker s' = sk_worker s \<and>
     sk_replies s' = sk_replies s \<and>
     (\<forall>i. past_handover s i \<longrightarrow> past_handover s' i \<and> map_option fst (sk_calls s' i) = map_option fst (sk_calls s i)) \<and>
     (\<forall>i event. sk_calls s' i = Some (event, Returned None) \<longrightarrow>
        sk_calls s i = Some (event, Returned None) \<or> sk_replies s i = Some None)"

definition hands_over :: "JSONSink \<Rightarrow> nat \<Rightarrow> Event \<Rightarrow> JSONSink \<Rightarrow> bool" where
  "hands_over s i event s' \<longleftrightarrow>
     sk_calls s i = Some (event, Enqueueing) \<and> sk_requests s = [] \<and>
     s' = set_call i event Awaiting (s\<lparr>sk_requests := [\<lparr>wr_caller = i, wr_payload = payload event\<rparr>]\<rparr>)"

lemma moves_on_flag:
  assumes "\<not> past_handover s i \<or> (\<exists>ph'. sk_calls s i = Some (event, ph')) \<and> ph \<notin> {Entered, Admitted, Enqueueing}"
    "ph = Returned None \<longrightarrow> sk_replies s i = Some None"
  shows "moves_on s (set_call i event ph (s\<lparr>sk_ready := b\<rparr>))"
  using assms by (auto simp: moves_on_def past_handover_def unwritten_def)

lemma moves_on_call:
  assumes "\<not> past_handover s i \<or> (\<exists>ph'. sk_calls s i = Some (event, ph')) \<and> ph \<notin> {Entered, Admitted, Enqueueing}"
    "ph = Returned None \<longrightarrow> sk_replies s i = Some None"
  shows "moves_on s (set_call i event ph s)"
  using moves_on_flag [OF assms, of "sk_ready s"] by simp

lemma call_step_cases: "call_step s s' \<Longrightarrow> moves_on s s' \<or> (\<exists>i event. hands_over s i event s')"
proof (induction rule: call_step.induct)
  case (enqueue s i event)
  then show ?case by (auto simp: hands_over_def)
qed (simp_all add: moves_on_call moves_on_flag past_handover_def)

lemma hands_over_unwritten:
  assumes "hands_over s i event s'"
  shows "unwritten s' = unwritten s @ [\<lparr>wr_caller = i, wr_payload = payload event\<rparr>]"
  using assms by (auto simp: hands_over_def unwritten_def)

lemma hands_over_past:
  assumes "hands_over s i event s'"
  shows "past_handover s' j \<longleftrightarrow> past_handover s j \<or> j = i" "\<not> past_handover s i"
  using assms by (auto simp: hands_over_def past_handover_def)

lemma place_inv_moves_on:
  assumes "moves_on s s'" "place_inv s"
  shows "place_inv s'"
proof -
  have s': "unwritten s' = unwritten s" "sk_written s' = sk_written s"
    and past: "past_handover s i \<Longrightarrow> past_handover s' i \<and> map_option fst (sk_calls s' i) = map_option fst (sk_calls s i)" for i
    using assms(1) by (auto simp: moves_on_def)
  have "\<exists>ph'. sk_calls s i = Some (event, ph')" if "past_handover s i" "sk_calls s' i = Some (event, ph)" for i event ph
    using past [OF that(1)] that(2) by (cases "sk_calls s i") auto
  then show ?thesis
    using assms(2) past unfolding place_inv_def s' by blast
qed

lemma place_inv_hands_over:
  assumes "hands_over s i event s'" "place_inv s"
  shows "place_inv s'"
proof -
  note u = hands_over_unwritten [OF assms(1)] and p = hands_over_past [OF assms(1)]
  have w: "sk_written s' = sk_written s" and c: "sk_calls s' = (sk_calls s)(i \<mapsto> (event, Awaiting))"
    using assms(1) by (auto simp: hands_over_def)
  have fresh: "wr_caller r \<noteq> i" if "r \<in> set (unwritten s @ sk_written s)" for r
    using place_inv_fresh [OF assms(2) p(2)] that by (metis image_eqI)
  have "distinct (map wr_caller (unwritten s' @ sk_written s'))"
    using place_inv_fresh [OF assms(2) p(2)] assms(2) by (auto simp: u w place_inv_def)
  moreover have "past_handover s' (wr_caller r)" if "r \<in> set (unwritten s' @ sk_written s')" for r
    using that assms(2) unfolding p by (auto simp: u w place_inv_def)
  moreover have "wr_payload r = payload e"
    if "r \<in> set (unwritten s' @ sk_written s')" "sk_calls s' (wr_caller r) = Some (e, ph)" for r e ph
    using that fresh [of r] assms(2) by (auto simp: u w c place_inv_def)
  ultimately show ?thesis unfolding place_inv_def by blast
qed

lemma place_inv_call: "call_step s s' \<Longrightarrow> place_inv s \<Longrightarrow> place_inv s'"
  using call_step_cases place_inv_moves_on place_inv_hands_over by blast

lemma place_inv_run:
  assumes "run_step s s'" "place_inv s"
  shows "place_inv s'"
  using assms by (induction rule: run_step.induct) (auto simp: place_inv_def unwritten_def past_handover_def)

lemma reply_inv_moves_on: "moves_on s s' \<Longrightarrow> reply_inv s \<Longrightarrow> reply_inv s'"
  unfolding moves_on_def reply_inv_def is_written_def by (elim conjE, intro conjI) (simp, simp, simp, metis)

lemma reply_inv_hands_over:
  assumes "hands_over s i event s'" "reply_inv s"
  shows "reply_inv s'"
proof -
  note u = hands_over_unwritten [OF assms(1)] and p = hands_over_past [OF assms(1)]
  have s': "sk_written s' = sk_written s" "sk_replies s' = sk_replies s" "sk_worker s' = sk_worker s"
    "sk_calls s' = (sk_calls s)(i \<mapsto> (event, Awaiting))"
    using assms(1) by (auto simp: hands_over_def)
  have "sk_replies s i = None" using p(2) assms(2) by (cases "sk_replies s i") (auto simp: reply_inv_def)
  then show ?thesis
    using assms(2) unfolding reply_inv_def is_written_def u s' p by (auto split: if_splits)
qed

lemma reply_inv_call: "call_step s s' \<Longrightarrow> reply_inv s \<Longrightarrow> reply_inv s'"
  using call_step_cases reply_inv_moves_on reply_inv_hands_over by blast

lemma reply_inv_run:
  assumes "run_step s s'" "reply_inv s" "place_inv s"
  shows "reply_inv s'"
  using assms
proof (induction rule: run_step.induct)
  case (reply s r res)
  have "wr_caller q \<noteq> wr_caller r" if "q \<in> set (sk_requests s)" for q
  proof -
    have "wr_caller r \<notin> wr_caller ` set (sk_requests s)"
      using reply by (cases res) (auto simp: place_inv_def reply_inv_def unwritten_def)
    with that show ?thesis by (metis image_eqI)
  qed
  with reply show ?case
    by (auto simp: reply_inv_def place_inv_def unwritten_def past_handover_def is_written_def split: if_splits)
qed (auto simp: reply_inv_def unwritten_def past_handover_def is_written_def)

lemma sink_inv_step: "sink_inv s \<Longrightarrow> sink_step s s' \<Longrightarrow> sink_inv s'"
  unfolding sink_inv_def sink_step_def
  using lines_inv_call lines_inv_run place_inv_call place_inv_run reply_inv_call reply_inv_run by blast

lemma sink_inv_new: "sink_inv NewJSONSink"
  by (simp add: sink_inv_def lines_inv_def place_inv_def reply_inv_def NewJSONSink_def unwritten_def lines_of_def)

lemma written_append_call: "call_step s s' \<Longrightarrow> sk_written s' = sk_written s"
  by (induction rule: call_step.induct) simp_all

lemma written_append_run: "run_step s s' \<Longrightarrow> \<exists>more. sk_written s' = sk_written s @ more"
  by (induction rule: run_step.induct) simp_all

text \<open>An entry of the log is the caller with its event; a call that returned success is acknowledged.\<close>

definition log_entries :: "JSONSink \<Rightarrow> nat list" where
  "log_entries s = map wr_caller (sk_written s)"

interpretation json_sink: append_only_log "\<lambda>s. s = NewJSONSink" sink_step log_entries
  "\<lambda>s i. \<exists>event. sk_calls s i = Some (event, Returned None)" sink_inv
proof unfold_locales
  show "\<exists>more. log_entries s' = log_entries s @ more" if "sink_step s s'" for s s'
    using that written_append_call written_append_run unfolding sink_step_def log_entries_def by fastforce
  show "i \<in> set (log_entries s)" if "sink_inv s" "\<exists>event. sk_calls s i = Some (event, Returned None)" for s i
    using that by (auto simp: sink_inv_def reply_inv_def is_written_def log_entries_def)
qed (auto simp: sink_inv_new intro: sink_inv_step)

lemma written_payload:
  assumes "sink_inv s" "r \<in> set (sk_written s)"
  shows "\<exists>event ph. sk_calls s (wr_caller r) = Some (event, ph) \<and> wr_payload r = payload event"
proof -
  have "place_inv s" using assms(1) by (simp add: sink_inv_def)
  then have "past_handover s (wr_caller r)"
    and "\<forall>event ph. sk_calls s (wr_caller r) = Some (event, ph) \<longrightarrow> wr_payload r = payload event"
    using assms(2) unfolding place_inv_def by (simp_all add: Ball_def)
  then show ?thesis by (auto simp: past_handover_def)
qed

section \<open>An undisturbed write\<close>

lemma then_call: "sink_step\<^sup>*\<^sup>* s t \<Longrightarrow> call_step t u \<Longrightarrow> sink_step\<^sup>*\<^sup>* s u"
  by (erule rtranclp.rtrancl_into_rtrancl) (simp add: sink_step_def)

lemma then_run: "sink_step\<^sup>*\<^sup>* s t \<Longrightarrow> run_step t u \<Longrightarrow> sink_step\<^sup>*\<^sup>* s u"
  by (erule rtranclp.rtrancl_into_rtrancl) (simp add: sink_step_def)

definition idle_sink :: "JSONSink \<Rightarrow> bool" where
  "idle_sink s \<longleftrightarrow> sk_ready s \<and> sk_worker s = Receiving \<and> sk_requests s = []"

definition after_write :: "nat \<Rightarrow> Event \<Rightarrow> JSONSink \<Rightarrow> JSONSink" where
  "after_write i event s = set_call i event (Returned None)
     (s\<lparr>sk_replies := (sk_replies s)(i \<mapsto> None), sk_output := sk_output s @ payload event,
        sk_written := sk_written s @ [\<lparr>wr_caller = i, wr_payload = payload event\<rparr>]\<rparr>)"

text \<open>On an idle sink a call that meets no timeout appends its line and returns success.\<close>

lemma undisturbed_write:
  assumes "idle_sink s" "sk_calls s i = None"
  shows "sink_step\<^sup>*\<^sup>* s (after_write i (stamp now event) s) \<and> idle_sink (after_write i (stamp now event) s)"
proof
  let ?e = "stamp now event" and ?r = "\<lparr>wr_caller = i, wr_payload = payload (stamp now event)\<rparr>"
  let ?q = "set_call i ?e Enqueueing s" and ?a = "set_call i ?e Awaiting s"
  have overwrite: "set_call i e ph (set_call i e' ph' t) = set_call i e ph t" for e ph e' ph' t
    by (simp add: set_call_def)
  have "sink_step\<^sup>*\<^sup>* s (set_call i event Entered s)"
    by (rule then_call [OF rtranclp.rtrancl_refl call_step.call]) (rule assms(2))
  then have "sink_step\<^sup>*\<^sup>* s (set_call i event Admitted (set_call i event Entered s))"
    by (rule then_call [OF _ call_step.admit]) (use assms in \<open>simp_all add: idle_sink_def\<close>)
  then have "sink_step\<^sup>*\<^sup>* s ?q"
    using then_call [OF _ call_step.prepare [of "set_call i event Admitted s" i event now]] by (simp add: overwrite)
  then have "sink_step\<^sup>*\<^sup>* s (set_call i ?e Awaiting (?q\<lparr>sk_requests := [?r]\<rparr>))"
    by (rule then_call [OF _ call_step.enqueue]) (use assms in \<open>simp_all add: idle_sink_def\<close>)
  moreover have "set_call i ?e Awaiting (?q\<lparr>sk_requests := [?r]\<rparr>) = ?a\<lparr>sk_requests := [?r]\<rparr>"
    by (simp add: set_call_def)
  ultimately have "sink_step\<^sup>*\<^sup>* s (?a\<lparr>sk_requests := [?r]\<rparr>)" by simp
  then have "sink_step\<^sup>*\<^sup>* s (?a\<lparr>sk_requests := [?r], sk_worker := Received ?r, sk_requests := []\<rparr>)"
    by (rule then_run [OF _ run_step.take_request]) (use assms in \<open>simp_all add: idle_sink_def\<close>)
  moreover have "?a\<lparr>sk_requests := [?r], sk_worker := Received ?r, sk_requests := []\<rparr> = ?a\<lparr>sk_worker := Received ?r\<rparr>"
    using assms by (simp add: idle_sink_def set_call_def)
  ultimately have "sink_step\<^sup>*\<^sup>* s (?a\<lparr>sk_worker := Received ?r\<rparr>)" by simp
  then have "sink_step\<^sup>*\<^sup>* s (?a\<lparr>sk_worker := Received ?r, sk_worker := Writing ?r\<rparr>)"
    by (rule then_run [OF _ run_step.proceed]) (use assms in \<open>simp_all add: idle_sink_def\<close>)
  then have "sink_step\<^sup>*\<^sup>* s (?a\<lparr>sk_worker := Writing ?r, sk_worker := Replying ?r None,
      sk_output := sk_output s @ payload ?e, sk_written := sk_written s @ [?r]\<rparr>)"
    using then_run [OF _ run_step.written [of "?a\<lparr>sk_worker := Writing ?r\<rparr>" ?r]] by simp
  then have "sink_step\<^sup>*\<^sup>* s (?a\<lparr>sk_output := sk_output s @ payload ?e,
      sk_written := sk_written s @ [?r], sk_worker := Receiving, sk_replies := (sk_replies s)(i \<mapsto> None)\<rparr>)"
    using then_run [OF _ run_step.reply [of "?a\<lparr>sk_worker := Replying ?r None,
      sk_output := sk_output s @ payload ?e, sk_written := sk_written s @ [?r]\<rparr>" ?r None]] by simp
  then have "sink_step\<^sup>*\<^sup>* s (set_call i ?e (Returned None) (?a\<lparr>sk_output := sk_output s @ payload ?e,
      sk_written := sk_written s @ [?r], sk_worker := Receiving, sk_replies := (sk_replies s)(i \<mapsto> None)\<rparr>))"
    by (rule then_call [OF _ call_step.receive]) simp_all
  moreover have "set_call i ?e (Returned None) (?a\<lparr>sk_output := sk_output s @ payload ?e,
      sk_written := sk_written s @ [?r], sk_worker := Receiving, sk_replies := (sk_replies s)(i \<mapsto> None)\<rparr>) = after_write i ?e s"
    using assms by (intro JSONSink.equality) (simp_all add: after_write_def idle_sink_def)
  ultimately show "sink_step\<^sup>*\<^sup>* s (after_write i ?e s)" by simp
qed (use assms in \<open>simp add: idle_sink_def after_write_def\<close>)

section \<open>A failed sink stays failed\<close>

lemma ready_step: "sink_step s s' \<Longrightarrow> sk_ready s' \<Longrightarrow> sk_ready s"
  unfolding sink_step_def by (auto elim!: call_step.cases run_step.cases)

text \<open>A sink that stopped: marked as failed, and the worker not past the test of the flag.\<close>

definition closed_sink :: "JSONSink \<Rightarrow> bool" where
  "closed_sink s \<longleftrightarrow> \<not> sk_ready s \<and> (\<forall>r. sk_worker s \<noteq> Writing r)"

lemma closed_step:
  assumes "sink_step s s'" "closed_sink s"
  shows "closed_sink s' \<and> sk_output s' = sk_output s"
  using assms unfolding sink_step_def closed_sink_def by (auto elim!: call_step.cases run_step.cases)

lemma closed_steps: "sink_step\<^sup>*\<^sup>* s s' \<Longrightarrow> closed_sink s \<Longrightarrow> closed_sink s' \<and> sk_output s' = sk_output s"
  by (induction rule: rtranclp_induct) (auto dest: closed_step)

lemma failing_step:
  assumes "sink_step s s'" "sk_worker s = Failing r"
  shows "(sk_worker s' = Failing r \<or> closed_sink s') \<and> sk_output s' = sk_output s"
  using assms unfolding sink_step_def closed_sink_def by (auto elim!: call_step.cases run_step.cases)

lemma torn_stays:
  assumes "sink_step\<^sup>*\<^sup>* s s'" "(\<exists>r. sk_worker s = Failing r) \<or> closed_sink s"
  shows "sk_output s' = sk_output s"
proof -
  from assms have "((\<exists>r. sk_worker s' = Failing r) \<or> closed_sink s') \<and> sk_output s' = sk_output s"
  proof (induction rule: rtranclp_induct)
    case (step t u)
    then show ?case using failing_step [of t u] closed_step [of t u] by auto
  qed simp
  then show ?thesis by simp
qed

text \<open>A call that starts after the failure is refused.\<close>

definition refused_call :: "JSONSink \<Rightarrow> nat \<Rightarrow> bool" where
  "refused_call s i \<longleftrightarrow> (\<forall>event ph. sk_calls s i = Some (event, ph) \<longrightarrow> ph = Entered \<or> (\<exists>e. ph = Returned (Some e)))"

lemma refused_step:
  assumes "sink_step s s'" "\<not> sk_ready s" "refused_call s i"
  shows "\<not> sk_ready s' \<and> refused_call s' i"
proof
  show "\<not> sk_ready s'" using ready_step [OF assms(1)] assms(2) by blast
  show "refused_call s' i"
    using assms unfolding sink_step_def refused_call_def
    by (auto elim!: call_step.cases run_step.cases split: if_splits)
qed

lemma refused_steps: "sink_step\<^sup>*\<^sup>* s s' \<Longrightarrow> \<not> sk_ready s \<Longrightarrow> refused_call s i \<Longrightarrow> refused_call s' i"
proof -
  assume "sink_step\<^sup>*\<^sup>* s s'" "\<not> sk_ready s" "refused_call s i"
  then have "\<not> sk_ready s' \<and> refused_call s' i"
    by (induction rule: rtranclp_induct) (auto dest: refused_step)
  then show ?thesis by simp
qed

section \<open>Calls return\<close>

fun phase_rank :: "phase \<Rightarrow> nat" where
  "phase_rank Entered = 5"
| "phase_rank Admitted = 4"
| "phase_rank Enqueueing = 3"
| "phase_rank Awaiting = 2"
| "phase_rank TimedOut = 1"
| "phase_rank (Returned r) = 0"

definition call_rank :: "JSONSink \<Rightarrow> nat \<Rightarrow> nat" where
  "call_rank s i = (case sk_calls s i of None \<Rightarrow> 6 | Some (event, ph) \<Rightarrow> phase_rank ph)"

lemma call_rank_step:
  assumes "sink_step s s'"
  shows "sk_calls s' i = sk_calls s i \<or> call_rank s' i < call_rank s i"
  using assms unfolding sink_step_def call_rank_def
  by (auto elim!: call_step.cases run_step.cases split: if_splits)

lemma call_can_move:
  assumes "sk_calls s i = Some (event, ph)" "\<forall>r. ph \<noteq> Returned r"
  shows "\<exists>s'. call_step s s' \<and> sk_calls s' i \<noteq> sk_calls s i"
proof (cases ph)
  case Entered
  with assms(1) call_step.context_done [of s i event] show ?thesis by fastforce
next
  case Admitted
  with assms(1) call_step.unprintable [of s i event] show ?thesis by fastforce
next
  case TimedOut
  with assms(1) call_step.cancelled [of s i event] show ?thesis by fastforce
qed (use assms call_step.expire [of s i event] in fastforce)+

section \<open>The chunk loop\<close>

lemma write_chunks_total:
  "write_chunks k bs w = Some (k + length bs, w\<lparr>hw_destination := hw_destination w @ bs\<rparr>)"
proof (induction bs arbitrary: k w rule: length_induct)
  case (1 bs)
  show ?case
  proof (cases "bs = []")
    case False
    let ?n = "min (length bs) 64"
    have "length (drop ?n bs) < length bs" using False by simp
    moreover have "take ?n bs @ drop ?n bs = bs" "?n + length (drop ?n bs) = length bs" by simp_all
    ultimately have
      "write_chunks (k + ?n) (drop ?n bs) (w\<lparr>hw_destination := hw_destination w @ take ?n bs\<rparr>) =
       Some (k + length bs, w\<lparr>hw_destination := hw_destination w @ bs\<rparr>)"
      using 1 by (simp del: append_take_drop_id length_drop)
    then show ?thesis using False by (subst write_chunks.simps) (simp add: Let_def)
  qed (simp add: write_chunks.simps)
qed

section \<open>Properties\<close>

text \<open>
  C9: whatever the callers and the worker of the JSON sink do, its output consists of the complete lines of
  distinct calls, possibly followed by one torn line; every call that returned success has its line there; and
  once a line is torn, nothing is ever written after it.
\<close>

theorem audit_records_are_durable:
  assumes "sink_step\<^sup>*\<^sup>* NewJSONSink s"
  shows "\<exists>torn. sk_output s = concat (map (\<lambda>i. payload (fst (the (sk_calls s i)))) (log_entries s)) @ torn \<and>
    distinct (log_entries s) \<and>
    (\<forall>i event. sk_calls s i = Some (event, Returned None) \<longrightarrow> i \<in> set (log_entries s)) \<and>
    (torn \<noteq> [] \<longrightarrow> (\<forall>s'. sink_step\<^sup>*\<^sup>* s s' \<longrightarrow> sk_output s' = sk_output s))"
proof -
  have inv: "sink_inv s" using json_sink.reachable_inv [OF refl assms] .
  then obtain torn where t: "sk_output s = lines_of s @ torn"
    "torn \<noteq> [] \<longrightarrow> (\<exists>r. sk_worker s = Failing r) \<or> closed_sink s"
    by (auto simp: sink_inv_def lines_inv_def closed_sink_def)
  have "wr_payload r = payload (fst (the (sk_calls s (wr_caller r))))" if "r \<in> set (sk_written s)" for r
    using written_payload [OF inv that] by auto
  then have "lines_of s = concat (map (\<lambda>i. payload (fst (the (sk_calls s i)))) (log_entries s))"
    by (simp add: lines_of_def log_entries_def comp_def cong: map_cong)
  moreover have "distinct (log_entries s)" using inv by (simp add: sink_inv_def place_inv_def log_entries_def)
  moreover have "\<forall>i event. sk_calls s i = Some (event, Returned None) \<longrightarrow> i \<in> set (log_entries s)"
    using json_sink.acknowledged_entry [OF inv] by blast
  ultimately show ?thesis using t torn_stays by auto
qed

theorem audit_records_are_durable_witness:
  "\<exists>s. sink_step\<^sup>*\<^sup>* NewJSONSink s \<and> log_entries s = [0] \<and>
     (\<exists>torn. sk_output s = payload (fst (the (sk_calls s 0))) @ torn)"
proof -
  obtain event :: Event where True by simp
  have idle: "idle_sink NewJSONSink" by (simp add: idle_sink_def NewJSONSink_def)
  let ?s = "after_write 0 (stamp ''now'' event) NewJSONSink"
  have run: "sink_step\<^sup>*\<^sup>* NewJSONSink ?s"
    using undisturbed_write [OF idle, of 0 "''now''" event] by (simp add: NewJSONSink_def)
  moreover have "log_entries ?s = [0]" by (simp add: log_entries_def after_write_def NewJSONSink_def)
  ultimately show ?thesis using audit_records_are_durable [OF run] by (auto intro!: exI [of _ ?s])
qed

text \<open>
  C10: audit records appear in the order of the requests: when one \<open>Write\<close> returned success before another
  one started, its line precedes that of the other; and a \<open>Write\<close> that starts after the sink has failed never
  returns success.
\<close>

theorem audit_order_is_real_time:
  assumes "sink_step\<^sup>*\<^sup>* NewJSONSink s" "sink_step\<^sup>*\<^sup>* s s'" "sk_calls s j = None"
    "sk_calls s' j = Some (event, Returned None)"
  shows "sk_ready s \<and> (\<forall>i event'. sk_calls s i = Some (event', Returned None) \<longrightarrow>
    (\<exists>before between after. log_entries s' = before @ i # between @ j # after))"
proof
  have inv: "sink_inv s" using json_sink.reachable_inv [OF refl assms(1)] .
  have "\<not> past_handover s j" using assms(3) by (simp add: past_handover_def)
  with place_inv_fresh [of s j] inv have new: "j \<notin> set (log_entries s)"
    by (auto simp: sink_inv_def log_entries_def)
  show "sk_ready s"
    using refused_steps [OF assms(2), of j] assms(3,4) by (auto simp: refused_call_def)
  show "\<forall>i event'. sk_calls s i = Some (event', Returned None) \<longrightarrow>
    (\<exists>before between after. log_entries s' = before @ i # between @ j # after)"
    using json_sink.acknowledged_in_order [OF inv _ new assms(2)] assms(4) by blast
qed

theorem audit_order_is_real_time_witness:
  "\<exists>s. sink_step\<^sup>*\<^sup>* NewJSONSink s \<and> (\<exists>before between after. log_entries s = before @ (0::nat) # between @ 1 # after)"
proof -
  obtain event :: Event where True by simp
  let ?s = "after_write 0 (stamp ''now'' event) NewJSONSink" and ?e = "stamp ''later'' event"
  have idle: "idle_sink NewJSONSink" by (simp add: idle_sink_def NewJSONSink_def)
  have s: "sink_step\<^sup>*\<^sup>* NewJSONSink ?s" "idle_sink ?s"
    using undisturbed_write [OF idle, of 0 "''now''" event] by (simp_all add: NewJSONSink_def)
  have calls: "sk_calls ?s 1 = None" "\<exists>e. sk_calls ?s 0 = Some (e, Returned None)"
    by (simp_all add: after_write_def NewJSONSink_def)
  let ?t = "after_write 1 ?e ?s"
  have t: "sink_step\<^sup>*\<^sup>* ?s ?t" using undisturbed_write [OF s(2) calls(1), of "''later''" event] by simp
  have last: "sk_calls ?t 1 = Some (?e, Returned None)" by (simp add: after_write_def)
  have "\<exists>before between after. log_entries ?t = before @ 0 # between @ 1 # after"
    using audit_order_is_real_time [OF s(1) t calls(1) last] calls(2) by blast
  moreover have "sink_step\<^sup>*\<^sup>* NewJSONSink ?t" using s(1) t by (rule rtranclp_trans)
  ultimately show ?thesis by blast
qed

text \<open>
  C11: a call of \<open>Write\<close> always returns: until it has returned, it can take a step of its own whatever the
  worker and the other callers do, and it takes at most five, because every step either leaves the call
  alone or decreases its rank.
\<close>

theorem write_calls_return:
  assumes "sk_calls s i = Some (event, ph)"
  shows "((\<exists>r. ph = Returned r) \<or> (\<exists>s'. call_step s s' \<and> call_rank s' i < call_rank s i)) \<and>
    (\<forall>s'. sink_step s s' \<longrightarrow> sk_calls s' i = sk_calls s i \<or> call_rank s' i < call_rank s i) \<and> call_rank s i \<le> 5"
proof (intro conjI allI impI)
  show "(\<exists>r. ph = Returned r) \<or> (\<exists>s'. call_step s s' \<and> call_rank s' i < call_rank s i)"
    using call_can_move [OF assms] call_rank_step [of s _ i] by (auto simp: sink_step_def)
  show "sk_calls s' i = sk_calls s i \<or> call_rank s' i < call_rank s i" if "sink_step s s'" for s'
    using that by (rule call_rank_step)
  show "call_rank s i \<le> 5" using assms by (cases ph) (simp_all add: call_rank_def)
qed

theorem write_calls_return_witness:
  "\<exists>(s :: JSONSink) event s'. sk_calls s 7 = Some (event, Awaiting) \<and> call_step s s' \<and> call_rank s' 7 < call_rank s 7"
proof -
  obtain event :: Event where True by simp
  let ?s = "set_call 7 event Awaiting NewJSONSink"
  have "sk_calls ?s 7 = Some (event, Awaiting)" by simp
  then show ?thesis using write_calls_return [of ?s 7 event Awaiting] by blast
qed

text \<open>
  C13: hashing an unassigned name terminates whatever its length, and the hash is that of the domain text
  followed by the whole name.
\<close>

theorem identifier_hashes_terminate:
  "auditIdentifierHash domain_text identifier = Some (hex_encode (sha256 (domain_text @ identifier)))"
  by (simp add: auditIdentifierHash_def WriteString_def write_chunks_total)

end
