(* ===== verification/Database_Manager.thy ===== *)
theory Database_Manager
  imports Policy_Shapes Keyset_Pages
begin

text \<open>
  \<^verbatim>\<open>internal/database/database.go\<close>: the manager that owns one source per configured datasource and dispatches the
  authorised operations to its adapter. An adapter is an interface value: a record of functions over the outside
  world \<open>'w\<close> (servers, clock, network) and connection handles \<open>'db\<close>; an optional interface is an option, which is
  what the type assertions of the code test. Go maps that are ranged over are association lists with distinct keys,
  in the order in which the range visits them.
\<close>

section \<open>Results\<close>

record ExplainResult =
  er_Format :: string
  er_Plan :: string

record ObjectDescription =
  od_Schema :: string
  od_Name :: string
  od_Columns :: "ColumnDescription list"

record KeysetEnvelopeBudget =
  FinalBaseBytes :: int
  MoreBaseBytes :: int

record AggregateResult =
  ar_Mode :: string
  ar_Columns :: "ResultColumn list"
  ar_Rows :: "string option list list"
  ar_RowCount :: int
  ar_Truncated :: bool
  ar_ResultBytes :: int

record UnsignedMetric =
  um_Value :: string
  um_Estimated :: bool

record TableStatistics =
  ts_EstimatedRows :: "UnsignedMetric option"
  ts_DataBytes :: "UnsignedMetric option"
  ts_IndexBytes :: "UnsignedMetric option"
  ts_AutoIncrement :: "UnsignedMetric option"

record PartitionStatistics =
  ps_EstimatedRows :: "UnsignedMetric option"
  ps_DataBytes :: "UnsignedMetric option"
  ps_IndexBytes :: "UnsignedMetric option"

record PartitionEntry =
  pe_Name :: string
  pe_Ordinal :: int
  pe_Statistics :: PartitionStatistics

record SubpartitionEntry =
  se_Name :: string
  se_Ordinal :: int
  se_Statistics :: PartitionStatistics

record PartitionGroup =
  pgr_Name :: string
  pgr_Ordinal :: int
  pgr_Subpartitions :: "SubpartitionEntry list"

record PartitioningResult =
  pt_Kind :: string
  pt_Method :: string
  pt_SubpartitionMethod :: string
  pt_Partitions :: "PartitionEntry list"
  pt_PartitionGroups :: "PartitionGroup list"

record ObjectStatisticsResult =
  osr_ObservedAt :: string
  osr_Engine :: string
  osr_Table :: TableStatistics
  osr_Partitioning :: PartitioningResult
  osr_ResultBytes :: int
  osr_PartitionCount :: int
  osr_SubpartitionCount :: int

section \<open>Configuration\<close>

record PoolConfig =
  MaxOpenConnections :: int
  MaxIdleConnections :: int
  MaxConnectionLifetimeSeconds :: int

record Datasource =
  ds_Adapter :: string
  ds_DSN :: string
  ds_DSNSecretRef :: string
  ds_TLSRequired :: "bool option"
  ds_RequiredForReadiness :: bool
  ds_Pool :: PoolConfig

fun filterUses :: "AggregateShapeFilter \<Rightarrow> bool" where
  "filterUses (AggregateShapeFilter rep kind field op types exprs) \<longleftrightarrow>
     rep = RepresentationSourceText \<or> list_ex filterUses (nil_slice exprs)"

definition optional_filter_uses :: "AggregateShapeFilter option \<Rightarrow> bool" where
  "optional_filter_uses fo = (case fo of None \<Rightarrow> False | Some f \<Rightarrow> filterUses f)"

definition optional_orders :: "AggregateShapeOrder list option \<Rightarrow> AggregateShapeOrder list" where
  "optional_orders orders = (case orders of None \<Rightarrow> [] | Some os \<Rightarrow> os)"

definition QueryPolicyUsesSourceText :: "QueryPolicy \<Rightarrow> bool" where
  "QueryPolicyUsesSourceText policy \<longleftrightarrow>
     list_ex (\<lambda>shape.
       list_ex (\<lambda>out. aso_Representation out = RepresentationSourceText) (ash_Projection shape) \<or>
       list_ex (\<lambda>out. asr_Representation out = RepresentationSourceText) (optional_orders (ash_OrderBy shape)) \<or>
       optional_filter_uses (ash_Filter shape)) (AggregateShapes policy) \<or>
     list_ex (\<lambda>shape.
       list_ex (\<lambda>out. ksp_Representation out = RepresentationSourceText) (ksh_Projection shape) \<or>
       list_ex (\<lambda>out. kso_Representation out = RepresentationSourceText) (ksh_OrderBy shape) \<or>
       optional_filter_uses (ksh_Filter shape)) (KeysetSelectShapes policy)"

section \<open>Adapters\<close>

type_synonym ('w, 'a) adapter_call = "'w \<Rightarrow> (adapter_error + 'a) \<times> 'w"

record ('db, 'w) SchemaAdapter =
  sa_ListObjects :: "'db \<Rightarrow> string \<Rightarrow> ('w, SchemaObject list) adapter_call"
  sa_DescribeObject :: "'db \<Rightarrow> ResourceRef \<Rightarrow> ('w, ObjectDescription) adapter_call"

record ('db, 'w) Adapter =
  ad_Name :: string
  ad_Capabilities :: "Operation list"
  ad_Validate :: "'db \<Rightarrow> 'w \<Rightarrow> adapter_error option \<times> 'w"
  ad_IdentifierSemantics :: "'db \<Rightarrow> ('w, IdentifierSemantics) adapter_call"
  ad_Open :: "string \<Rightarrow> Datasource \<Rightarrow> 'w \<Rightarrow> (string + 'db) \<times> 'w"
  ad_Explain :: "'db \<Rightarrow> AuthorizedQuery \<Rightarrow> ('w, ExplainResult) adapter_call"
  ad_Features :: "AdapterFeature list option"
  ad_Schema :: "('db, 'w) SchemaAdapter option"
  ad_Select :: "('db \<Rightarrow> AuthorizedQuery \<Rightarrow> ('w, SelectResult) adapter_call) option"
  ad_SelectKeyset :: "('db \<Rightarrow> AuthorizedKeysetSelect \<Rightarrow> KeysetEnvelopeBudget \<Rightarrow> ('w, KeysetSelectResult) adapter_call) option"
  ad_Aggregate :: "('db \<Rightarrow> AuthorizedAggregate \<Rightarrow> int \<Rightarrow> ('w, AggregateResult) adapter_call) option"
  ad_ObjectStatistics :: "('db \<Rightarrow> AuthorizedObjectStatistics \<Rightarrow> int \<Rightarrow> ('w, ObjectStatisticsResult) adapter_call) option"

text \<open>The interface an operation needs beside the base one.\<close>

definition implements :: "('db, 'w) Adapter \<Rightarrow> Operation \<Rightarrow> bool" where
  "implements adapter operation \<longleftrightarrow>
     (if operation = OperationListObjects \<or> operation = OperationDescribeObject then ad_Schema adapter \<noteq> None
      else if operation = OperationSelect then ad_Select adapter \<noteq> None
      else if operation = OperationSelectKeyset then ad_SelectKeyset adapter \<noteq> None
      else if operation = OperationAggregate then ad_Aggregate adapter \<noteq> None
      else if operation = OperationDescribeObjectStatistics then ad_ObjectStatistics adapter \<noteq> None
      else True)"

fun feature_errors :: "AdapterFeature list \<Rightarrow> AdapterFeature list \<Rightarrow> string option" where
  "feature_errors seen [] = None"
| "feature_errors seen (feature # rest) =
     (if \<not> AdapterFeature_Valid feature then Some ''advertises unknown feature''
      else if feature \<in> set seen then Some ''advertises duplicate feature''
      else feature_errors (feature # seen) rest)"

definition validateAdapterFeatures :: "('db, 'w) Adapter \<Rightarrow> string + AdapterFeature list" where
  "validateAdapterFeatures adapter =
     (case ad_Features adapter of
        None \<Rightarrow> Inr []
      | Some provided \<Rightarrow> check (feature_errors [] provided) (Inr provided))"

fun capability_errors :: "('db, 'w) Adapter \<Rightarrow> Operation list \<Rightarrow> Operation list \<Rightarrow> string option" where
  "capability_errors adapter seen [] = None"
| "capability_errors adapter seen (operation # rest) =
     (if \<not> Operation_Valid operation then Some ''advertises unknown capability''
      else if operation = OperationListQueryShapes then Some ''advertises core-owned capability''
      else if operation \<in> set seen then Some ''advertises duplicate capability''
      else if \<not> implements adapter operation then Some ''advertises a capability without implementing it''
      else capability_errors adapter (operation # seen) rest)"

definition validateAdapterCapabilities :: "('db, 'w) Adapter \<Rightarrow> string + Operation list" where
  "validateAdapterCapabilities adapter =
     check (capability_errors adapter [] (ad_Capabilities adapter)) (Inr (ad_Capabilities adapter))"

section \<open>The manager\<close>

datatype source_problem = ConfigurationError string | SecretUnavailable string

record ('db, 'w) source =
  src_adapter :: "('db, 'w) Adapter option"
  src_adapterName :: string
  src_capabilities :: "Operation list"
  src_features :: "AdapterFeature list"
  src_db :: "'db option"
  src_initErr :: "source_problem option"
  src_required :: bool

type_synonym ('db, 'w) Manager = "(string \<times> ('db, 'w) source) list"

type_synonym 'w resolver = "string \<Rightarrow> 'w \<Rightarrow> (string + string) \<times> 'w"

definition adapter_registry :: "('db, 'w) Adapter list \<Rightarrow> string \<rightharpoonup> ('db, 'w) Adapter" where
  "adapter_registry adapters = map_of (rev (map (\<lambda>a. (ad_Name a, a)) adapters))"

text \<open>A source that could not be opened, as far as its adapter was examined.\<close>

definition failed_source ::
  "('db, 'w) Adapter option \<Rightarrow> string \<Rightarrow> Operation list \<Rightarrow> AdapterFeature list \<Rightarrow> source_problem \<Rightarrow> bool \<Rightarrow> ('db, 'w) source" where
  "failed_source adapter name caps feats problem required =
     \<lparr>src_adapter = adapter, src_adapterName = name, src_capabilities = caps, src_features = feats,
      src_db = None, src_initErr = Some problem, src_required = required\<rparr>"

definition unsupported_profile :: "(string \<times> Profile) list \<Rightarrow> string \<Rightarrow> AdapterFeature list \<Rightarrow> bool" where
  "unsupported_profile profs name feats \<longleftrightarrow>
     list_ex (\<lambda>(_, profile). name \<in> set (prof_Datasources profile) \<and> QueryPolicyUsesSourceText (prof_Query profile) \<and>
       FeatureSourceText \<notin> set feats) profs"

definition resolve_dsn :: "'w resolver \<Rightarrow> Datasource \<Rightarrow> 'w \<Rightarrow> (string + string) \<times> 'w" where
  "resolve_dsn resolve datasource w =
     (if ds_DSN datasource \<noteq> [] then (Inr (ds_DSN datasource), w) else resolve (ds_DSNSecretRef datasource) w)"

definition open_source ::
  "(string \<rightharpoonup> ('db, 'w) Adapter) \<Rightarrow> 'w resolver \<Rightarrow> (string \<times> Profile) list \<Rightarrow> string \<Rightarrow> Datasource \<Rightarrow> 'w
     \<Rightarrow> ('db, 'w) source \<times> 'w" where
  "open_source registry resolve profs name datasource w =
     (let required = ds_RequiredForReadiness datasource; adapterName = ds_Adapter datasource in
      case registry adapterName of
        None \<Rightarrow> (failed_source None [] [] [] (ConfigurationError ''unknown adapter'') required, w)
      | Some adapter \<Rightarrow>
          (case validateAdapterCapabilities adapter of
             Inl e \<Rightarrow> (failed_source (Some adapter) adapterName [] [] (ConfigurationError e) required, w)
           | Inr caps \<Rightarrow>
               (case validateAdapterFeatures adapter of
                  Inl e \<Rightarrow> (failed_source (Some adapter) adapterName caps [] (ConfigurationError e) required, w)
                | Inr feats \<Rightarrow>
                    if unsupported_profile profs name feats then
                      (failed_source (Some adapter) adapterName caps feats
                        (ConfigurationError ''profile requires unsupported source_text feature'') required, w)
                    else
                      (case resolve_dsn resolve datasource w of
                         (Inl e, w1) \<Rightarrow> (failed_source (Some adapter) adapterName caps feats
                            (SecretUnavailable ''DSN is unavailable'') required, w1)
                       | (Inr dsn, w1) \<Rightarrow>
                           (case ad_Open adapter dsn datasource w1 of
                              (Inl e, w2) \<Rightarrow> (failed_source (Some adapter) adapterName caps feats
                                 (ConfigurationError e) required, w2)
                            | (Inr db, w2) \<Rightarrow>
                                (\<lparr>src_adapter = Some adapter, src_adapterName = adapterName, src_capabilities = caps,
                                  src_features = feats, src_db = Some db, src_initErr = None, src_required = required\<rparr>, w2))))))"

fun open_sources ::
  "(string \<rightharpoonup> ('db, 'w) Adapter) \<Rightarrow> 'w resolver \<Rightarrow> (string \<times> Profile) list \<Rightarrow> (string \<times> Datasource) list \<Rightarrow> 'w
     \<Rightarrow> ('db, 'w) Manager \<times> 'w" where
  "open_sources registry resolve profs [] w = ([], w)"
| "open_sources registry resolve profs ((name, datasource) # rest) w =
     (let (src, w1) = open_source registry resolve profs name datasource w;
          (manager, w2) = open_sources registry resolve profs rest w1 in
      ((name, src) # manager, w2))"

text \<open>The problems are those of the sources, in the order of the range.\<close>

definition NewManager ::
  "(string \<times> Datasource) list \<Rightarrow> (string \<times> Profile) list \<Rightarrow> 'w resolver \<Rightarrow> ('db, 'w) Adapter list \<Rightarrow> 'w
     \<Rightarrow> ('db, 'w) Manager \<times> source_problem list \<times> 'w" where
  "NewManager datasources profs resolve adapters w =
     (let (manager, w') = open_sources (adapter_registry adapters) resolve profs datasources w in
      (manager, List.map_filter (\<lambda>(_, src). src_initErr src) manager, w'))"

section \<open>Dispatch\<close>

definition availableSource :: "('db, 'w) Manager \<Rightarrow> string \<Rightarrow> adapter_error + ('db, 'w) Adapter \<times> 'db \<times> ('db, 'w) source" where
  "availableSource m datasource =
     (case map_of m datasource of
        None \<Rightarrow> Inl (DatabaseError ErrorUnavailable)
      | Some src \<Rightarrow>
          (case (src_initErr src, src_db src, src_adapter src) of
             (None, Some db, Some adapter) \<Rightarrow> Inr (adapter, db, src)
           | _ \<Rightarrow> Inl (DatabaseError ErrorUnavailable)))"

definition requireCapability :: "('db, 'w) source \<Rightarrow> Operation \<Rightarrow> adapter_error option" where
  "requireCapability src operation = fail_if (operation \<notin> set (src_capabilities src)) (DatabaseError ErrorNotImplemented)"

definition invalidQueryAuthorization :: adapter_error where
  "invalidQueryAuthorization = DatabaseError ErrorUpstream"

text \<open>A call of the manager returns the result, the adapter's name and the world.\<close>

type_synonym ('w, 'a) manager_call = "'w \<Rightarrow> (adapter_error + 'a) \<times> string \<times> 'w"

text \<open>
  The part the operations share: the guard on the authorisation, the source, the match of the adapter named by the
  authorisation where there is one, the advertised capability, the type assertion, and the call.
\<close>

definition dispatch ::
  "('db, 'w) Manager \<Rightarrow> string \<Rightarrow> Operation \<Rightarrow> bool \<Rightarrow> string option \<Rightarrow> (('db, 'w) Adapter \<Rightarrow> 'f option) \<Rightarrow>
     ('f \<Rightarrow> 'db \<Rightarrow> ('w, 'a) adapter_call) \<Rightarrow> ('w, 'a) manager_call" where
  "dispatch m datasource operation authorized adapterName interface run w =
     (if \<not> authorized then (Inl (DatabaseError ErrorUpstream), [], w)
      else case availableSource m datasource of
             Inl e \<Rightarrow> (Inl e, [], w)
           | Inr (adapter, db, src) \<Rightarrow>
               if adapterName \<noteq> None \<and> adapterName \<noteq> Some (src_adapterName src)
               then (Inl (DatabaseError ErrorUpstream), src_adapterName src, w)
               else case requireCapability src operation of
                      Some e \<Rightarrow> (Inl e, src_adapterName src, w)
                    | None \<Rightarrow>
                        (case interface adapter of
                           None \<Rightarrow> (Inl (DatabaseError ErrorUpstream), src_adapterName src, w)
                         | Some f \<Rightarrow> (case run f db w of (r, w') \<Rightarrow> (r, src_adapterName src, w'))))"

definition Manager_IdentifierSemantics :: "('db, 'w) Manager \<Rightarrow> string \<Rightarrow> ('w, IdentifierSemantics) adapter_call" where
  "Manager_IdentifierSemantics m datasource w =
     (case availableSource m datasource of
        Inl e \<Rightarrow> (Inl (DatabaseError ErrorUnavailable), w)
      | Inr (adapter, db, src) \<Rightarrow> ad_IdentifierSemantics adapter db w)"

definition Manager_Explain :: "('db, 'w) Manager \<Rightarrow> AuthorizedQuery \<Rightarrow> ('w, ExplainResult) manager_call" where
  "Manager_Explain m query =
     dispatch m (aq_datasource query) OperationExplainSelect (aq_operation query = OperationExplainSelect) None
       (\<lambda>adapter. Some (ad_Explain adapter)) (\<lambda>f db. f db query)"

definition map_call :: "('a \<Rightarrow> 'b) \<Rightarrow> ('w, 'a) adapter_call \<Rightarrow> ('w, 'b) adapter_call" where
  "map_call g call w = (case call w of (Inl e, w') \<Rightarrow> (Inl e, w') | (Inr v, w') \<Rightarrow> (Inr (g v), w'))"

definition Manager_ListObjects :: "('db, 'w) Manager \<Rightarrow> AuthorizedSchema \<Rightarrow> ('w, SchemaObject list) manager_call" where
  "Manager_ListObjects m a =
     dispatch m (sc_datasource a) OperationListObjects
       (sc_operation a = OperationListObjects \<and> sc_schema a \<noteq> [] \<and> sc_object a = []) None ad_Schema
       (\<lambda>f db. map_call (filter (\<lambda>object. IsIdentifier (so_Name object) \<and> AllowsObject a (so_Name object)))
          (sa_ListObjects f db (sc_schema a)))"

definition Manager_DescribeObject :: "('db, 'w) Manager \<Rightarrow> AuthorizedSchema \<Rightarrow> ('w, ObjectDescription) manager_call" where
  "Manager_DescribeObject m a =
     dispatch m (sc_datasource a) OperationDescribeObject
       (sc_operation a = OperationDescribeObject \<and> sc_schema a \<noteq> [] \<and> sc_object a \<noteq> []) None ad_Schema
       (\<lambda>f db. map_call (\<lambda>d. d\<lparr>od_Columns := filter (\<lambda>c. IsIdentifier (cd_Name c) \<and> AllowsField a (cd_Name c)) (od_Columns d)\<rparr>)
          (sa_DescribeObject f db \<lparr>ref_Schema = sc_schema a, ref_Name = sc_object a\<rparr>))"

definition Manager_Select :: "('db, 'w) Manager \<Rightarrow> AuthorizedQuery \<Rightarrow> ('w, SelectResult) manager_call" where
  "Manager_Select m query =
     dispatch m (aq_datasource query) OperationSelect (aq_operation query = OperationSelect) None ad_Select
       (\<lambda>f db. f db query)"

definition Manager_SelectKeyset ::
  "('db, 'w) Manager \<Rightarrow> AuthorizedKeysetSelect \<Rightarrow> KeysetEnvelopeBudget \<Rightarrow> ('w, KeysetSelectResult) manager_call" where
  "Manager_SelectKeyset m query budget =
     dispatch m (ak_datasource query) OperationSelectKeyset
       (ak_operation query = OperationSelectKeyset \<and> ak_adapter query \<noteq> [] \<and>
        FinalBaseBytes budget \<ge> 0 \<and> MoreBaseBytes budget \<ge> 0 \<and>
        FinalBaseBytes budget \<le> MaxResultBytes (ak_limits query) \<and> MoreBaseBytes budget \<le> MaxResultBytes (ak_limits query))
       (Some (ak_adapter query)) ad_SelectKeyset (\<lambda>f db. f db query budget)"

definition Manager_Aggregate :: "('db, 'w) Manager \<Rightarrow> AuthorizedAggregate \<Rightarrow> int \<Rightarrow> ('w, AggregateResult) manager_call" where
  "Manager_Aggregate m query envelopeBaseBytes =
     dispatch m (aa_datasource query) OperationAggregate
       (aa_operation query = OperationAggregate \<and> envelopeBaseBytes \<ge> 0 \<and> envelopeBaseBytes \<le> MaxResultBytes (aa_limits query))
       None ad_Aggregate (\<lambda>f db. f db query envelopeBaseBytes)"

definition Manager_DescribeObjectStatistics ::
  "('db, 'w) Manager \<Rightarrow> AuthorizedObjectStatistics \<Rightarrow> int \<Rightarrow> ('w, ObjectStatisticsResult) manager_call" where
  "Manager_DescribeObjectStatistics m a envelopeBaseBytes =
     dispatch m (os_datasource a) OperationDescribeObjectStatistics
       (os_operation a = OperationDescribeObjectStatistics \<and> os_schema a \<noteq> [] \<and> os_object a \<noteq> [] \<and>
        envelopeBaseBytes \<ge> 0 \<and> envelopeBaseBytes \<le> MaxResultBytes (os_limits a))
       (Some (os_adapter a)) ad_ObjectStatistics (\<lambda>f db. f db a envelopeBaseBytes)"

section \<open>Queries about sources\<close>

definition known_source :: "('db, 'w) Manager \<Rightarrow> string \<Rightarrow> ('db, 'w) source option" where
  "known_source m datasource =
     (case map_of m datasource of None \<Rightarrow> None | Some src \<Rightarrow> if src_adapter src = None then None else Some src)"

definition Manager_AdapterName :: "('db, 'w) Manager \<Rightarrow> string \<Rightarrow> string" where
  "Manager_AdapterName m datasource = (case known_source m datasource of None \<Rightarrow> [] | Some src \<Rightarrow> src_adapterName src)"

definition Manager_Capabilities :: "('db, 'w) Manager \<Rightarrow> string \<Rightarrow> Operation list" where
  "Manager_Capabilities m datasource = (case known_source m datasource of None \<Rightarrow> [] | Some src \<Rightarrow> src_capabilities src)"

definition Manager_Features :: "('db, 'w) Manager \<Rightarrow> string \<Rightarrow> AdapterFeature list" where
  "Manager_Features m datasource = (case known_source m datasource of None \<Rightarrow> [] | Some src \<Rightarrow> src_features src)"

fun probe_sources :: "('db, 'w) source list \<Rightarrow> 'w \<Rightarrow> adapter_error option \<times> 'w" where
  "probe_sources [] w = (None, w)"
| "probe_sources (src # rest) w =
     (case (src_initErr src, src_db src, src_adapter src) of
        (None, Some db, Some adapter) \<Rightarrow>
          (case ad_Validate adapter db w of
             (Some e, w') \<Rightarrow> (Some (DatabaseError ErrorUnavailable), w')
           | (None, w') \<Rightarrow> probe_sources rest w')
      | _ \<Rightarrow> (Some (DatabaseError ErrorUnavailable), w))"

definition Manager_Ready :: "('db, 'w) Manager \<Rightarrow> 'w \<Rightarrow> adapter_error option \<times> 'w" where
  "Manager_Ready m = probe_sources (filter src_required (map snd m))"

fun Manager_Close :: "('db \<Rightarrow> 'w \<Rightarrow> string option \<times> 'w) \<Rightarrow> ('db, 'w) Manager \<Rightarrow> 'w \<Rightarrow> string list \<times> 'w" where
  "Manager_Close close [] w = ([], w)"
| "Manager_Close close ((name, src) # rest) w =
     (case src_db src of
        None \<Rightarrow> Manager_Close close rest w
      | Some db \<Rightarrow>
          (case close db w of
             (e, w1) \<Rightarrow> (case Manager_Close close rest w1 of (es, w2) \<Rightarrow> (case e of None \<Rightarrow> es | Some t \<Rightarrow> t # es, w2))))"

section \<open>Sources as the manager builds them\<close>

lemma capability_errors_None:
  "capability_errors adapter seen caps = None \<longleftrightarrow>
     distinct caps \<and> set caps \<inter> set seen = {} \<and>
     (\<forall>op \<in> set caps. Operation_Valid op \<and> op \<noteq> OperationListQueryShapes \<and> implements adapter op)"
  by (induction adapter seen caps rule: capability_errors.induct) auto

lemma feature_errors_None:
  "feature_errors seen feats = None \<longleftrightarrow>
     distinct feats \<and> set feats \<inter> set seen = {} \<and> (\<forall>f \<in> set feats. AdapterFeature_Valid f)"
  by (induction seen feats rule: feature_errors.induct) auto

lemma validateAdapterCapabilities_Inr:
  "validateAdapterCapabilities adapter = Inr caps \<longleftrightarrow>
     caps = ad_Capabilities adapter \<and> distinct caps \<and>
     (\<forall>op \<in> set caps. Operation_Valid op \<and> op \<noteq> OperationListQueryShapes \<and> implements adapter op)"
  by (auto simp: validateAdapterCapabilities_def capability_errors_None)

text \<open>What the manager promises of a source: an open one has an examined adapter and no problem.\<close>

definition sound_source :: "('db, 'w) Adapter list \<Rightarrow> ('db, 'w) source \<Rightarrow> bool" where
  "sound_source adapters src \<longleftrightarrow>
     (src_db src = None \<longleftrightarrow> src_initErr src \<noteq> None) \<and>
     (case src_adapter src of
        None \<Rightarrow> src_db src = None \<and> src_capabilities src = []
      | Some adapter \<Rightarrow> adapter \<in> set adapters \<and> ad_Name adapter = src_adapterName src \<and>
          (\<forall>op \<in> set (src_capabilities src). op \<in> set (ad_Capabilities adapter) \<and> Operation_Valid op \<and>
             op \<noteq> OperationListQueryShapes \<and> implements adapter op))"

lemma adapter_registry_Some:
  assumes "adapter_registry adapters name = Some adapter"
  shows "adapter \<in> set adapters \<and> ad_Name adapter = name"
  using map_of_SomeD [OF assms [unfolded adapter_registry_def]] by auto

lemma open_source_sound: "sound_source adapters (fst (open_source (adapter_registry adapters) resolve profs name d w))"
  unfolding open_source_def Let_def
  by (auto simp: sound_source_def failed_source_def validateAdapterCapabilities_Inr dest!: adapter_registry_Some
      split: option.splits sum.splits prod.splits)

lemma open_sources_sound:
  assumes "(name, src) \<in> set (fst (open_sources (adapter_registry adapters) resolve profs ds w))"
  shows "sound_source adapters src"
  using assms
proof (induction ds arbitrary: w)
  case (Cons d ds)
  then show ?case
    using open_source_sound [of adapters resolve profs "fst d" "snd d" w]
    by (cases d) (auto simp: split_beta Let_def)
qed simp

lemma availableSource_Inr:
  "availableSource m datasource = Inr (adapter, db, src) \<longleftrightarrow>
     map_of m datasource = Some src \<and> src_initErr src = None \<and> src_db src = Some db \<and> src_adapter src = Some adapter"
  by (auto simp: availableSource_def split: option.splits)

lemma NewManager_sound:
  assumes "NewManager ds profs resolve adapters w = (m, problems, w')" "availableSource m datasource = Inr (adapter, db, src)"
  shows "sound_source adapters src \<and> src_adapter src = Some adapter"
proof -
  have "(datasource, src) \<in> set m" using assms(2) by (simp add: availableSource_Inr map_of_SomeD)
  moreover have "m = fst (open_sources (adapter_registry adapters) resolve profs ds w)"
    using assms(1) by (simp add: NewManager_def split_beta Let_def)
  ultimately show ?thesis using open_sources_sound assms(2) by (metis availableSource_Inr)
qed

section \<open>Dispatch without type assertions\<close>

definition sure_dispatch ::
  "('db, 'w) Manager \<Rightarrow> string \<Rightarrow> Operation \<Rightarrow> bool \<Rightarrow> string option \<Rightarrow> (('db, 'w) Adapter \<Rightarrow> 'db \<Rightarrow> ('w, 'a) adapter_call)
     \<Rightarrow> ('w, 'a) manager_call" where
  "sure_dispatch m datasource operation authorized adapterName run w =
     (if \<not> authorized then (Inl (DatabaseError ErrorUpstream), [], w)
      else case availableSource m datasource of
             Inl e \<Rightarrow> (Inl e, [], w)
           | Inr (adapter, db, src) \<Rightarrow>
               if adapterName \<noteq> None \<and> adapterName \<noteq> Some (src_adapterName src)
               then (Inl (DatabaseError ErrorUpstream), src_adapterName src, w)
               else if operation \<notin> set (src_capabilities src)
               then (Inl (DatabaseError ErrorNotImplemented), src_adapterName src, w)
               else (fst (run adapter db w), src_adapterName src, snd (run adapter db w)))"

lemma dispatch_sure:
  assumes "NewManager ds profs resolve adapters w = (m, problems, w')"
    and "\<And>adapter. implements adapter operation \<Longrightarrow> interface adapter \<noteq> None"
  shows "dispatch m datasource operation authorized adapterName interface run =
     sure_dispatch m datasource operation authorized adapterName (\<lambda>adapter. run (the (interface adapter)))"
proof
  fix v
  show "dispatch m datasource operation authorized adapterName interface run v =
     sure_dispatch m datasource operation authorized adapterName (\<lambda>adapter. run (the (interface adapter))) v"
  proof (cases "availableSource m datasource")
    case (Inr b)
    obtain adapter db src where b: "b = (adapter, db, src)" by (cases b)
    have "implements adapter operation" if "operation \<in> set (src_capabilities src)"
      using NewManager_sound [OF assms(1) Inr [unfolded b]] that by (auto simp: sound_source_def)
    with assms(2) [of adapter] show ?thesis
      by (auto simp: dispatch_def sure_dispatch_def Inr b requireCapability_def fail_if_def split: option.splits prod.splits)
  qed (simp add: dispatch_def sure_dispatch_def)
qed

lemma query_calls_sure:
  assumes "NewManager ds profs resolve adapters w = (m, problems, w')"
  shows "Manager_Select m q = sure_dispatch m (aq_datasource q) OperationSelect (aq_operation q = OperationSelect) None
      (\<lambda>adapter db. the (ad_Select adapter) db q)"
    and "Manager_SelectKeyset m k budget = sure_dispatch m (ak_datasource k) OperationSelectKeyset
      (ak_operation k = OperationSelectKeyset \<and> ak_adapter k \<noteq> [] \<and>
       FinalBaseBytes budget \<ge> 0 \<and> MoreBaseBytes budget \<ge> 0 \<and>
       FinalBaseBytes budget \<le> MaxResultBytes (ak_limits k) \<and> MoreBaseBytes budget \<le> MaxResultBytes (ak_limits k))
      (Some (ak_adapter k)) (\<lambda>adapter db. the (ad_SelectKeyset adapter) db k budget)"
    and "Manager_Aggregate m a n = sure_dispatch m (aa_datasource a) OperationAggregate
      (aa_operation a = OperationAggregate \<and> n \<ge> 0 \<and> n \<le> MaxResultBytes (aa_limits a)) None
      (\<lambda>adapter db. the (ad_Aggregate adapter) db a n)"
  unfolding Manager_Select_def Manager_SelectKeyset_def Manager_Aggregate_def
  by (rule dispatch_sure [OF assms], simp add: implements_def operation_defs)+

lemma schema_calls_sure:
  assumes "NewManager ds profs resolve adapters w = (m, problems, w')"
  shows "Manager_DescribeObjectStatistics m t n = sure_dispatch m (os_datasource t) OperationDescribeObjectStatistics
      (os_operation t = OperationDescribeObjectStatistics \<and> os_schema t \<noteq> [] \<and> os_object t \<noteq> [] \<and>
       n \<ge> 0 \<and> n \<le> MaxResultBytes (os_limits t)) (Some (os_adapter t)) (\<lambda>adapter db. the (ad_ObjectStatistics adapter) db t n)"
    and "Manager_ListObjects m l = sure_dispatch m (sc_datasource l) OperationListObjects
      (sc_operation l = OperationListObjects \<and> sc_schema l \<noteq> [] \<and> sc_object l = []) None
      (\<lambda>adapter db. map_call (filter (\<lambda>object. IsIdentifier (so_Name object) \<and> AllowsObject l (so_Name object)))
         (sa_ListObjects (the (ad_Schema adapter)) db (sc_schema l)))"
    and "Manager_DescribeObject m l = sure_dispatch m (sc_datasource l) OperationDescribeObject
      (sc_operation l = OperationDescribeObject \<and> sc_schema l \<noteq> [] \<and> sc_object l \<noteq> []) None
      (\<lambda>adapter db. map_call (\<lambda>d. d\<lparr>od_Columns := filter (\<lambda>c. IsIdentifier (cd_Name c) \<and> AllowsField l (cd_Name c)) (od_Columns d)\<rparr>)
         (sa_DescribeObject (the (ad_Schema adapter)) db \<lparr>ref_Schema = sc_schema l, ref_Name = sc_object l\<rparr>))"
  unfolding Manager_DescribeObjectStatistics_def Manager_ListObjects_def Manager_DescribeObject_def
  by (rule dispatch_sure [OF assms], simp add: implements_def operation_defs)+

section \<open>Properties\<close>

text \<open>A small adapter over a world that counts its calls.\<close>

definition sample_adapter :: "(nat, nat) Adapter" where
  "sample_adapter = \<lparr>ad_Name = ''mysql8'', ad_Capabilities = [OperationSelect, OperationExplainSelect],
     ad_Validate = (\<lambda>db w. (None, w + 1)),
     ad_IdentifierSemantics = (\<lambda>db w. (Inr \<lparr>CaseInsensitiveSchemas = False, CaseInsensitiveObjects = False,
       CaseInsensitiveFields = True\<rparr>, w + 1)),
     ad_Open = (\<lambda>dsn d w. (Inr 7, w + 1)),
     ad_Explain = (\<lambda>db q w. (Inr \<lparr>er_Format = ''json'', er_Plan = ''{}''\<rparr>, w + 1)),
     ad_Features = None, ad_Schema = None,
     ad_Select = Some (\<lambda>db q w. (Inr \<lparr>sr_Columns = [], sr_Rows = [], sr_RowCount = 0, sr_Truncated = False, sr_ResultBytes = 24\<rparr>, w + 1)),
     ad_SelectKeyset = None, ad_Aggregate = None, ad_ObjectStatistics = None\<rparr>"

definition sample_datasource :: Datasource where
  "sample_datasource = \<lparr>ds_Adapter = ''mysql8'', ds_DSN = ''dsn'', ds_DSNSecretRef = [], ds_TLSRequired = None,
     ds_RequiredForReadiness = True,
     ds_Pool = \<lparr>MaxOpenConnections = 4, MaxIdleConnections = 1, MaxConnectionLifetimeSeconds = 60\<rparr>\<rparr>"

definition sample_manager :: "(nat, nat) Manager" where
  "sample_manager = [(''main'', \<lparr>src_adapter = Some sample_adapter, src_adapterName = ''mysql8'',
     src_capabilities = [OperationSelect, OperationExplainSelect], src_features = [], src_db = Some 7,
     src_initErr = None, src_required = True\<rparr>)]"

lemma sample_manager_new:
  "NewManager [(''main'', sample_datasource)] [] (\<lambda>_ w. (Inl ''none'', w)) [sample_adapter] 0 = (sample_manager, [], 1)"
proof -
  have caps: "validateAdapterCapabilities sample_adapter = Inr [OperationSelect, OperationExplainSelect]"
    by (simp add: validateAdapterCapabilities_Inr sample_adapter_def Operation_Valid_def implements_def operation_defs)
  have feats: "validateAdapterFeatures sample_adapter = Inr []"
    by (simp add: validateAdapterFeatures_def sample_adapter_def)
  have reg: "adapter_registry [sample_adapter] ''mysql8'' = Some sample_adapter"
    by (simp add: adapter_registry_def sample_adapter_def)
  have dsn: "resolve_dsn resolve sample_datasource w = (Inr ''dsn'', w)" for resolve and w :: nat
    by (simp add: resolve_dsn_def sample_datasource_def)
  have ds: "ds_Adapter sample_datasource = ''mysql8''" "ds_RequiredForReadiness sample_datasource"
    by (simp_all add: sample_datasource_def)
  have opened: "ad_Open sample_adapter dsn d w = (Inr 7, w + 1)" for dsn d w by (simp add: sample_adapter_def)
  show ?thesis
    by (simp add: NewManager_def open_source_def Let_def caps feats reg dsn ds opened unsupported_profile_def
        sample_manager_def List.map_filter_simps)
qed

text \<open>
  C12: in a manager made by \<open>NewManager\<close> the type assertions on adapters never fail: for every operation with
  an optional interface, a call whose authorisation is accepted on an open source is refused only because
  the capability is not advertised or the adapter's name differs, and otherwise runs the adapter's method.
\<close>

theorem advertised_operations_are_implemented:
  assumes "NewManager ds profs resolve adapters w = (m, problems, w')"
  shows "Manager_Select m q = sure_dispatch m (aq_datasource q) OperationSelect (aq_operation q = OperationSelect) None
      (\<lambda>adapter db. the (ad_Select adapter) db q) \<and>
    Manager_SelectKeyset m k budget = sure_dispatch m (ak_datasource k) OperationSelectKeyset
      (ak_operation k = OperationSelectKeyset \<and> ak_adapter k \<noteq> [] \<and>
       FinalBaseBytes budget \<ge> 0 \<and> MoreBaseBytes budget \<ge> 0 \<and>
       FinalBaseBytes budget \<le> MaxResultBytes (ak_limits k) \<and> MoreBaseBytes budget \<le> MaxResultBytes (ak_limits k))
      (Some (ak_adapter k)) (\<lambda>adapter db. the (ad_SelectKeyset adapter) db k budget) \<and>
    Manager_Aggregate m a n = sure_dispatch m (aa_datasource a) OperationAggregate
      (aa_operation a = OperationAggregate \<and> n \<ge> 0 \<and> n \<le> MaxResultBytes (aa_limits a)) None
      (\<lambda>adapter db. the (ad_Aggregate adapter) db a n) \<and>
    Manager_DescribeObjectStatistics m t n = sure_dispatch m (os_datasource t) OperationDescribeObjectStatistics
      (os_operation t = OperationDescribeObjectStatistics \<and> os_schema t \<noteq> [] \<and> os_object t \<noteq> [] \<and>
       n \<ge> 0 \<and> n \<le> MaxResultBytes (os_limits t)) (Some (os_adapter t)) (\<lambda>adapter db. the (ad_ObjectStatistics adapter) db t n) \<and>
    Manager_ListObjects m l = sure_dispatch m (sc_datasource l) OperationListObjects
      (sc_operation l = OperationListObjects \<and> sc_schema l \<noteq> [] \<and> sc_object l = []) None
      (\<lambda>adapter db. map_call (filter (\<lambda>object. IsIdentifier (so_Name object) \<and> AllowsObject l (so_Name object)))
         (sa_ListObjects (the (ad_Schema adapter)) db (sc_schema l))) \<and>
    Manager_DescribeObject m l = sure_dispatch m (sc_datasource l) OperationDescribeObject
      (sc_operation l = OperationDescribeObject \<and> sc_schema l \<noteq> [] \<and> sc_object l \<noteq> []) None
      (\<lambda>adapter db. map_call (\<lambda>d. d\<lparr>od_Columns := filter (\<lambda>c. IsIdentifier (cd_Name c) \<and> AllowsField l (cd_Name c)) (od_Columns d)\<rparr>)
         (sa_DescribeObject (the (ad_Schema adapter)) db \<lparr>ref_Schema = sc_schema l, ref_Name = sc_object l\<rparr>))"
  using query_calls_sure [OF assms] schema_calls_sure [OF assms] by (intro conjI)

theorem advertised_operations_are_implemented_witness:
  "\<forall>q. Manager_Select sample_manager q = sure_dispatch sample_manager (aq_datasource q) OperationSelect
     (aq_operation q = OperationSelect) None (\<lambda>adapter db. the (ad_Select adapter) db q)"
  using advertised_operations_are_implemented [OF sample_manager_new] by blast

end
