(* ===== verification/Query_Service.thy ===== *)
theory Query_Service
  imports Audit_Log Database_Manager
begin

text \<open>
  \<^verbatim>\<open>internal/queryservice\<close>: how a request is served over the policy, the audit sink and the database manager
  (\<open>service.go\<close>, \<open>operations.go\<close>, \<open>aggregate.go\<close>, \<open>source_text.go\<close>). A handler is a function from the state of
  the service to its result and the next state; the state holds the outside world, the tokens in the capacity
  channels, the published discovery snapshots, and the history of what the handler did: which audit records were
  written or failed, when an adapter was called and for which access, when capacity was taken and given back.
  The history is what the theorems are about; the code does not keep it.
  The channel operations of concurrent handlers are the subject of \<open>Service_Capacity\<close>.
\<close>

section \<open>Errors\<close>

datatype service_kind =
    ServiceInvalid | ServiceDenied | ServiceNotFound | ServiceTooLarge | ServiceCapacity | ServiceNotImplemented
  | ServiceUnavailable | DatasourceUnavailable | ServiceTimeout | ServiceUpstream | ServiceResultTooLarge | ServiceInternal

definition kind_text :: "service_kind \<Rightarrow> string" where
  "kind_text k = (case k of
     ServiceInvalid \<Rightarrow> ''invalid'' | ServiceDenied \<Rightarrow> ''denied'' | ServiceNotFound \<Rightarrow> ''not_found''
   | ServiceTooLarge \<Rightarrow> ''too_large'' | ServiceCapacity \<Rightarrow> ''capacity'' | ServiceNotImplemented \<Rightarrow> ''not_implemented''
   | ServiceUnavailable \<Rightarrow> ''service_unavailable'' | DatasourceUnavailable \<Rightarrow> ''unavailable'' | ServiceTimeout \<Rightarrow> ''timeout''
   | ServiceUpstream \<Rightarrow> ''upstream'' | ServiceResultTooLarge \<Rightarrow> ''result_too_large'' | ServiceInternal \<Rightarrow> ''internal'')"

record service_error =
  se_Kind :: service_kind
  se_ReasonCode :: string

definition failure :: "service_kind \<Rightarrow> service_error" where
  "failure k = \<lparr>se_Kind = k, se_ReasonCode = []\<rparr>"

definition denial :: "string \<Rightarrow> service_error" where
  "denial reasonCode = \<lparr>se_Kind = ServiceDenied, se_ReasonCode = reasonCode\<rparr>"

definition reason_code :: "reason \<Rightarrow> string" where
  "reason_code r = (case r of
     DeniedOperation \<Rightarrow> ''DENIED_OPERATION'' | DeniedResource \<Rightarrow> ''DENIED_RESOURCE''
   | DeniedField \<Rightarrow> ''DENIED_FIELD'' | DeniedQueryFeature \<Rightarrow> ''DENIED_QUERY_FEATURE'')"

text \<open>The reason of a denial; other errors keep the reason given first.\<close>

definition reason_or :: "string \<Rightarrow> policy_error \<Rightarrow> string" where
  "reason_or initial e = (case IsDenial e of None \<Rightarrow> initial | Some r \<Rightarrow> reason_code r)"

definition classifyDatabaseError :: "adapter_error \<Rightarrow> service_kind" where
  "classifyDatabaseError e = (case e of
     DatabaseError k \<Rightarrow> (case k of
         ErrorNotFound \<Rightarrow> ServiceNotFound | ErrorInvalid \<Rightarrow> ServiceInvalid | ErrorNotImplemented \<Rightarrow> ServiceNotImplemented
       | ErrorUnavailable \<Rightarrow> DatasourceUnavailable | ErrorTimeout \<Rightarrow> ServiceTimeout
       | ErrorRequestTooLarge \<Rightarrow> ServiceTooLarge | ErrorResultTooLarge \<Rightarrow> ServiceResultTooLarge
       | ErrorUpstream \<Rightarrow> ServiceUpstream)
   | _ \<Rightarrow> ServiceUpstream)"

definition classifyDatabaseAuditError :: "adapter_error \<Rightarrow> service_kind" where
  "classifyDatabaseAuditError e =
     (if e = DatabaseError ErrorRequestTooLarge \<or> e = DatabaseError ErrorNotFound then ServiceInvalid
      else classifyDatabaseError e)"

definition mapDatabaseError :: "adapter_error \<Rightarrow> service_error" where
  "mapDatabaseError e = failure (classifyDatabaseError e)"

section \<open>The service and its state\<close>

text \<open>An access: what a grant lets an adapter read, for whom.\<close>

record access =
  ac_principal :: string
  ac_profile :: string
  ac_datasource :: string
  ac_operation :: Operation
  ac_resource :: Resource
  ac_fields :: "string list"

datatype action =
    Wrote Event
  | WriteFailed Event
  | ReadSemantics string
  | Ran access
  | Acquired BindingKey
  | Released BindingKey

record QueryShapeDiscovery =
  dd_datasource :: string
  dd_semantics :: "IdentifierSemantics option"

record configuredQueryShapeSupport =
  qs_count :: int
  qs_supported :: bool

text \<open>
  The audit sink is an interface value: \<open>sv_Write detached event\<close> returns an error or none; \<open>detached\<close> says that the
  cancellation of the request is not passed on. \<open>sv_elapsed\<close> reads the clock.
\<close>

record ('db, 'w) Service =
  sv_policy :: Snapshot
  sv_databases :: "('db, 'w) Manager"
  sv_Write :: "bool \<Rightarrow> Event \<Rightarrow> 'w \<Rightarrow> string option \<times> 'w"
  sv_Ready :: "'w \<Rightarrow> bool"
  sv_elapsed :: "'w \<Rightarrow> int"
  sv_serviceVersion :: string
  sv_globalCapacity :: nat
  sv_bindingCapacity :: "BindingKey \<rightharpoonup> nat"
  sv_queryShapeSupport :: "BindingKey \<rightharpoonup> configuredQueryShapeSupport"

record 'w service_state =
  ss_world :: 'w
  ss_global :: nat
  ss_binding :: "BindingKey \<Rightarrow> nat"
  ss_queryShapes :: "BindingKey \<rightharpoonup> QueryShapeDiscovery"
  ss_history :: "action list"

type_synonym ('w, 'a) handler = "'w service_state \<Rightarrow> (service_error + 'a) \<times> 'w service_state"

definition svc_return :: "'a \<Rightarrow> ('w, 'a) handler" where
  "svc_return v st = (Inr v, st)"

definition svc_fail :: "service_error \<Rightarrow> ('w, 'a) handler" where
  "svc_fail e st = (Inl e, st)"

definition svc_bind :: "('w, 'a) handler \<Rightarrow> ('a \<Rightarrow> ('w, 'b) handler) \<Rightarrow> ('w, 'b) handler" where
  "svc_bind m k st = (case m st of (Inl e, st') \<Rightarrow> (Inl e, st') | (Inr v, st') \<Rightarrow> k v st')"

definition svc_check :: "'e option \<Rightarrow> ('e \<Rightarrow> service_error) \<Rightarrow> ('w, 'a) handler \<Rightarrow> ('w, 'a) handler" where
  "svc_check r g k = (case r of Some e \<Rightarrow> svc_fail (g e) | None \<Rightarrow> k)"

definition svc_lift :: "'e + 'a \<Rightarrow> ('e \<Rightarrow> ('w, 'b) handler) \<Rightarrow> ('a \<Rightarrow> ('w, 'b) handler) \<Rightarrow> ('w, 'b) handler" where
  "svc_lift r f k = (case r of Inl e \<Rightarrow> f e | Inr v \<Rightarrow> k v)"

definition did :: "action \<Rightarrow> 'w service_state \<Rightarrow> 'w service_state" where
  "did a st = st\<lparr>ss_history := ss_history st @ [a]\<rparr>"

section \<open>Audit records\<close>

record caller =
  cl_requestID :: string
  cl_queryID :: string
  cl_principal :: string
  cl_clientIdentifier :: string

text \<open>Every caller of \<open>writeAudit\<close> turns its failure into \<open>ErrorServiceUnavailable\<close>.\<close>

definition writeAudit :: "('db, 'w) Service \<Rightarrow> bool \<Rightarrow> Event \<Rightarrow> ('w, unit) handler" where
  "writeAudit s detached event st =
     (case sv_Write s detached event (ss_world st) of
        (None, w) \<Rightarrow> (Inr (), did (Wrote event) (st\<lparr>ss_world := w\<rparr>))
      | (Some e, w) \<Rightarrow> (Inl (failure ServiceUnavailable), did (WriteFailed event) (st\<lparr>ss_world := w\<rparr>)))"

definition base_event :: "('db, 'w) Service \<Rightarrow> caller \<Rightarrow> string \<Rightarrow> Operation \<Rightarrow> Event" where
  "base_event s c eventType operation = \<lparr>
     ev_Timestamp = [], ev_Type = eventType, ev_RequestID = cl_requestID c, ev_QueryID = cl_queryID c,
     ev_Principal = cl_principal c, ev_ClientIdentifier = cl_clientIdentifier c, ev_PolicyProfile = [],
     ev_PolicyVersion = snap_version (sv_policy s), ev_PolicyHash = snap_hash (sv_policy s),
     ev_Datasource = [], ev_Adapter = [], ev_Operation = operation, ev_Decision = [], ev_ReasonCode = [],
     ev_Outcome = [], ev_ErrorKind = [], ev_DurationMS = None, ev_ResultBytes = 0, ev_QueryShapeHash = [],
     ev_PublicShapeSetHash = [], ev_ShapeCount = 0, ev_RequestedProfileHash = [], ev_RequestedProfileBytes = 0,
     ev_RequestedDatasourceHash = [], ev_RequestedDatasourceBytes = 0, ev_Resources = [], ev_Fields = [], ev_Metadata = []\<rparr>"

definition decision_type :: "caller \<Rightarrow> string" where
  "decision_type c = (if cl_queryID c \<noteq> [] then ''query_decision'' else ''operation_decision'')"

definition identifier_hash :: "string \<Rightarrow> string \<Rightarrow> string" where
  "identifier_hash domain_text identifier =
     (case auditIdentifierHash domain_text identifier of None \<Rightarrow> [] | Some h \<Rightarrow> h)"

definition denial_event ::
  "('db, 'w) Service \<Rightarrow> caller \<Rightarrow> string \<Rightarrow> string \<Rightarrow> Operation \<Rightarrow> string \<Rightarrow> string \<Rightarrow> Event" where
  "denial_event s c profile datasource operation reasonCode queryShapeHash =
     (let event = (base_event s c (decision_type c) operation)\<lparr>ev_Decision := ''deny'', ev_ReasonCode := reasonCode,
            ev_QueryShapeHash := queryShapeHash\<rparr> in
      case AuthorizeBinding (sv_policy s) (cl_principal c) profile datasource operation of
        Inr b \<Rightarrow> event\<lparr>ev_PolicyProfile := key_Profile (ab_key b), ev_Datasource := key_Datasource (ab_key b),
                 ev_Adapter := Manager_AdapterName (sv_databases s) (key_Datasource (ab_key b))\<rparr>
      | Inl _ \<Rightarrow> event\<lparr>
          ev_RequestedProfileHash := identifier_hash requestedProfileHashDomain profile,
          ev_RequestedProfileBytes := int (length profile),
          ev_RequestedDatasourceHash := identifier_hash requestedDatasourceHashDomain datasource,
          ev_RequestedDatasourceBytes := int (length datasource)\<rparr>)"

definition writeDenial ::
  "('db, 'w) Service \<Rightarrow> caller \<Rightarrow> string \<Rightarrow> string \<Rightarrow> Operation \<Rightarrow> string \<Rightarrow> string \<Rightarrow> ('w, unit) handler" where
  "writeDenial s c profile datasource operation reasonCode queryShapeHash =
     writeAudit s True (denial_event s c profile datasource operation reasonCode queryShapeHash)"

definition writeAllowDecisionWithMetadata ::
  "('db, 'w) Service \<Rightarrow> caller \<Rightarrow> string \<Rightarrow> string \<Rightarrow> string \<Rightarrow> Operation \<Rightarrow> Resource list \<Rightarrow> string list \<Rightarrow> string \<Rightarrow>
     (string \<times> metadata) list \<Rightarrow> ('w, unit) handler" where
  "writeAllowDecisionWithMetadata s c profileName datasource adapterName operation resources field_names queryShapeHash meta =
     writeAudit s False ((base_event s c (decision_type c) operation)\<lparr>
       ev_PolicyProfile := profileName, ev_Datasource := datasource, ev_Adapter := adapterName, ev_Decision := ''allow'',
       ev_QueryShapeHash := queryShapeHash, ev_Resources := resources, ev_Fields := field_names, ev_Metadata := meta\<rparr>)"

definition writeAllowDecision ::
  "('db, 'w) Service \<Rightarrow> caller \<Rightarrow> string \<Rightarrow> string \<Rightarrow> string \<Rightarrow> Operation \<Rightarrow> Resource list \<Rightarrow> string list \<Rightarrow> string \<Rightarrow>
     ('w, unit) handler" where
  "writeAllowDecision s c profileName datasource adapterName operation resources field_names queryShapeHash =
     writeAllowDecisionWithMetadata s c profileName datasource adapterName operation resources field_names queryShapeHash []"

text \<open>A handler that reads the clock first.\<close>

definition timed :: "('db, 'w) Service \<Rightarrow> (int option \<Rightarrow> ('w, 'a) handler) \<Rightarrow> ('w, 'a) handler" where
  "timed s f st = f (Some (sv_elapsed s (ss_world st))) st"

definition completion_event ::
  "('db, 'w) Service \<Rightarrow> caller \<Rightarrow> string \<Rightarrow> string \<Rightarrow> string \<Rightarrow> string \<Rightarrow> Operation \<Rightarrow> string \<Rightarrow> string \<Rightarrow> Resource list \<Rightarrow>
     string list \<Rightarrow> (string \<times> metadata) list \<Rightarrow> Event" where
  "completion_event s c eventType profileName datasource adapterName operation outcome queryShapeHash resources field_names meta =
     (base_event s c eventType operation)\<lparr>
       ev_PolicyProfile := profileName, ev_Datasource := datasource, ev_Adapter := adapterName, ev_Outcome := outcome,
       ev_QueryShapeHash := queryShapeHash, ev_Resources := resources, ev_Fields := field_names, ev_Metadata := meta\<rparr>"

definition completeQueryError ::
  "('db, 'w) Service \<Rightarrow> caller \<Rightarrow> string \<Rightarrow> string \<Rightarrow> string \<Rightarrow> Operation \<Rightarrow> string \<Rightarrow> Resource list \<Rightarrow> string list \<Rightarrow>
     (string \<times> metadata) list \<Rightarrow> adapter_error \<Rightarrow> ('w, 'a) handler" where
  "completeQueryError s c profileName datasource adapterName operation queryShapeHash resources field_names meta e =
     timed s (\<lambda>duration. svc_bind (writeAudit s True ((completion_event s c ''query_completion'' profileName datasource adapterName operation ''error''
         queryShapeHash resources field_names meta)\<lparr>
         ev_ErrorKind := kind_text (classifyDatabaseAuditError e), ev_DurationMS := duration\<rparr>))
       (\<lambda>_. svc_fail (mapDatabaseError e)))"

definition completeSchemaError ::
  "('db, 'w) Service \<Rightarrow> caller \<Rightarrow> string \<Rightarrow> string \<Rightarrow> string \<Rightarrow> Operation \<Rightarrow> Resource list \<Rightarrow> string list \<Rightarrow> adapter_error \<Rightarrow>
     ('w, 'a) handler" where
  "completeSchemaError s c profileName datasource adapterName operation resources field_names e =
     timed s (\<lambda>duration. svc_bind (writeAudit s True ((completion_event s c ''operation_completion'' profileName datasource adapterName operation ''error'' []
         resources field_names [])\<lparr>
         ev_ErrorKind := kind_text (classifyDatabaseAuditError e), ev_DurationMS := duration\<rparr>))
       (\<lambda>_. svc_fail (mapDatabaseError e)))"

text \<open>A completion without a result: the operation or a feature is not implemented by the adapter.\<close>

definition not_implemented ::
  "('db, 'w) Service \<Rightarrow> caller \<Rightarrow> string \<Rightarrow> string \<Rightarrow> string \<Rightarrow> string \<Rightarrow> Operation \<Rightarrow> string \<Rightarrow> ('w, 'a) handler" where
  "not_implemented s c eventType profileName datasource adapterName operation queryShapeHash =
     svc_bind (writeAudit s True (completion_event s c eventType profileName datasource adapterName operation
         ''not_implemented'' queryShapeHash [] [] []))
       (\<lambda>_. svc_fail (failure ServiceNotImplemented))"

text \<open>A denial is recorded before it is returned.\<close>

definition deny ::
  "('db, 'w) Service \<Rightarrow> caller \<Rightarrow> string \<Rightarrow> string \<Rightarrow> Operation \<Rightarrow> string \<Rightarrow> string \<Rightarrow> service_error \<Rightarrow> ('w, 'a) handler" where
  "deny s c profile datasource operation reasonCode queryShapeHash e =
     svc_bind (writeDenial s c profile datasource operation reasonCode queryShapeHash) (\<lambda>_. svc_fail e)"

definition deny_unassigned :: "('db, 'w) Service \<Rightarrow> caller \<Rightarrow> string \<Rightarrow> string \<Rightarrow> Operation \<Rightarrow> ('w, 'a) handler" where
  "deny_unassigned s c profile datasource operation =
     deny s c profile datasource operation ''DENIED_OPERATION'' [] (denial ''DENIED_OPERATION'')"

definition precheckSourceText ::
  "('db, 'w) Service \<Rightarrow> caller \<Rightarrow> AuthorizedBinding \<Rightarrow> Operation \<Rightarrow> string \<Rightarrow> bool \<Rightarrow> ('w, unit) handler" where
  "precheckSourceText s c b operation shapeHash used =
     (let profile = key_Profile (ab_key b); datasource = key_Datasource (ab_key b) in
      if \<not> used then svc_return ()
      else if \<not> AllowsSourceText (sv_policy s) profile then
        deny s c profile datasource operation ''DENIED_QUERY_FEATURE'' shapeHash (denial ''DENIED_QUERY_FEATURE'')
      else if FeatureSourceText \<notin> set (Manager_Features (sv_databases s) datasource) then
        timed s (\<lambda>duration. svc_bind (writeAudit s True ((completion_event s c ''query_completion'' profile datasource
            (Manager_AdapterName (sv_databases s) datasource) operation ''not_implemented'' shapeHash [] [] [])\<lparr>
            ev_DurationMS := duration\<rparr>))
          (\<lambda>_. svc_fail (failure ServiceNotImplemented)))
      else svc_return ())"

section \<open>Capacity\<close>

definition acquireCapacity :: "('db, 'w) Service \<Rightarrow> BindingKey \<Rightarrow> 'w service_state \<Rightarrow> bool \<times> 'w service_state" where
  "acquireCapacity s key st =
     (if ss_global st \<ge> sv_globalCapacity s then (False, st)
      else let st1 = st\<lparr>ss_global := ss_global st + 1\<rparr> in
           case sv_bindingCapacity s key of
             None \<Rightarrow> (False, st1\<lparr>ss_global := ss_global st1 - 1\<rparr>)
           | Some n \<Rightarrow>
               if ss_binding st1 key \<ge> n then (False, st1\<lparr>ss_global := ss_global st1 - 1\<rparr>)
               else (True, did (Acquired key) (st1\<lparr>ss_binding := (ss_binding st1)(key := ss_binding st1 key + 1)\<rparr>)))"

definition releaseCapacity :: "BindingKey \<Rightarrow> 'w service_state \<Rightarrow> 'w service_state" where
  "releaseCapacity key st =
     did (Released key) (st\<lparr>ss_binding := (ss_binding st)(key := ss_binding st key - 1), ss_global := ss_global st - 1\<rparr>)"

text \<open>The deferred release runs whatever the rest of the handler returns.\<close>

definition with_capacity :: "('db, 'w) Service \<Rightarrow> BindingKey \<Rightarrow> ('w, 'a) handler \<Rightarrow> ('w, 'a) handler \<Rightarrow> ('w, 'a) handler" where
  "with_capacity s key refused body st =
     (case acquireCapacity s key st of
        (False, st1) \<Rightarrow> refused st1
      | (True, st1) \<Rightarrow> (case body st1 of (r, st2) \<Rightarrow> (r, releaseCapacity key st2)))"

section \<open>Databases\<close>

definition observeIdentifierSemantics :: "BindingKey \<Rightarrow> IdentifierSemantics \<Rightarrow> 'w service_state \<Rightarrow> 'w service_state" where
  "observeIdentifierSemantics key sem st = st\<lparr>ss_queryShapes := (\<lambda>k.
     case ss_queryShapes st k of
       None \<Rightarrow> None
     | Some d \<Rightarrow> if dd_datasource d = key_Datasource key \<and> dd_semantics d \<noteq> Some sem then None else Some d)\<rparr>"

text \<open>\<open>IdentifierSemantics\<close> of the manager; what is observed is compared with the published snapshots.\<close>

definition read_semantics ::
  "('db, 'w) Service \<Rightarrow> BindingKey \<Rightarrow> (adapter_error \<Rightarrow> ('w, 'a) handler) \<Rightarrow> (IdentifierSemantics \<Rightarrow> ('w, 'a) handler) \<Rightarrow>
     ('w, 'a) handler" where
  "read_semantics s key failed k st =
     (case Manager_IdentifierSemantics (sv_databases s) (key_Datasource key) (ss_world st) of
        (Inl e, w) \<Rightarrow> failed e (did (ReadSemantics (key_Datasource key)) (st\<lparr>ss_world := w\<rparr>))
      | (Inr sem, w) \<Rightarrow>
          k sem (observeIdentifierSemantics key sem (did (ReadSemantics (key_Datasource key)) (st\<lparr>ss_world := w\<rparr>))))"

definition run_database ::
  "access \<Rightarrow> ('w, 'r) manager_call \<Rightarrow> (string \<Rightarrow> adapter_error + 'r \<Rightarrow> ('w, 'a) handler) \<Rightarrow> ('w, 'a) handler" where
  "run_database a call k st =
     (case call (ss_world st) of (r, adapterName, w) \<Rightarrow> k adapterName r (did (Ran a) (st\<lparr>ss_world := w\<rparr>)))"

end
