(* ===== verification/Json_Value.thy ===== *)
theory Json_Value
  imports Go_Json
begin

text \<open>
  What the decoders use of \<open>encoding/json\<close>: the values of a JSON text. Strings and keys are decoded; numbers keep
  their text; a member of an object keeps the raw text of its value, which is what a \<open>json.RawMessage\<close> receives.
  Members keep their order and may repeat a key. Nesting is limited to 10000 levels.
\<close>

datatype jvalue = JNull | JBool bool | JNumber string | JText string | JList "jvalue list" | JObject "(string \<times> string \<times> jvalue) list"

section \<open>Reading\<close>

definition skip_json_space :: "string \<Rightarrow> string" where
  "skip_json_space s = dropWhile is_json_space s"

definition is_number_char :: "char \<Rightarrow> bool" where
  "is_number_char c \<longleftrightarrow> is_digit c \<or> c \<in> set ''+-.eE''"

definition maxNestingDepth :: int where
  "maxNestingDepth = 10000"

text \<open>A literal, a number or a string at the head of the text.\<close>

definition read_literal :: "string \<Rightarrow> (jvalue \<times> string) option" where
  "read_literal s =
     (if take 4 s = ''null'' then Some (JNull, drop 4 s)
      else if take 4 s = ''true'' then Some (JBool True, drop 4 s)
      else if take 5 s = ''false'' then Some (JBool False, drop 5 s)
      else
        let n = takeWhile is_number_char s in
        if jsonNumberPattern n then Some (JNumber n, dropWhile is_number_char s) else None)"

text \<open>
  A value at the head of the text, and what follows an opening bracket, with the rest of the text. The tests that a rest
  is shorter make the recursion well-founded; a reader drops what it read, so they refuse nothing.
\<close>

function (sequential) read_value :: "int \<Rightarrow> string \<Rightarrow> (jvalue \<times> string) option"
  and read_elements :: "int \<Rightarrow> string \<Rightarrow> (jvalue list \<times> string) option"
  and read_members :: "int \<Rightarrow> string \<Rightarrow> ((string \<times> string \<times> jvalue) list \<times> string) option" where
  "read_value depth [] = None"
| "read_value depth (c # s) =
     (if c = quote_char then map_option (\<lambda>(t, r). (JText t, r)) (json_unquote s)
      else if c = CHR ''['' then
        if depth \<ge> maxNestingDepth then None
        else
          let r = skip_json_space s in
          if length r > length s then None
          else if take 1 r = '']'' then Some (JList [], drop 1 r)
          else map_option (\<lambda>(vs, r'). (JList vs, r')) (read_elements (depth + 1) r)
      else if c = CHR ''{'' then
        if depth \<ge> maxNestingDepth then None
        else
          let r = skip_json_space s in
          if length r > length s then None
          else if take 1 r = ''}'' then Some (JObject [], drop 1 r)
          else map_option (\<lambda>(ms, r'). (JObject ms, r')) (read_members (depth + 1) r)
      else read_literal (c # s))"
| "read_elements depth s =
     (case read_value depth s of
        None \<Rightarrow> None
      | Some (v, r) \<Rightarrow>
          (case skip_json_space r of
             [] \<Rightarrow> None
           | c # r' \<Rightarrow>
               if c = CHR '']'' then Some ([v], r')
               else if c = CHR '','' \<and> length (skip_json_space r') < length s
               then map_option (\<lambda>(vs, r''). (v # vs, r'')) (read_elements depth (skip_json_space r'))
               else None))"
| "read_members depth [] = None"
| "read_members depth (q # s) =
     (if q \<noteq> quote_char then None
      else case json_unquote s of
             None \<Rightarrow> None
           | Some (key, r) \<Rightarrow>
               (case skip_json_space r of
                  [] \<Rightarrow> None
                | c # r0 \<Rightarrow>
                    let t = skip_json_space r0 in
                    if c \<noteq> CHR '':'' \<or> length t > length s then None
                    else case read_value depth t of
                           None \<Rightarrow> None
                         | Some (v, r1) \<Rightarrow>
                             let m = (key, take (length t - length r1) t, v) in
                             (case skip_json_space r1 of
                                [] \<Rightarrow> None
                              | d # r2 \<Rightarrow>
                                  if d = CHR ''}'' then Some ([m], r2)
                                  else if d = CHR '','' \<and> length (skip_json_space r2) < length s
                                  then map_option (\<lambda>(ms, r'). (m # ms, r')) (read_members depth (skip_json_space r2))
                                  else None)))"
  by pat_completeness auto
termination
  by (relation "measure (\<lambda>x. case x of
      Inl (_, s) \<Rightarrow> 2 * length s | Inr (Inl (_, s)) \<Rightarrow> 2 * length s + 1 | Inr (Inr (_, s)) \<Rightarrow> 2 * length s)")
    (auto simp: skip_json_space_def)

text \<open>\<open>Decode\<close> into a target and a second \<open>Decode\<close> that must meet the end of the text.\<close>

definition read_json :: "string \<Rightarrow> jvalue option" where
  "read_json data =
     (case read_value 0 (skip_json_space data) of
        None \<Rightarrow> None
      | Some (v, r) \<Rightarrow> if skip_json_space r = [] then Some v else None)"

end
