(* ===== verification/Request_Decode.thy ===== *)
theory Request_Decode
  imports Json_Value Query_Spec "HOL-Library.Monad_Syntax"
begin

text \<open>
  \<^verbatim>\<open>internal/queryspec/decode.go\<close>: the strict decoder of request bodies. A first pass over the tokens of the body
  (\<open>scanRequestShape\<close>) refuses unknown and repeated keys and bounds every array and the nesting of filters; a second
  pass unmarshals the body into wire structures, whose methods build the request. The passes work on the tree that
  \<open>read_json\<close> gives: a body that is not one JSON value is refused by both passes together. A refusal is \<open>None\<close>; its
  message is not modelled. A \<open>wireString\<close> or \<open>wireInt\<close> that is not set is \<open>None\<close>, as is a nil pointer.
\<close>

section \<open>The shape pass\<close>

type_synonym members = "(string \<times> string \<times> jvalue) list"

text \<open>
  The loop over the members of an object: each key is new (\<open>nextUniqueObjectKey\<close>) and \<open>scanField\<close> accepts it and its
  value. The state is what the callbacks share.
\<close>

fun scan_members :: "(string \<Rightarrow> jvalue \<Rightarrow> 's \<Rightarrow> 's option) \<Rightarrow> string list \<Rightarrow> members \<Rightarrow> 's \<Rightarrow> 's option" where
  "scan_members scanField seen [] st = Some st"
| "scan_members scanField seen ((key, raw, v) # ms) st =
     (if key \<in> set seen then None
      else do { st' \<leftarrow> scanField key v st; scan_members scanField (key # seen) ms st' })"

definition scanObjectShape :: "(string \<Rightarrow> jvalue \<Rightarrow> 's \<Rightarrow> 's option) \<Rightarrow> jvalue \<Rightarrow> 's \<Rightarrow> 's option" where
  "scanObjectShape scanField v st =
     (case v of JNull \<Rightarrow> Some st | JObject ms \<Rightarrow> scan_members scanField [] ms st | _ \<Rightarrow> None)"

fun scan_items :: "nat \<Rightarrow> nat \<Rightarrow> (jvalue \<Rightarrow> 's \<Rightarrow> 's option) \<Rightarrow> jvalue list \<Rightarrow> 's \<Rightarrow> 's option" where
  "scan_items count maximum scanItem [] st = Some st"
| "scan_items count maximum scanItem (v # vs) st =
     (if count + 1 > maximum then None
      else do { st' \<leftarrow> scanItem v st; scan_items (count + 1) maximum scanItem vs st' })"

definition scanBoundedArray :: "nat \<Rightarrow> (jvalue \<Rightarrow> 's \<Rightarrow> 's option) \<Rightarrow> jvalue \<Rightarrow> 's \<Rightarrow> 's option" where
  "scanBoundedArray maximum scanItem v st =
     (case v of JList vs \<Rightarrow> scan_items 0 maximum scanItem vs st | _ \<Rightarrow> None)"

text \<open>\<open>skipJSONValue\<close> accepts every value, whatever its nesting.\<close>

definition skipJSONValue :: "jvalue \<Rightarrow> 's \<Rightarrow> 's option" where
  "skipJSONValue v st = Some st"

text \<open>The callbacks whose keys are all skipped.\<close>

definition skip_fields :: "string list \<Rightarrow> string \<Rightarrow> jvalue \<Rightarrow> 's \<Rightarrow> 's option" where
  "skip_fields names key v st = (if key \<in> set names then skipJSONValue v st else None)"

definition scanResourceShape :: "jvalue \<Rightarrow> 's \<Rightarrow> 's option" where
  "scanResourceShape = scanObjectShape (skip_fields [''schema'', ''name''])"

definition scanSelectionShape :: "bool \<Rightarrow> jvalue \<Rightarrow> 's \<Rightarrow> 's option" where
  "scanSelectionShape selectOnly = scanObjectShape (\<lambda>key v st.
     if key \<in> set [''kind'', ''field'', ''alias'', ''representation''] then skipJSONValue v st
     else if key = ''function'' then if selectOnly then None else skipJSONValue v st
     else None)"

definition scanSortShape :: "jvalue \<Rightarrow> 's \<Rightarrow> 's option" where
  "scanSortShape = scanObjectShape (skip_fields [''field'', ''direction'', ''representation''])"

definition scanTypedValueShape :: "jvalue \<Rightarrow> 's \<Rightarrow> 's option" where
  "scanTypedValueShape = scanObjectShape (skip_fields [''type'', ''value''])"

subsection \<open>The budget of a filter\<close>

record filterShapeScanBudget =
  sb_maxPredicates :: int
  sb_maxParameters :: int
  sb_maxNodes :: int
  sb_predicates :: int
  sb_parameters :: int
  sb_nodes :: int

text \<open>A nil budget counts nothing.\<close>

type_synonym scan_budget = "filterShapeScanBudget option"

definition maxInt :: int where
  "maxInt = 2 ^ 63 - 1"

definition newFilterShapeScanBudget :: "int \<Rightarrow> int \<Rightarrow> filterShapeScanBudget" where
  "newFilterShapeScanBudget maxPreds maxParams =
     \<lparr>sb_maxPredicates = maxPreds, sb_maxParameters = maxParams,
      sb_maxNodes = (if maxPreds > 0 \<and> maxPreds \<le> maxInt div 2 then 2 * maxPreds - 1 else maxPreds),
      sb_predicates = 0, sb_parameters = 0, sb_nodes = 0\<rparr>"

definition enterFilter :: "scan_budget \<Rightarrow> scan_budget option" where
  "enterFilter budget =
     (case budget of
        None \<Rightarrow> Some None
      | Some b \<Rightarrow>
          let b' = b\<lparr>sb_nodes := sb_nodes b + 1\<rparr> in
          if sb_nodes b' > sb_maxNodes b' then None else Some (Some b'))"

definition addPredicate :: "scan_budget \<Rightarrow> scan_budget option" where
  "addPredicate budget =
     (case budget of
        None \<Rightarrow> Some None
      | Some b \<Rightarrow>
          let b' = b\<lparr>sb_predicates := sb_predicates b + 1\<rparr> in
          if sb_predicates b' > sb_maxPredicates b' then None else Some (Some b'))"

definition addParameter :: "scan_budget \<Rightarrow> scan_budget option" where
  "addParameter budget =
     (case budget of
        None \<Rightarrow> Some None
      | Some b \<Rightarrow>
          let b' = b\<lparr>sb_parameters := sb_parameters b + 1\<rparr> in
          if sb_parameters b' > sb_maxParameters b' then None else Some (Some b'))"

definition addServerParameter :: "scan_budget \<Rightarrow> scan_budget option" where
  "addServerParameter budget =
     (case budget of
        None \<Rightarrow> Some None
      | Some b \<Rightarrow>
          let b' = b\<lparr>sb_parameters := sb_parameters b + 1\<rparr> in
          if sb_parameters b' > sb_maxParameters b' then None else Some (Some b'))"

subsection \<open>Filters\<close>

lemma member_size: "(key, raw, v) \<in> set ms \<Longrightarrow> size v < size (JObject ms)"
proof (induction ms)
  case (Cons m ms)
  then show ?case by (cases m) auto
qed simp

lemma item_size: "v \<in> set vs \<Longrightarrow> size v < size (JList vs)"
  by (induction vs) auto

lemma scan_members_cong [fundef_cong]:
  assumes "ms = ms'" and "seen = seen'" and "st = st'"
    and "\<And>key raw v s. (key, raw, v) \<in> set ms' \<Longrightarrow> f key v s = g key v s"
  shows "scan_members f seen ms st = scan_members g seen' ms' st'"
proof -
  have "(\<And>key raw v s. (key, raw, v) \<in> set ms \<Longrightarrow> f key v s = g key v s) \<Longrightarrow>
      scan_members f seen ms st = scan_members g seen ms st" for ms seen st
  proof (induction ms arbitrary: seen st)
    case (Cons m ms)
    obtain key raw v where m: "m = (key, raw, v)" by (cases m)
    have "f key v st = g key v st" by (rule Cons.prems [of _ raw]) (simp add: m)
    moreover have "scan_members f s ms t = scan_members g s ms t" for s t
      by (rule Cons.IH, erule Cons.prems [OF list.set_intros(2)])
    ultimately show ?case by (auto simp: m intro: Option.bind_cong)
  qed simp
  with assms show ?thesis by blast
qed

lemma scan_items_cong:
  "(\<And>v s. v \<in> set vs \<Longrightarrow> f v s = g v s) \<Longrightarrow> scan_items n maximum f vs st = scan_items n maximum g vs st"
proof (induction vs arbitrary: n st)
  case (Cons v vs)
  then have "scan_items k maximum f vs t = scan_items k maximum g vs t" for k t by simp
  with Cons.prems show ?case by (auto intro: Option.bind_cong)
qed simp

lemma scanBoundedArray_cong [fundef_cong]:
  assumes "maximum = maximum'" and "v = v'" and "st = st'"
    and "\<And>vs x s. v' = JList vs \<Longrightarrow> x \<in> set vs \<Longrightarrow> f x s = g x s"
  shows "scanBoundedArray maximum f v st = scanBoundedArray maximum' g v' st'"
  using assms by (auto simp: scanBoundedArray_def intro!: scan_items_cong split: jvalue.splits)

function scanFilterShape :: "jvalue \<Rightarrow> int \<Rightarrow> int \<Rightarrow> scan_budget \<Rightarrow> scan_budget option" where
  "scanFilterShape v depth maxDep budget =
     (case v of
        JObject ms \<Rightarrow>
          if depth > maxDep then None
          else do {
            b \<leftarrow> enterFilter budget;
            scan_members (\<lambda>key x b.
              if key = ''kind'' then if x = JText ''predicate'' then addPredicate b else skipJSONValue x b
              else if key \<in> set [''field'', ''operator'', ''representation''] then skipJSONValue x b
              else if key = ''values'' then
                scanBoundedArray ProtocolMaxFilterItems
                  (\<lambda>y b. do { b' \<leftarrow> addParameter b; scanTypedValueShape y b' }) x b
              else if key = ''expressions'' then
                scanBoundedArray ProtocolMaxFilterItems (\<lambda>y b. scanFilterShape y (depth + 1) maxDep b) x b
              else None) [] ms b }
      | _ \<Rightarrow> None)"
  by pat_completeness auto
termination
  by (relation "measure (\<lambda>(v, _). size v)") (auto dest!: member_size item_size)

declare scanFilterShape.simps [simp del]

subsection \<open>Requests\<close>

definition scanQueryShape :: "int \<Rightarrow> bool \<Rightarrow> jvalue \<Rightarrow> scan_budget \<Rightarrow> scan_budget option" where
  "scanQueryShape maxFilterDepth selectOnly = scanObjectShape (\<lambda>key v b.
     if key = ''source'' then scanResourceShape v b
     else if key = ''projection'' then scanBoundedArray ProtocolMaxProjectionFields (scanSelectionShape selectOnly) v b
     else if key = ''filter'' then scanFilterShape v 1 maxFilterDepth b
     else if key = ''group_by'' then
       if selectOnly then None else scanBoundedArray ProtocolMaxGroupByFields skipJSONValue v b
     else if key = ''order_by'' then scanBoundedArray ProtocolMaxOrderByFields scanSortShape v b
     else if key \<in> set [''limit'', ''offset''] then skipJSONValue v b
     else None)"

text \<open>A body that is no object is left to the second pass.\<close>

definition scanRequestShape :: "jvalue \<Rightarrow> int \<Rightarrow> bool \<Rightarrow> bool" where
  "scanRequestShape v maxFilterDepth selectOnly \<longleftrightarrow>
     (case v of
        JObject ms \<Rightarrow>
          scan_members (\<lambda>key x b.
            if key \<in> set [''profile'', ''datasource''] then skipJSONValue x b
            else if key = ''query'' then scanQueryShape maxFilterDepth selectOnly x b
            else None) [] ms None \<noteq> None
      | _ \<Rightarrow> True)"

section \<open>The unmarshalling pass\<close>

text \<open>
  \<open>foldName\<close> of \<open>encoding/json\<close>: ASCII letters in upper case, and the two other runes that fold to an ASCII letter, the
  long s and the Kelvin sign. A key selects the field of its exact name or else one of the same folded name; a later
  member of the same field wins (the first pass leaves none), and a key of no field is refused
  (\<open>DisallowUnknownFields\<close>).
\<close>

fun fold_name :: "string \<Rightarrow> string" where
  "fold_name [] = []"
| "fold_name (a # s) =
     (if byte a = 197 \<and> s \<noteq> [] \<and> byte (hd s) = 191 then CHR ''S'' # fold_name (drop 1 s)
      else if byte a = 226 \<and> length s \<ge> 2 \<and> byte (hd s) = 132 \<and> byte (s ! 1) = 170 then CHR ''K'' # fold_name (drop 2 s)
      else (if is_lower a then char_of (byte a - 32) else a) # fold_name s)"

definition field_of :: "string list \<Rightarrow> string \<Rightarrow> string option" where
  "field_of names key =
     (if key \<in> set names then Some key else find (\<lambda>n. fold_name n = fold_name key) names)"

definition known_fields :: "string list \<Rightarrow> members \<Rightarrow> bool" where
  "known_fields names ms \<longleftrightarrow> list_all (\<lambda>(key, _, _). field_of names key \<noteq> None) ms"

definition wire_field :: "string list \<Rightarrow> members \<Rightarrow> string \<Rightarrow> (string \<times> jvalue) option" where
  "wire_field names ms name = map_option snd (find (\<lambda>(key, _, _). field_of names key = Some name) (rev ms))"

text \<open>The struct of a value: \<open>null\<close> leaves the zero value, which has no member set.\<close>

definition wire_members :: "string list \<Rightarrow> jvalue \<Rightarrow> members option" where
  "wire_members names v =
     (case v of JNull \<Rightarrow> Some [] | JObject ms \<Rightarrow> if known_fields names ms then Some ms else None | _ \<Rightarrow> None)"

subsection \<open>Values\<close>

definition unmarshal_wireString :: "jvalue \<Rightarrow> string option" where
  "unmarshal_wireString v = (case v of JText s \<Rightarrow> Some s | _ \<Rightarrow> None)"

definition unmarshal_wireInt :: "jvalue \<Rightarrow> int option" where
  "unmarshal_wireInt v = (case v of JNumber raw \<Rightarrow> parseJSONInteger raw | _ \<Rightarrow> None)"

text \<open>A member that may be absent; then the field keeps its zero value.\<close>

definition absent_or :: "(jvalue \<Rightarrow> 'a option) \<Rightarrow> (string \<times> jvalue) option \<Rightarrow> 'a option option" where
  "absent_or f m = (case m of None \<Rightarrow> Some None | Some (raw, v) \<Rightarrow> map_option Some (f v))"

text \<open>Fields of the types \<open>wireString\<close>, \<open>wireInt\<close>, \<open>*T\<close> and \<open>*[]T\<close>.\<close>

definition wireString :: "(string \<times> jvalue) option \<Rightarrow> string option option" where
  "wireString = absent_or unmarshal_wireString"

definition wireInt :: "(string \<times> jvalue) option \<Rightarrow> int option option" where
  "wireInt = absent_or unmarshal_wireInt"

definition wire_pointer :: "(jvalue \<Rightarrow> 'a option) \<Rightarrow> (string \<times> jvalue) option \<Rightarrow> 'a option option" where
  "wire_pointer f m =
     (case m of None \<Rightarrow> Some None | Some (raw, v) \<Rightarrow> if v = JNull then Some None else map_option Some (f v))"

definition wire_slice :: "(jvalue \<Rightarrow> 'a option) \<Rightarrow> (string \<times> jvalue) option \<Rightarrow> 'a list option option" where
  "wire_slice f = wire_pointer (\<lambda>v. case v of JList vs \<Rightarrow> those (map f vs) | _ \<Rightarrow> None)"

text \<open>The value of a \<open>wireString\<close> that may not be set.\<close>

definition wire_value :: "string option \<Rightarrow> string" where
  "wire_value w = (case w of None \<Rightarrow> [] | Some s \<Rightarrow> s)"

subsection \<open>The wire structures\<close>

record resourceWire =
  rw_Schema :: "string option"
  rw_Name :: "string option"

record selectionWire =
  lw_Representation :: "string option"
  lw_Kind :: "string option"
  lw_Field :: "string option"
  lw_Function :: "string option"
  lw_Alias :: "string option"

record sortWire =
  ow_Representation :: "string option"
  ow_Field :: "string option"
  ow_Direction :: "string option"

record typedValueWire =
  tw_Type :: "string option"
  tw_Value :: "string option"

datatype filterWire = FilterWire
  (fw_Representation: "string option")
  (fw_Kind: "string option")
  (fw_Field: "string option")
  (fw_Operator: "string option")
  (fw_Values: "typedValueWire list option")
  (fw_Expressions: "filterWire list option")

record specWire =
  sw_Source :: "resourceWire option"
  sw_Projection :: "selectionWire list option"
  sw_Filter :: "filterWire option"
  sw_GroupBy :: "string list option"
  sw_OrderBy :: "sortWire list option"
  sw_Limit :: "int option"
  sw_Offset :: "int option"

record requestWire =
  qw_Profile :: "string option"
  qw_Datasource :: "string option"
  qw_Query :: "specWire option"

definition unmarshal_resourceWire :: "jvalue \<Rightarrow> resourceWire option" where
  "unmarshal_resourceWire v =
     (let names = [''schema'', ''name''] in do {
        ms \<leftarrow> wire_members names v;
        schema \<leftarrow> wireString (wire_field names ms ''schema'');
        name \<leftarrow> wireString (wire_field names ms ''name'');
        Some \<lparr>rw_Schema = schema, rw_Name = name\<rparr> })"

definition unmarshal_selectionWire :: "jvalue \<Rightarrow> selectionWire option" where
  "unmarshal_selectionWire v =
     (let names = [''representation'', ''kind'', ''field'', ''function'', ''alias''] in do {
        ms \<leftarrow> wire_members names v;
        rep \<leftarrow> wireString (wire_field names ms ''representation'');
        kind \<leftarrow> wireString (wire_field names ms ''kind'');
        field \<leftarrow> wireString (wire_field names ms ''field'');
        func \<leftarrow> wireString (wire_field names ms ''function'');
        alias \<leftarrow> wireString (wire_field names ms ''alias'');
        Some \<lparr>lw_Representation = rep, lw_Kind = kind, lw_Field = field, lw_Function = func, lw_Alias = alias\<rparr> })"

definition unmarshal_sortWire :: "jvalue \<Rightarrow> sortWire option" where
  "unmarshal_sortWire v =
     (let names = [''representation'', ''field'', ''direction''] in do {
        ms \<leftarrow> wire_members names v;
        rep \<leftarrow> wireString (wire_field names ms ''representation'');
        field \<leftarrow> wireString (wire_field names ms ''field'');
        direction \<leftarrow> wireString (wire_field names ms ''direction'');
        Some \<lparr>ow_Representation = rep, ow_Field = field, ow_Direction = direction\<rparr> })"

text \<open>A \<open>json.RawMessage\<close> receives the text of its value, \<open>null\<close> included.\<close>

definition unmarshal_typedValueWire :: "jvalue \<Rightarrow> typedValueWire option" where
  "unmarshal_typedValueWire v =
     (let names = [''type'', ''value''] in do {
        ms \<leftarrow> wire_members names v;
        ty \<leftarrow> wireString (wire_field names ms ''type'');
        Some \<lparr>tw_Type = ty, tw_Value = map_option fst (wire_field names ms ''value'')\<rparr> })"

lemma wire_field_mem:
  assumes "wire_field names ms name = Some (raw, v)"
  shows "\<exists>key. (key, raw, v) \<in> set ms"
proof -
  obtain m where "find (\<lambda>(key, _, _). field_of names key = Some name) (rev ms) = Some m" "snd m = (raw, v)"
    using assms by (auto simp: wire_field_def)
  then have "m \<in> set ms" by (auto simp: find_Some_iff) (metis length_rev nth_mem set_rev)
  with \<open>snd m = (raw, v)\<close> show ?thesis by (cases m) auto
qed

lemma wire_item_size:
  assumes "wire_members names v = Some ms" and "wire_field names' ms name = Some (raw, JList vs)" and "x \<in> set vs"
  shows "size x < size v"
proof -
  obtain key where mem: "(key, raw, JList vs) \<in> set ms" using wire_field_mem [OF assms(2)] by blast
  with assms(1) have "v = JObject ms" by (auto simp: wire_members_def split: jvalue.splits if_splits)
  with member_size [OF mem] item_size [OF assms(3)] show ?thesis by simp
qed

lemma wire_slice_cong [fundef_cong]:
  assumes "m = m'" and "\<And>raw vs x. m' = Some (raw, JList vs) \<Longrightarrow> x \<in> set vs \<Longrightarrow> f x = g x"
  shows "wire_slice f m = wire_slice g m'"
  using assms by (auto simp: wire_slice_def wire_pointer_def split: option.split jvalue.split cong: map_cong)

function unmarshal_filterWire :: "jvalue \<Rightarrow> filterWire option" where
  "unmarshal_filterWire v =
     (let names = [''representation'', ''kind'', ''field'', ''operator'', ''values'', ''expressions''] in do {
        ms \<leftarrow> wire_members names v;
        rep \<leftarrow> wireString (wire_field names ms ''representation'');
        kind \<leftarrow> wireString (wire_field names ms ''kind'');
        field \<leftarrow> wireString (wire_field names ms ''field'');
        op \<leftarrow> wireString (wire_field names ms ''operator'');
        vals \<leftarrow> wire_slice unmarshal_typedValueWire (wire_field names ms ''values'');
        exprs \<leftarrow> wire_slice unmarshal_filterWire (wire_field names ms ''expressions'');
        Some (FilterWire rep kind field op vals exprs) })"
  by pat_completeness auto
termination
  by (relation "measure size") (auto dest: wire_item_size)

declare unmarshal_filterWire.simps [simp del]

definition unmarshal_specWire :: "jvalue \<Rightarrow> specWire option" where
  "unmarshal_specWire v =
     (let names = [''source'', ''projection'', ''filter'', ''group_by'', ''order_by'', ''limit'', ''offset''] in do {
        ms \<leftarrow> wire_members names v;
        source \<leftarrow> wire_pointer unmarshal_resourceWire (wire_field names ms ''source'');
        projection \<leftarrow> wire_slice unmarshal_selectionWire (wire_field names ms ''projection'');
        filter \<leftarrow> wire_pointer unmarshal_filterWire (wire_field names ms ''filter'');
        groups \<leftarrow> wire_slice unmarshal_wireString (wire_field names ms ''group_by'');
        orders \<leftarrow> wire_slice unmarshal_sortWire (wire_field names ms ''order_by'');
        limit \<leftarrow> wireInt (wire_field names ms ''limit'');
        offset \<leftarrow> wireInt (wire_field names ms ''offset'');
        Some \<lparr>sw_Source = source, sw_Projection = projection, sw_Filter = filter, sw_GroupBy = groups,
              sw_OrderBy = orders, sw_Limit = limit, sw_Offset = offset\<rparr> })"

definition unmarshal_requestWire :: "jvalue \<Rightarrow> requestWire option" where
  "unmarshal_requestWire v =
     (let names = [''profile'', ''datasource'', ''query''] in do {
        ms \<leftarrow> wire_members names v;
        profile \<leftarrow> wireString (wire_field names ms ''profile'');
        datasource \<leftarrow> wireString (wire_field names ms ''datasource'');
        query \<leftarrow> wire_pointer unmarshal_specWire (wire_field names ms ''query'');
        Some \<lparr>qw_Profile = profile, qw_Datasource = datasource, qw_Query = query\<rparr> })"

section \<open>From the wire structures to the request\<close>

record Request =
  rq_Profile :: string
  rq_Datasource :: string
  rq_Query :: Spec

text \<open>A guard of an early return, and the loop that decodes the elements of a slice.\<close>

abbreviation require :: "bool \<Rightarrow> 'a option \<Rightarrow> 'a option" where
  "require c k \<equiv> (if c then k else None)"

definition decodeRepresentation :: "string option \<Rightarrow> bool \<Rightarrow> Representation option" where
  "decodeRepresentation w allowed =
     (case w of
        None \<Rightarrow> Some []
      | Some s \<Rightarrow> require (allowed \<and> s = RepresentationSourceText) (Some RepresentationSourceText))"

definition decode_resourceWire :: "resourceWire \<Rightarrow> ResourceRef option" where
  "decode_resourceWire w = do {
     schema \<leftarrow> rw_Schema w;
     name \<leftarrow> rw_Name w;
     Some \<lparr>ref_Schema = schema, ref_Name = name\<rparr> }"

definition decode_selectionWire :: "selectionWire \<Rightarrow> Selection option" where
  "decode_selectionWire w = do {
     rep \<leftarrow> decodeRepresentation (lw_Representation w) (wire_value (lw_Kind w) = ''field'');
     kind \<leftarrow> lw_Kind w;
     require (lw_Field w \<noteq> Some [] \<and> lw_Alias w \<noteq> Some [] \<and>
       (if kind = ''field'' then lw_Field w \<noteq> None \<and> lw_Function w = None
        else kind = ''aggregate'' \<and> lw_Function w \<noteq> None))
     (Some \<lparr>sel_Representation = rep, sel_Kind = kind, sel_Field = wire_value (lw_Field w),
            sel_Function = wire_value (lw_Function w), sel_Alias = wire_value (lw_Alias w)\<rparr>) }"

definition decode_sortWire :: "sortWire \<Rightarrow> Sort option" where
  "decode_sortWire w = do {
     rep \<leftarrow> decodeRepresentation (ow_Representation w) True;
     field \<leftarrow> ow_Field w;
     direction \<leftarrow> ow_Direction w;
     Some \<lparr>sort_Representation = rep, sort_Field = field, sort_Direction = direction\<rparr> }"

definition decode_typedValueWire :: "typedValueWire \<Rightarrow> TypedValue option" where
  "decode_typedValueWire w = do {
     ty \<leftarrow> tw_Type w;
     raw \<leftarrow> tw_Value w;
     Some \<lparr>tv_Type = ty, tv_Value = Some raw\<rparr> }"

fun decode_filterWire :: "filterWire \<Rightarrow> int \<Rightarrow> int \<Rightarrow> Filter option" where
  "decode_filterWire (FilterWire rep kind field op vals exprs) depth maxDep =
     require (depth \<le> maxDep) (do {
       k \<leftarrow> kind;
       operator \<leftarrow> op;
       r \<leftarrow> decodeRepresentation rep (k = ''predicate'');
       if k = ''predicate'' then
         require (field \<noteq> None)
         (do {
           ws \<leftarrow> vals;
           require (exprs = None \<and> length ws \<le> ProtocolMaxFilterItems)
           (do { vs \<leftarrow> those (map decode_typedValueWire ws);
                 Some (Filter r k (wire_value field) operator (Some vs) []) }) })
       else if k = ''group'' then do {
         es \<leftarrow> exprs;
         require (field = None \<and> vals = None \<and> length es \<le> ProtocolMaxFilterItems)
         (do { fs \<leftarrow> those (map (\<lambda>e. decode_filterWire e (depth + 1) maxDep) es);
               Some (Filter r k (wire_value field) operator None fs) }) }
       else None })"

definition decode_specWire :: "specWire \<Rightarrow> int \<Rightarrow> Spec option" where
  "decode_specWire w maxFilterDepth = do {
     sw \<leftarrow> sw_Source w;
     source \<leftarrow> decode_resourceWire sw;
     ps \<leftarrow> sw_Projection w;
     require (length ps \<le> ProtocolMaxProjectionFields) (do {
     projection \<leftarrow> those (map decode_selectionWire ps);
     filter \<leftarrow> (case sw_Filter w of None \<Rightarrow> Some None | Some f \<Rightarrow> map_option Some (decode_filterWire f 1 maxFilterDepth));
     groups \<leftarrow> (case sw_GroupBy w of
         None \<Rightarrow> Some [] | Some gs \<Rightarrow> require (length gs \<le> ProtocolMaxGroupByFields) (Some gs));
     orders \<leftarrow> (case sw_OrderBy w of
         None \<Rightarrow> Some []
       | Some os \<Rightarrow> require (length os \<le> ProtocolMaxOrderByFields) (those (map decode_sortWire os)));
     limit \<leftarrow> (case sw_Limit w of
         None \<Rightarrow> Some None | Some l \<Rightarrow> require (1 \<le> l \<and> l \<le> ProtocolMaxRows) (Some (Some l)));
     offset \<leftarrow> (case sw_Offset w of
         None \<Rightarrow> Some None | Some l \<Rightarrow> require (0 \<le> l \<and> l \<le> ProtocolMaxOffset) (Some (Some l)));
     Some \<lparr>spec_Source = source, spec_Projection = projection, spec_Filter = filter, spec_GroupBy = groups,
           spec_OrderBy = orders, spec_Limit = limit, spec_Offset = offset\<rparr> }) }"

definition validateSimpleSelectTransport :: "Spec \<Rightarrow> int \<Rightarrow> ValidationError option" where
  "validateSimpleSelectTransport query maxFilterDepth =
     (case Validate query (int ProtocolMaxProjectionFields) (int ProtocolMaxGroupByFields) (int ProtocolMaxOrderByFields)
             maxInt maxFilterDepth maxInt ProtocolMaxRows ProtocolMaxOffset of
        Inl e \<Rightarrow> Some e
      | Inr validated \<Rightarrow> ValidateSimpleSelect validated)"

definition decodeStrictRequest :: "string \<Rightarrow> int \<Rightarrow> bool \<Rightarrow> Request option" where
  "decodeStrictRequest data maxFilterDepth selectOnly =
     require (ValidString data) (do {
       doc \<leftarrow> read_json data;
       require (scanRequestShape doc maxFilterDepth selectOnly \<and> doc \<noteq> JNull) (do {
       wire \<leftarrow> unmarshal_requestWire doc;
       profile \<leftarrow> qw_Profile wire;
       datasource \<leftarrow> qw_Datasource wire;
       require (profile \<noteq> [] \<and> datasource \<noteq> []) (do {
       qw \<leftarrow> qw_Query wire;
       query \<leftarrow> decode_specWire qw maxFilterDepth;
       require (selectOnly \<longrightarrow> validateSimpleSelectTransport query maxFilterDepth = None)
       (Some \<lparr>rq_Profile = profile, rq_Datasource = datasource, rq_Query = query\<rparr>) }) }) })"

definition DecodeStrict :: "string \<Rightarrow> int \<Rightarrow> Request option" where
  "DecodeStrict data maxFilterDepth = decodeStrictRequest data maxFilterDepth False"

definition DecodeStrictSelect :: "string \<Rightarrow> int \<Rightarrow> Request option" where
  "DecodeStrictSelect data maxFilterDepth = decodeStrictRequest data maxFilterDepth True"

end
