(* ===== verification/Aggregate_Decode.thy ===== *)
theory Aggregate_Decode
  imports Request_Decode Keyset_Query
begin

text \<open>
  \<^verbatim>\<open>internal/queryspec/aggregate_decode.go\<close>: the strict decoder of aggregate requests. Its shape pass threads a
  budget of predicates, bind values and filter objects through the filter, so that an oversized filter is refused before
  it is unmarshalled; its second pass also refuses repeated outputs, repeated order terms and repeated filter expressions
  and validates the query. \<open>hash\<close> is the digest function of the filter digests.
\<close>

section \<open>The shape pass\<close>

definition scanAggregateOutputShape :: "jvalue \<Rightarrow> 's \<Rightarrow> 's option" where
  "scanAggregateOutputShape = scanObjectShape
     (skip_fields [''kind'', ''field'', ''function'', ''alias'', ''unit'', ''timezone'', ''representation''])"

definition scanAggregateSortShape :: "jvalue \<Rightarrow> 's \<Rightarrow> 's option" where
  "scanAggregateSortShape = scanObjectShape
     (skip_fields [''kind'', ''field'', ''alias'', ''direction'', ''representation''])"

text \<open>The state of the loop: the mode read so far and the budget. A mode that is no string reads as the empty mode.\<close>

definition scanAggregateField ::
  "int \<Rightarrow> string \<Rightarrow> jvalue \<Rightarrow> string \<times> scan_budget \<Rightarrow> (string \<times> scan_budget) option" where
  "scanAggregateField maxFilterDepth key x st =
     (let (mode, b) = st in
      if key = ''mode'' then Some (case x of JText m \<Rightarrow> m | _ \<Rightarrow> [], b)
      else if key = ''limit'' then Some (mode, b)
      else if key = ''source'' then map_option (Pair mode) (scanResourceShape x b)
      else if key = ''projection'' then
        map_option (Pair mode) (scanBoundedArray ProtocolMaxProjectionFields scanAggregateOutputShape x b)
      else if key = ''filter'' then map_option (Pair mode) (scanFilterShape x 1 maxFilterDepth b)
      else if key = ''order_by'' then
        map_option (Pair mode) (scanBoundedArray ProtocolMaxOrderByFields scanAggregateSortShape x b)
      else None)"

definition scanAggregateQueryShape :: "int \<Rightarrow> jvalue \<Rightarrow> scan_budget \<Rightarrow> scan_budget option" where
  "scanAggregateQueryShape maxFilterDepth v budget = do {
     (mode, b) \<leftarrow> scanObjectShape (scanAggregateField maxFilterDepth) v ([], budget);
     if mode = AggregateModeGrouped then addServerParameter b else Some b }"

definition scanAggregateRequestShape :: "jvalue \<Rightarrow> int \<Rightarrow> scan_budget \<Rightarrow> bool" where
  "scanAggregateRequestShape v maxFilterDepth budget \<longleftrightarrow>
     (case v of
        JObject ms \<Rightarrow>
          scan_members (\<lambda>key x b.
            if key \<in> set [''profile'', ''datasource''] then skipJSONValue x b
            else if key = ''query'' then scanAggregateQueryShape maxFilterDepth x b
            else None) [] ms budget \<noteq> None
      | _ \<Rightarrow> True)"

section \<open>The unmarshalling pass\<close>

record aggregateOutputWire =
  aow_Representation :: "string option"
  aow_Kind :: "string option"
  aow_Field :: "string option"
  aow_Function :: "string option"
  aow_Alias :: "string option"
  aow_Unit :: "string option"
  aow_Timezone :: "string option"

record aggregateSortWire =
  asw_Representation :: "string option"
  asw_Kind :: "string option"
  asw_Field :: "string option"
  asw_Alias :: "string option"
  asw_Direction :: "string option"

record aggregateSpecWire =
  aw_Mode :: "string option"
  aw_Source :: "resourceWire option"
  aw_Projection :: "aggregateOutputWire list option"
  aw_Filter :: "filterWire option"
  aw_OrderBy :: "aggregateSortWire list option"
  aw_Limit :: "int option"

record aggregateRequestWire =
  arw_Profile :: "string option"
  arw_Datasource :: "string option"
  arw_Query :: "aggregateSpecWire option"

definition unmarshal_aggregateOutputWire :: "jvalue \<Rightarrow> aggregateOutputWire option" where
  "unmarshal_aggregateOutputWire v =
     (let names = [''representation'', ''kind'', ''field'', ''function'', ''alias'', ''unit'', ''timezone''] in do {
        ms \<leftarrow> wire_members names v;
        rep \<leftarrow> wireString (wire_field names ms ''representation'');
        kind \<leftarrow> wireString (wire_field names ms ''kind'');
        field \<leftarrow> wireString (wire_field names ms ''field'');
        func \<leftarrow> wireString (wire_field names ms ''function'');
        alias \<leftarrow> wireString (wire_field names ms ''alias'');
        unit \<leftarrow> wireString (wire_field names ms ''unit'');
        timezone \<leftarrow> wireString (wire_field names ms ''timezone'');
        Some \<lparr>aow_Representation = rep, aow_Kind = kind, aow_Field = field, aow_Function = func, aow_Alias = alias,
              aow_Unit = unit, aow_Timezone = timezone\<rparr> })"

definition unmarshal_aggregateSortWire :: "jvalue \<Rightarrow> aggregateSortWire option" where
  "unmarshal_aggregateSortWire v =
     (let names = [''representation'', ''kind'', ''field'', ''alias'', ''direction''] in do {
        ms \<leftarrow> wire_members names v;
        rep \<leftarrow> wireString (wire_field names ms ''representation'');
        kind \<leftarrow> wireString (wire_field names ms ''kind'');
        field \<leftarrow> wireString (wire_field names ms ''field'');
        alias \<leftarrow> wireString (wire_field names ms ''alias'');
        direction \<leftarrow> wireString (wire_field names ms ''direction'');
        Some \<lparr>asw_Representation = rep, asw_Kind = kind, asw_Field = field, asw_Alias = alias,
              asw_Direction = direction\<rparr> })"

definition unmarshal_aggregateSpecWire :: "jvalue \<Rightarrow> aggregateSpecWire option" where
  "unmarshal_aggregateSpecWire v =
     (let names = [''mode'', ''source'', ''projection'', ''filter'', ''order_by'', ''limit''] in do {
        ms \<leftarrow> wire_members names v;
        mode \<leftarrow> wireString (wire_field names ms ''mode'');
        source \<leftarrow> wire_pointer unmarshal_resourceWire (wire_field names ms ''source'');
        projection \<leftarrow> wire_slice unmarshal_aggregateOutputWire (wire_field names ms ''projection'');
        filter \<leftarrow> wire_pointer unmarshal_filterWire (wire_field names ms ''filter'');
        orders \<leftarrow> wire_slice unmarshal_aggregateSortWire (wire_field names ms ''order_by'');
        limit \<leftarrow> wireInt (wire_field names ms ''limit'');
        Some \<lparr>aw_Mode = mode, aw_Source = source, aw_Projection = projection, aw_Filter = filter, aw_OrderBy = orders,
              aw_Limit = limit\<rparr> })"

definition unmarshal_aggregateRequestWire :: "jvalue \<Rightarrow> aggregateRequestWire option" where
  "unmarshal_aggregateRequestWire v =
     (let names = [''profile'', ''datasource'', ''query''] in do {
        ms \<leftarrow> wire_members names v;
        profile \<leftarrow> wireString (wire_field names ms ''profile'');
        datasource \<leftarrow> wireString (wire_field names ms ''datasource'');
        query \<leftarrow> wire_pointer unmarshal_aggregateSpecWire (wire_field names ms ''query'');
        Some \<lparr>arw_Profile = profile, arw_Datasource = datasource, arw_Query = query\<rparr> })"

section \<open>From the wire structures to the request\<close>

record AggregateRequest =
  gr_Profile :: string
  gr_Datasource :: string
  gr_Query :: AggregateSpec

definition decode_aggregateOutputWire :: "aggregateOutputWire \<Rightarrow> AggregateOutput option" where
  "decode_aggregateOutputWire w = do {
     rep \<leftarrow> decodeRepresentation (aow_Representation w) (wire_value (aow_Kind w) = ''dimension'');
     kind \<leftarrow> aow_Kind w;
     require (Some [] \<notin> {aow_Field w, aow_Function w, aow_Alias w, aow_Unit w, aow_Timezone w} \<and>
       (if kind = ''dimension'' then
          aow_Field w \<noteq> None \<and> aow_Function w = None \<and> aow_Alias w = None \<and> aow_Unit w = None \<and> aow_Timezone w = None
        else if kind = ''numeric_bucket'' then
          aow_Field w \<noteq> None \<and> aow_Alias w \<noteq> None \<and> aow_Function w = None \<and> aow_Unit w = None \<and> aow_Timezone w = None
        else if kind = ''time_bucket'' then
          aow_Field w \<noteq> None \<and> aow_Unit w \<noteq> None \<and> aow_Timezone w \<noteq> None \<and> aow_Alias w \<noteq> None \<and> aow_Function w = None
        else
          kind = ''measure'' \<and> aow_Unit w = None \<and> aow_Timezone w = None \<and> aow_Function w \<noteq> None \<and> aow_Alias w \<noteq> None \<and>
          (if wire_value (aow_Function w) = ''count_all'' then aow_Field w = None else aow_Field w \<noteq> None)))
     (Some \<lparr>ao_Representation = rep, ao_Kind = kind, ao_Field = wire_value (aow_Field w),
            ao_Function = wire_value (aow_Function w), ao_Alias = wire_value (aow_Alias w),
            ao_Unit = wire_value (aow_Unit w), ao_Timezone = wire_value (aow_Timezone w)\<rparr>) }"

definition decode_aggregateSortWire :: "aggregateSortWire \<Rightarrow> AggregateSort option" where
  "decode_aggregateSortWire w = do {
     rep \<leftarrow> decodeRepresentation (asw_Representation w) (wire_value (asw_Kind w) = ''dimension'');
     kind \<leftarrow> asw_Kind w;
     direction \<leftarrow> asw_Direction w;
     require (asw_Field w \<noteq> Some [] \<and> asw_Alias w \<noteq> Some [] \<and>
       (if kind = ''dimension'' then asw_Field w \<noteq> None \<and> asw_Alias w = None
        else kind \<in> set [''measure'', ''time_bucket'', ''numeric_bucket''] \<and> asw_Alias w \<noteq> None \<and> asw_Field w = None))
     (Some \<lparr>as_Representation = rep, as_Kind = kind, as_Field = wire_value (asw_Field w),
            as_Alias = wire_value (asw_Alias w), as_Direction = direction\<rparr>) }"

definition aggregateOutputKey :: "AggregateOutput \<Rightarrow> string" where
  "aggregateOutputKey = marshal_AggregateOutput"

definition aggregateSortKey :: "AggregateSort \<Rightarrow> string" where
  "aggregateSortKey = marshal_AggregateSort"

text \<open>The loop that decodes the elements and refuses one whose key was seen.\<close>

fun decode_unique :: "('w \<Rightarrow> 'a option) \<Rightarrow> ('a \<Rightarrow> string) \<Rightarrow> string list \<Rightarrow> 'w list \<Rightarrow> 'a list option" where
  "decode_unique decode key seen [] = Some []"
| "decode_unique decode key seen (w # ws) = do {
     x \<leftarrow> decode w;
     require (key x \<notin> set seen) (do {
     xs \<leftarrow> decode_unique decode key (key x # seen) ws;
     Some (x # xs) }) }"

definition decode_aggregateSpecWire :: "(string \<Rightarrow> digest) \<Rightarrow> aggregateSpecWire \<Rightarrow> int \<Rightarrow> AggregateSpec option" where
  "decode_aggregateSpecWire hash w maxFilterDepth = do {
     mode \<leftarrow> aw_Mode w;
     rw \<leftarrow> aw_Source w;
     source \<leftarrow> decode_resourceWire rw;
     ps \<leftarrow> aw_Projection w;
     require (ps \<noteq> [] \<and> length ps \<le> ProtocolMaxProjectionFields) (do {
     projection \<leftarrow> decode_unique decode_aggregateOutputWire aggregateOutputKey [] ps;
     filter \<leftarrow> (case aw_Filter w of
         None \<Rightarrow> Some None
       | Some fw \<Rightarrow> do {
           f \<leftarrow> decode_filterWire fw 1 maxFilterDepth;
           require (rejectExactFilterDuplicates hash f = None) (Some (Some f)) });
     orders \<leftarrow> (case aw_OrderBy w of
         None \<Rightarrow> Some None
       | Some os \<Rightarrow>
           require (os \<noteq> [] \<and> length os \<le> ProtocolMaxOrderByFields)
             (map_option Some (decode_unique decode_aggregateSortWire aggregateSortKey [] os)));
     require ((case aw_Limit w of None \<Rightarrow> True | Some l \<Rightarrow> 1 \<le> l \<and> l \<le> ProtocolMaxRows) \<and>
       (if mode = AggregateModeScalar then aw_OrderBy w = None \<and> aw_Limit w = None
        else mode = AggregateModeGrouped \<and> aw_Limit w \<noteq> None))
     (Some \<lparr>agg_Mode = mode, agg_Source = source, agg_Projection = projection, agg_Filter = filter, agg_OrderBy = orders,
            agg_Limit = aw_Limit w\<rparr>) }) }"

text \<open>The decoder with the budget its shape pass threads.\<close>

definition decode_aggregate_request ::
  "(string \<Rightarrow> digest) \<Rightarrow> scan_budget \<Rightarrow> string \<Rightarrow> int \<Rightarrow> int \<Rightarrow> int \<Rightarrow> AggregateRequest option" where
  "decode_aggregate_request hash budget data maxFilterDepth maxPreds maxParams =
     require (ValidString data) (do {
       doc \<leftarrow> read_json data;
       require (scanAggregateRequestShape doc maxFilterDepth budget \<and> doc \<noteq> JNull) (do {
       wire \<leftarrow> unmarshal_aggregateRequestWire doc;
       profile \<leftarrow> arw_Profile wire;
       datasource \<leftarrow> arw_Datasource wire;
       require (profile \<noteq> [] \<and> datasource \<noteq> []) (do {
       qw \<leftarrow> arw_Query wire;
       query \<leftarrow> decode_aggregateSpecWire hash qw maxFilterDepth;
       require (error_of (validateAggregate query (int ProtocolMaxProjectionFields) (int ProtocolMaxGroupByFields)
           (int ProtocolMaxOrderByFields) maxPreds maxFilterDepth maxParams ProtocolMaxRows False) = None)
       (Some \<lparr>gr_Profile = profile, gr_Datasource = datasource, gr_Query = query\<rparr>) }) }) })"

definition DecodeStrictAggregate ::
  "(string \<Rightarrow> digest) \<Rightarrow> string \<Rightarrow> int \<Rightarrow> int \<Rightarrow> int \<Rightarrow> AggregateRequest option" where
  "DecodeStrictAggregate hash data maxFilterDepth maxPreds maxParams =
     decode_aggregate_request hash (Some (newFilterShapeScanBudget maxPreds maxParams)) data maxFilterDepth maxPreds maxParams"

end
