(* ===== verification/Service_Handlers.thy ===== *)
theory Service_Handlers
  imports Query_Service Aggregate_Decode
begin

text \<open>
  The handlers of \<^verbatim>\<open>queryservice/service.go\<close>, \<^verbatim>\<open>operations.go\<close> and \<^verbatim>\<open>aggregate.go\<close>: \<open>Explain\<close>, \<open>Select\<close>, \<open>ListObjects\<close>,
  \<open>DescribeObject\<close> and \<open>Aggregate\<close>, each in the order of the code. The identifiers of the request arrive as a
  \<open>caller\<close>; the schema operations have no query identifier.
\<close>

section \<open>Requests and responses\<close>

text \<open>The fields every response to a query starts with.\<close>

record envelope =
  en_QueryID :: string
  en_PolicyProfile :: string
  en_PolicyVersion :: string
  en_Datasource :: string
  en_Adapter :: string

record ExplainResponse = envelope +
  xr_Format :: string
  xr_Plan :: string
  xr_Limits :: Limits
  xr_Warnings :: "string list"

record SelectResponse = envelope +
  lr_Columns :: "ResultColumn list"
  lr_Rows :: "string option list list"
  lr_RowCount :: int
  lr_Truncated :: bool
  lr_Limits :: Limits
  lr_Warnings :: "string list"

record AggregateResponse = envelope +
  gs_Mode :: string
  gs_Columns :: "ResultColumn list"
  gs_Rows :: "string option list list"
  gs_RowCount :: int
  gs_Truncated :: bool
  gs_Limits :: Limits
  gs_Warnings :: "string list"

record ObjectListResult =
  ol_PolicyProfile :: string
  ol_PolicyVersion :: string
  ol_Datasource :: string
  ol_Adapter :: string
  ol_Schema :: string
  ol_Objects :: "SchemaObject list"

record ObjectDescriptionResult =
  odr_PolicyProfile :: string
  odr_PolicyVersion :: string
  odr_Datasource :: string
  odr_Adapter :: string
  odr_Schema :: string
  odr_Name :: string
  odr_Columns :: "ColumnDescription list"

section \<open>Explain and select\<close>

definition query_access :: "AuthorizedQuery \<Rightarrow> access" where
  "query_access q =
     (let spec = Validated_Spec (aq_query q) in
      \<lparr>ac_principal = aq_principal q, ac_profile = aq_profile q, ac_datasource = aq_datasource q,
       ac_operation = aq_operation q,
       ac_resource = \<lparr>res_Schema = ref_Schema (ns_Source spec), res_Object = ref_Name (ns_Source spec)\<rparr>,
       ac_fields = referencedFields spec\<rparr>)"

definition Service_Explain :: "('db, 'w) Service \<Rightarrow> caller \<Rightarrow> int \<Rightarrow> Request \<Rightarrow> ('w, ExplainResponse) handler" where
  "Service_Explain s c bodyBytes request =
     svc_lift (AuthorizeBinding (sv_policy s) (cl_principal c) (rq_Profile request) (rq_Datasource request) OperationExplainSelect)
       (\<lambda>_. deny_unassigned s c (rq_Profile request) (rq_Datasource request) OperationExplainSelect) (\<lambda>b.
     let limits = ab_limits b; profile = key_Profile (ab_key b); datasource = key_Datasource (ab_key b);
         op = OperationExplainSelect in
     if bodyBytes > MaxRequestBytes limits then svc_fail (failure ServiceTooLarge)
     else svc_lift (validate_under limits (rq_Query request)) (\<lambda>_. svc_fail (failure ServiceInvalid)) (\<lambda>validated.
     let queryShapeHash = ShapeHash (Validated_Spec validated) in
     svc_bind (precheckSourceText s c b op queryShapeHash (UsesSourceText (Validated_Spec validated))) (\<lambda>_.
     let adapterName = Manager_AdapterName (sv_databases s) datasource in
     if op \<notin> set (Manager_Capabilities (sv_databases s) datasource) then
       not_implemented s c ''query_completion'' (rq_Profile request) datasource adapterName op queryShapeHash
     else read_semantics s (ab_key b)
       (completeQueryError s c (rq_Profile request) datasource adapterName op queryShapeHash [] [] []) (\<lambda>sem.
     svc_lift (AuthorizeExplain (sv_policy s) b validated sem)
       (\<lambda>e. let r = reason_or ''DENIED_OPERATION'' e in deny s c profile datasource op r queryShapeHash (denial r)) (\<lambda>authorized.
     let a = query_access authorized in
     svc_bind (writeAudit s False ((base_event s c ''query_decision'' op)\<lparr>
         ev_PolicyProfile := rq_Profile request, ev_Datasource := datasource, ev_Adapter := adapterName,
         ev_Decision := ''allow'', ev_QueryShapeHash := queryShapeHash, ev_Resources := [ac_resource a],
         ev_Fields := ac_fields a\<rparr>)) (\<lambda>_.
     with_capacity s (ab_key b) (svc_fail (failure ServiceCapacity))
       (run_database a (Manager_Explain (sv_databases s) authorized) (\<lambda>adapterName r.
        svc_lift r
          (completeQueryError s c (rq_Profile request) datasource adapterName op queryShapeHash [ac_resource a] (ac_fields a) [])
          (\<lambda>result. timed s (\<lambda>duration.
            svc_bind (writeAudit s True ((completion_event s c ''query_completion'' (rq_Profile request) datasource adapterName op
                ''success'' queryShapeHash [ac_resource a] (ac_fields a) [])\<lparr>
                ev_DurationMS := duration, ev_ResultBytes := int (length (er_Plan result))\<rparr>))
              (\<lambda>_. svc_return \<lparr>en_QueryID = cl_queryID c, en_PolicyProfile = rq_Profile request,
                 en_PolicyVersion = snap_version (sv_policy s), en_Datasource = datasource, en_Adapter = adapterName,
                 xr_Format = er_Format result, xr_Plan = er_Plan result, xr_Limits = limits, xr_Warnings = []\<rparr>)))))))))))"

definition Service_Select :: "('db, 'w) Service \<Rightarrow> caller \<Rightarrow> int \<Rightarrow> Request \<Rightarrow> ('w, SelectResponse) handler" where
  "Service_Select s c bodyBytes request =
     svc_lift (AuthorizeBinding (sv_policy s) (cl_principal c) (rq_Profile request) (rq_Datasource request) OperationSelect)
       (\<lambda>_. deny_unassigned s c (rq_Profile request) (rq_Datasource request) OperationSelect) (\<lambda>b.
     let limits = ab_limits b; profile = key_Profile (ab_key b); datasource = key_Datasource (ab_key b);
         op = OperationSelect in
     if bodyBytes > MaxRequestBytes limits then svc_fail (failure ServiceTooLarge)
     else svc_lift (validate_under limits (rq_Query request)) (\<lambda>_. svc_fail (failure ServiceInvalid)) (\<lambda>validated.
     svc_check (ValidateSimpleSelect validated) (\<lambda>_. failure ServiceInvalid) (
     let queryShapeHash = ShapeHash (Validated_Spec validated) in
     svc_bind (precheckSourceText s c b op queryShapeHash (UsesSourceText (Validated_Spec validated))) (\<lambda>_.
     let adapterName = Manager_AdapterName (sv_databases s) datasource in
     if op \<notin> set (Manager_Capabilities (sv_databases s) datasource) then
       not_implemented s c ''query_completion'' (rq_Profile request) datasource adapterName op queryShapeHash
     else read_semantics s (ab_key b)
       (completeQueryError s c (rq_Profile request) datasource adapterName op queryShapeHash [] [] []) (\<lambda>sem.
     svc_lift (AuthorizeSelect (sv_policy s) b validated sem)
       (\<lambda>e. let r = reason_or ''DENIED_OPERATION'' e in deny s c profile datasource op r queryShapeHash (denial r)) (\<lambda>authorized.
     let a = query_access authorized in
     svc_bind (writeAllowDecision s c (rq_Profile request) datasource adapterName op [ac_resource a] (ac_fields a) queryShapeHash) (\<lambda>_.
     with_capacity s (ab_key b) (svc_fail (failure ServiceCapacity))
       (run_database a (Manager_Select (sv_databases s) authorized) (\<lambda>adapterName r.
        svc_lift r
          (completeQueryError s c (rq_Profile request) datasource adapterName op queryShapeHash [ac_resource a] (ac_fields a) [])
          (\<lambda>result. timed s (\<lambda>duration.
            svc_bind (writeAudit s True ((completion_event s c ''query_completion'' (rq_Profile request) datasource adapterName op
                ''success'' queryShapeHash [ac_resource a] (ac_fields a)
                [(''row_count'', MetaNumber (sr_RowCount result)), (''truncated'', MetaFlag (sr_Truncated result))])\<lparr>
                ev_DurationMS := duration, ev_ResultBytes := sr_ResultBytes result\<rparr>))
              (\<lambda>_. svc_return \<lparr>en_QueryID = cl_queryID c, en_PolicyProfile = rq_Profile request,
                 en_PolicyVersion = snap_version (sv_policy s), en_Datasource = datasource, en_Adapter = adapterName,
                 lr_Columns = sr_Columns result, lr_Rows = sr_Rows result, lr_RowCount = sr_RowCount result,
                 lr_Truncated = sr_Truncated result, lr_Limits = limits, lr_Warnings = []\<rparr>))))))))))))"

section \<open>Schema operations\<close>

definition validSchemaCoordinates :: "Operation \<Rightarrow> string \<Rightarrow> string \<Rightarrow> bool" where
  "validSchemaCoordinates operation schema object \<longleftrightarrow>
     (if operation = OperationListObjects then IsIdentifier schema \<and> object = []
      else if operation = OperationDescribeObject then IsIdentifier schema \<and> IsIdentifier object
      else False)"

text \<open>The binding stands for the \<open>profileState\<close>, which is the binding and its datasource.\<close>

definition prepareSchemaOperation ::
  "('db, 'w) Service \<Rightarrow> caller \<Rightarrow> string \<Rightarrow> string \<Rightarrow> Operation \<Rightarrow> string \<Rightarrow> string \<Rightarrow>
     ('w, AuthorizedBinding \<times> Limits \<times> string) handler" where
  "prepareSchemaOperation s c profileName datasource operation schema object =
     (if \<not> validSchemaCoordinates operation schema object then svc_fail (failure ServiceInvalid)
      else svc_lift (AuthorizeBinding (sv_policy s) (cl_principal c) profileName datasource operation)
        (\<lambda>_. deny_unassigned s c profileName datasource operation) (\<lambda>b.
      let source_name = key_Datasource (ab_key b); adapterName = Manager_AdapterName (sv_databases s) source_name in
      if operation \<notin> set (Manager_Capabilities (sv_databases s) source_name) then
        not_implemented s c ''operation_completion'' profileName source_name adapterName operation []
      else svc_return (b, ab_limits b, adapterName)))"

function service_string_size :: "int \<Rightarrow> string \<Rightarrow> int" where
  "service_string_size cur text_left =
     (if text_left = [] then cur
      else service_string_size (cur + snd (rune_cost text_left)) (drop (fst (rune_cost text_left)) text_left))"
  by pat_completeness auto
termination
  using rune_cost_width by (relation "measure (\<lambda>(_, t). length t)") (auto simp: Suc_le_eq)

declare service_string_size.simps [simp del]

definition service_encodedJSONStringSize :: "string \<Rightarrow> int" where
  "service_encodedJSONStringSize t = service_string_size 2 t"

definition encodedJSONBooleanSize :: "bool \<Rightarrow> int" where
  "encodedJSONBooleanSize b = (if b then 4 else 5)"

definition service_encodedColumnDescriptionSize :: "ColumnDescription \<Rightarrow> int" where
  "service_encodedColumnDescriptionSize column =
     70 + service_encodedJSONStringSize (cd_Name column) + service_encodedJSONStringSize (cd_Type column) +
     service_encodedJSONStringSize (cd_NativeType column) + encodedJSONBooleanSize (cd_Nullable column) +
     encodedJSONBooleanSize (cd_PrimaryKey column) + encodedJSONBooleanSize (cd_Indexed column)"

definition addBoundedSize :: "int \<Rightarrow> int \<Rightarrow> int \<Rightarrow> int option" where
  "addBoundedSize current increment maximum =
     (if current < 0 \<or> increment < 0 \<or> current > maximum \<or> increment > maximum - current then None
      else Some (current + increment))"

text \<open>The loops over objects and columns: every element but the first costs a comma.\<close>

fun bounded_loop :: "('a \<Rightarrow> int) \<Rightarrow> int \<Rightarrow> nat \<Rightarrow> int \<Rightarrow> 'a list \<Rightarrow> adapter_error + int" where
  "bounded_loop cost maximum index total_size [] = Inr total_size"
| "bounded_loop cost maximum index total_size (x # xs) =
     (case addBoundedSize total_size (cost x + (if index \<noteq> 0 then 1 else 0)) maximum of
        None \<Rightarrow> Inl (DatabaseError ErrorResultTooLarge)
      | Some n \<Rightarrow> bounded_loop cost maximum (index + 1) n xs)"

definition boundedObjectListResult :: "SchemaObject list \<Rightarrow> int \<Rightarrow> adapter_error + int" where
  "boundedObjectListResult objects maxResultBytes =
     (case addBoundedSize 0 14 maxResultBytes of
        None \<Rightarrow> Inl (DatabaseError ErrorResultTooLarge)
      | Some n \<Rightarrow> bounded_loop (\<lambda>object. 9 + service_encodedJSONStringSize (so_Name object)) maxResultBytes 0 n objects)"

definition boundedObjectDescriptionResult :: "ObjectDescription \<Rightarrow> int \<Rightarrow> adapter_error + int" where
  "boundedObjectDescriptionResult d maxResultBytes =
     (let n = 32 + service_encodedJSONStringSize (od_Schema d) + service_encodedJSONStringSize (od_Name d) in
      if n > maxResultBytes then Inl (DatabaseError ErrorResultTooLarge)
      else bounded_loop service_encodedColumnDescriptionSize maxResultBytes 0 n (od_Columns d))"

definition schema_access :: "AuthorizedSchema \<Rightarrow> Resource \<Rightarrow> access" where
  "schema_access a resource =
     \<lparr>ac_principal = sc_principal a, ac_profile = sc_profile a, ac_datasource = sc_datasource a,
      ac_operation = sc_operation a, ac_resource = resource, ac_fields = []\<rparr>"

definition Service_ListObjects ::
  "('db, 'w) Service \<Rightarrow> caller \<Rightarrow> string \<Rightarrow> string \<Rightarrow> string \<Rightarrow> ('w, ObjectListResult) handler" where
  "Service_ListObjects s request_caller profileName requested schema =
     (let c = request_caller\<lparr>cl_queryID := []\<rparr>; op = OperationListObjects in
      svc_bind (prepareSchemaOperation s c profileName requested op schema []) (\<lambda>(b, limits, adapterName).
      let datasource = key_Datasource (ab_key b) in
      read_semantics s (ab_key b) (completeSchemaError s c profileName datasource adapterName op [] []) (\<lambda>sem.
      svc_lift (AuthorizeListObjects (sv_policy s) b schema sem)
        (\<lambda>e. deny s c (key_Profile (ab_key b)) datasource op (reason_or ''DENIED_OPERATION'' e) [] (failure ServiceNotFound)) (\<lambda>authorized.
      let resource = \<lparr>res_Schema = schema, res_Object = []\<rparr>; a = schema_access authorized resource in
      svc_bind (writeAllowDecision s c profileName datasource adapterName op [resource] [] []) (\<lambda>_.
      with_capacity s (ab_key b) (svc_fail (failure ServiceCapacity))
        (run_database a (Manager_ListObjects (sv_databases s) authorized) (\<lambda>adapterName r.
         svc_lift (bind_result r (\<lambda>objects. bind_result (boundedObjectListResult objects (MaxResultBytes limits))
             (\<lambda>n. Inr (objects, n))))
           (completeSchemaError s c profileName datasource adapterName op [resource] [])
           (\<lambda>(objects, resultBytes). timed s (\<lambda>duration.
             svc_bind (writeAudit s True ((completion_event s c ''operation_completion'' profileName datasource adapterName op
                 ''success'' [] [resource] [] [(''object_count'', MetaNumber (int (length objects)))])\<lparr>
                 ev_DurationMS := duration, ev_ResultBytes := resultBytes\<rparr>))
               (\<lambda>_. svc_return \<lparr>ol_PolicyProfile = profileName, ol_PolicyVersion = snap_version (sv_policy s),
                  ol_Datasource = datasource, ol_Adapter = adapterName, ol_Schema = schema, ol_Objects = objects\<rparr>))))))))))"

text \<open>
  \<open>DescribeObject\<close> answers "not found" when the adapter rejects the object, unless the completion could not be
  recorded.
\<close>

definition described_not_found :: "adapter_error \<Rightarrow> ('w, 'a) handler \<Rightarrow> ('w, 'a) handler" where
  "described_not_found e m st =
     (case m st of
        (Inl se, st') \<Rightarrow>
          (Inl (if e = DatabaseError ErrorInvalid \<and> se_Kind se \<noteq> ServiceUnavailable then failure ServiceNotFound else se), st')
      | r \<Rightarrow> r)"

definition Service_DescribeObject ::
  "('db, 'w) Service \<Rightarrow> caller \<Rightarrow> string \<Rightarrow> string \<Rightarrow> ResourceRef \<Rightarrow> ('w, ObjectDescriptionResult) handler" where
  "Service_DescribeObject s request_caller profileName requested object =
     (let c = request_caller\<lparr>cl_queryID := []\<rparr>; op = OperationDescribeObject in
      svc_bind (prepareSchemaOperation s c profileName requested op (ref_Schema object) (ref_Name object)) (\<lambda>(b, limits, adapterName).
      let datasource = key_Datasource (ab_key b) in
      read_semantics s (ab_key b) (completeSchemaError s c profileName datasource adapterName op [] []) (\<lambda>sem.
      svc_lift (AuthorizeDescribeObject (sv_policy s) b object sem)
        (\<lambda>e. deny s c (key_Profile (ab_key b)) datasource op (reason_or ''DENIED_OPERATION'' e) [] (failure ServiceNotFound)) (\<lambda>authorized.
      let resource = \<lparr>res_Schema = ref_Schema object, res_Object = ref_Name object\<rparr>; a = schema_access authorized resource in
      svc_bind (writeAllowDecision s c profileName datasource adapterName op [resource] [] []) (\<lambda>_.
      with_capacity s (ab_key b) (svc_fail (failure ServiceCapacity))
        (run_database a (Manager_DescribeObject (sv_databases s) authorized) (\<lambda>adapterName r.
         svc_lift r
           (\<lambda>e. described_not_found e (completeSchemaError s c profileName datasource adapterName op [resource] [] e))
           (\<lambda>d.
             let field_names = remdups_adj (sort (map cd_Name (od_Columns d))) in
             svc_lift (boundedObjectDescriptionResult d (MaxResultBytes limits))
               (completeSchemaError s c profileName datasource adapterName op [resource] field_names)
               (\<lambda>resultBytes. timed s (\<lambda>duration.
                 svc_bind (writeAudit s True ((completion_event s c ''operation_completion'' profileName datasource adapterName op
                     ''success'' [] [resource] field_names [(''column_count'', MetaNumber (int (length (od_Columns d))))])\<lparr>
                     ev_DurationMS := duration, ev_ResultBytes := resultBytes\<rparr>))
                   (\<lambda>_. svc_return \<lparr>odr_PolicyProfile = profileName, odr_PolicyVersion = snap_version (sv_policy s),
                      odr_Datasource = datasource, odr_Adapter = adapterName, odr_Schema = od_Schema d, odr_Name = od_Name d,
                      odr_Columns = od_Columns d\<rparr>)))))))))))"

section \<open>Aggregates\<close>

definition marshal_Limits :: "Limits \<Rightarrow> string" where
  "marshal_Limits l = json_object
     [(''deadline_ms'', itoa_int (DeadlineMS l)), (''max_request_bytes'', itoa_int (MaxRequestBytes l)),
      (''max_projection_fields'', itoa_int (MaxProjectionFields l)), (''max_group_by_fields'', itoa_int (MaxGroupByFields l)),
      (''max_order_by_fields'', itoa_int (MaxOrderByFields l)), (''max_predicates'', itoa_int (MaxPredicates l)),
      (''max_expression_depth'', itoa_int (MaxExpressionDepth l)), (''max_parameters'', itoa_int (MaxParameters l)),
      (''max_rows'', itoa_int (MaxRows l)), (''max_result_bytes'', itoa_int (MaxResultBytes l)),
      (''max_offset'', itoa_int (MaxOffset l)), (''max_concurrency'', itoa_int (MaxConcurrency l))]"

definition marshal_AggregateResponse :: "AggregateResponse \<Rightarrow> string" where
  "marshal_AggregateResponse r = json_object
     [(''mode'', json_quote (gs_Mode r)), (''query_id'', json_quote (en_QueryID r)),
      (''policy_profile'', json_quote (en_PolicyProfile r)), (''policy_version'', json_quote (en_PolicyVersion r)),
      (''datasource'', json_quote (en_Datasource r)), (''adapter'', json_quote (en_Adapter r)),
      (''columns'', json_array (map marshal_ResultColumn (gs_Columns r))), (''rows'', json_array (map json_row (gs_Rows r))),
      (''row_count'', itoa_int (gs_RowCount r)), (''truncated'', format_bool (gs_Truncated r)),
      (''limits'', marshal_Limits (gs_Limits r)), (''warnings'', json_array (map json_quote (gs_Warnings r)))]"

definition aggregateEnvelopeBaseBytes :: "string \<Rightarrow> string \<Rightarrow> string \<Rightarrow> string \<Rightarrow> string \<Rightarrow> string \<Rightarrow> Limits \<Rightarrow> int" where
  "aggregateEnvelopeBaseBytes mode queryID profile policyVersion datasource adapterName limits =
     int (length (marshal_AggregateResponse
       \<lparr>en_QueryID = queryID, en_PolicyProfile = profile, en_PolicyVersion = policyVersion, en_Datasource = datasource,
        en_Adapter = adapterName, gs_Mode = mode, gs_Columns = [], gs_Rows = [],
        gs_RowCount = (if mode = AggregateModeScalar then 1 else 0), gs_Truncated = False, gs_Limits = limits, gs_Warnings = []\<rparr>))"

definition aggregateAuditMetadata :: "AuthorizedAggregate \<Rightarrow> string \<Rightarrow> (string \<times> metadata) list" where
  "aggregateAuditMetadata authorized mode =
     [(''mode'', MetaText mode), (''aggregate_shape'', MetaText (aa_shapeName authorized))]"

definition aggregate_access :: "AuthorizedAggregate \<Rightarrow> access" where
  "aggregate_access q =
     (let spec = ValidatedAggregate_Spec (aa_query q) in
      \<lparr>ac_principal = aa_principal q, ac_profile = aa_profile q, ac_datasource = aa_datasource q,
       ac_operation = aa_operation q,
       ac_resource = \<lparr>res_Schema = ref_Schema (na_Source spec), res_Object = ref_Name (na_Source spec)\<rparr>,
       ac_fields = AggregateReferencedFields spec\<rparr>)"

definition lacks_aggregate_support :: "('db, 'w) Manager \<Rightarrow> string \<Rightarrow> NormalizedAggregateSpec \<Rightarrow> bool" where
  "lacks_aggregate_support m datasource spec \<longleftrightarrow>
     OperationAggregate \<notin> set (Manager_Capabilities m datasource) \<or>
     AggregateUsesTimeBucket spec \<and> FeatureTimeBucketUTC \<notin> set (Manager_Features m datasource) \<or>
     AggregateUsesNumericBucket spec \<and> FeatureNumericBucketExact \<notin> set (Manager_Features m datasource)"

text \<open>A failed authorisation: a denial is recorded as such, anything else as an invalid query.\<close>

definition refuse_aggregate ::
  "('db, 'w) Service \<Rightarrow> caller \<Rightarrow> string \<Rightarrow> BindingKey \<Rightarrow> string \<Rightarrow> string \<Rightarrow> (string \<times> metadata) list \<Rightarrow> policy_error \<Rightarrow>
     ('w, 'a) handler" where
  "refuse_aggregate s c profileName key adapterName queryShapeHash meta e =
     (case IsDenial e of
        None \<Rightarrow> completeQueryError s c profileName (key_Datasource key) adapterName OperationAggregate queryShapeHash [] [] meta
                 (DatabaseError ErrorInvalid)
      | Some r \<Rightarrow> deny s c (key_Profile key) (key_Datasource key) OperationAggregate (reason_code r) queryShapeHash
                 (denial (reason_code r)))"

definition Service_Aggregate :: "('db, 'w) Service \<Rightarrow> caller \<Rightarrow> int \<Rightarrow> AggregateRequest \<Rightarrow> ('w, AggregateResponse) handler" where
  "Service_Aggregate s c bodyBytes request =
     svc_lift (validate_aggregate_under (hardLimits (sv_policy s)) (gr_Query request)) (\<lambda>_. svc_fail (failure ServiceInvalid)) (\<lambda>prevalidated.
     svc_lift (AuthorizeBinding (sv_policy s) (cl_principal c) (gr_Profile request) (gr_Datasource request) OperationAggregate)
       (\<lambda>_. deny_unassigned s c (gr_Profile request) (gr_Datasource request) OperationAggregate) (\<lambda>b.
     let limits = ab_limits b; datasource = key_Datasource (ab_key b); op = OperationAggregate;
         mode_only = [(''mode'', MetaText (agg_Mode (gr_Query request)))] in
     if bodyBytes > MaxRequestBytes limits then svc_fail (failure ServiceTooLarge)
     else svc_lift (revalidate_aggregate_under limits prevalidated) (\<lambda>_. svc_fail (failure ServiceInvalid)) (\<lambda>validated.
     let shapeHash = AggregateShapeHash (ValidatedAggregate_Spec validated) in
     svc_bind (precheckSourceText s c b op shapeHash (AggregateUsesSourceText (ValidatedAggregate_Spec validated))) (\<lambda>_.
     let adapterName = Manager_AdapterName (sv_databases s) datasource in
     if lacks_aggregate_support (sv_databases s) datasource (ValidatedAggregate_Spec validated) then
       not_implemented s c ''query_completion'' (gr_Profile request) datasource adapterName op shapeHash
     else read_semantics s (ab_key b)
       (completeQueryError s c (gr_Profile request) datasource adapterName op shapeHash [] [] mode_only) (\<lambda>sem.
     svc_lift (NormalizeAggregateIdentifiers sha256 validated sem)
       (\<lambda>_. completeQueryError s c (gr_Profile request) datasource adapterName op shapeHash [] [] mode_only (DatabaseError ErrorInvalid)) (\<lambda>norm.
     let normalHash = AggregateShapeHash (ValidatedAggregate_Spec norm) in
     svc_lift (AuthorizeAggregate sha256 (sv_policy s) b norm sem)
       (refuse_aggregate s c (gr_Profile request) (ab_key b) adapterName normalHash mode_only) (\<lambda>authorized.
     let spec = ValidatedAggregate_Spec (aa_query authorized); queryShapeHash = AggregateShapeHash spec;
         a = aggregate_access authorized; meta = aggregateAuditMetadata authorized (na_Mode spec) in
     svc_bind (writeAllowDecision s c (gr_Profile request) datasource adapterName op [ac_resource a] (ac_fields a) queryShapeHash) (\<lambda>_.
     let baseBytes = aggregateEnvelopeBaseBytes (na_Mode spec) (cl_queryID c) (gr_Profile request)
           (snap_version (sv_policy s)) datasource adapterName limits in
     if baseBytes > MaxResultBytes limits then
       completeQueryError s c (gr_Profile request) datasource adapterName op queryShapeHash [ac_resource a] (ac_fields a) meta
         (DatabaseError ErrorResultTooLarge)
     else with_capacity s (ab_key b)
       (timed s (\<lambda>duration. svc_bind (writeAudit s True ((completion_event s c ''query_completion'' (gr_Profile request) datasource adapterName op
            ''error'' queryShapeHash [ac_resource a] (ac_fields a) meta)\<lparr>
            ev_ErrorKind := kind_text ServiceCapacity, ev_DurationMS := duration\<rparr>))
          (\<lambda>_. svc_fail (failure ServiceCapacity))))
       (run_database a (Manager_Aggregate (sv_databases s) authorized baseBytes) (\<lambda>adapterName r.
        svc_lift r
          (completeQueryError s c (gr_Profile request) datasource adapterName op queryShapeHash [ac_resource a] (ac_fields a) meta)
          (\<lambda>result. timed s (\<lambda>duration.
            svc_bind (writeAudit s True ((completion_event s c ''query_completion'' (gr_Profile request) datasource adapterName op
                ''success'' queryShapeHash [ac_resource a] (ac_fields a)
                [(''mode'', MetaText (ar_Mode result)), (''row_count'', MetaNumber (ar_RowCount result)),
                 (''truncated'', MetaFlag (ar_Truncated result)), (''aggregate_shape'', MetaText (aa_shapeName authorized))])\<lparr>
                ev_DurationMS := duration, ev_ResultBytes := ar_ResultBytes result\<rparr>))
              (\<lambda>_. svc_return \<lparr>en_QueryID = cl_queryID c, en_PolicyProfile = gr_Profile request,
                 en_PolicyVersion = snap_version (sv_policy s), en_Datasource = datasource, en_Adapter = adapterName,
                 gs_Mode = ar_Mode result, gs_Columns = ar_Columns result, gs_Rows = ar_Rows result,
                 gs_RowCount = ar_RowCount result, gs_Truncated = ar_Truncated result, gs_Limits = limits,
                 gs_Warnings = []\<rparr>)))))))))))))"

end
