(* ===== verification/Result_Columns.thy ===== *)
theory Result_Columns
  imports Keyset_Pages
begin

text \<open>
  The columns of a page and the bytes they add to the envelope (\<^verbatim>\<open>mysql8/keyset.go\<close>, \<^verbatim>\<open>mysql8/aggregate.go\<close>): the
  envelope budget of the service is for an empty list of columns.
\<close>

section \<open>Columns of a page\<close>

definition keysetNumericColumnHasZerofill :: "keysetSourceColumn \<Rightarrow> string \<Rightarrow> bool" where
  "keysetNumericColumnHasZerofill column normalizedDataType \<longleftrightarrow>
     normalizedDataType \<in> set [''TINYINT'', ''SMALLINT'', ''MEDIUMINT'', ''INT'', ''INTEGER'', ''BIGINT'', ''DECIMAL'', ''NUMERIC''] \<and>
     list_ex (\<lambda>modifier. EqualFold modifier ''ZEROFILL'') (Fields (col_nativeType column))"

definition keyset_result_column :: "column_map \<Rightarrow> Selection \<Rightarrow> adapter_error + ResultColumn" where
  "keyset_result_column columns projection =
     (case map_of columns (ToLower (sel_Field projection)) of
        None \<Rightarrow> Inl (DatabaseError ErrorInvalid)
      | Some column \<Rightarrow>
          let dataType = ToUpper (TrimSpace (col_dataType column)) in
          if keysetNumericColumnHasZerofill column dataType then Inl (DatabaseError ErrorInvalid)
          else if dataType \<in> set [''FLOAT'', ''DOUBLE'', ''REAL''] then Inl (DatabaseError ErrorInvalid)
          else
            let name = (if sel_Alias projection \<noteq> [] then sel_Alias projection else sel_Field projection) in
            Inr (source_text_column (sel_Representation projection)
              \<lparr>rc_Name = name, rc_Type = portableColumnType (col_dataType column),
               rc_Encoding = resultEncoding (col_dataType column), rc_Nullable = col_nullable column\<rparr>))"

definition keysetResultColumns :: "NormalizedKeysetRequest \<Rightarrow> keysetSource \<Rightarrow> adapter_error + ResultColumn list" where
  "keysetResultColumns request src =
     sequence_results (map (keyset_result_column (src_columns src)) (ks_Projection (nk_Query request)))"

section \<open>Their size\<close>

definition encodedAggregateResultColumnSize :: "ResultColumn \<Rightarrow> int \<Rightarrow> int option" where
  "encodedAggregateResultColumnSize column maximum =
     (case encodedMetadataObjectSize 41 maximum [rc_Name column, rc_Type column, rc_Encoding column] of
        None \<Rightarrow> None
      | Some cur \<Rightarrow> addEncodedSize cur (if rc_Nullable column then 4 else 5) maximum)"

fun column_size_loop :: "nat \<Rightarrow> int \<Rightarrow> ResultColumn list \<Rightarrow> int \<Rightarrow> adapter_error + int" where
  "column_size_loop index current [] maximum = Inr current"
| "column_size_loop index current (column # columns) maximum =
     (case encodedAggregateResultColumnSize column (maximum - current) of
        None \<Rightarrow> Inl (DatabaseError ErrorResultTooLarge)
      | Some n \<Rightarrow>
          (case addEncodedSize current (if index \<noteq> 0 then n + 1 else n) maximum of
             None \<Rightarrow> Inl (DatabaseError ErrorResultTooLarge)
           | Some current' \<Rightarrow> column_size_loop (index + 1) current' columns maximum))"

definition addAggregateColumnsSize :: "int \<Rightarrow> ResultColumn list \<Rightarrow> int \<Rightarrow> adapter_error + int" where
  "addAggregateColumnsSize base columns maximum = column_size_loop 0 base columns maximum"

definition addKeysetColumnsSize :: "int \<Rightarrow> ResultColumn list \<Rightarrow> int \<Rightarrow> adapter_error + int" where
  "addKeysetColumnsSize base columns maximum = addAggregateColumnsSize base columns maximum"

interpretation result_column_counter: byte_counter encodedAggregateResultColumnSize marshal_ResultColumn "\<lambda>_. True"
proof (unfold_locales, goal_cases)
  case (1 x budget)
  have "list_all is_word ''encoding'' \<and> list_all is_word ''nullable''" by code_simp
  then have "length (marshal_ResultColumn x) =
      41 + sum_list (map (length \<circ> json_quote) [rc_Name x, rc_Type x, rc_Encoding x]) + length (json_bool (rc_Nullable x))"
    using member_names by (simp add: marshal_ResultColumn_def json_object_def comma_separated_def length_json_quote_word)
  moreover have "int (length (json_bool b)) = (if b then 4 else 5)" for b by (simp add: json_bool_def)
  ultimately show ?case
    unfolding encodedAggregateResultColumnSize_def
    by (auto simp: encodedMetadataObjectSize_exact addEncodedSize_def fitting_def)
qed

definition columns_text :: "ResultColumn list \<Rightarrow> string" where
  "columns_text columns = comma_separated (map marshal_ResultColumn columns)"

lemma length_columns_text:
  "int (length (columns_text (column # columns))) =
     int (length (marshal_ResultColumn column)) + int (sum_list (map (\<lambda>c. 1 + length (marshal_ResultColumn c)) columns))"
  by (simp add: columns_text_def comma_separated_def length_join_comma comp_def)

lemma column_size_loop_rest:
  "0 \<le> current \<Longrightarrow> index \<noteq> 0 \<Longrightarrow> column_size_loop index current columns maximum = Inr n \<Longrightarrow>
     n = current + int (sum_list (map (\<lambda>c. 1 + length (marshal_ResultColumn c)) columns)) \<and> (columns = [] \<or> n \<le> maximum)"
proof (induction columns arbitrary: index current)
  case (Cons column columns)
  from Cons.prems have le: "current + (int (length (marshal_ResultColumn column)) + 1) \<le> maximum"
    and rest: "column_size_loop (index + 1) (current + (int (length (marshal_ResultColumn column)) + 1)) columns maximum = Inr n"
    by (auto simp: result_column_counter.exact addEncodedSize_def fitting_def split: option.splits if_splits)
  from Cons.IH [OF _ _ rest] Cons.prems(1) le show ?case by auto
qed simp

lemma addAggregateColumnsSize_exact:
  assumes "addAggregateColumnsSize base columns maximum = Inr n" "0 \<le> base" "base \<le> maximum"
  shows "n = base + int (length (columns_text columns)) \<and> n \<le> maximum"
proof (cases columns)
  case Nil
  with assms show ?thesis by (simp add: addAggregateColumnsSize_def columns_text_def comma_separated_def)
next
  case (Cons column rest)
  with assms have le: "base + int (length (marshal_ResultColumn column)) \<le> maximum"
    and rest: "column_size_loop 1 (base + int (length (marshal_ResultColumn column))) rest maximum = Inr n"
    by (auto simp: addAggregateColumnsSize_def result_column_counter.exact addEncodedSize_def fitting_def
        split: option.splits if_splits)
  from column_size_loop_rest [OF _ _ rest] assms(2) le show ?thesis
    by (auto simp: Cons length_columns_text)
qed

end
