(* ===== verification/Service_Keyset.thy ===== *)
theory Service_Keyset
  imports Service_Handlers Result_Columns
begin

text \<open>
  \<^verbatim>\<open>queryservice/keyset.go\<close>: the handler of keyset pages, the envelope budget it gives to the adapter, and the checks
  of what the adapter returns before it is sent.
\<close>

section \<open>Responses\<close>

record KeysetPageResult =
  kp_HasMore :: bool
  kp_NextCursor :: "KeysetCursorValue list option"

record KeysetResponse =
  kz_Kind :: string
  kz_QueryID :: string
  kz_PolicyProfile :: string
  kz_PolicyVersion :: string
  kz_Shape :: string
  kz_Datasource :: string
  kz_Adapter :: string
  kz_Columns :: "ResultColumn list"
  kz_Rows :: "string option list list"
  kz_RowCount :: int
  kz_Truncated :: bool
  kz_Page :: KeysetPageResult
  kz_Limits :: Limits
  kz_Warnings :: "string list"
  kz_encodedJSON :: string

definition marshal_KeysetPageResult :: "KeysetPageResult \<Rightarrow> string" where
  "marshal_KeysetPageResult p = json_object ((''has_more'', json_bool (kp_HasMore p)) #
     (case kp_NextCursor p of None \<Rightarrow> [] | Some cs \<Rightarrow> [(''next_cursor'', json_array (map marshal_cursor_value cs))]))"

definition marshal_KeysetResponse :: "KeysetResponse \<Rightarrow> string" where
  "marshal_KeysetResponse r = json_object
     [(''kind'', json_quote (kz_Kind r)), (''query_id'', json_quote (kz_QueryID r)),
      (''policy_profile'', json_quote (kz_PolicyProfile r)), (''policy_version'', json_quote (kz_PolicyVersion r)),
      (''shape'', json_quote (kz_Shape r)), (''datasource'', json_quote (kz_Datasource r)),
      (''adapter'', json_quote (kz_Adapter r)), (''columns'', json_array (map marshal_ResultColumn (kz_Columns r))),
      (''rows'', json_array (map json_row (kz_Rows r))), (''row_count'', itoa_int (kz_RowCount r)),
      (''truncated'', json_bool (kz_Truncated r)), (''page'', marshal_KeysetPageResult (kz_Page r)),
      (''limits'', marshal_Limits (kz_Limits r)), (''warnings'', json_array (map json_quote (kz_Warnings r)))]"

definition makeKeysetResponse ::
  "string \<Rightarrow> string \<Rightarrow> string \<Rightarrow> string \<Rightarrow> string \<Rightarrow> string \<Rightarrow> Limits \<Rightarrow> KeysetSelectResult \<Rightarrow> KeysetResponse" where
  "makeKeysetResponse queryID profile policyVersion shape datasource adapterName limits result =
     \<lparr>kz_Kind = ''keyset'', kz_QueryID = queryID, kz_PolicyProfile = profile, kz_PolicyVersion = policyVersion,
      kz_Shape = shape, kz_Datasource = datasource, kz_Adapter = adapterName, kz_Columns = kq_Columns result,
      kz_Rows = kq_Rows result, kz_RowCount = kq_RowCount result, kz_Truncated = kq_HasMore result,
      kz_Page = \<lparr>kp_HasMore = kq_HasMore result, kp_NextCursor = (if kq_HasMore result then Some (kq_NextCursor result) else None)\<rparr>,
      kz_Limits = limits, kz_Warnings = [], kz_encodedJSON = []\<rparr>"

text \<open>Marshalling a response does not fail: it holds strings, numbers and flags only.\<close>

definition keysetEnvelopeBudget ::
  "string \<Rightarrow> string \<Rightarrow> string \<Rightarrow> string \<Rightarrow> string \<Rightarrow> string \<Rightarrow> Limits \<Rightarrow> KeysetEnvelopeBudget" where
  "keysetEnvelopeBudget queryID profile policyVersion shape datasource adapterName limits =
     (let base = \<lparr>kq_Columns = [], kq_Rows = [], kq_RowCount = 0, kq_HasMore = False, kq_NextCursor = [], kq_ResultBytes = 0\<rparr>;
          finalPayload = marshal_KeysetResponse
            (makeKeysetResponse queryID profile policyVersion shape datasource adapterName limits base);
          morePayload = marshal_KeysetResponse
            (makeKeysetResponse queryID profile policyVersion shape datasource adapterName limits (base\<lparr>kq_HasMore := True\<rparr>)) in
      \<lparr>FinalBaseBytes = int (length finalPayload), MoreBaseBytes = int (length morePayload)\<rparr>)"

section \<open>Checking a response\<close>

definition response_integer :: "string \<Rightarrow> bool" where
  "response_integer v \<longleftrightarrow>
     (if v = [] \<or> hd v = CHR ''+'' \<or> v = ''-0'' \<or> length v > 20 \<or> length v > 1 \<and> hd v = CHR ''0'' then False
      else if hd v = CHR ''-'' then ParseInt64 v \<noteq> None \<and> length v > 1 \<and> v ! 1 \<noteq> CHR ''0''
      else ParseUint64 v \<noteq> None)"

definition validKeysetResponseCell :: "string \<Rightarrow> string \<Rightarrow> bool" where
  "validKeysetResponseCell v columnType \<longleftrightarrow>
     (if columnType = ''bytes'' then (case b64_decode_strict v of None \<Rightarrow> False | Some d \<Rightarrow> b64_encode d = v)
      else if columnType = ''integer'' then response_integer v
      else if columnType = ''decimal'' then valid_decimal_cell v
      else if columnType = ''string'' then ValidString v
      else if columnType = ''date'' then ParsePortableDate v \<noteq> None
      else if columnType = ''datetime'' then ParsePortableDateTime v \<noteq> None
      else if columnType = ''time'' then ValidPortableTime v
      else if columnType = ''json'' then ValidString v \<and> json_valid v
      else False)"

definition validKeysetResponseCursor :: "KeysetCursorValue \<Rightarrow> bool" where
  "validKeysetResponseCursor c \<longleftrightarrow>
     (let t = kc_Type c; v = kc_Value c in
      if t = ''integer'' then validKeysetResponseCell v ''integer''
      else if t = ''string'' then ValidString v \<and> RuneCountInString v \<le> ProtocolMaxCursorStringRunes
      else if t = ''bytes'' then canonical_base64 v ProtocolMaxCursorBytes
      else if t = ''date'' then ParsePortableDate v \<noteq> None
      else if t = ''datetime'' then ParsePortableDateTime v \<noteq> None
      else if t = ''timestamp'' then ParsePortableTimestamp v \<noteq> None
      else False)"

text \<open>The value of a timestamp without the markers T and Z.\<close>

definition timestamp_fields :: "string \<Rightarrow> string" where
  "timestamp_fields v = take 10 v @ '' '' @ butlast (drop 11 v)"

definition keysetCursorMatchesCell :: "KeysetCursorValue \<Rightarrow> ResultColumn \<Rightarrow> string \<Rightarrow> bool" where
  "keysetCursorMatchesCell c column cell_text \<longleftrightarrow>
     (if \<not> validKeysetResponseCursor c then False
      else if kc_Type c \<in> set [''integer'', ''string'', ''bytes'', ''date'', ''datetime'']
        then kc_Type c = rc_Type column \<and> kc_Value c = cell_text
      else if kc_Type c = ''timestamp'' then rc_Type column = ''datetime'' \<and> timestamp_fields (kc_Value c) = cell_text
      else False)"

definition response_column_error :: "Selection \<Rightarrow> ResultColumn \<Rightarrow> string list \<Rightarrow> string option" where
  "response_column_error projection column outputs =
     (let expected = (if sel_Alias projection \<noteq> [] then sel_Alias projection else sel_Field projection) in
      first_error [
        fail_if (sel_Representation projection = RepresentationSourceText \<and>
          (rc_Type column \<noteq> ''string'' \<or> rc_Encoding column \<noteq> ''string'')) ''invalid source_text result column'',
        fail_if (rc_Name column \<noteq> expected \<or> \<not> IsIdentifier (rc_Name column)) ''invalid keyset result column'',
        fail_if (rc_Name column \<in> set outputs) ''duplicate keyset result column'',
        (if rc_Type column = ''bytes'' then fail_if (rc_Encoding column \<noteq> ''base64'') ''invalid binary keyset result encoding''
         else fail_if (rc_Type column \<notin> set [''integer'', ''decimal'', ''string'', ''date'', ''datetime'', ''time'', ''json''] \<or>
           rc_Encoding column \<noteq> ''string'') ''invalid keyset result encoding'')])"

fun response_columns_error :: "string list \<Rightarrow> (Selection \<times> ResultColumn) list \<Rightarrow> string option" where
  "response_columns_error outputs [] = None"
| "response_columns_error outputs ((projection, column) # rest) = first_error [
     response_column_error projection column outputs, response_columns_error (rc_Name column # outputs) rest]"

definition response_row_error :: "ResultColumn list \<Rightarrow> string option list \<Rightarrow> string option" where
  "response_row_error columns row = first_error [
     fail_if (length row \<noteq> length columns) ''invalid keyset row width'',
     range_error (\<lambda>_ (v, column). case v of
         None \<Rightarrow> fail_if (\<not> rc_Nullable column) ''invalid null keyset cell''
       | Some t \<Rightarrow> fail_if (\<not> validKeysetResponseCell t (rc_Type column)) ''invalid keyset cell'') (zip row columns)]"

text \<open>The index of the only projection of a field; the two errors are two projections of it and none.\<close>

fun key_projection :: "string \<Rightarrow> nat \<Rightarrow> nat option \<Rightarrow> Selection list \<Rightarrow> string + nat" where
  "key_projection field index found [] =
     (case found of None \<Rightarrow> Inl ''missing keyset response key field'' | Some i \<Rightarrow> Inr i)"
| "key_projection field index found (s # ss) =
     (if sel_Field s = field then
        (if found \<noteq> None then Inl ''ambiguous keyset response key field'' else key_projection field (index + 1) (Some index) ss)
      else key_projection field (index + 1) found ss)"

definition response_key_error ::
  "Selection list \<Rightarrow> ResultColumn list \<Rightarrow> string option list \<Rightarrow> Sort \<times> KeysetCursorValue \<Rightarrow> string option" where
  "response_key_error projection columns lastRow key =
     (case key_projection (sort_Field (fst key)) 0 None projection of
        Inl e \<Rightarrow> Some e
      | Inr i \<Rightarrow>
          (case lastRow ! i of
             None \<Rightarrow> Some ''missing keyset response key field''
           | Some t \<Rightarrow> fail_if (\<not> keysetCursorMatchesCell (snd key) (columns ! i) t)
               ''keyset response cursor does not match the last row''))"

text \<open>A nil slice of rows is not a value of the model: the rows of an adapter are a list.\<close>

definition validateKeysetResponse :: "KeysetResponse \<Rightarrow> NormalizedKeysetRequest \<Rightarrow> string option" where
  "validateKeysetResponse r request =
     (let query = nk_Query request; page = kz_Page r; cursor = (case kp_NextCursor page of None \<Rightarrow> [] | Some cs \<Rightarrow> cs) in
      first_error [
        fail_if (kz_Kind r \<noteq> ''keyset'' \<or> kz_QueryID r = [] \<or> kz_PolicyProfile r = [] \<or> kz_PolicyVersion r = [] \<or>
          kz_PolicyProfile r \<noteq> nk_Profile request \<or> kz_Shape r \<noteq> nk_Shape request \<or>
          kz_Datasource r = [] \<or> kz_Adapter r = [] \<or>
          length (kz_Columns r) \<noteq> length (ks_Projection query) \<or> kz_RowCount r \<noteq> int (length (kz_Rows r)) \<or>
          int (length (kz_Rows r)) > ks_Limit query \<or>
          kz_Truncated r \<noteq> kp_HasMore page \<or> kp_HasMore page \<noteq> (kp_NextCursor page \<noteq> None)) ''invalid keyset result envelope'',
        fail_if (kp_HasMore page \<and> (kz_Rows r = [] \<or> length cursor \<noteq> length (ks_OrderBy query)))
          ''invalid keyset continuation state'',
        response_columns_error [] (zip (ks_Projection query) (kz_Columns r)),
        range_error (\<lambda>_ row. response_row_error (kz_Columns r) row) (kz_Rows r),
        (if kp_HasMore page then
           range_error (\<lambda>_. response_key_error (ks_Projection query) (kz_Columns r) (last (kz_Rows r)))
             (zip (ks_OrderBy query) cursor)
         else None)])"

section \<open>The handler\<close>

definition preAuthorizationKeysetShapeHash :: "ValidatedKeyset \<Rightarrow> string" where
  "preAuthorizationKeysetShapeHash request =
     (case NormalizeKeysetIdentifiers sha256 request
        \<lparr>CaseInsensitiveSchemas = True, CaseInsensitiveObjects = True, CaseInsensitiveFields = True\<rparr> of
        Inr norm \<Rightarrow> KeysetShapeHash (ValidatedKeyset_Request norm)
      | Inl _ \<Rightarrow> KeysetShapeHash (ValidatedKeyset_Request request))"

definition keysetShapeAuditMetadata :: "string \<Rightarrow> (string \<times> metadata) list" where
  "keysetShapeAuditMetadata shapeName = [(''keyset_shape'', MetaText shapeName)]"

definition keysetSuccessAuditMetadata :: "string \<Rightarrow> bool \<Rightarrow> int \<Rightarrow> (string \<times> metadata) list" where
  "keysetSuccessAuditMetadata shapeName hasMore rowCount =
     [(''has_more'', MetaFlag hasMore), (''keyset_shape'', MetaText shapeName), (''row_count'', MetaNumber rowCount),
      (''truncated'', MetaFlag hasMore)]"

definition requestedKeysetProfileHashDomain :: string where
  "requestedKeysetProfileHashDomain = ''quordon/keyset-requested-profile/v1'' @ [CHR 0x00]"

definition requestedKeysetDatasourceHashDomain :: string where
  "requestedKeysetDatasourceHashDomain = ''quordon/keyset-requested-datasource/v1'' @ [CHR 0x00]"

definition keysetOperationDenialEvent :: "('db, 'w) Service \<Rightarrow> caller \<Rightarrow> string \<Rightarrow> int \<Rightarrow> string \<Rightarrow> int \<Rightarrow> Event" where
  "keysetOperationDenialEvent s c profileHash profileBytes datasourceHash datasourceBytes =
     (base_event s c ''query_decision'' OperationSelectKeyset)\<lparr>ev_Decision := ''deny'', ev_ReasonCode := ''DENIED_OPERATION'',
       ev_RequestedProfileHash := profileHash, ev_RequestedProfileBytes := profileBytes,
       ev_RequestedDatasourceHash := datasourceHash, ev_RequestedDatasourceBytes := datasourceBytes\<rparr>"

definition writeKeysetOperationDenial :: "('db, 'w) Service \<Rightarrow> caller \<Rightarrow> string \<Rightarrow> string \<Rightarrow> ('w, unit) handler" where
  "writeKeysetOperationDenial s c requestedProfile requestedDatasource = writeAudit s True
     (keysetOperationDenialEvent s c
       (identifier_hash requestedKeysetProfileHashDomain requestedProfile) (int (length requestedProfile))
       (identifier_hash requestedKeysetDatasourceHashDomain requestedDatasource) (int (length requestedDatasource)))"

definition keyset_access :: "AuthorizedKeysetSelect \<Rightarrow> access" where
  "keyset_access q =
     (let src = ks_Source (nk_Query (ValidatedKeyset_Request (ak_query q))) in
      \<lparr>ac_principal = ak_principal q, ac_profile = ak_profile q, ac_datasource = ak_datasource q,
       ac_operation = ak_operation q, ac_resource = \<lparr>res_Schema = ref_Schema src, res_Object = ref_Name src\<rparr>,
       ac_fields = KeysetReferencedFields (ValidatedKeyset_Request (ak_query q))\<rparr>)"

text \<open>An error completion of a page, and the error it stands for.\<close>

definition fail_keyset ::
  "('db, 'w) Service \<Rightarrow> caller \<Rightarrow> string \<Rightarrow> string \<Rightarrow> string \<Rightarrow> string \<Rightarrow> Resource list \<Rightarrow> string list \<Rightarrow>
     (string \<times> metadata) list \<Rightarrow> service_kind \<Rightarrow> ('w, 'a) handler" where
  "fail_keyset s c profileName datasource adapterName queryShapeHash resources field_names meta kind =
     timed s (\<lambda>duration. svc_bind (writeAudit s True ((completion_event s c ''query_completion'' profileName datasource
         adapterName OperationSelectKeyset ''error'' queryShapeHash resources field_names meta)\<lparr>
         ev_ErrorKind := kind_text kind, ev_DurationMS := duration\<rparr>))
       (\<lambda>_. svc_fail (failure kind)))"

text \<open>A response leaves only when it passes the checks and has the size the adapter counted.\<close>

definition deliver_keyset ::
  "('db, 'w) Service \<Rightarrow> caller \<Rightarrow> string \<Rightarrow> AuthorizedKeysetSelect \<Rightarrow> string \<Rightarrow> string \<Rightarrow> Limits \<Rightarrow> KeysetSelectResult \<Rightarrow>
     ('w, KeysetResponse) handler" where
  "deliver_keyset s c profileName authorized adapterName queryShapeHash limits databaseResult =
     (let a = keyset_access authorized; meta = keysetShapeAuditMetadata (ak_shapeName authorized);
          response = makeKeysetResponse (cl_queryID c) profileName (snap_version (sv_policy s)) (ak_shapeName authorized)
            (ak_datasource authorized) adapterName limits databaseResult;
          payload_text = marshal_KeysetResponse response in
      if validateKeysetResponse response (ValidatedKeyset_Request (ak_query authorized)) \<noteq> None \<or>
         int (length payload_text) \<noteq> kq_ResultBytes databaseResult \<or> int (length payload_text) > MaxResultBytes limits then
        fail_keyset s c profileName (ak_datasource authorized) adapterName queryShapeHash [ac_resource a] (ac_fields a) meta
          ServiceInternal
      else timed s (\<lambda>duration. svc_bind (writeAudit s True ((completion_event s c ''query_completion'' profileName
          (ak_datasource authorized) adapterName OperationSelectKeyset ''success'' queryShapeHash [ac_resource a] (ac_fields a)
          (keysetSuccessAuditMetadata (ak_shapeName authorized) (kq_HasMore databaseResult) (kq_RowCount databaseResult)))\<lparr>
          ev_DurationMS := duration, ev_ResultBytes := kq_ResultBytes databaseResult\<rparr>))
        (\<lambda>_. svc_return (response\<lparr>kz_encodedJSON := payload_text\<rparr>))))"

definition refuse_keyset ::
  "('db, 'w) Service \<Rightarrow> caller \<Rightarrow> string \<Rightarrow> BindingKey \<Rightarrow> string \<Rightarrow> string \<Rightarrow> (string \<times> metadata) list \<Rightarrow> policy_error \<Rightarrow>
     ('w, 'a) handler" where
  "refuse_keyset s c profileName key adapterName queryShapeHash meta e =
     (case IsDenial e of
        None \<Rightarrow> completeQueryError s c profileName (key_Datasource key) adapterName OperationSelectKeyset queryShapeHash [] [] meta
                 (DatabaseError ErrorInvalid)
      | Some r \<Rightarrow> deny s c (key_Profile key) (key_Datasource key) OperationSelectKeyset (reason_code r) queryShapeHash
                 (denial (reason_code r)))"

definition precheck_keyset ::
  "('db, 'w) Service \<Rightarrow> caller \<Rightarrow> BindingKey \<Rightarrow> string \<Rightarrow> policy_error option \<Rightarrow> ('w, unit) handler" where
  "precheck_keyset s c key queryShapeHash result =
     (case result of
        None \<Rightarrow> svc_return ()
      | Some e \<Rightarrow>
          (case IsDenial e of
             None \<Rightarrow> svc_fail (failure ServiceInvalid)
           | Some r \<Rightarrow> deny s c (key_Profile key) (key_Datasource key) OperationSelectKeyset (reason_code r) queryShapeHash
                      (denial (reason_code r))))"

definition Service_SelectKeyset :: "('db, 'w) Service \<Rightarrow> caller \<Rightarrow> int \<Rightarrow> KeysetRequest \<Rightarrow> ('w, KeysetResponse) handler" where
  "Service_SelectKeyset s c bodyBytes request =
     (if bodyBytes < 0 then svc_fail (failure ServiceInvalid) else
     svc_lift (validate_keyset_under sha256 (hardLimits (sv_policy s)) request) (\<lambda>_. svc_fail (failure ServiceInvalid)) (\<lambda>prevalidated.
     svc_lift (AuthorizeBinding (sv_policy s) (cl_principal c) (kr_Profile request) (kr_Datasource request) OperationSelectKeyset)
       (\<lambda>_. svc_bind (writeKeysetOperationDenial s c (kr_Profile request) (kr_Datasource request))
          (\<lambda>_. svc_fail (denial ''DENIED_OPERATION''))) (\<lambda>b.
     let limits = ab_limits b; datasource = key_Datasource (ab_key b); op = OperationSelectKeyset;
         requested_shape = keysetShapeAuditMetadata (kr_Shape request) in
     if bodyBytes > MaxRequestBytes limits then svc_fail (failure ServiceTooLarge)
     else svc_lift (revalidate_keyset_under limits prevalidated) (\<lambda>_. svc_fail (failure ServiceInvalid)) (\<lambda>validated.
     let shapeHash = preAuthorizationKeysetShapeHash validated in
     svc_bind (precheckSourceText s c b op shapeHash (KeysetUsesSourceText (ValidatedKeyset_Request validated))) (\<lambda>_.
     svc_bind (precheck_keyset s c (ab_key b) shapeHash (PrecheckKeysetSelect sha256 (sv_policy s) b validated)) (\<lambda>_.
     let adapterName = Manager_AdapterName (sv_databases s) datasource in
     if op \<notin> set (Manager_Capabilities (sv_databases s) datasource) then
       timed s (\<lambda>duration. svc_bind (writeAudit s True ((completion_event s c ''query_completion'' (kr_Profile request) datasource
           adapterName op ''not_implemented'' shapeHash [] [] requested_shape)\<lparr>ev_DurationMS := duration\<rparr>))
         (\<lambda>_. svc_fail (failure ServiceNotImplemented)))
     else
     let budget = keysetEnvelopeBudget (cl_queryID c) (kr_Profile request) (snap_version (sv_policy s)) (kr_Shape request)
           datasource adapterName limits in
     if FinalBaseBytes budget > MaxResultBytes limits \<or> MoreBaseBytes budget > MaxResultBytes limits then
       completeQueryError s c (kr_Profile request) datasource adapterName op shapeHash [] [] requested_shape
         (DatabaseError ErrorResultTooLarge)
     else read_semantics s (ab_key b)
       (completeQueryError s c (kr_Profile request) datasource adapterName op shapeHash [] [] requested_shape) (\<lambda>sem.
     svc_lift (AuthorizeKeysetSelect sha256 (sv_policy s) b (cl_clientIdentifier c) adapterName validated sem)
       (refuse_keyset s c (kr_Profile request) (ab_key b) adapterName shapeHash requested_shape) (\<lambda>authorized.
     let queryShapeHash = KeysetShapeHash (ValidatedKeyset_Request (ak_query authorized)); a = keyset_access authorized;
         meta = keysetShapeAuditMetadata (ak_shapeName authorized) in
     svc_bind (writeAllowDecisionWithMetadata s c (kr_Profile request) (ak_datasource authorized) (ak_adapter authorized) op
         [ac_resource a] (ac_fields a) queryShapeHash meta) (\<lambda>_.
     with_capacity s (ab_key b)
       (fail_keyset s c (kr_Profile request) (ak_datasource authorized) (ak_adapter authorized) queryShapeHash
          [ac_resource a] (ac_fields a) meta ServiceCapacity)
       (run_database a (Manager_SelectKeyset (sv_databases s) authorized budget) (\<lambda>adapterName r.
        svc_lift r
          (completeQueryError s c (kr_Profile request) (ak_datasource authorized) adapterName op queryShapeHash
             [ac_resource a] (ac_fields a) meta)
          (deliver_keyset s c (kr_Profile request) authorized adapterName queryShapeHash limits))))))))))))"

section \<open>The envelope budget is exact\<close>

lemma decimalDigits_itoa: "decimalDigits n = int (length (itoa n))"
proof -
  have "0 < n \<Longrightarrow> digit_loop n = length (itoa n)" for n
  proof (induction n rule: less_induct)
    case (less n)
    show ?case
    proof (cases "n < 10")
      case True
      with less.prems show ?thesis by (subst digit_loop.simps, subst itoa.simps) (simp add: digit_loop.simps)
    next
      case False
      then have "digit_loop (n div 10) = length (itoa (n div 10))" by (intro less.IH) auto
      with False show ?thesis by (subst digit_loop.simps, subst itoa.simps) simp
    qed
  qed
  moreover have "length (itoa 0) = 1" by (subst itoa.simps) simp
  ultimately show ?thesis by (simp add: decimalDigits_def)
qed

text \<open>What a result adds to the envelope that was measured for an empty one.\<close>

lemma length_keyset_response:
  assumes "kq_RowCount r = int (length (kq_Rows r))" "\<not> kq_HasMore r \<longrightarrow> kq_NextCursor r = []"
  shows "int (length (marshal_KeysetResponse (makeKeysetResponse q p v shape d n limits r))) =
    page_bytes ((if kq_HasMore r then MoreBaseBytes else FinalBaseBytes) (keysetEnvelopeBudget q p v shape d n limits) +
      int (length (columns_text (kq_Columns r)))) (kq_Rows r) + int (length (cursor_text (kq_NextCursor r)))"
proof -
  have "length (itoa_int (kq_RowCount r)) = length (itoa (length (kq_Rows r)))" "length (itoa_int 0) = length (itoa 0)"
    using assms(1) by (simp_all add: itoa_int_def)
  then show ?thesis
    using assms(2)
    by (simp add: keysetEnvelopeBudget_def marshal_KeysetResponse_def makeKeysetResponse_def marshal_KeysetPageResult_def
        json_object_def json_array_def comma_separated_def [of "_ # _"] page_bytes_def rows_text_def columns_text_def cursor_text_def
        decimalDigits_itoa comma_separated_def [of "[]"] Let_def)
qed

text \<open>
  C6: the adapter's byte count of a page is the length of the response the service builds from it: when the
  adapter reads rows with the budget the service measured for an empty envelope, enlarged by the columns, the
  marshalled response has exactly the size the adapter recorded, and it fits the limit. The handler's check of the
  size never fails on such a page.
\<close>

theorem keyset_sizes_agree:
  assumes "budget = keysetEnvelopeBudget queryID profile version shape datasource adapterName limits"
    and "FinalBaseBytes budget \<le> maximum" "MoreBaseBytes budget \<le> maximum"
    and "addKeysetColumnsSize (FinalBaseBytes budget) columns maximum = Inr finalBase"
    and "addKeysetColumnsSize (MoreBaseBytes budget) columns maximum = Inr moreBase"
    and "keyed_source columns src" "0 \<le> limit"
    and "collectKeysetRows ctxErr rows rowsErr limit columns src finalBase moreBase maximum = Inr (r, early)"
  shows "int (length (marshal_KeysetResponse (makeKeysetResponse queryID profile version shape datasource adapterName limits r)))
      = kq_ResultBytes r \<and> kq_ResultBytes r \<le> maximum"
proof -
  have nonneg: "0 \<le> FinalBaseBytes budget" "0 \<le> MoreBaseBytes budget"
    by (simp_all add: assms(1) keysetEnvelopeBudget_def Let_def)
  have bases: "finalBase = FinalBaseBytes budget + int (length (columns_text columns)) \<and> finalBase \<le> maximum"
    "moreBase = MoreBaseBytes budget + int (length (columns_text columns)) \<and> moreBase \<le> maximum"
    using addAggregateColumnsSize_exact assms(2-5) nonneg unfolding addKeysetColumnsSize_def by blast+
  from collectKeysetRows_exact [OF assms(8,6) conjunct2 [OF bases(1)] assms(7)] obtain n where
    page: "exact_page columns src finalBase moreBase maximum rows n r" by blast
  have columns: "kq_Columns r = columns" "kq_RowCount r = int (length (kq_Rows r))"
    using assms(8) by (auto simp: collectKeysetRows_def page_result_def Let_def split: if_splits)
  have "int (length (marshal_KeysetResponse (makeKeysetResponse queryID profile version shape datasource adapterName limits r)))
      = page_bytes (if kq_HasMore r then moreBase else finalBase) (kq_Rows r) + int (length (cursor_text (kq_NextCursor r)))"
    using length_keyset_response [OF columns(2), of queryID profile version shape datasource adapterName limits] page bases columns(1)
    by (auto simp: assms(1) exact_page_def)
  with page show ?thesis by (auto simp: exact_page_def cursor_text_def comma_separated_def)
qed

definition sample_small_limits :: Limits where
  "sample_small_limits = (sample_limits 50)\<lparr>DeadlineMS := 50, MaxRequestBytes := 90, MaxResultBytes := 90, MaxOffset := 9\<rparr>"

theorem keyset_sizes_agree_witness:
  "\<exists>r early. collectKeysetRows None sample_table None 2 sample_columns sample_source 560 575 900 = Inr (r, early) \<and>
     int (length (marshal_KeysetResponse (makeKeysetResponse ''q1'' ''ops'' ''v1'' ''by_id'' ''main'' ''mysql8'' sample_small_limits r)))
       = kq_ResultBytes r"
proof -
  have budget: "\<lparr>FinalBaseBytes = 493, MoreBaseBytes = 508\<rparr> = keysetEnvelopeBudget ''q1'' ''ops'' ''v1'' ''by_id'' ''main'' ''mysql8'' sample_small_limits"
    by code_simp
  have base: "addKeysetColumnsSize 493 sample_columns 900 = Inr 560" "addKeysetColumnsSize 508 sample_columns 900 = Inr 575"
    by code_simp+
  have s: "closable sample_columns sample_source 575 900 (Fetched [Some ''1''])" "closable sample_columns sample_source 575 900 (Fetched [Some ''2''])"
    "closable sample_columns sample_source 575 900 (Fetched [Some ''3''])" by code_simp+
  have rows: "\<forall>row \<in> set sample_table. row_ok sample_columns sample_source row \<and> closable sample_columns sample_source 575 900 row"
    using sample_rows s by (simp add: sample_table_def)
  from collectKeysetRows_succeeds [OF rows sample_keyed, of 2 560 None] obtain r early where
    r: "collectKeysetRows None sample_table None 2 sample_columns sample_source 560 575 900 = Inr (r, early)" by auto
  from keyset_sizes_agree [OF budget _ _ _ _ sample_keyed _ r] base show ?thesis using r by auto
qed

end
