(* ===== verification/Mysql_Server.thy ===== *)
theory Mysql_Server
  imports Database_Manager Keyset_Statement
begin

text \<open>
  What the adapter asks a server before it trusts it (\<^verbatim>\<open>mysql8/mysql8.go\<close>): the version, the vendor and
  \<open>lower_case_table_names\<close>, and the deadline of a connection. The answer of a query is a row set: an error of the
  query itself, or the rows that were fetched, the error the iteration ended with and the error of \<open>Close\<close>.
\<close>

section \<open>Answers of a server\<close>

record row_set =
  rw_rows :: "fetched list"
  rw_err :: "driver_error option"
  rw_close :: "driver_error option"

type_synonym answer = "driver_error + row_set"

definition execution_failure :: "driver_error option \<Rightarrow> driver_error \<Rightarrow> adapter_error" where
  "execution_failure ctxErr e = DatabaseError (classifyExecutionError ctxErr e)"

definition query_failure :: "driver_error option \<Rightarrow> driver_error \<Rightarrow> adapter_error" where
  "query_failure ctxErr e = DatabaseError (classifyQueryError ctxErr e)"

section \<open>Server identification\<close>

text \<open>
  Where a lower-cased text has an ASCII letter: \<open>strings.ToLower\<close> maps two characters outside ASCII to one, U+0130
  (C4 B0) to i and U+212A (E2 84 AA) to k. All other characters outside ASCII stay outside.
\<close>

fun lower_text :: "string \<Rightarrow> string" where
  "lower_text (a # b # c # s) =
     (if byte a = 226 \<and> byte b = 132 \<and> byte c = 170 then CHR ''k'' # lower_text s
      else if byte a = 196 \<and> byte b = 176 then CHR ''i'' # lower_text (c # s)
      else lower_char a # lower_text (b # c # s))"
| "lower_text [a, b] = (if byte a = 196 \<and> byte b = 176 then [CHR ''i''] else [lower_char a, lower_char b])"
| "lower_text [a] = [lower_char a]"
| "lower_text [] = []"

definition text_contains :: "string \<Rightarrow> string \<Rightarrow> bool" where
  "text_contains s w \<longleftrightarrow> list_ex (\<lambda>n. take (length w) (drop n s) = w) [0..<Suc (length s)]"

text \<open>\<^verbatim>\<open>strings.SplitN(version, ".", 3)\<close> and \<open>strconv.Atoi\<close>: the parts, and what the check needs of the first two.\<close>

definition version_parts :: "string \<Rightarrow> string list" where
  "version_parts version = Split (CHR ''.'') version"

definition validateServerVersion :: "string \<Rightarrow> string \<Rightarrow> string option" where
  "validateServerVersion version versionComment =
     (let components = version_parts version in
      if text_contains (lower_text (version @ '' '' @ versionComment)) ''mariadb'' then Some ''MariaDB is not supported''
      else if length components < 2 then Some ''invalid MySQL server version''
      else
        case parse_int 64 (components ! 0) of
          None \<Rightarrow> Some ''invalid MySQL server version''
        | Some major \<Rightarrow>
            if parse_int 64 (components ! 1) = None then Some ''invalid MySQL server version''
            else if major \<noteq> 8 then Some ''unsupported MySQL server major version''
            else None)"

record serverInfo =
  si_version :: string
  si_versionComment :: string
  si_lowerCaseTableNames :: int

definition readServerInfo :: "driver_error option \<Rightarrow> driver_error + serverInfo \<Rightarrow> adapter_error + serverInfo" where
  "readServerInfo ctxErr scanned =
     bind_result (map_error (execution_failure ctxErr) scanned) (\<lambda>info.
       check (map_option (\<lambda>_. DatabaseError ErrorUnavailable) (validateServerVersion (si_version info) (si_versionComment info)))
       (bind_result (semanticsForLowerCaseTableNames (si_lowerCaseTableNames info)) (\<lambda>_. Inr info)))"

definition Adapter_IdentifierSemantics ::
  "driver_error option \<Rightarrow> driver_error + serverInfo \<Rightarrow> adapter_error + IdentifierSemantics" where
  "Adapter_IdentifierSemantics ctxErr scanned =
     bind_result (readServerInfo ctxErr scanned) (\<lambda>info. semanticsForLowerCaseTableNames (si_lowerCaseTableNames info))"

definition Adapter_Validate ::
  "driver_error option \<Rightarrow> driver_error option \<Rightarrow> driver_error + serverInfo \<Rightarrow> adapter_error option" where
  "Adapter_Validate ctxErr connErr scanned =
     (case connErr of
        Some e \<Rightarrow> Some (execution_failure ctxErr e)
      | None \<Rightarrow> (case readServerInfo ctxErr scanned of Inl e \<Rightarrow> Some e | Inr _ \<Rightarrow> None))"

text \<open>
  \<open>bindConnectionDeadline\<close>: the earlier of the deadline of the limits and that of the context, in milliseconds of the
  clock; the driver may fail to set it.
\<close>

definition bindConnectionDeadline :: "int option \<Rightarrow> int \<Rightarrow> driver_error option \<Rightarrow> int \<Rightarrow> driver_error + int" where
  "bindConnectionDeadline contextDeadline now setErr deadlineMS =
     (if deadlineMS \<le> 0 then Inl OtherError
      else
        let limit = now + deadlineMS;
            deadline = (case contextDeadline of None \<Rightarrow> limit | Some d \<Rightarrow> if d < limit then d else limit) in
        case setErr of Some e \<Rightarrow> Inl e | None \<Rightarrow> Inr deadline)"

section \<open>What an accepted server is\<close>

lemma readServerInfo_Inr:
  "readServerInfo ctxErr scanned = Inr info \<longleftrightarrow>
     scanned = Inr info \<and> validateServerVersion (si_version info) (si_versionComment info) = None \<and>
     si_lowerCaseTableNames info \<in> {0, 1, 2}"
  by (cases scanned) (auto simp: readServerInfo_def semanticsForLowerCaseTableNames_def)

lemma bindConnectionDeadline_Inr:
  "bindConnectionDeadline contextDeadline now setErr deadlineMS = Inr deadline \<Longrightarrow>
     0 < deadlineMS \<and> deadline \<le> now + deadlineMS \<and> (\<forall>d \<in> set_option contextDeadline. deadline \<le> d)"
  by (auto simp: bindConnectionDeadline_def Let_def split: if_splits option.splits)

end
