(* ===== verification/Table_Statistics.thy ===== *)
theory Table_Statistics
  imports Mysql_Server
begin

text \<open>
  Table statistics (\<^verbatim>\<open>mysql8/table_statistics.go\<close> and the wire form in \<^verbatim>\<open>database/database.go\<close>): the identity of the
  table, its metrics, and the loop over the rows of \<open>information_schema.partitions\<close> that rebuilds the partitioning and
  counts its JSON. \<open>unicode.SimpleFold\<close> is a table of the Unicode standard; it is the argument \<open>simpleFold\<close> of the
  definitions, which steps through the code points that are equal under simple case folding and comes back to the
  first.
\<close>

section \<open>JSON of statistics\<close>

definition marshal_metric :: "UnsignedMetric option \<Rightarrow> string" where
  "marshal_metric m =
     (case m of
        None \<Rightarrow> ''null''
      | Some u \<Rightarrow> json_object [(''value'', json_quote (um_Value u)), (''estimated'', json_bool (um_Estimated u))])"

definition marshal_TableStatistics :: "TableStatistics \<Rightarrow> string" where
  "marshal_TableStatistics t = json_object [
     (''estimated_rows'', marshal_metric (ts_EstimatedRows t)), (''data_bytes'', marshal_metric (ts_DataBytes t)),
     (''index_bytes'', marshal_metric (ts_IndexBytes t)), (''auto_increment'', marshal_metric (ts_AutoIncrement t))]"

definition marshal_PartitionStatistics :: "PartitionStatistics \<Rightarrow> string" where
  "marshal_PartitionStatistics p = json_object [
     (''estimated_rows'', marshal_metric (ps_EstimatedRows p)), (''data_bytes'', marshal_metric (ps_DataBytes p)),
     (''index_bytes'', marshal_metric (ps_IndexBytes p))]"

definition marshal_PartitionEntry :: "PartitionEntry \<Rightarrow> string" where
  "marshal_PartitionEntry e = json_object [
     (''name'', json_quote (pe_Name e)), (''ordinal'', itoa_int (pe_Ordinal e)),
     (''statistics'', marshal_PartitionStatistics (pe_Statistics e))]"

definition marshal_SubpartitionEntry :: "SubpartitionEntry \<Rightarrow> string" where
  "marshal_SubpartitionEntry e = json_object [
     (''name'', json_quote (se_Name e)), (''ordinal'', itoa_int (se_Ordinal e)),
     (''statistics'', marshal_PartitionStatistics (se_Statistics e))]"

definition marshal_PartitionGroup :: "PartitionGroup \<Rightarrow> string" where
  "marshal_PartitionGroup g = json_object [
     (''name'', json_quote (pgr_Name g)), (''ordinal'', itoa_int (pgr_Ordinal g)),
     (''subpartitions'', json_array (map marshal_SubpartitionEntry (pgr_Subpartitions g)))]"

text \<open>\<open>PartitioningResult.MarshalJSON\<close>; an unknown kind is an error.\<close>

definition PartitioningResult_MarshalJSON :: "PartitioningResult \<Rightarrow> string option" where
  "PartitioningResult_MarshalJSON p =
     (if pt_Kind p = ''none'' then Some (json_object [(''kind'', json_quote (pt_Kind p))])
      else if pt_Kind p = ''partitioned'' then Some (json_object [
        (''kind'', json_quote (pt_Kind p)), (''method'', json_quote (pt_Method p)),
        (''partitions'', json_array (map marshal_PartitionEntry (pt_Partitions p)))])
      else if pt_Kind p = ''subpartitioned'' then Some (json_object [
        (''kind'', json_quote (pt_Kind p)), (''method'', json_quote (pt_Method p)),
        (''subpartition_method'', json_quote (pt_SubpartitionMethod p)),
        (''partitions'', json_array (map marshal_PartitionGroup (pt_PartitionGroups p)))])
      else None)"

section \<open>Values of metadata rows\<close>

definition maxPhysicalPartitionLeaves :: int where
  "maxPhysicalPartitionLeaves = 8192"

definition invalidStatisticsMetadata :: adapter_error where
  "invalidStatisticsMetadata = DatabaseError ErrorUpstream"

definition statisticsNotFoundError :: adapter_error where
  "statisticsNotFoundError = DatabaseError ErrorNotFound"

text \<open>The text of a byte slice; a nil slice is SQL NULL and reads as the empty text.\<close>

definition raw_text :: "string option \<Rightarrow> string" where
  "raw_text raw = (case raw of None \<Rightarrow> [] | Some s \<Rightarrow> s)"

definition parseUnsignedMetric :: "string option \<Rightarrow> bool \<Rightarrow> adapter_error + UnsignedMetric option" where
  "parseUnsignedMetric raw estimated =
     (case raw of
        None \<Rightarrow> Inr None
      | Some s \<Rightarrow>
          if s = [] \<or> length s > 20 \<or> (length s > 1 \<and> hd s = CHR ''0'') then Inl invalidStatisticsMetadata
          else if \<not> list_all is_digit s then Inl invalidStatisticsMetadata
          else if parse_uint 64 s = None then Inl invalidStatisticsMetadata
          else Inr (Some \<lparr>um_Value = s, um_Estimated = estimated\<rparr>))"

definition parseOrdinal :: "string option \<Rightarrow> adapter_error + int" where
  "parseOrdinal raw =
     (case parseUnsignedMetric raw False of
        Inr (Some metric) \<Rightarrow>
          (case parse_uint 14 (um_Value metric) of
             None \<Rightarrow> Inl invalidStatisticsMetadata
           | Some n \<Rightarrow> if n = 0 \<or> int n > maxPhysicalPartitionLeaves then Inl invalidStatisticsMetadata else Inr (int n))
      | _ \<Rightarrow> Inl invalidStatisticsMetadata)"

text \<open>\<open>unicode.IsControl\<close>: the category Cc, which is fixed.\<close>

definition IsControl :: "nat \<Rightarrow> bool" where
  "IsControl r \<longleftrightarrow> r < 32 \<or> (127 \<le> r \<and> r < 160)"

definition isBidiFormattingRune :: "nat \<Rightarrow> bool" where
  "isBidiFormattingRune r \<longleftrightarrow>
     r = 0x061c \<or> r = 0x200e \<or> r = 0x200f \<or> (0x202a \<le> r \<and> r \<le> 0x202e) \<or> (0x2066 \<le> r \<and> r \<le> 0x2069)"

definition validatedMetadataName :: "string option \<Rightarrow> adapter_error + string" where
  "validatedMetadataName raw =
     (let s = raw_text raw in
      if s = [] \<or> length s > 256 \<or> \<not> ValidString s \<or> RuneCountInString s > 64 then Inl invalidStatisticsMetadata
      else if list_ex (\<lambda>(r, _). IsControl r \<or> isBidiFormattingRune r) (runes s) then Inl invalidStatisticsMetadata
      else Inr s)"

text \<open>
  The loop over the orbit of a code point under \<open>unicode.SimpleFold\<close>. There are 1114112 code points, so an orbit that
  closes does so within that many steps.
\<close>

fun fold_orbit :: "(nat \<Rightarrow> nat) \<Rightarrow> nat \<Rightarrow> nat \<Rightarrow> nat \<Rightarrow> nat \<Rightarrow> nat" where
  "fold_orbit simpleFold start 0 folded canonical = canonical"
| "fold_orbit simpleFold start (Suc n) folded canonical =
     (if folded = start then canonical
      else fold_orbit simpleFold start n (simpleFold folded) (if folded < canonical then folded else canonical))"

definition canonical_rune :: "(nat \<Rightarrow> nat) \<Rightarrow> nat \<Rightarrow> nat" where
  "canonical_rune simpleFold r = fold_orbit simpleFold r 1114112 (simpleFold r) r"

definition canonicalMetadataName :: "(nat \<Rightarrow> nat) \<Rightarrow> string \<Rightarrow> string" where
  "canonicalMetadataName simpleFold name = concat (map (\<lambda>(r, _). EncodeRune (canonical_rune simpleFold r)) (runes name))"

text \<open>The key of a name that is not among the names yet.\<close>

definition availableMetadataName :: "(nat \<Rightarrow> nat) \<Rightarrow> string set \<Rightarrow> string \<Rightarrow> string option" where
  "availableMetadataName simpleFold names name =
     (let key = canonicalMetadataName simpleFold name in if key \<in> names then None else Some key)"

definition mapPartitionMethod :: "string option \<Rightarrow> string option" where
  "mapPartitionMethod raw = map_of [
     (''HASH'', ''hash''), (''LINEAR HASH'', ''linear_hash''), (''KEY'', ''key''), (''LINEAR KEY'', ''linear_key''),
     (''RANGE'', ''range''), (''RANGE COLUMNS'', ''range_columns''), (''LIST'', ''list''), (''LIST COLUMNS'', ''list_columns'')]
     (raw_text raw)"

definition validTopPartitionMethod :: "string \<Rightarrow> bool" where
  "validTopPartitionMethod method \<longleftrightarrow> method \<in> set [''hash'', ''linear_hash'', ''key'', ''linear_key'',
     ''range'', ''range_columns'', ''list'', ''list_columns'']"

definition validSubpartitionParentMethod :: "string \<Rightarrow> bool" where
  "validSubpartitionParentMethod method \<longleftrightarrow> method \<in> set [''range'', ''range_columns'', ''list'', ''list_columns'']"

definition validSubpartitionMethod :: "string \<Rightarrow> bool" where
  "validSubpartitionMethod method \<longleftrightarrow> method \<in> set [''hash'', ''linear_hash'', ''key'', ''linear_key'']"

fun boundedRawTotal :: "int \<Rightarrow> string option list \<Rightarrow> int option" where
  "boundedRawTotal current [] = Some current"
| "boundedRawTotal current (v # vs) =
     (case addEncodedSize current (int (length (raw_text v))) MaxSupportedResultBytes of
        None \<Rightarrow> None
      | Some n \<Rightarrow> boundedRawTotal n vs)"

section \<open>Sizes\<close>

text \<open>\<open>strconv.Quote\<close> on ASCII text; metrics are digits and methods are the eight words above.\<close>

definition quote_ascii :: "char \<Rightarrow> string" where
  "quote_ascii c =
     (if c = quote_char \<or> c = bslash then [bslash, c]
      else if 32 \<le> byte c \<and> byte c < 127 then [c]
      else if byte c \<in> {7, 8, 9, 10, 11, 12, 13} then [bslash, ''abtnvfr'' ! (byte c - 7)]
      else [bslash, CHR ''x'', hex_digit (byte c div 16), hex_digit (byte c mod 16)])"

definition go_Quote :: "string \<Rightarrow> string" where
  "go_Quote s = quote_char # concat (map quote_ascii s) @ [quote_char]"

definition table_metric_size :: "UnsignedMetric \<Rightarrow> int" where
  "table_metric_size metric = 23 + int (length (go_Quote (um_Value metric))) + (if um_Estimated metric then 4 else 5)"

fun table_size_loop :: "int \<Rightarrow> UnsignedMetric option list \<Rightarrow> int \<Rightarrow> adapter_error + int" where
  "table_size_loop current [] maximum = Inr current"
| "table_size_loop current (None # ms) maximum = table_size_loop current ms maximum"
| "table_size_loop current (Some metric # ms) maximum =
     (case addEncodedSize current (table_metric_size metric - 4) maximum of
        None \<Rightarrow> Inl (DatabaseError ErrorResultTooLarge)
      | Some n \<Rightarrow> table_size_loop n ms maximum)"

definition addTableStatisticsSize :: "int \<Rightarrow> TableStatistics \<Rightarrow> int \<Rightarrow> adapter_error + int" where
  "addTableStatisticsSize current t maximum =
     table_size_loop current [ts_EstimatedRows t, ts_DataBytes t, ts_IndexBytes t, ts_AutoIncrement t] maximum"

definition partition_metric_size :: "UnsignedMetric option \<Rightarrow> int" where
  "partition_metric_size m = (case m of None \<Rightarrow> 4 | Some metric \<Rightarrow> 27 + int (length (go_Quote (um_Value metric))))"

fun partition_metrics_loop :: "int \<Rightarrow> UnsignedMetric option list \<Rightarrow> int \<Rightarrow> int option" where
  "partition_metrics_loop current [] maximum = Some current"
| "partition_metrics_loop current (m # ms) maximum =
     (case addEncodedSize current (partition_metric_size m) maximum of
        None \<Rightarrow> None
      | Some n \<Rightarrow> partition_metrics_loop n ms maximum)"

definition encodedPartitionStatisticsSize :: "PartitionStatistics \<Rightarrow> int \<Rightarrow> int option" where
  "encodedPartitionStatisticsSize p maximum =
     (if 48 > maximum then None
      else partition_metrics_loop 48 [ps_EstimatedRows p, ps_DataBytes p, ps_IndexBytes p] maximum)"

definition encodedPartitionEntrySize :: "PartitionEntry \<Rightarrow> int \<Rightarrow> int option" where
  "encodedPartitionEntrySize entry maximum =
     (let base = 34 + int (length (itoa_int (pe_Ordinal entry))) in
      case encodedMetadataJSONStringSize (pe_Name entry) (maximum - base) of
        None \<Rightarrow> None
      | Some nameBytes \<Rightarrow>
          (case encodedPartitionStatisticsSize (pe_Statistics entry) (maximum - (base + nameBytes)) of
             None \<Rightarrow> None
           | Some statisticsBytes \<Rightarrow> addEncodedSize (base + nameBytes) statisticsBytes maximum))"

definition encodedSubpartitionEntrySize :: "SubpartitionEntry \<Rightarrow> int \<Rightarrow> int option" where
  "encodedSubpartitionEntrySize entry maximum =
     encodedPartitionEntrySize
       \<lparr>pe_Name = se_Name entry, pe_Ordinal = se_Ordinal entry, pe_Statistics = se_Statistics entry\<rparr> maximum"

text \<open>The loops over the elements of an array: each element adds its size, and a comma unless it is the first.\<close>

fun elements_size :: "('a \<Rightarrow> int \<Rightarrow> int option) \<Rightarrow> nat \<Rightarrow> int \<Rightarrow> 'a list \<Rightarrow> int \<Rightarrow> int option" where
  "elements_size counted index current [] maximum = Some current"
| "elements_size counted index current (x # xs) maximum =
     (case counted x (maximum - current) of
        None \<Rightarrow> None
      | Some n \<Rightarrow>
          (case addEncodedSize current (if index \<noteq> 0 then n + 1 else n) maximum of
             None \<Rightarrow> None
           | Some current' \<Rightarrow> elements_size counted (index + 1) current' xs maximum))"

definition encodedPartitionGroupSize :: "PartitionGroup \<Rightarrow> int \<Rightarrow> int option" where
  "encodedPartitionGroupSize grp maximum =
     (let base = 39 + int (length (itoa_int (pgr_Ordinal grp))) in
      case encodedMetadataJSONStringSize (pgr_Name grp) (maximum - base) of
        None \<Rightarrow> None
      | Some nameBytes \<Rightarrow> elements_size encodedSubpartitionEntrySize 0 (base + nameBytes) (pgr_Subpartitions grp) maximum)"

definition encodedPartitioningSize :: "PartitioningResult \<Rightarrow> int \<Rightarrow> int option" where
  "encodedPartitioningSize p maximum =
     (if pt_Kind p = ''none'' then addEncodedSize 0 15 maximum
      else if pt_Kind p = ''partitioned'' then
        let base = 48 + int (length (go_Quote (pt_Method p))) in
        if base > maximum then None else elements_size encodedPartitionEntrySize 0 base (pt_Partitions p) maximum
      else if pt_Kind p = ''subpartitioned'' then
        let base = 74 + int (length (go_Quote (pt_Method p))) + int (length (go_Quote (pt_SubpartitionMethod p))) in
        if base > maximum then None else elements_size encodedPartitionGroupSize 0 base (pt_PartitionGroups p) maximum
      else None)"

section \<open>Rows\<close>

record partitionRow =
  prw_partitionName :: "string option"
  prw_partitionOrdinal :: "string option"
  prw_partitionMethod :: "string option"
  prw_subpartitionName :: "string option"
  prw_subpartitionOrdinal :: "string option"
  prw_subpartitionMethod :: "string option"
  prw_estimatedRows :: "string option"
  prw_dataBytes :: "string option"
  prw_indexBytes :: "string option"

definition makePartitionStatistics :: "partitionRow \<Rightarrow> adapter_error + PartitionStatistics" where
  "makePartitionStatistics row =
     bind_result (parseUnsignedMetric (prw_estimatedRows row) True) (\<lambda>estimatedRows.
     bind_result (parseUnsignedMetric (prw_dataBytes row) True) (\<lambda>dataBytes.
     bind_result (parseUnsignedMetric (prw_indexBytes row) True) (\<lambda>indexBytes.
     Inr \<lparr>ps_EstimatedRows = estimatedRows, ps_DataBytes = dataBytes, ps_IndexBytes = indexBytes\<rparr>)))"

definition makePartitionEntry :: "partitionRow \<Rightarrow> adapter_error + PartitionEntry \<times> string" where
  "makePartitionEntry row =
     bind_result (validatedMetadataName (prw_partitionName row)) (\<lambda>name.
     bind_result (parseOrdinal (prw_partitionOrdinal row)) (\<lambda>ordinal.
     case mapPartitionMethod (prw_partitionMethod row) of
       None \<Rightarrow> Inl invalidStatisticsMetadata
     | Some method \<Rightarrow>
         bind_result (makePartitionStatistics row) (\<lambda>statistics.
         Inr (\<lparr>pe_Name = name, pe_Ordinal = ordinal, pe_Statistics = statistics\<rparr>, method))))"

section \<open>The loop over the partitions\<close>

record tableIdentity =
  ti_schema :: string
  ti_name :: string
  ti_engine :: string

record partition_state =
  pst_rawTotal :: int
  pst_partitioning :: PartitioningResult
  pst_partitioningBytes :: int
  pst_resultBytes :: int
  pst_partitionNames :: "string set"
  pst_subpartitionNames :: "string set"
  pst_leafCount :: int

text \<open>The budget of the loop: the bytes of the envelope without the partitioning, and the maximum.\<close>

definition nonePartitioningBytes :: int where
  "nonePartitioningBytes = 15"

definition too_large :: adapter_error where
  "too_large = DatabaseError ErrorResultTooLarge"

definition or_too_large :: "int option \<Rightarrow> (int \<Rightarrow> adapter_error + 'a) \<Rightarrow> adapter_error + 'a" where
  "or_too_large n k = (case n of None \<Rightarrow> Inl too_large | Some v \<Rightarrow> k v)"

definition leaf_kind :: "partitionRow \<Rightarrow> string" where
  "leaf_kind row =
     (if prw_partitionName row = None then ''none''
      else if prw_subpartitionName row = None then ''partitioned'' else ''subpartitioned'')"

definition none_leaf :: "partition_state \<Rightarrow> partitionRow \<Rightarrow> adapter_error + partition_state" where
  "none_leaf st row =
     (if pst_leafCount st \<noteq> 1 \<or> prw_partitionName row \<noteq> None \<or> prw_partitionOrdinal row \<noteq> None \<or>
         prw_partitionMethod row \<noteq> None \<or> prw_subpartitionName row \<noteq> None \<or> prw_subpartitionOrdinal row \<noteq> None \<or>
         prw_subpartitionMethod row \<noteq> None
      then Inl invalidStatisticsMetadata else Inr st)"

definition partitioned_leaf ::
  "(nat \<Rightarrow> nat) \<Rightarrow> int \<Rightarrow> int \<Rightarrow> partition_state \<Rightarrow> partitionRow \<Rightarrow> adapter_error + partition_state" where
  "partitioned_leaf simpleFold envelope maxResultBytes st row =
     (let p = pst_partitioning st; budget = maxResultBytes - envelope in
      if prw_partitionName row = None \<or> prw_partitionOrdinal row = None \<or> prw_partitionMethod row = None \<or>
         prw_subpartitionName row \<noteq> None \<or> prw_subpartitionOrdinal row \<noteq> None \<or> prw_subpartitionMethod row \<noteq> None
      then Inl invalidStatisticsMetadata
      else bind_result (makePartitionEntry row) (\<lambda>(entry, method).
        case availableMetadataName simpleFold (pst_partitionNames st) (pe_Name entry) of
          None \<Rightarrow> Inl invalidStatisticsMetadata
        | Some nameKey \<Rightarrow>
            if \<not> validTopPartitionMethod method \<or> (pt_Method p \<noteq> [] \<and> pt_Method p \<noteq> method) \<or>
               pe_Ordinal entry \<noteq> int (length (pt_Partitions p)) + 1
            then Inl invalidStatisticsMetadata
            else
              let p' = p\<lparr>pt_Method := method\<rparr> in
              or_too_large (if pt_Partitions p = [] then encodedPartitioningSize p' budget
                            else Some (pst_partitioningBytes st)) (\<lambda>partitioningBytes.
              or_too_large (encodedPartitionEntrySize entry (budget - partitioningBytes)) (\<lambda>entryBytes.
              or_too_large (addEncodedSize partitioningBytes (if pt_Partitions p \<noteq> [] then entryBytes + 1 else entryBytes) budget)
                (\<lambda>total_bytes.
              Inr (st\<lparr>pst_partitioning := p'\<lparr>pt_Partitions := pt_Partitions p @ [entry]\<rparr>,
                      pst_partitioningBytes := total_bytes, pst_resultBytes := envelope + total_bytes,
                      pst_partitionNames := insert nameKey (pst_partitionNames st)\<rparr>))))))"

text \<open>The group a subpartition goes into: \<open>Some\<close> key opens a new one, \<open>None\<close> is the last one.\<close>

definition subpartition_group ::
  "(nat \<Rightarrow> nat) \<Rightarrow> partition_state \<Rightarrow> string \<Rightarrow> int \<Rightarrow> adapter_error + string option" where
  "subpartition_group simpleFold st name ordinal =
     (let groups = pt_PartitionGroups (pst_partitioning st) in
      if groups = [] \<or> pgr_Ordinal (last groups) \<noteq> ordinal then
        (case availableMetadataName simpleFold (pst_partitionNames st) name of
           None \<Rightarrow> Inl invalidStatisticsMetadata
         | Some key \<Rightarrow> if ordinal \<noteq> int (length groups) + 1 then Inl invalidStatisticsMetadata else Inr (Some key))
      else if pgr_Name (last groups) \<noteq> name \<or> pgr_Ordinal (last groups) \<noteq> ordinal then Inl invalidStatisticsMetadata
      else Inr None)"

definition append_subpartition :: "PartitionGroup list \<Rightarrow> SubpartitionEntry \<Rightarrow> PartitionGroup list" where
  "append_subpartition groups entry =
     butlast groups @ [(last groups)\<lparr>pgr_Subpartitions := pgr_Subpartitions (last groups) @ [entry]\<rparr>]"

definition subpartition_methods :: "PartitioningResult \<Rightarrow> partitionRow \<Rightarrow> adapter_error + string \<times> string" where
  "subpartition_methods p row =
     (case mapPartitionMethod (prw_partitionMethod row) of
        None \<Rightarrow> Inl invalidStatisticsMetadata
      | Some method \<Rightarrow>
          if \<not> validSubpartitionParentMethod method then Inl invalidStatisticsMetadata
          else case mapPartitionMethod (prw_subpartitionMethod row) of
                 None \<Rightarrow> Inl invalidStatisticsMetadata
               | Some subMethod \<Rightarrow>
                   if \<not> validSubpartitionMethod subMethod then Inl invalidStatisticsMetadata
                   else if (pt_Method p \<noteq> [] \<and> pt_Method p \<noteq> method) \<or>
                           (pt_SubpartitionMethod p \<noteq> [] \<and> pt_SubpartitionMethod p \<noteq> subMethod)
                   then Inl invalidStatisticsMetadata else Inr (method, subMethod))"

definition make_subpartition ::
  "(nat \<Rightarrow> nat) \<Rightarrow> partition_state \<Rightarrow> nat \<Rightarrow> partitionRow \<Rightarrow> adapter_error + SubpartitionEntry \<times> string" where
  "make_subpartition simpleFold st groupSubpartitionCount row =
     bind_result (validatedMetadataName (prw_subpartitionName row)) (\<lambda>subName.
     case availableMetadataName simpleFold (pst_subpartitionNames st) subName of
       None \<Rightarrow> Inl invalidStatisticsMetadata
     | Some subKey \<Rightarrow>
         (case parseOrdinal (prw_subpartitionOrdinal row) of
            Inl _ \<Rightarrow> Inl invalidStatisticsMetadata
          | Inr subOrdinal \<Rightarrow>
              if subOrdinal \<noteq> int groupSubpartitionCount + 1 then Inl invalidStatisticsMetadata
              else bind_result (makePartitionStatistics row) (\<lambda>statistics.
                Inr (\<lparr>se_Name = subName, se_Ordinal = subOrdinal, se_Statistics = statistics\<rparr>, subKey))))"

text \<open>The size of a subpartition in its group, and its entry.\<close>

definition add_subpartition ::
  "int \<Rightarrow> int \<Rightarrow> partition_state \<Rightarrow> PartitioningResult \<Rightarrow> PartitionGroup \<Rightarrow> string option \<Rightarrow> nat \<Rightarrow> SubpartitionEntry \<Rightarrow> string
     \<Rightarrow> adapter_error + partition_state" where
  "add_subpartition envelope maxResultBytes st p grp newGroup groupSubpartitionCount entry subKey =
     (let budget = maxResultBytes - envelope; groups = pt_PartitionGroups p in
      or_too_large (if groups = [] then encodedPartitioningSize p budget else Some (pst_partitioningBytes st))
        (\<lambda>partitioningBytes.
      or_too_large
        (if newGroup = None then Some 0
         else map_option (\<lambda>n. if groups \<noteq> [] then n + 1 else n) (encodedPartitionGroupSize grp (budget - partitioningBytes)))
        (\<lambda>increment.
      or_too_large (encodedSubpartitionEntrySize entry (budget - partitioningBytes - increment)) (\<lambda>entryBytes.
      or_too_large
        (addEncodedSize partitioningBytes (increment + (if groupSubpartitionCount \<noteq> 0 then entryBytes + 1 else entryBytes)) budget)
        (\<lambda>total_bytes.
      let groups' = (if newGroup = None then groups else groups @ [grp]) in
      Inr (st\<lparr>pst_partitioning := p\<lparr>pt_PartitionGroups := append_subpartition groups' entry\<rparr>,
              pst_partitioningBytes := total_bytes, pst_resultBytes := envelope + total_bytes,
              pst_partitionNames := set_option newGroup \<union> pst_partitionNames st,
              pst_subpartitionNames := insert subKey (pst_subpartitionNames st)\<rparr>))))))"

definition subpartitioned_leaf ::
  "(nat \<Rightarrow> nat) \<Rightarrow> int \<Rightarrow> int \<Rightarrow> partition_state \<Rightarrow> partitionRow \<Rightarrow> adapter_error + partition_state" where
  "subpartitioned_leaf simpleFold envelope maxResultBytes st row =
     (if prw_partitionName row = None \<or> prw_partitionOrdinal row = None \<or> prw_partitionMethod row = None \<or>
         prw_subpartitionName row = None \<or> prw_subpartitionOrdinal row = None \<or> prw_subpartitionMethod row = None
      then Inl invalidStatisticsMetadata
      else
        bind_result (validatedMetadataName (prw_partitionName row)) (\<lambda>partitionName.
        bind_result (parseOrdinal (prw_partitionOrdinal row)) (\<lambda>partitionOrdinal.
        bind_result (subpartition_methods (pst_partitioning st) row) (\<lambda>(method, subMethod).
        bind_result (subpartition_group simpleFold st partitionName partitionOrdinal) (\<lambda>newGroup.
        let p = (pst_partitioning st)\<lparr>pt_Method := method, pt_SubpartitionMethod := subMethod\<rparr>;
            grp = \<lparr>pgr_Name = partitionName, pgr_Ordinal = partitionOrdinal, pgr_Subpartitions = []\<rparr>;
            groupSubpartitionCount = (if newGroup = None then length (pgr_Subpartitions (last (pt_PartitionGroups p))) else 0) in
        bind_result (make_subpartition simpleFold st groupSubpartitionCount row) (\<lambda>(entry, subKey).
        add_subpartition envelope maxResultBytes st p grp newGroup groupSubpartitionCount entry subKey))))))"

definition scan_partition :: "driver_error option \<Rightarrow> fetched \<Rightarrow> adapter_error + string option \<times> string option \<times> partitionRow" where
  "scan_partition ctxErr row =
     bind_result (map_error (execution_failure ctxErr) (scan_row 11 row)) (\<lambda>v.
       Inr (v ! 0, v ! 1, \<lparr>prw_partitionName = v ! 2, prw_partitionOrdinal = v ! 3, prw_partitionMethod = v ! 4,
         prw_subpartitionName = v ! 5, prw_subpartitionOrdinal = v ! 6, prw_subpartitionMethod = v ! 7,
         prw_estimatedRows = v ! 8, prw_dataBytes = v ! 9, prw_indexBytes = v ! 10\<rparr>))"

definition partition_leaf ::
  "(nat \<Rightarrow> nat) \<Rightarrow> int \<Rightarrow> int \<Rightarrow> partition_state \<Rightarrow> partitionRow \<Rightarrow> adapter_error + partition_state" where
  "partition_leaf simpleFold envelope maxResultBytes st row =
     (let kind = pt_Kind (pst_partitioning st) in
      if kind = ''none'' then none_leaf st row
      else if kind = ''partitioned'' then partitioned_leaf simpleFold envelope maxResultBytes st row
      else if kind = ''subpartitioned'' then subpartitioned_leaf simpleFold envelope maxResultBytes st row
      else Inl invalidStatisticsMetadata)"

definition partition_row ::
  "(nat \<Rightarrow> nat) \<Rightarrow> driver_error option \<Rightarrow> tableIdentity \<Rightarrow> bool \<Rightarrow> int \<Rightarrow> int \<Rightarrow> partition_state \<Rightarrow> fetched
     \<Rightarrow> adapter_error + partition_state" where
  "partition_row simpleFold ctxErr identity caseInsensitive envelope maxResultBytes st fetched_row =
     bind_result (scan_partition ctxErr fetched_row) (\<lambda>(actualSchema, actualName, row).
     or_too_large (boundedRawTotal (pst_rawTotal st) [actualSchema, actualName,
         prw_partitionName row, prw_partitionOrdinal row, prw_partitionMethod row,
         prw_subpartitionName row, prw_subpartitionOrdinal row, prw_subpartitionMethod row,
         prw_estimatedRows row, prw_dataBytes row, prw_indexBytes row]) (\<lambda>rawTotal.
     check (fail_if (\<not> tokenIdentifierMatches (raw_text actualSchema) (ti_schema identity) caseInsensitive \<or>
         \<not> tokenIdentifierMatches (raw_text actualName) (ti_name identity) caseInsensitive) metadataResourceMismatchError)
     (let leafCount = pst_leafCount st + 1 in
      check (fail_if (leafCount > maxPhysicalPartitionLeaves) too_large)
      (let p = pst_partitioning st;
           st' = st\<lparr>pst_rawTotal := rawTotal, pst_leafCount := leafCount,
                    pst_partitioning := if leafCount = 1 then p\<lparr>pt_Kind := leaf_kind row\<rparr> else p\<rparr> in
       partition_leaf simpleFold envelope maxResultBytes st' row))))"

fun partition_rows ::
  "(nat \<Rightarrow> nat) \<Rightarrow> driver_error option \<Rightarrow> tableIdentity \<Rightarrow> bool \<Rightarrow> int \<Rightarrow> int \<Rightarrow> partition_state \<Rightarrow> fetched list
     \<Rightarrow> adapter_error + partition_state" where
  "partition_rows simpleFold ctxErr identity caseInsensitive envelope maxResultBytes st [] = Inr st"
| "partition_rows simpleFold ctxErr identity caseInsensitive envelope maxResultBytes st (row # rows) =
     bind_result (partition_row simpleFold ctxErr identity caseInsensitive envelope maxResultBytes st row) (\<lambda>st'.
       partition_rows simpleFold ctxErr identity caseInsensitive envelope maxResultBytes st' rows)"

definition empty_partitioning :: PartitioningResult where
  "empty_partitioning = \<lparr>pt_Kind = [], pt_Method = [], pt_SubpartitionMethod = [], pt_Partitions = [], pt_PartitionGroups = []\<rparr>"

definition readPartitionStatistics ::
  "(nat \<Rightarrow> nat) \<Rightarrow> driver_error option \<Rightarrow> answer \<Rightarrow> tableIdentity \<Rightarrow> int \<Rightarrow> int \<Rightarrow> int \<Rightarrow> int
     \<Rightarrow> adapter_error + PartitioningResult \<times> int \<times> int \<times> int" where
  "readPartitionStatistics simpleFold ctxErr answered identity lowerCaseTableNames rawTotal resultBytes maxResultBytes =
     bind_result (map_error (query_failure ctxErr) answered) (\<lambda>rows.
     check (fail_if (resultBytes < nonePartitioningBytes) invalidStatisticsMetadata)
     (bind_result (partition_rows simpleFold ctxErr identity (lowerCaseTableNames \<noteq> 0) (resultBytes - nonePartitioningBytes)
         maxResultBytes
         \<lparr>pst_rawTotal = rawTotal, pst_partitioning = empty_partitioning, pst_partitioningBytes = nonePartitioningBytes,
          pst_resultBytes = resultBytes, pst_partitionNames = {}, pst_subpartitionNames = {}, pst_leafCount = 0\<rparr>
         (rw_rows rows)) (\<lambda>st.
      let p = pst_partitioning st in
      check (first_error [
        map_option (execution_failure ctxErr) (rw_err rows), map_option (execution_failure ctxErr) (rw_close rows),
        fail_if (pst_leafCount st = 0 \<or> (pt_Kind p = ''none'' \<and> pst_leafCount st \<noteq> 1)) invalidStatisticsMetadata])
      (if pt_Kind p = ''none'' then Inr (p, pst_resultBytes st, 0, 0)
       else Inr (p, pst_resultBytes st, int (length (pt_Partitions p)) + int (length (pt_PartitionGroups p)),
                 pst_leafCount st - int (length (pt_Partitions p)))))))"

section \<open>The table\<close>

text \<open>\<open>Next\<close>, \<open>Scan\<close>, \<open>Next\<close>, \<open>Err\<close>, \<open>Close\<close> on a query that must have exactly one row of the given width.\<close>

definition single_row :: "driver_error option \<Rightarrow> nat \<Rightarrow> answer \<Rightarrow> adapter_error + raw_row" where
  "single_row ctxErr width answered =
     bind_result (map_error (query_failure ctxErr) answered) (\<lambda>rows.
     case rw_rows rows of
       [] \<Rightarrow> (case rw_err rows of Some e \<Rightarrow> Inl (execution_failure ctxErr e) | None \<Rightarrow> Inl statisticsNotFoundError)
     | row # further \<Rightarrow>
         bind_result (map_error (execution_failure ctxErr) (scan_row width row)) (\<lambda>raw.
         check (first_error [
           fail_if (further \<noteq> []) metadataResourceMismatchError,
           map_option (execution_failure ctxErr) (rw_err rows), map_option (execution_failure ctxErr) (rw_close rows)])
         (Inr raw)))"

definition readInnoDBBaseTableIdentity ::
  "driver_error option \<Rightarrow> answer \<Rightarrow> AuthorizedObjectStatistics \<Rightarrow> int \<Rightarrow> adapter_error + tableIdentity \<times> int" where
  "readInnoDBBaseTableIdentity ctxErr answered authorized lowerCaseTableNames =
     (let caseInsensitive = (lowerCaseTableNames \<noteq> 0) in
      bind_result (single_row ctxErr 4 answered) (\<lambda>v.
      let actualSchema = raw_text (v ! 0); actualName = raw_text (v ! 1); tableType = raw_text (v ! 2); engine = raw_text (v ! 3) in
      check (first_error [
        fail_if (\<not> tokenIdentifierMatches actualSchema (os_schema authorized) caseInsensitive \<or>
          \<not> tokenIdentifierMatches actualName (os_object authorized) caseInsensitive) metadataResourceMismatchError,
        fail_if (tableType = ''VIEW'') (DatabaseError ErrorInvalid),
        fail_if (tableType \<noteq> ''BASE TABLE'' \<or> \<not> EqualFold engine ''InnoDB'') statisticsNotFoundError])
      (or_too_large (boundedRawTotal 0 v) (\<lambda>rawTotal.
       Inr (\<lparr>ti_schema = actualSchema, ti_name = actualName, ti_engine = ''InnoDB''\<rparr>, rawTotal)))))"

definition readTableStatistics ::
  "driver_error option \<Rightarrow> answer \<Rightarrow> tableIdentity \<Rightarrow> int \<Rightarrow> int \<Rightarrow> adapter_error + TableStatistics \<times> int" where
  "readTableStatistics ctxErr answered identity lowerCaseTableNames rawTotal =
     (let caseInsensitive = (lowerCaseTableNames \<noteq> 0) in
      bind_result (single_row ctxErr 8 answered) (\<lambda>v.
      check (fail_if (\<not> tokenIdentifierMatches (raw_text (v ! 0)) (ti_schema identity) caseInsensitive \<or>
          \<not> tokenIdentifierMatches (raw_text (v ! 1)) (ti_name identity) caseInsensitive \<or>
          raw_text (v ! 2) \<noteq> ''BASE TABLE'' \<or> \<not> EqualFold (raw_text (v ! 3)) ''InnoDB'') statisticsNotFoundError)
      (or_too_large (boundedRawTotal rawTotal v) (\<lambda>rawTotal'.
       bind_result (parseUnsignedMetric (v ! 4) True) (\<lambda>estimatedRows.
       bind_result (parseUnsignedMetric (v ! 5) True) (\<lambda>dataMetric.
       bind_result (parseUnsignedMetric (v ! 6) True) (\<lambda>indexMetric.
       bind_result (parseUnsignedMetric (v ! 7) False) (\<lambda>autoMetric.
       Inr (\<lparr>ts_EstimatedRows = estimatedRows, ts_DataBytes = dataMetric, ts_IndexBytes = indexMetric,
             ts_AutoIncrement = autoMetric\<rparr>, rawTotal')))))))))"

section \<open>The operation\<close>

definition AdapterMySQL8 :: string where
  "AdapterMySQL8 = ''mysql8''"

text \<open>\<^verbatim>\<open>Format(time.RFC3339Nano)\<close> of a time in UTC: up to nine digits of fraction without trailing zeros.\<close>

definition format_rfc3339nano :: "Time \<Rightarrow> string" where
  "format_rfc3339nano t =
     (let fraction = rev (dropWhile zero_char (rev (fixed_digits 9 (Nanosecond t)))) in
      format_date t @ ''T'' @ pad2 (Hour t) @ '':'' @ pad2 (Minute t) @ '':'' @ pad2 (Second t) @
      (if fraction = [] then [] else CHR ''.'' # fraction) @ ''Z'')"

text \<open>What the outside answers during one operation.\<close>

record statistics_run =
  sx_ctxErr :: "driver_error option"
  sx_conn :: "driver_error option"
  sx_contextDeadline :: "int option"
  sx_clock :: int
  sx_setDeadline :: "driver_error option"
  sx_server :: "driver_error + serverInfo"
  sx_identity :: answer
  sx_table :: answer
  sx_partitions :: answer
  sx_now :: Time
  sx_clearDeadline :: "driver_error option"

definition Adapter_DescribeObjectStatistics ::
  "(nat \<Rightarrow> nat) \<Rightarrow> statistics_run \<Rightarrow> AuthorizedObjectStatistics \<Rightarrow> int \<Rightarrow> adapter_error + ObjectStatisticsResult" where
  "Adapter_DescribeObjectStatistics simpleFold x authorized envelopeBaseBytes =
     (let ctxErr = sx_ctxErr x; maximum = MaxResultBytes (os_limits authorized) in
      check (first_error [
        fail_if (os_operation authorized \<noteq> OperationDescribeObjectStatistics \<or> os_adapter authorized \<noteq> AdapterMySQL8 \<or>
          os_semanticsGeneration authorized = [] \<or> envelopeBaseBytes < 0 \<or> envelopeBaseBytes > maximum)
          (DatabaseError ErrorUpstream),
        map_option (execution_failure ctxErr) (sx_conn x)])
      (bind_result (map_error (execution_failure ctxErr)
          (bindConnectionDeadline (sx_contextDeadline x) (sx_clock x) (sx_setDeadline x) (DeadlineMS (os_limits authorized)))) (\<lambda>_.
       bind_result (readServerInfo ctxErr (sx_server x)) (\<lambda>info.
       bind_result (semanticsForLowerCaseTableNames (si_lowerCaseTableNames info)) (\<lambda>semantics.
       check (fail_if (semantics \<noteq> os_semantics authorized) metadataResourceMismatchError)
       (bind_result (readInnoDBBaseTableIdentity ctxErr (sx_identity x) authorized (si_lowerCaseTableNames info)) (\<lambda>(identity, rawBytes).
       bind_result (readTableStatistics ctxErr (sx_table x) identity (si_lowerCaseTableNames info) rawBytes) (\<lambda>(table, rawBytes').
       bind_result (addTableStatisticsSize envelopeBaseBytes table maximum) (\<lambda>resultBytes.
       bind_result (readPartitionStatistics simpleFold ctxErr (sx_partitions x) identity (si_lowerCaseTableNames info)
           rawBytes' resultBytes maximum) (\<lambda>(partitioning, resultBytes', partitionCount, subpartitionCount).
       let observedAt = format_rfc3339nano (sx_now x) in
       or_too_large (addEncodedSize resultBytes' (int (length observedAt) - 20) maximum) (\<lambda>resultBytes''.
       check (map_option (execution_failure ctxErr) (sx_clearDeadline x))
       (Inr \<lparr>osr_ObservedAt = observedAt, osr_Engine = ''InnoDB'', osr_Table = table, osr_Partitioning = partitioning,
             osr_ResultBytes = resultBytes'', osr_PartitionCount = partitionCount,
             osr_SubpartitionCount = subpartitionCount\<rparr>))))))))))))"

end
