(* ===== verification/Statistics_Rows.thy ===== *)
theory Statistics_Rows
  imports Table_Statistics
begin

text \<open>
  What \<open>Table_Statistics\<close> builds: the sizes are exact, and the rows of \<open>information_schema.partitions\<close> become a
  partitioning with consecutive ordinals, valid names that differ under case folding, and canonical metrics.
\<close>

section \<open>Metrics\<close>

definition metric_ok :: "bool \<Rightarrow> UnsignedMetric option \<Rightarrow> bool" where
  "metric_ok estimated m \<longleftrightarrow>
     (\<forall>u \<in> set_option m. um_Estimated u = estimated \<and> um_Value u \<noteq> [] \<and> length (um_Value u) \<le> 20 \<and>
        \<not> (length (um_Value u) > 1 \<and> hd (um_Value u) = CHR ''0'') \<and> list_all is_digit (um_Value u) \<and>
        parse_uint 64 (um_Value u) \<noteq> None)"

definition statistics_ok :: "PartitionStatistics \<Rightarrow> bool" where
  "statistics_ok p \<longleftrightarrow>
     metric_ok True (ps_EstimatedRows p) \<and> metric_ok True (ps_DataBytes p) \<and> metric_ok True (ps_IndexBytes p)"

definition table_ok :: "TableStatistics \<Rightarrow> bool" where
  "table_ok t \<longleftrightarrow> metric_ok True (ts_EstimatedRows t) \<and> metric_ok True (ts_DataBytes t) \<and> metric_ok True (ts_IndexBytes t) \<and>
     metric_ok False (ts_AutoIncrement t)"

lemma parseUnsignedMetric_ok: "parseUnsignedMetric raw estimated = Inr m \<Longrightarrow> metric_ok estimated m"
  by (auto simp: parseUnsignedMetric_def metric_ok_def split: option.splits if_splits)

lemma makePartitionStatistics_ok: "makePartitionStatistics row = Inr p \<Longrightarrow> statistics_ok p"
  by (auto simp: makePartitionStatistics_def statistics_ok_def dest: parseUnsignedMetric_ok)

lemma digits_are_words: "list_all is_digit s \<Longrightarrow> list_all is_word s"
  by (auto simp: list_all_iff is_word_def)

lemma length_go_Quote_word: "list_all is_word s \<Longrightarrow> length (go_Quote s) = length s + 2"
proof -
  have "quote_ascii c = [c]" if "is_word c" for c
    using that plain_word [OF that]
    by (auto simp: quote_ascii_def is_word_def is_word_start_def is_upper_def is_lower_def is_digit_def plain_char_not)
  then have "list_all is_word s \<Longrightarrow> concat (map quote_ascii s) = s" by (induction s) auto
  then show "list_all is_word s \<Longrightarrow> length (go_Quote s) = length s + 2" by (simp add: go_Quote_def)
qed

lemma statistics_names: "list_all (list_all is_word) [''value'', ''estimated'', ''estimated_rows'', ''data_bytes'', ''index_bytes'',
    ''auto_increment'', ''ordinal'', ''statistics'', ''subpartitions'', ''kind'', ''method'', ''partitions'',
    ''subpartition_method'', ''none'', ''partitioned'', ''subpartitioned'']"
  by code_simp

lemmas length_statistics_names [simp] =
  length_json_quote_word [of "''value''"] length_json_quote_word [of "''estimated''"]
  length_json_quote_word [of "''estimated_rows''"] length_json_quote_word [of "''data_bytes''"]
  length_json_quote_word [of "''index_bytes''"] length_json_quote_word [of "''auto_increment''"]
  length_json_quote_word [of "''ordinal''"] length_json_quote_word [of "''statistics''"]
  length_json_quote_word [of "''subpartitions''"] length_json_quote_word [of "''kind''"]
  length_json_quote_word [of "''method''"] length_json_quote_word [of "''partitions''"]
  length_json_quote_word [of "''subpartition_method''"] length_json_quote_word [of "''none''"]
  length_json_quote_word [of "''partitioned''"] length_json_quote_word [of "''subpartitioned''"]

lemma length_marshal_metric:
  assumes "metric_ok estimated m"
  shows "length (marshal_metric m) =
    (case m of None \<Rightarrow> 4 | Some u \<Rightarrow> 23 + length (go_Quote (um_Value u)) + (if estimated then 4 else 5))"
  using assms statistics_names
  by (cases m) (auto simp: marshal_metric_def metric_ok_def json_object_def comma_separated_def json_bool_def
      length_json_quote_word length_go_Quote_word digits_are_words)

lemma table_size_loop_exact:
  "table_size_loop current ms maximum = Inr n \<Longrightarrow> list_all2 metric_ok flags ms \<Longrightarrow>
     n = current + (\<Sum>m \<leftarrow> ms. int (length (marshal_metric m)) - 4) \<and> (current \<le> maximum \<longrightarrow> n \<le> maximum)"
proof (induction current ms maximum arbitrary: flags rule: table_size_loop.induct)
  case (2 current ms maximum)
  then show ?case by (auto simp: list_all2_Cons2 length_marshal_metric)
next
  case (3 current metric ms maximum)
  from 3(3) obtain f fs where f: "metric_ok f (Some metric)" "list_all2 metric_ok fs ms" by (auto simp: list_all2_Cons2)
  have "table_metric_size metric = int (length (marshal_metric (Some metric)))"
    using length_marshal_metric [OF f(1)] f(1) by (auto simp: table_metric_size_def metric_ok_def)
  with 3 f(2) show ?case by (fastforce simp: addEncodedSize_def split: option.splits if_splits)
qed simp

text \<open>The table without metrics, which the envelope counts.\<close>

definition null_table :: TableStatistics where
  "null_table = \<lparr>ts_EstimatedRows = None, ts_DataBytes = None, ts_IndexBytes = None, ts_AutoIncrement = None\<rparr>"

lemma addTableStatisticsSize_exact:
  assumes "addTableStatisticsSize current t maximum = Inr n" "table_ok t" "current \<le> maximum"
  shows "n = current + int (length (marshal_TableStatistics t)) - int (length (marshal_TableStatistics null_table)) \<and> n \<le> maximum"
proof -
  have "list_all2 metric_ok [True, True, True, False] [ts_EstimatedRows t, ts_DataBytes t, ts_IndexBytes t, ts_AutoIncrement t]"
    using assms(2) by (simp add: table_ok_def)
  from table_size_loop_exact [OF assms(1) [unfolded addTableStatisticsSize_def] this] assms(3) show ?thesis
    by (simp add: marshal_TableStatistics_def null_table_def json_object_def comma_separated_def marshal_metric_def)
qed

lemma partition_metrics_loop_exact:
  "list_all (metric_ok True) ms \<Longrightarrow> 0 \<le> current \<Longrightarrow> current \<le> maximum \<Longrightarrow>
     partition_metrics_loop current ms maximum = fitting (current + (\<Sum>m \<leftarrow> ms. int (length (marshal_metric m)))) maximum"
proof (induction current ms maximum rule: partition_metrics_loop.induct)
  case (2 current m ms maximum)
  have "0 \<le> (\<Sum>m \<leftarrow> ms. int (length (marshal_metric m)))" by (rule sum_list_nonneg) auto
  moreover have "partition_metric_size m = int (length (marshal_metric m))"
    using 2(2) length_marshal_metric [of True m] by (auto simp: partition_metric_size_def split: option.splits)
  ultimately show ?case using 2 by (auto simp: addEncodedSize_def fitting_def)
qed (simp add: fitting_def)

section \<open>Counters\<close>

interpretation statistics_counter: byte_counter encodedPartitionStatisticsSize marshal_PartitionStatistics statistics_ok
proof (unfold_locales, goal_cases)
  case (1 x budget)
  have "length (marshal_PartitionStatistics x) =
      48 + length (marshal_metric (ps_EstimatedRows x)) + length (marshal_metric (ps_DataBytes x)) + length (marshal_metric (ps_IndexBytes x))"
    using statistics_names by (simp add: marshal_PartitionStatistics_def json_object_def comma_separated_def)
  with 1 show ?case
    by (auto simp: encodedPartitionStatisticsSize_def partition_metrics_loop_exact statistics_ok_def fitting_def
        simp del: partition_metrics_loop.simps)
qed

interpretation entry_counter: byte_counter encodedPartitionEntrySize marshal_PartitionEntry "\<lambda>e. statistics_ok (pe_Statistics e)"
proof (unfold_locales, goal_cases)
  case (1 x budget)
  have "length (marshal_PartitionEntry x) =
      34 + length (itoa_int (pe_Ordinal x)) + length (json_quote (pe_Name x)) + length (marshal_PartitionStatistics (pe_Statistics x))"
    using statistics_names by (simp add: marshal_PartitionEntry_def json_object_def comma_separated_def)
  with 1 show ?case
    by (auto simp: encodedPartitionEntrySize_def Let_def metadata_counter.exact statistics_counter.exact addEncodedSize_def fitting_def)
qed

definition as_partition :: "SubpartitionEntry \<Rightarrow> PartitionEntry" where
  "as_partition e = \<lparr>pe_Name = se_Name e, pe_Ordinal = se_Ordinal e, pe_Statistics = se_Statistics e\<rparr>"

interpretation subentry_counter: byte_counter encodedSubpartitionEntrySize marshal_SubpartitionEntry "\<lambda>e. statistics_ok (se_Statistics e)"
proof (unfold_locales, goal_cases)
  case (1 x budget)
  then show ?case
    using entry_counter.exact [of "as_partition x" budget]
    by (simp add: encodedSubpartitionEntrySize_def as_partition_def marshal_PartitionEntry_def marshal_SubpartitionEntry_def)
qed

lemma length_comma_snoc:
  "length (comma_separated (xs @ [x])) = length (comma_separated xs) + (if xs = [] then 0 else 1) + length x"
  by (cases xs) (simp_all add: comma_separated_def length_join_comma)

context byte_counter
begin

lemma elements_exact:
  assumes "\<forall>x \<in> set xs. countable x" "0 \<le> current" "current \<le> maximum"
  shows "elements_size count index current xs maximum =
    fitting (current + (if xs \<noteq> [] \<and> index \<noteq> 0 then 1 else 0) + int (length (comma_separated (map encoding xs)))) maximum"
  using assms
proof (induction xs arbitrary: index current)
  case Nil
  then show ?case by (simp add: fitting_def comma_separated_def)
next
  case (Cons x xs)
  have "int (length (comma_separated (map encoding (x # xs)))) =
      int (length (encoding x)) + (if xs \<noteq> [] then 1 else 0) + int (length (comma_separated (map encoding xs)))"
    by (cases xs) (simp_all add: comma_separated_def length_join_comma)
  moreover have "comma_separated [] = []" by (simp add: comma_separated_def)
  ultimately show ?case using Cons by (auto simp: exact addEncodedSize_def fitting_def)
qed

end

interpretation group_counter: byte_counter encodedPartitionGroupSize marshal_PartitionGroup
  "\<lambda>g. \<forall>e \<in> set (pgr_Subpartitions g). statistics_ok (se_Statistics e)"
proof (unfold_locales, goal_cases)
  case (1 x budget)
  have "length (marshal_PartitionGroup x) = 39 + length (itoa_int (pgr_Ordinal x)) + length (json_quote (pgr_Name x)) +
      length (comma_separated (map marshal_SubpartitionEntry (pgr_Subpartitions x)))"
    using statistics_names by (simp add: marshal_PartitionGroup_def json_object_def json_array_def comma_separated_def)
  with 1 show ?case
    by (auto simp: encodedPartitionGroupSize_def Let_def metadata_counter.exact subentry_counter.elements_exact fitting_def)
qed

definition partitioning_countable :: "PartitioningResult \<Rightarrow> bool" where
  "partitioning_countable p \<longleftrightarrow>
     pt_Kind p \<in> {''none'', ''partitioned'', ''subpartitioned''} \<and>
     list_all is_word (pt_Method p) \<and> list_all is_word (pt_SubpartitionMethod p) \<and>
     (\<forall>e \<in> set (pt_Partitions p). statistics_ok (pe_Statistics e)) \<and>
     (\<forall>g \<in> set (pt_PartitionGroups p). \<forall>e \<in> set (pgr_Subpartitions g). statistics_ok (se_Statistics e))"

definition partitioning_text :: "PartitioningResult \<Rightarrow> string" where
  "partitioning_text p = the (PartitioningResult_MarshalJSON p)"

lemma length_partitioning_text:
  "pt_Kind p = ''none'' \<Longrightarrow> length (partitioning_text p) = 15"
  "pt_Kind p = ''partitioned'' \<Longrightarrow> list_all is_word (pt_Method p) \<Longrightarrow> length (partitioning_text p) =
     48 + length (go_Quote (pt_Method p)) + length (comma_separated (map marshal_PartitionEntry (pt_Partitions p)))"
  "pt_Kind p = ''subpartitioned'' \<Longrightarrow> list_all is_word (pt_Method p) \<Longrightarrow> list_all is_word (pt_SubpartitionMethod p) \<Longrightarrow>
     length (partitioning_text p) = 74 + length (go_Quote (pt_Method p)) + length (go_Quote (pt_SubpartitionMethod p)) +
       length (comma_separated (map marshal_PartitionGroup (pt_PartitionGroups p)))"
  using statistics_names
  by (simp_all add: partitioning_text_def PartitioningResult_MarshalJSON_def json_object_def json_array_def comma_separated_def
      length_json_quote_word length_go_Quote_word)

interpretation partitioning_counter: byte_counter encodedPartitioningSize partitioning_text partitioning_countable
proof (unfold_locales, goal_cases)
  case (1 p budget)
  then show ?case
    by (auto simp: partitioning_countable_def encodedPartitioningSize_def Let_def length_partitioning_text
        entry_counter.elements_exact group_counter.elements_exact addEncodedSize_def fitting_def)
qed

section \<open>Partitions\<close>

definition name_ok :: "string \<Rightarrow> bool" where
  "name_ok s \<longleftrightarrow> validatedMetadataName (Some s) = Inr s"

definition counted_from_one :: "int list \<Rightarrow> bool" where
  "counted_from_one ns \<longleftrightarrow> ns = map int [1..<Suc (length ns)]"

lemma counted_from_one_Nil [simp]: "counted_from_one []"
  by (simp add: counted_from_one_def)

lemma counted_from_one_snoc [simp]: "counted_from_one (ns @ [n]) \<longleftrightarrow> counted_from_one ns \<and> n = int (length ns) + 1"
  by (auto simp: counted_from_one_def)

lemma counted_from_one_nth:
  assumes "counted_from_one ns" "i < length ns"
  shows "ns ! i = int i + 1"
proof -
  have "map int [1..<Suc (length ns)] ! i = int i + 1" using assms(2) by (simp del: upt_Suc)
  then show ?thesis using assms(1) by (simp only: counted_from_one_def)
qed

definition entries_ok :: "(nat \<Rightarrow> nat) \<Rightarrow> PartitionEntry list \<Rightarrow> bool" where
  "entries_ok simpleFold es \<longleftrightarrow>
     counted_from_one (map pe_Ordinal es) \<and> (\<forall>e \<in> set es. name_ok (pe_Name e) \<and> statistics_ok (pe_Statistics e)) \<and>
     distinct (map (canonicalMetadataName simpleFold \<circ> pe_Name) es)"

definition group_ok :: "PartitionGroup \<Rightarrow> bool" where
  "group_ok g \<longleftrightarrow>
     name_ok (pgr_Name g) \<and> pgr_Subpartitions g \<noteq> [] \<and> counted_from_one (map se_Ordinal (pgr_Subpartitions g)) \<and>
     (\<forall>e \<in> set (pgr_Subpartitions g). name_ok (se_Name e) \<and> statistics_ok (se_Statistics e))"

definition subpartitions_of :: "PartitionGroup list \<Rightarrow> SubpartitionEntry list" where
  "subpartitions_of gs = concat (map pgr_Subpartitions gs)"

definition groups_ok :: "(nat \<Rightarrow> nat) \<Rightarrow> PartitionGroup list \<Rightarrow> bool" where
  "groups_ok simpleFold gs \<longleftrightarrow>
     counted_from_one (map pgr_Ordinal gs) \<and> (\<forall>g \<in> set gs. group_ok g) \<and>
     distinct (map (canonicalMetadataName simpleFold \<circ> pgr_Name) gs) \<and>
     distinct (map (canonicalMetadataName simpleFold \<circ> se_Name) (subpartitions_of gs))"

text \<open>The size of the partitioning is counted as soon as it has a row.\<close>

definition bytes_inv :: "int \<Rightarrow> int \<Rightarrow> partition_state \<Rightarrow> bool" where
  "bytes_inv envelope maximum st \<longleftrightarrow>
     pst_partitioningBytes st = int (length (partitioning_text (pst_partitioning st))) \<and>
     pst_resultBytes st = envelope + pst_partitioningBytes st \<and> pst_resultBytes st \<le> maximum"

definition partitioned_inv :: "(nat \<Rightarrow> nat) \<Rightarrow> int \<Rightarrow> int \<Rightarrow> nat \<Rightarrow> partition_state \<Rightarrow> bool" where
  "partitioned_inv simpleFold envelope maximum n st \<longleftrightarrow>
     (let p = pst_partitioning st in
      pt_Kind p = ''partitioned'' \<and> pt_SubpartitionMethod p = [] \<and> pt_PartitionGroups p = [] \<and> length (pt_Partitions p) = n \<and>
      entries_ok simpleFold (pt_Partitions p) \<and>
      pst_partitionNames st = (canonicalMetadataName simpleFold \<circ> pe_Name) ` set (pt_Partitions p) \<and>
      (if n = 0 then pt_Method p = [] else validTopPartitionMethod (pt_Method p) \<and> bytes_inv envelope maximum st))"

definition subpartitioned_inv :: "(nat \<Rightarrow> nat) \<Rightarrow> int \<Rightarrow> int \<Rightarrow> nat \<Rightarrow> partition_state \<Rightarrow> bool" where
  "subpartitioned_inv simpleFold envelope maximum n st \<longleftrightarrow>
     (let p = pst_partitioning st in
      pt_Kind p = ''subpartitioned'' \<and> pt_Partitions p = [] \<and> length (subpartitions_of (pt_PartitionGroups p)) = n \<and>
      groups_ok simpleFold (pt_PartitionGroups p) \<and>
      pst_partitionNames st = (canonicalMetadataName simpleFold \<circ> pgr_Name) ` set (pt_PartitionGroups p) \<and>
      pst_subpartitionNames st = (canonicalMetadataName simpleFold \<circ> se_Name) ` set (subpartitions_of (pt_PartitionGroups p)) \<and>
      (if n = 0 then pt_PartitionGroups p = [] \<and> pt_Method p = [] \<and> pt_SubpartitionMethod p = []
       else validSubpartitionParentMethod (pt_Method p) \<and> validSubpartitionMethod (pt_SubpartitionMethod p) \<and>
         bytes_inv envelope maximum st))"

lemma or_too_large_Inr [simp]: "or_too_large n k = Inr r \<longleftrightarrow> (\<exists>v. n = Some v \<and> k v = Inr r)"
  by (auto simp: or_too_large_def split: option.splits)

lemma if_Inl_Inr: "(if c then Inl e else x) = Inr r \<longleftrightarrow> \<not> c \<and> x = Inr r"
  by simp

lemma method_words:
  "validTopPartitionMethod m \<Longrightarrow> list_all is_word m \<and> m \<noteq> []"
  "validSubpartitionParentMethod m \<Longrightarrow> list_all is_word m \<and> m \<noteq> []"
  "validSubpartitionMethod m \<Longrightarrow> list_all is_word m \<and> m \<noteq> []"
proof -
  have "list_all (\<lambda>m. list_all is_word m \<and> m \<noteq> []) [''hash'', ''linear_hash'', ''key'', ''linear_key'',
     ''range'', ''range_columns'', ''list'', ''list_columns'']" by code_simp
  then show "validTopPartitionMethod m \<Longrightarrow> list_all is_word m \<and> m \<noteq> []"
    "validSubpartitionParentMethod m \<Longrightarrow> list_all is_word m \<and> m \<noteq> []"
    "validSubpartitionMethod m \<Longrightarrow> list_all is_word m \<and> m \<noteq> []"
    by (auto simp: validTopPartitionMethod_def validSubpartitionParentMethod_def validSubpartitionMethod_def)
qed

lemma makePartitionEntry_Inr:
  "makePartitionEntry row = Inr (entry, meth) \<Longrightarrow> name_ok (pe_Name entry) \<and> statistics_ok (pe_Statistics entry)"
  by (auto simp: makePartitionEntry_def name_ok_def validatedMetadataName_def raw_text_def Let_def
      dest!: makePartitionStatistics_ok split: option.splits if_splits)

lemma availableMetadataName_Some:
  "availableMetadataName simpleFold names name = Some key \<longleftrightarrow> key = canonicalMetadataName simpleFold name \<and> key \<notin> names"
  by (auto simp: availableMetadataName_def Let_def)

lemma partitioned_leaf_inv:
  assumes inv: "partitioned_inv simpleFold envelope maximum n st"
    and step: "partitioned_leaf simpleFold envelope maximum st row = Inr st'"
  shows "partitioned_inv simpleFold envelope maximum (Suc n) st' \<and> pst_leafCount st' = pst_leafCount st"
proof -
  define p where "p = pst_partitioning st"
  from step obtain entry meth key size0 size1 size2 where
      entry: "makePartitionEntry row = Inr (entry, meth)" and
      key: "availableMetadataName simpleFold (pst_partitionNames st) (pe_Name entry) = Some key" and
      meth: "validTopPartitionMethod meth" "pt_Method p = [] \<or> pt_Method p = meth" and
      ordinal: "pe_Ordinal entry = int (length (pt_Partitions p)) + 1" and
      size0: "(if pt_Partitions p = [] then encodedPartitioningSize (p\<lparr>pt_Method := meth\<rparr>) (maximum - envelope)
        else Some (pst_partitioningBytes st)) = Some size0" and
      size1: "encodedPartitionEntrySize entry (maximum - envelope - size0) = Some size1" and
      size2: "addEncodedSize size0 (if pt_Partitions p \<noteq> [] then size1 + 1 else size1) (maximum - envelope) = Some size2" and
      st': "st' = st\<lparr>pst_partitioning := p\<lparr>pt_Method := meth, pt_Partitions := pt_Partitions p @ [entry]\<rparr>,
        pst_partitioningBytes := size2, pst_resultBytes := envelope + size2,
        pst_partitionNames := insert key (pst_partitionNames st)\<rparr>"
    by (auto simp: partitioned_leaf_def Let_def p_def split: if_splits option.splits)
  have ok: "name_ok (pe_Name entry)" "statistics_ok (pe_Statistics entry)" using makePartitionEntry_Inr [OF entry] by auto
  note inv' = inv [unfolded partitioned_inv_def Let_def, folded p_def]
  have s0: "size0 = int (length (partitioning_text (p\<lparr>pt_Method := meth\<rparr>)))"
  proof (cases "pt_Partitions p = []")
    case True
    then have "partitioning_countable (p\<lparr>pt_Method := meth\<rparr>)"
      using inv' method_words(1) [OF meth(1)] by (auto simp: partitioning_countable_def)
    from partitioning_counter.exact [OF this] size0 True show ?thesis by simp
  next
    case False
    then have "0 < n" using inv' by auto
    then have "pt_Method p = meth" using inv' meth method_words(1) by auto
    then have "p\<lparr>pt_Method := meth\<rparr> = p" by simp
    then show ?thesis using size0 False inv' \<open>0 < n\<close> by (simp add: bytes_inv_def p_def)
  qed
  have s1: "size1 = int (length (marshal_PartitionEntry entry))" using size1 ok entry_counter.exact by simp
  have "size2 = int (length (partitioning_text (p\<lparr>pt_Method := meth, pt_Partitions := pt_Partitions p @ [entry]\<rparr>)))"
    using s0 s1 size2 inv' method_words(1) [OF meth(1)]
    by (auto simp: addEncodedSize_def length_partitioning_text length_comma_snoc split: if_splits)
  moreover have "size2 \<le> maximum - envelope" using size2 by (auto simp: addEncodedSize_def split: if_splits)
  ultimately have "bytes_inv envelope maximum st'" by (simp add: bytes_inv_def st')
  moreover have "entries_ok simpleFold (pt_Partitions p @ [entry])"
    using inv' ok ordinal key by (auto simp: entries_ok_def availableMetadataName_Some)
  ultimately show ?thesis
    using inv' meth(1) key by (auto simp: partitioned_inv_def st' availableMetadataName_Some)
qed

lemma subpartition_group_Inr:
  assumes "subpartition_group simpleFold st name ordinal = Inr newGroup"
  shows "case newGroup of
      Some key \<Rightarrow> key = canonicalMetadataName simpleFold name \<and> key \<notin> pst_partitionNames st \<and>
        ordinal = int (length (pt_PartitionGroups (pst_partitioning st))) + 1
    | None \<Rightarrow> pt_PartitionGroups (pst_partitioning st) \<noteq> []"
  using assms by (auto simp: subpartition_group_def Let_def availableMetadataName_Some split: if_splits option.splits)

lemma make_subpartition_Inr:
  assumes "make_subpartition simpleFold st k row = Inr (entry, key)"
  shows "name_ok (se_Name entry) \<and> statistics_ok (se_Statistics entry) \<and> se_Ordinal entry = int k + 1 \<and>
    key = canonicalMetadataName simpleFold (se_Name entry) \<and> key \<notin> pst_subpartitionNames st"
  using assms
  by (auto simp: make_subpartition_def availableMetadataName_Some name_ok_def validatedMetadataName_def raw_text_def Let_def
      dest!: makePartitionStatistics_ok split: option.splits if_splits sum.splits)

lemma subpartition_methods_Inr:
  "subpartition_methods p row = Inr (meth, subMethod) \<Longrightarrow>
     validSubpartitionParentMethod meth \<and> validSubpartitionMethod subMethod \<and>
     (pt_Method p = [] \<or> pt_Method p = meth) \<and> (pt_SubpartitionMethod p = [] \<or> pt_SubpartitionMethod p = subMethod)"
  by (auto simp: subpartition_methods_def split: option.splits if_splits)

lemma length_group_snoc:
  "length (marshal_PartitionGroup (g\<lparr>pgr_Subpartitions := pgr_Subpartitions g @ [e]\<rparr>)) =
     length (marshal_PartitionGroup g) + (if pgr_Subpartitions g = [] then 0 else 1) + length (marshal_SubpartitionEntry e)"
  by (simp add: marshal_PartitionGroup_def json_object_def json_array_def length_comma_snoc)
    (simp add: comma_separated_def length_join_comma length_comma_snoc [unfolded comma_separated_def])

lemma subpartitions_of_simps [simp]:
  "subpartitions_of [] = []" "subpartitions_of (gs @ [g]) = subpartitions_of gs @ pgr_Subpartitions g"
  by (simp_all add: subpartitions_of_def)

text \<open>The groups before a row, with a new empty one if the row opens it; the row goes into the last of them.\<close>

definition open_groups :: "(nat \<Rightarrow> nat) \<Rightarrow> PartitionGroup list \<Rightarrow> bool" where
  "open_groups simpleFold gs \<longleftrightarrow>
     gs \<noteq> [] \<and> counted_from_one (map pgr_Ordinal gs) \<and> (\<forall>g \<in> set (butlast gs). group_ok g) \<and> name_ok (pgr_Name (last gs)) \<and>
     counted_from_one (map se_Ordinal (pgr_Subpartitions (last gs))) \<and>
     (\<forall>e \<in> set (pgr_Subpartitions (last gs)). name_ok (se_Name e) \<and> statistics_ok (se_Statistics e)) \<and>
     distinct (map (canonicalMetadataName simpleFold \<circ> pgr_Name) gs) \<and>
     distinct (map (canonicalMetadataName simpleFold \<circ> se_Name) (subpartitions_of gs))"

lemma groups_ok_open: "groups_ok simpleFold gs \<Longrightarrow> gs \<noteq> [] \<Longrightarrow> open_groups simpleFold gs"
  by (auto simp: groups_ok_def open_groups_def group_ok_def dest: in_set_butlastD)

lemma groups_ok_open_new:
  assumes "groups_ok simpleFold gs" "name_ok (pgr_Name g)" "pgr_Subpartitions g = []" "pgr_Ordinal g = int (length gs) + 1"
    "canonicalMetadataName simpleFold (pgr_Name g) \<notin> (canonicalMetadataName simpleFold \<circ> pgr_Name) ` set gs"
  shows "open_groups simpleFold (gs @ [g])"
  using assms by (auto simp: groups_ok_def open_groups_def)

lemma append_subpartition_ok:
  assumes "open_groups simpleFold gs" "name_ok (se_Name e)" "statistics_ok (se_Statistics e)"
    "se_Ordinal e = int (length (pgr_Subpartitions (last gs))) + 1"
    "canonicalMetadataName simpleFold (se_Name e) \<notin> (canonicalMetadataName simpleFold \<circ> se_Name) ` set (subpartitions_of gs)"
  shows "groups_ok simpleFold (append_subpartition gs e)"
    and "subpartitions_of (append_subpartition gs e) = subpartitions_of gs @ [e]"
    and "map pgr_Name (append_subpartition gs e) = map pgr_Name gs"
    and "int (length (comma_separated (map marshal_PartitionGroup (append_subpartition gs e)))) =
      int (length (comma_separated (map marshal_PartitionGroup gs))) + (if pgr_Subpartitions (last gs) = [] then 0 else 1) +
      int (length (marshal_SubpartitionEntry e))"
proof -
  obtain hs g where gs: "gs = hs @ [g]" using assms(1) by (metis open_groups_def append_butlast_last_id)
  show "groups_ok simpleFold (append_subpartition gs e)" "subpartitions_of (append_subpartition gs e) = subpartitions_of gs @ [e]"
    "map pgr_Name (append_subpartition gs e) = map pgr_Name gs"
    "int (length (comma_separated (map marshal_PartitionGroup (append_subpartition gs e)))) =
      int (length (comma_separated (map marshal_PartitionGroup gs))) + (if pgr_Subpartitions (last gs) = [] then 0 else 1) +
      int (length (marshal_SubpartitionEntry e))"
    using assms unfolding gs
    by (auto simp: open_groups_def append_subpartition_def groups_ok_def group_ok_def length_comma_snoc length_group_snoc)
qed

lemma add_subpartition_bytes:
  assumes add: "add_subpartition envelope maximum st p grp newGroup k entry subKey = Inr st'"
    and p: "pt_Kind p = ''subpartitioned''" "list_all is_word (pt_Method p)" "list_all is_word (pt_SubpartitionMethod p)"
      "pt_PartitionGroups p = [] \<longrightarrow> pt_Partitions p = []"
    and before: "pt_PartitionGroups p \<noteq> [] \<longrightarrow> pst_partitioningBytes st = int (length (partitioning_text p))"
    and grp: "pgr_Subpartitions grp = []" "newGroup = None \<longrightarrow> pt_PartitionGroups p \<noteq> []"
    and k: "k = length (pgr_Subpartitions (last gs))"
    and gs: "gs = (if newGroup = None then pt_PartitionGroups p else pt_PartitionGroups p @ [grp])"
    and entry: "open_groups simpleFold gs" "name_ok (se_Name entry)" "statistics_ok (se_Statistics entry)"
      "se_Ordinal entry = int k + 1"
      "canonicalMetadataName simpleFold (se_Name entry) \<notin> (canonicalMetadataName simpleFold \<circ> se_Name) ` set (subpartitions_of gs)"
  shows "st' = st\<lparr>pst_partitioning := p\<lparr>pt_PartitionGroups := append_subpartition gs entry\<rparr>,
      pst_partitioningBytes := pst_partitioningBytes st', pst_resultBytes := envelope + pst_partitioningBytes st',
      pst_partitionNames := set_option newGroup \<union> pst_partitionNames st,
      pst_subpartitionNames := insert subKey (pst_subpartitionNames st)\<rparr>"
    and "bytes_inv envelope maximum st'"
proof -
  let ?b = "maximum - envelope"
  have "\<exists>size0 increment size1 size2.
      (if pt_PartitionGroups p = [] then encodedPartitioningSize p ?b else Some (pst_partitioningBytes st)) = Some size0 \<and>
      (if newGroup = None then Some 0 else map_option (\<lambda>n. if pt_PartitionGroups p \<noteq> [] then n + 1 else n)
          (encodedPartitionGroupSize grp (?b - size0))) = Some increment \<and>
      encodedSubpartitionEntrySize entry (?b - size0 - increment) = Some size1 \<and>
      addEncodedSize size0 (increment + (if k \<noteq> 0 then size1 + 1 else size1)) ?b = Some size2 \<and>
      st' = st\<lparr>pst_partitioning := p\<lparr>pt_PartitionGroups := append_subpartition gs entry\<rparr>,
        pst_partitioningBytes := size2, pst_resultBytes := envelope + size2,
        pst_partitionNames := set_option newGroup \<union> pst_partitionNames st,
        pst_subpartitionNames := insert subKey (pst_subpartitionNames st)\<rparr>"
    using add unfolding add_subpartition_def Let_def or_too_large_Inr gs [symmetric]
    by (elim exE conjE, intro exI conjI) (assumption | drule sum.inject(2) [THEN iffD1], erule sym)+
  then obtain size0 increment size1 size2 where
      size0: "(if pt_PartitionGroups p = [] then encodedPartitioningSize p ?b else Some (pst_partitioningBytes st)) = Some size0" and
      increment: "(if newGroup = None then Some 0 else map_option (\<lambda>n. if pt_PartitionGroups p \<noteq> [] then n + 1 else n)
          (encodedPartitionGroupSize grp (?b - size0))) = Some increment" and
      size1: "encodedSubpartitionEntrySize entry (?b - size0 - increment) = Some size1" and
      size2: "addEncodedSize size0 (increment + (if k \<noteq> 0 then size1 + 1 else size1)) ?b = Some size2" and
      st': "st' = st\<lparr>pst_partitioning := p\<lparr>pt_PartitionGroups := append_subpartition gs entry\<rparr>,
        pst_partitioningBytes := size2, pst_resultBytes := envelope + size2,
        pst_partitionNames := set_option newGroup \<union> pst_partitionNames st,
        pst_subpartitionNames := insert subKey (pst_subpartitionNames st)\<rparr>"
    by (elim exE conjE) iprover
  then show "st' = st\<lparr>pst_partitioning := p\<lparr>pt_PartitionGroups := append_subpartition gs entry\<rparr>,
      pst_partitioningBytes := pst_partitioningBytes st', pst_resultBytes := envelope + pst_partitioningBytes st',
      pst_partitionNames := set_option newGroup \<union> pst_partitionNames st,
      pst_subpartitionNames := insert subKey (pst_subpartitionNames st)\<rparr>" by simp
  have s0: "size0 = int (length (partitioning_text p))"
  proof (cases "pt_PartitionGroups p = []")
    case True
    with p have "partitioning_countable p" by (auto simp: partitioning_countable_def)
    from partitioning_counter.exact [OF this] size0 True show ?thesis by simp
  next
    case False
    with size0 before show ?thesis by simp
  qed
  have i: "increment = (if newGroup = None then 0
      else int (length (marshal_PartitionGroup grp)) + (if pt_PartitionGroups p = [] then 0 else 1))"
    using increment grp(1) by (auto simp: group_counter.exact)
  have s1: "size1 = int (length (marshal_SubpartitionEntry entry))" using size1 entry(3) subentry_counter.exact by simp
  have "int (length (comma_separated (map marshal_PartitionGroup gs))) =
      int (length (comma_separated (map marshal_PartitionGroup (pt_PartitionGroups p)))) + increment"
    by (auto simp: gs i comma_separated_def length_comma_snoc [unfolded comma_separated_def])
  with append_subpartition_ok(4) [OF entry(1-3) entry(4) [unfolded k] entry(5)]
  have "int (length (partitioning_text (p\<lparr>pt_PartitionGroups := append_subpartition gs entry\<rparr>))) =
      size0 + increment + (if k = 0 then 0 else 1) + size1"
    using p by (simp add: length_partitioning_text s0 s1 k)
  with size2 show "bytes_inv envelope maximum st'" by (auto simp: bytes_inv_def st' addEncodedSize_def split: if_splits)
qed

lemma subpartitioned_leaf_inv:
  assumes inv: "subpartitioned_inv simpleFold envelope maximum n st"
    and step: "subpartitioned_leaf simpleFold envelope maximum st row = Inr st'"
  shows "subpartitioned_inv simpleFold envelope maximum (Suc n) st' \<and> pst_leafCount st' = pst_leafCount st"
proof -
  define groups where "groups = pt_PartitionGroups (pst_partitioning st)"
  from step obtain name ordinal meth subMethod newGroup entry subKey where
      name: "validatedMetadataName (prw_partitionName row) = Inr name" "prw_partitionName row \<noteq> None" and
      methods: "subpartition_methods (pst_partitioning st) row = Inr (meth, subMethod)" and
      newGroup: "subpartition_group simpleFold st name ordinal = Inr newGroup" and
      entry: "make_subpartition simpleFold st (if newGroup = None then length (pgr_Subpartitions (last groups)) else 0) row =
        Inr (entry, subKey)" and
      add: "add_subpartition envelope maximum st
        ((pst_partitioning st)\<lparr>pt_Method := meth, pt_SubpartitionMethod := subMethod\<rparr>)
        \<lparr>pgr_Name = name, pgr_Ordinal = ordinal, pgr_Subpartitions = []\<rparr> newGroup
        (if newGroup = None then length (pgr_Subpartitions (last groups)) else 0) entry subKey = Inr st'"
    by (auto simp: subpartitioned_leaf_def Let_def groups_def if_Inl_Inr cong: if_cong split del: if_split)
  define p where "p = (pst_partitioning st)\<lparr>pt_Method := meth, pt_SubpartitionMethod := subMethod\<rparr>"
  define grp where "grp = \<lparr>pgr_Name = name, pgr_Ordinal = ordinal, pgr_Subpartitions = []\<rparr>"
  define gs where "gs = (if newGroup = None then groups else groups @ [grp])"
  note inv' = inv [unfolded subpartitioned_inv_def Let_def, folded groups_def]
  note m = subpartition_methods_Inr [OF methods]
  have nameok: "name_ok name" using name by (auto simp: name_ok_def validatedMetadataName_def raw_text_def Let_def split: if_splits)
  note g = subpartition_group_Inr [OF newGroup, folded groups_def]
  have opened: "open_groups simpleFold gs"
    using inv' g nameok groups_ok_open [of simpleFold groups] groups_ok_open_new [of simpleFold groups grp]
    by (auto simp: gs_def grp_def split: option.splits)
  have subs: "subpartitions_of gs = subpartitions_of groups" by (simp add: gs_def grp_def)
  have k: "(if newGroup = None then length (pgr_Subpartitions (last groups)) else 0) = length (pgr_Subpartitions (last gs))"
    by (simp add: gs_def grp_def)
  note e = make_subpartition_Inr [OF entry, unfolded k]
  have fresh: "canonicalMetadataName simpleFold (se_Name entry) \<notin> (canonicalMetadataName simpleFold \<circ> se_Name) ` set (subpartitions_of gs)"
    using e inv' unfolding subs by metis
  have nonempty: "groups \<noteq> [] \<Longrightarrow> 0 < n"
    using inv' by (cases groups) (auto simp: groups_ok_def group_ok_def subpartitions_of_def)
  have same: "p = pst_partitioning st" if "groups \<noteq> []"
    using nonempty [OF that] inv' m method_words(2,3) by (auto simp: p_def)
  have bytes: "pt_PartitionGroups p \<noteq> [] \<longrightarrow> pst_partitioningBytes st = int (length (partitioning_text p))"
    using same nonempty inv' by (auto simp: p_def groups_def bytes_inv_def)
  have groups_p: "pt_PartitionGroups p = groups" by (simp add: p_def groups_def)
  have st': "st' = st\<lparr>pst_partitioning := p\<lparr>pt_PartitionGroups := append_subpartition gs entry\<rparr>,
      pst_partitioningBytes := pst_partitioningBytes st', pst_resultBytes := envelope + pst_partitioningBytes st',
      pst_partitionNames := set_option newGroup \<union> pst_partitionNames st,
      pst_subpartitionNames := insert subKey (pst_subpartitionNames st)\<rparr>" and
    inv_bytes: "bytes_inv envelope maximum st'"
    using add_subpartition_bytes [OF add [folded p_def grp_def, unfolded k] _ _ _ _ bytes _ _ refl _ opened _ _ _ fresh]
      inv' m method_words(2,3) g e
    by (auto simp: gs_def grp_def p_def groups_p groups_def [symmetric] split: option.splits)
  note a = append_subpartition_ok [OF opened _ _ _ fresh]
  have "pst_partitionNames st' = (canonicalMetadataName simpleFold \<circ> pgr_Name) ` set (append_subpartition gs entry)"
  proof -
    have "(canonicalMetadataName simpleFold \<circ> pgr_Name) ` set (append_subpartition gs entry) =
        canonicalMetadataName simpleFold ` set (map pgr_Name gs)"
      using a(3) e by (metis image_comp list.set_map)
    then show ?thesis using inv' g by (subst st') (auto simp: gs_def grp_def split: option.splits)
  qed
  moreover have "pst_partitioning st' = p\<lparr>pt_PartitionGroups := append_subpartition gs entry\<rparr>"
    "pst_subpartitionNames st' = insert subKey (pst_subpartitionNames st)" "pst_leafCount st' = pst_leafCount st"
    by (subst st', simp)+
  ultimately show ?thesis
    using a(1,2) e inv' m inv_bytes by (simp add: subpartitioned_inv_def p_def subs)
qed

section \<open>The loop\<close>

text \<open>What holds between two rows: nothing was read, or the partitioning has the kind of the first row.\<close>

definition rows_inv :: "(nat \<Rightarrow> nat) \<Rightarrow> int \<Rightarrow> int \<Rightarrow> partition_state \<Rightarrow> bool" where
  "rows_inv simpleFold envelope maximum st \<longleftrightarrow>
     0 \<le> pst_leafCount st \<and> pst_leafCount st \<le> maxPhysicalPartitionLeaves \<and>
     (if pst_leafCount st = 0
      then pst_partitioning st = empty_partitioning \<and> pst_partitionNames st = {} \<and> pst_subpartitionNames st = {} \<and>
        pst_partitioningBytes st = 15 \<and> pst_resultBytes st = envelope + 15 \<and> envelope + 15 \<le> maximum
      else (pst_partitioning st = empty_partitioning\<lparr>pt_Kind := ''none''\<rparr> \<and> pst_leafCount st = 1 \<and> bytes_inv envelope maximum st) \<or>
        partitioned_inv simpleFold envelope maximum (nat (pst_leafCount st)) st \<or>
        subpartitioned_inv simpleFold envelope maximum (nat (pst_leafCount st)) st)"

lemma empty_partitioning_sel [simp]:
  "pt_Kind empty_partitioning = []" "pt_Method empty_partitioning = []" "pt_SubpartitionMethod empty_partitioning = []"
  "pt_Partitions empty_partitioning = []" "pt_PartitionGroups empty_partitioning = []"
  by (simp_all add: empty_partitioning_def)

lemma leaf_kinds: "leaf_kind row = ''none'' \<or> leaf_kind row = ''partitioned'' \<or> leaf_kind row = ''subpartitioned''"
  by (simp add: leaf_kind_def)

lemma inv_congs:
  "partitioned_inv f e m n (st\<lparr>pst_rawTotal := a, pst_leafCount := b\<rparr>) \<longleftrightarrow> partitioned_inv f e m n st"
  "subpartitioned_inv f e m n (st\<lparr>pst_rawTotal := a, pst_leafCount := b\<rparr>) \<longleftrightarrow> subpartitioned_inv f e m n st"
  by (simp_all add: partitioned_inv_def subpartitioned_inv_def bytes_inv_def)

lemma none_leaf_Inr: "none_leaf st row = Inr st' \<longleftrightarrow> st' = st \<and> pst_leafCount st = 1 \<and>
    prw_partitionName row = None \<and> prw_partitionOrdinal row = None \<and> prw_partitionMethod row = None \<and>
    prw_subpartitionName row = None \<and> prw_subpartitionOrdinal row = None \<and> prw_subpartitionMethod row = None"
  by (auto simp: none_leaf_def)

lemma partition_leaf_first:
  assumes "rows_inv simpleFold envelope maximum st" "pst_leafCount st = 0"
    and step: "partition_leaf simpleFold envelope maximum
      (st\<lparr>pst_rawTotal := a, pst_leafCount := 1, pst_partitioning := (pst_partitioning st)\<lparr>pt_Kind := leaf_kind row\<rparr>\<rparr>) row = Inr st'"
  shows "rows_inv simpleFold envelope maximum st'"
proof -
  let ?st = "st\<lparr>pst_rawTotal := a, pst_leafCount := 1, pst_partitioning := (pst_partitioning st)\<lparr>pt_Kind := leaf_kind row\<rparr>\<rparr>"
  have st: "pst_partitioning st = empty_partitioning" "pst_partitionNames st = {}" "pst_subpartitionNames st = {}"
    "pst_partitioningBytes st = 15" "pst_resultBytes st = envelope + 15" "envelope + 15 \<le> maximum"
    using assms(1,2) by (auto simp: rows_inv_def)
  consider "leaf_kind row = ''none''" | "leaf_kind row = ''partitioned''" | "leaf_kind row = ''subpartitioned''"
    using leaf_kinds by blast
  then show ?thesis
  proof cases
    case 1
    then show ?thesis using step st
      by (auto simp: partition_leaf_def none_leaf_Inr rows_inv_def bytes_inv_def length_partitioning_text maxPhysicalPartitionLeaves_def)
  next
    case 2
    then have "partitioned_inv simpleFold envelope maximum 0 ?st" using st by (simp add: partitioned_inv_def entries_ok_def)
    from partitioned_leaf_inv [OF this, of row st'] step 2 show ?thesis
      by (simp add: partition_leaf_def rows_inv_def maxPhysicalPartitionLeaves_def)
  next
    case 3
    then have "subpartitioned_inv simpleFold envelope maximum 0 ?st" using st by (simp add: subpartitioned_inv_def groups_ok_def)
    from subpartitioned_leaf_inv [OF this, of row st'] step 3 show ?thesis
      by (simp add: partition_leaf_def rows_inv_def maxPhysicalPartitionLeaves_def)
  qed
qed

lemma partition_leaf_next:
  assumes "rows_inv simpleFold envelope maximum st" "pst_leafCount st \<noteq> 0" "pst_leafCount st + 1 \<le> maxPhysicalPartitionLeaves"
    and step: "partition_leaf simpleFold envelope maximum
      (st\<lparr>pst_rawTotal := a, pst_leafCount := pst_leafCount st + 1\<rparr>) row = Inr st'"
  shows "rows_inv simpleFold envelope maximum st'"
proof -
  let ?st = "st\<lparr>pst_rawTotal := a, pst_leafCount := pst_leafCount st + 1\<rparr>" and ?n = "nat (pst_leafCount st)"
  have n: "0 < pst_leafCount st" using assms(1,2) by (auto simp: rows_inv_def)
  then have suc: "nat (pst_leafCount st + 1) = Suc ?n" by simp
  consider "pst_partitioning st = empty_partitioning\<lparr>pt_Kind := ''none''\<rparr>"
    | "partitioned_inv simpleFold envelope maximum ?n ?st" | "subpartitioned_inv simpleFold envelope maximum ?n ?st"
    using assms(1,2) by (auto simp: rows_inv_def inv_congs)
  then show ?thesis
  proof cases
    case 1
    then show ?thesis using step n by (simp add: partition_leaf_def none_leaf_Inr)
  next
    case 2
    then have "pt_Kind (pst_partitioning st) = ''partitioned''" by (simp add: partitioned_inv_def Let_def)
    with partitioned_leaf_inv [OF 2, of row st'] step n assms(3) suc show ?thesis by (simp add: partition_leaf_def rows_inv_def)
  next
    case 3
    then have "pt_Kind (pst_partitioning st) = ''subpartitioned''" by (simp add: subpartitioned_inv_def Let_def)
    with subpartitioned_leaf_inv [OF 3, of row st'] step n assms(3) suc show ?thesis by (simp add: partition_leaf_def rows_inv_def)
  qed
qed

lemma partition_row_inv:
  assumes "rows_inv simpleFold envelope maximum st"
    and "partition_row simpleFold ctxErr identity caseInsensitive envelope maximum st fetched_row = Inr st'"
  shows "rows_inv simpleFold envelope maximum st'"
proof (cases "pst_leafCount st = 0")
  case True
  with assms(2) obtain a row where "partition_leaf simpleFold envelope maximum
      (st\<lparr>pst_rawTotal := a, pst_leafCount := 1, pst_partitioning := (pst_partitioning st)\<lparr>pt_Kind := leaf_kind row\<rparr>\<rparr>) row = Inr st'"
    by (auto simp: partition_row_def Let_def)
  from partition_leaf_first [OF assms(1) True this] show ?thesis .
next
  case False
  have "pst_partitioning_update (\<lambda>_. pst_partitioning st) st = st" by simp
  with False assms(2) obtain a row where le: "pst_leafCount st + 1 \<le> maxPhysicalPartitionLeaves" and
      "partition_leaf simpleFold envelope maximum (st\<lparr>pst_rawTotal := a, pst_leafCount := pst_leafCount st + 1\<rparr>) row = Inr st'"
    using assms(1) by (auto simp: partition_row_def Let_def rows_inv_def split: if_splits)
  from partition_leaf_next [OF assms(1) False le this(2)] show ?thesis .
qed

lemma partition_rows_inv:
  "partition_rows simpleFold ctxErr identity caseInsensitive envelope maximum st rows = Inr st' \<Longrightarrow>
     rows_inv simpleFold envelope maximum st \<Longrightarrow> rows_inv simpleFold envelope maximum st'"
  by (induction rows arbitrary: st) (auto dest: partition_row_inv)

text \<open>What the partitioning, its size and the two counts are after the loop.\<close>

definition partitioning_ok :: "(nat \<Rightarrow> nat) \<Rightarrow> PartitioningResult \<Rightarrow> int \<Rightarrow> int \<Rightarrow> bool" where
  "partitioning_ok simpleFold p partitions subpartitions \<longleftrightarrow>
     p = empty_partitioning\<lparr>pt_Kind := ''none''\<rparr> \<and> partitions = 0 \<and> subpartitions = 0 \<or>
     pt_Kind p = ''partitioned'' \<and> pt_SubpartitionMethod p = [] \<and> pt_PartitionGroups p = [] \<and> pt_Partitions p \<noteq> [] \<and>
       int (length (pt_Partitions p)) \<le> maxPhysicalPartitionLeaves \<and> validTopPartitionMethod (pt_Method p) \<and>
       entries_ok simpleFold (pt_Partitions p) \<and> partitions = int (length (pt_Partitions p)) \<and> subpartitions = 0 \<or>
     pt_Kind p = ''subpartitioned'' \<and> pt_Partitions p = [] \<and> pt_PartitionGroups p \<noteq> [] \<and>
       int (length (subpartitions_of (pt_PartitionGroups p))) \<le> maxPhysicalPartitionLeaves \<and>
       validSubpartitionParentMethod (pt_Method p) \<and> validSubpartitionMethod (pt_SubpartitionMethod p) \<and>
       groups_ok simpleFold (pt_PartitionGroups p) \<and> partitions = int (length (pt_PartitionGroups p)) \<and>
       subpartitions = int (length (subpartitions_of (pt_PartitionGroups p)))"

lemma rows_inv_result:
  assumes "rows_inv simpleFold envelope maximum st" "pst_leafCount st \<noteq> 0"
  shows "bytes_inv envelope maximum st"
    and "partitioning_ok simpleFold (pst_partitioning st)
      (if pt_Kind (pst_partitioning st) = ''none'' then 0
       else int (length (pt_Partitions (pst_partitioning st))) + int (length (pt_PartitionGroups (pst_partitioning st))))
      (if pt_Kind (pst_partitioning st) = ''none'' then 0 else pst_leafCount st - int (length (pt_Partitions (pst_partitioning st))))"
  using assms
  by (auto simp: rows_inv_def partitioned_inv_def subpartitioned_inv_def partitioning_ok_def Let_def)

lemma readPartitionStatistics_ok:
  assumes "readPartitionStatistics simpleFold ctxErr answered identity lower rawTotal resultBytes maximum =
      Inr (p, n, partitions, subpartitions)" and "resultBytes \<le> maximum"
  shows "partitioning_ok simpleFold p partitions subpartitions \<and>
    n = resultBytes - 15 + int (length (partitioning_text p)) \<and> n \<le> maximum"
proof -
  let ?st0 = "\<lparr>pst_rawTotal = rawTotal, pst_partitioning = empty_partitioning, pst_partitioningBytes = nonePartitioningBytes,
      pst_resultBytes = resultBytes, pst_partitionNames = {}, pst_subpartitionNames = {}, pst_leafCount = 0\<rparr>"
  from assms(1) obtain rows st where answered: "answered = Inr rows" and
      rows: "partition_rows simpleFold ctxErr identity (lower \<noteq> 0) (resultBytes - nonePartitioningBytes) maximum ?st0 (rw_rows rows) = Inr st"
      and leaf: "pst_leafCount st \<noteq> 0"
    by (auto simp: readPartitionStatistics_def Let_def split del: if_split)
  from assms(1) have r: "p = pst_partitioning st" "n = pst_resultBytes st"
      "partitions = (if pt_Kind p = ''none'' then 0 else int (length (pt_Partitions p)) + int (length (pt_PartitionGroups p)))"
      "subpartitions = (if pt_Kind p = ''none'' then 0 else pst_leafCount st - int (length (pt_Partitions p)))"
    by (auto simp: readPartitionStatistics_def Let_def answered rows split: if_splits)
  have "rows_inv simpleFold (resultBytes - 15) maximum st"
    using partition_rows_inv [OF rows] assms(2) by (simp add: rows_inv_def nonePartitioningBytes_def maxPhysicalPartitionLeaves_def)
  from rows_inv_result [OF this leaf] show ?thesis using r by (auto simp: bytes_inv_def split: if_splits)
qed

section \<open>The result of the operation\<close>

lemma readTableStatistics_ok: "readTableStatistics ctxErr answered identity lower rawTotal = Inr (t, n) \<Longrightarrow> table_ok t"
  by (auto simp: readTableStatistics_def table_ok_def Let_def dest: parseUnsignedMetric_ok)

lemma Adapter_DescribeObjectStatistics_ok:
  assumes "Adapter_DescribeObjectStatistics simpleFold x authorized base = Inr r"
  shows "table_ok (osr_Table r)"
    and "partitioning_ok simpleFold (osr_Partitioning r) (osr_PartitionCount r) (osr_SubpartitionCount r)"
    and "osr_ObservedAt r = format_rfc3339nano (sx_now x)" and "osr_Engine r = ''InnoDB''"
    and "osr_ResultBytes r = base + int (length (marshal_TableStatistics (osr_Table r))) - int (length (marshal_TableStatistics null_table))
      + int (length (partitioning_text (osr_Partitioning r))) - 15 + int (length (osr_ObservedAt r)) - 20"
    and "osr_ResultBytes r \<le> MaxResultBytes (os_limits authorized)"
proof -
  let ?max = "MaxResultBytes (os_limits authorized)"
  from assms obtain identity raw raw' lower size0 p size1 partitions subpartitions size2 where
      le: "base \<le> ?max" and
      t: "readTableStatistics (sx_ctxErr x) (sx_table x) identity lower raw = Inr (osr_Table r, raw')" and
      size0: "addTableStatisticsSize base (osr_Table r) ?max = Inr size0" and
      p: "readPartitionStatistics simpleFold (sx_ctxErr x) (sx_partitions x) identity lower raw' size0 ?max =
        Inr (p, size1, partitions, subpartitions)" and
      size2: "addEncodedSize size1 (int (length (format_rfc3339nano (sx_now x))) - 20) ?max = Some size2" and
      r: "osr_ObservedAt r = format_rfc3339nano (sx_now x)" "osr_Engine r = ''InnoDB''" "osr_Partitioning r = p"
        "osr_ResultBytes r = size2" "osr_PartitionCount r = partitions" "osr_SubpartitionCount r = subpartitions"
    unfolding Adapter_DescribeObjectStatistics_def Let_def by fastforce
  show "table_ok (osr_Table r)" by (rule readTableStatistics_ok [OF t])
  note s0 = addTableStatisticsSize_exact [OF size0 this le]
  note s1 = readPartitionStatistics_ok [OF p] s0
  from s1 r show "partitioning_ok simpleFold (osr_Partitioning r) (osr_PartitionCount r) (osr_SubpartitionCount r)" by simp
  from s1 s0 size2 r show "osr_ResultBytes r = base + int (length (marshal_TableStatistics (osr_Table r))) - int (length (marshal_TableStatistics null_table))
      + int (length (partitioning_text (osr_Partitioning r))) - 15 + int (length (osr_ObservedAt r)) - 20"
    "osr_ResultBytes r \<le> ?max"
    by (auto simp: addEncodedSize_def split: if_splits)
  from r show "osr_ObservedAt r = format_rfc3339nano (sx_now x)" "osr_Engine r = ''InnoDB''" by simp_all
qed

section \<open>Timestamps\<close>

definition valid_instant :: "Time \<Rightarrow> bool" where
  "valid_instant t \<longleftrightarrow> valid_date t \<and> valid_clock t \<and> Nanosecond t < 10 ^ 9"

definition nano_fraction :: "Time \<Rightarrow> string" where
  "nano_fraction t = rev (dropWhile zero_char (rev (fixed_digits 9 (Nanosecond t))))"

lemma nano_fraction_props:
  assumes "Nanosecond t < 10 ^ 9"
  shows "list_all is_digit (nano_fraction t)" "length (nano_fraction t) \<le> 9" "fraction_nanos (nano_fraction t) = Nanosecond t"
proof -
  let ?ds = "fixed_digits 9 (Nanosecond t)"
  have split: "?ds = nano_fraction t @ replicate (9 - length (nano_fraction t)) (CHR ''0'')"
    using rstrip_zeros [of ?ds] by (simp add: nano_fraction_def)
  then show "list_all is_digit (nano_fraction t)" using fixed_digits_props(2) [of 9 "Nanosecond t"] by (metis list_all_append)
  show len: "length (nano_fraction t) \<le> 9"
    using length_dropWhile_le [of zero_char "rev ?ds"] by (simp add: nano_fraction_def)
  have "take 9 (nano_fraction t @ replicate 9 (CHR ''0'')) = ?ds" using len by (subst split) (simp add: take_replicate min_def)
  then show "fraction_nanos (nano_fraction t) = Nanosecond t" using assms by (simp add: fraction_nanos_def dec_value_fixed_digits)
qed

lemma format_rfc3339nano_parts:
  "format_rfc3339nano t = format_date t @ CHR ''T'' # pad2 (Hour t) @ '':'' @ pad2 (Minute t) @ '':'' @ pad2 (Second t) @
     (if nano_fraction t = [] then [] else CHR ''.'' # nano_fraction t) @ ''Z''"
  by (simp add: format_rfc3339nano_def nano_fraction_def Let_def)

lemma length_format_rfc3339nano:
  "Nanosecond t < 10 ^ 9 \<Longrightarrow> 20 \<le> length (format_rfc3339nano t) \<and> length (format_rfc3339nano t) \<le> 30"
  using nano_fraction_props(2) [of t] by (simp add: format_rfc3339nano_parts pad2_def)

lemma time_parse_format_rfc3339nano:
  assumes "valid_instant t"
  shows "time_parse_rfc3339 (format_rfc3339nano t) = Some (t, 0)"
proof -
  let ?rest = "(if nano_fraction t = [] then [] else CHR ''.'' # nano_fraction t) @ ''Z''"
  have v: "valid_date t" "valid_clock t" "Nanosecond t < 10 ^ 9" using assms by (simp_all add: valid_instant_def)
  note f = nano_fraction_props [OF v(3)]
  have notZ: "\<not> is_digit (CHR ''Z'')" by (simp add: is_digit_def)
  have skip: "skip_fraction ?rest = ''Z''"
    using f(1) notZ by (cases "nano_fraction t") (auto simp: skip_fraction_def dropWhile_append2 list_all_iff)
  have nanos: "(if skip_fraction ?rest = ?rest then 0 else fraction_nanos (takeWhile is_digit (tl ?rest))) = Nanosecond t"
    using f notZ unfolding skip by (cases "nano_fraction t") (auto simp: takeWhile_append2 list_all_iff)
  have "valid_day (Year t) (Month t) (Day t)" using v(1) by (simp add: valid_day_def valid_date_def)
  then show ?thesis
    using parse_date_prefix_format [OF v(1)] parse_clock_prefix_format [OF v(2)] nanos skip
    by (simp add: time_parse_rfc3339_def format_rfc3339nano_parts Let_def parse_zone_def zone_offset_def)
qed

end
