(* ===== verification/Service_Statistics.thy ===== *)
theory Service_Statistics
  imports Service_Handlers Statistics_Rows
begin

text \<open>
  The handler of object statistics (\<^verbatim>\<open>queryservice/table_statistics.go\<close>): the envelope the adapter starts counting from,
  the validation of what the adapter returns, and the whole operation. What the adapter of MySQL returns is shown to
  pass that validation and to have exactly the size it says.
\<close>

section \<open>The response\<close>

record tableStatisticsResponse =
  tr_PolicyProfile :: string
  tr_PolicyVersion :: string
  tr_Datasource :: string
  tr_Adapter :: string
  tr_Schema :: string
  tr_Name :: string
  tr_ObservedAt :: string
  tr_Engine :: string
  tr_Table :: TableStatistics
  tr_Partitioning :: PartitioningResult

text \<open>\<open>json.Marshal\<close> fails when the partitioning has no wire form.\<close>

definition marshal_tableStatisticsResponse :: "tableStatisticsResponse \<Rightarrow> string option" where
  "marshal_tableStatisticsResponse r =
     map_option (\<lambda>partitioning. json_object [
       (''policy_profile'', json_quote (tr_PolicyProfile r)), (''policy_version'', json_quote (tr_PolicyVersion r)),
       (''datasource'', json_quote (tr_Datasource r)), (''adapter'', json_quote (tr_Adapter r)),
       (''schema'', json_quote (tr_Schema r)), (''name'', json_quote (tr_Name r)),
       (''observed_at'', json_quote (tr_ObservedAt r)), (''engine'', json_quote (tr_Engine r)),
       (''table'', marshal_TableStatistics (tr_Table r)), (''partitioning'', partitioning)])
     (PartitioningResult_MarshalJSON (tr_Partitioning r))"

fun string_sizes :: "int \<Rightarrow> string list \<Rightarrow> int \<Rightarrow> int option" where
  "string_sizes current [] maximum = Some current"
| "string_sizes current (v # vs) maximum =
     (case addBoundedSize current (service_encodedJSONStringSize v) maximum of
        None \<Rightarrow> None
      | Some n \<Rightarrow> string_sizes n vs maximum)"

definition tableStatisticsMinimumEnvelopeSize ::
  "string \<Rightarrow> string \<Rightarrow> string \<Rightarrow> string \<Rightarrow> string \<Rightarrow> string \<Rightarrow> int \<Rightarrow> int option" where
  "tableStatisticsMinimumEnvelopeSize profile policyVersion datasource adapterName schema object maximum =
     (if 227 > maximum then None
      else string_sizes 227 [profile, policyVersion, datasource, adapterName, schema, object,
        ''0000-00-00T00:00:00Z'', ''InnoDB''] maximum)"

section \<open>Validation of a result\<close>

definition maxPhysicalPartitionAuditCount :: int where
  "maxPhysicalPartitionAuditCount = 8192"

definition validStatisticsMetric :: "UnsignedMetric option \<Rightarrow> bool \<Rightarrow> bool" where
  "validStatisticsMetric metric estimated =
     (case metric of
        None \<Rightarrow> True
      | Some u \<Rightarrow>
          if um_Estimated u \<noteq> estimated \<or> um_Value u = [] \<or> length (um_Value u) > 20 \<or>
             (length (um_Value u) > 1 \<and> hd (um_Value u) = CHR ''0'') then False
          else if list_ex (\<lambda>(r, _). r < 48 \<or> r > 57) (runes (um_Value u)) then False
          else parse_uint 64 (um_Value u) \<noteq> None)"

definition validPartitionStatistics :: "PartitionStatistics \<Rightarrow> bool" where
  "validPartitionStatistics p \<longleftrightarrow> validStatisticsMetric (ps_EstimatedRows p) True \<and>
     validStatisticsMetric (ps_DataBytes p) True \<and> validStatisticsMetric (ps_IndexBytes p) True"

definition validStatisticsMetadataName :: "string \<Rightarrow> bool" where
  "validStatisticsMetadataName v =
     (if v = [] \<or> length v > 256 \<or> \<not> ValidString v \<or> RuneCountInString v > 64 then False
      else list_all (\<lambda>(r, _). \<not> (IsControl r \<or> r = 0x061c \<or> r = 0x200e \<or> r = 0x200f \<or>
        (0x202a \<le> r \<and> r \<le> 0x202e) \<or> (0x2066 \<le> r \<and> r \<le> 0x2069))) (runes v))"

text \<open>The names after the insertion, or \<open>None\<close> when the name is there up to case folding.\<close>

definition insertStatisticsMetadataName :: "(nat \<Rightarrow> nat) \<Rightarrow> string set \<Rightarrow> string \<Rightarrow> string set option" where
  "insertStatisticsMetadataName simpleFold names v =
     (let canonical = concat (map (\<lambda>(r, _). EncodeRune (canonical_rune simpleFold r)) (runes v)) in
      if canonical \<in> names then None else Some (insert canonical names))"

definition validStatisticsPartitionMethod :: "string \<Rightarrow> bool" where
  "validStatisticsPartitionMethod v \<longleftrightarrow> v \<in> set [''hash'', ''linear_hash'', ''key'', ''linear_key'',
     ''range'', ''range_columns'', ''list'', ''list_columns'']"

definition validStatisticsSubpartitionParentMethod :: "string \<Rightarrow> bool" where
  "validStatisticsSubpartitionParentMethod v \<longleftrightarrow> v \<in> set [''range'', ''range_columns'', ''list'', ''list_columns'']"

definition validStatisticsSubpartitionMethod :: "string \<Rightarrow> bool" where
  "validStatisticsSubpartitionMethod v \<longleftrightarrow> v \<in> set [''hash'', ''linear_hash'', ''key'', ''linear_key'']"

fun validate_entries :: "(nat \<Rightarrow> nat) \<Rightarrow> nat \<Rightarrow> string set \<Rightarrow> PartitionEntry list \<Rightarrow> string + string set" where
  "validate_entries simpleFold index names [] = Inr names"
| "validate_entries simpleFold index names (entry # entries) =
     (if pe_Ordinal entry \<noteq> int index + 1 \<or> \<not> validStatisticsMetadataName (pe_Name entry) then Inl ''invalid partition entry''
      else case insertStatisticsMetadataName simpleFold names (pe_Name entry) of
             None \<Rightarrow> Inl ''invalid partition entry''
           | Some names' \<Rightarrow>
               if \<not> validPartitionStatistics (pe_Statistics entry) then Inl ''invalid partition entry''
               else validate_entries simpleFold (index + 1) names' entries)"

text \<open>The loop over the subpartitions of a group is the same with its own names.\<close>

definition validate_subpartitions :: "(nat \<Rightarrow> nat) \<Rightarrow> string set \<Rightarrow> SubpartitionEntry list \<Rightarrow> string + string set" where
  "validate_subpartitions simpleFold names entries = validate_entries simpleFold 0 names (map as_partition entries)"

fun validate_groups ::
  "(nat \<Rightarrow> nat) \<Rightarrow> nat \<Rightarrow> string set \<Rightarrow> string set \<Rightarrow> int \<Rightarrow> PartitionGroup list \<Rightarrow> string + int" where
  "validate_groups simpleFold index names subnames leafCount [] = Inr leafCount"
| "validate_groups simpleFold index names subnames leafCount (grp # groups) =
     (if pgr_Ordinal grp \<noteq> int index + 1 \<or> \<not> validStatisticsMetadataName (pgr_Name grp) then Inl ''invalid partition group''
      else case insertStatisticsMetadataName simpleFold names (pgr_Name grp) of
             None \<Rightarrow> Inl ''invalid partition group''
           | Some names' \<Rightarrow>
               if pgr_Subpartitions grp = [] then Inl ''invalid partition group''
               else if int (length (pgr_Subpartitions grp)) > maxPhysicalPartitionAuditCount - leafCount
               then Inl ''too many subpartitions''
               else bind_result (validate_subpartitions simpleFold subnames (pgr_Subpartitions grp)) (\<lambda>subnames'.
                 validate_groups simpleFold (index + 1) names' subnames'
                   (leafCount + int (length (pgr_Subpartitions grp))) groups))"

definition validatePartitioningResult :: "(nat \<Rightarrow> nat) \<Rightarrow> PartitioningResult \<Rightarrow> string + int \<times> int" where
  "validatePartitioningResult simpleFold p =
     (if pt_Kind p = ''none'' then
        if pt_Method p \<noteq> [] \<or> pt_SubpartitionMethod p \<noteq> [] \<or> pt_Partitions p \<noteq> [] \<or> pt_PartitionGroups p \<noteq> []
        then Inl ''invalid unpartitioned branch'' else Inr (0, 0)
      else if pt_Kind p = ''partitioned'' then
        if \<not> validStatisticsPartitionMethod (pt_Method p) \<or> pt_SubpartitionMethod p \<noteq> [] \<or> pt_PartitionGroups p \<noteq> [] \<or>
           pt_Partitions p = [] \<or> int (length (pt_Partitions p)) > maxPhysicalPartitionAuditCount
        then Inl ''invalid partitioned branch''
        else bind_result (validate_entries simpleFold 0 {} (pt_Partitions p)) (\<lambda>_. Inr (int (length (pt_Partitions p)), 0))
      else if pt_Kind p = ''subpartitioned'' then
        if \<not> validStatisticsSubpartitionParentMethod (pt_Method p) \<or>
           \<not> validStatisticsSubpartitionMethod (pt_SubpartitionMethod p) \<or> pt_Partitions p \<noteq> [] \<or>
           pt_PartitionGroups p = [] \<or> int (length (pt_PartitionGroups p)) > maxPhysicalPartitionAuditCount
        then Inl ''invalid subpartitioned branch''
        else bind_result (validate_groups simpleFold 0 {} {} 0 (pt_PartitionGroups p)) (\<lambda>leafCount.
          Inr (int (length (pt_PartitionGroups p)), leafCount))
      else Inl ''unknown partitioning branch'')"

text \<open>\<open>time.Parse\<close> puts a time in UTC when the text ends in \<open>Z\<close>.\<close>

definition canonical_timestamp :: "string \<Rightarrow> bool" where
  "canonical_timestamp v =
     (if length v < 20 \<or> length v > 30 then False
      else case time_parse_rfc3339 v of
             None \<Rightarrow> False
           | Some (t, offset) \<Rightarrow> last v = CHR ''Z'' \<and> format_rfc3339nano t = v)"

definition validateObjectStatisticsResult :: "(nat \<Rightarrow> nat) \<Rightarrow> ObjectStatisticsResult \<Rightarrow> string option" where
  "validateObjectStatisticsResult simpleFold r =
     (if \<not> canonical_timestamp (osr_ObservedAt r) then Some ''noncanonical statistics timestamp''
      else if osr_Engine r \<noteq> ''InnoDB'' \<or> \<not> validStatisticsMetric (ts_EstimatedRows (osr_Table r)) True \<or>
        \<not> validStatisticsMetric (ts_DataBytes (osr_Table r)) True \<or> \<not> validStatisticsMetric (ts_IndexBytes (osr_Table r)) True \<or>
        \<not> validStatisticsMetric (ts_AutoIncrement (osr_Table r)) False then Some ''invalid table statistics''
      else case validatePartitioningResult simpleFold (osr_Partitioning r) of
             Inl e \<Rightarrow> Some e
           | Inr (partitionCount, subpartitionCount) \<Rightarrow>
               fail_if (osr_PartitionCount r \<noteq> partitionCount \<or> osr_SubpartitionCount r \<noteq> subpartitionCount)
                 ''inconsistent partition counts'')"

section \<open>Records\<close>

definition completeObjectStatistics ::
  "('db, 'w) Service \<Rightarrow> caller \<Rightarrow> string \<Rightarrow> string \<Rightarrow> string \<Rightarrow> string \<Rightarrow> string \<Rightarrow> int \<Rightarrow> Resource list \<Rightarrow> int \<Rightarrow> int \<Rightarrow>
     ('w, unit) handler" where
  "completeObjectStatistics s c profileName datasource adapterName outcome errorKind resultBytes resources
       partitionCount subpartitionCount =
     timed s (\<lambda>duration. writeAudit s True ((completion_event s c ''operation_completion'' profileName datasource adapterName
       OperationDescribeObjectStatistics outcome [] resources []
       (if outcome = ''success''
        then [(''partition_count'', MetaNumber partitionCount), (''subpartition_count'', MetaNumber subpartitionCount)] else []))\<lparr>
       ev_ErrorKind := errorKind, ev_DurationMS := duration, ev_ResultBytes := resultBytes\<rparr>))"

definition fail_statistics ::
  "('db, 'w) Service \<Rightarrow> caller \<Rightarrow> string \<Rightarrow> string \<Rightarrow> string \<Rightarrow> string \<Rightarrow> string \<Rightarrow> Resource list \<Rightarrow> service_error \<Rightarrow>
     ('w, 'a) handler" where
  "fail_statistics s c profileName datasource adapterName outcome errorKind resources e =
     svc_bind (completeObjectStatistics s c profileName datasource adapterName outcome errorKind 0 resources 0 0) (\<lambda>_. svc_fail e)"

definition statistics_database_error ::
  "('db, 'w) Service \<Rightarrow> caller \<Rightarrow> string \<Rightarrow> string \<Rightarrow> string \<Rightarrow> Resource list \<Rightarrow> adapter_error \<Rightarrow> ('w, 'a) handler" where
  "statistics_database_error s c profileName datasource adapterName resources e =
     fail_statistics s c profileName datasource adapterName ''error'' (kind_text (classifyDatabaseAuditError e)) resources
       (mapDatabaseError e)"

definition writeObjectStatisticsDenial ::
  "('db, 'w) Service \<Rightarrow> caller \<Rightarrow> string \<Rightarrow> string \<Rightarrow> string \<Rightarrow> string \<Rightarrow> ('w, unit) handler" where
  "writeObjectStatisticsDenial s c profileName datasource adapterName reason =
     writeAudit s True ((base_event s c ''operation_decision'' OperationDescribeObjectStatistics)\<lparr>
       ev_PolicyProfile := profileName, ev_Datasource := datasource, ev_Adapter := adapterName, ev_Decision := ''deny'',
       ev_ReasonCode := reason\<rparr>)"

definition refuse_statistics ::
  "('db, 'w) Service \<Rightarrow> caller \<Rightarrow> string \<Rightarrow> string \<Rightarrow> string \<Rightarrow> policy_error \<Rightarrow> ('w, 'a) handler" where
  "refuse_statistics s c profileName datasource adapterName e =
     (let reason = reason_or ''DENIED_OPERATION'' e in
      svc_bind (writeObjectStatisticsDenial s c profileName datasource adapterName reason)
        (\<lambda>_. svc_fail (if reason = ''DENIED_RESOURCE'' then failure ServiceNotFound else denial reason)))"

section \<open>The handler\<close>

definition statistics_access :: "AuthorizedObjectStatistics \<Rightarrow> access" where
  "statistics_access a =
     \<lparr>ac_principal = os_principal a, ac_profile = os_profile a, ac_datasource = os_datasource a,
      ac_operation = os_operation a, ac_resource = \<lparr>res_Schema = os_schema a, res_Object = os_object a\<rparr>, ac_fields = []\<rparr>"

definition statistics_response ::
  "string \<Rightarrow> string \<Rightarrow> AuthorizedObjectStatistics \<Rightarrow> string \<Rightarrow> ObjectStatisticsResult \<Rightarrow> tableStatisticsResponse" where
  "statistics_response profileName policyVersion authorized adapterName r =
     \<lparr>tr_PolicyProfile = profileName, tr_PolicyVersion = policyVersion, tr_Datasource = os_datasource authorized,
      tr_Adapter = adapterName, tr_Schema = os_schema authorized, tr_Name = os_object authorized,
      tr_ObservedAt = osr_ObservedAt r, tr_Engine = osr_Engine r, tr_Table = osr_Table r,
      tr_Partitioning = osr_Partitioning r\<rparr>"

text \<open>A result leaves only when it is valid and its JSON has the size the adapter counted.\<close>

definition deliver_statistics ::
  "(nat \<Rightarrow> nat) \<Rightarrow> ('db, 'w) Service \<Rightarrow> caller \<Rightarrow> string \<Rightarrow> AuthorizedObjectStatistics \<Rightarrow> string \<Rightarrow> Limits \<Rightarrow> ObjectStatisticsResult \<Rightarrow>
     ('w, string) handler" where
  "deliver_statistics simpleFold s c profileName authorized adapterName limits r =
     (let resources = [ac_resource (statistics_access authorized)];
          invalid = fail_statistics s c profileName (os_datasource authorized) adapterName ''error'' ''internal'' resources
            (failure ServiceInternal) in
      if validateObjectStatisticsResult simpleFold r \<noteq> None then invalid
      else case marshal_tableStatisticsResponse
             (statistics_response profileName (snap_version (sv_policy s)) authorized adapterName r) of
             None \<Rightarrow> invalid
           | Some payload_text \<Rightarrow>
               if int (length payload_text) \<noteq> osr_ResultBytes r \<or> int (length payload_text) > MaxResultBytes limits then invalid
               else svc_bind (completeObjectStatistics s c profileName (os_datasource authorized) adapterName ''success'' []
                   (int (length payload_text)) resources (osr_PartitionCount r) (osr_SubpartitionCount r))
                 (\<lambda>_. svc_return payload_text))"

definition Service_DescribeObjectStatistics ::
  "(nat \<Rightarrow> nat) \<Rightarrow> ('db, 'w) Service \<Rightarrow> caller \<Rightarrow> string \<Rightarrow> string \<Rightarrow> ResourceRef \<Rightarrow> ('w, string) handler" where
  "Service_DescribeObjectStatistics simpleFold s request_caller profileName requested object =
     (let c = request_caller\<lparr>cl_queryID := []\<rparr>; op = OperationDescribeObjectStatistics in
      if \<not> IsIdentifier (ref_Schema object) \<or> \<not> IsIdentifier (ref_Name object) then svc_fail (failure ServiceInvalid)
      else svc_lift (AuthorizeBinding (sv_policy s) (cl_principal c) profileName requested op)
        (\<lambda>_. deny s c profileName requested op ''DENIED_OPERATION'' [] (denial ''DENIED_OPERATION'')) (\<lambda>b.
      let limits = ab_limits b; datasource = key_Datasource (ab_key b);
          adapterName = Manager_AdapterName (sv_databases s) datasource in
      if op \<notin> set (Manager_Capabilities (sv_databases s) datasource) then
        fail_statistics s c profileName datasource adapterName ''not_implemented'' [] [] (failure ServiceNotImplemented)
      else read_semantics s (ab_key b) (statistics_database_error s c profileName datasource adapterName []) (\<lambda>sem.
      svc_lift (AuthorizeObjectStatistics (sv_policy s) b (cl_clientIdentifier c) adapterName object sem)
        (refuse_statistics s c profileName datasource adapterName) (\<lambda>authorized.
      let a = statistics_access authorized; resources = [ac_resource a] in
      svc_bind (writeAllowDecision s c profileName (os_datasource authorized) (os_adapter authorized) op resources [] []) (\<lambda>_.
      case tableStatisticsMinimumEnvelopeSize profileName (snap_version (sv_policy s)) (os_datasource authorized)
          (os_adapter authorized) (os_schema authorized) (os_object authorized) (MaxResultBytes limits) of
        None \<Rightarrow> statistics_database_error s c profileName (os_datasource authorized) (os_adapter authorized) resources
          (DatabaseError ErrorResultTooLarge)
      | Some envelopeBaseBytes \<Rightarrow>
          with_capacity s (ab_key b)
            (fail_statistics s c profileName (os_datasource authorized) (os_adapter authorized) ''error'' ''capacity'' resources
              (failure ServiceCapacity))
            (run_database a (Manager_DescribeObjectStatistics (sv_databases s) authorized envelopeBaseBytes) (\<lambda>adapterName r.
             svc_lift r (statistics_database_error s c profileName (os_datasource authorized) adapterName resources)
               (deliver_statistics simpleFold s c profileName authorized adapterName limits))))))))"

section \<open>Sizes\<close>

lemma service_string_size_exact: "service_string_size cur t = cur + int (length (json_escape t))"
proof (induction cur t rule: service_string_size.induct)
  case (1 cur t)
  show ?case
  proof (cases "t = []")
    case True
    then show ?thesis by (simp add: service_string_size.simps json_escape.simps)
  next
    case False
    with 1 have "service_string_size cur t =
        cur + snd (rune_cost t) + int (length (json_escape (drop (fst (rune_cost t)) t)))"
      by (subst service_string_size.simps) simp
    with json_escape_step [OF False] show ?thesis by simp
  qed
qed

lemma service_encodedJSONStringSize_exact: "service_encodedJSONStringSize t = int (length (json_quote t))"
  by (simp add: service_encodedJSONStringSize_def service_string_size_exact json_quote_def)

lemma string_sizes_exact:
  "string_sizes current vs maximum = Some n \<Longrightarrow> current \<le> maximum \<Longrightarrow>
     n = current + (\<Sum>v \<leftarrow> vs. int (length (json_quote v))) \<and> n \<le> maximum"
proof (induction current vs maximum rule: string_sizes.induct)
  case (2 current v vs maximum)
  then show ?case
    by (fastforce simp: addBoundedSize_def service_encodedJSONStringSize_exact split: option.splits if_splits)
qed simp

lemma response_names: "list_all (list_all is_word) [''policy_profile'', ''policy_version'', ''datasource'', ''adapter'', ''schema'',
    ''name'', ''observed_at'', ''engine'', ''table'', ''partitioning'', ''InnoDB'']"
  by code_simp

lemma plain_timestamp: "plain (format_rfc3339nano t)"
proof -
  have sep: "plain ''-'' \<and> plain '':'' \<and> plain ''T'' \<and> plain ''Z'' \<and> plain ''.''" by code_simp
  have digits: "list_all is_digit ds \<Longrightarrow> plain ds" for ds by (auto simp: plain_def list_all_iff plain_word is_word_def)
  have pads: "plain (pad2 n)" "plain (pad4 n)" for n by (rule digits, simp add: pad4_def pad2_def)+
  have frac: "plain (nano_fraction t)"
    using digits [OF fixed_digits_props(2) [of 9 "Nanosecond t"]]
    by (auto simp: nano_fraction_def plain_def list_all_iff dest!: set_dropWhileD)
  show ?thesis using sep pads frac by (auto simp: format_rfc3339nano_parts format_date_def plain_def)
qed

lemma length_statistics_payload:
  assumes "marshal_tableStatisticsResponse r = Some sent" "tr_ObservedAt r = format_rfc3339nano t" "tr_Engine r = ''InnoDB''"
  shows "int (length sent) = 227 - int (length (marshal_TableStatistics null_table)) - 15 +
    (\<Sum>v \<leftarrow> [tr_PolicyProfile r, tr_PolicyVersion r, tr_Datasource r, tr_Adapter r, tr_Schema r, tr_Name r]. int (length (json_quote v))) +
    int (length (format_rfc3339nano t)) + 10 + int (length (marshal_TableStatistics (tr_Table r))) +
    int (length (partitioning_text (tr_Partitioning r)))"
proof -
  have null: "length (marshal_TableStatistics null_table) = 82"
    using statistics_names by (simp add: marshal_TableStatistics_def null_table_def marshal_metric_def json_object_def comma_separated_def)
  have at: "length (json_quote (format_rfc3339nano t)) = length (format_rfc3339nano t) + 2"
    by (simp add: json_quote_def json_escape_plain [OF plain_timestamp])
  from assms(1) obtain p where p: "PartitioningResult_MarshalJSON (tr_Partitioning r) = Some p"
    by (auto simp: marshal_tableStatisticsResponse_def)
  with assms response_names show ?thesis
    by (auto simp: marshal_tableStatisticsResponse_def partitioning_text_def null at json_object_def comma_separated_def
        length_json_quote_word)
qed

section \<open>What the adapter returns is valid\<close>

lemma runes_ascii: "list_all is_ascii s \<Longrightarrow> runes s = map (\<lambda>c. (byte c, 1)) s"
proof (induction s)
  case Nil
  show ?case by (simp add: runes.simps)
next
  case (Cons c s)
  then have "DecodeRune (c # s) = (byte c, 1)" by (simp add: DecodeRune_def is_ascii_def)
  with Cons show ?case by (subst runes.simps) simp
qed

lemma digit_runes: "list_all is_digit v \<Longrightarrow> \<not> list_ex (\<lambda>(r, _). r < 48 \<or> r > 57) (runes v)"
proof -
  assume v: "list_all is_digit v"
  then have "list_all is_ascii v" by (auto simp: list_all_iff is_digit_def is_ascii_def)
  with v show ?thesis by (fastforce simp: runes_ascii list_all_iff list_ex_iff is_digit_def)
qed

lemma metric_ok_valid: "metric_ok estimated m \<Longrightarrow> validStatisticsMetric m estimated"
  by (auto simp: metric_ok_def validStatisticsMetric_def digit_runes split: option.splits)

lemma statistics_ok_valid: "statistics_ok p \<Longrightarrow> validPartitionStatistics p"
  by (simp add: statistics_ok_def validPartitionStatistics_def metric_ok_valid)

lemma name_ok_valid: "name_ok s \<Longrightarrow> validStatisticsMetadataName s"
  by (auto simp: name_ok_def validStatisticsMetadataName_def validatedMetadataName_def raw_text_def isBidiFormattingRune_def Let_def
      list_all_iff list_ex_iff split: if_splits)

lemma insertStatisticsMetadataName_eq:
  "insertStatisticsMetadataName simpleFold names v =
     (if canonicalMetadataName simpleFold v \<in> names then None else Some (insert (canonicalMetadataName simpleFold v) names))"
  by (simp add: insertStatisticsMetadataName_def canonicalMetadataName_def)

lemma validate_entries_ok:
  assumes "map pe_Ordinal es = map int [Suc index..<Suc index + length es]"
    "\<forall>e \<in> set es. name_ok (pe_Name e) \<and> statistics_ok (pe_Statistics e)"
    "distinct (map (canonicalMetadataName simpleFold \<circ> pe_Name) es)"
    "names \<inter> (canonicalMetadataName simpleFold \<circ> pe_Name) ` set es = {}"
  shows "validate_entries simpleFold index names es = Inr (names \<union> (canonicalMetadataName simpleFold \<circ> pe_Name) ` set es)"
  using assms
proof (induction es arbitrary: index names)
  case (Cons e es)
  from Cons.prems(1) have o: "pe_Ordinal e = int index + 1" "map pe_Ordinal es = map int [Suc (index + 1)..<Suc (index + 1) + length es]"
    by (simp_all add: upt_conv_Cons del: upt_Suc)
  have "validate_entries simpleFold (index + 1) (insert (canonicalMetadataName simpleFold (pe_Name e)) names) es =
      Inr (insert (canonicalMetadataName simpleFold (pe_Name e)) names \<union> (canonicalMetadataName simpleFold \<circ> pe_Name) ` set es)"
    using Cons.prems o(2) by (intro Cons.IH) auto
  then show ?case
    using Cons.prems o(1) by (auto simp: insertStatisticsMetadataName_eq name_ok_valid statistics_ok_valid)
qed simp

lemma validate_subpartitions_ok:
  assumes "counted_from_one (map se_Ordinal es)" "\<forall>e \<in> set es. name_ok (se_Name e) \<and> statistics_ok (se_Statistics e)"
    "distinct (map (canonicalMetadataName simpleFold \<circ> se_Name) es)"
    "names \<inter> (canonicalMetadataName simpleFold \<circ> se_Name) ` set es = {}"
  shows "validate_subpartitions simpleFold names es = Inr (names \<union> (canonicalMetadataName simpleFold \<circ> se_Name) ` set es)"
proof -
  have "validate_entries simpleFold 0 names (map as_partition es) =
      Inr (names \<union> (canonicalMetadataName simpleFold \<circ> pe_Name) ` set (map as_partition es))"
    using assms by (intro validate_entries_ok) (auto simp: counted_from_one_def as_partition_def comp_def simp del: upt_Suc)
  then show ?thesis by (simp add: validate_subpartitions_def as_partition_def image_image comp_def)
qed

lemma validate_groups_ok:
  assumes "map pgr_Ordinal gs = map int [Suc index..<Suc index + length gs]" "\<forall>g \<in> set gs. group_ok g"
    "distinct (map (canonicalMetadataName simpleFold \<circ> pgr_Name) gs)"
    "names \<inter> (canonicalMetadataName simpleFold \<circ> pgr_Name) ` set gs = {}"
    "distinct (map (canonicalMetadataName simpleFold \<circ> se_Name) (subpartitions_of gs))"
    "subnames \<inter> (canonicalMetadataName simpleFold \<circ> se_Name) ` set (subpartitions_of gs) = {}"
    "leafCount + int (length (subpartitions_of gs)) \<le> maxPhysicalPartitionAuditCount"
  shows "validate_groups simpleFold index names subnames leafCount gs = Inr (leafCount + int (length (subpartitions_of gs)))"
  using assms
proof (induction gs arbitrary: index names subnames leafCount)
  case (Cons g gs)
  let ?c = "canonicalMetadataName simpleFold"
  have subs: "subpartitions_of (g # gs) = pgr_Subpartitions g @ subpartitions_of gs" by (simp add: subpartitions_of_def)
  from Cons.prems(1) have o: "pgr_Ordinal g = int index + 1" "map pgr_Ordinal gs = map int [Suc (index + 1)..<Suc (index + 1) + length gs]"
    by (simp_all add: upt_conv_Cons del: upt_Suc)
  have g: "validate_subpartitions simpleFold subnames (pgr_Subpartitions g) =
      Inr (subnames \<union> (?c \<circ> se_Name) ` set (pgr_Subpartitions g))"
    using Cons.prems(2,5,6) unfolding subs by (intro validate_subpartitions_ok) (auto simp: group_ok_def comp_def)
  have "validate_groups simpleFold (index + 1) (insert (?c (pgr_Name g)) names) (subnames \<union> (?c \<circ> se_Name) ` set (pgr_Subpartitions g))
      (leafCount + int (length (pgr_Subpartitions g))) gs =
      Inr (leafCount + int (length (pgr_Subpartitions g)) + int (length (subpartitions_of gs)))"
    using Cons.prems o(2) unfolding subs by (intro Cons.IH) (auto simp: comp_def)
  then show ?case
    using Cons.prems(2,4,7) o(1) g unfolding subs
    by (auto simp: insertStatisticsMetadataName_eq name_ok_valid group_ok_def)
qed simp

lemma length_subpartitions_of: "\<forall>g \<in> set gs. group_ok g \<Longrightarrow> length gs \<le> length (subpartitions_of gs)"
proof (induction gs)
  case (Cons g gs)
  then have "1 \<le> length (pgr_Subpartitions g)" by (auto simp: group_ok_def Suc_le_eq)
  with Cons show ?case by (simp add: subpartitions_of_def)
qed simp

lemma partitioning_ok_valid:
  assumes "partitioning_ok simpleFold p partitions subpartitions"
  shows "validatePartitioningResult simpleFold p = Inr (partitions, subpartitions)"
proof -
  note limits = maxPhysicalPartitionAuditCount_def maxPhysicalPartitionLeaves_def
  note methods = validStatisticsPartitionMethod_def validStatisticsSubpartitionParentMethod_def validStatisticsSubpartitionMethod_def
    validTopPartitionMethod_def validSubpartitionParentMethod_def validSubpartitionMethod_def
  consider (none) "p = empty_partitioning\<lparr>pt_Kind := ''none''\<rparr>" | (partitioned) "pt_Kind p = ''partitioned''"
    | (subpartitioned) "pt_Kind p = ''subpartitioned''"
    using assms by (auto simp: partitioning_ok_def)
  then show ?thesis
  proof cases
    case none
    with assms show ?thesis by (simp add: partitioning_ok_def validatePartitioningResult_def)
  next
    case partitioned
    with assms have "validate_entries simpleFold 0 {} (pt_Partitions p) = Inr ({} \<union> (canonicalMetadataName simpleFold \<circ> pe_Name) ` set (pt_Partitions p))"
      by (intro validate_entries_ok) (auto simp: partitioning_ok_def entries_ok_def counted_from_one_def empty_partitioning_def simp del: upt_Suc)
    with assms partitioned show ?thesis by (auto simp: partitioning_ok_def validatePartitioningResult_def limits methods)
  next
    case subpartitioned
    with assms have ok: "groups_ok simpleFold (pt_PartitionGroups p)"
      "int (length (subpartitions_of (pt_PartitionGroups p))) \<le> maxPhysicalPartitionAuditCount"
      by (auto simp: partitioning_ok_def limits)
    then have "validate_groups simpleFold 0 {} {} 0 (pt_PartitionGroups p) = Inr (0 + int (length (subpartitions_of (pt_PartitionGroups p))))"
      by (intro validate_groups_ok) (auto simp: groups_ok_def counted_from_one_def simp del: upt_Suc)
    with assms subpartitioned length_subpartitions_of [of "pt_PartitionGroups p"] ok show ?thesis
      by (auto simp: partitioning_ok_def validatePartitioningResult_def groups_ok_def limits methods)
  qed
qed

lemma canonical_timestamp_now: "valid_instant t \<Longrightarrow> canonical_timestamp (format_rfc3339nano t)"
  using length_format_rfc3339nano [of t] time_parse_format_rfc3339nano [of t]
  by (simp add: canonical_timestamp_def valid_instant_def) (simp add: format_rfc3339nano_parts)

section \<open>A sample run\<close>

definition answered_rows :: "raw_row list \<Rightarrow> answer" where
  "answered_rows rows = Inr \<lparr>rw_rows = map Fetched rows, rw_err = None, rw_close = None\<rparr>"

definition sample_run :: statistics_run where
  "sample_run = \<lparr>sx_ctxErr = None, sx_conn = None, sx_contextDeadline = None, sx_clock = 0, sx_setDeadline = None,
     sx_server = Inr \<lparr>si_version = ''8.0.36'', si_versionComment = ''MySQL Community Server'', si_lowerCaseTableNames = 0\<rparr>,
     sx_identity = answered_rows [[Some ''shop'', Some ''orders'', Some ''BASE TABLE'', Some ''InnoDB'']],
     sx_table = answered_rows [[Some ''shop'', Some ''orders'', Some ''BASE TABLE'', Some ''InnoDB'', Some ''12'', Some ''16384'', Some ''0'', None]],
     sx_partitions = answered_rows [[Some ''shop'', Some ''orders'', Some ''p0'', Some ''1'', Some ''HASH'', None, None, None,
       Some ''12'', Some ''16384'', Some ''0'']],
     sx_now = \<lparr>Year = 2024, Month = 2, Day = 29, Hour = 12, Minute = 30, Second = 0, Nanosecond = 500000000\<rparr>,
     sx_clearDeadline = None\<rparr>"

definition sample_statistics :: AuthorizedObjectStatistics where
  "sample_statistics = \<lparr>os_principal = ''alice'', os_credentialIdentifier = ''cli'', os_profile = ''ops'', os_policyVersion = ''v1'',
     os_policyHash = ''h'', os_datasource = ''main'', os_adapter = AdapterMySQL8, os_operation = OperationDescribeObjectStatistics,
     os_schema = ''shop'', os_object = ''orders'', os_limits = sample_limits 1000,
     os_semantics = \<lparr>CaseInsensitiveSchemas = False, CaseInsensitiveObjects = False, CaseInsensitiveFields = True\<rparr>,
     os_semanticsGeneration = ''g''\<rparr>"


lemma small_metric:
  assumes "s \<noteq> []" "length s \<le> 19" "\<not> (length s > 1 \<and> hd s = CHR ''0'')" "list_all is_digit s"
  shows "parseUnsignedMetric (Some s) estimated = Inr (Some \<lparr>um_Value = s, um_Estimated = estimated\<rparr>)"
proof -
  have "dec_value s < 10 ^ length s" using dec_value_less [OF assms(4)] .
  also have "(10::nat) ^ length s \<le> 10 ^ 19" using assms(2) by (intro power_increasing) auto
  also have "(10::nat) ^ 19 < 2 ^ 64" by simp
  finally have "parse_uint 64 s \<noteq> None" using assms(1,4) by (simp add: parse_uint_def)
  then show ?thesis using assms by (simp add: parseUnsignedMetric_def)
qed

definition sample_table :: TableStatistics where
  "sample_table = \<lparr>ts_EstimatedRows = Some \<lparr>um_Value = ''12'', um_Estimated = True\<rparr>,
     ts_DataBytes = Some \<lparr>um_Value = ''16384'', um_Estimated = True\<rparr>, ts_IndexBytes = Some \<lparr>um_Value = ''0'', um_Estimated = True\<rparr>,
     ts_AutoIncrement = None\<rparr>"

definition sample_partition :: PartitionEntry where
  "sample_partition = \<lparr>pe_Name = ''p0'', pe_Ordinal = 1, pe_Statistics = \<lparr>ps_EstimatedRows = Some \<lparr>um_Value = ''12'', um_Estimated = True\<rparr>,
     ps_DataBytes = Some \<lparr>um_Value = ''16384'', um_Estimated = True\<rparr>, ps_IndexBytes = Some \<lparr>um_Value = ''0'', um_Estimated = True\<rparr>\<rparr>\<rparr>"

lemma sample_metrics:
  "parseUnsignedMetric (Some ''12'') e = Inr (Some \<lparr>um_Value = ''12'', um_Estimated = e\<rparr>)"
  "parseUnsignedMetric (Some ''16384'') e = Inr (Some \<lparr>um_Value = ''16384'', um_Estimated = e\<rparr>)"
  "parseUnsignedMetric (Some ''0'') e = Inr (Some \<lparr>um_Value = ''0'', um_Estimated = e\<rparr>)"
  "parseUnsignedMetric (Some ''1'') e = Inr (Some \<lparr>um_Value = ''1'', um_Estimated = e\<rparr>)"
  "parseUnsignedMetric None e = Inr None"
  by (rule small_metric; code_simp)+ (simp add: parseUnsignedMetric_def)

lemma sample_ordinal: "parseOrdinal (Some ''1'') = Inr 1"
proof -
  have "dec_value ''1'' = 1" "list_all is_digit ''1''" by code_simp+
  then show ?thesis by (simp add: parseOrdinal_def sample_metrics parse_uint_def maxPhysicalPartitionLeaves_def)
qed

lemma sample_server: "readServerInfo None (sx_server sample_run) = Inr
   \<lparr>si_version = ''8.0.36'', si_versionComment = ''MySQL Community Server'', si_lowerCaseTableNames = 0\<rparr>"
proof -
  have "version_parts ''8.0.36'' = [''8'', ''0'', ''36'']"
    "text_contains (lower_text (''8.0.36'' @ '' '' @ ''MySQL Community Server'')) ''mariadb'' = False" by code_simp+
  moreover have "dec_value ''8'' = 8 \<and> dec_value ''0'' = 0 \<and> list_all is_digit ''8'' \<and> list_all is_digit ''0''" by code_simp
  ultimately have "validateServerVersion ''8.0.36'' ''MySQL Community Server'' = None"
    by (simp add: validateServerVersion_def parse_int_def parse_uint_def)
  then show ?thesis by (simp add: readServerInfo_Inr sample_run_def)
qed

lemmas sample_defs = sample_run_def answered_rows_def single_row_def scan_row_def raw_text_def or_too_large_def Let_def
  tokenIdentifierMatches_def addEncodedSize_def MaxSupportedResultBytes_def

lemma sample_identity:
  "readInnoDBBaseTableIdentity None (sx_identity sample_run) sample_statistics 0 =
     Inr (\<lparr>ti_schema = ''shop'', ti_name = ''orders'', ti_engine = ''InnoDB''\<rparr>, 26)"
  by (simp add: readInnoDBBaseTableIdentity_def sample_defs sample_statistics_def nth_Cons')

lemma sample_table_read:
  "readTableStatistics None (sx_table sample_run) \<lparr>ti_schema = ''shop'', ti_name = ''orders'', ti_engine = ''InnoDB''\<rparr> 0 26 = Inr (sample_table, 60)"
  by (simp add: readTableStatistics_def sample_defs sample_metrics sample_table_def nth_Cons')

definition sample_partitioning :: PartitioningResult where
  "sample_partitioning = \<lparr>pt_Kind = ''partitioned'', pt_Method = ''hash'', pt_SubpartitionMethod = [], pt_Partitions = [sample_partition],
     pt_PartitionGroups = []\<rparr>"

lemma sample_sizes:
  "tableStatisticsMinimumEnvelopeSize ''ops'' ''v1'' ''main'' AdapterMySQL8 ''shop'' ''orders'' 1048576 = Some 294"
  "addTableStatisticsSize 294 sample_table 1048576 = Inr 377"
  "encodedPartitioningSize (sample_partitioning\<lparr>pt_Partitions := []\<rparr>) (1048576 - 362) = Some 54"
  "encodedPartitionEntrySize sample_partition (1048576 - 362 - 54) = Some 182"
  "boundedRawTotal 60 [Some ''shop'', Some ''orders'', Some ''p0'', Some ''1'', Some ''HASH'', None, None, None,
       Some ''12'', Some ''16384'', Some ''0''] = Some 85"
  by code_simp+

lemma sample_entry:
  "makePartitionEntry \<lparr>prw_partitionName = Some ''p0'', prw_partitionOrdinal = Some ''1'', prw_partitionMethod = Some ''HASH'',
     prw_subpartitionName = None, prw_subpartitionOrdinal = None, prw_subpartitionMethod = None,
     prw_estimatedRows = Some ''12'', prw_dataBytes = Some ''16384'', prw_indexBytes = Some ''0''\<rparr> = Inr (sample_partition, ''hash'')"
proof -
  have "list_all is_ascii ''p0''" by code_simp
  then have "validatedMetadataName (Some ''p0'') = Inr ''p0''"
    by (simp add: validatedMetadataName_def raw_text_def RuneCountInString_def ValidString_ascii runes_ascii IsControl_def isBidiFormattingRune_def)
  moreover have "mapPartitionMethod (Some ''HASH'') = Some ''hash''" by (simp add: mapPartitionMethod_def raw_text_def)
  ultimately show ?thesis by (simp add: makePartitionEntry_def makePartitionStatistics_def sample_metrics sample_ordinal sample_partition_def)
qed

lemma sample_partitions_read:
  "readPartitionStatistics (\<lambda>r. r) None (sx_partitions sample_run) \<lparr>ti_schema = ''shop'', ti_name = ''orders'', ti_engine = ''InnoDB''\<rparr>
     0 60 377 1048576 = Inr (sample_partitioning, 598, 1, 0)"
  using sample_sizes(3-5)
  by (simp add: readPartitionStatistics_def partition_row_def scan_partition_def partition_leaf_def partitioned_leaf_def leaf_kind_def
      sample_run_def answered_rows_def scan_row_def raw_text_def or_too_large_def Let_def tokenIdentifierMatches_def
      addEncodedSize_def sample_entry nonePartitioningBytes_def maxPhysicalPartitionLeaves_def
      availableMetadataName_def validTopPartitionMethod_def empty_partitioning_def sample_partitioning_def nth_Cons'
      del: boundedRawTotal.simps) (simp add: sample_partition_def)

lemma sample_statistics_read:
  "\<exists>r. Adapter_DescribeObjectStatistics (\<lambda>r. r) sample_run sample_statistics 294 = Inr r \<and> osr_Partitioning r = sample_partitioning"
proof -
  have now: "length (format_rfc3339nano (sx_now sample_run)) \<le> 30" "20 \<le> length (format_rfc3339nano (sx_now sample_run))"
    using length_format_rfc3339nano [of "sx_now sample_run"] by (auto simp: sample_run_def)
  have lim: "MaxResultBytes (os_limits sample_statistics) = 1048576" "DeadlineMS (os_limits sample_statistics) = 5000"
    by (simp_all add: sample_statistics_def sample_limits_def)
  have run: "sx_ctxErr sample_run = None" "sx_conn sample_run = None" "sx_clearDeadline sample_run = None"
    "sx_contextDeadline sample_run = None" "sx_setDeadline sample_run = None" by (simp_all add: sample_run_def)
  have st: "os_operation sample_statistics = OperationDescribeObjectStatistics" "os_adapter sample_statistics = AdapterMySQL8"
    "os_semanticsGeneration sample_statistics \<noteq> []"
    "os_semantics sample_statistics = \<lparr>CaseInsensitiveSchemas = False, CaseInsensitiveObjects = False, CaseInsensitiveFields = True\<rparr>"
    by (simp_all add: sample_statistics_def)
  have "addEncodedSize 598 (int (length (format_rfc3339nano (sx_now sample_run))) - 20) 1048576 =
      Some (578 + int (length (format_rfc3339nano (sx_now sample_run))))" using now by (simp add: addEncodedSize_def)
  then show ?thesis
    by (simp add: Adapter_DescribeObjectStatistics_def run lim st sample_server sample_identity sample_table_read sample_sizes(2)
        sample_partitions_read bindConnectionDeadline_def semanticsForLowerCaseTableNames_def or_too_large_def Let_def)
qed

section \<open>Adapter and service agree\<close>

text \<open>
  C7: whatever the server answers, the statistics the MySQL adapter returns pass the validation of the service, and
  the size the adapter counted is the length of the JSON the service sends, within the byte limit of the grant. So
  the service never rejects them as inconsistent.
\<close>

theorem adapter_statistics_are_delivered:
  assumes "tableStatisticsMinimumEnvelopeSize profileName policyVersion (os_datasource authorized) adapterName
      (os_schema authorized) (os_object authorized) maximum = Some base"
    and "Adapter_DescribeObjectStatistics simpleFold x authorized base = Inr r" and "valid_instant (sx_now x)"
  shows "validateObjectStatisticsResult simpleFold r = None \<and>
    (\<exists>sent. marshal_tableStatisticsResponse (statistics_response profileName policyVersion authorized adapterName r) = Some sent \<and>
       int (length sent) = osr_ResultBytes r \<and> int (length sent) \<le> MaxResultBytes (os_limits authorized))"
proof -
  note r = Adapter_DescribeObjectStatistics_ok [OF assms(2)]
  have "validateObjectStatisticsResult simpleFold r = None"
    using r(1,3,4) partitioning_ok_valid [OF r(2)] canonical_timestamp_now [OF assms(3)]
    by (simp add: validateObjectStatisticsResult_def table_ok_def metric_ok_valid)
  moreover from r(2) obtain p where "PartitioningResult_MarshalJSON (osr_Partitioning r) = Some p"
    by (auto simp: partitioning_ok_def PartitioningResult_MarshalJSON_def)
  then obtain sent where sent: "marshal_tableStatisticsResponse (statistics_response profileName policyVersion authorized adapterName r) = Some sent"
    by (auto simp: marshal_tableStatisticsResponse_def statistics_response_def)
  have stamp: "length (json_quote ''0000-00-00T00:00:00Z'') = 22" "length (json_quote ''InnoDB'') = 8" by code_simp+
  have "int (length sent) = osr_ResultBytes r"
    using length_statistics_payload [OF sent, of "sx_now x"] r(3-5) assms(1)
      string_sizes_exact [of 227 "[profileName, policyVersion, os_datasource authorized, adapterName, os_schema authorized,
        os_object authorized, ''0000-00-00T00:00:00Z'', ''InnoDB'']" maximum base]
    by (simp add: tableStatisticsMinimumEnvelopeSize_def statistics_response_def stamp split: if_splits)
  with sent r(6) have "\<exists>sent. marshal_tableStatisticsResponse (statistics_response profileName policyVersion authorized adapterName r) = Some sent \<and>
       int (length sent) = osr_ResultBytes r \<and> int (length sent) \<le> MaxResultBytes (os_limits authorized)" by auto
  ultimately show ?thesis by blast
qed

theorem adapter_statistics_are_delivered_witness:
  "\<exists>r sent. Adapter_DescribeObjectStatistics (\<lambda>r. r) sample_run sample_statistics 294 = Inr r \<and>
     osr_Partitioning r = sample_partitioning \<and> validateObjectStatisticsResult (\<lambda>r. r) r = None \<and>
     marshal_tableStatisticsResponse (statistics_response ''ops'' ''v1'' sample_statistics AdapterMySQL8 r) = Some sent \<and>
     int (length sent) = osr_ResultBytes r"
proof -
  obtain r where r: "Adapter_DescribeObjectStatistics (\<lambda>r. r) sample_run sample_statistics 294 = Inr r"
    "osr_Partitioning r = sample_partitioning" using sample_statistics_read by blast
  have "tableStatisticsMinimumEnvelopeSize ''ops'' ''v1'' (os_datasource sample_statistics) AdapterMySQL8
      (os_schema sample_statistics) (os_object sample_statistics) 1048576 = Some 294"
    using sample_sizes(1) by (simp add: sample_statistics_def)
  moreover have "days_in 2 2024 = 29" by (simp add: days_in_def is_leap_def)
  then have "valid_instant (sx_now sample_run)" by (simp add: valid_instant_def valid_date_def valid_clock_def sample_run_def)
  ultimately show ?thesis using adapter_statistics_are_delivered [OF _ r(1)] r by blast
qed

end
