(* ===== verification/Service_Capacity.thy ===== *)
theory Service_Capacity
  imports Query_Service Policy_Grants
begin

text \<open>
  Concurrent requests and the capacity channels of \<^verbatim>\<open>queryservice/service.go\<close>. A channel of capacity \<open>n\<close> is its number
  of tokens: a send in a \<open>select\<close> with a default succeeds when there is room, a receive blocks while there are none.
  Every request goes through \<open>acquireCapacity\<close> and the function it returns one channel operation at a time; between
  two operations of one request any operations of others may happen.
\<close>

section \<open>One channel operation\<close>

datatype gate_phase =
    Outside
  | HoldsGlobal BindingKey
  | Running BindingKey
  | ReturnsGlobal BindingKey

record gates =
  ga_global :: nat
  ga_binding :: "BindingKey \<Rightarrow> nat"
  ga_phases :: "gate_phase list"

definition enter :: "nat \<Rightarrow> gate_phase \<Rightarrow> gates \<Rightarrow> gates" where
  "enter i p g = g\<lparr>ga_phases := (ga_phases g)[i := p]\<rparr>"

text \<open>\<open>None\<close>: the operation blocks. A request outside asks for the capacity of \<open>key\<close>; if it is refused it stays outside.\<close>

definition receive_global :: "nat \<Rightarrow> gates \<Rightarrow> gates option" where
  "receive_global i g = (if ga_global g = 0 then None else Some (enter i Outside (g\<lparr>ga_global := ga_global g - 1\<rparr>)))"

definition gate_operation :: "('db, 'w) Service \<Rightarrow> BindingKey \<Rightarrow> nat \<Rightarrow> gates \<Rightarrow> gates option" where
  "gate_operation s key i g =
     (if i \<ge> length (ga_phases g) then None
      else case ga_phases g ! i of
        Outside \<Rightarrow>
          if ga_global g < sv_globalCapacity s
          then Some (enter i (HoldsGlobal key) (g\<lparr>ga_global := ga_global g + 1\<rparr>)) else Some g
      | HoldsGlobal k \<Rightarrow>
          (case sv_bindingCapacity s k of
             None \<Rightarrow> receive_global i g
           | Some n \<Rightarrow>
               if ga_binding g k < n
               then Some (enter i (Running k) (g\<lparr>ga_binding := (ga_binding g)(k := ga_binding g k + 1)\<rparr>))
               else receive_global i g)
      | Running k \<Rightarrow>
          if ga_binding g k = 0 then None
          else Some (enter i (ReturnsGlobal k) (g\<lparr>ga_binding := (ga_binding g)(k := ga_binding g k - 1)\<rparr>))
      | ReturnsGlobal k \<Rightarrow> receive_global i g)"

inductive interleaved :: "('db, 'w) Service \<Rightarrow> nat \<Rightarrow> gates \<Rightarrow> bool" for s n where
  start: "interleaved s n \<lparr>ga_global = 0, ga_binding = (\<lambda>_. 0), ga_phases = replicate n Outside\<rparr>"
| step: "interleaved s n g \<Longrightarrow> gate_operation s key i g = Some g' \<Longrightarrow> interleaved s n g'"

definition at_phase :: "(gate_phase \<Rightarrow> bool) \<Rightarrow> gates \<Rightarrow> nat" where
  "at_phase P g = length (filter P (ga_phases g))"

text \<open>
  Without interference the operations are \<open>acquireCapacity\<close> and the release of the handlers: the channels of a
  service state, seen as gates.
\<close>

definition gates_of :: "'w service_state \<Rightarrow> gate_phase list \<Rightarrow> gates" where
  "gates_of st ps = \<lparr>ga_global = ss_global st, ga_binding = ss_binding st, ga_phases = ps\<rparr>"

lemma acquireCapacity_operations:
  assumes "i < length ps" "ps ! i = Outside" "acquireCapacity s key st = (taken, st')"
  shows "Option.bind (gate_operation s key i (gates_of st ps)) (gate_operation s key i) =
    Some (gates_of st' (ps[i := (if taken then Running key else Outside)]))"
proof -
  have "ps[i := Outside] = ps" using assms(1,2) by (metis list_update_id)
  with assms show ?thesis
    by (auto simp: acquireCapacity_def gate_operation_def gates_of_def receive_global_def enter_def did_def Let_def
        split: if_splits option.splits)
qed

lemma releaseCapacity_operations:
  assumes "i < length ps" "ps ! i = Running key" "0 < ss_global st" "0 < ss_binding st key"
  shows "Option.bind (gate_operation s asked i (gates_of st ps)) (gate_operation s asked i) =
    Some (gates_of (releaseCapacity key st) (ps[i := Outside]))"
  using assms by (simp add: gate_operation_def gates_of_def receive_global_def enter_def releaseCapacity_def did_def)

section \<open>The token counts\<close>

lemma at_phase_enter:
  assumes "i < length (ga_phases g)"
  shows "at_phase P (enter i p g) + of_bool (P (ga_phases g ! i)) = at_phase P g + of_bool (P p)"
proof -
  have "i < length xs \<Longrightarrow> length (filter P (xs[i := p])) + of_bool (P (xs ! i)) = length (filter P xs) + of_bool (P p)" for xs
  proof (induction xs arbitrary: i)
    case (Cons x xs)
    then show ?case by (cases i) fastforce+
  qed simp
  with assms show ?thesis by (simp add: at_phase_def enter_def)
qed

lemma at_phase_cong: "ga_phases g = ga_phases g' \<Longrightarrow> at_phase P g = at_phase P g'"
  by (simp add: at_phase_def)

lemma at_phase_pos: "i < length (ga_phases g) \<Longrightarrow> P (ga_phases g ! i) \<Longrightarrow> 0 < at_phase P g"
  using nth_mem by (fastforce simp: at_phase_def filter_empty_conv)

definition tokens_counted :: "('db, 'w) Service \<Rightarrow> gates \<Rightarrow> bool" where
  "tokens_counted s g \<longleftrightarrow>
     ga_global g = at_phase (\<lambda>p. p \<noteq> Outside) g \<and> ga_global g \<le> sv_globalCapacity s \<and>
     (\<forall>k. ga_binding g k = at_phase (\<lambda>p. p = Running k) g \<and>
        ga_binding g k \<le> (case sv_bindingCapacity s k of None \<Rightarrow> 0 | Some n \<Rightarrow> n))"

lemma enter_simps [simp]:
  "ga_global (enter i p g) = ga_global g" "ga_binding (enter i p g) = ga_binding g"
  "length (ga_phases (enter i p g)) = length (ga_phases g)"
  by (simp_all add: enter_def)

text \<open>An operation that moves request \<open>i\<close> from one phase to another changes each count by what the two phases say.\<close>

lemma tokens_counted_move:
  assumes "tokens_counted s g" "i < length (ga_phases g)" "g' = enter i p h" "ga_phases h = ga_phases g"
    and "ga_global h + of_bool (ga_phases g ! i \<noteq> Outside) = ga_global g + of_bool (p \<noteq> Outside)"
    and "\<And>k. ga_binding h k + of_bool (ga_phases g ! i = Running k) = ga_binding g k + of_bool (p = Running k)"
    and "ga_global h \<le> sv_globalCapacity s"
    and "\<And>k. ga_binding h k \<le> (case sv_bindingCapacity s k of None \<Rightarrow> 0 | Some n \<Rightarrow> n)"
  shows "tokens_counted s g'"
proof -
  have h: "i < length (ga_phases h)" using assms(2,4) by simp
  have moved: "at_phase P g' + of_bool (P (ga_phases g ! i)) = at_phase P g + of_bool (P p)" for P
    using at_phase_enter [OF h, of P p] at_phase_cong [OF assms(4), of P] assms(3,4) by simp
  have "ga_global g' = at_phase (\<lambda>p. p \<noteq> Outside) g'"
    using moved [of "\<lambda>p. p \<noteq> Outside"] assms(1,3,5) unfolding tokens_counted_def by simp
  moreover have "ga_binding g' k = at_phase (\<lambda>p. p = Running k) g'" for k
    using moved [of "\<lambda>p. p = Running k"] assms(1,3) assms(6) [of k] unfolding tokens_counted_def by (simp add: eq_commute)
  ultimately show ?thesis using assms(3,7,8) unfolding tokens_counted_def by simp
qed

lemma tokens_counted_step:
  assumes "tokens_counted s g" "gate_operation s key i g = Some g'"
  shows "tokens_counted s g'"
proof -
  have i: "i < length (ga_phases g)" using assms(2) by (auto simp: gate_operation_def split: if_splits)
  have le: "ga_global g \<le> sv_globalCapacity s" "ga_binding g k \<le> (case sv_bindingCapacity s k of None \<Rightarrow> 0 | Some n \<Rightarrow> n)" for k
    using assms(1) unfolding tokens_counted_def by blast+
  show ?thesis
  proof (cases "g' = g")
    case False
    show ?thesis
    proof (cases "ga_phases g ! i")
      case Outside
      then show ?thesis
        using assms(2) i le False
        by (auto simp: gate_operation_def split: if_splits intro!: tokens_counted_move [OF assms(1) i])
    next
      case (HoldsGlobal k)
      then show ?thesis
        using assms(2) i le
        by (auto simp: gate_operation_def receive_global_def split: if_splits option.splits
            intro!: tokens_counted_move [OF assms(1) i])
    next
      case (Running k)
      then show ?thesis
        using assms(2) i le
        by (auto simp: gate_operation_def le_diff_conv split: if_splits intro!: tokens_counted_move [OF assms(1) i] le_SucI)
    next
      case (ReturnsGlobal k)
      then show ?thesis
        using assms(2) i le
        by (auto simp: gate_operation_def receive_global_def split: if_splits intro!: tokens_counted_move [OF assms(1) i])
    qed
  qed (use assms(1) in simp)
qed

lemma interleaved_counted: "interleaved s n g \<Longrightarrow> tokens_counted s g"
proof (induction rule: interleaved.induct)
  case start
  show ?case by (auto simp: tokens_counted_def at_phase_def split: option.splits)
next
  case (step g key i g')
  then show ?case by (blast intro: tokens_counted_step)
qed

lemma gate_operation_total:
  assumes "tokens_counted s g" "i < length (ga_phases g)"
  shows "\<exists>g'. gate_operation s key i g = Some g'"
proof -
  have "0 < at_phase (\<lambda>p. p \<noteq> Outside) g" if "ga_phases g ! i \<noteq> Outside"
    using at_phase_pos [of i g "\<lambda>p. p \<noteq> Outside"] assms(2) that by simp
  moreover have "0 < at_phase (\<lambda>p. p = Running k) g" if "ga_phases g ! i = Running k" for k
    using at_phase_pos [of i g "\<lambda>p. p = Running k"] assms(2) that by simp
  ultimately show ?thesis
    using assms by (auto simp: gate_operation_def receive_global_def tokens_counted_def split: gate_phase.splits option.splits)
qed

text \<open>
  C8: however requests interleave, at most \<open>MaxConcurrency\<close> of the hard limits run at once, for each binding at most its
  own limit, no request ever blocks on a channel, and when all have left, all tokens are back.
\<close>

theorem capacity_is_never_exceeded:
  assumes "interleaved s n g"
  shows "at_phase (\<lambda>p. \<exists>k. p = Running k) g \<le> sv_globalCapacity s \<and>
    at_phase (\<lambda>p. p = Running key) g \<le> (case sv_bindingCapacity s key of None \<Rightarrow> 0 | Some m \<Rightarrow> m) \<and>
    (\<forall>i < length (ga_phases g). \<exists>g'. gate_operation s asked i g = Some g') \<and>
    (set (ga_phases g) \<subseteq> {Outside} \<longrightarrow> ga_global g = 0 \<and> ga_binding g key = 0)"
proof -
  note inv = interleaved_counted [OF assms]
  have "at_phase (\<lambda>p. \<exists>k. p = Running k) g \<le> at_phase (\<lambda>p. p \<noteq> Outside) g"
    unfolding at_phase_def length_filter_conv_card by (rule card_mono) auto
  moreover have "at_phase (\<lambda>p. p \<noteq> Outside) g \<le> sv_globalCapacity s"
    "at_phase (\<lambda>p. p = Running key) g \<le> (case sv_bindingCapacity s key of None \<Rightarrow> 0 | Some m \<Rightarrow> m)"
    using inv unfolding tokens_counted_def by metis+
  moreover have "ga_global g = 0 \<and> ga_binding g key = 0" if "set (ga_phases g) \<subseteq> {Outside}"
    using inv that unfolding tokens_counted_def at_phase_def by (auto simp: filter_empty_conv)
  ultimately show ?thesis using gate_operation_total [OF inv, of _ asked] by (intro conjI allI impI) (auto intro: order_trans)
qed

text \<open>A deployment of the service over the sample policy and manager.\<close>

definition sample_service :: "(bool \<Rightarrow> Event \<Rightarrow> nat \<Rightarrow> string option \<times> nat) \<Rightarrow> (nat, nat) Service" where
  "sample_service write = \<lparr>sv_policy = sample_snapshot, sv_databases = sample_manager, sv_Write = write, sv_Ready = (\<lambda>_. True),
     sv_elapsed = (\<lambda>_. 0), sv_serviceVersion = ''1'', sv_globalCapacity = 1,
     sv_bindingCapacity = [\<lparr>key_Profile = ''ops'', key_Datasource = ''main''\<rparr> \<mapsto> 1],
     sv_queryShapeSupport = Map.empty\<rparr>"

theorem capacity_is_never_exceeded_witness:
  "\<exists>g. interleaved (sample_service (\<lambda>_ _ w. (None, w))) 2 g \<and>
     ga_phases g = [HoldsGlobal \<lparr>key_Profile = ''ops'', key_Datasource = ''main''\<rparr>, Outside] \<and>
     (\<exists>g'. gate_operation (sample_service (\<lambda>_ _ w. (None, w))) \<lparr>key_Profile = ''ops'', key_Datasource = ''main''\<rparr> 1 g = Some g')"
proof -
  let ?s = "sample_service (\<lambda>_ _ w. (None, w))" and ?k = "\<lparr>key_Profile = ''ops'', key_Datasource = ''main''\<rparr>"
  let ?g = "\<lparr>ga_global = 1, ga_binding = (\<lambda>_. 0), ga_phases = [HoldsGlobal ?k, Outside]\<rparr>"
  have "interleaved ?s 2 ?g"
    by (rule interleaved.step [OF interleaved.start, of ?s ?k 0])
      (simp add: gate_operation_def enter_def sample_service_def numeral_2_eq_2)
  then show ?thesis
    using capacity_is_never_exceeded [of ?s 2 ?g ?k ?k] by (intro exI [of _ ?g]) simp
qed

end
