(* ===== verification/Service_Audit.thy ===== *)
theory Service_Audit
  imports Service_Keyset Service_Statistics Service_Capacity
begin

text \<open>
  What the handlers do to the outside world, whatever the sink and the adapters answer. A run is \<^emph>\<open>served\<close> when it
  either reads nothing and fails, or reads once: directly after the allow record of exactly that access was written
  and capacity was taken, followed by one completion record and the release; a result is returned only after a
  completion record of success was written. The rules below compose handlers; each handler is then a few of them.
\<close>

section \<open>Served runs\<close>

definition genuine :: "('db, 'w) Service \<Rightarrow> action list \<Rightarrow> bool" where
  "genuine s new \<longleftrightarrow> (\<forall>e. Wrote e \<in> set new \<longrightarrow> (\<exists>detached w. fst (sv_Write s detached e w) = None))"

text \<open>The state moved on by some actions, with the capacity it had.\<close>

definition extends :: "('db, 'w) Service \<Rightarrow> 'w service_state \<Rightarrow> 'w service_state \<Rightarrow> action list \<Rightarrow> bool" where
  "extends s st st' new \<longleftrightarrow>
     ss_history st' = ss_history st @ new \<and> ss_global st' = ss_global st \<and> ss_binding st' = ss_binding st \<and> genuine s new"

fun quiet_action :: "action \<Rightarrow> bool" where
  "quiet_action (Wrote e) = True"
| "quiet_action (WriteFailed e) = True"
| "quiet_action (ReadSemantics d) = True"
| "quiet_action _ = False"

definition allow_record :: "Event \<Rightarrow> access \<Rightarrow> bool" where
  "allow_record e a \<longleftrightarrow>
     ev_Decision e = ''allow'' \<and> ev_Principal e = ac_principal a \<and> ev_PolicyProfile e = ac_profile a \<and>
     ev_Datasource e = ac_datasource a \<and> ev_Operation e = ac_operation a \<and> ev_Resources e = [ac_resource a] \<and>
     ev_Fields e = ac_fields a"

text \<open>
  What the policy permits an access to be: the profile is assigned to the principal for this datasource and operation,
  and its patterns, read with identifier semantics the datasource reported, allow the schema, the object and every
  field.
\<close>

definition reported :: "('db, 'w) Service \<Rightarrow> string \<Rightarrow> IdentifierSemantics \<Rightarrow> bool" where
  "reported s datasource sem \<longleftrightarrow> (\<exists>w. fst (Manager_IdentifierSemantics (sv_databases s) datasource w) = Inr sem)"

definition permitted_access :: "('db, 'w) Service \<Rightarrow> access \<Rightarrow> bool" where
  "permitted_access s a \<longleftrightarrow>
     (\<exists>profile sem. assigned (sv_policy s) (ac_principal a) (ac_profile a) (ac_datasource a) (ac_operation a) profile \<and>
        reported s (ac_datasource a) sem \<and>
        (let schema = res_Schema (ac_resource a); object = res_Object (ac_resource a) in
         resource_allowed (prof_Resources profile) sem [schema] \<and>
         (object \<noteq> [] \<longrightarrow> resource_allowed (prof_Resources profile) sem [schema, object]) \<and>
         (\<forall>field \<in> set (ac_fields a). resource_allowed (prof_Resources profile) sem [schema, object, field])))"

definition reads_once :: "('db, 'w) Service \<Rightarrow> action list \<Rightarrow> bool \<Rightarrow> bool" where
  "reads_once s new success \<longleftrightarrow>
     (\<exists>before e a f final. new = before @ [Wrote e, Acquired \<lparr>key_Profile = ac_profile a, key_Datasource = ac_datasource a\<rparr>,
          Ran a, final, Released \<lparr>key_Profile = ac_profile a, key_Datasource = ac_datasource a\<rparr>] \<and>
        list_all quiet_action before \<and> allow_record e a \<and> permitted_access s a \<and>
        (final = Wrote f \<or> final = WriteFailed f) \<and> (success \<longleftrightarrow> final = Wrote f \<and> ev_Outcome f = ''success''))"

definition served :: "('db, 'w) Service \<Rightarrow> action list \<Rightarrow> bool \<Rightarrow> bool" where
  "served s new success \<longleftrightarrow> \<not> success \<and> list_all quiet_action new \<or> reads_once s new success"

definition served_handler :: "('db, 'w) Service \<Rightarrow> ('w, 'a) handler \<Rightarrow> bool" where
  "served_handler s m \<longleftrightarrow>
     (\<forall>st. \<exists>new. extends s st (snd (m st)) new \<and> served s new (\<not> isl (fst (m st))))"

text \<open>Handlers that only write records and ask for semantics, those that moreover always fail, and those that end a reading.\<close>

definition quiet_handler :: "('db, 'w) Service \<Rightarrow> ('w, 'a) handler \<Rightarrow> bool" where
  "quiet_handler s m \<longleftrightarrow> (\<forall>st. \<exists>new. extends s st (snd (m st)) new \<and> list_all quiet_action new)"

definition refusing :: "('db, 'w) Service \<Rightarrow> ('w, 'a) handler \<Rightarrow> bool" where
  "refusing s m \<longleftrightarrow> quiet_handler s m \<and> (\<forall>st. isl (fst (m st)))"

definition finishing :: "('db, 'w) Service \<Rightarrow> ('w, 'a) handler \<Rightarrow> bool" where
  "finishing s m \<longleftrightarrow>
     (\<forall>st. \<exists>f final. extends s st (snd (m st)) [final] \<and> (final = Wrote f \<or> final = WriteFailed f) \<and>
        (\<not> isl (fst (m st)) \<longleftrightarrow> final = Wrote f \<and> ev_Outcome f = ''success''))"

section \<open>Composition\<close>

named_theorems serving \<open>rules that compose served handlers\<close>

lemma genuine_simps [simp]:
  "genuine s []" "genuine s (xs @ ys) \<longleftrightarrow> genuine s xs \<and> genuine s ys"
  "genuine s (WriteFailed e # xs) = genuine s xs" "genuine s (ReadSemantics d # xs) = genuine s xs"
  "genuine s (Ran a # xs) = genuine s xs" "genuine s (Acquired k # xs) = genuine s xs"
  "genuine s (Released k # xs) = genuine s xs"
  "genuine s (Wrote e # xs) \<longleftrightarrow> (\<exists>detached w. fst (sv_Write s detached e w) = None) \<and> genuine s xs"
  by (auto simp: genuine_def)

lemma extends_refl [simp]: "extends s st st []"
  by (simp add: extends_def)

lemma extends_trans: "extends s st st1 xs \<Longrightarrow> extends s st1 st2 ys \<Longrightarrow> extends s st st2 (xs @ ys)"
  by (simp add: extends_def)

lemma served_quiet_prefix: "list_all quiet_action xs \<Longrightarrow> served s ys success \<Longrightarrow> served s (xs @ ys) success"
  unfolding served_def reads_once_def
  by (elim disjE exE conjE) (simp, rule disjI2, rule_tac x = "xs @ before" in exI, auto)

lemma writeAudit_cases:
  obtains "fst (writeAudit s d e st) = Inr ()" "extends s st (snd (writeAudit s d e st)) [Wrote e]"
  | "isl (fst (writeAudit s d e st))" "extends s st (snd (writeAudit s d e st)) [WriteFailed e]"
proof (cases "sv_Write s d e (ss_world st)")
  case (Pair r w)
  have "\<exists>detached w. fst (sv_Write s detached e w) = None" if "r = None"
    using Pair that by (metis fst_conv)
  then show ?thesis
    using that Pair by (cases r) (auto simp: writeAudit_def did_def extends_def)
qed

lemma refusing_quiet: "refusing s m \<Longrightarrow> quiet_handler s m"
  by (simp add: refusing_def)

lemma refusing_served [serving]: "refusing s m \<Longrightarrow> served_handler s m"
  unfolding refusing_def quiet_handler_def served_handler_def served_def by blast

lemma quiet_writeAudit: "quiet_handler s (writeAudit s d e)"
  unfolding quiet_handler_def
proof
  fix st
  show "\<exists>new. extends s st (snd (writeAudit s d e st)) new \<and> list_all quiet_action new"
    by (rule writeAudit_cases [of s d e st]) force+
qed

lemma quiet_return: "quiet_handler s (svc_return v)"
  by (auto simp: quiet_handler_def svc_return_def intro!: exI [of _ "[]"])

lemma refusing_fail [serving]: "refusing s (svc_fail e)"
  by (auto simp: refusing_def quiet_handler_def svc_fail_def intro!: exI [of _ "[]"])

lemma svc_bind_eq: "svc_bind m k st = (case fst (m st) of Inl e \<Rightarrow> (Inl e, snd (m st)) | Inr v \<Rightarrow> k v (snd (m st)))"
  by (auto simp: svc_bind_def split: prod.splits sum.splits)

lemma quiet_bind: "quiet_handler s m \<Longrightarrow> (\<And>v. quiet_handler s (k v)) \<Longrightarrow> quiet_handler s (svc_bind m k)"
  unfolding quiet_handler_def svc_bind_eq
  by (force split: sum.splits intro: extends_trans)

lemma refusing_bind: "quiet_handler s m \<Longrightarrow> (\<And>v. refusing s (k v)) \<Longrightarrow> refusing s (svc_bind m k)"
  unfolding refusing_def using quiet_bind [of s m k] by (auto simp: svc_bind_eq split: sum.splits)

lemma served_bind [serving]:
  assumes "quiet_handler s m" "\<And>st v. fst (m st) = Inr v \<Longrightarrow> served_handler s (k v)"
  shows "served_handler s (svc_bind m k)"
  unfolding served_handler_def
proof
  fix st
  obtain xs where xs: "extends s st (snd (m st)) xs" "list_all quiet_action xs"
    using assms(1) by (auto simp: quiet_handler_def)
  show "\<exists>new. extends s st (snd (svc_bind m k st)) new \<and> served s new (\<not> isl (fst (svc_bind m k st)))"
  proof (cases "fst (m st)")
    case (Inl e)
    then show ?thesis using xs by (auto simp: svc_bind_eq served_def)
  next
    case (Inr v)
    obtain ys where "extends s (snd (m st)) (snd (k v (snd (m st)))) ys" "served s ys (\<not> isl (fst (k v (snd (m st)))))"
      using assms(2) [OF Inr] by (auto simp: served_handler_def)
    then show ?thesis
      using xs Inr by (auto simp: svc_bind_eq intro!: exI [of _ "xs @ ys"] extends_trans served_quiet_prefix)
  qed
qed

lemma served_lift [serving]:
  assumes "\<And>e. r = Inl e \<Longrightarrow> served_handler s (f e)" "\<And>v. r = Inr v \<Longrightarrow> served_handler s (k v)"
  shows "served_handler s (svc_lift r f k)"
  using assms by (cases r) (auto simp: svc_lift_def)

lemma served_check [serving]:
  assumes "r = None \<Longrightarrow> served_handler s k"
  shows "served_handler s (svc_check r g k)"
  using assms by (cases r) (auto simp: svc_check_def intro: refusing_served refusing_fail)

lemma served_if [serving]:
  assumes "P \<Longrightarrow> served_handler s m" "\<not> P \<Longrightarrow> served_handler s n"
  shows "served_handler s (if P then m else n)"
  using assms by simp

lemma read_semantics_cases:
  obtains e st' where "read_semantics s key failed k st = failed e st'" "extends s st st' [ReadSemantics (key_Datasource key)]"
  | sem st' where "read_semantics s key failed k st = k sem st'" "reported s (key_Datasource key) sem" "extends s st st' [ReadSemantics (key_Datasource key)]"
proof (cases "Manager_IdentifierSemantics (sv_databases s) (key_Datasource key) (ss_world st)")
  case (Pair r w)
  show ?thesis
  proof (cases r)
    case (Inl e)
    show ?thesis
      by (rule that(1)) (use Pair Inl in \<open>auto simp: read_semantics_def extends_def did_def\<close>)
  next
    case (Inr sem)
    show ?thesis
      by (rule that(2)) (use Pair Inr in \<open>auto simp: read_semantics_def extends_def did_def observeIdentifierSemantics_def reported_def intro: exI [of _ "ss_world st"]\<close>)
  qed
qed

lemma served_read_semantics [serving]:
  assumes "\<And>e. served_handler s (failed e)" "\<And>sem. reported s (key_Datasource key) sem \<Longrightarrow> served_handler s (k sem)"
  shows "served_handler s (read_semantics s key failed k)"
  unfolding served_handler_def
proof
  fix st
  have step: "\<exists>new. extends s st (snd (m st')) new \<and> served s new (\<not> isl (fst (m st')))"
    if m: "served_handler s m" and st': "extends s st st' [ReadSemantics (key_Datasource key)]" for m :: "('b, 'c) handler" and st'
  proof -
    obtain ys where "extends s st' (snd (m st')) ys" "served s ys (\<not> isl (fst (m st')))"
      using m by (auto simp: served_handler_def)
    then show ?thesis
      using extends_trans [OF st'] served_quiet_prefix [of "[ReadSemantics (key_Datasource key)]"] by force
  qed
  show "\<exists>new. extends s st (snd (read_semantics s key failed k st)) new \<and>
      served s new (\<not> isl (fst (read_semantics s key failed k st)))"
    by (rule read_semantics_cases [of s key failed k st]) (auto intro: step assms)
qed

section \<open>The reading itself\<close>

lemma acquireCapacity_cases:
  "acquireCapacity s key st = (False, st) \<or>
   (\<exists>st'. acquireCapacity s key st = (True, st') \<and> ss_history st' = ss_history st @ [Acquired key] \<and>
      ss_global st' = ss_global st + 1 \<and> ss_binding st' = (ss_binding st)(key := ss_binding st key + 1))"
  by (auto simp: acquireCapacity_def Let_def did_def split: option.splits)

lemma with_capacity_finishing:
  assumes "refusing s refused" "\<And>name r. finishing s (k name r)"
    and key: "key = \<lparr>key_Profile = ac_profile a, key_Datasource = ac_datasource a\<rparr>"
  shows "\<exists>new. extends s st (snd (with_capacity s key refused (run_database a call k) st)) new \<and>
    (isl (fst (with_capacity s key refused (run_database a call k) st)) \<and> list_all quiet_action new \<or>
     (\<exists>f final. new = [Acquired key, Ran a, final, Released key] \<and> (final = Wrote f \<or> final = WriteFailed f) \<and>
       (\<not> isl (fst (with_capacity s key refused (run_database a call k) st)) \<longleftrightarrow> final = Wrote f \<and> ev_Outcome f = ''success'')))"
proof (rule disjE [OF acquireCapacity_cases [of s key st]])
  assume "acquireCapacity s key st = (False, st)"
  then have eq: "with_capacity s key refused (run_database a call k) st = refused st" by (simp add: with_capacity_def)
  obtain new where "extends s st (snd (refused st)) new" "list_all quiet_action new" "isl (fst (refused st))"
    using assms(1) by (auto simp: refusing_def quiet_handler_def)
  then show ?thesis unfolding eq by blast
next
  assume "\<exists>st'. acquireCapacity s key st = (True, st') \<and> ss_history st' = ss_history st @ [Acquired key] \<and>
      ss_global st' = ss_global st + 1 \<and> ss_binding st' = (ss_binding st)(key := ss_binding st key + 1)"
  then obtain st1 where st1: "acquireCapacity s key st = (True, st1)" "ss_history st1 = ss_history st @ [Acquired key]"
    "ss_global st1 = ss_global st + 1" "ss_binding st1 = (ss_binding st)(key := ss_binding st key + 1)" by blast
  obtain r name w where call: "call (ss_world st1) = (r, name, w)" by (cases "call (ss_world st1)")
  let ?st2 = "did (Ran a) (st1\<lparr>ss_world := w\<rparr>)"
  obtain f final where fin: "extends s ?st2 (snd (k name r ?st2)) [final]" "final = Wrote f \<or> final = WriteFailed f"
    "\<not> isl (fst (k name r ?st2)) \<longleftrightarrow> final = Wrote f \<and> ev_Outcome f = ''success''"
    using assms(2) [of name r] unfolding finishing_def by blast
  have eq: "with_capacity s key refused (run_database a call k) st =
      (fst (k name r ?st2), releaseCapacity key (snd (k name r ?st2)))"
    by (simp add: with_capacity_def st1(1) run_database_def call split_beta)
  have "extends s st (releaseCapacity key (snd (k name r ?st2))) [Acquired key, Ran a, final, Released key]"
    using fin(1,2) st1 by (auto simp: extends_def releaseCapacity_def did_def)
  then show ?thesis unfolding eq using fin(2,3) by auto
qed

lemma served_reading [serving]:
  assumes "allow_record e a" "permitted_access s a" "refusing s refused" "\<And>name r. finishing s (k name r)"
    and key: "key = \<lparr>key_Profile = ac_profile a, key_Datasource = ac_datasource a\<rparr>"
  shows "served_handler s (svc_bind (writeAudit s d e) (\<lambda>_. with_capacity s key refused (run_database a call k)))"
  unfolding served_handler_def
proof
  fix st
  let ?m = "with_capacity s key refused (run_database a call k)"
  show "\<exists>new. extends s st (snd (svc_bind (writeAudit s d e) (\<lambda>_. ?m) st)) new \<and>
      served s new (\<not> isl (fst (svc_bind (writeAudit s d e) (\<lambda>_. ?m) st)))"
  proof (rule writeAudit_cases [of s d e st])
    assume w: "isl (fst (writeAudit s d e st))" "extends s st (snd (writeAudit s d e st)) [WriteFailed e]"
    then have "svc_bind (writeAudit s d e) (\<lambda>_. ?m) st = (Inl (projl (fst (writeAudit s d e st))), snd (writeAudit s d e st))"
      by (auto simp: svc_bind_eq split: sum.splits)
    with w show ?thesis by (auto simp: served_def)
  next
    assume w: "fst (writeAudit s d e st) = Inr ()" "extends s st (snd (writeAudit s d e st)) [Wrote e]"
    let ?st1 = "snd (writeAudit s d e st)"
    have eq: "svc_bind (writeAudit s d e) (\<lambda>_. ?m) st = ?m ?st1" by (simp add: svc_bind_eq w(1))
    obtain new where new: "extends s ?st1 (snd (?m ?st1)) new"
      "isl (fst (?m ?st1)) \<and> list_all quiet_action new \<or>
       (\<exists>f final. new = [Acquired key, Ran a, final, Released key] \<and> (final = Wrote f \<or> final = WriteFailed f) \<and>
         (\<not> isl (fst (?m ?st1)) \<longleftrightarrow> final = Wrote f \<and> ev_Outcome f = ''success''))"
      using with_capacity_finishing [of s refused k key a ?st1 call] assms(3,4) key by blast
    have "served s ([Wrote e] @ new) (\<not> isl (fst (?m ?st1)))"
    proof (cases "isl (fst (?m ?st1)) \<and> list_all quiet_action new")
      case False
      with new(2) obtain f final where "new = [Acquired key, Ran a, final, Released key]"
        "final = Wrote f \<or> final = WriteFailed f"
        "\<not> isl (fst (?m ?st1)) \<longleftrightarrow> final = Wrote f \<and> ev_Outcome f = ''success''" by blast
      then have "reads_once s ([Wrote e] @ new) (\<not> isl (fst (?m ?st1)))"
        unfolding reads_once_def using assms(1,2)
        by (intro exI [of _ "[]"] exI [of _ e] exI [of _ a] exI [of _ f] exI [of _ final]) (simp add: key)
      then show ?thesis by (simp add: served_def)
    qed (simp add: served_def)
    then show ?thesis unfolding eq using extends_trans [OF w(2) new(1)] by blast
  qed
qed

section \<open>The pieces of the handlers\<close>

lemma refusing_deny [serving]: "refusing s (deny s c p d op r h e)"
  unfolding deny_def writeDenial_def by (intro refusing_bind quiet_writeAudit refusing_fail)

lemma refusing_deny_unassigned [serving]: "refusing s (deny_unassigned s c p d op)"
  unfolding deny_unassigned_def by (rule refusing_deny)

lemma refusing_not_implemented [serving]: "refusing s (not_implemented s c t p d n op h)"
  unfolding not_implemented_def by (intro refusing_bind quiet_writeAudit refusing_fail)

lemma timed_rules [serving]:
  "(\<And>d. quiet_handler s (f d)) \<Longrightarrow> quiet_handler s (timed s f)"
  "(\<And>d. refusing s (g d)) \<Longrightarrow> refusing s (timed s g)"
  "(\<And>d. finishing s (h d)) \<Longrightarrow> finishing s (timed s h)"
  by (simp_all add: timed_def quiet_handler_def refusing_def finishing_def)

lemma finishing_failure: "ev_Outcome f \<noteq> ''success'' \<Longrightarrow> finishing s (svc_bind (writeAudit s d f) (\<lambda>_. svc_fail e))"
  unfolding finishing_def
proof
  fix st
  assume "ev_Outcome f \<noteq> ''success''"
  then show "\<exists>f' final. extends s st (snd (svc_bind (writeAudit s d f) (\<lambda>_. svc_fail e) st)) [final] \<and>
      (final = Wrote f' \<or> final = WriteFailed f') \<and>
      (\<not> isl (fst (svc_bind (writeAudit s d f) (\<lambda>_. svc_fail e) st)) \<longleftrightarrow> final = Wrote f' \<and> ev_Outcome f' = ''success'')"
    by (rule_tac writeAudit_cases [of s d f st])
      (auto simp: svc_bind_eq svc_fail_def split: sum.splits intro!: exI [of _ f])
qed

lemma finishing_success: "ev_Outcome f = ''success'' \<Longrightarrow> finishing s (svc_bind (writeAudit s d f) (\<lambda>_. svc_return v))"
  unfolding finishing_def
proof
  fix st
  assume "ev_Outcome f = ''success''"
  then show "\<exists>f' final. extends s st (snd (svc_bind (writeAudit s d f) (\<lambda>_. svc_return v) st)) [final] \<and>
      (final = Wrote f' \<or> final = WriteFailed f') \<and>
      (\<not> isl (fst (svc_bind (writeAudit s d f) (\<lambda>_. svc_return v) st)) \<longleftrightarrow> final = Wrote f' \<and> ev_Outcome f' = ''success'')"
    by (rule_tac writeAudit_cases [of s d f st])
      (auto simp: svc_bind_eq svc_return_def split: sum.splits intro!: exI [of _ f])
qed

lemma outcome_completion [simp]: "ev_Outcome (completion_event s c t p d n op outcome h rs fs meta) = outcome"
  by (simp add: completion_event_def base_event_def)

lemma refusing_completeQueryError [serving]: "refusing s (completeQueryError s c p d n op h rs fs meta e)"
  unfolding completeQueryError_def by (intro timed_rules refusing_bind quiet_writeAudit refusing_fail)

lemma refusing_completeSchemaError [serving]: "refusing s (completeSchemaError s c p d n op rs fs e)"
  unfolding completeSchemaError_def by (intro timed_rules refusing_bind quiet_writeAudit refusing_fail)

lemma finishing_completeQueryError [serving]: "finishing s (completeQueryError s c p d n op h rs fs meta e)"
  unfolding completeQueryError_def by (intro timed_rules finishing_failure) simp

lemma finishing_completeSchemaError [serving]: "finishing s (completeSchemaError s c p d n op rs fs e)"
  unfolding completeSchemaError_def by (intro timed_rules finishing_failure) simp

lemma finishing_lift [serving]:
  assumes "\<And>e. finishing s (f e)" "\<And>v. finishing s (k v)"
  shows "finishing s (svc_lift r f k)"
  using assms by (cases r) (simp_all add: svc_lift_def)

lemma quiet_precheckSourceText [serving]: "quiet_handler s (precheckSourceText s c b op h used)"
  unfolding precheckSourceText_def Let_def
  by (auto intro!: quiet_return timed_rules refusing_quiet refusing_deny refusing_bind quiet_writeAudit refusing_fail)

lemma quiet_prepareSchemaOperation [serving]: "quiet_handler s (prepareSchemaOperation s c p d op schema object)"
  unfolding prepareSchemaOperation_def Let_def svc_lift_def
  by (auto intro!: quiet_return refusing_quiet refusing_fail refusing_deny_unassigned refusing_not_implemented split: sum.splits)

lemma finishing_described_not_found [serving]: "finishing s m \<Longrightarrow> finishing s (described_not_found e m)"
proof -
  have "snd (described_not_found e m st) = snd (m st) \<and> isl (fst (described_not_found e m st)) = isl (fst (m st))" for st
    by (auto simp: described_not_found_def split: prod.splits sum.splits)
  then show "finishing s m \<Longrightarrow> finishing s (described_not_found e m)" by (simp add: finishing_def)
qed

section \<open>Permissions of the grants\<close>

lemma query_access_permitted:
  assumes "authorizeQuery (sv_policy s) b op q sem = Inr g" "reported s (key_Datasource (ab_key b)) sem"
  shows "permitted_access s (query_access g)"
proof -
  from assms(1) obtain profile where "profileForBinding (sv_policy s) b op = Inr profile"
    "ac_principal (query_access g) = ab_principal b" "ac_profile (query_access g) = key_Profile (ab_key b)"
    "ac_datasource (query_access g) = key_Datasource (ab_key b)" "ac_operation (query_access g) = op"
    "\<forall>name \<in> query_covers g. resource_allowed (prof_Resources profile) sem name"
    using authorizeQuery_contract [OF assms(1)] by (auto simp: authorizeQuery_Inr query_access_def Let_def)
  then show ?thesis
    using assms(2) unfolding permitted_access_def
    by (intro exI [of _ profile] exI [of _ sem])
      (auto simp: profileForBinding_Inr bound_to_def query_covers_def query_access_def Let_def)
qed

lemma AuthorizeAggregate_key:
  "AuthorizeAggregate hash p b q sem = Inr g \<Longrightarrow>
     aa_principal g = ab_principal b \<and> aa_profile g = key_Profile (ab_key b) \<and>
     aa_datasource g = key_Datasource (ab_key b) \<and> aa_operation g = OperationAggregate"
  unfolding AuthorizeAggregate_def Let_def lift_validation_def
  by (auto split: option.splits)

lemma aggregate_access_permitted:
  assumes "AuthorizeAggregate hash (sv_policy s) b q sem = Inr g" "reported s (key_Datasource (ab_key b)) sem"
  shows "permitted_access s (aggregate_access g)"
proof -
  have key: "ac_principal (aggregate_access g) = ab_principal b" "ac_profile (aggregate_access g) = key_Profile (ab_key b)"
    "ac_datasource (aggregate_access g) = key_Datasource (ab_key b)" "ac_operation (aggregate_access g) = OperationAggregate"
    using AuthorizeAggregate_key [OF assms(1)] by (simp_all add: aggregate_access_def Let_def)
  from aggregate_grant.granted [OF assms(1)] obtain profile where
    "profileForBinding (sv_policy s) b OperationAggregate = Inr profile"
    "\<forall>name \<in> aggregate_covers g. resource_allowed (prof_Resources profile) sem name" by blast
  then show ?thesis
    using assms(2) key unfolding permitted_access_def
    by (intro exI [of _ profile] exI [of _ sem])
      (auto simp: profileForBinding_Inr bound_to_def aggregate_covers_def aggregate_access_def Let_def)
qed

lemma schema_access_permitted:
  assumes "authorizeSchema (sv_policy s) b op object sem = Inr g" "reported s (key_Datasource (ab_key b)) sem"
    and "resource = \<lparr>res_Schema = ref_Schema object, res_Object = ref_Name object\<rparr>"
  shows "permitted_access s (schema_access g resource)"
proof -
  from assms(1) obtain profile where "profileForBinding (sv_policy s) b op = Inr profile"
    "schema_allowed (prof_Resources profile) sem (ref_Schema object)"
    "ref_Name object \<noteq> [] \<longrightarrow> object_allowed (prof_Resources profile) sem (ref_Schema object) (ref_Name object)"
    "sc_principal g = ab_principal b" "sc_profile g = key_Profile (ab_key b)"
    "sc_datasource g = key_Datasource (ab_key b)" "sc_operation g = op"
    by (auto simp: authorizeSchema_def split: if_splits)
  then show ?thesis
    using assms(2,3) unfolding permitted_access_def
    by (intro exI [of _ profile] exI [of _ sem]) (auto simp: profileForBinding_Inr schema_access_def Let_def)
qed

section \<open>The handlers\<close>

lemma authorised_query_key:
  "authorizeQuery p b op q sem = Inr g \<Longrightarrow> ac_principal (query_access g) = ab_principal b \<and>
     ac_profile (query_access g) = key_Profile (ab_key b) \<and> ac_datasource (query_access g) = key_Datasource (ab_key b) \<and>
     ac_operation (query_access g) = op"
  by (auto simp: authorizeQuery_Inr query_access_def Let_def)

lemma finishing_timed_success [serving]:
  "(\<And>d. ev_Outcome (f d) = ''success'') \<Longrightarrow> finishing s (timed s (\<lambda>d. svc_bind (writeAudit s t (f d)) (\<lambda>_. svc_return v)))"
  by (intro timed_rules finishing_success) simp

lemma served_Explain: "served_handler s (Service_Explain s c bodyBytes request)"
  unfolding Service_Explain_def Let_def AuthorizeExplain_def
  by (intro served_lift served_if served_bind [OF quiet_precheckSourceText] served_read_semantics served_reading
      refusing_served refusing_deny_unassigned refusing_fail refusing_not_implemented refusing_completeQueryError refusing_deny
      finishing_lift finishing_completeQueryError finishing_timed_success query_access_permitted)
    (auto simp: allow_record_def base_event_def AuthorizeBinding_Inr dest!: authorised_query_key)

lemma served_Select: "served_handler s (Service_Select s c bodyBytes request)"
  unfolding Service_Select_def Let_def AuthorizeSelect_def writeAllowDecision_def writeAllowDecisionWithMetadata_def
  by (intro served_lift served_if served_check served_bind [OF quiet_precheckSourceText] served_read_semantics served_reading
      refusing_served refusing_deny_unassigned refusing_fail refusing_not_implemented refusing_completeQueryError refusing_deny
      finishing_lift finishing_completeQueryError finishing_timed_success query_access_permitted)
    (auto simp: allow_record_def base_event_def AuthorizeBinding_Inr dest!: authorised_query_key)

lemma authorised_schema_key:
  "authorizeSchema p b op object sem = Inr g \<Longrightarrow> sc_principal g = ab_principal b \<and> sc_profile g = key_Profile (ab_key b) \<and>
     sc_datasource g = key_Datasource (ab_key b) \<and> sc_operation g = op"
  by (auto simp: authorizeSchema_def split: if_splits)

lemma schema_access_simps [simp]:
  "ac_principal (schema_access g r) = sc_principal g" "ac_profile (schema_access g r) = sc_profile g"
  "ac_datasource (schema_access g r) = sc_datasource g" "ac_operation (schema_access g r) = sc_operation g"
  "ac_resource (schema_access g r) = r" "ac_fields (schema_access g r) = []"
  by (simp_all add: schema_access_def)

text \<open>A prepared schema operation hands on a binding of the caller to the requested profile and datasource.\<close>

lemma prepareSchemaOperation_binding:
  assumes "fst (prepareSchemaOperation s c profileName datasource op schema object st) = Inr (b, limits, adapterName)"
  shows "ab_principal b = cl_principal c \<and> key_Profile (ab_key b) = profileName \<and> key_Datasource (ab_key b) = datasource"
  using assms
  by (auto simp: prepareSchemaOperation_def Let_def svc_lift_def svc_fail_def svc_return_def deny_unassigned_def deny_def
      not_implemented_def svc_bind_eq AuthorizeBinding_Inr split: if_splits sum.splits)

lemma served_prepared:
  assumes "\<And>b limits adapterName. ab_principal b = cl_principal c \<and> key_Profile (ab_key b) = profileName \<and>
      key_Datasource (ab_key b) = datasource \<Longrightarrow> served_handler s (k (b, limits, adapterName))"
  shows "served_handler s (svc_bind (prepareSchemaOperation s c profileName datasource op schema object) k)"
proof (rule served_bind [OF quiet_prepareSchemaOperation])
  fix st v
  assume v: "fst (prepareSchemaOperation s c profileName datasource op schema object st) = Inr v"
  obtain b limits adapterName where "v = (b, limits, adapterName)" by (cases v)
  with prepareSchemaOperation_binding v assms show "served_handler s (k v)" by fastforce
qed

lemma served_ListObjects: "served_handler s (Service_ListObjects s c profileName requested schema)"
  unfolding Service_ListObjects_def Let_def AuthorizeListObjects_def writeAllowDecision_def writeAllowDecisionWithMetadata_def
  by (rule served_prepared, simp,
      intro served_lift served_read_semantics served_reading refusing_served refusing_fail refusing_completeSchemaError
        refusing_deny finishing_lift finishing_completeSchemaError schema_access_permitted)
    (auto simp: allow_record_def base_event_def split_beta intro!: finishing_timed_success dest!: authorised_schema_key)

lemma served_DescribeObject: "served_handler s (Service_DescribeObject s c profileName requested object)"
  unfolding Service_DescribeObject_def Let_def AuthorizeDescribeObject_def writeAllowDecision_def writeAllowDecisionWithMetadata_def
  by (rule served_prepared, simp,
      intro served_lift served_read_semantics served_reading refusing_served refusing_fail refusing_completeSchemaError
        refusing_deny finishing_lift finishing_completeSchemaError finishing_described_not_found schema_access_permitted)
    (auto simp: allow_record_def base_event_def intro!: finishing_timed_success dest!: authorised_schema_key)

lemma refusing_refuse_aggregate: "refusing s (refuse_aggregate s c p key n h meta e)"
  unfolding refuse_aggregate_def by (auto intro: refusing_completeQueryError refusing_deny split: option.splits)

lemma refusing_timed_capacity:
  "refusing s (timed s (\<lambda>d. svc_bind (writeAudit s t (f d)) (\<lambda>_. svc_fail e)))"
  by (intro timed_rules refusing_bind quiet_writeAudit refusing_fail)

lemma served_Aggregate:
  fixes s :: "('db, 'w) Service"
  shows "served_handler s (Service_Aggregate s c bodyBytes request)"
proof -
  have guarded: "served_handler s (svc_bind (writeAudit s t e) (\<lambda>_. if P then completeQueryError s c p d n op h rs fs meta err else m))"
    if "served_handler s (svc_bind (writeAudit s t e) (\<lambda>_. m))" for t e P p d n op h rs fs meta err and m :: "('w, AggregateResponse) handler"
    using that by (cases P) (auto intro: refusing_served refusing_bind quiet_writeAudit refusing_completeQueryError)
  show ?thesis
    unfolding Service_Aggregate_def Let_def writeAllowDecision_def writeAllowDecisionWithMetadata_def
    by (intro served_lift served_if served_bind [OF quiet_precheckSourceText] served_read_semantics guarded served_reading
        refusing_served refusing_deny_unassigned refusing_fail refusing_not_implemented refusing_completeQueryError
        refusing_refuse_aggregate refusing_timed_capacity
        finishing_lift finishing_completeQueryError finishing_timed_success aggregate_access_permitted)
      (auto simp: allow_record_def base_event_def AuthorizeBinding_Inr aggregate_access_def Let_def dest!: AuthorizeAggregate_key)
qed

subsection \<open>Keyset pages\<close>

lemma keyset_access_permitted:
  assumes "AuthorizeKeysetSelect hash (sv_policy s) b credential adapterName q sem = Inr g"
    "reported s (key_Datasource (ab_key b)) sem"
  shows "permitted_access s (keyset_access g)"
proof -
  have key: "ac_principal (keyset_access g) = ab_principal b" "ac_profile (keyset_access g) = key_Profile (ab_key b)"
    "ac_datasource (keyset_access g) = key_Datasource (ab_key b)" "ac_operation (keyset_access g) = OperationSelectKeyset"
    using AuthorizeKeysetSelect_Inr [OF assms(1)] by (auto simp: keyset_access_def keyset_grant_def Let_def)
  from keyset_page_grant.granted [of hash "sv_policy s" b "(credential, adapterName, q)" sem g] assms(1) obtain profile where
    "profileForBinding (sv_policy s) b OperationSelectKeyset = Inr profile"
    "\<forall>name \<in> keyset_covers g. resource_allowed (prof_Resources profile) sem name" by auto
  then show ?thesis
    using assms(2) key unfolding permitted_access_def
    by (intro exI [of _ profile] exI [of _ sem])
      (auto simp: profileForBinding_Inr bound_to_def keyset_covers_def keyset_access_def Let_def)
qed

lemma AuthorizeKeysetSelect_key:
  "AuthorizeKeysetSelect hash p b credential adapterName q sem = Inr g \<Longrightarrow>
     ak_principal g = ab_principal b \<and> ak_profile g = key_Profile (ab_key b) \<and>
     ak_datasource g = key_Datasource (ab_key b) \<and> ak_operation g = OperationSelectKeyset"
  by (auto dest!: AuthorizeKeysetSelect_Inr simp: keyset_grant_def)

lemma refusing_refuse_keyset: "refusing s (refuse_keyset s c p key n h meta e)"
  unfolding refuse_keyset_def by (auto intro: refusing_completeQueryError refusing_deny split: option.splits)

lemma quiet_precheck_keyset: "quiet_handler s (precheck_keyset s c key h r)"
  unfolding precheck_keyset_def
  by (auto intro: quiet_return refusing_quiet refusing_fail refusing_deny split: option.splits)

lemma fail_keyset_rules:
  "refusing s (fail_keyset s c p d n h rs fs meta kind)" "finishing s (fail_keyset s c p d n h rs fs meta kind)"
  unfolding fail_keyset_def by (rule refusing_timed_capacity) (intro timed_rules finishing_failure, simp)

lemma finishing_deliver_keyset: "finishing s (deliver_keyset s c p g n h limits r)"
  unfolding deliver_keyset_def Let_def by (auto intro!: fail_keyset_rules finishing_timed_success)

lemma served_SelectKeyset: "served_handler s (Service_SelectKeyset s c bodyBytes request)"
  unfolding Service_SelectKeyset_def Let_def writeAllowDecisionWithMetadata_def writeKeysetOperationDenial_def
  by (intro served_lift served_if served_bind [OF quiet_precheckSourceText] served_bind [OF quiet_precheck_keyset]
      served_read_semantics served_reading refusing_served
      refusing_fail refusing_bind quiet_writeAudit refusing_timed_capacity refusing_completeQueryError
      refusing_refuse_keyset fail_keyset_rules finishing_lift finishing_completeQueryError finishing_deliver_keyset
      keyset_access_permitted)
    (auto simp: allow_record_def base_event_def AuthorizeBinding_Inr keyset_access_def Let_def dest!: AuthorizeKeysetSelect_key)

subsection \<open>Object statistics\<close>

lemma statistics_access_permitted:
  assumes "AuthorizeObjectStatistics (sv_policy s) b credential adapterName object sem = Inr g"
    "reported s (key_Datasource (ab_key b)) sem"
  shows "permitted_access s (statistics_access g)"
proof -
  from statistics_grant.granted [of "sv_policy s" b "(credential, adapterName, object)" sem g] assms(1) obtain profile where
    "profileForBinding (sv_policy s) b OperationDescribeObjectStatistics = Inr profile"
    "\<forall>name \<in> statistics_covers g. resource_allowed (prof_Resources profile) sem name" by auto
  then show ?thesis
    using assms unfolding permitted_access_def
    by (intro exI [of _ profile] exI [of _ sem])
      (auto simp: profileForBinding_Inr bound_to_def statistics_covers_def statistics_access_def Let_def AuthorizeObjectStatistics_def)
qed

lemma bind_timed: "svc_bind (timed s f) k = timed s (\<lambda>d. svc_bind (f d) k)"
  by (simp add: fun_eq_iff svc_bind_def timed_def)

lemma fail_statistics_rules:
  "refusing s (fail_statistics s c p d n outcome kind rs e)"
  "outcome \<noteq> ''success'' \<Longrightarrow> finishing s (fail_statistics s c p d n outcome kind rs e)"
  unfolding fail_statistics_def completeObjectStatistics_def bind_timed
  by (rule refusing_timed_capacity) (intro timed_rules finishing_failure, simp add: completion_event_def)

lemma statistics_database_error_rules:
  "refusing s (statistics_database_error s c p d n rs e)" "finishing s (statistics_database_error s c p d n rs e)"
  unfolding statistics_database_error_def by (intro fail_statistics_rules, simp?)+

lemma refusing_refuse_statistics: "refusing s (refuse_statistics s c p d n e)"
  unfolding refuse_statistics_def writeObjectStatisticsDenial_def Let_def by (intro refusing_bind quiet_writeAudit refusing_fail)

lemma finishing_deliver_statistics: "finishing s (deliver_statistics f s c p g n limits r)"
  unfolding deliver_statistics_def Let_def completeObjectStatistics_def bind_timed
  by (auto intro!: fail_statistics_rules finishing_timed_success simp: completion_event_def split: option.splits)

lemma served_DescribeObjectStatistics: "served_handler s (Service_DescribeObjectStatistics f s c profileName requested object)"
proof -
  have guarded: "served_handler s (svc_bind (writeAudit s t e) (\<lambda>_. case base of
      None \<Rightarrow> statistics_database_error s c p d n rs err | Some v \<Rightarrow> m v))"
    if "\<And>v. served_handler s (svc_bind (writeAudit s t e) (\<lambda>_. m v))" for c t e base p d n rs err and m :: "int \<Rightarrow> ('b, string) handler"
    using that by (cases base) (auto intro: refusing_served refusing_bind quiet_writeAudit statistics_database_error_rules)
  show ?thesis
    unfolding Service_DescribeObjectStatistics_def Let_def writeAllowDecision_def writeAllowDecisionWithMetadata_def
    by (intro served_lift served_if served_read_semantics guarded served_reading refusing_served refusing_fail refusing_deny
        fail_statistics_rules statistics_database_error_rules refusing_refuse_statistics finishing_lift finishing_deliver_statistics)
      ((erule statistics_access_permitted, assumption) |
       (auto simp: allow_record_def base_event_def AuthorizeBinding_Inr statistics_access_def AuthorizeObjectStatistics_def; fail))+
qed

section \<open>Properties\<close>

text \<open>
  C2: whatever the sink and the adapters answer, a handler either reads nothing and fails, or reads once: the allow
  record of exactly this access was written before, the policy permits the access under identifier semantics the
  datasource reported, capacity is held meanwhile and given back, one completion record follows, and a result is
  returned exactly when that record was written and says success.
\<close>

theorem data_access_is_audited_and_permitted:
  "served_handler s (Service_Explain s c bodyBytes request) \<and> served_handler s (Service_Select s c bodyBytes request) \<and>
   served_handler s (Service_Aggregate s c bodyBytes aggregate) \<and>
   served_handler s (Service_SelectKeyset s c bodyBytes page) \<and>
   served_handler s (Service_ListObjects s c profileName datasource schema) \<and>
   served_handler s (Service_DescribeObject s c profileName datasource object) \<and>
   served_handler s (Service_DescribeObjectStatistics simpleFold s c profileName datasource object)"
  by (intro conjI served_Explain served_Select served_Aggregate served_SelectKeyset served_ListObjects served_DescribeObject
      served_DescribeObjectStatistics)

text \<open>A handler over a sink that never writes returns an error and makes no adapter read data.\<close>

definition fails_closed :: "('w, 'a) handler \<Rightarrow> bool" where
  "fails_closed m \<longleftrightarrow>
     (\<forall>st. isl (fst (m st)) \<and> (\<forall>a. Ran a \<in> set (ss_history (snd (m st))) \<longrightarrow> Ran a \<in> set (ss_history st)))"

lemma served_fails_closed:
  assumes "served_handler s m" "\<And>d e w. fst (sv_Write s d e w) \<noteq> None"
  shows "fails_closed m"
  unfolding fails_closed_def
proof
  fix st
  obtain new where new: "extends s st (snd (m st)) new" "served s new (\<not> isl (fst (m st)))"
    using assms(1) unfolding served_handler_def by blast
  have none: "Wrote e \<notin> set new" for e using new(1) assms(2) by (auto simp: extends_def genuine_def)
  then have "\<not> reads_once s new success" for success unfolding reads_once_def by fastforce
  with new(2) have "isl (fst (m st))" "list_all quiet_action new" by (auto simp: served_def)
  with new(1) show "isl (fst (m st)) \<and> (\<forall>a. Ran a \<in> set (ss_history (snd (m st))) \<longrightarrow> Ran a \<in> set (ss_history st))"
    by (auto simp: extends_def list_all_iff)
qed

text \<open>C3: with a sink that cannot write, no request is answered and no adapter reads data.\<close>

theorem failing_sink_fails_closed:
  assumes "\<And>d e w. fst (sv_Write s d e w) \<noteq> None"
  shows "fails_closed (Service_Explain s c bodyBytes request) \<and> fails_closed (Service_Select s c bodyBytes request) \<and>
   fails_closed (Service_Aggregate s c bodyBytes aggregate) \<and>
   fails_closed (Service_SelectKeyset s c bodyBytes page) \<and>
   fails_closed (Service_ListObjects s c profileName datasource schema) \<and>
   fails_closed (Service_DescribeObject s c profileName datasource object) \<and>
   fails_closed (Service_DescribeObjectStatistics simpleFold s c profileName datasource object)"
  by (intro conjI served_fails_closed [OF served_Explain] served_fails_closed [OF served_Select]
      served_fails_closed [OF served_Aggregate] served_fails_closed [OF served_SelectKeyset]
      served_fails_closed [OF served_ListObjects]
      served_fails_closed [OF served_DescribeObject] served_fails_closed [OF served_DescribeObjectStatistics] assms)

theorem failing_sink_fails_closed_witness:
  "\<forall>c. fails_closed (Service_Select (sample_service (\<lambda>_ _ w. (Some ''disk full'', w))) c 10
     \<lparr>rq_Profile = ''ops'', rq_Datasource = ''main'', rq_Query = sample_spec\<rparr>)"
  using failing_sink_fails_closed [of "sample_service (\<lambda>_ _ w. (Some ''disk full'', w))"]
  by (simp add: sample_service_def)

end
