(* ===== verification/Service_Results.thy ===== *)
theory Service_Results
  imports Service_Audit
begin

text \<open>
  What the handlers return when they return: rules that follow the result of a handler, whatever the outside world
  does, and what they give for keyset pages and for the schema operations.
\<close>

section \<open>Results of handlers\<close>

definition returns_only :: "('a \<Rightarrow> bool) \<Rightarrow> ('w, 'a) handler \<Rightarrow> bool" where
  "returns_only P m \<longleftrightarrow> (\<forall>st v. fst (m st) = Inr v \<longrightarrow> P v)"

lemma returns_onlyD: "returns_only P m \<Longrightarrow> fst (m st) = Inr v \<Longrightarrow> P v"
  by (simp add: returns_only_def)

lemma returns_refusing: "refusing s m \<Longrightarrow> returns_only P m"
  unfolding refusing_def returns_only_def by (metis isl_def sum.distinct(1))

lemma returns_fail: "returns_only P (svc_fail e)"
  by (simp add: returns_only_def svc_fail_def)

lemma returns_return: "P v \<Longrightarrow> returns_only P (svc_return v)"
  by (simp add: returns_only_def svc_return_def)

lemma returns_bind:
  assumes "\<And>st v. fst (m st) = Inr v \<Longrightarrow> returns_only P (k v)"
  shows "returns_only P (svc_bind m k)"
  unfolding returns_only_def svc_bind_eq
proof (intro allI impI)
  fix st v
  assume r: "fst (case fst (m st) of Inl e \<Rightarrow> (Inl e, snd (m st)) | Inr w \<Rightarrow> k w (snd (m st))) = Inr v"
  then obtain w where w: "fst (m st) = Inr w" by (cases "fst (m st)") auto
  with r assms [OF w] show "P v" by (simp add: returns_only_def)
qed

lemma returns_lift:
  "(\<And>e. r = Inl e \<Longrightarrow> returns_only P (f e)) \<Longrightarrow> (\<And>v. r = Inr v \<Longrightarrow> returns_only P (k v)) \<Longrightarrow> returns_only P (svc_lift r f k)"
  by (cases r) (auto simp: svc_lift_def)

lemma returns_if: "(C \<Longrightarrow> returns_only P m) \<Longrightarrow> (\<not> C \<Longrightarrow> returns_only P n) \<Longrightarrow> returns_only P (if C then m else n)"
  by simp

lemma returns_timed: "(\<And>d. returns_only P (f d)) \<Longrightarrow> returns_only P (timed s f)"
  by (simp add: returns_only_def timed_def)

lemma returns_read_semantics:
  assumes "\<And>e. returns_only P (failed e)" "\<And>sem. reported s (key_Datasource key) sem \<Longrightarrow> returns_only P (k sem)"
  shows "returns_only P (read_semantics s key failed k)"
  unfolding returns_only_def
proof (intro allI impI)
  fix st v
  assume v: "fst (read_semantics s key failed k st) = Inr v"
  show "P v"
  proof (rule read_semantics_cases [of s key failed k st])
    fix e st'
    assume "read_semantics s key failed k st = failed e st'"
    with v returns_onlyD [OF assms(1) [of e]] show "P v" by simp
  next
    fix sem st'
    assume "read_semantics s key failed k st = k sem st'" "reported s (key_Datasource key) sem"
    with v returns_onlyD [OF assms(2) [of sem]] show "P v" by simp
  qed
qed

lemma returns_with_capacity:
  "returns_only P refused \<Longrightarrow> returns_only P body \<Longrightarrow> returns_only P (with_capacity s key refused body)"
  unfolding returns_only_def with_capacity_def by (auto split: prod.splits bool.splits) (metis fst_conv)

text \<open>A result of the manager is one its call can give in some world.\<close>

lemma returns_run_database:
  fixes call :: "('b, 'r) manager_call"
  assumes "\<And>name r w. fst (call w) = r \<Longrightarrow> returns_only P (k name r)"
  shows "returns_only P (run_database a call k)"
  unfolding returns_only_def run_database_def
proof (intro allI impI)
  fix st :: "'b service_state" and v
  obtain r name w where c: "call (ss_world st) = (r, name, w)" by (cases "call (ss_world st)")
  assume "fst (case call (ss_world st) of (r, adapterName, w) \<Rightarrow> k adapterName r (did (Ran a) (st\<lparr>ss_world := w\<rparr>))) = Inr v"
  then show "P v" using assms [of "ss_world st" r name] c by (auto intro: returns_onlyD)
qed

section \<open>Keyset pages\<close>

definition matching_cursor :: "KeysetResponse \<Rightarrow> KeysetCursorValue \<Rightarrow> bool" where
  "matching_cursor r c \<longleftrightarrow>
     (\<exists>i t. i < length (kz_Columns r) \<and> last (kz_Rows r) ! i = Some t \<and> keysetCursorMatchesCell c (kz_Columns r ! i) t)"

definition wellformed_cell :: "string option \<Rightarrow> ResultColumn \<Rightarrow> bool" where
  "wellformed_cell v column \<longleftrightarrow>
     (case v of None \<Rightarrow> rc_Nullable column | Some t \<Rightarrow> validKeysetResponseCell t (rc_Type column))"

definition wellformed_page :: "KeysetResponse \<Rightarrow> bool" where
  "wellformed_page r \<longleftrightarrow>
     kz_RowCount r = int (length (kz_Rows r)) \<and> distinct (map rc_Name (kz_Columns r)) \<and>
     (\<forall>row \<in> set (kz_Rows r). list_all2 wellformed_cell row (kz_Columns r)) \<and>
     kz_Truncated r = kp_HasMore (kz_Page r) \<and> (kp_HasMore (kz_Page r) \<longleftrightarrow> kp_NextCursor (kz_Page r) \<noteq> None) \<and>
     (\<forall>cs. kp_NextCursor (kz_Page r) = Some cs \<longrightarrow> kz_Rows r \<noteq> [] \<and> list_all (matching_cursor r) cs)"

lemma response_columns_None:
  "response_columns_error outputs ps = None \<Longrightarrow>
     distinct (map (rc_Name \<circ> snd) ps) \<and> set (map (rc_Name \<circ> snd) ps) \<inter> set outputs = {}"
proof (induction outputs ps rule: response_columns_error.induct)
  case (2 outputs projection column rest)
  from 2(2) have "rc_Name column \<notin> set outputs" "response_columns_error (rc_Name column # outputs) rest = None"
    by (auto simp: response_column_error_def Let_def)
  with 2(1) show ?case by auto
qed simp

lemma response_row_None: "response_row_error columns row = None \<longleftrightarrow> list_all2 wellformed_cell row columns"
proof -
  have "range_error (\<lambda>_ (v, column). case v of
      None \<Rightarrow> fail_if (\<not> rc_Nullable column) ''invalid null keyset cell''
    | Some t \<Rightarrow> fail_if (\<not> validKeysetResponseCell t (rc_Type column)) ''invalid keyset cell'') ps = None \<longleftrightarrow>
      (\<forall>p \<in> set ps. wellformed_cell (fst p) (snd p))" for ps
    by (rule range_error_None_set) (auto simp: wellformed_cell_def split: option.splits)
  then show ?thesis by (auto simp: response_row_error_def list_all2_iff)
qed

lemma key_projection_less: "key_projection field index found ss = Inr i \<Longrightarrow> (\<forall>j \<in> set_option found. j < index) \<Longrightarrow> i < index + length ss"
  by (induction field index found ss rule: key_projection.induct) (fastforce split: option.splits if_splits)+

lemma validateKeysetResponse_wellformed:
  assumes "validateKeysetResponse r request = None"
  shows "wellformed_page r"
proof -
  let ?p = "ks_Projection (nk_Query request)" and ?o = "ks_OrderBy (nk_Query request)"
  from assms have len: "length (kz_Columns r) = length ?p" and count: "kz_RowCount r = int (length (kz_Rows r))"
    and more: "kz_Truncated r = kp_HasMore (kz_Page r)" "kp_HasMore (kz_Page r) \<longleftrightarrow> kp_NextCursor (kz_Page r) \<noteq> None"
    and cont: "kp_HasMore (kz_Page r) \<Longrightarrow> kz_Rows r \<noteq> []"
      "kp_NextCursor (kz_Page r) = Some cs \<Longrightarrow> length cs = length ?o"
    and cols: "response_columns_error [] (zip ?p (kz_Columns r)) = None"
    and rows: "range_error (\<lambda>_ row. response_row_error (kz_Columns r) row) (kz_Rows r) = None"
    and keys: "kp_NextCursor (kz_Page r) = Some cs \<Longrightarrow>
      range_error (\<lambda>_. response_key_error ?p (kz_Columns r) (last (kz_Rows r))) (zip ?o cs) = None" for cs
    by (auto simp: validateKeysetResponse_def Let_def split: if_splits)
  have "matching_cursor r c" if cs: "kp_NextCursor (kz_Page r) = Some cs" "c \<in> set cs" for cs c
  proof -
    obtain o' where "(o', c) \<in> set (zip ?o cs)" using in_set_impl_in_set_zip2 [OF cont(2) [OF cs(1), symmetric] cs(2)] by blast
    with keys [OF cs(1)] have "response_key_error ?p (kz_Columns r) (last (kz_Rows r)) (o', c) = None"
      by (auto simp: range_error_None in_set_conv_nth)
    then obtain i t where "key_projection (sort_Field o') 0 None ?p = Inr i" "last (kz_Rows r) ! i = Some t"
      "keysetCursorMatchesCell c (kz_Columns r ! i) t"
      by (auto simp: response_key_error_def split: sum.splits option.splits)
    with key_projection_less [of "sort_Field o'" 0 None ?p i] len show ?thesis by (auto simp: matching_cursor_def)
  qed
  moreover have "map (rc_Name \<circ> snd) (zip ?p (kz_Columns r)) = map rc_Name (kz_Columns r)"
    using len by (simp flip: map_map)
  ultimately show ?thesis
    using count more cont(1) response_columns_None [OF cols] rows
    by (auto simp: wellformed_page_def list_all_iff range_error_None in_set_conv_nth response_row_None)
qed

lemma returns_deliver_keyset:
  "returns_only (\<lambda>r. wellformed_page r \<and> kz_encodedJSON r = marshal_KeysetResponse r \<and>
     int (length (kz_encodedJSON r)) \<le> MaxResultBytes limits) (deliver_keyset s c p g n h limits result)"
proof -
  have same: "marshal_KeysetResponse (r\<lparr>kz_encodedJSON := e\<rparr>) = marshal_KeysetResponse r"
    "wellformed_page (r\<lparr>kz_encodedJSON := e\<rparr>) = wellformed_page r" for r e
    by (auto simp: marshal_KeysetResponse_def wellformed_page_def matching_cursor_def list_all_iff)
  show ?thesis
    unfolding deliver_keyset_def Let_def
    by (intro returns_if returns_refusing [OF fail_keyset_rules(1)] returns_timed returns_bind returns_return)
      (auto simp: same dest: validateKeysetResponse_wellformed)
qed


section \<open>Listings and descriptions\<close>

lemma bounded_loop_exact:
  assumes "\<And>x. cost x = int (length (text x))" "0 \<le> start"
  shows "bounded_loop cost maximum index start xs = Inr n \<Longrightarrow>
    n = start + int (sum_list (map (\<lambda>x. 1 + length (text x)) xs)) - (if index = 0 \<and> xs \<noteq> [] then 1 else 0) \<and> (xs = [] \<or> n \<le> maximum)"
  using assms(2)
proof (induction xs arbitrary: index start)
  case (Cons x xs)
  let ?m = "start + (cost x + (if index \<noteq> 0 then 1 else 0))"
  have pos: "0 \<le> cost x" by (simp add: assms(1))
  from Cons.prems pos have m: "?m \<le> maximum" "0 \<le> ?m"
    and rest: "bounded_loop cost maximum (index + 1) ?m xs = Inr n"
    by (auto simp: addBoundedSize_def split: option.splits if_splits)
  from Cons.IH [OF rest m(2)] m assms(1) [of x] show ?case by auto
qed simp

definition marshal_objects :: "SchemaObject list \<Rightarrow> string" where
  "marshal_objects objects = json_object [(''objects'', json_array (map marshal_SchemaObject objects))]"

lemma list_all_objects: "list_all is_word ''objects''"
  by code_simp

lemma length_comma_separated:
  "int (length (comma_separated (map f xs))) = int (sum_list (map (\<lambda>x. 1 + length (f x)) xs)) - (if xs \<noteq> [] then 1 else 0)"
  by (cases xs) (simp_all add: comma_separated_def length_join_comma comp_def)

lemma boundedObjectListResult_exact:
  assumes "boundedObjectListResult objects maximum = Inr n"
  shows "n = int (length (marshal_objects objects)) \<and> n \<le> maximum"
proof -
  have cost: "9 + service_encodedJSONStringSize (so_Name x) = int (length (marshal_SchemaObject x))" for x
    using member_names by (simp add: service_encodedJSONStringSize_exact marshal_SchemaObject_def json_object_def comma_separated_def)
  from assms have le: "14 \<le> maximum"
    and loop: "bounded_loop (\<lambda>x. 9 + service_encodedJSONStringSize (so_Name x)) maximum 0 14 objects = Inr n"
    by (auto simp: boundedObjectListResult_def addBoundedSize_def split: if_splits)
  have "int (length (marshal_objects objects)) = 14 + int (length (comma_separated (map marshal_SchemaObject objects)))"
    by (simp add: marshal_objects_def json_object_def comma_separated_def [of "[_]"] json_array_def
        length_json_quote_word [OF list_all_objects])
  with bounded_loop_exact [OF cost _ loop] le show ?thesis by (auto simp: length_comma_separated)
qed

lemma boundedObjectDescriptionResult_exact:
  assumes "boundedObjectDescriptionResult d maximum = Inr n"
  shows "n = int (length (marshal_ObjectDescription (od_Schema d) (od_Name d) (od_Columns d))) \<and> n \<le> maximum"
proof -
  let ?base = "32 + service_encodedJSONStringSize (od_Schema d) + service_encodedJSONStringSize (od_Name d)"
  have cost: "service_encodedColumnDescriptionSize x = int (length (marshal_ColumnDescription x))" for x
    using member_names
    by (simp add: service_encodedColumnDescriptionSize_def service_encodedJSONStringSize_exact marshal_ColumnDescription_def
        json_object_def comma_separated_def encodedJSONBooleanSize_def json_bool_def)
  from assms have le: "?base \<le> maximum"
    and loop: "bounded_loop service_encodedColumnDescriptionSize maximum 0 ?base (od_Columns d) = Inr n"
    by (auto simp: boundedObjectDescriptionResult_def Let_def split: if_splits)
  have "int (length (marshal_ObjectDescription (od_Schema d) (od_Name d) (od_Columns d))) =
      ?base + int (length (comma_separated (map marshal_ColumnDescription (od_Columns d))))"
    using member_names
    by (simp add: marshal_ObjectDescription_def json_object_def comma_separated_def [of "_ # _ # _"] json_array_def
        service_encodedJSONStringSize_exact)
  moreover have "0 \<le> ?base" by (simp add: service_encodedJSONStringSize_exact)
  ultimately show ?thesis using bounded_loop_exact [OF cost _ loop] le by (auto simp: length_comma_separated)
qed

text \<open>What the profile of a caller allows, under identifier semantics the datasource reported.\<close>

definition allowed_by_profile ::
  "('db, 'w) Service \<Rightarrow> string \<Rightarrow> string \<Rightarrow> string \<Rightarrow> Operation \<Rightarrow> string list \<Rightarrow> bool" where
  "allowed_by_profile s caller_name profileName datasource operation resource \<longleftrightarrow>
     (\<exists>profile sem. assigned (sv_policy s) caller_name profileName datasource operation profile \<and> reported s datasource sem \<and>
        resource_allowed (prof_Resources profile) sem resource)"

lemma dispatch_Inr:
  "fst (dispatch m d op ok name interface run w) = Inr v \<Longrightarrow> \<exists>f db w'. fst (run f db w') = Inr v"
  unfolding dispatch_def by (auto simp: split_beta split: if_splits sum.splits option.splits)

lemma map_call_Inr: "fst (map_call g call w) = Inr v \<Longrightarrow> \<exists>u. v = g u"
  by (auto simp: map_call_def split_beta split: prod.splits sum.splits)

lemma Manager_ListObjects_allowed:
  "fst (Manager_ListObjects m a w) = Inr objects \<Longrightarrow> \<forall>object \<in> set objects. IsIdentifier (so_Name object) \<and> AllowsObject a (so_Name object)"
  unfolding Manager_ListObjects_def
  by (drule dispatch_Inr) (auto dest!: map_call_Inr)

lemma Manager_DescribeObject_allowed:
  "fst (Manager_DescribeObject m a w) = Inr d \<Longrightarrow> \<forall>column \<in> set (od_Columns d). IsIdentifier (cd_Name column) \<and> AllowsField a (cd_Name column)"
  unfolding Manager_DescribeObject_def
  by (drule dispatch_Inr) (auto dest!: map_call_Inr)

lemma authorised_schema_semantics:
  assumes "authorizeSchema p b op object sem = Inr g"
  shows "sc_semantics g = sem \<and> sc_schema g = ref_Schema object \<and> sc_object g = ref_Name object \<and>
    (\<exists>profile. profileForBinding p b op = Inr profile \<and> sc_resources g = prof_Resources profile)"
  using assms by (auto simp: authorizeSchema_def split: if_splits)

lemma prepared_binding:
  assumes "fst (prepareSchemaOperation s c profileName datasource op schema object st) = Inr (b, limits, adapterName)"
  shows "AuthorizeBinding (sv_policy s) (cl_principal c) profileName datasource op = Inr b \<and> limits = ab_limits b"
  using assms
  by (auto simp: prepareSchemaOperation_def Let_def svc_lift_def svc_fail_def svc_return_def deny_unassigned_def deny_def
      not_implemented_def svc_bind_eq split: if_splits sum.splits)

text \<open>A grant of a schema operation allows only what the profile allows.\<close>

lemma schema_grant_allows:
  assumes "AuthorizeBinding (sv_policy s) (cl_principal c) profileName datasource op = Inr b"
    and "authorizeSchema (sv_policy s) b op object sem = Inr g" "reported s (key_Datasource (ab_key b)) sem"
  shows "AllowsObject g name \<Longrightarrow> allowed_by_profile s (cl_principal c) profileName datasource op [ref_Schema object, name]"
    and "AllowsField g name \<Longrightarrow> allowed_by_profile s (cl_principal c) profileName datasource op [ref_Schema object, ref_Name object, name]"
proof -
  from authorised_schema_semantics [OF assms(2)] obtain profile where g: "sc_semantics g = sem" "sc_schema g = ref_Schema object"
    "sc_object g = ref_Name object" "profileForBinding (sv_policy s) b op = Inr profile" "sc_resources g = prof_Resources profile"
    by blast
  with assms(1,3) have "assigned (sv_policy s) (cl_principal c) profileName datasource op profile" "reported s datasource sem"
    by (auto simp: AuthorizeBinding_Inr profileForBinding_Inr)
  with g show "AllowsObject g name \<Longrightarrow> allowed_by_profile s (cl_principal c) profileName datasource op [ref_Schema object, name]"
    "AllowsField g name \<Longrightarrow> allowed_by_profile s (cl_principal c) profileName datasource op [ref_Schema object, ref_Name object, name]"
    by (auto simp: allowed_by_profile_def AllowsObject_def AllowsField_def split: if_splits)
qed

lemma prepared_limits:
  "AuthorizeBinding p principalName profileName datasource op = Inr b \<Longrightarrow> MaxResultBytes (ab_limits b) \<le> MaxResultBytes (hardLimits p)"
  by (auto simp: AuthorizeBinding_Inr Limits_Min_def)

lemma returns_prepared:
  assumes "\<And>b adapterName. AuthorizeBinding (sv_policy s) (cl_principal c) profileName datasource op = Inr b \<Longrightarrow>
      returns_only P (k (b, ab_limits b, adapterName))"
  shows "returns_only P (svc_bind (prepareSchemaOperation s c profileName datasource op schema object) k)"
proof (rule returns_bind)
  fix st v
  assume v: "fst (prepareSchemaOperation s c profileName datasource op schema object st) = Inr v"
  obtain b limits adapterName where "v = (b, limits, adapterName)" by (cases v)
  with v prepared_binding assms show "returns_only P (k v)" by fastforce
qed

lemma returns_ListObjects:
  "returns_only (\<lambda>r. (\<forall>object \<in> set (ol_Objects r). allowed_by_profile s (cl_principal c) profileName datasource
       OperationListObjects [schema, so_Name object]) \<and>
     int (length (marshal_objects (ol_Objects r))) \<le> MaxResultBytes (hardLimits (sv_policy s)))
   (Service_ListObjects s c profileName datasource schema)"
  unfolding Service_ListObjects_def Let_def AuthorizeListObjects_def
proof (rule returns_prepared, simp only: prod.case, intro returns_lift returns_read_semantics returns_bind returns_with_capacity
    returns_run_database returns_refusing [OF refusing_completeSchemaError] returns_refusing [OF refusing_deny]
    returns_refusing [OF refusing_fail], goal_cases)
  case (1 b adapterName sem g st v name r w pair)
  from 1(5,6) obtain objects n where pair: "pair = (objects, n)" "r = Inr objects"
    "boundedObjectListResult objects (MaxResultBytes (ab_limits b)) = Inr n" by auto
  have "\<forall>object \<in> set objects. allowed_by_profile s (cl_principal c) profileName datasource OperationListObjects [schema, so_Name object]"
    using schema_grant_allows(1) [of s "c\<lparr>cl_queryID := []\<rparr>", OF 1(1,3,2)] Manager_ListObjects_allowed 1(5) pair(2) by fastforce
  moreover have "int (length (marshal_objects objects)) \<le> MaxResultBytes (hardLimits (sv_policy s))"
    using boundedObjectListResult_exact [OF pair(3)] prepared_limits [OF 1(1)] by simp
  ultimately show ?case unfolding pair(1) prod.case by (intro returns_timed returns_bind returns_return) simp
qed

lemma returns_described_not_found: "returns_only P m \<Longrightarrow> returns_only P (described_not_found e m)"
proof -
  have "fst (described_not_found e m st) = Inr r \<Longrightarrow> fst (m st) = Inr r" for st r
    by (auto simp: described_not_found_def split: prod.splits sum.splits)
  then show "returns_only P m \<Longrightarrow> returns_only P (described_not_found e m)" by (auto simp: returns_only_def)
qed

lemma returns_DescribeObject:
  "returns_only (\<lambda>r. (\<forall>column \<in> set (odr_Columns r). allowed_by_profile s (cl_principal c) profileName datasource
       OperationDescribeObject [ref_Schema object, ref_Name object, cd_Name column]) \<and>
     int (length (marshal_ObjectDescription (odr_Schema r) (odr_Name r) (odr_Columns r))) \<le> MaxResultBytes (hardLimits (sv_policy s)))
   (Service_DescribeObject s c profileName datasource object)"
  unfolding Service_DescribeObject_def Let_def AuthorizeDescribeObject_def
proof (rule returns_prepared, simp only: prod.case, intro returns_lift returns_read_semantics returns_bind returns_with_capacity
    returns_run_database returns_described_not_found returns_refusing [OF refusing_completeSchemaError] returns_refusing [OF refusing_deny]
    returns_refusing [OF refusing_fail], goal_cases)
  case (1 b adapterName sem g st v name r w d n)
  have "\<forall>column \<in> set (od_Columns d). allowed_by_profile s (cl_principal c) profileName datasource OperationDescribeObject
      [ref_Schema object, ref_Name object, cd_Name column]"
    using schema_grant_allows(2) [of s "c\<lparr>cl_queryID := []\<rparr>", OF 1(1,3,2)] Manager_DescribeObject_allowed 1(5,6) by fastforce
  moreover have "int (length (marshal_ObjectDescription (od_Schema d) (od_Name d) (od_Columns d))) \<le> MaxResultBytes (hardLimits (sv_policy s))"
    using boundedObjectDescriptionResult_exact [OF 1(7)] prepared_limits [OF 1(1)] by simp
  ultimately show ?case by (intro returns_timed returns_bind returns_return) simp
qed


end
