(* ===== verification/Request_Contract.thy ===== *)
theory Request_Contract
  imports Request_Decode
begin

text \<open>
  The contract of the request decoder, on documents: a declarative account of which JSON value represents which request,
  and the proof that the two passes of \<^verbatim>\<open>queryspec/decode.go\<close> accept exactly the bodies that represent a request
  and return that request. The first pass makes the keys of every object exact and distinct, so that the case-folding
  field lookup of the second pass is an exact lookup (\<open>exact_members\<close>).
\<close>

section \<open>Objects with exact keys\<close>

definition exact_members :: "string list \<Rightarrow> members \<Rightarrow> bool" where
  "exact_members names ms \<longleftrightarrow> distinct (map fst ms) \<and> list_all (\<lambda>m. fst m \<in> set names) ms"

lemma find_map_of: "map_option snd (find (\<lambda>m. fst m = n) ms) = map_of ms n"
  by (induction ms) auto

lemma exact_wire_field [simp]:
  assumes "exact_members names ms"
  shows "wire_field names ms = map_of ms"
proof
  fix name
  have "find (\<lambda>(key, _, _). field_of names key = Some name) (rev ms) = find (\<lambda>m. fst m = name) (rev ms)"
    using assms by (intro find_cong) (auto simp: exact_members_def list_all_iff field_of_def)
  then have "wire_field names ms name = map_of (rev ms) name" by (simp add: wire_field_def find_map_of)
  also have "map_of (rev ms) = map_of ms"
    using assms by (subst map_of_inject_set) (simp_all add: exact_members_def rev_map [symmetric])
  finally show "wire_field names ms name = map_of ms name" .
qed

lemma exact_wire_members [simp]: "exact_members names ms \<Longrightarrow> wire_members names (JObject ms) = Some ms"
  by (auto simp: wire_members_def known_fields_def exact_members_def list_all_iff field_of_def)

text \<open>
  A callback that leaves the shared state alone: the loops over members and items are then conjunctions.
\<close>

definition stateless :: "(jvalue \<Rightarrow> 's \<Rightarrow> 's option) \<Rightarrow> 's \<Rightarrow> bool" where
  "stateless f st \<longleftrightarrow> (\<forall>v. f v st = None \<or> f v st = Some st)"

definition accepts :: "(jvalue \<Rightarrow> 's \<Rightarrow> 's option) \<Rightarrow> 's \<Rightarrow> jvalue \<Rightarrow> bool" where
  "accepts f st v \<longleftrightarrow> f v st = Some st"

lemma scan_members_state:
  assumes "\<And>key raw v. (key, raw, v) \<in> set ms \<Longrightarrow> f key v st = None \<or> f key v st = Some st"
  shows "scan_members f seen ms st = Some st' \<longleftrightarrow>
    st' = st \<and> distinct (map fst ms) \<and> set (map fst ms) \<inter> set seen = {} \<and>
    list_all (\<lambda>m. accepts (f (fst m)) st (snd (snd m))) ms"
  using assms
proof (induction ms arbitrary: seen)
  case (Cons m ms)
  obtain key raw v where m: "m = (key, raw, v)" by (cases m)
  have IH: "scan_members f seen ms st = Some st' \<longleftrightarrow> st' = st \<and> distinct (map fst ms) \<and>
      set (map fst ms) \<inter> set seen = {} \<and> list_all (\<lambda>m. accepts (f (fst m)) st (snd (snd m))) ms" for seen
    by (rule Cons.IH, rule Cons.prems, erule list.set_intros(2))
  have "f key v st = None \<or> f key v st = Some st" by (rule Cons.prems [of _ raw]) (simp add: m)
  then show ?case by (elim disjE) (auto simp: m accepts_def IH)
qed auto

lemma scan_members_stateless:
  assumes "\<And>key. stateless (f key) st"
  shows "scan_members f seen ms st = Some st' \<longleftrightarrow>
    st' = st \<and> distinct (map fst ms) \<and> set (map fst ms) \<inter> set seen = {} \<and>
    list_all (\<lambda>m. accepts (f (fst m)) st (snd (snd m))) ms"
  using assms by (intro scan_members_state) (simp add: stateless_def)

lemma scan_items_state:
  assumes "\<And>v. v \<in> set vs \<Longrightarrow> f v st = None \<or> f v st = Some st"
  shows "scan_items n maximum f vs st = Some st' \<longleftrightarrow>
    st' = st \<and> (vs \<noteq> [] \<longrightarrow> n + length vs \<le> maximum) \<and> list_all (accepts f st) vs"
  using assms
proof (induction vs arbitrary: n)
  case (Cons v vs)
  then have "f v st = None \<or> f v st = Some st" by simp
  with Cons show ?case by (elim disjE) (auto simp: accepts_def)
qed auto

lemma scanBoundedArray_state:
  assumes "\<And>vs x. v = JList vs \<Longrightarrow> x \<in> set vs \<Longrightarrow> f x st = None \<or> f x st = Some st"
  shows "scanBoundedArray maximum f v st = Some st' \<longleftrightarrow>
    st' = st \<and> (\<exists>vs. v = JList vs \<and> length vs \<le> maximum \<and> list_all (accepts f st) vs)"
  using assms by (cases v) (auto simp: scanBoundedArray_def scan_items_state)

lemma scanBoundedArray_stateless:
  assumes "stateless f st"
  shows "scanBoundedArray maximum f v st = Some st' \<longleftrightarrow>
    st' = st \<and> (\<exists>vs. v = JList vs \<and> length vs \<le> maximum \<and> list_all (accepts f st) vs)"
  using assms by (intro scanBoundedArray_state) (simp add: stateless_def)

lemma stateless_scanBoundedArray: "stateless f st \<Longrightarrow> stateless (scanBoundedArray maximum f) st"
  unfolding stateless_def [of "scanBoundedArray maximum f"]
  by (metis option.exhaust scanBoundedArray_stateless)

lemma accepts_scanBoundedArray:
  "stateless f st \<Longrightarrow> accepts (scanBoundedArray maximum f) st v \<longleftrightarrow>
     (\<exists>vs. v = JList vs \<and> length vs \<le> maximum \<and> list_all (accepts f st) vs)"
  by (simp add: accepts_def scanBoundedArray_stateless)

lemma stateless_scanObjectShape:
  assumes "\<And>key. stateless (f key) st"
  shows "stateless (scanObjectShape f) st"
proof -
  have "scan_members f [] ms st = None \<or> scan_members f [] ms st = Some st" for ms
  proof (cases "scan_members f [] ms st")
    case (Some st')
    then show ?thesis using scan_members_stateless [where f = f and st = st, OF assms] by simp
  qed simp
  then show ?thesis by (auto simp: stateless_def scanObjectShape_def split: jvalue.splits)
qed

lemma accepts_scanObjectShape:
  assumes "\<And>key. stateless (f key) st"
  shows "accepts (scanObjectShape f) st v \<longleftrightarrow>
    v = JNull \<or>
    (\<exists>ms. v = JObject ms \<and> distinct (map fst ms) \<and> list_all (\<lambda>m. accepts (f (fst m)) st (snd (snd m))) ms)"
  by (auto simp: accepts_def scanObjectShape_def scan_members_stateless [OF assms] split: jvalue.splits)

lemma stateless_skip [simp]: "stateless skipJSONValue st" "stateless (skip_fields names key) st"
  by (simp_all add: stateless_def skipJSONValue_def skip_fields_def)

lemma accepts_skip [simp]:
  "accepts skipJSONValue st v" "accepts (skip_fields names key) st v \<longleftrightarrow> key \<in> set names"
  by (simp_all add: accepts_def skipJSONValue_def skip_fields_def)

lemma stateless_const [simp]: "stateless (\<lambda>v st. None) st"
  by (simp add: stateless_def)

lemma accepts_const [simp]: "\<not> accepts (\<lambda>v st. None) st v"
  by (simp add: accepts_def)

lemma stateless_if [simp]: "stateless (\<lambda>v st. if c then f v st else g v st) st \<longleftrightarrow> (if c then stateless f st else stateless g st)"
  by simp

lemma accepts_skip_object:
  "accepts (scanObjectShape (skip_fields names)) st v \<longleftrightarrow> v = JNull \<or> (\<exists>ms. v = JObject ms \<and> exact_members names ms)"
  by (subst accepts_scanObjectShape) (auto simp: exact_members_def list_all_iff)

lemma scanSelectionShape_fields:
  "scanSelectionShape selectOnly =
     scanObjectShape (skip_fields (if selectOnly then [''kind'', ''field'', ''alias'', ''representation'']
       else [''kind'', ''field'', ''alias'', ''representation'', ''function'']))"
  unfolding scanSelectionShape_def
  by (intro arg_cong [where f = scanObjectShape] ext) (auto simp: skip_fields_def)

section \<open>What a document represents\<close>

definition text_member :: "members \<Rightarrow> string \<Rightarrow> string option \<Rightarrow> bool" where
  "text_member ms name t \<longleftrightarrow> map_option snd (map_of ms name) = map_option JText t"

text \<open>A member that is present exactly when its text is not empty.\<close>

definition nonempty :: "string \<Rightarrow> string option" where
  "nonempty t = (if t = [] then None else Some t)"

definition optional_text :: "members \<Rightarrow> string \<Rightarrow> string \<Rightarrow> bool" where
  "optional_text ms name t \<longleftrightarrow> text_member ms name (nonempty t)"

definition resource_doc :: "jvalue \<Rightarrow> ResourceRef \<Rightarrow> bool" where
  "resource_doc v r \<longleftrightarrow>
     (\<exists>ms. v = JObject ms \<and> exact_members [''schema'', ''name''] ms \<and>
        text_member ms ''schema'' (Some (ref_Schema r)) \<and> text_member ms ''name'' (Some (ref_Name r)))"

definition selection_doc :: "bool \<Rightarrow> jvalue \<Rightarrow> Selection \<Rightarrow> bool" where
  "selection_doc selectOnly v s \<longleftrightarrow>
     (\<exists>ms. v = JObject ms \<and>
        exact_members ([''kind'', ''field'', ''alias'', ''representation''] @ (if selectOnly then [] else [''function''])) ms \<and>
        text_member ms ''kind'' (Some (sel_Kind s)) \<and> optional_text ms ''field'' (sel_Field s) \<and>
        optional_text ms ''alias'' (sel_Alias s) \<and> optional_text ms ''representation'' (sel_Representation s) \<and>
        (sel_Kind s = ''field'' \<and> sel_Field s \<noteq> [] \<and> sel_Function s = [] \<and> text_member ms ''function'' None \<and>
           sel_Representation s \<in> {[], RepresentationSourceText} \<or>
         sel_Kind s = ''aggregate'' \<and> text_member ms ''function'' (Some (sel_Function s)) \<and> sel_Representation s = []))"

definition sort_doc :: "jvalue \<Rightarrow> Sort \<Rightarrow> bool" where
  "sort_doc v s \<longleftrightarrow>
     (\<exists>ms. v = JObject ms \<and> exact_members [''field'', ''direction'', ''representation''] ms \<and>
        text_member ms ''field'' (Some (sort_Field s)) \<and> text_member ms ''direction'' (Some (sort_Direction s)) \<and>
        optional_text ms ''representation'' (sort_Representation s) \<and>
        sort_Representation s \<in> {[], RepresentationSourceText})"

definition value_doc :: "jvalue \<Rightarrow> TypedValue \<Rightarrow> bool" where
  "value_doc v t \<longleftrightarrow>
     (\<exists>ms. v = JObject ms \<and> exact_members [''type'', ''value''] ms \<and>
        text_member ms ''type'' (Some (tv_Type t)) \<and> tv_Value t \<noteq> None \<and> map_option fst (map_of ms ''value'') = tv_Value t)"

text \<open>An array member whose items represent the elements of a list, within a bound.\<close>

definition array_member :: "members \<Rightarrow> string \<Rightarrow> nat \<Rightarrow> (jvalue \<Rightarrow> 'a \<Rightarrow> bool) \<Rightarrow> 'a list \<Rightarrow> bool" where
  "array_member ms name maximum rel xs \<longleftrightarrow>
     (\<exists>raw vs. map_of ms name = Some (raw, JList vs) \<and> length vs \<le> maximum \<and> list_all2 rel vs xs)"

lemma array_member_cong [fundef_cong]:
  assumes "ms = ms'" "name = name'" "maximum = maximum'" "xs = xs'"
    and "\<And>v x. x \<in> set xs' \<Longrightarrow> rel v x = rel' v x"
  shows "array_member ms name maximum rel xs = array_member ms' name' maximum' rel' xs'"
  using assms by (auto simp: array_member_def cong: list.rel_cong)

definition filter_keys :: "string list" where
  "filter_keys = [''kind'', ''field'', ''operator'', ''representation'', ''values'', ''expressions'']"

fun filter_doc :: "int \<Rightarrow> jvalue \<Rightarrow> Filter \<Rightarrow> bool" where
  "filter_doc levels v (Filter rep kind field op vals exprs) \<longleftrightarrow>
     0 < levels \<and>
     (\<exists>ms. v = JObject ms \<and> exact_members filter_keys ms \<and>
        text_member ms ''kind'' (Some kind) \<and> text_member ms ''operator'' (Some op) \<and>
        optional_text ms ''representation'' rep \<and>
        (if kind = ''predicate'' then
           rep \<in> {[], RepresentationSourceText} \<and> text_member ms ''field'' (Some field) \<and> exprs = [] \<and>
           map_of ms ''expressions'' = None \<and>
           (\<exists>vs. vals = Some vs \<and> array_member ms ''values'' ProtocolMaxFilterItems value_doc vs)
         else
           kind = ''group'' \<and> rep = [] \<and> field = [] \<and> vals = None \<and> map_of ms ''field'' = None \<and>
           map_of ms ''values'' = None \<and>
           array_member ms ''expressions'' ProtocolMaxFilterItems (filter_doc (levels - 1)) exprs))"

section \<open>Structures without recursion\<close>

lemma wireString_Some:
  "wireString m = Some t \<longleftrightarrow> map_option snd m = map_option JText t"
  by (cases m; cases t)
    (auto simp: wireString_def absent_or_def unmarshal_wireString_def split: jvalue.splits)

lemma text_member_wire: "text_member ms name t \<longleftrightarrow> wireString (map_of ms name) = Some t"
  by (simp add: wireString_Some text_member_def)

lemma optional_text_wire: "optional_text ms name t \<longleftrightarrow> wireString (map_of ms name) = Some (nonempty t)"
  by (simp add: optional_text_def text_member_wire)

lemma nonempty_simps [simp]:
  "nonempty [] = None" "nonempty t = None \<longleftrightarrow> t = []" "nonempty t \<noteq> Some []"
  by (simp_all add: nonempty_def)

lemma decodeRepresentation_Some:
  "decodeRepresentation w allowed = Some r \<longleftrightarrow>
     w = nonempty r \<and> r \<in> {[], RepresentationSourceText} \<and> (r = [] \<or> allowed)"
  by (auto simp: nonempty_def decodeRepresentation_def RepresentationSourceText_def split: option.splits)

lemma decodeRepresentation_simps [simp]:
  "decodeRepresentation None allowed = Some []"
  "decodeRepresentation (nonempty RepresentationSourceText) True = Some RepresentationSourceText"
  by (simp_all add: decodeRepresentation_Some)

lemma exact_wider: "exact_members names ms \<Longrightarrow> set names \<subseteq> set names' \<Longrightarrow> exact_members names' ms"
  by (auto simp: exact_members_def list_all_iff)

lemma exact_absent: "exact_members names ms \<Longrightarrow> name \<notin> set names \<Longrightarrow> map_of ms name = None"
  by (auto simp: exact_members_def list_all_iff map_of_eq_None_iff)

text \<open>Acceptance by both passes, and the result.\<close>

definition both_passes ::
  "(jvalue \<Rightarrow> scan_budget \<Rightarrow> scan_budget option) \<Rightarrow> (jvalue \<Rightarrow> 'w option) \<Rightarrow> ('w \<Rightarrow> 'a option) \<Rightarrow> jvalue \<Rightarrow> 'a \<Rightarrow> bool" where
  "both_passes scan unmarshal decode v x \<longleftrightarrow>
     accepts scan None v \<and> Option.bind (unmarshal v) decode = Some x"

lemma those_Some: "those os = Some xs \<longleftrightarrow> os = map Some xs"
  by (induction os arbitrary: xs) (auto split: option.splits)

lemma those_map_Some: "those (map f vs) = Some xs \<longleftrightarrow> list_all2 (\<lambda>v x. f v = Some x) vs xs"
  by (induction vs arbitrary: xs) (auto simp: list_all2_Cons1 split: option.splits)

lemma those_bind:
  "Option.bind (those (map u vs)) (\<lambda>ws. those (map d ws)) = Some xs \<longleftrightarrow>
     list_all2 (\<lambda>v x. Option.bind (u v) d = Some x) vs xs"
proof (induction vs arbitrary: xs)
  case (Cons v vs)
  show ?case
  proof (cases xs)
    case Nil
    then show ?thesis by (auto simp: bind_eq_Some_conv split: option.splits)
  next
    case (Cons x xs')
    show ?thesis using Cons.IH [of xs'] unfolding Cons
      by (auto simp: bind_eq_Some_conv split: option.splits) 
  qed
qed (auto split: list.split)

text \<open>The items of an array, when both passes agree on each of them with what it represents.\<close>

lemma items_pass:
  assumes "\<And>v x. v \<in> set vs \<Longrightarrow> both_passes scan unmarshal decode v x \<longleftrightarrow> doc v x"
  shows "list_all (accepts scan None) vs \<and> Option.bind (those (map unmarshal vs)) (\<lambda>ws. those (map decode ws)) = Some xs \<longleftrightarrow>
    list_all2 doc vs xs"
proof -
  have "list_all (accepts scan None) vs \<and> list_all2 (\<lambda>v x. Option.bind (unmarshal v) decode = Some x) vs xs \<longleftrightarrow>
      list_all2 (both_passes scan unmarshal decode) vs xs"
    by (auto simp: both_passes_def list_all2_conv_all_nth list_all_length)
  also have "\<dots> \<longleftrightarrow> list_all2 doc vs xs" using assms by (auto cong: list.rel_cong)
  finally show ?thesis by (simp add: those_bind)
qed

text \<open>
  The contract of a structure of the wire: the first pass accepts \<open>null\<close> and the objects of its exact keys, the second
  pass refuses \<open>null\<close>, and on an object of exact keys it builds what the document represents.
\<close>

locale wire_structure =
  fixes scan :: "jvalue \<Rightarrow> scan_budget \<Rightarrow> scan_budget option"
    and unmarshal :: "jvalue \<Rightarrow> 'w option"
    and decode :: "'w \<Rightarrow> 'a option"
    and doc :: "jvalue \<Rightarrow> 'a \<Rightarrow> bool"
    and names :: "string list"
  assumes scan_stateless: "stateless scan None"
    and scan_exact: "accepts scan None v \<longleftrightarrow> v = JNull \<or> (\<exists>ms. v = JObject ms \<and> exact_members names ms)"
    and null_refused: "Option.bind (unmarshal JNull) decode = None"
    and doc_object: "doc v x \<Longrightarrow> \<exists>ms. v = JObject ms \<and> exact_members names ms"
    and object_decode: "exact_members names ms \<Longrightarrow> Option.bind (unmarshal (JObject ms)) decode = Some x \<Longrightarrow> doc (JObject ms) x"
    and object_encode: "exact_members names ms \<Longrightarrow> doc (JObject ms) x \<Longrightarrow> Option.bind (unmarshal (JObject ms)) decode = Some x"
begin

lemma passes: "both_passes scan unmarshal decode v x \<longleftrightarrow> doc v x"
proof
  assume "both_passes scan unmarshal decode v x"
  then have "accepts scan None v" and d: "Option.bind (unmarshal v) decode = Some x" by (simp_all add: both_passes_def)
  moreover have "v \<noteq> JNull" using d null_refused by auto
  ultimately obtain ms where "v = JObject ms" "exact_members names ms" using scan_exact by blast
  with d object_decode show "doc v x" by blast
next
  assume doc: "doc v x"
  then obtain ms where "v = JObject ms" "exact_members names ms" using doc_object by blast
  with doc object_encode scan_exact show "both_passes scan unmarshal decode v x" by (auto simp: both_passes_def)
qed

lemma array_passes:
  "accepts (scanBoundedArray maximum scan) None (JList vs) \<and>
     Option.bind (those (map unmarshal vs)) (\<lambda>ws. those (map decode ws)) = Some xs \<longleftrightarrow>
   length vs \<le> maximum \<and> list_all2 doc vs xs"
  using items_pass [of vs scan unmarshal decode doc xs] passes
  by (auto simp: accepts_scanBoundedArray [OF scan_stateless])

lemma unique: "doc v x \<Longrightarrow> doc v y \<Longrightarrow> x = y"
  by (metis passes both_passes_def option.inject)

end

lemmas wire_null = wire_members_def wire_field_def wireString_def absent_or_def
lemmas scan_structures = scanResourceShape_def scanSortShape_def scanTypedValueShape_def scanSelectionShape_fields

interpretation resource_wire: wire_structure scanResourceShape unmarshal_resourceWire decode_resourceWire resource_doc
  "[''schema'', ''name'']"
proof unfold_locales
  fix ms r assume e: "exact_members [''schema'', ''name''] ms"
  show "Option.bind (unmarshal_resourceWire (JObject ms)) decode_resourceWire = Some r \<Longrightarrow> resource_doc (JObject ms) r"
    using e by (auto simp: resource_doc_def unmarshal_resourceWire_def decode_resourceWire_def bind_eq_Some_conv text_member_wire)
  show "resource_doc (JObject ms) r \<Longrightarrow> Option.bind (unmarshal_resourceWire (JObject ms)) decode_resourceWire = Some r"
    using e by (cases r) (auto simp: resource_doc_def unmarshal_resourceWire_def decode_resourceWire_def text_member_wire)
qed (auto simp: scan_structures accepts_skip_object resource_doc_def unmarshal_resourceWire_def
    decode_resourceWire_def wire_null intro: stateless_scanObjectShape)

lemma exact_members_perm: "set names = set names' \<Longrightarrow> exact_members names ms = exact_members names' ms"
  by (simp add: exact_members_def)

interpretation sort_wire: wire_structure scanSortShape unmarshal_sortWire decode_sortWire sort_doc
  "[''field'', ''direction'', ''representation'']"
proof unfold_locales
  fix ms s assume e: "exact_members [''field'', ''direction'', ''representation''] ms"
  then have e': "exact_members [''representation'', ''field'', ''direction''] ms" by (auto elim: exact_wider)
  show "Option.bind (unmarshal_sortWire (JObject ms)) decode_sortWire = Some s \<Longrightarrow> sort_doc (JObject ms) s"
    using e e' by (auto simp: sort_doc_def unmarshal_sortWire_def decode_sortWire_def bind_eq_Some_conv text_member_wire
        optional_text_wire decodeRepresentation_Some)
  show "sort_doc (JObject ms) s \<Longrightarrow> Option.bind (unmarshal_sortWire (JObject ms)) decode_sortWire = Some s"
    using e e' by (cases s) (auto simp: sort_doc_def unmarshal_sortWire_def decode_sortWire_def text_member_wire
        optional_text_wire)
qed (auto simp: scan_structures accepts_skip_object sort_doc_def unmarshal_sortWire_def decode_sortWire_def
    decodeRepresentation_def wire_null intro: stateless_scanObjectShape)

interpretation value_wire: wire_structure scanTypedValueShape unmarshal_typedValueWire decode_typedValueWire value_doc
  "[''type'', ''value'']"
proof unfold_locales
  fix ms t assume e: "exact_members [''type'', ''value''] ms"
  show "Option.bind (unmarshal_typedValueWire (JObject ms)) decode_typedValueWire = Some t \<Longrightarrow> value_doc (JObject ms) t"
    using e by (auto simp: value_doc_def unmarshal_typedValueWire_def decode_typedValueWire_def bind_eq_Some_conv
        text_member_wire)
  show "value_doc (JObject ms) t \<Longrightarrow> Option.bind (unmarshal_typedValueWire (JObject ms)) decode_typedValueWire = Some t"
    using e by (cases t) (auto simp: value_doc_def unmarshal_typedValueWire_def decode_typedValueWire_def text_member_wire)
qed (auto simp: scan_structures accepts_skip_object value_doc_def unmarshal_typedValueWire_def decode_typedValueWire_def
    wire_null intro: stateless_scanObjectShape)

text \<open>A member that is absent or not empty, as the selections demand.\<close>

lemma wire_value_Some [simp]: "wire_value None = []" "wire_value (Some t) = t"
  by (simp_all add: wire_value_def)

lemma wire_value_nonempty [simp]: "wire_value (nonempty t) = t"
  by (simp add: nonempty_def)

lemma nonempty_wire_value: "w \<noteq> Some [] \<longleftrightarrow> w = nonempty (wire_value w)"
  by (cases w) (simp_all add: nonempty_def)

lemma decode_selectionWire_Some:
  "decode_selectionWire w = Some s \<longleftrightarrow>
     lw_Kind w = Some (sel_Kind s) \<and> lw_Field w = nonempty (sel_Field s) \<and> lw_Alias w = nonempty (sel_Alias s) \<and>
     lw_Representation w = nonempty (sel_Representation s) \<and> wire_value (lw_Function w) = sel_Function s \<and>
     (sel_Kind s = ''field'' \<and> sel_Field s \<noteq> [] \<and> lw_Function w = None \<and>
        sel_Representation s \<in> {[], RepresentationSourceText} \<or>
      sel_Kind s = ''aggregate'' \<and> lw_Function w \<noteq> None \<and> sel_Representation s = [])"
  (is "?L \<longleftrightarrow> ?R")
proof
  assume ?L
  then obtain rep where r: "decodeRepresentation (lw_Representation w) (wire_value (lw_Kind w) = ''field'') = Some rep"
    and k: "lw_Kind w = Some (sel_Kind s)" and f: "lw_Field w \<noteq> Some []" and a: "lw_Alias w \<noteq> Some []"
    and s: "s = \<lparr>sel_Representation = rep, sel_Kind = sel_Kind s, sel_Field = wire_value (lw_Field w),
      sel_Function = wire_value (lw_Function w), sel_Alias = wire_value (lw_Alias w)\<rparr>"
    and c: "if sel_Kind s = ''field'' then lw_Field w \<noteq> None \<and> lw_Function w = None
      else sel_Kind s = ''aggregate'' \<and> lw_Function w \<noteq> None"
    by (auto simp: decode_selectionWire_def bind_eq_Some_conv split: if_splits)
  have "sel_Representation s = rep" "sel_Field s = wire_value (lw_Field w)" "sel_Function s = wire_value (lw_Function w)"
    "sel_Alias s = wire_value (lw_Alias w)" by (subst s, simp)+
  moreover from f a have "lw_Field w = nonempty (wire_value (lw_Field w))" "lw_Alias w = nonempty (wire_value (lw_Alias w))"
    by (simp_all only: nonempty_wire_value)
  moreover from c f have "sel_Kind s = ''field'' \<Longrightarrow> wire_value (lw_Field w) \<noteq> []" by (cases "lw_Field w") auto
  ultimately show ?R using r k c by (auto simp: decodeRepresentation_Some split: if_splits)
next
  assume ?R
  then show ?L by (cases s) (auto simp: decode_selectionWire_def)
qed

definition selection_keys :: "bool \<Rightarrow> string list" where
  "selection_keys selectOnly = [''kind'', ''field'', ''alias'', ''representation''] @ (if selectOnly then [] else [''function''])"

lemma selection_keys_scan:
  "scanSelectionShape selectOnly = scanObjectShape (skip_fields (selection_keys selectOnly))"
  by (simp add: scanSelectionShape_fields selection_keys_def)

interpretation selection_wire: wire_structure "scanSelectionShape selectOnly" unmarshal_selectionWire decode_selectionWire
  "selection_doc selectOnly" "selection_keys selectOnly" for selectOnly
proof unfold_locales
  fix ms s assume e: "exact_members (selection_keys selectOnly) ms"
  then have e': "exact_members [''representation'', ''kind'', ''field'', ''function'', ''alias''] ms"
    by (auto simp: selection_keys_def elim!: exact_wider split: if_splits)
  show "selection_doc selectOnly (JObject ms) s"
    if d: "Option.bind (unmarshal_selectionWire (JObject ms)) decode_selectionWire = Some s"
  proof -
    obtain func where "wireString (map_of ms ''representation'') = Some (nonempty (sel_Representation s))"
        "wireString (map_of ms ''kind'') = Some (Some (sel_Kind s))"
        "wireString (map_of ms ''field'') = Some (nonempty (sel_Field s))" "wireString (map_of ms ''function'') = Some func"
        "wireString (map_of ms ''alias'') = Some (nonempty (sel_Alias s))"
      and "wire_value func = sel_Function s"
      and "sel_Kind s = ''field'' \<and> sel_Field s \<noteq> [] \<and> func = None \<and> sel_Representation s \<in> {[], RepresentationSourceText} \<or>
        sel_Kind s = ''aggregate'' \<and> func \<noteq> None \<and> sel_Representation s = []"
      using d e' by (auto simp: unmarshal_selectionWire_def bind_eq_Some_conv decode_selectionWire_Some)
    then show ?thesis using e
      by (auto simp: selection_doc_def selection_keys_def text_member_wire optional_text_wire)
  qed
  show "Option.bind (unmarshal_selectionWire (JObject ms)) decode_selectionWire = Some s"
    if "selection_doc selectOnly (JObject ms) s"
    using that e' by (auto simp: selection_doc_def unmarshal_selectionWire_def decode_selectionWire_Some
        text_member_wire optional_text_wire)
qed (auto simp: selection_keys_scan accepts_skip_object selection_doc_def unmarshal_selectionWire_def decode_selectionWire_def
    selection_keys_def decodeRepresentation_def wire_null intro: stateless_scanObjectShape)

section \<open>Filters\<close>

lemma stateless_budget [simp]:
  "enterFilter None = Some None" "addPredicate None = Some None" "addParameter None = Some None"
  "addServerParameter None = Some None"
  by (simp_all add: enterFilter_def addPredicate_def addParameter_def addServerParameter_def)

lemma bind_id: "Option.bind x Some = x"
  by (cases x) simp_all

definition scan_filter_field :: "int \<Rightarrow> int \<Rightarrow> string \<Rightarrow> jvalue \<Rightarrow> scan_budget \<Rightarrow> scan_budget option" where
  "scan_filter_field depth maxDep key x b =
     (if key = ''kind'' then if x = JText ''predicate'' then addPredicate b else skipJSONValue x b
      else if key \<in> set [''field'', ''operator'', ''representation''] then skipJSONValue x b
      else if key = ''values'' then
        scanBoundedArray ProtocolMaxFilterItems (\<lambda>y b. Option.bind (addParameter b) (scanTypedValueShape y)) x b
      else if key = ''expressions'' then
        scanBoundedArray ProtocolMaxFilterItems (\<lambda>y b. scanFilterShape y (depth + 1) maxDep b) x b
      else None)"

lemma scanFilterShape_object:
  "scanFilterShape v depth maxDep budget =
     (case v of
        JObject ms \<Rightarrow>
          if depth > maxDep then None
          else Option.bind (enterFilter budget) (scan_members (scan_filter_field depth maxDep) [] ms)
      | _ \<Rightarrow> None)"
proof -
  have "scan_filter_field depth maxDep = (\<lambda>key x b. scan_filter_field depth maxDep key x b)" by simp
  then show ?thesis
    unfolding scanFilterShape.simps [of v] scan_filter_field_def by (simp cong: jvalue.case_cong if_cong)
qed

lemma scanFilterShape_nil:
  "scanFilterShape v depth maxDep None = None \<or> scanFilterShape v depth maxDep None = Some None"
proof (induction v arbitrary: depth rule: measure_induct_rule [of size])
  case (less v)
  show ?case
  proof (cases v)
    case (JObject ms)
    have field: "scan_filter_field depth maxDep key x None = None \<or> scan_filter_field depth maxDep key x None = Some None"
      if m: "(key, raw, x) \<in> set ms" for key raw x
    proof (cases "key = ''expressions''")
      case True
      have "scanFilterShape y (depth + 1) maxDep None = None \<or> scanFilterShape y (depth + 1) maxDep None = Some None"
        if "x = JList vs" "y \<in> set vs" for vs y
        using that m member_size item_size JObject by (intro less.IH) (metis order.strict_trans)
      then have array: "scanBoundedArray ProtocolMaxFilterItems (\<lambda>y b. scanFilterShape y (depth + 1) maxDep b) x None = Some b
          \<Longrightarrow> b = None" for b by (subst (asm) scanBoundedArray_state) auto
      show ?thesis
      proof (cases "scan_filter_field depth maxDep key x None")
        case (Some b)
        with True show ?thesis using array by (auto simp: scan_filter_field_def)
      qed simp
    next
      case False
      have "stateless scanTypedValueShape (None :: scan_budget)" by (rule value_wire.scan_stateless)
      then have "stateless (\<lambda>y b. Option.bind (addParameter b) (scanTypedValueShape y)) None"
        by (simp add: stateless_def)
      then have "stateless (scanBoundedArray ProtocolMaxFilterItems (\<lambda>y b. Option.bind (addParameter b) (scanTypedValueShape y))) None"
        by (rule stateless_scanBoundedArray)
      with False show ?thesis by (auto simp: scan_filter_field_def skipJSONValue_def stateless_def)
    qed
    then have "scan_members (scan_filter_field depth maxDep) [] ms None = Some b \<Longrightarrow> b = None" for b
      by (subst (asm) scan_members_state) auto
    then show ?thesis
      by (cases "scan_members (scan_filter_field depth maxDep) [] ms None") (auto simp: scanFilterShape_object JObject)
  qed (simp_all add: scanFilterShape_object)
qed

lemma scanFilterShape_stateless: "stateless (\<lambda>v. scanFilterShape v depth maxDep) None"
  by (simp add: stateless_def scanFilterShape_nil)

lemma map_of_exact: "exact_members names ms \<Longrightarrow> (key, raw, x) \<in> set ms \<longleftrightarrow> map_of ms key = Some (raw, x)"
  by (simp add: exact_members_def)

text \<open>The scanner accepts a member when it is present.\<close>

definition scanned :: "members \<Rightarrow> string \<Rightarrow> (jvalue \<Rightarrow> scan_budget \<Rightarrow> scan_budget option) \<Rightarrow> bool" where
  "scanned ms name scan \<longleftrightarrow> (case map_of ms name of None \<Rightarrow> True | Some (raw, x) \<Rightarrow> accepts scan None x)"

abbreviation scanned_array ::
  "members \<Rightarrow> string \<Rightarrow> nat \<Rightarrow> (jvalue \<Rightarrow> scan_budget \<Rightarrow> scan_budget option) \<Rightarrow> bool" where
  "scanned_array ms name maximum scan \<equiv> scanned ms name (scanBoundedArray maximum scan)"

lemma wire_slice_simps [simp]:
  "wire_slice f None = Some None"
  "wire_slice f (Some (raw, JList vs)) = map_option Some (those (map f vs))"
  by (simp_all add: wire_slice_def wire_pointer_def)

lemma those_length: "those os = Some xs \<Longrightarrow> length xs = length os"
  by (simp add: those_Some)

text \<open>An array member under both passes, when the passes agree with \<open>doc\<close> on its items.\<close>

lemma slice_passes:
  assumes st: "stateless scan None"
    and items: "\<And>raw vs v x. map_of ms name = Some (raw, JList vs) \<Longrightarrow> v \<in> set vs \<Longrightarrow>
      both_passes scan unmarshal decode v x \<longleftrightarrow> doc v x"
  shows "scanned_array ms name maximum scan \<and>
    (\<exists>ws. wire_slice unmarshal (map_of ms name) = Some (Some ws) \<and> length ws \<le> maximum \<and>
       those (map decode ws) = Some xs) \<longleftrightarrow>
    array_member ms name maximum doc xs"
proof (cases "\<exists>raw vs. map_of ms name = Some (raw, JList vs)")
  case True
  then obtain raw vs where m: "map_of ms name = Some (raw, JList vs)" by blast
  have "list_all (accepts scan None) vs \<and> Option.bind (those (map unmarshal vs)) (\<lambda>ws. those (map decode ws)) = Some xs \<longleftrightarrow>
      list_all2 doc vs xs" using items [OF m] by (rule items_pass)
  then show ?thesis
    by (auto simp: m array_member_def scanned_def accepts_scanBoundedArray [OF st] bind_eq_Some_conv those_length)
next
  case False
  then show ?thesis
    by (auto simp: array_member_def scanned_def accepts_scanBoundedArray [OF st] split: option.splits)
qed

lemma slice_absent:
  "stateless scan None \<Longrightarrow> scanned_array ms name maximum scan \<and> wire_slice unmarshal (map_of ms name) = Some None \<longleftrightarrow>
     map_of ms name = None"
  by (auto simp: scanned_def accepts_scanBoundedArray split: option.splits)

lemma accepts_values_array:
  "accepts (scanBoundedArray maximum (\<lambda>y b. Option.bind (addParameter b) (scanTypedValueShape y))) None x \<longleftrightarrow>
     accepts (scanBoundedArray maximum scanTypedValueShape) (None :: scan_budget) x"
proof -
  have "stateless (\<lambda>y b. Option.bind (addParameter b) (scanTypedValueShape y)) None"
    using value_wire.scan_stateless by (simp add: stateless_def)
  moreover have "accepts (\<lambda>y b. Option.bind (addParameter b) (scanTypedValueShape y)) None = accepts scanTypedValueShape (None :: scan_budget)"
    by (rule ext) (simp add: accepts_def)
  ultimately show ?thesis by (simp add: accepts_scanBoundedArray value_wire.scan_stateless)
qed

lemma accepts_filter_field:
  "accepts (scan_filter_field depth maxDep key) None x \<longleftrightarrow>
     key \<in> set filter_keys \<and>
     (key = ''values'' \<longrightarrow> accepts (scanBoundedArray ProtocolMaxFilterItems scanTypedValueShape) (None :: scan_budget) x) \<and>
     (key = ''expressions'' \<longrightarrow>
        accepts (scanBoundedArray ProtocolMaxFilterItems (\<lambda>y. scanFilterShape y (depth + 1) maxDep)) None x)"
  using accepts_values_array [of ProtocolMaxFilterItems x]
  by (auto simp: accepts_def scan_filter_field_def filter_keys_def skipJSONValue_def)

lemma scan_filter_field_stateless: "stateless (scan_filter_field depth maxDep key) None"
proof -
  have "stateless (\<lambda>y b. Option.bind (addParameter b) (scanTypedValueShape y)) None"
    using value_wire.scan_stateless by (simp add: stateless_def)
  from stateless_scanBoundedArray [OF this] stateless_scanBoundedArray [OF scanFilterShape_stateless]
  show ?thesis by (auto simp: stateless_def scan_filter_field_def skipJSONValue_def)
qed

lemma scanned_members:
  assumes "exact_members names ms"
  shows "list_all (\<lambda>m. fst m = name \<longrightarrow> accepts scan None (snd (snd m))) ms \<longleftrightarrow> scanned ms name scan"
proof (cases "map_of ms name")
  case None
  then have "\<And>m. m \<in> set ms \<Longrightarrow> fst m \<noteq> name" by (auto simp: map_of_eq_None_iff)
  with None show ?thesis by (auto simp: scanned_def list_all_iff)
next
  case (Some m)
  have "m' = (name, m)" if "m' \<in> set ms" "fst m' = name" for m'
    using that Some assms by (metis exact_members_def map_of_is_SomeI option.inject prod.collapse)
  moreover have "(name, m) \<in> set ms" using Some by (rule map_of_SomeD)
  ultimately have "list_all (\<lambda>m. fst m = name \<longrightarrow> P (snd (snd m))) ms \<longleftrightarrow> P (snd m)" for P
    by (fastforce simp: list_all_iff)
  with Some show ?thesis by (simp add: scanned_def split: prod.splits)
qed

lemma scanned_fields:
  assumes "exact_members names ms"
  shows "list_all (\<lambda>m. accepts (f (fst m)) None (snd (snd m))) ms \<longleftrightarrow> list_all (\<lambda>name. scanned ms name (f name)) names"
proof -
  have "list_all (\<lambda>m. accepts (f (fst m)) None (snd (snd m))) ms \<longleftrightarrow>
      list_all (\<lambda>name. list_all (\<lambda>m. fst m = name \<longrightarrow> accepts (f name) None (snd (snd m))) ms) names"
    using assms by (auto simp: exact_members_def list_all_iff)
  then show ?thesis by (simp add: scanned_members [OF assms])
qed

lemma accepts_object_fields:
  assumes "\<And>key. stateless (f key) None" and "\<And>key x. accepts (f key) None x \<Longrightarrow> key \<in> set names"
  shows "accepts (scanObjectShape f) None v \<longleftrightarrow>
    v = JNull \<or> (\<exists>ms. v = JObject ms \<and> exact_members names ms \<and> list_all (\<lambda>name. scanned ms name (f name)) names)"
proof -
  have "distinct (map fst ms) \<and> list_all (\<lambda>m. accepts (f (fst m)) None (snd (snd m))) ms \<longleftrightarrow>
      exact_members names ms \<and> list_all (\<lambda>name. scanned ms name (f name)) names" for ms
    using scanned_fields [of names ms f] assms(2) by (auto simp: exact_members_def list_all_iff)
  then show ?thesis by (simp add: accepts_scanObjectShape [OF assms(1)])
qed

lemma scanFilterShape_accepts:
  "accepts (\<lambda>v. scanFilterShape v depth maxDep) None v \<longleftrightarrow>
     depth \<le> maxDep \<and>
     (\<exists>ms. v = JObject ms \<and> exact_members filter_keys ms \<and>
        scanned_array ms ''values'' ProtocolMaxFilterItems scanTypedValueShape \<and>
        scanned_array ms ''expressions'' ProtocolMaxFilterItems (\<lambda>y. scanFilterShape y (depth + 1) maxDep))"
proof (cases v)
  case (JObject ms)
  let ?vals = "\<lambda>m :: string \<times> string \<times> jvalue. fst m = ''values'' \<longrightarrow> accepts (scanBoundedArray ProtocolMaxFilterItems scanTypedValueShape) (None :: scan_budget) (snd (snd m))"
  let ?exprs = "\<lambda>m :: string \<times> string \<times> jvalue. fst m = ''expressions'' \<longrightarrow>
      accepts (scanBoundedArray ProtocolMaxFilterItems (\<lambda>y. scanFilterShape y (depth + 1) maxDep)) None (snd (snd m))"
  have "accepts (\<lambda>v. scanFilterShape v depth maxDep) None v \<longleftrightarrow>
      depth \<le> maxDep \<and> exact_members filter_keys ms \<and> list_all ?vals ms \<and> list_all ?exprs ms"
  proof -
    have "accepts (\<lambda>v. scanFilterShape v depth maxDep) None v \<longleftrightarrow>
        depth \<le> maxDep \<and> scan_members (scan_filter_field depth maxDep) [] ms None = Some None"
      by (auto simp: accepts_def scanFilterShape_object [of "JObject ms"] JObject)
    also have "\<dots> \<longleftrightarrow> depth \<le> maxDep \<and> distinct (map fst ms) \<and>
        list_all (\<lambda>m. fst m \<in> set filter_keys \<and> ?vals m \<and> ?exprs m) ms"
      by (simp add: scan_members_stateless [OF scan_filter_field_stateless] accepts_filter_field)
    finally show ?thesis by (auto simp only: exact_members_def list_all_iff)
  qed
  then show ?thesis using scanned_members [of filter_keys ms] by (auto simp: JObject)
qed (simp_all add: accepts_def scanFilterShape_object)

lemma unmarshal_filterWire_exact:
  assumes "exact_members filter_keys ms"
  shows "unmarshal_filterWire (JObject ms) = Some (FilterWire rep kind field op vals exprs) \<longleftrightarrow>
    text_member ms ''representation'' rep \<and> text_member ms ''kind'' kind \<and> text_member ms ''field'' field \<and>
    text_member ms ''operator'' op \<and> wire_slice unmarshal_typedValueWire (map_of ms ''values'') = Some vals \<and>
    wire_slice unmarshal_filterWire (map_of ms ''expressions'') = Some exprs"
proof -
  have "exact_members [''representation'', ''kind'', ''field'', ''operator'', ''values'', ''expressions''] ms"
    using assms by (auto simp: filter_keys_def elim: exact_wider)
  then show ?thesis
    unfolding unmarshal_filterWire.simps [of "JObject ms"]
    by (auto simp: text_member_wire bind_eq_Some_conv)
qed

lemma decode_filterWire_predicate:
  "decode_filterWire (FilterWire rep (Some ''predicate'') field op vals exprs) depth maxDep = Some (Filter r k f opr vs es) \<longleftrightarrow>
     depth \<le> maxDep \<and> k = ''predicate'' \<and> op = Some opr \<and> rep = nonempty r \<and> r \<in> {[], RepresentationSourceText} \<and>
     field = Some f \<and> exprs = None \<and> es = [] \<and>
     (\<exists>ws xs. vals = Some ws \<and> length ws \<le> ProtocolMaxFilterItems \<and> those (map decode_typedValueWire ws) = Some xs \<and> vs = Some xs)"
  by (cases field; cases vals) (auto simp: bind_eq_Some_conv decodeRepresentation_Some)

lemma decode_filterWire_group:
  "decode_filterWire (FilterWire rep (Some ''group'') field op vals exprs) depth maxDep = Some (Filter r k f opr vs es) \<longleftrightarrow>
     depth \<le> maxDep \<and> k = ''group'' \<and> op = Some opr \<and> rep = None \<and> r = [] \<and>
     field = None \<and> f = [] \<and> vals = None \<and> vs = None \<and>
     (\<exists>ws. exprs = Some ws \<and> length ws \<le> ProtocolMaxFilterItems \<and>
        those (map (\<lambda>e. decode_filterWire e (depth + 1) maxDep) ws) = Some es)"
  by (cases field; cases vals) (auto simp: bind_eq_Some_conv decodeRepresentation_Some)

lemma decode_filterWire_f_Kind:
  "decode_filterWire (FilterWire rep kind field op vals exprs) depth maxDep = Some f \<Longrightarrow> kind = Some (f_Kind f)"
  by (auto simp: bind_eq_Some_conv split: if_splits)

lemma decode_filterWire_kinds:
  "decode_filterWire w depth maxDep = Some f \<Longrightarrow> f_Kind f = ''predicate'' \<or> f_Kind f = ''group''"
  by (cases w) (auto simp: bind_eq_Some_conv split: if_splits)

lemma predicate_wire:
  assumes "exact_members filter_keys ms"
  shows "(\<exists>w. unmarshal_filterWire (JObject ms) = Some w \<and>
      decode_filterWire w depth maxDep = Some (Filter r ''predicate'' fl opr vs es)) \<longleftrightarrow>
    depth \<le> maxDep \<and> text_member ms ''kind'' (Some ''predicate'') \<and> text_member ms ''operator'' (Some opr) \<and>
    optional_text ms ''representation'' r \<and> r \<in> {[], RepresentationSourceText} \<and> text_member ms ''field'' (Some fl) \<and>
    wire_slice unmarshal_filterWire (map_of ms ''expressions'') = Some None \<and> es = [] \<and>
    (\<exists>xs. vs = Some xs \<and> (\<exists>ws. wire_slice unmarshal_typedValueWire (map_of ms ''values'') = Some (Some ws) \<and>
       length ws \<le> ProtocolMaxFilterItems \<and> those (map decode_typedValueWire ws) = Some xs))"
  (is "?L \<longleftrightarrow> ?R")
proof
  assume ?L
  then obtain rep kind field op vals exprs where
    u: "unmarshal_filterWire (JObject ms) = Some (FilterWire rep kind field op vals exprs)"
    and d: "decode_filterWire (FilterWire rep kind field op vals exprs) depth maxDep = Some (Filter r ''predicate'' fl opr vs es)"
    using filterWire.exhaust by metis
  have "kind = Some ''predicate''" using decode_filterWire_f_Kind [OF d] by simp
  with d u show ?R
    unfolding unmarshal_filterWire_exact [OF assms] optional_text_def
    by (simp only: decode_filterWire_predicate) auto
next
  assume ?R
  then obtain ws where u: "unmarshal_filterWire (JObject ms) =
      Some (FilterWire (nonempty r) (Some ''predicate'') (Some fl) (Some opr) (Some ws) None)"
    and "length ws \<le> ProtocolMaxFilterItems" "\<exists>xs. those (map decode_typedValueWire ws) = Some xs \<and> vs = Some xs"
    using unmarshal_filterWire_exact [OF assms] by (auto simp: optional_text_def)
  with \<open>?R\<close> have "decode_filterWire (FilterWire (nonempty r) (Some ''predicate'') (Some fl) (Some opr) (Some ws) None) depth maxDep
      = Some (Filter r ''predicate'' fl opr vs es)" by (simp only: decode_filterWire_predicate) auto
  with u show ?L by blast
qed

lemma group_wire:
  assumes "exact_members filter_keys ms"
  shows "(\<exists>w. unmarshal_filterWire (JObject ms) = Some w \<and>
      decode_filterWire w depth maxDep = Some (Filter r ''group'' fl opr vs es)) \<longleftrightarrow>
    depth \<le> maxDep \<and> text_member ms ''kind'' (Some ''group'') \<and> text_member ms ''operator'' (Some opr) \<and>
    text_member ms ''representation'' None \<and> r = [] \<and> text_member ms ''field'' None \<and> fl = [] \<and>
    wire_slice unmarshal_typedValueWire (map_of ms ''values'') = Some None \<and> vs = None \<and>
    (\<exists>ws. wire_slice unmarshal_filterWire (map_of ms ''expressions'') = Some (Some ws) \<and>
       length ws \<le> ProtocolMaxFilterItems \<and> those (map (\<lambda>e. decode_filterWire e (depth + 1) maxDep) ws) = Some es)"
  (is "?L \<longleftrightarrow> ?R")
proof
  assume ?L
  then obtain rep kind field op vals exprs where
    u: "unmarshal_filterWire (JObject ms) = Some (FilterWire rep kind field op vals exprs)"
    and d: "decode_filterWire (FilterWire rep kind field op vals exprs) depth maxDep = Some (Filter r ''group'' fl opr vs es)"
    using filterWire.exhaust by metis
  have "kind = Some ''group''" using decode_filterWire_f_Kind [OF d] by simp
  with d u show ?R
    unfolding unmarshal_filterWire_exact [OF assms] by (simp only: decode_filterWire_group) auto
next
  assume ?R
  then obtain ws where u: "unmarshal_filterWire (JObject ms) = Some (FilterWire None (Some ''group'') None (Some opr) None (Some ws))"
    and "length ws \<le> ProtocolMaxFilterItems" "those (map (\<lambda>e. decode_filterWire e (depth + 1) maxDep) ws) = Some es"
    using unmarshal_filterWire_exact [OF assms] by auto
  with \<open>?R\<close> have "decode_filterWire (FilterWire None (Some ''group'') None (Some opr) None (Some ws)) depth maxDep
      = Some (Filter r ''group'' fl opr vs es)" by (simp only: decode_filterWire_group) auto
  with u show ?L by blast
qed

lemma text_member_None: "text_member ms name None \<longleftrightarrow> map_of ms name = None"
  by (simp add: text_member_def)

theorem filter_passes:
  "both_passes (\<lambda>v. scanFilterShape v depth maxDep) unmarshal_filterWire (\<lambda>w. decode_filterWire w depth maxDep) v f \<longleftrightarrow>
     filter_doc (maxDep - depth + 1) v f"
proof (induction v arbitrary: depth f rule: measure_induct_rule [of size])
  case (less v)
  obtain r k fl opr vs es where f: "f = Filter r k fl opr vs es" by (cases f)
  show ?case
  proof (cases "\<exists>ms. v = JObject ms \<and> exact_members filter_keys ms")
    case False
    then show ?thesis by (auto simp: f both_passes_def scanFilterShape_accepts)
  next
    case True
    then obtain ms where v: "v = JObject ms" and e: "exact_members filter_keys ms" by blast
    let ?sv = "scanned_array ms ''values'' ProtocolMaxFilterItems scanTypedValueShape"
    let ?se = "scanned_array ms ''expressions'' ProtocolMaxFilterItems (\<lambda>y. scanFilterShape y (depth + 1) maxDep)"
    let ?w = "\<lambda>w. unmarshal_filterWire v = Some w \<and> decode_filterWire w depth maxDep = Some f"
    have passes: "both_passes (\<lambda>v. scanFilterShape v depth maxDep) unmarshal_filterWire (\<lambda>w. decode_filterWire w depth maxDep) v f
        \<longleftrightarrow> depth \<le> maxDep \<and> ?sv \<and> ?se \<and> (\<exists>w. ?w w)"
      using e by (auto simp: both_passes_def scanFilterShape_accepts v bind_eq_Some_conv)
    have "both_passes (\<lambda>y. scanFilterShape y (depth + 1) maxDep) unmarshal_filterWire
        (\<lambda>w. decode_filterWire w (depth + 1) maxDep) y x \<longleftrightarrow> filter_doc (maxDep - depth) y x"
      if "map_of ms ''expressions'' = Some (raw, JList ys)" "y \<in> set ys" for raw ys y x
    proof -
      have "size y < size v"
        using member_size [OF map_of_SomeD [OF that(1)]] item_size [OF that(2)] by (simp add: v)
      from less.IH [OF this, of "depth + 1" x] show ?thesis by simp
    qed
    note exprs = slice_passes [OF scanFilterShape_stateless this, where maximum = ProtocolMaxFilterItems]
    note vals = slice_passes [OF value_wire.scan_stateless value_wire.passes, of ms "''values''" ProtocolMaxFilterItems]
    note absent = slice_absent [OF value_wire.scan_stateless] slice_absent [OF scanFilterShape_stateless]
    consider (predicate) "k = ''predicate''" | (grp) "k = ''group''" | (other) "k \<noteq> ''predicate''" "k \<noteq> ''group''" by blast
    then show ?thesis
    proof cases
      case predicate
      show ?thesis unfolding passes unfolding f predicate v predicate_wire [OF e]
        using e by (simp add: vals [symmetric] absent(2) [of ms "''expressions''" ProtocolMaxFilterItems "depth + 1" maxDep
          unmarshal_filterWire, symmetric]) blast
    next
      case grp
      show ?thesis unfolding passes unfolding f grp v group_wire [OF e]
        using e by (simp add: exprs [symmetric] text_member_None optional_text_def
          absent(1) [of ms "''values''" ProtocolMaxFilterItems unmarshal_typedValueWire, symmetric]) (auto simp: text_member_None)
    next
      case other
      then have "\<not> ?w w" for w
        using decode_filterWire_kinds [of w depth maxDep f] by (auto simp: f)
      with other show ?thesis unfolding passes by (auto simp: f)
    qed
  qed
qed

end
