(* ===== verification/Request_Exact.thy ===== *)
theory Request_Exact
  imports Request_Contract
begin

text \<open>
  The contract of a whole request: which document represents which select request, and that \<open>DecodeStrict\<close> and
  \<open>DecodeStrictSelect\<close> return a request exactly for the bodies that represent it.
\<close>

section \<open>Queries\<close>

definition member_doc :: "members \<Rightarrow> string \<Rightarrow> (jvalue \<Rightarrow> 'a \<Rightarrow> bool) \<Rightarrow> 'a \<Rightarrow> bool" where
  "member_doc ms name doc x \<longleftrightarrow> (\<exists>raw v. map_of ms name = Some (raw, v) \<and> doc v x)"

text \<open>An optional member, and an optional array whose absence stands for the empty list.\<close>

definition optional_doc :: "members \<Rightarrow> string \<Rightarrow> (jvalue \<Rightarrow> 'a \<Rightarrow> bool) \<Rightarrow> 'a option \<Rightarrow> bool" where
  "optional_doc ms name doc x \<longleftrightarrow> (case x of None \<Rightarrow> map_of ms name = None | Some y \<Rightarrow> member_doc ms name doc y)"

definition optional_array :: "members \<Rightarrow> string \<Rightarrow> nat \<Rightarrow> (jvalue \<Rightarrow> 'a \<Rightarrow> bool) \<Rightarrow> 'a list \<Rightarrow> bool" where
  "optional_array ms name maximum doc xs \<longleftrightarrow> map_of ms name = None \<and> xs = [] \<or> array_member ms name maximum doc xs"

definition integer_doc :: "int \<Rightarrow> int \<Rightarrow> jvalue \<Rightarrow> int \<Rightarrow> bool" where
  "integer_doc low high v i \<longleftrightarrow> (\<exists>num. v = JNumber num \<and> parseJSONInteger num = Some i) \<and> low \<le> i \<and> i \<le> high"

definition text_doc :: "jvalue \<Rightarrow> string \<Rightarrow> bool" where
  "text_doc v s \<longleftrightarrow> v = JText s"

definition query_keys :: "bool \<Rightarrow> string list" where
  "query_keys selectOnly =
     [''source'', ''projection'', ''filter'', ''order_by'', ''limit'', ''offset''] @ (if selectOnly then [] else [''group_by''])"

definition spec_doc :: "bool \<Rightarrow> int \<Rightarrow> jvalue \<Rightarrow> Spec \<Rightarrow> bool" where
  "spec_doc selectOnly maxFilterDepth v spec \<longleftrightarrow>
     (\<exists>ms. v = JObject ms \<and> exact_members (query_keys selectOnly) ms \<and>
        member_doc ms ''source'' resource_doc (spec_Source spec) \<and>
        array_member ms ''projection'' ProtocolMaxProjectionFields (selection_doc selectOnly) (spec_Projection spec) \<and>
        optional_doc ms ''filter'' (filter_doc maxFilterDepth) (spec_Filter spec) \<and>
        optional_array ms ''group_by'' ProtocolMaxGroupByFields text_doc (spec_GroupBy spec) \<and>
        optional_array ms ''order_by'' ProtocolMaxOrderByFields sort_doc (spec_OrderBy spec) \<and>
        optional_doc ms ''limit'' (integer_doc 1 ProtocolMaxRows) (spec_Limit spec) \<and>
        optional_doc ms ''offset'' (integer_doc 0 ProtocolMaxOffset) (spec_Offset spec))"

subsection \<open>Members under both passes\<close>

lemma wire_pointer_simps [simp]:
  "wire_pointer f None = Some None"
  "wire_pointer f (Some (raw, v)) = (if v = JNull then Some None else map_option Some (f v))"
  by (simp_all add: wire_pointer_def)

lemma pointer_passes:
  assumes passes: "\<And>v. both_passes scan unmarshal decode v x \<longleftrightarrow> doc v x" and "\<not> doc JNull x"
  shows "scanned ms name scan \<and> (\<exists>w. wire_pointer unmarshal (map_of ms name) = Some (Some w) \<and> decode w = Some x) \<longleftrightarrow>
    member_doc ms name doc x"
  using assms(2)
  by (cases "map_of ms name") (auto simp: scanned_def member_doc_def passes [symmetric] both_passes_def bind_eq_Some_conv
      split: if_splits)

lemma pointer_optional:
  assumes passes: "\<And>v x. both_passes scan unmarshal decode v x \<longleftrightarrow> doc v x" and "\<not> accepts scan None JNull"
  shows "scanned ms name scan \<and>
    Option.bind (wire_pointer unmarshal (map_of ms name))
      (\<lambda>w. case w of None \<Rightarrow> Some None | Some w \<Rightarrow> map_option Some (decode w)) = Some x \<longleftrightarrow>
    optional_doc ms name doc x"
proof (cases "map_of ms name")
  case None
  then show ?thesis by (auto simp: scanned_def optional_doc_def member_doc_def split: option.splits)
next
  case (Some m)
  obtain raw v where m: "m = (raw, v)" by (cases m)
  show ?thesis using assms(2)
    by (cases "v = JNull"; cases x)
      (auto simp: Some m scanned_def optional_doc_def member_doc_def passes [symmetric] both_passes_def bind_eq_Some_conv)
qed

lemma slice_optional:
  assumes st: "stateless scan None" and passes: "\<And>v x. both_passes scan unmarshal decode v x \<longleftrightarrow> doc v x"
  shows "scanned_array ms name maximum scan \<and>
    Option.bind (wire_slice unmarshal (map_of ms name))
      (\<lambda>w. case w of None \<Rightarrow> Some [] | Some ws \<Rightarrow> require (length ws \<le> maximum) (those (map decode ws))) = Some xs \<longleftrightarrow>
    optional_array ms name maximum doc xs"
proof (cases "map_of ms name")
  case None
  then show ?thesis by (auto simp: scanned_def optional_array_def array_member_def)
next
  case (Some m)
  have "scanned_array ms name maximum scan \<Longrightarrow> wire_slice unmarshal (map_of ms name) \<noteq> Some None"
    using Some by (cases m) (auto simp: scanned_def accepts_scanBoundedArray [OF st])
  then have "scanned_array ms name maximum scan \<and>
      Option.bind (wire_slice unmarshal (map_of ms name))
        (\<lambda>w. case w of None \<Rightarrow> Some [] | Some ws \<Rightarrow> require (length ws \<le> maximum) (those (map decode ws))) = Some xs \<longleftrightarrow>
      scanned_array ms name maximum scan \<and>
      (\<exists>ws. wire_slice unmarshal (map_of ms name) = Some (Some ws) \<and> length ws \<le> maximum \<and> those (map decode ws) = Some xs)"
    by (auto simp: bind_eq_Some_conv split: option.splits if_splits)
  also have "\<dots> \<longleftrightarrow> array_member ms name maximum doc xs" by (rule slice_passes [OF st passes])
  finally show ?thesis using Some by (simp add: optional_array_def)
qed

lemma integer_passes:
  "Option.bind (wireInt (map_of ms name))
     (\<lambda>w. case w of None \<Rightarrow> Some None | Some i \<Rightarrow> require (low \<le> i \<and> i \<le> high) (Some (Some i))) = Some x \<longleftrightarrow>
   optional_doc ms name (integer_doc low high) x"
  by (cases "map_of ms name"; cases x)
    (auto simp: wireInt_def absent_or_def unmarshal_wireInt_def optional_doc_def member_doc_def integer_doc_def
      bind_eq_Some_conv split: jvalue.splits if_splits)

lemma text_passes: "both_passes skipJSONValue unmarshal_wireString Some v s \<longleftrightarrow> text_doc v s"
  by (cases v) (simp_all add: both_passes_def unmarshal_wireString_def text_doc_def)

section \<open>The query\<close>

definition scan_query_field :: "int \<Rightarrow> bool \<Rightarrow> string \<Rightarrow> jvalue \<Rightarrow> scan_budget \<Rightarrow> scan_budget option" where
  "scan_query_field maxFilterDepth selectOnly key v b =
     (if key = ''source'' then scanResourceShape v b
      else if key = ''projection'' then scanBoundedArray ProtocolMaxProjectionFields (scanSelectionShape selectOnly) v b
      else if key = ''filter'' then scanFilterShape v 1 maxFilterDepth b
      else if key = ''group_by'' then
        if selectOnly then None else scanBoundedArray ProtocolMaxGroupByFields skipJSONValue v b
      else if key = ''order_by'' then scanBoundedArray ProtocolMaxOrderByFields scanSortShape v b
      else if key \<in> set [''limit'', ''offset''] then skipJSONValue v b
      else None)"

lemma scanQueryShape_object: "scanQueryShape maxFilterDepth selectOnly = scanObjectShape (scan_query_field maxFilterDepth selectOnly)"
  unfolding scanQueryShape_def scan_query_field_def by (rule refl)

lemmas stateless_arrays = stateless_scanBoundedArray [OF sort_wire.scan_stateless]
  stateless_scanBoundedArray [OF selection_wire.scan_stateless] stateless_scanBoundedArray [OF stateless_skip(1)]

lemma scan_query_field_simps [simp]:
  "scan_query_field maxFilterDepth selectOnly ''source'' = scanResourceShape"
  "scan_query_field maxFilterDepth selectOnly ''projection'' = scanBoundedArray ProtocolMaxProjectionFields (scanSelectionShape selectOnly)"
  "scan_query_field maxFilterDepth selectOnly ''filter'' = (\<lambda>v. scanFilterShape v 1 maxFilterDepth)"
  "\<not> selectOnly \<Longrightarrow> scan_query_field maxFilterDepth selectOnly ''group_by'' = scanBoundedArray ProtocolMaxGroupByFields skipJSONValue"
  "scan_query_field maxFilterDepth selectOnly ''order_by'' = scanBoundedArray ProtocolMaxOrderByFields scanSortShape"
  "scan_query_field maxFilterDepth selectOnly ''limit'' = skipJSONValue"
  "scan_query_field maxFilterDepth selectOnly ''offset'' = skipJSONValue"
  by (intro ext, simp add: scan_query_field_def)+

lemma scan_query_field_other [simp]:
  "key \<notin> set (query_keys selectOnly) \<Longrightarrow> scan_query_field maxFilterDepth selectOnly key = (\<lambda>v b. None)"
  by (cases selectOnly; intro ext; simp add: scan_query_field_def query_keys_def)

lemma scan_query_field_stateless: "stateless (scan_query_field maxFilterDepth selectOnly key) None"
proof (cases "key \<in> set (query_keys selectOnly)")
  case True
  then consider "key = ''source''" | "key = ''projection''" | "key = ''filter''" | "key = ''order_by''" | "key = ''limit''"
    | "key = ''offset''" | "key = ''group_by''" "\<not> selectOnly" by (cases selectOnly) (simp_all add: query_keys_def, metis+)
  then show ?thesis
    by cases (simp_all add: stateless_arrays resource_wire.scan_stateless scanFilterShape_stateless)
qed simp

lemma scan_query_field_key: "accepts (scan_query_field maxFilterDepth selectOnly key) None x \<Longrightarrow> key \<in> set (query_keys selectOnly)"
  by (rule ccontr) simp

lemma scanned_skip [simp]: "scanned ms name skipJSONValue"
  by (simp add: scanned_def split: option.splits prod.splits)

lemma scanQueryShape_accepts:
  "accepts (scanQueryShape maxFilterDepth selectOnly) None v \<longleftrightarrow>
     v = JNull \<or>
     (\<exists>ms. v = JObject ms \<and> exact_members (query_keys selectOnly) ms \<and> scanned ms ''source'' scanResourceShape \<and>
        scanned_array ms ''projection'' ProtocolMaxProjectionFields (scanSelectionShape selectOnly) \<and>
        scanned ms ''filter'' (\<lambda>v. scanFilterShape v 1 maxFilterDepth) \<and>
        scanned_array ms ''group_by'' ProtocolMaxGroupByFields skipJSONValue \<and>
        scanned_array ms ''order_by'' ProtocolMaxOrderByFields scanSortShape)"
proof -
  have "selectOnly \<Longrightarrow> exact_members (query_keys selectOnly) ms \<Longrightarrow> scanned ms ''group_by'' g" for ms g
    by (simp add: scanned_def exact_absent query_keys_def)
  moreover have "accepts (scanObjectShape (scan_query_field maxFilterDepth selectOnly)) None v \<longleftrightarrow>
      v = JNull \<or> (\<exists>ms. v = JObject ms \<and> exact_members (query_keys selectOnly) ms \<and>
        list_all (\<lambda>name. scanned ms name (scan_query_field maxFilterDepth selectOnly name)) (query_keys selectOnly))"
    by (rule accepts_object_fields) (rule scan_query_field_stateless, erule scan_query_field_key)
  ultimately show ?thesis
    unfolding scanQueryShape_object
    by (cases selectOnly) (auto simp: query_keys_def)
qed

text \<open>What the second pass makes of an object of exact keys, one condition per field.\<close>

lemma spec_wire:
  assumes "exact_members (query_keys selectOnly) ms"
  shows "Option.bind (unmarshal_specWire (JObject ms)) (\<lambda>w. decode_specWire w d) = Some spec \<longleftrightarrow>
    (\<exists>w. wire_pointer unmarshal_resourceWire (map_of ms ''source'') = Some (Some w) \<and>
       decode_resourceWire w = Some (spec_Source spec)) \<and>
    (\<exists>ws. wire_slice unmarshal_selectionWire (map_of ms ''projection'') = Some (Some ws) \<and>
       length ws \<le> ProtocolMaxProjectionFields \<and> those (map decode_selectionWire ws) = Some (spec_Projection spec)) \<and>
    Option.bind (wire_pointer unmarshal_filterWire (map_of ms ''filter''))
      (\<lambda>w. case w of None \<Rightarrow> Some None | Some w \<Rightarrow> map_option Some (decode_filterWire w 1 d)) = Some (spec_Filter spec) \<and>
    Option.bind (wire_slice unmarshal_wireString (map_of ms ''group_by''))
      (\<lambda>w. case w of None \<Rightarrow> Some [] | Some ws \<Rightarrow> require (length ws \<le> ProtocolMaxGroupByFields) (Some ws))
      = Some (spec_GroupBy spec) \<and>
    Option.bind (wire_slice unmarshal_sortWire (map_of ms ''order_by''))
      (\<lambda>w. case w of None \<Rightarrow> Some [] | Some ws \<Rightarrow> require (length ws \<le> ProtocolMaxOrderByFields) (those (map decode_sortWire ws)))
      = Some (spec_OrderBy spec) \<and>
    Option.bind (wireInt (map_of ms ''limit''))
      (\<lambda>w. case w of None \<Rightarrow> Some None | Some i \<Rightarrow> require (1 \<le> i \<and> i \<le> ProtocolMaxRows) (Some (Some i)))
      = Some (spec_Limit spec) \<and>
    Option.bind (wireInt (map_of ms ''offset''))
      (\<lambda>w. case w of None \<Rightarrow> Some None | Some i \<Rightarrow> require (0 \<le> i \<and> i \<le> ProtocolMaxOffset) (Some (Some i)))
      = Some (spec_Offset spec)"
  (is "?L \<longleftrightarrow> ?R")
proof -
  have e: "exact_members [''source'', ''projection'', ''filter'', ''group_by'', ''order_by'', ''limit'', ''offset''] ms"
    using assms by (auto simp: query_keys_def elim!: exact_wider split: if_splits)
  have spec: "x = spec \<longleftrightarrow> spec_Source x = spec_Source spec \<and> spec_Projection x = spec_Projection spec \<and>
      spec_Filter x = spec_Filter spec \<and> spec_GroupBy x = spec_GroupBy spec \<and> spec_OrderBy x = spec_OrderBy spec \<and>
      spec_Limit x = spec_Limit spec \<and> spec_Offset x = spec_Offset spec" for x by auto
  show ?thesis
  proof
    assume ?L
    with e show ?R
      by (auto simp: unmarshal_specWire_def decode_specWire_def bind_eq_Some_conv spec simp del: split_paired_Ex
          split del: if_split split: if_split_asm cong: option.case_cong)
  next
    assume ?R
    with e show ?L
      by (auto simp: unmarshal_specWire_def decode_specWire_def bind_eq_Some_conv split del: if_split cong: option.case_cong)
  qed
qed

lemma doc_null [simp]: "\<not> resource_doc JNull r" "\<not> spec_doc selectOnly d JNull spec"
  by (simp_all add: resource_doc_def spec_doc_def)

lemma filter_null [simp]: "\<not> accepts (\<lambda>v. scanFilterShape v depth maxDep) None JNull"
  by (simp add: scanFilterShape_accepts)

lemma those_Some_id: "those (map Some xs) = Some xs"
  by (simp add: those_Some)

lemmas spec_members =
  pointer_passes [where doc = resource_doc, OF resource_wire.passes doc_null(1), symmetric]
  slice_passes [OF selection_wire.scan_stateless selection_wire.passes, symmetric]
  pointer_optional [OF filter_passes [where depth = 1, simplified] filter_null, symmetric]
  slice_optional [OF stateless_skip(1) text_passes, unfolded those_Some_id, symmetric]
  slice_optional [OF sort_wire.scan_stateless sort_wire.passes, symmetric]
  integer_passes [symmetric]

theorem spec_passes:
  "both_passes (scanQueryShape d selectOnly) unmarshal_specWire (\<lambda>w. decode_specWire w d) v spec \<longleftrightarrow> spec_doc selectOnly d v spec"
proof (cases "\<exists>ms. v = JObject ms \<and> exact_members (query_keys selectOnly) ms")
  case True
  then obtain ms where v: "v = JObject ms" and e: "exact_members (query_keys selectOnly) ms" by blast
  show ?thesis
    unfolding both_passes_def scanQueryShape_accepts v spec_doc_def spec_wire [OF e]
    using e by (simp add: spec_members) blast
next
  case False
  have "Option.bind (unmarshal_specWire JNull) (\<lambda>w. decode_specWire w d) = None"
    by (simp add: unmarshal_specWire_def decode_specWire_def wire_members_def wire_field_def wireInt_def absent_or_def)
  with False show ?thesis by (auto simp: both_passes_def scanQueryShape_accepts spec_doc_def)
qed

section \<open>The request\<close>

definition request_doc :: "bool \<Rightarrow> int \<Rightarrow> jvalue \<Rightarrow> Request \<Rightarrow> bool" where
  "request_doc selectOnly maxFilterDepth v r \<longleftrightarrow>
     (\<exists>ms. v = JObject ms \<and> exact_members [''profile'', ''datasource'', ''query''] ms \<and>
        text_member ms ''profile'' (Some (rq_Profile r)) \<and> rq_Profile r \<noteq> [] \<and>
        text_member ms ''datasource'' (Some (rq_Datasource r)) \<and> rq_Datasource r \<noteq> [] \<and>
        member_doc ms ''query'' (spec_doc selectOnly maxFilterDepth) (rq_Query r))"

definition scan_request_field :: "int \<Rightarrow> bool \<Rightarrow> string \<Rightarrow> jvalue \<Rightarrow> scan_budget \<Rightarrow> scan_budget option" where
  "scan_request_field maxFilterDepth selectOnly key x b =
     (if key \<in> set [''profile'', ''datasource''] then skipJSONValue x b
      else if key = ''query'' then scanQueryShape maxFilterDepth selectOnly x b
      else None)"

lemma scan_request_field_simps [simp]:
  "scan_request_field d selectOnly ''profile'' = skipJSONValue"
  "scan_request_field d selectOnly ''datasource'' = skipJSONValue"
  "scan_request_field d selectOnly ''query'' = scanQueryShape d selectOnly"
  by (intro ext, simp add: scan_request_field_def)+

lemma scan_request_field_other [simp]:
  "key \<notin> set [''profile'', ''datasource'', ''query''] \<Longrightarrow> scan_request_field d selectOnly key = (\<lambda>v b. None)"
  by (intro ext) (simp add: scan_request_field_def)

lemma scanQueryShape_stateless: "stateless (scanQueryShape d selectOnly) None"
  unfolding scanQueryShape_object by (rule stateless_scanObjectShape, rule scan_query_field_stateless)

lemma scan_request_field_stateless: "stateless (scan_request_field d selectOnly key) None"
  by (cases "key \<in> set [''profile'', ''datasource'', ''query'']") (auto simp: scanQueryShape_stateless)

lemma scanRequestShape_object:
  "scanRequestShape (JObject ms) d selectOnly \<longleftrightarrow>
     exact_members [''profile'', ''datasource'', ''query''] ms \<and> scanned ms ''query'' (scanQueryShape d selectOnly)"
proof -
  have key: "key \<in> set [''profile'', ''datasource'', ''query'']" if "accepts (scan_request_field d selectOnly key) None x" for key x
  proof (rule ccontr)
    assume "key \<notin> set [''profile'', ''datasource'', ''query'']"
    then have "scan_request_field d selectOnly key = (\<lambda>v b. None)" by (rule scan_request_field_other)
    with that show False by simp
  qed
  have "scanRequestShape (JObject ms) d selectOnly \<longleftrightarrow> scan_members (scan_request_field d selectOnly) [] ms None \<noteq> None"
    by (simp add: scanRequestShape_def scan_request_field_def [abs_def])
  also have "\<dots> \<longleftrightarrow> scan_members (scan_request_field d selectOnly) [] ms None = Some None"
    using scan_members_stateless [where f = "scan_request_field d selectOnly", OF scan_request_field_stateless, of "[]" ms]
    by (metis option.exhaust option.distinct(1))
  also have "\<dots> \<longleftrightarrow> accepts (scanObjectShape (scan_request_field d selectOnly)) None (JObject ms)"
    by (simp add: accepts_def scanObjectShape_def)
  also have "\<dots> \<longleftrightarrow> exact_members [''profile'', ''datasource'', ''query''] ms \<and>
      list_all (\<lambda>name. scanned ms name (scan_request_field d selectOnly name)) [''profile'', ''datasource'', ''query'']"
    using accepts_object_fields [where f = "scan_request_field d selectOnly" and v = "JObject ms",
        OF scan_request_field_stateless key] by simp
  finally show ?thesis by simp
qed

lemma decodeStrictRequest_iff:
  "decodeStrictRequest data d selectOnly = Some r \<longleftrightarrow>
     ValidString data \<and>
     (\<exists>doc. read_json data = Some doc \<and> request_doc selectOnly d doc r) \<and>
     (selectOnly \<longrightarrow> validateSimpleSelectTransport (rq_Query r) d = None)"
proof (cases "read_json data")
  case None
  then show ?thesis by (simp add: decodeStrictRequest_def)
next
  case (Some doc)
  show ?thesis
  proof (cases "\<exists>ms. doc = JObject ms \<and> exact_members [''profile'', ''datasource'', ''query''] ms")
    case True
    then obtain ms where v: "doc = JObject ms" and e: "exact_members [''profile'', ''datasource'', ''query''] ms" by blast
    have query: "member_doc ms ''query'' (spec_doc selectOnly d) q \<longleftrightarrow> scanned ms ''query'' (scanQueryShape d selectOnly) \<and>
        (\<exists>w. wire_pointer unmarshal_specWire (map_of ms ''query'') = Some (Some w) \<and> decode_specWire w d = Some q)" for q
      by (rule pointer_passes [symmetric]) (simp_all add: spec_passes)
    show ?thesis
    proof
      assume "decodeStrictRequest data d selectOnly = Some r"
      with e show "ValidString data \<and> (\<exists>doc. read_json data = Some doc \<and> request_doc selectOnly d doc r) \<and>
          (selectOnly \<longrightarrow> validateSimpleSelectTransport (rq_Query r) d = None)"
        by (auto simp: decodeStrictRequest_def Some v scanRequestShape_object request_doc_def query unmarshal_requestWire_def
            bind_eq_Some_conv text_member_wire split: if_split_asm)
    next
      assume "ValidString data \<and> (\<exists>doc. read_json data = Some doc \<and> request_doc selectOnly d doc r) \<and>
          (selectOnly \<longrightarrow> validateSimpleSelectTransport (rq_Query r) d = None)"
      with e show "decodeStrictRequest data d selectOnly = Some r"
        by (cases r) (auto simp: decodeStrictRequest_def Some v scanRequestShape_object request_doc_def query
            unmarshal_requestWire_def text_member_wire)
    qed
  next
    case False
    then show ?thesis
      by (cases doc) (auto simp: decodeStrictRequest_def Some scanRequestShape_object request_doc_def
          unmarshal_requestWire_def wire_members_def)
  qed
qed

section \<open>Properties\<close>

text \<open>
  C26: the two passes of the select decoder together accept exactly the bodies that are valid UTF-8, hold one JSON value
  and represent a select request: objects with exact and distinct keys only, every required member present and of its
  type, no \<open>null\<close>, arrays within the protocol bounds, filters no deeper than the limit, a select list and an order
  that the transport check accepts. The request returned is the one the body represents; the bind values keep the raw
  text of the body.
\<close>

theorem select_decoding_is_exact:
  "DecodeStrictSelect data maxFilterDepth = Some r \<longleftrightarrow>
     ValidString data \<and>
     (\<exists>doc. read_json data = Some doc \<and> request_doc True maxFilterDepth doc r) \<and>
     validateSimpleSelectTransport (rq_Query r) maxFilterDepth = None"
  by (simp add: DecodeStrictSelect_def decodeStrictRequest_iff)

end
