(* ===== verification/Scan_Budget.thy ===== *)
theory Scan_Budget
  imports Request_Contract
begin

text \<open>
  The budget the shape pass threads through a filter. Two facts about a scanner compose through its loops: what it
  accepts with a budget it accepts without one (\<open>erases\<close>), and on a document that represents a filter it spends exactly
  the filter's objects, predicates and bind values, and refuses exactly when they exceed the budget (\<open>charges\<close>). A
  well-formed filter of \<open>n\<close> predicates has at most \<open>2 * n - 1\<close> objects, which is the budget of objects the code derives.
\<close>

section \<open>Spending\<close>

definition spend :: "filterShapeScanBudget \<Rightarrow> nat \<Rightarrow> nat \<Rightarrow> nat \<Rightarrow> filterShapeScanBudget" where
  "spend b nodes preds params =
     b\<lparr>sb_nodes := sb_nodes b + int nodes, sb_predicates := sb_predicates b + int preds,
       sb_parameters := sb_parameters b + int params\<rparr>"

definition fits :: "filterShapeScanBudget \<Rightarrow> nat \<Rightarrow> nat \<Rightarrow> nat \<Rightarrow> bool" where
  "fits b nodes preds params \<longleftrightarrow>
     (nodes = 0 \<or> sb_nodes b + int nodes \<le> sb_maxNodes b) \<and>
     (preds = 0 \<or> sb_predicates b + int preds \<le> sb_maxPredicates b) \<and>
     (params = 0 \<or> sb_parameters b + int params \<le> sb_maxParameters b)"

definition charges :: "(scan_budget \<Rightarrow> scan_budget option) \<Rightarrow> nat \<Rightarrow> nat \<Rightarrow> nat \<Rightarrow> bool" where
  "charges f nodes preds params \<longleftrightarrow>
     (\<forall>b. f (Some b) = (if fits b nodes preds params then Some (Some (spend b nodes preds params)) else None))"

lemma chargesD:
  "charges f n p q \<Longrightarrow> f (Some b) = (if fits b n p q then Some (Some (spend b n p q)) else None)"
  by (simp add: charges_def)

lemma spend_zero [simp]: "spend b 0 0 0 = b" "fits b 0 0 0"
  by (simp_all add: spend_def fits_def)

lemma spend_spend: "spend (spend b n p q) n' p' q' = spend b (n + n') (p + p') (q + q')"
  by (simp add: spend_def algebra_simps)

lemma fits_spend: "fits b n p q \<and> fits (spend b n p q) n' p' q' \<longleftrightarrow> fits b (n + n') (p + p') (q + q')"
  by (auto simp: fits_def spend_def)

lemma charges_bind:
  assumes "charges f n p q" and "charges g n' p' q'"
  shows "charges (\<lambda>b. Option.bind (f b) g) (n + n') (p + p') (q + q')"
  using assms by (auto simp: charges_def spend_spend simp flip: fits_spend)

lemma charges_steps:
  "charges enterFilter 1 0 0" "charges addPredicate 0 1 0" "charges addParameter 0 0 1" "charges addServerParameter 0 0 1"
  by (simp_all add: charges_def enterFilter_def addPredicate_def addParameter_def addServerParameter_def fits_def spend_def)

lemma charges_Some: "charges Some 0 0 0"
  by (simp add: charges_def)

text \<open>The loops over members and over items.\<close>

lemma charges_members:
  assumes "\<And>key raw x. (key, raw, x) \<in> set ms \<Longrightarrow> charges (f key x) (n key) (p key) (q key)"
    and "distinct (map fst ms)" and "set (map fst ms) \<inter> set seen = {}"
  shows "charges (scan_members f seen ms) (\<Sum>m\<leftarrow>ms. n (fst m)) (\<Sum>m\<leftarrow>ms. p (fst m)) (\<Sum>m\<leftarrow>ms. q (fst m))"
  using assms
proof (induction ms arbitrary: seen)
  case Nil
  show ?case by (simp add: charges_def)
next
  case (Cons m ms)
  obtain key raw x where m: "m = (key, raw, x)" by (cases m)
  have c: "charges (f key x) (n key) (p key) (q key)" by (rule Cons.prems(1) [of _ raw]) (simp add: m)
  have "charges (scan_members f (key # seen) ms) (\<Sum>m\<leftarrow>ms. n (fst m)) (\<Sum>m\<leftarrow>ms. p (fst m)) (\<Sum>m\<leftarrow>ms. q (fst m))"
    using Cons.prems(2,3) by (intro Cons.IH) (auto simp: m intro: Cons.prems(1))
  from charges_bind [OF c this] Cons.prems(3) show ?case by (simp add: m charges_def)
qed

lemma charges_items:
  assumes "list_all2 (\<lambda>v x. charges (f v) (n x) (p x) (q x)) vs xs" and "count + length vs \<le> maximum"
  shows "charges (scan_items count maximum f vs) (\<Sum>x\<leftarrow>xs. n x) (\<Sum>x\<leftarrow>xs. p x) (\<Sum>x\<leftarrow>xs. q x)"
  using assms
proof (induction vs xs arbitrary: count rule: list_all2_induct)
  case Nil
  show ?case by (simp add: charges_def)
next
  case (Cons v vs x xs)
  from charges_bind [OF Cons.hyps(1) Cons.IH [of "count + 1"]] Cons.prems show ?case by (simp add: charges_def)
qed

section \<open>Erasing the budget\<close>

definition erases :: "(scan_budget \<Rightarrow> scan_budget option) \<Rightarrow> bool" where
  "erases f \<longleftrightarrow> (\<forall>b b'. f (Some b) = Some b' \<longrightarrow> b' \<noteq> None \<and> f None = Some None)"

lemma erases_bind: "erases f \<Longrightarrow> erases g \<Longrightarrow> erases (\<lambda>b. Option.bind (f b) g)"
  by (fastforce simp: erases_def bind_eq_Some_conv)

lemma erases_steps [simp]: "erases enterFilter" "erases addPredicate" "erases addParameter" "erases addServerParameter" "erases Some"
  by (auto simp: erases_def enterFilter_def addPredicate_def addParameter_def addServerParameter_def Let_def split: if_splits)

lemma erases_members:
  assumes "\<And>key raw x. (key, raw, x) \<in> set ms \<Longrightarrow> erases (f key x)"
  shows "erases (scan_members f seen ms)"
  using assms
proof (induction ms arbitrary: seen)
  case (Cons m ms)
  obtain key raw x where m: "m = (key, raw, x)" by (cases m)
  have "erases (f key x)" by (rule Cons.prems [of _ raw]) (simp add: m)
  moreover have "erases (scan_members f (key # seen) ms)" by (rule Cons.IH) (auto intro: Cons.prems)
  ultimately have "erases (\<lambda>b. Option.bind (f key x b) (scan_members f (key # seen) ms))" by (rule erases_bind)
  then show ?case by (simp add: m erases_def)
qed (simp add: erases_def)

lemma erases_items: "(\<And>v. v \<in> set vs \<Longrightarrow> erases (f v)) \<Longrightarrow> erases (scan_items count maximum f vs)"
proof (induction vs arbitrary: count)
  case (Cons v vs)
  have "erases (\<lambda>b. Option.bind (f v b) (scan_items (count + 1) maximum f vs))"
    by (rule erases_bind) (simp_all add: Cons)
  then show ?case by (simp add: erases_def)
qed (simp add: erases_def)

lemma scan_shapes:
  "scanBoundedArray maximum f (JList vs) = scan_items 0 maximum f vs"
  "scanObjectShape g (JObject ms) = scan_members g [] ms" "scanObjectShape g JNull = Some"
  by (rule ext, simp add: scanBoundedArray_def scanObjectShape_def)+

lemma erases_None: "(\<And>b. f b = None) \<Longrightarrow> erases f"
  by (simp add: erases_def)

lemma erases_array:
  "(\<And>vs x. v = JList vs \<Longrightarrow> x \<in> set vs \<Longrightarrow> erases (f x)) \<Longrightarrow> erases (scanBoundedArray maximum f v)"
proof (cases v)
  case (JList vs)
  assume "\<And>vs x. v = JList vs \<Longrightarrow> x \<in> set vs \<Longrightarrow> erases (f x)"
  with JList show ?thesis by (simp add: scan_shapes erases_items)
qed (auto intro!: erases_None simp: scanBoundedArray_def)

lemma erases_object:
  "(\<And>ms key raw x. v = JObject ms \<Longrightarrow> (key, raw, x) \<in> set ms \<Longrightarrow> erases (f key x)) \<Longrightarrow> erases (scanObjectShape f v)"
proof (cases v)
  case (JObject ms)
  assume f: "\<And>ms key raw x. v = JObject ms \<Longrightarrow> (key, raw, x) \<in> set ms \<Longrightarrow> erases (f key x)"
  show ?thesis unfolding JObject scan_shapes by (rule erases_members) (rule f [OF JObject])
qed (simp_all add: erases_def scanObjectShape_def)

lemma erases_skip [simp]: "erases (skipJSONValue v)" "erases (skip_fields names key v)" "erases (\<lambda>b. None)"
  by (simp_all add: erases_def skipJSONValue_def skip_fields_def)

lemma erases_skip_object [simp]: "erases (scanObjectShape (skip_fields names) v)"
  by (rule erases_object) simp

lemma erases_filter: "erases (scanFilterShape v depth maxDep)"
proof (induction v arbitrary: depth rule: measure_induct_rule [of size])
  case (less v)
  show ?case
  proof (cases v)
    case (JObject ms)
    have "erases (scan_filter_field depth maxDep key x)" if m: "(key, raw, x) \<in> set ms" for key raw x
    proof -
      have "erases (scanFilterShape y (depth + 1) maxDep)" if "x = JList vs" "y \<in> set vs" for vs y
        using member_size [OF m] item_size [OF that(2)] that(1) by (intro less.IH) (simp add: JObject)
      then have "erases (scanBoundedArray ProtocolMaxFilterItems (\<lambda>y b. scanFilterShape y (depth + 1) maxDep b) x)"
        by (rule erases_array)
      moreover have "erases (scanBoundedArray ProtocolMaxFilterItems (\<lambda>y b. Option.bind (addParameter b) (scanTypedValueShape y)) x)"
        by (intro erases_array erases_bind) (simp_all add: scanTypedValueShape_def)
      ultimately show ?thesis
        using erases_steps(2) erases_skip(1) [of x] by (simp add: scan_filter_field_def [abs_def] erases_def)
    qed
    then have "erases (\<lambda>b. Option.bind (enterFilter b) (scan_members (scan_filter_field depth maxDep) [] ms))"
      by (intro erases_bind erases_members) simp_all
    then show ?thesis by (simp add: erases_def scanFilterShape_object [of "JObject ms"] JObject)
  qed (simp_all add: erases_def scanFilterShape_object)
qed

section \<open>What a filter costs\<close>

fun filter_nodes :: "Filter \<Rightarrow> nat" where
  "filter_nodes (Filter rep kind field op vals exprs) = Suc (sum_list (map filter_nodes exprs))"

text \<open>A well-formed group has two children or more.\<close>

lemma wf_filter_nodes: "wf_filter f \<Longrightarrow> filter_nodes f + 1 \<le> 2 * filter_predicates f"
proof (induction f rule: wf_filter.induct)
  case (1 rep kind field op vals exprs)
  show ?case
  proof (cases "kind = ''predicate''")
    case False
    with "1.prems" have wf: "\<forall>e \<in> set exprs. wf_filter e" and two: "2 \<le> length exprs" by auto
    have "sum_list (map filter_nodes exprs) + length exprs \<le> 2 * sum_list (map filter_predicates exprs)"
      using wf "1.IH" [OF False] by (induction exprs) fastforce+
    with two False show ?thesis by simp
  qed (use "1.prems" in simp)
qed

lemma sum_members:
  assumes "distinct (map fst ms)" and "finite K" and "K \<subseteq> set (map fst ms)" and "\<And>k. k \<notin> K \<Longrightarrow> n k = (0 :: nat)"
  shows "(\<Sum>m\<leftarrow>ms. n (fst m)) = sum n K"
proof -
  have "(\<Sum>m\<leftarrow>ms. n (fst m)) = sum_list (map n (map fst ms))" by (simp add: comp_def)
  also have "\<dots> = sum n (set (map fst ms))" using assms(1) by (rule sum_list_distinct_conv_sum_set)
  also have "\<dots> = sum n K" using assms(3,4) by (intro sum.mono_neutral_right) auto
  finally show ?thesis .
qed

lemma charges_skip: "charges (skipJSONValue v) 0 0 0"
  by (simp add: charges_def skipJSONValue_def)

lemma charges_skip_object:
  assumes "accepts (scanObjectShape (skip_fields names)) (None :: scan_budget) v"
  shows "charges (scanObjectShape (skip_fields names) v) 0 0 0"
  unfolding charges_def
proof
  fix b :: filterShapeScanBudget
  have "accepts (scanObjectShape (skip_fields names)) (Some b) v" using assms by (simp add: accepts_skip_object)
  then show "scanObjectShape (skip_fields names) v (Some b) = (if fits b 0 0 0 then Some (Some (spend b 0 0 0)) else None)"
    by (simp add: accepts_def)
qed

lemma charges_value: "value_doc v t \<Longrightarrow> charges (\<lambda>b. Option.bind (addParameter b) (scanTypedValueShape v)) 0 0 1"
  using charges_bind [OF charges_steps(3) charges_skip_object, of "[''type'', ''value'']" v] value_wire.passes [of v t]
  by (simp add: both_passes_def scanTypedValueShape_def)

lemma charges_filter_object:
  assumes e: "exact_members filter_keys ms" and d: "depth \<le> maxDep"
    and fields: "\<And>key raw x. map_of ms key = Some (raw, x) \<Longrightarrow>
      charges (scan_filter_field depth maxDep key x) (n key) (p key) (q key)"
    and K: "finite K" "\<And>k. k \<in> K \<Longrightarrow> map_of ms k \<noteq> None" "\<And>k. k \<notin> K \<Longrightarrow> n k = 0 \<and> p k = 0 \<and> q k = 0"
  shows "charges (scanFilterShape (JObject ms) depth maxDep) (1 + sum n K) (sum p K) (sum q K)"
proof -
  have dist: "distinct (map fst ms)" using e by (simp add: exact_members_def)
  have "K \<subseteq> set (map fst ms)" using K(2) by (auto simp: map_of_eq_None_iff image_iff)
  then have sums: "(\<Sum>m\<leftarrow>ms. n (fst m)) = sum n K" "(\<Sum>m\<leftarrow>ms. p (fst m)) = sum p K" "(\<Sum>m\<leftarrow>ms. q (fst m)) = sum q K"
    using dist K by (simp_all add: sum_members)
  have "charges (scan_members (scan_filter_field depth maxDep) [] ms) (sum n K) (sum p K) (sum q K)"
    unfolding sums [symmetric] using e by (intro charges_members dist) (auto simp: map_of_exact intro: fields)
  from charges_bind [OF charges_steps(1) this] d show ?thesis
    by (simp add: charges_def scanFilterShape_object [of "JObject ms"])
qed

lemma charges_const: "(\<And>b. f b = Some b) \<Longrightarrow> charges f 0 0 0"
  by (simp add: charges_def)

lemma scan_filter_field_keys:
  "scan_filter_field depth maxDep ''kind'' x = (if x = JText ''predicate'' then addPredicate else Some)"
  "scan_filter_field depth maxDep ''values'' x =
     scanBoundedArray ProtocolMaxFilterItems (\<lambda>y b. Option.bind (addParameter b) (scanTypedValueShape y)) x"
  "scan_filter_field depth maxDep ''expressions'' x =
     scanBoundedArray ProtocolMaxFilterItems (\<lambda>y. scanFilterShape y (depth + 1) maxDep) x"
  "key \<in> set [''field'', ''operator'', ''representation''] \<Longrightarrow> scan_filter_field depth maxDep key x = Some"
  by (intro ext, auto simp: scan_filter_field_def skipJSONValue_def)+

lemma filter_key_cases:
  assumes "exact_members filter_keys ms" and "map_of ms key = Some m"
  obtains "key = ''kind''" | "key = ''values''" | "key = ''expressions''" | "key \<in> set [''field'', ''operator'', ''representation'']"
proof -
  have "key \<in> set filter_keys" using assms exact_absent [of filter_keys ms key] by fastforce
  then have "key = ''kind'' \<or> key = ''values'' \<or> key = ''expressions'' \<or> key \<in> set [''field'', ''operator'', ''representation'']"
    unfolding filter_keys_def by (simp, argo)
  then show thesis using that by argo
qed

lemma charges_predicate:
  assumes e: "exact_members filter_keys ms" and "depth \<le> maxDep" and k: "text_member ms ''kind'' (Some ''predicate'')"
    and "map_of ms ''expressions'' = None" and a: "array_member ms ''values'' ProtocolMaxFilterItems value_doc vs"
  shows "charges (scanFilterShape (JObject ms) depth maxDep) 1 1 (length vs)"
proof -
  obtain raw ws where w: "map_of ms ''values'' = Some (raw, JList ws)" and l: "length ws \<le> ProtocolMaxFilterItems"
    and docs: "list_all2 value_doc ws vs" using a by (auto simp: array_member_def)
  let ?p = "\<lambda>key. if key = ''kind'' then 1 else 0" and ?q = "\<lambda>key. if key = ''values'' then length vs else 0"
  have "charges (scanFilterShape (JObject ms) depth maxDep) (1 + sum (\<lambda>_. 0) {''kind'', ''values''})
      (sum ?p {''kind'', ''values''}) (sum ?q {''kind'', ''values''})"
  proof (rule charges_filter_object [OF e assms(2)])
    fix key raw' x assume m: "map_of ms key = Some (raw', x)"
    have "list_all2 (\<lambda>v x. charges ((\<lambda>y b. Option.bind (addParameter b) (scanTypedValueShape y)) v) 0 0 1) ws vs"
      using docs by (rule list_all2_mono) (rule charges_value)
    from charges_items [OF this, of 0] l have items: "charges (scanBoundedArray ProtocolMaxFilterItems
        (\<lambda>y b. Option.bind (addParameter b) (scanTypedValueShape y)) (JList ws)) 0 0 (length vs)"
      by (simp add: scan_shapes sum_list_triv)
    from e m show "charges (scan_filter_field depth maxDep key x) 0 (?p key) (?q key)"
    proof (cases rule: filter_key_cases)
      case 1
      then show ?thesis using m k charges_steps(2) by (simp add: scan_filter_field_keys text_member_def)
    next
      case 2
      then show ?thesis using m w items by (simp add: scan_filter_field_keys)
    next
      case 3
      then show ?thesis using m assms(4) by simp
    next
      case 4
      then have "key \<noteq> ''kind''" "key \<noteq> ''values''" by auto
      then show ?thesis using charges_Some by (simp add: scan_filter_field_keys(4) [OF 4])
    qed
  qed (use k w in \<open>auto simp: text_member_def\<close>)
  then show ?thesis by simp
qed

lemma charges_group:
  assumes e: "exact_members filter_keys ms" and "depth \<le> maxDep" and k: "text_member ms ''kind'' (Some ''group'')"
    and "map_of ms ''values'' = None" and w: "map_of ms ''expressions'' = Some (raw, JList ws)"
    and l: "length ws \<le> ProtocolMaxFilterItems"
    and docs: "list_all2 (\<lambda>v e. charges (scanFilterShape v (depth + 1) maxDep) (filter_nodes e) (filter_predicates e)
      (filter_parameters e)) ws es"
  shows "charges (scanFilterShape (JObject ms) depth maxDep) (1 + (\<Sum>e\<leftarrow>es. filter_nodes e)) (\<Sum>e\<leftarrow>es. filter_predicates e)
    (\<Sum>e\<leftarrow>es. filter_parameters e)"
proof -
  let ?at = "\<lambda>n key. if key = ''expressions'' then n else (0 :: nat)"
  let ?n = "\<Sum>e\<leftarrow>es. filter_nodes e" and ?p = "\<Sum>e\<leftarrow>es. filter_predicates e" and ?q = "\<Sum>e\<leftarrow>es. filter_parameters e"
  have "charges (scanFilterShape (JObject ms) depth maxDep) (1 + sum (?at ?n) {''expressions''})
      (sum (?at ?p) {''expressions''}) (sum (?at ?q) {''expressions''})"
  proof (rule charges_filter_object [OF e assms(2)])
    fix key raw' x assume m: "map_of ms key = Some (raw', x)"
    from charges_items [OF docs, of 0] l have items: "charges (scanBoundedArray ProtocolMaxFilterItems
        (\<lambda>y. scanFilterShape y (depth + 1) maxDep) (JList ws)) ?n ?p ?q" by (simp add: scan_shapes)
    from e m show "charges (scan_filter_field depth maxDep key x) (?at ?n key) (?at ?p key) (?at ?q key)"
    proof (cases rule: filter_key_cases)
      case 1
      then show ?thesis using m k charges_Some by (simp add: scan_filter_field_keys text_member_def)
    next
      case 2
      then show ?thesis using m assms(4) by simp
    next
      case 3
      then show ?thesis using m w items by (simp add: scan_filter_field_keys)
    next
      case 4
      then have "key \<noteq> ''expressions''" by auto
      then show ?thesis using charges_Some by (simp add: scan_filter_field_keys(4) [OF 4])
    qed
  qed (use w in auto)
  then show ?thesis by simp
qed

theorem charges_filter:
  "filter_doc (maxDep - depth + 1) v f \<Longrightarrow>
     charges (scanFilterShape v depth maxDep) (filter_nodes f) (filter_predicates f) (filter_parameters f)"
proof (induction f arbitrary: v depth)
  case (Filter rep kind field op vals exprs)
  then obtain ms where v: "v = JObject ms" and e: "exact_members filter_keys ms" and d: "depth \<le> maxDep"
    and k: "text_member ms ''kind'' (Some kind)" by auto
  show ?case
  proof (cases "kind = ''predicate''")
    case True
    with Filter.prems show ?thesis using charges_predicate [OF e d] by (auto simp: v)
  next
    case False
    with Filter.prems have g: "kind = ''group''" "map_of ms ''values'' = None"
      "array_member ms ''expressions'' ProtocolMaxFilterItems (filter_doc (maxDep - depth)) exprs" by (simp_all add: v)
    then obtain raw ws where w: "map_of ms ''expressions'' = Some (raw, JList ws)" "length ws \<le> ProtocolMaxFilterItems"
      and docs: "list_all2 (filter_doc (maxDep - depth)) ws exprs" by (auto simp: array_member_def)
    have "list_all2 (\<lambda>v e. charges (scanFilterShape v (depth + 1) maxDep) (filter_nodes e) (filter_predicates e)
        (filter_parameters e)) ws exprs"
      using docs
    proof (rule list.rel_mono_strong)
      fix y x assume "x \<in> set exprs" "filter_doc (maxDep - depth) y x"
      then show "charges (scanFilterShape y (depth + 1) maxDep) (filter_nodes x) (filter_predicates x) (filter_parameters x)"
        using Filter.IH [of x "depth + 1" y] by simp
    qed
    from charges_group [OF e d k [unfolded g(1)] g(2) w this] show ?thesis by (simp add: v False)
  qed
qed

section \<open>Requests around a filter\<close>

definition optional_cost :: "('a \<Rightarrow> nat) \<Rightarrow> 'a option \<Rightarrow> nat" where
  "optional_cost c x = (case x of None \<Rightarrow> 0 | Some y \<Rightarrow> c y)"

lemma charges_skip_array:
  assumes "accepts (scanBoundedArray maximum (scanObjectShape (skip_fields names))) (None :: scan_budget) v"
  shows "charges (scanBoundedArray maximum (scanObjectShape (skip_fields names)) v) 0 0 0"
proof -
  have st: "stateless (scanObjectShape (skip_fields names)) (None :: scan_budget)" by (rule stateless_scanObjectShape) simp
  from assms obtain vs where v: "v = JList vs" "length vs \<le> maximum"
    and a: "list_all (accepts (scanObjectShape (skip_fields names)) (None :: scan_budget)) vs"
    unfolding accepts_scanBoundedArray [OF st] by blast
  have "list_all2 (\<lambda>v x. charges (scanObjectShape (skip_fields names) v) 0 0 0) vs vs"
    using a by (auto simp: list_all2_same list_all_iff intro: charges_skip_object)
  from charges_items [OF this, of 0] v show ?thesis by (simp add: scan_shapes)
qed

lemma scan_members_pair:
  assumes "\<And>key x m b. f key x (m, b) = map_option (Pair (u key x m)) (g key x b)"
  shows "scan_members f seen ms (m, b) = map_option (Pair (fold (\<lambda>e. u (fst e) (snd (snd e))) ms m)) (scan_members g seen ms b)"
proof (induction ms arbitrary: seen m b)
  case (Cons e ms)
  obtain key raw x where e: "e = (key, raw, x)" by (cases e)
  show ?case using Cons.IH by (cases "g key x b") (simp_all add: e assms)
qed simp

lemma scan_members_mono:
  assumes "\<And>key raw x b b'. (key, raw, x) \<in> set ms \<Longrightarrow> f key x b = Some b' \<Longrightarrow> g key x b = Some b'"
    and "scan_members f seen ms b = Some b'"
  shows "scan_members g seen ms b = Some b'"
  using assms
proof (induction ms arbitrary: seen b)
  case (Cons m ms)
  obtain key raw x where m: "m = (key, raw, x)" by (cases m)
  from Cons.prems(2) obtain c where c: "key \<notin> set seen" "f key x b = Some c" "scan_members f (key # seen) ms c = Some b'"
    by (auto simp: m bind_eq_Some_conv split: if_splits)
  have "g key x b = Some c" by (rule Cons.prems(1) [of _ raw]) (simp_all add: m c)
  moreover have "scan_members g (key # seen) ms c = Some b'" by (rule Cons.IH [OF Cons.prems(1) c(3)]) auto
  ultimately show ?case using c(1) by (simp add: m)
qed simp

lemma scan_items_mono:
  assumes "\<And>v b b'. v \<in> set vs \<Longrightarrow> f v b = Some b' \<Longrightarrow> g v b = Some b'" and "maximum \<le> maximum'"
    and "scan_items count maximum f vs b = Some b'"
  shows "scan_items count maximum' g vs b = Some b'"
  using assms
proof (induction vs arbitrary: count b)
  case (Cons v vs)
  then show ?case by (auto simp: bind_eq_Some_conv split: if_splits)
qed simp

lemma scanBoundedArray_mono:
  "scanBoundedArray maximum f v b = Some b' \<Longrightarrow> maximum \<le> maximum' \<Longrightarrow> scanBoundedArray maximum' f v b = Some b'"
  by (cases v) (auto simp: scanBoundedArray_def intro: scan_items_mono)

text \<open>A loop over members that succeeds saw exact keys, whatever its state.\<close>

lemma scan_members_exact:
  assumes "scan_members f seen ms b = Some b'" and "\<And>key x b b'. f key x b = Some b' \<Longrightarrow> key \<in> set names"
  shows "exact_members names ms \<and> set (map fst ms) \<inter> set seen = {}"
  using assms
proof (induction ms arbitrary: seen b)
  case (Cons m ms)
  obtain key raw x where m: "m = (key, raw, x)" by (cases m)
  from Cons.prems(1) obtain c where c: "key \<notin> set seen" "f key x b = Some c" "scan_members f (key # seen) ms c = Some b'"
    by (auto simp: m bind_eq_Some_conv split: if_splits)
  have "exact_members names ms \<and> set (map fst ms) \<inter> set (key # seen) = {}" by (rule Cons.IH [OF c(3) Cons.prems(2)])
  moreover have "key \<in> set names" using c(2) by (rule Cons.prems(2))
  ultimately show ?case using c(1) by (simp add: m exact_members_def)
qed (simp add: exact_members_def)

lemma sum_at_member:
  assumes "distinct (map fst ms)"
  shows "(\<Sum>m\<leftarrow>ms. if fst m = k then (c :: nat) else 0) = (if map_of ms k = None then 0 else c)"
proof (cases "map_of ms k = None")
  case True
  then have "\<And>m. m \<in> set ms \<Longrightarrow> fst m \<noteq> k" by (auto simp: map_of_eq_None_iff)
  then have "map (\<lambda>m. if fst m = k then c else 0) ms = map (\<lambda>_. 0) ms" by auto
  then show ?thesis using True by simp
next
  case False
  then have "k \<in> set (map fst ms)" by (auto simp: map_of_eq_None_iff)
  then have "(\<Sum>m\<leftarrow>ms. (\<lambda>key. if key = k then c else 0) (fst m)) = sum (\<lambda>key. if key = k then c else 0) {k}"
    by (intro sum_members assms) auto
  then show ?thesis using False by (simp only: if_False) simp
qed

lemma charges_one_member:
  assumes dist: "distinct (map fst ms)"
    and k: "\<And>raw x. map_of ms k = Some (raw, x) \<Longrightarrow> charges (f k x) n p q"
    and others: "\<And>key raw x. map_of ms key = Some (raw, x) \<Longrightarrow> key \<noteq> k \<Longrightarrow> charges (f key x) 0 0 0"
    and none: "map_of ms k = None \<Longrightarrow> n = 0 \<and> p = 0 \<and> q = 0"
  shows "charges (scan_members f [] ms) n p q"
proof -
  let ?at = "\<lambda>c key. if key = k then c else (0 :: nat)"
  have "charges (f key x) (?at n key) (?at p key) (?at q key)" if "(key, raw, x) \<in> set ms" for key raw x
    using map_of_is_SomeI [OF dist that] k others by auto
  with charges_members [of ms f "?at n" "?at p" "?at q" "[]"] dist
  have "charges (scan_members f [] ms) (\<Sum>m\<leftarrow>ms. ?at n (fst m)) (\<Sum>m\<leftarrow>ms. ?at p (fst m)) (\<Sum>m\<leftarrow>ms. ?at q (fst m))" by simp
  moreover have "(\<Sum>m\<leftarrow>ms. ?at c (fst m)) = c" if "map_of ms k = None \<Longrightarrow> c = 0" for c
    using that by (subst sum_at_member [OF dist]) auto
  ultimately show ?thesis using none by simp
qed

end
