(* ===== verification/Aggregate_Exact.thy ===== *)
theory Aggregate_Exact
  imports Aggregate_Decode Scan_Budget Request_Exact
begin

text \<open>
  The budget of the aggregate decoder is an early exit only: removing it from the shape pass changes no result, because
  the validator that follows counts the same predicates and bind values and a well-formed filter never has more objects
  than the budget allows.
\<close>

section \<open>The query without its mode\<close>

definition scan_aggregate_field :: "int \<Rightarrow> string \<Rightarrow> jvalue \<Rightarrow> scan_budget \<Rightarrow> scan_budget option" where
  "scan_aggregate_field maxFilterDepth key x b =
     (if key = ''mode'' \<or> key = ''limit'' then Some b
      else if key = ''source'' then scanResourceShape x b
      else if key = ''projection'' then scanBoundedArray ProtocolMaxProjectionFields scanAggregateOutputShape x b
      else if key = ''filter'' then scanFilterShape x 1 maxFilterDepth b
      else if key = ''order_by'' then scanBoundedArray ProtocolMaxOrderByFields scanAggregateSortShape x b
      else None)"

definition scan_mode :: "string \<Rightarrow> jvalue \<Rightarrow> string \<Rightarrow> string" where
  "scan_mode key x mode = (if key = ''mode'' then (case x of JText m \<Rightarrow> m | _ \<Rightarrow> []) else mode)"

lemma fold_scan_mode:
  assumes "distinct (map fst ms)"
  shows "fold (\<lambda>e. scan_mode (fst e) (snd (snd e))) ms m =
    (case map_of ms ''mode'' of None \<Rightarrow> m | Some (raw, x) \<Rightarrow> scan_mode ''mode'' x m)"
  using assms
proof (induction ms arbitrary: m)
  case (Cons e ms)
  obtain key raw x where e: "e = (key, raw, x)" by (cases e)
  show ?case
  proof (cases "key = ''mode''")
    case True
    with Cons.prems have "map_of ms ''mode'' = None" by (auto simp: e map_of_eq_None_iff)
    with True Cons show ?thesis by (simp add: e)
  next
    case False
    then have "scan_mode key x m = m" by (simp add: scan_mode_def)
    with False Cons show ?thesis by (simp add: e)
  qed
qed simp

lemma scanAggregateQueryShape_object:
  "scanAggregateQueryShape d (JObject ms) b =
     Option.bind (scan_members (scan_aggregate_field d) [] ms b)
       (\<lambda>b. if fold (\<lambda>e. scan_mode (fst e) (snd (snd e))) ms [] = AggregateModeGrouped then addServerParameter b else Some b)"
proof -
  have "scanAggregateField d key x (m, b) = map_option (Pair (scan_mode key x m)) (scan_aggregate_field d key x b)" for key x m b
    by (simp add: scanAggregateField_def scan_mode_def scan_aggregate_field_def)
  then have pair: "scan_members (scanAggregateField d) [] ms ([], b) =
      map_option (Pair (fold (\<lambda>e. scan_mode (fst e) (snd (snd e))) ms [])) (scan_members (scan_aggregate_field d) [] ms b)"
    by (rule scan_members_pair)
  show ?thesis
    unfolding scanAggregateQueryShape_def scan_shapes pair by (cases "scan_members (scan_aggregate_field d) [] ms b") simp_all
qed

section \<open>Erasing\<close>

lemma scan_aggregate_field_erases: "erases (scan_aggregate_field d key x)"
proof -
  have "erases (scanBoundedArray ProtocolMaxProjectionFields scanAggregateOutputShape x)"
    "erases (scanBoundedArray ProtocolMaxOrderByFields scanAggregateSortShape x)" "erases (scanResourceShape x)"
    by (auto simp: scanAggregateOutputShape_def scanAggregateSortShape_def scanResourceShape_def intro!: erases_array)
  then show ?thesis using erases_filter [of x 1 d] by (simp add: scan_aggregate_field_def erases_def)
qed

lemma scanAggregateQueryShape_erases: "erases (scanAggregateQueryShape d v)"
proof (cases v)
  case (JObject ms)
  have "erases (\<lambda>b. Option.bind (scan_members (scan_aggregate_field d) [] ms b)
      (\<lambda>b. if fold (\<lambda>e. scan_mode (fst e) (snd (snd e))) ms [] = AggregateModeGrouped then addServerParameter b else Some b))"
    using erases_steps(4,5) by (intro erases_bind erases_members scan_aggregate_field_erases) (simp add: erases_def)
  then show ?thesis by (simp add: JObject scanAggregateQueryShape_object erases_def)
qed (simp_all add: erases_def scanAggregateQueryShape_def scanObjectShape_def AggregateModeGrouped_def)

definition scan_aggregate_request_field :: "int \<Rightarrow> string \<Rightarrow> jvalue \<Rightarrow> scan_budget \<Rightarrow> scan_budget option" where
  "scan_aggregate_request_field d key x b =
     (if key \<in> set [''profile'', ''datasource''] then skipJSONValue x b
      else if key = ''query'' then scanAggregateQueryShape d x b
      else None)"

lemma scanAggregateRequestShape_object:
  "scanAggregateRequestShape (JObject ms) d b \<longleftrightarrow> scan_members (scan_aggregate_request_field d) [] ms b \<noteq> None"
  by (simp add: scanAggregateRequestShape_def scan_aggregate_request_field_def [abs_def])

lemma scanAggregateRequestShape_erases:
  "scanAggregateRequestShape v d (Some b) \<Longrightarrow> scanAggregateRequestShape v d None"
proof (cases v)
  case (JObject ms)
  have "erases (scan_members (scan_aggregate_request_field d) [] ms)"
    using scanAggregateQueryShape_erases
    by (intro erases_members) (simp add: scan_aggregate_request_field_def erases_def skipJSONValue_def)
  then show "scanAggregateRequestShape v d (Some b) \<Longrightarrow> scanAggregateRequestShape v d None"
    by (auto simp: JObject scanAggregateRequestShape_object erases_def)
qed (simp_all add: scanAggregateRequestShape_def)

section \<open>What an aggregate query costs\<close>

lemma scan_aggregate_field_keys:
  "scan_aggregate_field d ''source'' x = scanResourceShape x"
  "scan_aggregate_field d ''projection'' x = scanBoundedArray ProtocolMaxProjectionFields scanAggregateOutputShape x"
  "scan_aggregate_field d ''filter'' x = scanFilterShape x 1 d"
  "scan_aggregate_field d ''order_by'' x = scanBoundedArray ProtocolMaxOrderByFields scanAggregateSortShape x"
  "scan_aggregate_field d ''mode'' x = Some" "scan_aggregate_field d ''limit'' x = Some"
  by (intro ext, simp add: scan_aggregate_field_def)+

lemma scan_aggregate_field_cases:
  assumes "scan_aggregate_field d key x b \<noteq> None"
  obtains "key = ''source''" | "key = ''projection''" | "key = ''filter''" | "key = ''order_by''" | "key = ''mode''" | "key = ''limit''"
  using assms that unfolding scan_aggregate_field_def by (simp split: if_splits) argo

lemma scan_aggregate_field_stateless: "stateless (scan_aggregate_field d key) None"
proof -
  have st: "stateless (scanBoundedArray n (scanObjectShape (skip_fields names))) (None :: scan_budget)" for n names
    by (intro stateless_scanBoundedArray stateless_scanObjectShape) simp
  have "scan_aggregate_field d key x None = None \<or> scan_aggregate_field d key x None = Some None" for x
  proof (cases "scan_aggregate_field d key x None = None")
    case False
    then show ?thesis
      by (cases rule: scan_aggregate_field_cases)
        (use st resource_wire.scan_stateless scanFilterShape_nil in
          \<open>auto simp: scan_aggregate_field_keys stateless_def scanAggregateOutputShape_def scanAggregateSortShape_def\<close>)
  qed simp
  then show ?thesis by (simp add: stateless_def)
qed

lemma charges_aggregate_field:
  assumes a: "accepts (scan_aggregate_field d key) None x" and "key \<noteq> ''filter''"
  shows "charges (scan_aggregate_field d key x) 0 0 0"
proof -
  have "scan_aggregate_field d key x None \<noteq> None" using a by (simp add: accepts_def)
  then show ?thesis
  proof (cases rule: scan_aggregate_field_cases)
    case 1
    then show ?thesis using a charges_skip_object [of "[''schema'', ''name'']" x]
      by (simp add: accepts_def scan_aggregate_field_keys scanResourceShape_def)
  next
    case 2
    then show ?thesis using a charges_skip_array
      by (simp add: accepts_def scan_aggregate_field_keys scanAggregateOutputShape_def)
  next
    case 4
    then show ?thesis using a charges_skip_array
      by (simp add: accepts_def scan_aggregate_field_keys scanAggregateSortShape_def)
  qed (use assms(2) in \<open>simp_all add: scan_aggregate_field_keys charges_Some\<close>)
qed

lemma charges_aggregate_query:
  assumes ok: "scanAggregateQueryShape d (JObject ms) None \<noteq> None"
    and mode: "text_member ms ''mode'' (Some mode)"
    and f: "optional_doc ms ''filter'' (filter_doc d) fo"
  shows "distinct (map fst ms) \<and> charges (scanAggregateQueryShape d (JObject ms)) (optional_cost filter_nodes fo) (optional_cost filter_predicates fo)
    (optional_cost filter_parameters fo + server_parameters mode)"
proof -
  obtain b where "scan_members (scan_aggregate_field d) [] ms None = Some b"
    using ok by (auto simp: scanAggregateQueryShape_object bind_eq_Some_conv)
  then have dist: "distinct (map fst ms)" and a: "list_all (\<lambda>m. accepts (scan_aggregate_field d (fst m)) None (snd (snd m))) ms"
    using scan_members_stateless [where f = "scan_aggregate_field d", OF scan_aggregate_field_stateless] by auto
  have field: "accepts (scan_aggregate_field d key) None x" if "map_of ms key = Some (raw, x)" for key raw x
    using a map_of_SomeD [OF that] by (force simp: list_all_iff)
  have m: "charges (scan_members (scan_aggregate_field d) [] ms) (optional_cost filter_nodes fo) (optional_cost filter_predicates fo)
      (optional_cost filter_parameters fo)"
  proof (rule charges_one_member [OF dist, where k = "''filter''"])
    fix raw x assume x: "map_of ms ''filter'' = Some (raw, x)"
    with f obtain y where "fo = Some y" "filter_doc d x y" by (cases fo) (auto simp: optional_doc_def member_doc_def)
    with charges_filter [of d 1 x y] show "charges (scan_aggregate_field d ''filter'' x) (optional_cost filter_nodes fo)
        (optional_cost filter_predicates fo) (optional_cost filter_parameters fo)"
      by (simp add: scan_aggregate_field_keys optional_cost_def)
  next
    fix key raw x assume "map_of ms key = Some (raw, x)" "key \<noteq> ''filter''"
    with charges_aggregate_field [OF field] show "charges (scan_aggregate_field d key x) 0 0 0" by auto
  qed (use f in \<open>cases fo; simp add: optional_doc_def member_doc_def optional_cost_def\<close>)
  have "fold (\<lambda>e. scan_mode (fst e) (snd (snd e))) ms [] = mode"
    using mode by (auto simp: fold_scan_mode [OF dist] text_member_def scan_mode_def split: option.splits)
  moreover have srv: "charges (\<lambda>b. if mode = AggregateModeGrouped then addServerParameter b else Some b) 0 0 (server_parameters mode)"
    using charges_steps(4) charges_Some by (auto simp: server_parameters_def charges_def)
  ultimately show ?thesis using charges_bind [OF m srv] dist by (simp add: charges_def scanAggregateQueryShape_object)
qed

lemma scanAggregateQueryShape_nil:
  "scanAggregateQueryShape d v None = None \<or> scanAggregateQueryShape d v None = Some None"
proof (cases v)
  case (JObject ms)
  have "scan_members (scan_aggregate_field d) [] ms None = Some b \<Longrightarrow> b = None" for b
    using scan_members_stateless [where f = "scan_aggregate_field d", OF scan_aggregate_field_stateless] by blast
  then show ?thesis
    by (cases "scan_members (scan_aggregate_field d) [] ms None") (auto simp: JObject scanAggregateQueryShape_object)
qed (simp_all add: scanAggregateQueryShape_def scanObjectShape_def)

lemma scan_aggregate_request_field_stateless: "stateless (scan_aggregate_request_field d key) None"
  using scanAggregateQueryShape_nil [of d] by (simp add: stateless_def scan_aggregate_request_field_def skipJSONValue_def)

lemma scan_request_with_budget:
  assumes ok: "scanAggregateRequestShape (JObject ms) d None" and m: "map_of ms ''query'' = Some (raw, x)"
    and c: "scanAggregateQueryShape d x None \<noteq> None \<Longrightarrow> charges (scanAggregateQueryShape d x) n p q"
    and fit: "fits b n p q"
  shows "scanAggregateRequestShape (JObject ms) d (Some b)"
proof -
  obtain b' where "scan_members (scan_aggregate_request_field d) [] ms None = Some b'"
    using ok by (auto simp: scanAggregateRequestShape_object)
  then have dist: "distinct (map fst ms)"
    and a: "list_all (\<lambda>m. accepts (scan_aggregate_request_field d (fst m)) None (snd (snd m))) ms"
    using scan_members_stateless [where f = "scan_aggregate_request_field d", OF scan_aggregate_request_field_stateless] by auto
  have field: "accepts (scan_aggregate_request_field d key) None y" if "map_of ms key = Some (raw', y)" for key raw' y
    using a map_of_SomeD [OF that] by (force simp: list_all_iff)
  have qf: "scan_aggregate_request_field d ''query'' = scanAggregateQueryShape d"
    by (intro ext) (simp add: scan_aggregate_request_field_def)
  have "charges (scan_members (scan_aggregate_request_field d) [] ms) n p q"
  proof (rule charges_one_member [OF dist, where k = "''query''"])
    fix raw' y assume "map_of ms ''query'' = Some (raw', y)"
    with m field [OF m] c show "charges (scan_aggregate_request_field d ''query'' y) n p q" by (simp add: qf accepts_def)
  next
    fix key raw' y assume "map_of ms key = Some (raw', y)" and "key \<noteq> ''query''"
    with field [of key raw' y] show "charges (scan_aggregate_request_field d key y) 0 0 0"
      by (simp add: accepts_def charges_def scan_aggregate_request_field_def skipJSONValue_def split: if_splits)
  qed (use m in simp)
  with fit show ?thesis by (simp add: scanAggregateRequestShape_object charges_def)
qed

section \<open>What the validator leaves\<close>

lemma validated_filter_fits:
  assumes v: "validateAggregate spec a1 a2 a3 maxPreds d maxParams a4 sem = Inr r" and small: "maxPreds \<le> maxInt div 2"
  shows "fits (newFilterShapeScanBudget maxPreds maxParams) (optional_cost filter_nodes (agg_Filter spec))
    (optional_cost filter_predicates (agg_Filter spec))
    (optional_cost filter_parameters (agg_Filter spec) + server_parameters (agg_Mode spec))"
proof (cases "agg_Filter spec")
  case None
  then show ?thesis using v by (auto simp: validateAggregate_def optional_cost_def fits_def newFilterShapeScanBudget_def)
next
  case (Some f)
  have "wf_filter f" and p: "int (filter_predicates f) \<le> maxPreds"
    and q: "int (server_parameters (agg_Mode spec) + filter_parameters f) \<le> maxParams"
    using v Some by (auto simp: validateAggregate_def validateOptionalFilter_Inr filter_stats_def)
  have "filter_nodes f + 1 \<le> 2 * filter_predicates f" using \<open>wf_filter f\<close> by (rule wf_filter_nodes)
  with p have "int (filter_nodes f) \<le> 2 * maxPreds - 1" "0 < maxPreds" by linarith+
  with p q small Some show ?thesis by (simp add: optional_cost_def fits_def newFilterShapeScanBudget_def add.commute)
qed

definition aggregate_keys :: "string list" where
  "aggregate_keys = [''mode'', ''source'', ''projection'', ''filter'', ''order_by'', ''limit'']"

lemma scan_aggregate_field_key: "accepts (scan_aggregate_field d key) None x \<Longrightarrow> key \<in> set aggregate_keys"
proof -
  assume "accepts (scan_aggregate_field d key) None x"
  then have "scan_aggregate_field d key x None \<noteq> None" by (simp add: accepts_def)
  then show ?thesis by (cases rule: scan_aggregate_field_cases) (simp_all add: aggregate_keys_def)
qed

lemma scanAggregateQueryShape_accepts:
  assumes "scanAggregateQueryShape d (JObject ms) None \<noteq> None"
  shows "exact_members aggregate_keys ms" and "scanned ms ''filter'' (\<lambda>v. scanFilterShape v 1 d)"
proof -
  obtain b where "scan_members (scan_aggregate_field d) [] ms None = Some b"
    using assms by (auto simp: scanAggregateQueryShape_object bind_eq_Some_conv)
  moreover from this have "b = None"
    using scan_members_stateless [where f = "scan_aggregate_field d", OF scan_aggregate_field_stateless] by blast
  ultimately have "accepts (scanObjectShape (scan_aggregate_field d)) None (JObject ms)"
    by (simp add: accepts_def scan_shapes)
  then have "exact_members aggregate_keys ms \<and> list_all (\<lambda>name. scanned ms name (scan_aggregate_field d name)) aggregate_keys"
    using accepts_object_fields [where f = "scan_aggregate_field d" and names = aggregate_keys and v = "JObject ms",
        OF scan_aggregate_field_stateless scan_aggregate_field_key] by simp
  moreover have "scan_aggregate_field d ''filter'' = (\<lambda>v. scanFilterShape v 1 d)"
    by (rule ext) (rule scan_aggregate_field_keys)
  ultimately show "exact_members aggregate_keys ms" and "scanned ms ''filter'' (\<lambda>v. scanFilterShape v 1 d)"
    by (simp_all add: aggregate_keys_def)
qed

lemma decoded_aggregate_filter:
  assumes ok: "scanAggregateQueryShape d v None \<noteq> None"
    and w: "Option.bind (unmarshal_aggregateSpecWire v) (\<lambda>w. decode_aggregateSpecWire hash w d) = Some spec"
  shows "\<exists>ms. v = JObject ms \<and> text_member ms ''mode'' (Some (agg_Mode spec)) \<and>
    optional_doc ms ''filter'' (filter_doc d) (agg_Filter spec)"
proof -
  have "v \<noteq> JNull" using w by (auto simp: unmarshal_aggregateSpecWire_def decode_aggregateSpecWire_def wire_null wireInt_def)
  then obtain ms where v: "v = JObject ms" using w
    by (cases v) (auto simp: unmarshal_aggregateSpecWire_def wire_members_def)
  note scan = scanAggregateQueryShape_accepts [OF ok [unfolded v]]
  have e: "exact_members [''mode'', ''source'', ''projection'', ''filter'', ''order_by'', ''limit''] ms"
    using scan(1) by (simp add: aggregate_keys_def)
  obtain ww where u: "unmarshal_aggregateSpecWire (JObject ms) = Some ww" and dw: "decode_aggregateSpecWire hash ww d = Some spec"
    using w by (auto simp: v bind_eq_Some_conv)
  from u have "text_member ms ''mode'' (aw_Mode ww)" and p: "wire_pointer unmarshal_filterWire (map_of ms ''filter'') = Some (aw_Filter ww)"
    using e by (auto simp: unmarshal_aggregateSpecWire_def bind_eq_Some_conv text_member_wire)
  moreover from dw have "aw_Mode ww = Some (agg_Mode spec)"
    and f: "(case aw_Filter ww of None \<Rightarrow> Some None | Some fw \<Rightarrow> map_option Some (decode_filterWire fw 1 d)) = Some (agg_Filter spec)"
    by (auto simp: decode_aggregateSpecWire_def bind_eq_Some_conv split: if_split_asm option.splits)
  moreover have "optional_doc ms ''filter'' (filter_doc d) (agg_Filter spec)"
    using scan(2) p f pointer_optional [OF filter_passes [where depth = 1, simplified] filter_null] by (fastforce simp: v)
  ultimately show ?thesis using v by simp
qed

section \<open>The theorem\<close>

definition request_keys :: "string list" where
  "request_keys = [''profile'', ''datasource'', ''query'']"

lemma scan_aggregate_request_field_key: "accepts (scan_aggregate_request_field d key) None x \<Longrightarrow> key \<in> set request_keys"
  by (simp add: accepts_def scan_aggregate_request_field_def request_keys_def split: if_splits) argo

lemma scanAggregateRequestShape_exact:
  assumes "scanAggregateRequestShape (JObject ms) d None"
  shows "exact_members request_keys ms"
proof -
  obtain b where b: "scan_members (scan_aggregate_request_field d) [] ms None = Some b"
    using assms by (auto simp: scanAggregateRequestShape_object)
  then have "b = None"
    using scan_members_stateless [where f = "scan_aggregate_request_field d", OF scan_aggregate_request_field_stateless] by blast
  with b have "accepts (scanObjectShape (scan_aggregate_request_field d)) None (JObject ms)" by (simp add: accepts_def scan_shapes)
  then show ?thesis
    using accepts_object_fields [where f = "scan_aggregate_request_field d" and names = request_keys and v = "JObject ms",
        OF scan_aggregate_request_field_stateless scan_aggregate_request_field_key] by simp
qed

text \<open>Everything after the shape pass.\<close>

definition decode_scanned_aggregate ::
  "(string \<Rightarrow> digest) \<Rightarrow> jvalue \<Rightarrow> int \<Rightarrow> int \<Rightarrow> int \<Rightarrow> AggregateRequest option" where
  "decode_scanned_aggregate hash doc d maxPreds maxParams = do {
     wire \<leftarrow> unmarshal_aggregateRequestWire doc;
     profile \<leftarrow> arw_Profile wire;
     datasource \<leftarrow> arw_Datasource wire;
     require (profile \<noteq> [] \<and> datasource \<noteq> []) (do {
     qw \<leftarrow> arw_Query wire;
     query \<leftarrow> decode_aggregateSpecWire hash qw d;
     require (error_of (validateAggregate query (int ProtocolMaxProjectionFields) (int ProtocolMaxGroupByFields)
         (int ProtocolMaxOrderByFields) maxPreds d maxParams ProtocolMaxRows False) = None)
     (Some \<lparr>gr_Profile = profile, gr_Datasource = datasource, gr_Query = query\<rparr>) }) }"

lemma decode_aggregate_request_scanned:
  "decode_aggregate_request hash b data d maxPreds maxParams =
     require (ValidString data) (Option.bind (read_json data) (\<lambda>doc.
       require (scanAggregateRequestShape doc d b \<and> doc \<noteq> JNull) (decode_scanned_aggregate hash doc d maxPreds maxParams)))"
  by (simp only: decode_aggregate_request_def decode_scanned_aggregate_def)

lemma scanned_with_budget:
  assumes r: "decode_scanned_aggregate hash doc d maxPreds maxParams = Some r"
    and ok: "scanAggregateRequestShape doc d None" and "doc \<noteq> JNull" and small: "maxPreds \<le> maxInt div 2"
  shows "scanAggregateRequestShape doc d (Some (newFilterShapeScanBudget maxPreds maxParams))"
proof -
  from r obtain wire qw query v where wire: "unmarshal_aggregateRequestWire doc = Some wire"
    and qw: "arw_Query wire = Some qw" and query: "decode_aggregateSpecWire hash qw d = Some query"
    and val: "validateAggregate query (int ProtocolMaxProjectionFields) (int ProtocolMaxGroupByFields)
         (int ProtocolMaxOrderByFields) maxPreds d maxParams ProtocolMaxRows False = Inr v"
    by (auto simp: decode_scanned_aggregate_def bind_eq_Some_conv split: if_split_asm)
  obtain ms where doc: "doc = JObject ms" using wire assms(3)
    by (cases doc) (auto simp: unmarshal_aggregateRequestWire_def wire_members_def)
  have e: "exact_members [''profile'', ''datasource'', ''query''] ms"
    using scanAggregateRequestShape_exact ok by (simp add: doc request_keys_def)
  have "wire_pointer unmarshal_aggregateSpecWire (map_of ms ''query'') = Some (Some qw)"
    using wire qw e by (auto simp: doc unmarshal_aggregateRequestWire_def bind_eq_Some_conv)
  then obtain raw x where m: "map_of ms ''query'' = Some (raw, x)" and x: "unmarshal_aggregateSpecWire x = Some qw"
    by (cases "map_of ms ''query''") (auto split: if_splits)
  let ?fo = "agg_Filter query"
  have "charges (scanAggregateQueryShape d x) (optional_cost filter_nodes ?fo) (optional_cost filter_predicates ?fo)
      (optional_cost filter_parameters ?fo + server_parameters (agg_Mode query))"
    if "scanAggregateQueryShape d x None \<noteq> None"
    using decoded_aggregate_filter [OF that, of hash query] charges_aggregate_query [of d] that x query by auto
  from scan_request_with_budget [OF ok [unfolded doc] m this validated_filter_fits [OF val small]]
  show ?thesis by (simp add: doc)
qed

lemma aggregate_budget_erased:
  assumes small: "maxPreds \<le> maxInt div 2"
  shows "decode_aggregate_request hash (Some (newFilterShapeScanBudget maxPreds maxParams)) data d maxPreds maxParams =
    decode_aggregate_request hash None data d maxPreds maxParams"
proof (cases "read_json data")
  case (Some doc)
  let ?r = "decode_scanned_aggregate hash doc d maxPreds maxParams"
  have "?r = Some r \<Longrightarrow> doc \<noteq> JNull \<Longrightarrow>
      scanAggregateRequestShape doc d (Some (newFilterShapeScanBudget maxPreds maxParams)) = scanAggregateRequestShape doc d None" for r
    using scanned_with_budget [OF _ _ _ small] scanAggregateRequestShape_erases by blast
  then show ?thesis by (cases ?r) (auto simp: decode_aggregate_request_scanned Some)
qed (simp add: decode_aggregate_request_scanned)

section \<open>Properties\<close>

text \<open>
  C28: the predicate, bind-value and object budget the aggregate decoder threads through its shape pass never changes a
  result: for every body and every limits up to half of \<open>maxInt\<close> the decoder returns what it returns when the shape pass
  counts nothing. In particular the object budget of \<open>2 * maxPredicates - 1\<close> refuses no filter that the validator would
  accept.
\<close>

theorem aggregate_budget_is_transparent:
  assumes "maxPreds \<le> maxInt div 2"
  shows "DecodeStrictAggregate hash data maxFilterDepth maxPreds maxParams =
    decode_aggregate_request hash None data maxFilterDepth maxPreds maxParams"
  unfolding DecodeStrictAggregate_def using assms by (rule aggregate_budget_erased)

text \<open>A body with a filter of one predicate, accepted under a budget of one and refused under a budget of none.\<close>

definition sample_aggregate_body :: string where
  "sample_aggregate_body = map (\<lambda>c. if c = CHR ''~'' then quote_char else c)
     (''{~profile~:~p~,~datasource~:~d~,~query~:{~mode~:~scalar~,~source~:{~schema~:~s~,~name~:~t~},'' @
      ''~projection~:[{~kind~:~measure~,~function~:~count_all~,~alias~:~n~}],'' @
      ''~filter~:{~kind~:~predicate~,~field~:~a~,~operator~:~is_null~,~values~:[]}}}'')"

definition sample_aggregate_wire :: aggregateSpecWire where
  "sample_aggregate_wire =
     \<lparr>aw_Mode = Some ''scalar'', aw_Source = Some \<lparr>rw_Schema = Some ''s'', rw_Name = Some ''t''\<rparr>,
      aw_Projection = Some [\<lparr>aow_Representation = None, aow_Kind = Some ''measure'', aow_Field = None,
        aow_Function = Some ''count_all'', aow_Alias = Some ''n'', aow_Unit = None, aow_Timezone = None\<rparr>],
      aw_Filter = Some (FilterWire None (Some ''predicate'') (Some ''a'') (Some ''is_null'') (Some []) None),
      aw_OrderBy = None, aw_Limit = None\<rparr>"

definition sample_aggregate_spec :: AggregateSpec where
  "sample_aggregate_spec =
     \<lparr>agg_Mode = ''scalar'', agg_Source = \<lparr>ref_Schema = ''s'', ref_Name = ''t''\<rparr>,
      agg_Projection = [\<lparr>ao_Representation = [], ao_Kind = ''measure'', ao_Field = [], ao_Function = ''count_all'',
        ao_Alias = ''n'', ao_Unit = [], ao_Timezone = []\<rparr>],
      agg_Filter = Some (Filter [] ''predicate'' ''a'' ''is_null'' (Some []) []), agg_OrderBy = None, agg_Limit = None\<rparr>"

lemma sample_aggregate_utf8: "ValidString sample_aggregate_body"
  by (rule ValidString_ascii) code_simp

lemma sample_aggregate_runs:
  "(case read_json sample_aggregate_body of
      None \<Rightarrow> False
    | Some doc \<Rightarrow>
        scanAggregateRequestShape doc 4 (Some (newFilterShapeScanBudget 1 8)) \<and> doc \<noteq> JNull \<and>
        \<not> scanAggregateRequestShape doc 4 (Some (newFilterShapeScanBudget 0 8)) \<and>
        unmarshal_aggregateRequestWire doc =
          Some \<lparr>arw_Profile = Some ''p'', arw_Datasource = Some ''d'', arw_Query = Some sample_aggregate_wire\<rparr>)"
  by code_simp

lemma sample_aggregate_spec: "decode_aggregateSpecWire (\<lambda>s. s) sample_aggregate_wire 4 = Some sample_aggregate_spec"
  by (simp add: decode_aggregateSpecWire_def sample_aggregate_wire_def sample_aggregate_spec_def decode_resourceWire_def
      decode_aggregateOutputWire_def rejectExactFilterDuplicates_def aggregate_modes protocol_limits)

lemma sample_aggregate_validates:
  "error_of (validateAggregate sample_aggregate_spec (int ProtocolMaxProjectionFields) (int ProtocolMaxGroupByFields)
     (int ProtocolMaxOrderByFields) 1 4 8 ProtocolMaxRows False) = None"
  by code_simp

lemma sample_aggregate_decoded:
  "DecodeStrictAggregate (\<lambda>s. s) sample_aggregate_body 4 1 8 =
     Some \<lparr>gr_Profile = ''p'', gr_Datasource = ''d'', gr_Query = sample_aggregate_spec\<rparr>"
  "DecodeStrictAggregate (\<lambda>s. s) sample_aggregate_body 4 0 8 = None"
  using sample_aggregate_runs sample_aggregate_utf8 sample_aggregate_spec sample_aggregate_validates
  by (simp_all add: DecodeStrictAggregate_def decode_aggregate_request_scanned decode_scanned_aggregate_def
      split: option.splits)

theorem aggregate_budget_is_transparent_witness:
  "decode_aggregate_request (\<lambda>s. s) None sample_aggregate_body 4 1 8 =
     Some \<lparr>gr_Profile = ''p'', gr_Datasource = ''d'', gr_Query = sample_aggregate_spec\<rparr> \<and>
   decode_aggregate_request (\<lambda>s. s) None sample_aggregate_body 4 0 8 = None"
  using sample_aggregate_decoded
    aggregate_budget_is_transparent [of 1 "\<lambda>s. s" sample_aggregate_body 4 8]
    aggregate_budget_is_transparent [of 0 "\<lambda>s. s" sample_aggregate_body 4 8]
  by (simp add: maxInt_def)

end
