(* ===== verification/Keyset_Decode.thy ===== *)
theory Keyset_Decode
  imports Request_Decode Keyset_Query
begin

text \<open>
  \<^verbatim>\<open>internal/queryspec/keyset_decode.go\<close>: the strict decoder of keyset requests, the check of escaped surrogates, and
  the decoder of select bodies that detects which of the two request forms a body has. \<open>hash\<close> is the digest function of
  the filter digests.
\<close>

section \<open>Escaped surrogates\<close>

definition hex_digit_value :: "char \<Rightarrow> nat option" where
  "hex_digit_value c =
     (if CHR ''0'' \<le> c \<and> c \<le> CHR ''9'' then Some (byte c - 48)
      else if CHR ''a'' \<le> c \<and> c \<le> CHR ''f'' then Some (byte c - 97 + 10)
      else if CHR ''A'' \<le> c \<and> c \<le> CHR ''F'' then Some (byte c - 65 + 10)
      else None)"

text \<open>A 16-bit accumulator.\<close>

fun parse_hex16 :: "nat \<Rightarrow> string \<Rightarrow> nat option" where
  "parse_hex16 result [] = Some result"
| "parse_hex16 result (c # s) =
     (case hex_digit_value c of None \<Rightarrow> None | Some n \<Rightarrow> parse_hex16 ((result * 16 mod 65536 + n) mod 65536) s)"

definition parseJSONHex16 :: "string \<Rightarrow> nat option" where
  "parseJSONHex16 v = (if length v \<noteq> 4 then None else parse_hex16 0 v)"

text \<open>
  The loop from one index on, with the flags \<open>inString\<close> and \<open>escaped\<close>: the argument is the rest of the body.
\<close>

function surrogate_scan :: "bool \<Rightarrow> bool \<Rightarrow> string \<Rightarrow> bool" where
  "surrogate_scan inString escaped data =
     (case data of
        [] \<Rightarrow> True
      | c # s \<Rightarrow>
          if \<not> inString then surrogate_scan (c = quote_char) escaped s
          else if escaped then
            if c \<noteq> CHR ''u'' \<or> length s < 4 then surrogate_scan True False s
            else
              (case parseJSONHex16 (take 4 s) of
                 None \<Rightarrow> surrogate_scan True False s
               | Some unit1 \<Rightarrow>
                   let r = drop 4 s in
                   if 0xD800 \<le> unit1 \<and> unit1 \<le> 0xDBFF then
                     if length r < 6 \<or> r ! 0 \<noteq> bslash \<or> r ! 1 \<noteq> CHR ''u'' then False
                     else
                       (case parseJSONHex16 (take 4 (drop 2 r)) of
                          None \<Rightarrow> False
                        | Some unit2 \<Rightarrow> 0xDC00 \<le> unit2 \<and> unit2 \<le> 0xDFFF \<and> surrogate_scan True False (drop 6 r))
                   else if 0xDC00 \<le> unit1 \<and> unit1 \<le> 0xDFFF then False
                   else surrogate_scan True False r)
          else if c = bslash then surrogate_scan True True s
          else surrogate_scan (c \<noteq> quote_char) False s)"
  by pat_completeness auto
termination
  by (relation "measure (\<lambda>(_, _, s). length s)") auto

declare surrogate_scan.simps [simp del]

definition validateJSONSurrogateEscapes :: "string \<Rightarrow> bool" where
  "validateJSONSurrogateEscapes data = surrogate_scan False False data"

section \<open>The shape pass\<close>

text \<open>The page scanner counts the items of the cursor.\<close>

definition scanKeysetPageShape :: "jvalue \<Rightarrow> nat option" where
  "scanKeysetPageShape v = scanObjectShape (\<lambda>key x n.
     if key = ''kind'' then skipJSONValue x n
     else if key = ''cursor'' then
       scanBoundedArray ProtocolMaxKeysetFields (\<lambda>y n. scanObjectShape (skip_fields [''type'', ''value'']) y (n + 1)) x n
     else None) v 0"

definition scanKeysetQueryShape :: "int \<Rightarrow> jvalue \<Rightarrow> scan_budget \<Rightarrow> scan_budget option" where
  "scanKeysetQueryShape maxDep = scanObjectShape (\<lambda>key x b.
     if key = ''source'' then scanResourceShape x b
     else if key = ''projection'' then scanBoundedArray ProtocolMaxProjectionFields (scanSelectionShape True) x b
     else if key = ''filter'' then scanFilterShape x 1 maxDep b
     else if key = ''order_by'' then scanBoundedArray ProtocolMaxKeysetFields scanSortShape x b
     else if key = ''limit'' then skipJSONValue x b
     else None)"

definition scanSelectVNextQueryShape :: "int \<Rightarrow> jvalue \<Rightarrow> scan_budget \<Rightarrow> scan_budget option" where
  "scanSelectVNextQueryShape maxDep = scanObjectShape (\<lambda>key x b.
     if key = ''source'' then scanResourceShape x b
     else if key = ''projection'' then scanBoundedArray ProtocolMaxProjectionFields (scanSelectionShape True) x b
     else if key = ''filter'' then scanFilterShape x 1 maxDep b
     else if key = ''group_by'' then scanBoundedArray ProtocolMaxGroupByFields skipJSONValue x b
     else if key = ''order_by'' then scanBoundedArray ProtocolMaxOrderByFields scanSortShape x b
     else if key \<in> set [''limit'', ''offset''] then skipJSONValue x b
     else None)"

fun add_server_parameters :: "nat \<Rightarrow> scan_budget \<Rightarrow> scan_budget option" where
  "add_server_parameters 0 b = Some b"
| "add_server_parameters (Suc n) b = Option.bind (addServerParameter b) (add_server_parameters n)"

text \<open>The state of the loop: the cursor items counted so far and the budget.\<close>

definition scanKeysetField :: "int \<Rightarrow> string \<Rightarrow> jvalue \<Rightarrow> nat \<times> scan_budget \<Rightarrow> (nat \<times> scan_budget) option" where
  "scanKeysetField maxDep key x st =
     (let (count, b) = st in
      if key \<in> set [''kind'', ''profile'', ''datasource'', ''shape''] then skipJSONValue x (count, b)
      else if key = ''query'' then map_option (Pair count) (scanKeysetQueryShape maxDep x b)
      else if key = ''page'' then map_option (\<lambda>n. (n, b)) (scanKeysetPageShape x)
      else None)"

definition scanKeysetRequestShape :: "jvalue \<Rightarrow> int \<Rightarrow> scan_budget \<Rightarrow> bool" where
  "scanKeysetRequestShape v maxDep budget \<longleftrightarrow>
     (case v of
        JObject ms \<Rightarrow>
          (case scan_members (scanKeysetField maxDep) [] ms (0, budget) of
             None \<Rightarrow> False
           | Some (cursorCount, b) \<Rightarrow> add_server_parameters (keysetCursorParameterCount cursorCount + 1) b \<noteq> None)
      | _ \<Rightarrow> True)"

text \<open>The state of the branch detection: whether the kind was seen, which then is \<open>keyset\<close>, and the budget.\<close>

definition scanBranchField :: "int \<Rightarrow> string \<Rightarrow> jvalue \<Rightarrow> bool \<times> scan_budget \<Rightarrow> (bool \<times> scan_budget) option" where
  "scanBranchField maxDep key x st =
     (let (keyset, b) = st in
      if key = ''kind'' then if x = JText ''keyset'' then Some (True, b) else None
      else if key \<in> set [''profile'', ''datasource'', ''shape''] then skipJSONValue x (keyset, b)
      else if key = ''query'' then map_option (Pair keyset) (scanSelectVNextQueryShape maxDep x b)
      else if key = ''page'' then map_option (\<lambda>_. (keyset, b)) (scanKeysetPageShape x)
      else None)"

definition detectKeysetSelectBranch :: "jvalue \<Rightarrow> int \<Rightarrow> int \<Rightarrow> int \<Rightarrow> bool option" where
  "detectKeysetSelectBranch v maxDep maxPreds maxParams =
     (case v of
        JObject ms \<Rightarrow> map_option fst
          (scan_members (scanBranchField maxDep) [] ms (False, Some (newFilterShapeScanBudget maxPreds maxParams)))
      | _ \<Rightarrow> None)"

section \<open>The unmarshalling pass\<close>

record keysetCursorWire =
  cw_Type :: "string option"
  cw_Value :: "string option"

record keysetPageWire =
  pw_Kind :: "string option"
  pw_Cursor :: "keysetCursorWire list option"

record keysetSpecWire =
  kw_Source :: "resourceWire option"
  kw_Projection :: "selectionWire list option"
  kw_Filter :: "filterWire option"
  kw_OrderBy :: "sortWire list option"
  kw_Limit :: "int option"

record keysetRequestWire =
  krw_Kind :: "string option"
  krw_Profile :: "string option"
  krw_Datasource :: "string option"
  krw_Shape :: "string option"
  krw_Query :: "keysetSpecWire option"
  krw_Page :: "keysetPageWire option"

definition unmarshal_keysetCursorWire :: "jvalue \<Rightarrow> keysetCursorWire option" where
  "unmarshal_keysetCursorWire v =
     (let names = [''type'', ''value''] in do {
        ms \<leftarrow> wire_members names v;
        ty \<leftarrow> wireString (wire_field names ms ''type'');
        val \<leftarrow> wireString (wire_field names ms ''value'');
        Some \<lparr>cw_Type = ty, cw_Value = val\<rparr> })"

definition unmarshal_keysetPageWire :: "jvalue \<Rightarrow> keysetPageWire option" where
  "unmarshal_keysetPageWire v =
     (let names = [''kind'', ''cursor''] in do {
        ms \<leftarrow> wire_members names v;
        kind \<leftarrow> wireString (wire_field names ms ''kind'');
        cursor \<leftarrow> wire_slice unmarshal_keysetCursorWire (wire_field names ms ''cursor'');
        Some \<lparr>pw_Kind = kind, pw_Cursor = cursor\<rparr> })"

definition unmarshal_keysetSpecWire :: "jvalue \<Rightarrow> keysetSpecWire option" where
  "unmarshal_keysetSpecWire v =
     (let names = [''source'', ''projection'', ''filter'', ''order_by'', ''limit''] in do {
        ms \<leftarrow> wire_members names v;
        source \<leftarrow> wire_pointer unmarshal_resourceWire (wire_field names ms ''source'');
        projection \<leftarrow> wire_slice unmarshal_selectionWire (wire_field names ms ''projection'');
        filter \<leftarrow> wire_pointer unmarshal_filterWire (wire_field names ms ''filter'');
        orders \<leftarrow> wire_slice unmarshal_sortWire (wire_field names ms ''order_by'');
        limit \<leftarrow> wireInt (wire_field names ms ''limit'');
        Some \<lparr>kw_Source = source, kw_Projection = projection, kw_Filter = filter, kw_OrderBy = orders, kw_Limit = limit\<rparr> })"

definition unmarshal_keysetRequestWire :: "jvalue \<Rightarrow> keysetRequestWire option" where
  "unmarshal_keysetRequestWire v =
     (let names = [''kind'', ''profile'', ''datasource'', ''shape'', ''query'', ''page''] in do {
        ms \<leftarrow> wire_members names v;
        kind \<leftarrow> wireString (wire_field names ms ''kind'');
        profile \<leftarrow> wireString (wire_field names ms ''profile'');
        datasource \<leftarrow> wireString (wire_field names ms ''datasource'');
        shape \<leftarrow> wireString (wire_field names ms ''shape'');
        query \<leftarrow> wire_pointer unmarshal_keysetSpecWire (wire_field names ms ''query'');
        page \<leftarrow> wire_pointer unmarshal_keysetPageWire (wire_field names ms ''page'');
        Some \<lparr>krw_Kind = kind, krw_Profile = profile, krw_Datasource = datasource, krw_Shape = shape,
              krw_Query = query, krw_Page = page\<rparr> })"

section \<open>From the wire structures to the request\<close>

text \<open>A keyset projection decodes as a select list and holds field selections only.\<close>

definition decode_keysetSelection :: "selectionWire \<Rightarrow> Selection option" where
  "decode_keysetSelection w = do {
     s \<leftarrow> decode_selectionWire w;
     require (sel_Kind s = ''field'' \<and> sel_Function s = []) (Some s) }"

definition decode_keysetSpecWire :: "keysetSpecWire \<Rightarrow> int \<Rightarrow> KeysetSpec option" where
  "decode_keysetSpecWire w maxFilterDepth = do {
     rw \<leftarrow> kw_Source w;
     ps \<leftarrow> kw_Projection w;
     os \<leftarrow> kw_OrderBy w;
     limit \<leftarrow> kw_Limit w;
     source \<leftarrow> decode_resourceWire rw;
     require (ps \<noteq> [] \<and> length ps \<le> ProtocolMaxProjectionFields) (do {
     projection \<leftarrow> those (map decode_keysetSelection ps);
     require (os \<noteq> [] \<and> length os \<le> ProtocolMaxKeysetFields) (do {
     orders \<leftarrow> those (map decode_sortWire os);
     filter \<leftarrow> (case kw_Filter w of None \<Rightarrow> Some None | Some f \<Rightarrow> map_option Some (decode_filterWire f 1 maxFilterDepth));
     Some \<lparr>ks_Source = source, ks_Projection = projection, ks_Filter = filter, ks_OrderBy = orders, ks_Limit = limit\<rparr> }) }) }"

definition decode_keysetCursorWire :: "keysetCursorWire \<Rightarrow> KeysetCursorValue option" where
  "decode_keysetCursorWire w = do {
     ty \<leftarrow> cw_Type w;
     val \<leftarrow> cw_Value w;
     Some \<lparr>kc_Type = ty, kc_Value = val\<rparr> }"

definition decode_keysetPageWire :: "keysetPageWire \<Rightarrow> KeysetPage option" where
  "decode_keysetPageWire w = do {
     kind \<leftarrow> pw_Kind w;
     if kind = ''first'' then require (pw_Cursor w = None) (Some \<lparr>kp_Kind = kind, kp_Cursor = None\<rparr>)
     else if kind = ''after'' then do {
       cs \<leftarrow> pw_Cursor w;
       require (cs \<noteq> [] \<and> length cs \<le> ProtocolMaxKeysetFields) (do {
       cursor \<leftarrow> those (map decode_keysetCursorWire cs);
       Some \<lparr>kp_Kind = kind, kp_Cursor = Some cursor\<rparr> }) }
     else None }"

text \<open>The decoder with the budget its shape pass threads.\<close>

definition decode_keyset_request ::
  "(string \<Rightarrow> digest) \<Rightarrow> scan_budget \<Rightarrow> string \<Rightarrow> int \<Rightarrow> int \<Rightarrow> int \<Rightarrow> KeysetRequest option" where
  "decode_keyset_request hash budget data maxFilterDepth maxPreds maxParams =
     require (ValidString data \<and> validateJSONSurrogateEscapes data) (do {
       doc \<leftarrow> read_json data;
       require (scanKeysetRequestShape doc maxFilterDepth budget \<and> doc \<noteq> JNull) (do {
       wire \<leftarrow> unmarshal_keysetRequestWire doc;
       require (krw_Kind wire = Some ''keyset'') (do {
       profile \<leftarrow> krw_Profile wire;
       datasource \<leftarrow> krw_Datasource wire;
       shape \<leftarrow> krw_Shape wire;
       require (profile \<noteq> [] \<and> datasource \<noteq> [] \<and> shape \<noteq> []) (do {
       qw \<leftarrow> krw_Query wire;
       pw \<leftarrow> krw_Page wire;
       query \<leftarrow> decode_keysetSpecWire qw maxFilterDepth;
       page \<leftarrow> decode_keysetPageWire pw;
       let request = \<lparr>kr_Kind = ''keyset'', kr_Profile = profile, kr_Datasource = datasource, kr_Shape = shape,
                      kr_Query = query, kr_Page = page\<rparr> in
       require (error_of (ValidateKeyset hash request (int ProtocolMaxProjectionFields) (int ProtocolMaxKeysetFields)
           maxPreds maxFilterDepth maxParams ProtocolMaxRows) = None)
       (Some request) }) }) }) })"

definition DecodeStrictKeyset :: "(string \<Rightarrow> digest) \<Rightarrow> string \<Rightarrow> int \<Rightarrow> int \<Rightarrow> int \<Rightarrow> KeysetRequest option" where
  "DecodeStrictKeyset hash data maxFilterDepth maxPreds maxParams =
     decode_keyset_request hash (Some (newFilterShapeScanBudget maxPreds maxParams)) data maxFilterDepth maxPreds maxParams"

definition DecodeStrictSelectVNext ::
  "(string \<Rightarrow> digest) \<Rightarrow> string \<Rightarrow> int \<Rightarrow> int \<Rightarrow> int \<Rightarrow> Request SelectRequestVNext option" where
  "DecodeStrictSelectVNext hash data maxFilterDepth maxPreds maxParams =
     require (ValidString data \<and> validateJSONSurrogateEscapes data) (do {
       doc \<leftarrow> read_json data;
       keyset \<leftarrow> detectKeysetSelectBranch doc maxFilterDepth maxPreds maxParams;
       if \<not> keyset then map_option NewLegacySelectRequest (DecodeStrictSelect data maxFilterDepth)
       else map_option NewKeysetSelectRequest (DecodeStrictKeyset hash data maxFilterDepth maxPreds maxParams) })"

end
