(* ===== verification/Keyset_Exact.thy ===== *)
theory Keyset_Exact
  imports Keyset_Decode Scan_Budget Request_Exact
begin

text \<open>
  The decoder of select bodies is the union of the two strict decoders: it returns a keyset request exactly for the
  bodies \<open>DecodeStrictKeyset\<close> accepts, and a legacy request exactly for the bodies \<open>DecodeStrictSelect\<close> accepts whose
  filter is within the limits. The branch detection, which runs first and bounds the union of both forms, refuses
  nothing else.
\<close>

section \<open>The branch detection without its flag\<close>

definition scan_branch_field :: "int \<Rightarrow> string \<Rightarrow> jvalue \<Rightarrow> scan_budget \<Rightarrow> scan_budget option" where
  "scan_branch_field d key x b =
     (if key = ''kind'' then if x = JText ''keyset'' then Some b else None
      else if key \<in> set [''profile'', ''datasource'', ''shape''] then Some b
      else if key = ''query'' then scanSelectVNextQueryShape d x b
      else if key = ''page'' then map_option (\<lambda>_. b) (scanKeysetPageShape x)
      else None)"

definition kind_seen :: "string \<Rightarrow> jvalue \<Rightarrow> bool \<Rightarrow> bool" where
  "kind_seen key x keyset \<longleftrightarrow> key = ''kind'' \<or> keyset"

lemma fold_kind_seen: "fold (\<lambda>e. kind_seen (fst e) (snd (snd e))) ms k \<longleftrightarrow> k \<or> map_of ms ''kind'' \<noteq> None"
  by (induction ms arbitrary: k) (auto simp: kind_seen_def)

lemma detect_branch:
  "detectKeysetSelectBranch (JObject ms) d maxPreds maxParams =
     map_option (\<lambda>_. map_of ms ''kind'' \<noteq> None)
       (scan_members (scan_branch_field d) [] ms (Some (newFilterShapeScanBudget maxPreds maxParams)))"
proof -
  have "scanBranchField d key x (m, b) = map_option (Pair (kind_seen key x m)) (scan_branch_field d key x b)" for key x m b
    by (simp add: scanBranchField_def scan_branch_field_def kind_seen_def skipJSONValue_def option.map_comp comp_def)
  then have "scan_members (scanBranchField d) [] ms (False, b) =
      map_option (Pair (fold (\<lambda>e. kind_seen (fst e) (snd (snd e))) ms False)) (scan_members (scan_branch_field d) [] ms b)" for b
    by (rule scan_members_pair)
  then show ?thesis by (simp add: detectKeysetSelectBranch_def fold_kind_seen option.map_comp comp_def)
qed

lemma detect_object: "detectKeysetSelectBranch v d maxPreds maxParams = Some k \<Longrightarrow> \<exists>ms. v = JObject ms"
  by (cases v) (simp_all add: detectKeysetSelectBranch_def)

section \<open>Keyset bodies\<close>

definition scan_keyset_field :: "int \<Rightarrow> string \<Rightarrow> jvalue \<Rightarrow> scan_budget \<Rightarrow> scan_budget option" where
  "scan_keyset_field d key x b =
     (if key \<in> set [''kind'', ''profile'', ''datasource'', ''shape''] then Some b
      else if key = ''query'' then scanKeysetQueryShape d x b
      else if key = ''page'' then map_option (\<lambda>_. b) (scanKeysetPageShape x)
      else None)"

definition cursor_count :: "string \<Rightarrow> jvalue \<Rightarrow> nat \<Rightarrow> nat" where
  "cursor_count key x n = (if key = ''page'' then (case scanKeysetPageShape x of None \<Rightarrow> n | Some k \<Rightarrow> k) else n)"

lemma scan_keyset_members:
  "scan_members (scanKeysetField d) [] ms (n, b) =
     map_option (Pair (fold (\<lambda>e. cursor_count (fst e) (snd (snd e))) ms n)) (scan_members (scan_keyset_field d) [] ms b)"
proof (rule scan_members_pair)
  show "scanKeysetField d key x (m, b) = map_option (Pair (cursor_count key x m)) (scan_keyset_field d key x b)" for key x m b
    by (cases "scanKeysetPageShape x")
      (simp_all add: scanKeysetField_def scan_keyset_field_def cursor_count_def skipJSONValue_def)
qed

definition keyset_keys :: "string list" where
  "keyset_keys = [''kind'', ''profile'', ''datasource'', ''shape'', ''query'', ''page'']"

lemma scan_keyset_field_key: "scan_keyset_field d key x b = Some b' \<Longrightarrow> key \<in> set keyset_keys"
  by (simp add: scan_keyset_field_def keyset_keys_def split: if_splits) argo

text \<open>Every keyset query is a query of the union.\<close>

definition scan_keyset_query_field :: "int \<Rightarrow> string \<Rightarrow> jvalue \<Rightarrow> scan_budget \<Rightarrow> scan_budget option" where
  "scan_keyset_query_field d key x b =
     (if key = ''source'' then scanResourceShape x b
      else if key = ''projection'' then scanBoundedArray ProtocolMaxProjectionFields (scanSelectionShape True) x b
      else if key = ''filter'' then scanFilterShape x 1 d b
      else if key = ''order_by'' then scanBoundedArray ProtocolMaxKeysetFields scanSortShape x b
      else if key = ''limit'' then skipJSONValue x b
      else None)"

definition scan_vnext_query_field :: "int \<Rightarrow> string \<Rightarrow> jvalue \<Rightarrow> scan_budget \<Rightarrow> scan_budget option" where
  "scan_vnext_query_field d key x b =
     (if key = ''source'' then scanResourceShape x b
      else if key = ''projection'' then scanBoundedArray ProtocolMaxProjectionFields (scanSelectionShape True) x b
      else if key = ''filter'' then scanFilterShape x 1 d b
      else if key = ''group_by'' then scanBoundedArray ProtocolMaxGroupByFields skipJSONValue x b
      else if key = ''order_by'' then scanBoundedArray ProtocolMaxOrderByFields scanSortShape x b
      else if key \<in> set [''limit'', ''offset''] then skipJSONValue x b
      else None)"

lemma keyset_query_objects:
  "scanKeysetQueryShape d = scanObjectShape (scan_keyset_query_field d)"
  "scanSelectVNextQueryShape d = scanObjectShape (scan_vnext_query_field d)"
  unfolding scanKeysetQueryShape_def scanSelectVNextQueryShape_def scan_keyset_query_field_def scan_vnext_query_field_def
  by (rule refl)+

lemma scan_keyset_query_field_cases:
  assumes "scan_keyset_query_field d key x b = Some b'"
  obtains "key = ''source''" | "key = ''projection''" | "key = ''filter''" | "key = ''order_by''" | "key = ''limit''"
  using assms that unfolding scan_keyset_query_field_def by (simp split: if_splits)

lemma scan_vnext_query_field_keys:
  "scan_vnext_query_field d ''source'' x = scanResourceShape x"
  "scan_vnext_query_field d ''projection'' x = scanBoundedArray ProtocolMaxProjectionFields (scanSelectionShape True) x"
  "scan_vnext_query_field d ''filter'' x = scanFilterShape x 1 d"
  "scan_vnext_query_field d ''order_by'' x = scanBoundedArray ProtocolMaxOrderByFields scanSortShape x"
  "scan_vnext_query_field d ''limit'' x = Some" "scan_vnext_query_field d ''offset'' x = Some"
  by (intro ext, simp add: scan_vnext_query_field_def skipJSONValue_def)+

lemma scan_keyset_query_field_keys:
  "scan_keyset_query_field d ''source'' x = scanResourceShape x"
  "scan_keyset_query_field d ''projection'' x = scanBoundedArray ProtocolMaxProjectionFields (scanSelectionShape True) x"
  "scan_keyset_query_field d ''filter'' x = scanFilterShape x 1 d"
  "scan_keyset_query_field d ''order_by'' x = scanBoundedArray ProtocolMaxKeysetFields scanSortShape x"
  "scan_keyset_query_field d ''limit'' x = Some"
  by (intro ext, simp add: scan_keyset_query_field_def skipJSONValue_def)+

lemma keyset_query_is_vnext:
  assumes "scanKeysetQueryShape d x b = Some b'"
  shows "scanSelectVNextQueryShape d x b = Some b'"
proof (cases x)
  case (JObject ms)
  have le: "ProtocolMaxKeysetFields \<le> ProtocolMaxOrderByFields" by (simp add: ProtocolMaxKeysetFields_def protocol_limits)
  have "scan_vnext_query_field d key y c = Some c'" if f: "scan_keyset_query_field d key y c = Some c'" for key y c c'
    using f by (cases rule: scan_keyset_query_field_cases)
      (use f le in \<open>auto simp: scan_keyset_query_field_keys scan_vnext_query_field_keys intro: scanBoundedArray_mono\<close>)
  with assms show ?thesis
    unfolding keyset_query_objects JObject scan_shapes by (rule scan_members_mono [rotated])
qed (use assms in \<open>simp_all add: scanKeysetQueryShape_def scanSelectVNextQueryShape_def scanObjectShape_def\<close>)

lemma scan_keyset_field_cases:
  assumes "scan_keyset_field d key x b = Some b'"
  obtains "key = ''kind''" | "key \<in> set [''profile'', ''datasource'', ''shape'']" | "key = ''query''" | "key = ''page''"
  using assms that unfolding scan_keyset_field_def by (simp split: if_splits) argo

lemma keyset_is_branch:
  assumes "scan_members (scan_keyset_field d) [] ms b = Some b'" and "exact_members keyset_keys ms"
    and "text_member ms ''kind'' (Some ''keyset'')"
  shows "scan_members (scan_branch_field d) [] ms b = Some b'"
  using assms(1)
proof (rule scan_members_mono [rotated])
  fix key raw x c c' assume m: "(key, raw, x) \<in> set ms" and s: "scan_keyset_field d key x c = Some c'"
  have "map_of ms key = Some (raw, x)" using m assms(2) by (simp add: map_of_exact)
  then have k: "key = ''kind'' \<Longrightarrow> x = JText ''keyset''" using assms(3) by (auto simp: text_member_def)
  from s show "scan_branch_field d key x c = Some c'"
  proof (cases rule: scan_keyset_field_cases)
    case 2
    then have "key \<noteq> ''kind''" by auto
    with 2 s show ?thesis by (simp only: scan_keyset_field_def scan_branch_field_def) simp
  qed (use s k in \<open>simp_all add: scan_keyset_field_def scan_branch_field_def keyset_query_is_vnext\<close>)
qed

lemma keyset_detected:
  assumes r: "DecodeStrictKeyset hash data d maxPreds maxParams = Some r" and doc: "read_json data = Some doc"
  shows "detectKeysetSelectBranch doc d maxPreds maxParams = Some True"
proof -
  let ?b = "Some (newFilterShapeScanBudget maxPreds maxParams)"
  from r doc obtain wire where scan: "scanKeysetRequestShape doc d ?b" and "doc \<noteq> JNull"
    and wire: "unmarshal_keysetRequestWire doc = Some wire" and kind: "krw_Kind wire = Some ''keyset''"
    by (auto simp: DecodeStrictKeyset_def decode_keyset_request_def bind_eq_Some_conv split: if_split_asm)
  then obtain ms where ms: "doc = JObject ms"
    by (cases doc) (auto simp: unmarshal_keysetRequestWire_def wire_members_def)
  from scan obtain b' where b': "scan_members (scan_keyset_field d) [] ms ?b = Some b'"
    by (auto simp: ms scanKeysetRequestShape_def scan_keyset_members split: option.splits)
  then have e: "exact_members keyset_keys ms" using scan_members_exact [where f = "scan_keyset_field d" and names = keyset_keys] scan_keyset_field_key by blast
  have k: "text_member ms ''kind'' (Some ''keyset'')"
    using wire kind e by (auto simp: ms unmarshal_keysetRequestWire_def keyset_keys_def bind_eq_Some_conv text_member_wire)
  then have "map_of ms ''kind'' \<noteq> None" by (auto simp: text_member_def)
  with keyset_is_branch [OF b' e k] show ?thesis by (simp add: ms detect_branch)
qed

section \<open>Legacy bodies\<close>

lemma kind_refused_by_select:
  assumes "detectKeysetSelectBranch doc d maxPreds maxParams = Some True" and "read_json data = Some doc"
  shows "DecodeStrictSelect data d' = None"
proof -
  obtain ms where ms: "doc = JObject ms" using detect_object [OF assms(1)] by blast
  then have "map_of ms ''kind'' \<noteq> None" using assms(1) by (auto simp: detect_branch)
  then have "\<not> exact_members [''profile'', ''datasource'', ''query''] ms"
    using exact_absent [of "[''profile'', ''datasource'', ''query'']" ms "''kind''"] by auto
  then have "\<not> request_doc True d' doc r" for r by (simp add: request_doc_def ms)
  then show ?thesis
    using assms(2) decodeStrictRequest_iff [of data d' True] by (cases "DecodeStrictSelect data d'") (auto simp: DecodeStrictSelect_def)
qed

lemma charges_select_query:
  assumes "spec_doc True d v spec"
  shows "charges (scanSelectVNextQueryShape d v) (optional_cost filter_nodes (spec_Filter spec))
    (optional_cost filter_predicates (spec_Filter spec)) (optional_cost filter_parameters (spec_Filter spec))"
proof -
  have "accepts (scanQueryShape d True) None v" using assms spec_passes [of d True v spec] by (simp add: both_passes_def)
  moreover obtain ms where v: "v = JObject ms" and e: "exact_members (query_keys True) ms"
    and f: "optional_doc ms ''filter'' (filter_doc d) (spec_Filter spec)" using assms by (auto simp: spec_doc_def)
  ultimately have scan: "scanned ms ''source'' scanResourceShape"
    "scanned_array ms ''projection'' ProtocolMaxProjectionFields (scanSelectionShape True)"
    "scanned_array ms ''order_by'' ProtocolMaxOrderByFields scanSortShape" by (auto simp: scanQueryShape_accepts)
  have "charges (scan_members (scan_vnext_query_field d) [] ms) (optional_cost filter_nodes (spec_Filter spec))
    (optional_cost filter_predicates (spec_Filter spec)) (optional_cost filter_parameters (spec_Filter spec))"
  proof (rule charges_one_member [where k = "''filter''"])
    fix raw x assume x: "map_of ms ''filter'' = Some (raw, x)"
    with f obtain y where "spec_Filter spec = Some y" "filter_doc d x y"
      by (cases "spec_Filter spec") (auto simp: optional_doc_def member_doc_def)
    with charges_filter [of d 1 x y] show "charges (scan_vnext_query_field d ''filter'' x)
        (optional_cost filter_nodes (spec_Filter spec)) (optional_cost filter_predicates (spec_Filter spec))
        (optional_cost filter_parameters (spec_Filter spec))"
      by (simp add: scan_vnext_query_field_keys optional_cost_def)
  next
    fix key raw x assume m: "map_of ms key = Some (raw, x)" and "key \<noteq> ''filter''"
    moreover have "key \<in> set (query_keys True)" using exact_absent [OF e, of key] m by fastforce
    ultimately consider "key = ''source''" | "key = ''projection''" | "key = ''order_by''" | "key = ''limit''" | "key = ''offset''"
      by (simp add: query_keys_def) argo
    then show "charges (scan_vnext_query_field d key x) 0 0 0"
      by cases (use m scan in \<open>auto simp: scan_vnext_query_field_keys charges_Some scanned_def scan_structures
        intro: charges_skip_object charges_skip_array\<close>)
  next
    show "map_of ms ''filter'' = None \<Longrightarrow> optional_cost filter_nodes (spec_Filter spec) = 0 \<and>
        optional_cost filter_predicates (spec_Filter spec) = 0 \<and> optional_cost filter_parameters (spec_Filter spec) = 0"
      using f by (cases "spec_Filter spec") (simp_all add: optional_doc_def member_doc_def optional_cost_def)
  qed (use e in \<open>simp add: exact_members_def\<close>)
  then show ?thesis by (simp add: v keyset_query_objects scan_shapes)
qed

lemma legacy_detected:
  assumes "request_doc True d doc r"
  shows "detectKeysetSelectBranch doc d maxPreds maxParams =
    (let f = spec_Filter (rq_Query r) in
     if fits (newFilterShapeScanBudget maxPreds maxParams) (optional_cost filter_nodes f) (optional_cost filter_predicates f)
       (optional_cost filter_parameters f) then Some False else None)"
proof -
  let ?f = "spec_Filter (rq_Query r)"
  obtain ms raw x where doc: "doc = JObject ms" and e: "exact_members [''profile'', ''datasource'', ''query''] ms"
    and q: "map_of ms ''query'' = Some (raw, x)" and s: "spec_doc True d x (rq_Query r)"
    using assms by (auto simp: request_doc_def member_doc_def)
  have "charges (scan_members (scan_branch_field d) [] ms) (optional_cost filter_nodes ?f) (optional_cost filter_predicates ?f)
      (optional_cost filter_parameters ?f)"
  proof (rule charges_one_member [where k = "''query''"])
    fix raw' y assume "map_of ms ''query'' = Some (raw', y)"
    moreover have "scan_branch_field d ''query'' = scanSelectVNextQueryShape d" by (intro ext) (simp add: scan_branch_field_def)
    ultimately show "charges (scan_branch_field d ''query'' y) (optional_cost filter_nodes ?f)
        (optional_cost filter_predicates ?f) (optional_cost filter_parameters ?f)"
      using charges_select_query [OF s] q by simp
  next
    fix key raw' y assume m: "map_of ms key = Some (raw', y)" and "key \<noteq> ''query''"
    moreover have "key \<in> set [''profile'', ''datasource'', ''query'']" using exact_absent [OF e, of key] m by fastforce
    ultimately have "key \<in> {''profile'', ''datasource''}" by simp
    then show "charges (scan_branch_field d key y) 0 0 0" by (auto simp: charges_def scan_branch_field_def)
  qed (use e q in \<open>simp_all add: exact_members_def\<close>)
  moreover have "map_of ms ''kind'' = None" by (rule exact_absent [OF e]) simp
  ultimately show ?thesis by (simp add: doc detect_branch charges_def Let_def)
qed

section \<open>Properties\<close>

definition filter_within :: "int \<Rightarrow> int \<Rightarrow> Filter option \<Rightarrow> bool" where
  "filter_within maxPreds maxParams f \<longleftrightarrow>
     (case f of
        None \<Rightarrow> True
      | Some f \<Rightarrow> int (filter_predicates f) \<le> maxPreds \<and>
                  (filter_parameters f = 0 \<or> int (filter_parameters f) \<le> maxParams))"

lemma wf_filter_fits:
  assumes "\<And>g. f = Some g \<Longrightarrow> wf_filter g" and "maxPreds \<le> maxInt div 2"
  shows "fits (newFilterShapeScanBudget maxPreds maxParams) (optional_cost filter_nodes f) (optional_cost filter_predicates f)
    (optional_cost filter_parameters f) \<longleftrightarrow> filter_within maxPreds maxParams f"
proof (cases f)
  case (Some g)
  then have "filter_nodes g + 1 \<le> 2 * filter_predicates g" using wf_filter_nodes assms(1) by blast
  with Some assms(2) show ?thesis
    by (auto simp: optional_cost_def fits_def newFilterShapeScanBudget_def filter_within_def)
qed (simp add: optional_cost_def filter_within_def)

lemma select_filter_wf:
  assumes "validateSimpleSelectTransport spec d = None" and "spec_Filter spec = Some f"
  shows "wf_filter f"
  using assms by (auto simp: validateSimpleSelectTransport_def Validate_iff wf_spec_def split: sum.splits)

text \<open>
  C27: the decoder of select bodies is the union of the two strict decoders. It returns a keyset request exactly when the
  keyset decoder accepts the body, a legacy request exactly when the select decoder accepts it and its filter is within
  the limits, and nothing else; a body with an unpaired escaped surrogate is always refused. No body is accepted by both,
  so the branch detection that runs before either decoder never changes the outcome.
\<close>

theorem select_bodies_are_dispatched:
  assumes "maxPreds \<le> maxInt div 2"
  shows "DecodeStrictSelectVNext hash data d maxPreds maxParams =
    (if \<not> validateJSONSurrogateEscapes data then None
     else case DecodeStrictKeyset hash data d maxPreds maxParams of
       Some k \<Rightarrow> Some (NewKeysetSelectRequest k)
     | None \<Rightarrow> Option.bind (DecodeStrictSelect data d) (\<lambda>r.
         if filter_within maxPreds maxParams (spec_Filter (rq_Query r)) then Some (NewLegacySelectRequest r) else None))"
proof (cases "ValidString data \<and> validateJSONSurrogateEscapes data \<and> read_json data \<noteq> None")
  case False
  then show ?thesis
    by (auto simp: DecodeStrictSelectVNext_def DecodeStrictSelect_def decodeStrictRequest_def DecodeStrictKeyset_def
        decode_keyset_request_def)
next
  case True
  then obtain doc where doc: "read_json data = Some doc" by blast
  let ?detect = "detectKeysetSelectBranch doc d maxPreds maxParams"
  note vnext = DecodeStrictSelectVNext_def [of hash data d maxPreds maxParams]
  show ?thesis
  proof (cases "DecodeStrictKeyset hash data d maxPreds maxParams")
    case (Some k)
    with True doc keyset_detected show ?thesis by (simp add: vnext)
  next
    case keyset: None
    show ?thesis
    proof (cases "DecodeStrictSelect data d")
      case None
      with True doc keyset show ?thesis by (cases ?detect) (simp_all add: vnext)
    next
      case (Some r)
      then have "request_doc True d doc r" and wf: "\<And>g. spec_Filter (rq_Query r) = Some g \<Longrightarrow> wf_filter g"
        using doc select_filter_wf by (auto simp: DecodeStrictSelect_def decodeStrictRequest_iff)
      then have "?detect = (if filter_within maxPreds maxParams (spec_Filter (rq_Query r)) then Some False else None)"
        by (simp add: legacy_detected wf_filter_fits assms Let_def)
      with True doc keyset Some show ?thesis by (simp add: vnext)
    qed
  qed
qed

text \<open>A legacy body with a filter of one predicate.\<close>

definition sample_select_body :: string where
  "sample_select_body = map (\<lambda>c. if c = CHR ''~'' then quote_char else c)
     (''{~profile~:~p~,~datasource~:~d~,~query~:{~source~:{~schema~:~s~,~name~:~t~},'' @
      ''~projection~:[{~kind~:~field~,~field~:~a~}],'' @
      ''~filter~:{~kind~:~predicate~,~field~:~a~,~operator~:~is_null~,~values~:[]}}}'')"

definition sample_select_request :: Request where
  "sample_select_request = \<lparr>rq_Profile = ''p'', rq_Datasource = ''d'', rq_Query =
     \<lparr>spec_Source = \<lparr>ref_Schema = ''s'', ref_Name = ''t''\<rparr>,
      spec_Projection = [\<lparr>sel_Representation = [], sel_Kind = ''field'', sel_Field = ''a'', sel_Function = [], sel_Alias = []\<rparr>],
      spec_Filter = Some (Filter [] ''predicate'' ''a'' ''is_null'' (Some []) []), spec_GroupBy = [], spec_OrderBy = [],
      spec_Limit = None, spec_Offset = None\<rparr>\<rparr>"

lemma sample_select_runs:
  "(case read_json sample_select_body of
      None \<Rightarrow> False
    | Some doc \<Rightarrow>
        scanRequestShape doc 4 True \<and> doc \<noteq> JNull \<and>
        map_option krw_Kind (unmarshal_keysetRequestWire doc) = Some None \<and>
        (case unmarshal_requestWire doc of
           None \<Rightarrow> False
         | Some w \<Rightarrow> qw_Profile w = Some ''p'' \<and> qw_Datasource w = Some ''d'' \<and>
             Option.bind (qw_Query w) (\<lambda>q. decode_specWire q 4) = Some (rq_Query sample_select_request)))"
  "validateSimpleSelectTransport (rq_Query sample_select_request) 4 = None"
  "validateJSONSurrogateEscapes sample_select_body"
  by code_simp+

lemma sample_select_decoded:
  "DecodeStrictSelect sample_select_body 4 = Some sample_select_request"
  "DecodeStrictKeyset hash sample_select_body 4 p q = None"
proof -
  have "ValidString sample_select_body" by (rule ValidString_ascii) code_simp
  moreover obtain doc where "read_json sample_select_body = Some doc" "scanRequestShape doc 4 True" "doc \<noteq> JNull"
    and doc: "case unmarshal_requestWire doc of None \<Rightarrow> False | Some w \<Rightarrow> qw_Profile w = Some ''p'' \<and> qw_Datasource w = Some ''d'' \<and>
      Option.bind (qw_Query w) (\<lambda>q. decode_specWire q 4) = Some (rq_Query sample_select_request)"
    using sample_select_runs(1) by (cases "read_json sample_select_body") simp_all
  moreover from doc obtain w qw where "unmarshal_requestWire doc = Some w" "qw_Profile w = Some ''p''" "qw_Datasource w = Some ''d''"
    "qw_Query w = Some qw" "decode_specWire qw 4 = Some (rq_Query sample_select_request)"
    by (cases "unmarshal_requestWire doc") (auto simp: bind_eq_Some_conv)
  ultimately show "DecodeStrictSelect sample_select_body 4 = Some sample_select_request"
    using sample_select_runs(2)
    by (simp add: DecodeStrictSelect_def decodeStrictRequest_def) (simp add: sample_select_request_def)
  show "DecodeStrictKeyset hash sample_select_body 4 p q = None"
    using sample_select_runs(1)
    by (auto simp: DecodeStrictKeyset_def decode_keyset_request_def split: option.splits)
qed

theorem select_bodies_are_dispatched_witness:
  "DecodeStrictSelectVNext (\<lambda>s. s) sample_select_body 4 1 8 = Some (NewLegacySelectRequest sample_select_request) \<and>
   DecodeStrictSelectVNext (\<lambda>s. s) sample_select_body 4 0 8 = None"
  using select_bodies_are_dispatched [of 1 "\<lambda>s. s" sample_select_body 4 8]
    select_bodies_are_dispatched [of 0 "\<lambda>s. s" sample_select_body 4 8] sample_select_decoded sample_select_runs(3)
  by (simp add: maxInt_def filter_within_def sample_select_request_def)

end
