(* ===== verification/Spec2Isabelle.thy ===== *)
theory Spec2Isabelle
  imports Json_Integer Policy_Grants Mysql_Rows Keyset_Pages Keyset_Statement Service_Results Request_Exact Aggregate_Exact Keyset_Exact
begin

text \<open>
  Quordon is a gateway between HTTP clients and MySQL servers. A client sends a typed query as JSON; the
  gateway validates it (\<open>src/internal/queryspec\<close>), binds the caller to a profile and authorises the query under
  that profile (\<open>src/internal/policy\<close>), compiles it to one parameterised statement and collects the rows within a
  byte budget (\<open>src/internal/adapters/mysql8\<close>). The query service (\<open>src/internal/queryservice\<close>) drives these steps
  over the database manager (\<open>src/internal/database\<close>) and writes the audit log (\<open>src/internal/audit\<close>). The
  development follows that path.

  \<^bold>\<open>The shared layer.\<close> \<open>Prelude\<close> has the result combinators (\<open>check\<close>, \<open>bind_result\<close>, \<open>first_error\<close>, \<open>range_error\<close>)
  in which the early returns of the code are written, and the list lemmas the components share. \<open>Go_Strings\<close>,
  \<open>Go_Json\<close>, \<open>Json_Tree\<close> and \<open>Go_Sha256\<close> model what the code uses of Go's standard library: UTF-8 and case
  folding, \<open>strconv\<close>, \<open>encoding/json\<close> printing and parsing, \<open>sha256\<close>. Strings are byte lists, so \<open>len\<close> is the
  length of the list.

  \<^bold>\<open>Domain\<close> (\<open>domain.go\<close>): operations, features, identifier semantics and the limits, with \<open>Limits_Min\<close> as their
  meet. \<^bold>\<open>Portable_Values\<close> (\<open>portable_values.go\<close>): the canonical dates and times of the protocol over a model of
  \<open>time.Parse\<close>; the parsers invert the printers and accept nothing else.

  \<^bold>\<open>Queries.\<close> \<open>Query_Types\<close>, \<open>Query_Validate\<close>, \<open>Query_Spec\<close> (\<open>types.go\<close>, \<open>representation.go\<close>, \<open>shape.go\<close>): select
  queries, their filters and typed values, \<open>Validate\<close>, \<open>Revalidate\<close> and the shape hash. \<open>Json_Integer\<close> shows that
  the integer parser of bind values is exact. \<open>Aggregate_Query\<close>, \<open>Aggregate_Normalize\<close>, \<open>Filter_Digest\<close>
  (\<open>aggregate.go\<close>, \<open>numeric_bucket.go\<close>): aggregates, the digests that order filters, and the normal form.
  \<open>Keyset_Query\<close> (\<open>keyset.go\<close>): keyset pages and their cursors. For each of the three the validator is shown to
  decide a stated well-formedness together with the limits. \<open>Revalidation\<close> holds the locale of queries that are
  validated under loose limits and re-validated under strict ones; it is interpreted for the select validator.

  \<^bold>\<open>Policy.\<close> \<open>Config_Types\<close> (the policy part of \<open>config.go\<close>), \<open>Policy\<close>, \<open>Policy_Shapes\<close>, \<open>Policy_Grants\<close>
  (\<open>policy.go\<close>, \<open>keyset.go\<close>): bindings, resource patterns, shapes of aggregates and pages, and the seven
  authorisations. A snapshot is a value with an identity that stands for the pointer compared by the code. The
  lemmas say what a grant implies: no denied column is mentioned, limits never exceed the hard limits, aggregates
  and pages have exactly one configured shape, a binding of an old snapshot is refused.

  \<^bold>\<open>MySQL.\<close> \<open>Sql_Lexer\<close> is a reader of MySQL text (quoted identifiers, words, numbers, symbols, comments,
  placeholders). \<open>Mysql_Select\<close> (\<open>mysql8.go\<close>, \<open>source_text.go\<close>) and \<open>Keyset_Statement\<close> (\<open>keyset.go\<close>,
  \<open>keyset_characters.go\<close>) model the compilers; the lemmas say that the reader gets back the intended tokens,
  whatever the names contain, with one placeholder per argument. \<open>Mysql_Rows\<close> models driver errors, column types,
  the byte counters and the row loop of selects; \<open>Keyset_Columns\<close> the source validator of pages;
  \<open>Keyset_Pages\<close> the row loop of pages; \<open>Keyset_Decimal\<close> the exact decimals. Rows arrive from
  \<open>database/sql\<close> as a list of scanned rows followed by the final error, so every prefix and every failure of the
  driver is an input of the model. The locale \<open>byte_counter\<close> is the contract of the size predictors and
  \<open>paged_reading\<close> that of a client that follows continuation cursors; both are interpreted on the code's functions.

  \<^bold>\<open>Request decoding.\<close> \<open>Json_Value\<close> is what the decoders use of \<open>encoding/json\<close>; \<open>Request_Decode\<close> (\<open>decode.go\<close>),
  \<open>Aggregate_Decode\<close> (\<open>aggregate_decode.go\<close>) and \<open>Keyset_Decode\<close> (\<open>keyset_decode.go\<close>) have the two passes of the
  strict decoders on the tree of a body: the shape pass with its bounds and budget, and the wire structures with the
  case-folding field lookup of the library. \<open>Request_Contract\<close> says which document represents which structure; the
  locale \<open>wire_structure\<close> is the contract between the passes, interpreted on every structure. \<open>Request_Exact\<close> shows the
  select decoder exact, \<open>Scan_Budget\<close> what a filter costs, \<open>Aggregate_Exact\<close> that the budget changes no result and
  \<open>Keyset_Exact\<close> that the branch detection separates the two request forms.

  \<^bold>\<open>Table statistics.\<close> \<open>Mysql_Server\<close> (\<open>mysql8.go\<close>) has the identification of a server; \<open>Table_Statistics\<close>
  (\<open>table_statistics.go\<close>) the reading of the metrics and partitions of a table, over row sets with their errors, with
  \<open>unicode.SimpleFold\<close> as a parameter; \<open>Statistics_Rows\<close> the invariant of its row loop and the exactness of its sizes;
  \<open>Service_Statistics\<close> the handler and its validation, which what the adapter returns always passes.

  \<^bold>\<open>Audit.\<close> \<open>Audit_Log\<close> (\<open>audit.go\<close>, \<open>audit_hash.go\<close>): events and their JSON, the memory sink, and the JSON sink as
  two step relations, one for the callers of \<open>Write\<close> and one for the writing goroutine; a run is any interleaving.
  The writer may fail or write part of a line, callers may be cancelled or time out. The locale \<open>append_only_log\<close> is
  the contract of both sinks. The lemmas say that acknowledged records are in the log, in real-time order, and that
  calls return.

  \<^bold>\<open>Database manager.\<close> \<open>Database_Manager\<close> (\<open>database.go\<close>): adapters are records of functions over an abstract world,
  optional interfaces are optional fields, so that a type assertion is a case distinction; the lemmas say that after
  \<open>NewManager\<close> no assertion fails.

  \<^bold>\<open>Query service.\<close> \<open>Query_Service\<close> (\<open>service.go\<close>, \<open>source_text.go\<close>, parts of \<open>operations.go\<close>) has the state of the
  service and a state monad with errors; the state carries a history of records, reads and capacity operations that
  the code does not keep and the theorems are about. \<open>Service_Handlers\<close> (\<open>service.go\<close>, \<open>operations.go\<close>,
  \<open>aggregate.go\<close>) and \<open>Service_Keyset\<close> (\<open>keyset.go\<close>) have the handlers; \<open>Result_Columns\<close> has the columns of a page
  and their sizes, so that the size the adapter counts is the size the service sends. \<open>Service_Results\<close> says what the
  answers may contain. \<open>Service_Audit\<close> composes rules about such histories and shows that reads
  are permitted, recorded before and after, and that a failing sink fails closed. \<open>Service_Capacity\<close> interleaves the
  channel operations of concurrent requests.

  \<^bold>\<open>This theory\<close> composes validation, binding and authorisation of a select.

  \<^bold>\<open>Integers, bounds and termination.\<close> Go's \<open>int\<close> is modelled by \<open>int\<close> or \<open>nat\<close>: the counters of the code are
  bounded by the request size and the configured limits, far below \<open>2^63\<close>. Where the code relies on a width
  (JSON integers, key columns, SHA-256) the width is written out. All functions are total: loops
  recurse on the list they range over or on a decreasing number. Fuel is used once, for the orbit of a code point
  under case folding, with the number of code points, which no closed orbit exceeds.

  \<^bold>\<open>Not modelled.\<close> The HTTP server, authentication, secrets and start-up are I/O over the standard library. YAML
  loading and the cross-checks of a configuration, query shape discovery, the
  aggregate compiler and plan inspection are left for later. Error texts are dropped: an error is its kind, which is what the service maps to a response. The
  defensive copies of slices are identities on values.
\<close>

section \<open>The select path\<close>

text \<open>What a profile permits of a select, independently of how the engine computes it.\<close>

definition select_permitted :: "Profile \<Rightarrow> IdentifierSemantics \<Rightarrow> NormalizedSpec \<Rightarrow> bool" where
  "select_permitted profile sem spec \<longleftrightarrow>
     (let src = ns_Source spec; policy = prof_Query profile in
      resource_allowed (prof_Resources profile) sem [ref_Schema src] \<and>
      resource_allowed (prof_Resources profile) sem [ref_Schema src, ref_Name src] \<and>
      (\<forall>name. name \<noteq> [] \<and> mentions_column spec name \<longrightarrow>
         resource_allowed (prof_Resources profile) sem [ref_Schema src, ref_Name src, name]) \<and>
      (UsesSourceText spec \<longrightarrow> AllowSourceText policy) \<and>
      (\<forall>f \<in> set_option (ns_Filter spec). AllowFiltering policy \<and>
         set (collectOperators f) \<subseteq> set (AllowedFilterOperators policy)) \<and>
      (ns_GroupBy spec \<noteq> [] \<longrightarrow> AllowGroupBy policy) \<and> (ns_OrderBy spec \<noteq> [] \<longrightarrow> AllowSorting policy) \<and>
      (\<forall>s \<in> set (ns_Projection spec). sel_Kind s = ''aggregate'' \<longrightarrow> sel_Function s \<in> set (AllowedAggregates policy)))"

lemma filter_feature_error_None:
  "filter_feature_error policy fo = None \<longleftrightarrow>
     (\<forall>f \<in> set_option fo. AllowFiltering policy \<and> set (collectOperators f) \<subseteq> set (AllowedFilterOperators policy))"
proof -
  have "range_error (\<lambda>_ op. fail_if (op \<notin> set (AllowedFilterOperators policy)) e) ops = None \<longleftrightarrow>
      (\<forall>op \<in> set ops. op \<in> set (AllowedFilterOperators policy))" for ops and e :: policy_error
    by (rule range_error_None_set) simp
  then show ?thesis by (cases fo) (auto simp: filter_feature_error_def)
qed

lemma authorizeFeatures_None:
  "authorizeFeatures policy spec = None \<longleftrightarrow>
     (UsesSourceText spec \<longrightarrow> AllowSourceText policy) \<and> filter_feature_error policy (ns_Filter spec) = None \<and>
     (ns_GroupBy spec \<noteq> [] \<longrightarrow> AllowGroupBy policy) \<and> (ns_OrderBy spec \<noteq> [] \<longrightarrow> AllowSorting policy) \<and>
     (\<forall>s \<in> set (ns_Projection spec). sel_Kind s = ''aggregate'' \<longrightarrow> sel_Function s \<in> set (AllowedAggregates policy))"
proof -
  have "range_error (\<lambda>_ s. fail_if (sel_Kind s = ''aggregate'' \<and> sel_Function s \<notin> set (AllowedAggregates policy)) e) ss = None \<longleftrightarrow>
      (\<forall>s \<in> set ss. sel_Kind s = ''aggregate'' \<longrightarrow> sel_Function s \<in> set (AllowedAggregates policy))" for ss and e :: policy_error
    by (rule range_error_None_set) auto
  then show ?thesis by (auto simp: authorizeFeatures_def)
qed

lemma select_permitted_iff:
  "select_permitted profile sem spec \<longleftrightarrow>
     schema_allowed (prof_Resources profile) sem (ref_Schema (ns_Source spec)) \<and>
     object_allowed (prof_Resources profile) sem (ref_Schema (ns_Source spec)) (ref_Name (ns_Source spec)) \<and>
     (\<forall>field \<in> set (referencedFields spec).
        field_allowed (prof_Resources profile) sem (ref_Schema (ns_Source spec)) (ref_Name (ns_Source spec)) field) \<and>
     authorizeFeatures (prof_Query profile) spec = None"
  by (auto simp: select_permitted_def Let_def referencedFields_complete authorizeFeatures_None filter_feature_error_None)

text \<open>
  C1: a client's select passes validation under the server's hard limits, binding and authorisation exactly
  when it is valid under the effective limits of the profile, is a simple select, and the profile permits
  everything it mentions; the grant then carries the query as the client wrote it, with the row limit
  clipped to the effective limit.
\<close>

theorem select_path_is_exact:
  assumes "AuthorizeBinding s principalName profileName datasource OperationSelect = Inr b"
    and "principalName \<noteq> [] \<and> profileName \<noteq> [] \<and> datasource \<noteq> []"
    and "profiles s profileName = Some profile"
    and "eff = Limits_Min (hardLimits s) (prof_Limits profile)" and "usable_limits eff"
  shows "(\<exists>v g. validate_under (hardLimits s) spec = Inr v \<and> AuthorizeSelect s b v sem = Inr g \<and> aq_query g = w) \<longleftrightarrow>
    validate_under eff spec = Inr w \<and> ValidateSimpleSelect w = None \<and> select_permitted profile sem (v_spec w)"
proof -
  have b: "profileForBinding s b OperationSelect = Inr profile"
    using assms(1-3) by (auto simp: AuthorizeBinding_Inr profileForBinding_Inr bound_to_def assigned_def)
  have le: "limits_le eff (hardLimits s)" unfolding assms(4) by (rule limits_meet.cobounded1)
  have "(\<exists>g. AuthorizeSelect s b v sem = Inr g \<and> aq_query g = w) \<longleftrightarrow>
      revalidate_under eff v = Inr w \<and> ValidateSimpleSelect w = None \<and>
      select_permitted profile sem (Validated_Spec w)" for v
    unfolding AuthorizeSelect_def authorizeQuery_Inr b assms(4) select_permitted_iff
    by (auto simp: Validated_Spec_def cloneNormalized_def)
  moreover have "validate_under eff spec = Inr w \<Longrightarrow> Validated_Spec w = v_spec w"
    by (rule Validated_Spec_validate)
  ultimately show ?thesis
    using select_query.two_stages [OF assms(5) le, of spec w] by auto
qed

theorem select_path_is_exact_witness:
  "\<exists>v g. validate_under (hardLimits sample_snapshot) sample_spec = Inr v \<and>
     AuthorizeSelect sample_snapshot (sample_binding OperationSelect) v sample_semantics = Inr g \<and>
     aq_query g = normalized sample_spec 100 \<and>
     select_permitted sample_profile sample_semantics (v_spec (normalized sample_spec 100))"
proof -
  have b: "AuthorizeBinding sample_snapshot ''alice'' ''ops'' ''main'' OperationSelect = Inr (sample_binding OperationSelect)"
    by (rule sample_binding_minted) (simp add: sample_profile_def)
  have h: "hardLimits sample_snapshot = sample_limits 1000" "prof_Limits sample_profile = sample_limits 100"
    "profiles sample_snapshot ''ops'' = Some sample_profile"
    by (simp_all add: sample_snapshot_def sample_profile_def)
  have u: "usable_limits (sample_limits 100)" by (simp add: usable_limits_def sample_limits_def)
  have eff: "sample_limits 100 = Limits_Min (hardLimits sample_snapshot) (prof_Limits sample_profile)" by (simp add: h)
  have v: "validate_under (hardLimits sample_snapshot) sample_spec = Inr (normalized sample_spec 1000)"
    unfolding h by (rule sample_spec_valid)
  from v sample_select_granted select_path_is_exact [OF b _ h(3) eff u, of sample_spec sample_semantics "normalized sample_spec 100"]
  have "select_permitted sample_profile sample_semantics (v_spec (normalized sample_spec 100))" by auto
  with v sample_select_granted show ?thesis by blast
qed

end
